(* ===== verification/Prelude.thy ===== *)
theory Prelude
  imports Complex_Main
begin

section \<open>Prelude: results, transactions, collections\<close>

text \<open>
  What every component of the model shares.

  \<^item> \<open>error\<close>: the exceptions the backend raises, as values. \<open>ApiError\<close> keeps the HTTP status and
    the machine-readable code; the human-readable message is not modelled. A plain
    \<open>throw new Error(...)\<close> keeps its text, because it has no code.
  \<^item> A state-changing operation is a function from the database to a result and the database it
    leaves behind. \<open>transaction\<close> is what \<open>db.transaction(...)\<close> of mongoose does with a callback: when the
    callback throws, none of its writes stay.
  \<^item> A MongoDB collection is the list of its documents in natural order. \<open>update_first\<close>,
    \<open>find_and_update\<close>, \<open>update_all\<close> and \<open>insert_row\<close> are the driver's \<open>updateOne\<close>,
    \<open>findOneAndUpdate\<close>, \<open>updateMany\<close> and \<open>create\<close> (with a unique index). \<open>total\<close> is the sum of a
    field over the documents that match a filter; most accounting invariants are equations on it.
  \<^item> \<open>table\<close> is the interface of one collection inside the database record: a getter and a setter
    with the lens laws.
\<close>

named_theorems store_simps \<open>reading and writing the collections of the database\<close>
named_theorems total_simps \<open>sums over collections after an update\<close>

datatype error =
    ApiError int string
  | ReservationError string
  | PlainError string
  | ModelError string
  | DuplicateKey

type_synonym ('s, 'a) op = "'s \<Rightarrow> (error + 'a) \<times> 's"

definition transaction :: "('s, 'a) op \<Rightarrow> ('s, 'a) op" where
  "transaction body s = (case body s of (Inl e, _) \<Rightarrow> (Inl e, s) | (Inr v, s') \<Rightarrow> (Inr v, s'))"

definition chain :: "('s, 'a) op \<Rightarrow> ('a \<Rightarrow> ('s, 'b) op) \<Rightarrow> ('s, 'b) op" where
  "chain m k s = (case m s of (Inl e, s') \<Rightarrow> (Inl e, s') | (Inr v, s') \<Rightarrow> k v s')"

lemma transaction_Inl [simp]: "fst (body s) = Inl e \<Longrightarrow> transaction body s = (Inl e, s)"
  by (cases "body s") (simp add: transaction_def)

lemma transaction_Inr: "body s = (Inr v, s') \<Longrightarrow> transaction body s = (Inr v, s')"
  by (simp add: transaction_def)

lemma transaction_eq_Inr: "transaction body s = (Inr v, s') \<longleftrightarrow> body s = (Inr v, s')"
  by (auto simp: transaction_def split: prod.splits sum.splits)

lemma transaction_eq_Inl: "transaction body s = (Inl e, s') \<longleftrightarrow> s' = s \<and> fst (body s) = Inl e"
  by (auto simp: transaction_def split: prod.splits sum.splits)

text \<open>The database a transaction leaves is the old one or the one a successful callback left.\<close>

lemma transaction_cases:
  assumes "transaction body s = (r, s')"
  obtains (aborted) e where "r = Inl e" and "s' = s" and "fst (body s) = Inl e"
    | (committed) v where "r = Inr v" and "body s = (Inr v, s')"
  using assms by (auto simp: transaction_def split: prod.splits sum.splits)

lemma chain_Inr: "m s = (Inr v, s') \<Longrightarrow> chain m k s = k v s'"
  by (simp add: chain_def)

lemma chain_eq_Inr:
  "chain m k s = (Inr w, t) \<longleftrightarrow> (\<exists>v s'. m s = (Inr v, s') \<and> k v s' = (Inr w, t))"
  by (auto simp: chain_def split: prod.splits sum.splits)

text \<open>
  Pure code that may throw: \<open>bindE\<close> runs the rest only when the first part returned a value, and
  \<open>require b e\<close> is \<open>if (!b) throw e\<close>.
\<close>

definition bindE :: "error + 'a \<Rightarrow> ('a \<Rightarrow> error + 'b) \<Rightarrow> error + 'b" where
  "bindE m k = (case m of Inl e \<Rightarrow> Inl e | Inr v \<Rightarrow> k v)"

definition require :: "bool \<Rightarrow> error \<Rightarrow> error + unit" where
  "require b e = (if b then Inr () else Inl e)"

lemma bindE_simps [simp]: "bindE (Inl e) k = Inl e" "bindE (Inr v) k = k v"
  by (simp_all add: bindE_def)

lemma bindE_eq_Inr [simp]: "bindE m k = Inr w \<longleftrightarrow> (\<exists>v. m = Inr v \<and> k v = Inr w)"
  by (cases m) auto

lemma require_eq_Inr [simp]: "require b e = Inr u \<longleftrightarrow> b"
  by (simp add: require_def)

lemma require_True [simp]: "require True e = Inr ()"
  by (simp add: require_def)

lemma require_False [simp]: "require False e = Inl e"
  by (simp add: require_def)

subsection \<open>Collections\<close>

primrec update_first :: "('a \<Rightarrow> bool) \<Rightarrow> ('a \<Rightarrow> 'a) \<Rightarrow> 'a list \<Rightarrow> 'a list" where
  "update_first p f [] = []"
| "update_first p f (x # xs) = (if p x then f x # xs else x # update_first p f xs)"

definition find_and_update :: "('a \<Rightarrow> bool) \<Rightarrow> ('a \<Rightarrow> 'a) \<Rightarrow> 'a list \<Rightarrow> ('a \<times> 'a list) option" where
  "find_and_update p f xs =
     (case List.find p xs of None \<Rightarrow> None | Some x \<Rightarrow> Some (f x, update_first p f xs))"

definition update_all :: "('a \<Rightarrow> bool) \<Rightarrow> ('a \<Rightarrow> 'a) \<Rightarrow> 'a list \<Rightarrow> 'a list" where
  "update_all p f xs = map (\<lambda>x. if p x then f x else x) xs"

definition insert_row :: "('a \<Rightarrow> bool) \<Rightarrow> 'a \<Rightarrow> 'a list \<Rightarrow> 'a list option" where
  "insert_row clash x xs = (if list_ex clash xs then None else Some (xs @ [x]))"

definition total :: "('a \<Rightarrow> bool) \<Rightarrow> ('a \<Rightarrow> int) \<Rightarrow> 'a list \<Rightarrow> int" where
  "total p f xs = sum_list (map f (filter p xs))"

lemma total_Nil [simp]: "total p f [] = 0"
  by (simp add: total_def)

lemma total_Cons [simp]: "total p f (x # xs) = (if p x then f x else 0) + total p f xs"
  by (simp add: total_def)

lemma total_append [simp]: "total p f (xs @ ys) = total p f xs + total p f ys"
  by (simp add: total_def)

lemma total_cong:
  "(\<And>x. x \<in> set xs \<Longrightarrow> p x = q x) \<Longrightarrow> (\<And>x. x \<in> set xs \<Longrightarrow> q x \<Longrightarrow> f x = g x) \<Longrightarrow>
    total p f xs = total q g xs"
  by (induction xs) auto

lemma total_nonneg: "(\<And>x. x \<in> set xs \<Longrightarrow> p x \<Longrightarrow> 0 \<le> f x) \<Longrightarrow> 0 \<le> total p f xs"
  by (induction xs) (auto simp: add_nonneg_nonneg)

lemma total_ge_member:
  "x \<in> set xs \<Longrightarrow> p x \<Longrightarrow> (\<And>y. y \<in> set xs \<Longrightarrow> p y \<Longrightarrow> 0 \<le> f y) \<Longrightarrow> f x \<le> total p f xs"
proof (induction xs)
  case Nil
  then show ?case by simp
next
  case (Cons y xs)
  have rest: "0 \<le> total p f xs"
    by (rule total_nonneg) (use Cons.prems in auto)
  show ?case
  proof (cases "x = y")
    case True
    with Cons.prems rest show ?thesis by simp
  next
    case False
    with Cons have "f x \<le> total p f xs" by auto
    moreover have "p y \<Longrightarrow> 0 \<le> f y" using Cons.prems by simp
    ultimately show ?thesis by auto
  qed
qed

lemma find_Cons_split:
  "List.find p (x # xs) = Some y \<longleftrightarrow> (if p x then x = y else List.find p xs = Some y)"
  by simp

lemma find_SomeD: "List.find p xs = Some x \<Longrightarrow> p x \<and> x \<in> set xs"
  by (induction xs) (auto split: if_splits)

lemma find_NoneD: "List.find p xs = None \<Longrightarrow> x \<in> set xs \<Longrightarrow> \<not> p x"
  by (induction xs) (auto split: if_splits)

lemma find_unique_key:
  "distinct (map key xs) \<Longrightarrow> x \<in> set xs \<Longrightarrow> List.find (\<lambda>y. key y = key x) xs = Some x"
  by (induction xs) (auto simp: image_iff)

lemma find_key_iff:
  assumes "distinct (map key xs)"
  shows "List.find (\<lambda>y. key y = k) xs = Some x \<longleftrightarrow> x \<in> set xs \<and> key x = k"
  using assms by (auto dest: find_SomeD find_unique_key)

lemma update_first_none [store_simps]: "List.find p xs = None \<Longrightarrow> update_first p f xs = xs"
  by (induction xs) (auto split: if_splits)

lemma length_update_first [simp]: "length (update_first p f xs) = length xs"
  by (induction xs) auto

lemma set_update_first_subset: "set (update_first p f xs) \<subseteq> set xs \<union> f ` {x \<in> set xs. p x}"
  by (induction xs) auto

lemma set_update_firstD:
  "y \<in> set (update_first p f xs) \<Longrightarrow> y \<in> set xs \<or> (\<exists>x \<in> set xs. p x \<and> y = f x)"
  using set_update_first_subset [of p f xs] by blast

lemma update_first_found: "List.find p xs = Some x \<Longrightarrow> f x \<in> set (update_first p f xs)"
  by (induction xs) (auto split: if_splits)

lemma map_update_first [store_simps]:
  "(\<And>x. p x \<Longrightarrow> key (f x) = key x) \<Longrightarrow> map key (update_first p f xs) = map key xs"
  by (induction xs) auto

lemma map_update_all [store_simps]:
  "(\<And>x. p x \<Longrightarrow> key (f x) = key x) \<Longrightarrow> map key (update_all p f xs) = map key xs"
  by (induction xs) (auto simp: update_all_def)

lemma set_update_all: "set (update_all p f xs) = f ` {x \<in> set xs. p x} \<union> {x \<in> set xs. \<not> p x}"
  by (auto simp: update_all_def)

lemma find_update_first_key [store_simps]:
  "(\<And>x. key (f x) = key x) \<Longrightarrow>
    List.find (\<lambda>y. key y = k) (update_first (\<lambda>y. key y = k) f xs)
      = map_option f (List.find (\<lambda>y. key y = k) xs)"
  by (induction xs) auto

lemma find_update_first_other [store_simps]:
  "(\<And>x. key (f x) = key x) \<Longrightarrow> k \<noteq> j \<Longrightarrow>
    List.find (\<lambda>y. key y = j) (update_first (\<lambda>y. key y = k) f xs) = List.find (\<lambda>y. key y = j) xs"
  by (induction xs) auto

lemma total_update_first [total_simps]:
  "List.find q xs = Some x \<Longrightarrow>
    total p f (update_first q g xs)
      = total p f xs - (if p x then f x else 0) + (if p (g x) then f (g x) else 0)"
  by (induction xs) (auto split: if_splits)

lemma total_update_same [total_simps]:
  "(\<And>x. q x \<Longrightarrow> p (g x) = p x) \<Longrightarrow> (\<And>x. q x \<Longrightarrow> f (g x) = f x) \<Longrightarrow>
    total p f (update_first q g xs) = total p f xs"
  by (induction xs) auto

text \<open>An update under a unique key replaces the one document it finds and keeps all the others.\<close>

lemma set_update_find:
  assumes "distinct (map key xs)" and "List.find p xs = Some x" and "\<And>y. p y \<Longrightarrow> key y = k"
  shows "set (update_first p f xs) = insert (f x) (set xs - {x})"
  using assms
proof (induction xs)
  case (Cons z zs)
  show ?case
  proof (cases "p z")
    case True
    with Cons.prems have "x = z" "z \<notin> set zs" by auto
    with True show ?thesis by auto
  next
    case False
    with Cons.prems have x: "List.find p zs = Some x" by simp
    from find_SomeD [OF x] Cons.prems(1) have "x \<noteq> z" by auto
    with False Cons.IH [OF _ x] Cons.prems show ?thesis by auto
  qed
qed simp

lemma find_and_update_keys:
  assumes "distinct (map key xs)" and "find_and_update p f xs = Some (y, ys)"
    and "\<And>z. p z \<Longrightarrow> key z = k" and "\<And>z. key (f z) = key z"
  obtains x where "x \<in> set xs" and "p x" and "y = f x" and "set ys = insert (f x) (set xs - {x})"
    and "map key ys = map key xs" and "List.find p xs = Some x" and "ys = update_first p f xs"
proof -
  from assms(2) obtain x where x: "List.find p xs = Some x" "y = f x" "ys = update_first p f xs"
    by (auto simp: find_and_update_def split: option.splits)
  show thesis
    by (rule that [of x])
      (use x find_SomeD [OF x(1)] set_update_find [OF assms(1) x(1) assms(3)] assms(4) in \<open>auto simp: map_update_first\<close>)
qed

lemma total_update_all:
  "total p f (update_all q g xs) = total (\<lambda>x. \<not> q x \<and> p x) f xs + total (\<lambda>x. q x \<and> p (g x)) (f \<circ> g) xs"
  by (induction xs) (auto simp: update_all_def)

lemma total_split: "total p f xs = total (\<lambda>x. p x \<and> q x) f xs + total (\<lambda>x. p x \<and> \<not> q x) f xs"
  by (induction xs) auto

lemma insert_row_Some: "insert_row c x xs = Some ys \<longleftrightarrow> ys = xs @ [x] \<and> (\<forall>y \<in> set xs. \<not> c y)"
  by (auto simp: insert_row_def list_ex_iff)

lemma insert_row_None: "insert_row c x xs = None \<longleftrightarrow> (\<exists>y \<in> set xs. c y)"
  by (auto simp: insert_row_def list_ex_iff)

lemma find_append_new: "List.find p xs = None \<Longrightarrow> List.find p (xs @ [x]) = (if p x then Some x else None)"
  by (induction xs) (auto split: if_splits)

lemma find_append_old: "List.find p xs = Some y \<Longrightarrow> List.find p (xs @ ys) = Some y"
  by (induction xs) (auto split: if_splits)

lemma find_and_update_Some:
  "find_and_update p f xs = Some (y, ys) \<longleftrightarrow>
    (\<exists>x. List.find p xs = Some x \<and> y = f x \<and> ys = update_first p f xs)"
  by (auto simp: find_and_update_def split: option.splits)

lemma find_and_update_None: "find_and_update p f xs = None \<longleftrightarrow> List.find p xs = None"
  by (auto simp: find_and_update_def split: option.splits)

text \<open>
  A cursor's \<open>.sort(...)\<close>, stable; \<open>le a b\<close> says that \<open>a\<close> may stand before \<open>b\<close>. \<open>clamp\<close> is
  \<open>Math.min(Math.max(n, lo), hi)\<close>, the usual bound on \<open>.limit(...)\<close>.
\<close>

primrec insert_by :: "('a \<Rightarrow> 'a \<Rightarrow> bool) \<Rightarrow> 'a \<Rightarrow> 'a list \<Rightarrow> 'a list" where
  "insert_by le x [] = [x]"
| "insert_by le x (y # ys) = (if le x y then x # y # ys else y # insert_by le x ys)"

definition sort_by :: "('a \<Rightarrow> 'a \<Rightarrow> bool) \<Rightarrow> 'a list \<Rightarrow> 'a list" where
  "sort_by le xs = foldr (insert_by le) xs []"

definition clamp :: "int \<Rightarrow> int \<Rightarrow> int \<Rightarrow> int" where
  "clamp lo hi n = min (max n lo) hi"

lemma sort_by_simps [simp]: "sort_by le [] = []" "sort_by le (x # xs) = insert_by le x (sort_by le xs)"
  by (simp_all add: sort_by_def)

lemma set_insert_by [simp]: "set (insert_by le x ys) = insert x (set ys)"
  by (induction ys) auto

lemma set_sort_by [simp]: "set (sort_by le xs) = set xs"
  by (induction xs) auto

lemma length_insert_by [simp]: "length (insert_by le x ys) = Suc (length ys)"
  by (induction ys) auto

lemma length_sort_by [simp]: "length (sort_by le xs) = length xs"
  by (induction xs) auto

lemma insert_by_sorted:
  assumes "\<And>a b. le a b \<or> le b a" and "\<And>a b c. le a b \<Longrightarrow> le b c \<Longrightarrow> le a c" and "sorted_wrt le ys"
  shows "sorted_wrt le (insert_by le x ys)"
  using assms(3)
proof (induction ys)
  case (Cons y ys)
  then have "sorted_wrt le (insert_by le x ys)" and tail: "\<forall>z \<in> set ys. le y z" "sorted_wrt le ys" by simp_all
  moreover have "le y x" if "\<not> le x y" using assms(1) [of x y] that by blast
  moreover have "\<forall>z \<in> set ys. le x z" if "le x y" using assms(2) [OF that] tail(1) by blast
  ultimately show ?case by simp
qed simp

lemma sort_by_sorted:
  assumes "\<And>a b. le a b \<or> le b a" and "\<And>a b c. le a b \<Longrightarrow> le b c \<Longrightarrow> le a c"
  shows "sorted_wrt le (sort_by le xs)"
  using assms by (induction xs) (auto intro!: insert_by_sorted)

subsection \<open>One collection of the database\<close>

locale table =
  fixes rows :: "'db \<Rightarrow> 'r list"
    and set_rows :: "'r list \<Rightarrow> 'db \<Rightarrow> 'db"
    and key :: "'r \<Rightarrow> 'k"
  assumes rows_set_rows: "rows (set_rows xs d) = xs"
    and set_rows_rows: "set_rows (rows d) d = d"
    and set_rows_twice: "set_rows xs (set_rows ys d) = set_rows xs d"
begin

lemma lookup_after_update:
  assumes "\<And>x. key (f x) = key x"
  shows "List.find (\<lambda>y. key y = k) (rows (set_rows (update_first (\<lambda>y. key y = k) f (rows d)) d))
    = map_option f (List.find (\<lambda>y. key y = k) (rows d))"
  by (simp add: rows_set_rows find_update_first_key assms)

lemma lookup_other_after_update:
  assumes "\<And>x. key (f x) = key x" and "j \<noteq> k"
  shows "List.find (\<lambda>y. key y = j) (rows (set_rows (update_first (\<lambda>y. key y = k) f (rows d)) d))
    = List.find (\<lambda>y. key y = j) (rows d)"
  using assms by (simp add: rows_set_rows find_update_first_other)

lemma keys_stay_distinct:
  assumes "\<And>x. p x \<Longrightarrow> key (f x) = key x" and "distinct (map key (rows d))"
  shows "distinct (map key (rows (set_rows (update_first p f (rows d)) d)))"
  using assms by (simp add: rows_set_rows map_update_first)

lemma insert_keeps_distinct:
  assumes "insert_row (\<lambda>y. key y = key x) x (rows d) = Some ys" and "distinct (map key (rows d))"
  shows "distinct (map key (rows (set_rows ys d)))"
  using assms by (auto simp: rows_set_rows insert_row_Some)

lemma unchanged_update: "List.find p (rows d) = None \<Longrightarrow> set_rows (update_first p f (rows d)) d = d"
  by (simp add: update_first_none set_rows_rows)

end

subsection \<open>JavaScript numbers\<close>

text \<open>
  \<open>Number.MAX_SAFE_INTEGER\<close>. Minor-unit amounts are JavaScript numbers that the code keeps inside
  the safe-integer range; they are modelled as \<open>int\<close>, with the range check where the code has it.
\<close>

definition MAX_SAFE_INTEGER :: int where
  "MAX_SAFE_INTEGER = 2 ^ 53 - 1"

definition isSafeInteger :: "int \<Rightarrow> bool" where
  "isSafeInteger n \<longleftrightarrow> - MAX_SAFE_INTEGER \<le> n \<and> n \<le> MAX_SAFE_INTEGER"

lemma max_safe_pos [simp]: "0 \<le> MAX_SAFE_INTEGER" "0 < MAX_SAFE_INTEGER"
  by (simp_all add: MAX_SAFE_INTEGER_def)

text \<open>A member that is \<open>undefined\<close> in a \<open>$set\<close> leaves the stored field as it is.\<close>

definition opt_else :: "'a option \<Rightarrow> 'a option \<Rightarrow> 'a option" where
  "opt_else x y = (case x of Some v \<Rightarrow> Some v | None \<Rightarrow> y)"

definition opt_or :: "'a option \<Rightarrow> 'a \<Rightarrow> 'a" where
  "opt_or o' d = (case o' of Some x \<Rightarrow> x | None \<Rightarrow> d)"

lemma opt_or_simps [simp]: "opt_or (Some x) d = x" "opt_or None d = d"
  by (simp_all add: opt_or_def)

end
