(* ===== verification/Js_Strings.thy ===== *)
theory Js_Strings
  imports Prelude
begin

section \<open>JavaScript strings\<close>

text \<open>
  The string operations of the language that the code relies on: \<open>trim\<close>, \<open>toUpperCase\<close> and
  \<open>toLowerCase\<close> (on ASCII), \<open>includes\<close> (here \<open>contains\<close>), \<open>endsWith\<close>, \<open>split\<close> on one character, \<open>join\<close>, the decimal
  form of a \<open>bigint\<close> and its parser, and \<open>JSON.stringify\<close> on the objects the code hashes. Strings
  are lists of 8-bit characters, so a character beyond Latin-1 is outside the model.

  The main facts: printing and parsing decimals are mutually inverse on canonical strings, and
  \<open>JSON.stringify\<close> is injective on lists of string fields, which is what makes a request
  fingerprint identify a request.
\<close>

subsection \<open>Characters\<close>

abbreviation code :: "char \<Rightarrow> nat" where
  "code c \<equiv> of_char c"

definition is_digit :: "char \<Rightarrow> bool" where
  "is_digit c \<longleftrightarrow> 48 \<le> code c \<and> code c \<le> 57"

definition is_space :: "char \<Rightarrow> bool" where
  "is_space c \<longleftrightarrow> (9 \<le> code c \<and> code c \<le> 13) \<or> code c = 32 \<or> code c = 160"

definition upper_char :: "char \<Rightarrow> char" where
  "upper_char c = (if 97 \<le> code c \<and> code c \<le> 122 then char_of (code c - 32) else c)"

definition lower_char :: "char \<Rightarrow> char" where
  "lower_char c = (if 65 \<le> code c \<and> code c \<le> 90 then char_of (code c + 32) else c)"

definition toUpperCase :: "string \<Rightarrow> string" where
  "toUpperCase s = map upper_char s"

definition toLowerCase :: "string \<Rightarrow> string" where
  "toLowerCase s = map lower_char s"

definition trim :: "string \<Rightarrow> string" where
  "trim s = rev (dropWhile is_space (rev (dropWhile is_space s)))"

fun starts_with :: "string \<Rightarrow> string \<Rightarrow> bool" where
  "starts_with [] s = True"
| "starts_with (p # ps) [] = False"
| "starts_with (p # ps) (c # cs) = (p = c \<and> starts_with ps cs)"

fun contains :: "string \<Rightarrow> string \<Rightarrow> bool" where
  "contains p [] = (p = [])"
| "contains p (c # cs) = (starts_with p (c # cs) \<or> contains p cs)"

definition endsWith :: "string \<Rightarrow> string \<Rightarrow> bool" where
  "endsWith s suffix = starts_with (rev suffix) (rev s)"

text \<open>\<open>s.split(c)\<close>: never empty; \<open>xs.join(sep)\<close>.\<close>

fun split_on :: "char \<Rightarrow> string \<Rightarrow> string list" where
  "split_on d [] = [[]]"
| "split_on d (c # cs) =
     (if c = d then [] # split_on d cs
      else (case split_on d cs of [] \<Rightarrow> [[c]] | w # ws \<Rightarrow> (c # w) # ws))"

fun join :: "string \<Rightarrow> string list \<Rightarrow> string" where
  "join sep [] = []"
| "join sep [s] = s"
| "join sep (s # t # ts) = s @ sep @ join sep (t # ts)"

text \<open>Comparison of strings by code unit, as \<open><\<close> on strings and a cursor's sort do.\<close>

fun str_le :: "string \<Rightarrow> string \<Rightarrow> bool" where
  "str_le [] t = True"
| "str_le (c # s) [] = False"
| "str_le (c # s) (d # t) = (if c = d then str_le s t else code c < code d)"

lemma str_le_refl [simp]: "str_le s s"
  by (induction s) auto

lemma str_le_total: "str_le s t \<or> str_le t s"
  by (induction s t rule: str_le.induct) (auto simp: not_less order.order_iff_strict)

lemma str_le_antisym: "str_le s t \<Longrightarrow> str_le t s \<Longrightarrow> s = t"
  by (induction s t rule: str_le.induct) (auto split: if_splits elim: str_le.elims)

lemma str_le_trans: "str_le s t \<Longrightarrow> str_le t u \<Longrightarrow> str_le s u"
proof (induction s t arbitrary: u rule: str_le.induct)
  case (3 c s d t)
  then show ?case by (cases u) (auto split: if_splits)
qed auto

lemma split_on_nonempty [simp]: "split_on d s \<noteq> []"
  by (cases s) (auto split: list.splits)

lemma split_on_free: "d \<notin> set s \<Longrightarrow> split_on d s = [s]"
  by (induction s) auto

lemma split_on_append: "d \<notin> set s \<Longrightarrow> split_on d (s @ d # t) = s # split_on d t"
  by (induction s) (auto split: list.splits)

lemma split_on_join:
  "ws \<noteq> [] \<Longrightarrow> \<forall>w \<in> set ws. d \<notin> set w \<Longrightarrow> split_on d (join [d] ws) = ws"
  by (induction "[d]" ws rule: join.induct) (auto simp: split_on_free split_on_append)

lemma join_inject:
  assumes "length xs = length ys" and "\<forall>w \<in> set xs. d \<notin> set w" and "\<forall>w \<in> set ys. d \<notin> set w"
    and "join [d] xs = join [d] ys"
  shows "xs = ys"
proof (cases "xs = []")
  case True
  with assms(1) show ?thesis by simp
next
  case False
  then have ne: "xs \<noteq> []" "ys \<noteq> []" using assms(1) by auto
  have "xs = split_on d (join [d] xs)" by (rule split_on_join [OF ne(1) assms(2), symmetric])
  also have "\<dots> = split_on d (join [d] ys)" by (rule arg_cong [OF assms(4)])
  also have "\<dots> = ys" by (rule split_on_join [OF ne(2) assms(3)])
  finally show ?thesis .
qed

subsection \<open>Decimal numerals\<close>

definition digit_char :: "nat \<Rightarrow> char" where
  "digit_char n = char_of (48 + n)"

definition digit_value :: "char \<Rightarrow> nat" where
  "digit_value c = code c - 48"

lemma digit_value_char [simp]: "n < 10 \<Longrightarrow> digit_value (digit_char n) = n"
  by (simp add: digit_value_def digit_char_def)

lemma is_digit_char [simp]: "n < 10 \<Longrightarrow> is_digit (digit_char n)"
  by (simp add: is_digit_def digit_char_def)

lemma digit_char_value [simp]: "is_digit c \<Longrightarrow> digit_char (digit_value c) = c"
  by (simp add: is_digit_def digit_char_def digit_value_def)

lemma digit_value_less: "is_digit c \<Longrightarrow> digit_value c < 10"
  by (auto simp: is_digit_def digit_value_def)

lemma digit_char_zero [simp]: "digit_char 0 = CHR ''0''"
  by code_simp

lemma digit_char_0: "n < 10 \<Longrightarrow> digit_char n = CHR ''0'' \<longleftrightarrow> n = 0"
  by (metis digit_char_zero digit_value_char zero_less_numeral)

text \<open>\<open>value.toString(10)\<close> of a non-negative \<open>bigint\<close>, and \<open>BigInt(s)\<close> of a string of digits.\<close>

fun dec_of_nat :: "nat \<Rightarrow> string" where
  "dec_of_nat n = (if n < 10 then [digit_char n] else dec_of_nat (n div 10) @ [digit_char (n mod 10)])"

declare dec_of_nat.simps [simp del]

text \<open>The same digits computed on \<open>int\<close>, which evaluates on binary numerals.\<close>

function int_digits :: "int \<Rightarrow> string" where
  "int_digits i = (if i < 10 then [digit_char (nat i)] else int_digits (i div 10) @ [digit_char (nat (i mod 10))])"
  by auto
termination by (relation "measure nat") auto

declare int_digits.simps [simp del]

lemma dec_of_nat_code: "dec_of_nat n = int_digits (int n)"
proof (induction n rule: dec_of_nat.induct)
  case (1 n)
  have "nat (int n mod 10) = n mod 10" "int n div 10 = int (n div 10)" by (simp_all add: nat_mod_distrib zdiv_int)
  with 1 show ?case
    by (subst dec_of_nat.simps, subst int_digits.simps) simp
qed

lemma dec_of_int_digits: "dec_of_nat (nat i) = int_digits i"
proof (cases "0 \<le> i")
  case False
  then show ?thesis by (subst dec_of_nat.simps, subst int_digits.simps) simp
qed (simp add: dec_of_nat_code)

declare dec_of_nat_code [code]

definition nat_of_dec :: "string \<Rightarrow> nat" where
  "nat_of_dec s = foldl (\<lambda>acc c. 10 * acc + digit_value c) 0 s"

lemma nat_of_dec_snoc: "nat_of_dec (s @ [c]) = 10 * nat_of_dec s + digit_value c"
  by (simp add: nat_of_dec_def)

lemma nat_of_dec_Nil [simp]: "nat_of_dec [] = 0"
  by (simp add: nat_of_dec_def)

lemma nat_of_dec_append: "nat_of_dec (s @ t) = nat_of_dec s * 10 ^ length t + nat_of_dec t"
proof (induction t rule: rev_induct)
  case Nil
  then show ?case by simp
next
  case (snoc c t)
  have "nat_of_dec (s @ t @ [c]) = 10 * nat_of_dec (s @ t) + digit_value c"
    using nat_of_dec_snoc [of "s @ t" c] by simp
  with snoc show ?case by (simp add: nat_of_dec_snoc algebra_simps)
qed

lemma nat_of_dec_of_nat [simp]: "nat_of_dec (dec_of_nat n) = n"
proof (induction n rule: dec_of_nat.induct)
  case (1 n)
  show ?case
  proof (cases "n < 10")
    case True
    then show ?thesis by (subst dec_of_nat.simps) (simp add: nat_of_dec_def)
  next
    case False
    with "1.IH" show ?thesis
      by (subst dec_of_nat.simps) (simp add: nat_of_dec_snoc)
  qed
qed

lemma dec_of_nat_digits: "c \<in> set (dec_of_nat n) \<Longrightarrow> is_digit c"
proof (induction n rule: dec_of_nat.induct)
  case (1 n)
  then show ?case
    by (cases "n < 10") (auto simp: dec_of_nat.simps [of n])
qed

lemma dec_of_nat_nonempty [simp]: "dec_of_nat n \<noteq> []"
  by (subst dec_of_nat.simps) simp

lemma dec_of_nat_inject [simp]: "dec_of_nat m = dec_of_nat n \<longleftrightarrow> m = n"
  by (metis nat_of_dec_of_nat)

text \<open>The regular expression \<open>(0|[1-9]\d*)\<close>: canonical decimals.\<close>

fun canonical_decimal :: "string \<Rightarrow> bool" where
  "canonical_decimal [] = False"
| "canonical_decimal (c # cs) =
     (if c = CHR ''0'' then cs = [] else is_digit c \<and> list_all is_digit cs)"

lemma canonical_digits: "canonical_decimal s \<Longrightarrow> list_all is_digit s"
  by (cases s) (auto simp: is_digit_def split: if_splits)

lemma canonical_snoc:
  "s \<noteq> [] \<Longrightarrow> canonical_decimal (s @ [c]) \<Longrightarrow> canonical_decimal s \<and> hd s \<noteq> CHR ''0'' \<and> is_digit c"
  by (cases s) (auto split: if_splits)

lemma dec_of_nat_hd: "0 < n \<Longrightarrow> hd (dec_of_nat n) \<noteq> CHR ''0''"
proof (induction n rule: dec_of_nat.induct)
  case (1 n)
  show ?case
  proof (cases "n < 10")
    case True
    with "1.prems" show ?thesis by (simp add: dec_of_nat.simps [of n] digit_char_0)
  next
    case False
    then have "0 < n div 10" by simp
    with False "1.IH" show ?thesis by (simp add: dec_of_nat.simps [of n])
  qed
qed

lemma canonical_dec_of_nat [simp]: "canonical_decimal (dec_of_nat n)"
proof (cases "n = 0")
  case True
  then show ?thesis by (simp add: dec_of_nat.simps [of 0])
next
  case False
  obtain c cs where s: "dec_of_nat n = c # cs" by (cases "dec_of_nat n") auto
  have "c \<noteq> CHR ''0''" using dec_of_nat_hd [of n] False s by simp
  moreover have "\<forall>d \<in> set (c # cs). is_digit d"
    using dec_of_nat_digits [of _ n] s by auto
  ultimately show ?thesis by (simp add: s list_all_iff)
qed

lemma nat_of_dec_pos: "canonical_decimal s \<Longrightarrow> hd s \<noteq> CHR ''0'' \<Longrightarrow> 0 < nat_of_dec s"
proof (induction s rule: rev_induct)
  case Nil
  then show ?case by simp
next
  case (snoc c s)
  show ?case
  proof (cases "s = []")
    case True
    with snoc.prems have "is_digit c" "c \<noteq> CHR ''0''" by (auto split: if_splits)
    then have "digit_value c \<noteq> 0"
      using digit_char_0 [of "digit_value c"] digit_value_less [of c] by simp
    with True show ?thesis by (simp add: nat_of_dec_def)
  next
    case False
    with snoc.prems have "canonical_decimal s \<and> hd s \<noteq> CHR ''0''" using canonical_snoc by blast
    with snoc.IH show ?thesis by (simp add: nat_of_dec_snoc)
  qed
qed

lemma dec_of_nat_of_dec: "canonical_decimal s \<Longrightarrow> dec_of_nat (nat_of_dec s) = s"
proof (induction s rule: rev_induct)
  case Nil
  then show ?case by simp
next
  case (snoc c s)
  show ?case
  proof (cases "s = []")
    case True
    with snoc.prems have d: "is_digit c" by (auto simp: is_digit_def split: if_splits)
    with True show ?thesis
      by (subst dec_of_nat.simps) (simp add: nat_of_dec_def digit_value_less)
  next
    case False
    with snoc.prems have s: "canonical_decimal s" "hd s \<noteq> CHR ''0''" "is_digit c"
      using canonical_snoc by blast+
    have "0 < nat_of_dec s" using s nat_of_dec_pos by blast
    then have "\<not> nat_of_dec (s @ [c]) < 10" by (simp add: nat_of_dec_snoc)
    moreover have "nat_of_dec (s @ [c]) div 10 = nat_of_dec s" "nat_of_dec (s @ [c]) mod 10 = digit_value c"
      using digit_value_less [OF s(3)] by (simp_all add: nat_of_dec_snoc)
    ultimately show ?thesis
      using snoc.IH s by (subst dec_of_nat.simps) simp
  qed
qed

subsection \<open>JSON.stringify\<close>

text \<open>
  The part of \<open>JSON.stringify\<close> the code uses: no indentation, object members in insertion order,
  members whose value is \<open>undefined\<close> left out (the callers below leave them out of the list).
  \<open>quote\<close> is the specification's \<open>QuoteJSONString\<close>.
\<close>

datatype json =
    JNull
  | JBool bool
  | JNum int
  | JStr string
  | JArr "json list"
  | JObj "(string \<times> json) list"

definition hex_char :: "nat \<Rightarrow> char" where
  "hex_char n = (if n < 10 then char_of (48 + n) else char_of (87 + n))"

definition esc_char :: "char \<Rightarrow> string" where
  "esc_char c =
     (if code c = 34 then [char_of (92 :: nat), char_of (34 :: nat)]
      else if code c = 92 then [char_of (92 :: nat), char_of (92 :: nat)]
      else if code c = 8 then [char_of (92 :: nat), CHR ''b'']
      else if code c = 9 then [char_of (92 :: nat), CHR ''t'']
      else if code c = 10 then [char_of (92 :: nat), CHR ''n'']
      else if code c = 12 then [char_of (92 :: nat), CHR ''f'']
      else if code c = 13 then [char_of (92 :: nat), CHR ''r'']
      else if code c < 32 then
        [char_of (92 :: nat), CHR ''u'', CHR ''0'', CHR ''0'', hex_char (code c div 16), hex_char (code c mod 16)]
      else [c])"

definition quote :: "string \<Rightarrow> string" where
  "quote s = [char_of (34 :: nat)] @ concat (map esc_char s) @ [char_of (34 :: nat)]"

definition dec_of_int :: "int \<Rightarrow> string" where
  "dec_of_int i = (if i < 0 then CHR ''-'' # dec_of_nat (nat (- i)) else dec_of_nat (nat i))"

fun stringify :: "json \<Rightarrow> string" where
  "stringify JNull = ''null''"
| "stringify (JBool b) = (if b then ''true'' else ''false'')"
| "stringify (JNum i) = dec_of_int i"
| "stringify (JStr s) = quote s"
| "stringify (JArr js) = ''['' @ join '','' (map stringify js) @ '']''"
| "stringify (JObj kvs) = ''{'' @ join '','' (map (\<lambda>(k, v). quote k @ '':'' @ stringify v) kvs) @ ''}''"

text \<open>
  Escaped characters form a prefix code: \<open>read_esc\<close> reads one back, and stops at the closing quote.
\<close>

definition hex_value :: "char \<Rightarrow> nat" where
  "hex_value c = (if code c < 58 then code c - 48 else code c - 87)"

definition read_esc :: "string \<Rightarrow> (nat \<times> string) option" where
  "read_esc s = (case s of
     [] \<Rightarrow> None
   | c # r \<Rightarrow>
      if code c = 34 then None
      else if code c \<noteq> 92 then Some (code c, r)
      else (case r of
          [] \<Rightarrow> None
        | d # r' \<Rightarrow>
           if code d = 98 then Some (8, r')
           else if code d = 116 then Some (9, r')
           else if code d = 110 then Some (10, r')
           else if code d = 102 then Some (12, r')
           else if code d = 114 then Some (13, r')
           else if code d = 117 then
             Some (16 * hex_value (r' ! 2) + hex_value (r' ! 3), drop 4 r')
           else Some (code d, r')))"

lemma hex_value_char [simp]: "n < 16 \<Longrightarrow> hex_value (hex_char n) = n"
  by (auto simp: hex_value_def hex_char_def)

lemma div16_small: "(n :: nat) < 32 \<Longrightarrow> n div 16 < 16" and mod16_small: "(n :: nat) mod 16 < 16"
  by simp_all

lemma read_esc_char: "read_esc (esc_char c @ r) = Some (code c, r)"
proof (cases "code c < 32")
  case True
  then show ?thesis
    by (simp add: read_esc_def esc_char_def div16_small mod16_small)
next
  case False
  then show ?thesis
    by (simp add: read_esc_def esc_char_def)
qed

lemma esc_char_prefix:
  assumes "esc_char c @ r = esc_char d @ r'"
  shows "c = d \<and> r = r'"
proof -
  have "Some (code c, r) = read_esc (esc_char c @ r)" by (rule read_esc_char [symmetric])
  also have "\<dots> = read_esc (esc_char d @ r')" by (rule arg_cong [OF assms])
  also have "\<dots> = Some (code d, r')" by (rule read_esc_char)
  finally show ?thesis by simp
qed

lemma esc_char_not_quote: "esc_char c @ r \<noteq> char_of (34 :: nat) # r'"
proof
  assume "esc_char c @ r = char_of (34 :: nat) # r'"
  then have "read_esc (esc_char c @ r) = None" by (simp add: read_esc_def)
  then show False by (simp add: read_esc_char)
qed

lemma escaped_prefix:
  "concat (map esc_char s) @ char_of (34 :: nat) # r = concat (map esc_char t) @ char_of (34 :: nat) # r'
    \<Longrightarrow> s = t \<and> r = r'"
proof (induction s arbitrary: t)
  case Nil
  show ?case
  proof (cases t)
    case Nil
    with Nil.prems show ?thesis by simp
  next
    case (Cons d t')
    with Nil.prems show ?thesis by (simp add: esc_char_not_quote [symmetric])
  qed
next
  case (Cons c s)
  show ?case
  proof (cases t)
    case Nil
    with Cons.prems show ?thesis by (simp add: esc_char_not_quote)
  next
    case t: (Cons d t')
    have "esc_char c @ (concat (map esc_char s) @ char_of (34 :: nat) # r)
        = esc_char d @ (concat (map esc_char t') @ char_of (34 :: nat) # r')"
      using Cons.prems t by simp
    from esc_char_prefix [OF this] Cons.IH [of t'] t show ?thesis by blast
  qed
qed

lemma quote_prefix:
  assumes "quote s @ r = quote t @ r'"
  shows "s = t \<and> r = r'"
  using escaped_prefix [of s r t r'] assms by (simp add: quote_def)

text \<open>
  \<open>stringify\<close> is injective: texts that agree up to the next delimiter come from the same value.
\<close>

definition stops :: "string \<Rightarrow> bool" where
  "stops r \<longleftrightarrow> r = [] \<or> hd r = CHR '','' \<or> hd r = CHR '']'' \<or> hd r = CHR ''}''"

lemma stops_no_digit: "stops r \<Longrightarrow> r = [] \<or> \<not> is_digit (hd r)"
  by (auto simp: stops_def is_digit_def)

lemma digits_prefix:
  assumes "list_all is_digit s" "list_all is_digit t" "stops r" "stops r'" "s @ r = t @ r'"
  shows "s = t \<and> r = r'"
proof -
  have tw: "takeWhile is_digit (u @ w) = u" if "list_all is_digit u" "stops w" for u w
    using that stops_no_digit [of w] by (cases w) (auto simp: takeWhile_append list_all_iff)
  have "s = takeWhile is_digit (s @ r)" by (rule tw [symmetric]) (use assms in auto)
  also have "\<dots> = takeWhile is_digit (t @ r')" by (rule arg_cong [OF assms(5)])
  also have "\<dots> = t" by (rule tw) (use assms in auto)
  finally have "s = t" .
  with assms(5) show ?thesis by simp
qed

lemma dec_of_nat_all_digits: "list_all is_digit (dec_of_nat n)"
  using dec_of_nat_digits by (auto simp: list_all_iff)

lemma dec_of_nat_no_minus: "dec_of_nat n @ r \<noteq> CHR ''-'' # r'"
proof
  assume eq: "dec_of_nat n @ r = CHR ''-'' # r'"
  then have "CHR ''-'' \<in> set (dec_of_nat n)" by (cases "dec_of_nat n") auto
  then have "is_digit (CHR ''-'')" by (rule dec_of_nat_digits)
  then show False by (simp add: is_digit_def)
qed

lemma dec_of_int_prefix:
  assumes "stops r" "stops r'" "dec_of_int i @ r = dec_of_int j @ r'"
  shows "i = j \<and> r = r'"
proof -
  have pre: "m = n \<and> r = r'" if "dec_of_nat m @ r = dec_of_nat n @ r'" for m n
    using digits_prefix [OF dec_of_nat_all_digits dec_of_nat_all_digits assms(1,2) that] by simp
  show ?thesis
  proof (cases "i < 0"; cases "j < 0")
    assume "i < 0" "j < 0"
    with assms(3) pre [of "nat (- i)" "nat (- j)"] show ?thesis by (auto simp: dec_of_int_def)
  next
    assume "\<not> i < 0" "\<not> j < 0"
    with assms(3) pre [of "nat i" "nat j"] show ?thesis by (auto simp: dec_of_int_def)
  next
    assume "i < 0" "\<not> j < 0"
    with assms(3) dec_of_nat_no_minus [of "nat j" r'] show ?thesis by (simp add: dec_of_int_def) metis
  next
    assume "\<not> i < 0" "j < 0"
    with assms(3) dec_of_nat_no_minus [of "nat i" r] show ?thesis by (simp add: dec_of_int_def)
  qed
qed

fun first_char :: "json \<Rightarrow> nat" where
  "first_char JNull = 110"
| "first_char (JBool b) = (if b then 116 else 102)"
| "first_char (JNum i) = code (hd (dec_of_int i))"
| "first_char (JStr s) = 34"
| "first_char (JArr js) = 91"
| "first_char (JObj kvs) = 123"

lemma dec_of_int_nonempty [simp]: "dec_of_int i \<noteq> []"
  by (simp add: dec_of_int_def)

lemma stringify_first: "stringify j \<noteq> [] \<and> code (hd (stringify j)) = first_char j"
  by (cases j) (auto simp: quote_def)

lemma first_char_num: "45 \<le> first_char (JNum i) \<and> first_char (JNum i) \<le> 57"
proof (cases "i < 0")
  case True
  then show ?thesis by (simp add: dec_of_int_def)
next
  case False
  then have "is_digit (hd (dec_of_int i))"
    using dec_of_nat_digits [of "hd (dec_of_nat (nat i))" "nat i"] by (simp add: dec_of_int_def)
  then show ?thesis by (simp add: is_digit_def)
qed

declare first_char.simps(3) [simp del]

lemma first_char_numD: "first_char (JNum i) = n \<Longrightarrow> 45 \<le> n \<and> n \<le> 57"
  using first_char_num [of i] by simp

lemma first_char_inv:
  "first_char k = 110 \<Longrightarrow> k = JNull"
  "first_char k = (if b then 116 else 102) \<Longrightarrow> k = JBool b"
  "45 \<le> first_char k \<Longrightarrow> first_char k \<le> 57 \<Longrightarrow> \<exists>i. k = JNum i"
  "first_char k = 34 \<Longrightarrow> \<exists>s. k = JStr s"
  "first_char k = 91 \<Longrightarrow> \<exists>js. k = JArr js"
  "first_char k = 123 \<Longrightarrow> \<exists>kvs. k = JObj kvs"
  by (cases k; auto dest!: first_char_numD split: if_splits)+

lemma same_first:
  assumes "stringify j @ r = stringify k @ r'"
  shows "first_char j = first_char k"
proof -
  have "hd (stringify j) = hd (stringify j @ r)" using stringify_first [of j] by simp
  also have "\<dots> = hd (stringify k @ r')" by (rule arg_cong [OF assms])
  also have "\<dots> = hd (stringify k)" using stringify_first [of k] by simp
  finally show ?thesis using stringify_first [of j] stringify_first [of k] by simp
qed

lemma join_Cons: "join sep (s # ss) = s @ concat (map (\<lambda>t. sep @ t) ss)"
  by (induction ss arbitrary: s) auto

abbreviation tail_items :: "('a \<Rightarrow> string) \<Rightarrow> 'a list \<Rightarrow> string" where
  "tail_items f xs \<equiv> concat (map (\<lambda>x. '','' @ f x) xs)"

lemma join_items: "join '','' (map f (x # xs)) = f x @ tail_items f xs"
  by (simp add: join_Cons o_def)

lemma stops_tail: "stops (z # r) \<Longrightarrow> stops (tail_items f xs @ z # r)"
  by (cases xs) (auto simp: stops_def)

lemma tail_items_prefix:
  assumes step: "\<And>x y r r'. x \<in> set xs \<Longrightarrow> stops r \<Longrightarrow> stops r' \<Longrightarrow> f x @ r = f y @ r' \<Longrightarrow> x = y \<and> r = r'"
    and z: "stops (z # r)" "stops (z # r')" "z \<noteq> CHR '',''"
    and eq: "tail_items f xs @ z # r = tail_items f ys @ z # r'"
  shows "xs = ys \<and> r = r'"
  using step eq
proof (induction xs arbitrary: ys)
  case Nil
  then show ?case using z(3) by (cases ys) auto
next
  case (Cons x xs)
  show ?case
  proof (cases ys)
    case Nil
    with Cons.prems(2) z(3) show ?thesis by auto
  next
    case ys: (Cons y ys')
    have e: "f x @ (tail_items f xs @ z # r) = f y @ (tail_items f ys' @ z # r')"
      using Cons.prems(2) ys by simp
    have *: "x = y \<and> tail_items f xs @ z # r = tail_items f ys' @ z # r'"
      by (rule Cons.prems(1) [OF _ stops_tail [OF z(1)] stops_tail [OF z(2)] e]) simp
    have "xs = ys' \<and> r = r'"
      by (rule Cons.IH [OF _ conjunct2 [OF *]]) (use Cons.prems(1) in auto)
    with * ys show ?thesis by simp
  qed
qed

lemma join_items_prefix:
  assumes step: "\<And>x y r r'. x \<in> set xs \<Longrightarrow> stops r \<Longrightarrow> stops r' \<Longrightarrow> f x @ r = f y @ r' \<Longrightarrow> x = y \<and> r = r'"
    and start: "\<And>y w. f y @ w \<noteq> z # r" "\<And>y w. f y @ w \<noteq> z # r'"
    and z: "stops (z # r)" "stops (z # r')" "z \<noteq> CHR '',''"
    and eq: "join '','' (map f xs) @ z # r = join '','' (map f ys) @ z # r'"
  shows "xs = ys \<and> r = r'"
proof (cases xs; cases ys)
  assume "xs = []" "ys = []"
  with eq show ?thesis by simp
next
  fix y ys' assume xy: "xs = []" "ys = y # ys'"
  have "z # r = f y @ (tail_items f ys' @ z # r')"
    using eq unfolding xy join_items append_assoc by simp
  with start(1) show ?thesis by metis
next
  fix x xs' assume xy: "xs = x # xs'" "ys = []"
  have "f x @ (tail_items f xs' @ z # r) = z # r'"
    using eq unfolding xy join_items append_assoc by simp
  with start(2) show ?thesis by metis
next
  fix x xs' y ys' assume xy: "xs = x # xs'" "ys = y # ys'"
  have e: "f x @ (tail_items f xs' @ z # r) = f y @ (tail_items f ys' @ z # r')"
    using eq unfolding xy join_items append_assoc .
  have *: "x = y \<and> tail_items f xs' @ z # r = tail_items f ys' @ z # r'"
    by (rule step [OF _ stops_tail [OF z(1)] stops_tail [OF z(2)] e]) (simp add: xy)
  have "xs' = ys' \<and> r = r'"
    by (rule tail_items_prefix [OF _ z conjunct2 [OF *]]) (use step xy in auto)
  with * xy show ?thesis by simp
qed

lemma stringify_not_close:
  "z = CHR '']'' \<or> z = CHR ''}'' \<Longrightarrow> stringify j @ r \<noteq> z # r'"
proof
  assume z: "z = CHR '']'' \<or> z = CHR ''}''" and eq: "stringify j @ r = z # r'"
  have "hd (stringify j) = hd (stringify j @ r)" using stringify_first [of j] by simp
  also have "\<dots> = z" by (simp add: eq)
  finally have "first_char j = code z" using stringify_first [of j] by simp
  with z have "first_char j = 93 \<or> first_char j = 125" by auto
  then show False by (cases j) (auto dest!: first_char_numD split: if_splits)
qed

lemma quote_not_close: "z = CHR '']'' \<or> z = CHR ''}'' \<Longrightarrow> quote s @ r \<noteq> z # r'"
proof
  assume z: "z = CHR '']'' \<or> z = CHR ''}''" and "quote s @ r = z # r'"
  then have "z = char_of (34 :: nat)" by (simp add: quote_def)
  then have "code z = 34" by simp
  with z show False by auto
qed

fun member_text :: "string \<times> json \<Rightarrow> string" where
  "member_text (k, v) = quote k @ '':'' @ stringify v"

lemma stringify_obj: "stringify (JObj kvs) = ''{'' @ join '','' (map member_text kvs) @ ''}''"
proof -
  have "member_text = (\<lambda>(k, v). quote k @ '':'' @ stringify v)" by (auto simp: fun_eq_iff)
  then show ?thesis by simp
qed

lemma stringify_prefix:
  "stops r \<Longrightarrow> stops r' \<Longrightarrow> stringify j @ r = stringify k @ r' \<Longrightarrow> j = k \<and> r = r'"
proof (induction j arbitrary: k r r')
  case JNull
  have "first_char k = 110" using same_first [OF JNull.prems(3)] by simp
  then have "k = JNull" by (rule first_char_inv)
  with JNull.prems show ?case by simp
next
  case (JBool b)
  have "first_char k = (if b then 116 else 102)" using same_first [OF JBool.prems(3)] by simp
  then have "k = JBool b" by (rule first_char_inv)
  with JBool.prems show ?case by simp
next
  case (JNum i)
  have "45 \<le> first_char k \<and> first_char k \<le> 57"
    using same_first [OF JNum.prems(3)] first_char_num by metis
  then obtain i' where k: "k = JNum i'" using first_char_inv(3) by blast
  with JNum.prems dec_of_int_prefix [of r r' i i'] show ?case by simp
next
  case (JStr s)
  have "first_char k = 34" using same_first [OF JStr.prems(3)] by simp
  then obtain s' where k: "k = JStr s'" using first_char_inv(4) by blast
  with JStr.prems quote_prefix [of s r s' r'] show ?case by simp
next
  case (JArr js)
  have "first_char k = 91" using same_first [OF JArr.prems(3)] by simp
  then obtain js' where k: "k = JArr js'" using first_char_inv(5) by blast
  have eq: "join '','' (map stringify js) @ CHR '']'' # r = join '','' (map stringify js') @ CHR '']'' # r'"
    using JArr.prems(3) by (simp add: k)
  have "js = js' \<and> r = r'"
    by (rule join_items_prefix [OF _ _ _ _ _ _ eq])
      (auto simp: stops_def stringify_not_close dest: JArr.IH)
  with k show ?case by simp
next
  case (JObj kvs)
  have "first_char k = 123" using same_first [OF JObj.prems(3)] by simp
  then obtain kvs' where k: "k = JObj kvs'" using first_char_inv(6) by blast
  have eq: "join '','' (map member_text kvs) @ CHR ''}'' # r = join '','' (map member_text kvs') @ CHR ''}'' # r'"
    using JObj.prems(3) by (simp add: k stringify_obj del: stringify.simps(6))
  have step: "x = y \<and> w = w'"
    if "x \<in> set kvs" "stops w" "stops w'" "member_text x @ w = member_text y @ w'" for x y w w'
  proof (cases x; cases y)
    fix a v b u assume xy: "x = (a, v)" "y = (b, u)"
    have "a = b \<and> CHR '':'' # stringify v @ w = CHR '':'' # stringify u @ w'"
      by (rule quote_prefix) (use that(4) xy in simp)
    moreover have "stringify v @ w = stringify u @ w' \<Longrightarrow> v = u \<and> w = w'"
      by (rule JObj.IH [OF that(1) _ that(2,3)]) (simp_all add: xy)
    ultimately show ?thesis using xy by simp
  qed
  have "kvs = kvs' \<and> r = r'"
    by (rule join_items_prefix [OF step _ _ _ _ _ eq])
      (auto simp: stops_def quote_not_close)
  with k show ?case by simp
qed

theorem stringify_inject: "stringify j = stringify k \<longleftrightarrow> j = k"
  using stringify_prefix [of "[]" "[]" j k] by (auto simp: stops_def)

end
