(* ===== verification/Money.thy ===== *)
theory Money
  imports Js_Strings
begin

section \<open>Exact money (lib/money.ts)\<close>

text \<open>
  Atomic amounts are canonical base-10 strings of integers in \<open>[0, 2^256 - 1]\<close>; all arithmetic is on
  \<open>bigint\<close>, that is \<open>int\<close>. \<open>parseAtomicAmount\<close> and \<open>atomicAmountFromBigInt\<close> are modelled on strings,
  as written. The lemmas below show that they are inverse to each other, so the rest of the model
  may hold the integer an \<open>AtomicAmount\<close> stands for, keeping only the range check
  (\<open>checkedAtomicValue\<close>) that \<open>atomicAmountFromBigInt\<close> performs.

  A major-unit input that is a JavaScript number is represented by the decimal text
  \<open>value.toString()\<close> of that number: the code converts it to that text before anything else.
\<close>

definition MAX_ATOMIC_VALUE :: int where
  "MAX_ATOMIC_VALUE = 2 ^ 256 - 1"

record currency_metadata =
  cm_code :: string
  cm_decimals :: nat
  cm_symbol :: string

definition DEFAULT_CURRENCY :: string where
  "DEFAULT_CURRENCY = ''CKB''"

definition CURRENCY_METADATA :: "string \<Rightarrow> currency_metadata option" where
  "CURRENCY_METADATA c =
     (if c = ''BTC'' then Some \<lparr>cm_code = ''BTC'', cm_decimals = 11, cm_symbol = ''BTC''\<rparr>
      else if c = ''USDC'' then Some \<lparr>cm_code = ''USDC'', cm_decimals = 6, cm_symbol = ''$''\<rparr>
      else if c = ''CKB'' then Some \<lparr>cm_code = ''CKB'', cm_decimals = 8, cm_symbol = ''CKB''\<rparr>
      else None)"

definition getCurrencyMetadata :: "string \<Rightarrow> error + currency_metadata" where
  "getCurrencyMetadata currency =
     (case CURRENCY_METADATA (toUpperCase currency) of
        None \<Rightarrow> Inl (PlainError (''Unsupported currency: '' @ currency))
      | Some metadata \<Rightarrow> Inr metadata)"

definition checkedAtomicValue :: "int \<Rightarrow> error + int" where
  "checkedAtomicValue value =
     (if value < 0 then Inl (PlainError ''Atomic amount must be non-negative.'')
      else if value > MAX_ATOMIC_VALUE then Inl (PlainError ''Atomic amount exceeds the 256-bit limit.'')
      else Inr value)"

definition atomicAmountFromBigInt :: "int \<Rightarrow> error + string" where
  "atomicAmountFromBigInt value =
     (case checkedAtomicValue value of Inl e \<Rightarrow> Inl e | Inr v \<Rightarrow> Inr (dec_of_nat (nat v)))"

definition parseAtomicAmount :: "string \<Rightarrow> error + int" where
  "parseAtomicAmount value =
     (if \<not> canonical_decimal value
      then Inl (PlainError ''Atomic amount must be a canonical non-negative base-10 integer string.'')
      else checkedAtomicValue (int (nat_of_dec value)))"

definition asAtomicAmount :: "string \<Rightarrow> error + string" where
  "asAtomicAmount value =
     (case parseAtomicAmount value of Inl e \<Rightarrow> Inl e | Inr v \<Rightarrow> atomicAmountFromBigInt v)"

definition legacyMinorToAtomicAmount :: "int \<Rightarrow> error + string" where
  "legacyMinorToAtomicAmount value =
     (if \<not> isSafeInteger value \<or> value < 0
      then Inl (PlainError ''Legacy minor-unit amount must be a non-negative safe integer.'')
      else atomicAmountFromBigInt value)"

definition atomicAmountToLegacySafeNumber :: "string \<Rightarrow> error + int" where
  "atomicAmountToLegacySafeNumber value =
     (case parseAtomicAmount value of
        Inl e \<Rightarrow> Inl e
      | Inr parsed \<Rightarrow>
         if parsed > MAX_SAFE_INTEGER
         then Inl (PlainError ''Atomic amount cannot be represented by the legacy numeric contract.'')
         else Inr parsed)"

fun addAtomicTotal :: "int \<Rightarrow> string list \<Rightarrow> error + int" where
  "addAtomicTotal acc [] = Inr acc"
| "addAtomicTotal acc (v # vs) =
     (case parseAtomicAmount v of Inl e \<Rightarrow> Inl e | Inr n \<Rightarrow> addAtomicTotal (acc + n) vs)"

definition addAtomicAmounts :: "string list \<Rightarrow> error + string" where
  "addAtomicAmounts values =
     (case addAtomicTotal 0 values of Inl e \<Rightarrow> Inl e | Inr t \<Rightarrow> atomicAmountFromBigInt t)"

definition subtractAtomicAmounts :: "string \<Rightarrow> string \<Rightarrow> error + string" where
  "subtractAtomicAmounts left right =
     (case parseAtomicAmount left of
        Inl e \<Rightarrow> Inl e
      | Inr l \<Rightarrow> (case parseAtomicAmount right of
            Inl e \<Rightarrow> Inl e
          | Inr r \<Rightarrow> atomicAmountFromBigInt (l - r)))"

definition capAtomicAmount :: "string \<Rightarrow> string \<Rightarrow> error + string" where
  "capAtomicAmount value maximum =
     (case parseAtomicAmount value of
        Inl e \<Rightarrow> Inl e
      | Inr v \<Rightarrow> (case parseAtomicAmount maximum of
            Inl e \<Rightarrow> Inl e
          | Inr m \<Rightarrow> Inr (if v \<le> m then value else maximum)))"

definition padStart :: "nat \<Rightarrow> char \<Rightarrow> string \<Rightarrow> string" where
  "padStart n c s = replicate (n - length s) c @ s"

definition dropTrailingZeros :: "string \<Rightarrow> string" where
  "dropTrailingZeros s = rev (dropWhile (\<lambda>c. c = CHR ''0'') (rev s))"

definition formatAtomicAmount :: "string \<Rightarrow> int \<Rightarrow> bool \<Rightarrow> error + string" where
  "formatAtomicAmount value decimals trimTrailingZeros =
     (if decimals < 0 \<or> decimals > 30
      then Inl (PlainError ''Asset decimals must be an integer between 0 and 30.'')
      else (case parseAtomicAmount value of
          Inl e \<Rightarrow> Inl e
        | Inr v \<Rightarrow>
           let digits = dec_of_nat (nat v); d = nat decimals in
           if d = 0 then Inr digits
           else
             let padded = padStart (d + 1) (CHR ''0'') digits;
                 whole = take (length padded - d) padded;
                 fraction0 = drop (length padded - d) padded;
                 fraction = (if trimTrailingZeros then dropTrailingZeros fraction0 else fraction0)
             in Inr (if fraction \<noteq> [] then whole @ ''.'' @ fraction else whole)))"

text \<open>The regular expression \<open>^\d+(\.\d+)?$\<close> of a major-unit amount, as its one or two digit groups.\<close>

definition decimal_groups :: "string \<Rightarrow> (string \<times> string) option" where
  "decimal_groups raw =
     (case split_on (CHR ''.'') raw of
        [w] \<Rightarrow> if w \<noteq> [] \<and> list_all is_digit w then Some (w, []) else None
      | [w, f] \<Rightarrow>
          if w \<noteq> [] \<and> list_all is_digit w \<and> f \<noteq> [] \<and> list_all is_digit f then Some (w, f) else None
      | _ \<Rightarrow> None)"

definition majorToAtomicAmount :: "string \<Rightarrow> string \<Rightarrow> error + string" where
  "majorToAtomicAmount value currency =
     (case getCurrencyMetadata currency of
        Inl e \<Rightarrow> Inl e
      | Inr md \<Rightarrow>
         (case decimal_groups (trim value) of
            None \<Rightarrow> Inl (PlainError ''Money amount must be a non-negative decimal string.'')
          | Some (whole, fraction) \<Rightarrow>
             let decimals = cm_decimals md; extra = drop decimals fraction in
             if list_ex (\<lambda>c. c \<noteq> CHR ''0'') extra
             then Inl (PlainError (currency @ '' supports at most '' @ dec_of_nat decimals @ '' decimal places.''))
             else
               let padded = take decimals (fraction @ replicate decimals (CHR ''0'')) in
               atomicAmountFromBigInt (int (nat_of_dec whole) * 10 ^ decimals + int (nat_of_dec padded))))"

definition toMinorUnits :: "string \<Rightarrow> string \<Rightarrow> error + int" where
  "toMinorUnits value currency =
     (case majorToAtomicAmount value currency of
        Inl e \<Rightarrow> Inl e | Inr a \<Rightarrow> atomicAmountToLegacySafeNumber a)"

fun legacyAll :: "int list \<Rightarrow> error + string list" where
  "legacyAll [] = Inr []"
| "legacyAll (v # vs) =
     (case legacyMinorToAtomicAmount v of
        Inl e \<Rightarrow> Inl e
      | Inr a \<Rightarrow> (case legacyAll vs of Inl e \<Rightarrow> Inl e | Inr as \<Rightarrow> Inr (a # as)))"

definition addMinorUnits :: "int list \<Rightarrow> error + int" where
  "addMinorUnits values =
     (case legacyAll values of
        Inl e \<Rightarrow> Inl e
      | Inr as \<Rightarrow> (case addAtomicAmounts as of Inl e \<Rightarrow> Inl e | Inr a \<Rightarrow> atomicAmountToLegacySafeNumber a))"

definition subtractMinorUnits :: "int \<Rightarrow> int \<Rightarrow> error + int" where
  "subtractMinorUnits left right =
     (case legacyMinorToAtomicAmount left of
        Inl e \<Rightarrow> Inl e
      | Inr l \<Rightarrow> (case legacyMinorToAtomicAmount right of
            Inl e \<Rightarrow> Inl e
          | Inr r \<Rightarrow> (case subtractAtomicAmounts l r of
                Inl e \<Rightarrow> Inl e
              | Inr a \<Rightarrow> atomicAmountToLegacySafeNumber a)))"

definition clampMinorUnits :: "int \<Rightarrow> error + int" where
  "clampMinorUnits value =
     (if \<not> isSafeInteger value then Inl (PlainError ''Minor-unit amount must be a safe integer.'')
      else Inr (max 0 value))"

text \<open>
  Legacy documents also carry amounts as JavaScript numbers of major units. The model holds such a
  number as an \<open>int\<close> in units of \<open>10^-11\<close>, the finest decimals of \<open>CURRENCY_METADATA\<close>; binary
  rounding of these display numbers is not modelled. \<open>number_text\<close> is \<open>String(n)\<close>: below \<open>10^-6\<close>
  JavaScript prints an exponent.
\<close>

type_synonym major = int

definition MAJOR_DECIMALS :: nat where
  "MAJOR_DECIMALS = 11"

definition exponent_text :: "nat \<Rightarrow> string" where
  "exponent_text n =
     (let digits = dec_of_nat n; fraction = dropTrailingZeros (tl digits)
      in hd digits # (if fraction = [] then [] else ''.'' @ fraction)
         @ ''e-'' @ dec_of_nat (MAJOR_DECIMALS + 1 - length digits))"

definition number_text :: "major \<Rightarrow> string" where
  "number_text n =
     (if n < 0 then CHR ''-'' # dec_of_nat (nat (- n))
      else if 0 < n \<and> n < 10 ^ 5 then exponent_text (nat n)
      else
        let padded = padStart (MAJOR_DECIMALS + 1) (CHR ''0'') (dec_of_nat (nat n));
            whole = take (length padded - MAJOR_DECIMALS) padded;
            fraction = dropTrailingZeros (drop (length padded - MAJOR_DECIMALS) padded)
        in if fraction \<noteq> [] then whole @ ''.'' @ fraction else whole)"

definition fallbackMinorUnits :: "int option \<Rightarrow> major option \<Rightarrow> string \<Rightarrow> error + int" where
  "fallbackMinorUnits minorUnits majorAmount currency =
     (case minorUnits of
        Some m \<Rightarrow> if isSafeInteger m \<and> m \<ge> 0 then Inr m else toMinorUnits (number_text (opt_or majorAmount 0)) currency
      | None \<Rightarrow> toMinorUnits (number_text (opt_or majorAmount 0)) currency)"

text \<open>\<open>fromMinorUnits\<close> gives the display number of an amount; an absent amount is 0.\<close>

definition fromMinorUnits :: "int option \<Rightarrow> string \<Rightarrow> error + major" where
  "fromMinorUnits minorUnits currency =
     (case minorUnits of
        None \<Rightarrow> Inr 0
      | Some m \<Rightarrow>
         (case legacyMinorToAtomicAmount m of
            Inl e \<Rightarrow> Inl e
          | Inr _ \<Rightarrow> (case getCurrencyMetadata currency of
                Inl e \<Rightarrow> Inl e
              | Inr md \<Rightarrow> Inr (m * 10 ^ (MAJOR_DECIMALS - cm_decimals md)))))"

subsection \<open>Canonical strings and integers are the same thing\<close>

definition atomic_range :: "int \<Rightarrow> bool" where
  "atomic_range v \<longleftrightarrow> 0 \<le> v \<and> v \<le> MAX_ATOMIC_VALUE"

lemma checkedAtomicValue_Inr [simp]: "checkedAtomicValue v = Inr w \<longleftrightarrow> w = v \<and> atomic_range v"
  by (auto simp: checkedAtomicValue_def atomic_range_def)

lemma checkedAtomicValue_range: "atomic_range v \<Longrightarrow> checkedAtomicValue v = Inr v"
  by simp

lemma MAX_SAFE_le_MAX_ATOMIC: "MAX_SAFE_INTEGER \<le> MAX_ATOMIC_VALUE"
  by (simp add: MAX_SAFE_INTEGER_def MAX_ATOMIC_VALUE_def)

lemma safe_atomic_range: "0 \<le> v \<Longrightarrow> v \<le> MAX_SAFE_INTEGER \<Longrightarrow> atomic_range v"
  using MAX_SAFE_le_MAX_ATOMIC by (simp add: atomic_range_def)

lemma fromBigInt_range: "atomic_range v \<Longrightarrow> atomicAmountFromBigInt v = Inr (dec_of_nat (nat v))"
  by (simp add: atomicAmountFromBigInt_def checkedAtomicValue_range)

lemma fromBigInt_Inr: "atomicAmountFromBigInt v = Inr s \<longleftrightarrow> atomic_range v \<and> s = dec_of_nat (nat v)"
  by (auto simp: atomicAmountFromBigInt_def checkedAtomicValue_def atomic_range_def)

lemma parse_dec_of_nat: "atomic_range v \<Longrightarrow> parseAtomicAmount (dec_of_nat (nat v)) = Inr v"
  by (simp add: parseAtomicAmount_def) (simp add: atomic_range_def)

lemma parse_Inr:
  "parseAtomicAmount s = Inr v \<longleftrightarrow> canonical_decimal s \<and> v = int (nat_of_dec s) \<and> atomic_range v"
  by (auto simp: parseAtomicAmount_def)

lemma parse_print:
  assumes "atomicAmountFromBigInt v = Inr s"
  shows "parseAtomicAmount s = Inr v"
  using assms by (auto simp: fromBigInt_Inr parse_dec_of_nat)

lemma print_parse:
  assumes "parseAtomicAmount s = Inr v"
  shows "atomicAmountFromBigInt v = Inr s"
  using assms by (auto simp: parse_Inr fromBigInt_Inr dec_of_nat_of_dec)

lemma atomic_amount_parse: "atomicAmountFromBigInt v = Inr s \<longleftrightarrow> parseAtomicAmount s = Inr v"
  using parse_print print_parse by blast

lemma asAtomicAmount_id: "asAtomicAmount s = Inr t \<Longrightarrow> t = s"
  by (auto simp: asAtomicAmount_def print_parse split: sum.splits)

lemma asAtomicAmount_idem: "parseAtomicAmount s = Inr v \<Longrightarrow> asAtomicAmount s = Inr s"
  by (simp add: asAtomicAmount_def print_parse)

lemma addAtomicTotal_acc:
  "addAtomicTotal acc vs = Inr t \<longleftrightarrow>
    (\<exists>ns. map parseAtomicAmount vs = map Inr ns \<and> t = acc + sum_list ns)"
proof (induction vs arbitrary: acc)
  case Nil
  then show ?case by auto
next
  case (Cons v vs)
  show ?case
  proof (cases "parseAtomicAmount v")
    case (Inl e)
    then show ?thesis by auto
  next
    case (Inr n)
    have "(\<exists>ns. map parseAtomicAmount (v # vs) = map Inr ns \<and> t = acc + sum_list ns) \<longleftrightarrow>
      (\<exists>ms. map parseAtomicAmount vs = map Inr ms \<and> t = (acc + n) + sum_list ms)"
    proof
      assume "\<exists>ns. map parseAtomicAmount (v # vs) = map Inr ns \<and> t = acc + sum_list ns"
      then obtain ns where "map parseAtomicAmount (v # vs) = map Inr ns" "t = acc + sum_list ns" by blast
      with Inr show "\<exists>ms. map parseAtomicAmount vs = map Inr ms \<and> t = (acc + n) + sum_list ms"
        by (cases ns) auto
    next
      assume "\<exists>ms. map parseAtomicAmount vs = map Inr ms \<and> t = (acc + n) + sum_list ms"
      then obtain ms where "map parseAtomicAmount vs = map Inr ms" "t = (acc + n) + sum_list ms" by blast
      with Inr have "map parseAtomicAmount (v # vs) = map Inr (n # ms) \<and> t = acc + sum_list (n # ms)"
        by simp
      then show "\<exists>ns. map parseAtomicAmount (v # vs) = map Inr ns \<and> t = acc + sum_list ns" by blast
    qed
    with Inr Cons.IH [of "acc + n"] show ?thesis by simp
  qed
qed

lemma legacy_Inr:
  "legacyMinorToAtomicAmount v = Inr s \<longleftrightarrow> 0 \<le> v \<and> v \<le> MAX_SAFE_INTEGER \<and> s = dec_of_nat (nat v)"
  using safe_atomic_range [of v]
  by (auto simp: legacyMinorToAtomicAmount_def isSafeInteger_def fromBigInt_Inr)

lemma legacy_roundtrip:
  "0 \<le> v \<Longrightarrow> v \<le> MAX_SAFE_INTEGER \<Longrightarrow>
    \<exists>s. legacyMinorToAtomicAmount v = Inr s \<and> atomicAmountToLegacySafeNumber s = Inr v"
  using parse_dec_of_nat [of v] safe_atomic_range [of v]
  by (auto simp: legacy_Inr atomicAmountToLegacySafeNumber_def)

subsection \<open>Display form and back\<close>

lemma nat_of_dec_zeros: "nat_of_dec (replicate k (CHR ''0'') @ s) = nat_of_dec s"
proof -
  have "nat_of_dec (replicate k (CHR ''0'')) = 0"
    by (induction k) (simp_all add: nat_of_dec_snoc digit_value_def flip: replicate_append_same)
  then show ?thesis by (simp add: nat_of_dec_append)
qed

lemma dropTrailingZeros_restore:
  "take (length f) (dropTrailingZeros f @ replicate (length f) (CHR ''0'')) = f"
proof -
  define k where "k = length (takeWhile (\<lambda>c. c = CHR ''0'') (rev f))"
  have tw: "takeWhile (\<lambda>c. c = CHR ''0'') (rev f) = replicate k (CHR ''0'')"
    unfolding k_def by (rule replicate_length_same [symmetric]) (auto dest: set_takeWhileD)
  have "rev f = replicate k (CHR ''0'') @ dropWhile (\<lambda>c. c = CHR ''0'') (rev f)"
    using takeWhile_dropWhile_id [of "\<lambda>c. c = CHR ''0''" "rev f"] tw by simp
  then have f: "f = dropTrailingZeros f @ replicate k (CHR ''0'')"
    unfolding dropTrailingZeros_def by (metis rev_append rev_replicate rev_rev_ident)
  then have len: "length f = length (dropTrailingZeros f) + k" by (metis length_append length_replicate)
  then have "take (length f) (dropTrailingZeros f @ replicate (length f) (CHR ''0''))
      = dropTrailingZeros f @ replicate k (CHR ''0'')" by simp
  with f show ?thesis by simp
qed

lemma is_digit_not_space: "is_digit c \<Longrightarrow> \<not> is_space c"
  by (auto simp: is_digit_def is_space_def)

lemma is_digit_not_dot: "is_digit c \<Longrightarrow> c \<noteq> CHR ''.''"
  by (auto simp: is_digit_def)

lemma trim_digits_ends:
  assumes "s \<noteq> []" "\<not> is_space (hd s)" "\<not> is_space (last s)"
  shows "trim s = s"
proof -
  have "dropWhile is_space s = s" using assms by (cases s) auto
  moreover have "dropWhile is_space (rev s) = rev s" using assms by (cases s rule: rev_cases) auto
  ultimately show ?thesis by (simp add: trim_def)
qed

lemma decimal_groups_whole:
  assumes "w \<noteq> []" "list_all is_digit w"
  shows "decimal_groups (trim w) = Some (w, [])"
proof -
  have "trim w = w" using assms by (intro trim_digits_ends) (auto simp: list_all_iff is_digit_not_space)
  moreover have "CHR ''.'' \<notin> set w" using assms by (auto simp: list_all_iff is_digit_def)
  ultimately show ?thesis using assms by (simp add: decimal_groups_def split_on_free)
qed

lemma decimal_groups_dotted:
  assumes "w \<noteq> []" "list_all is_digit w" "f \<noteq> []" "list_all is_digit f"
  shows "decimal_groups (trim (w @ ''.'' @ f)) = Some (w, f)"
proof -
  have "trim (w @ ''.'' @ f) = w @ ''.'' @ f"
    using assms by (intro trim_digits_ends) (auto simp: list_all_iff is_digit_not_space)
  moreover have "CHR ''.'' \<notin> set w" "CHR ''.'' \<notin> set f" using assms by (auto simp: list_all_iff is_digit_def)
  ultimately show ?thesis using assms by (simp add: decimal_groups_def split_on_append split_on_free)
qed

lemma list_all_sub: "list_all P s \<Longrightarrow> set t \<subseteq> set s \<Longrightarrow> list_all P t"
  by (auto simp: list_all_iff)

lemma set_dropTrailingZeros: "set (dropTrailingZeros f) \<subseteq> set f"
  by (auto simp: dropTrailingZeros_def dest: set_dropWhileD)

lemma currency_decimals:
  "getCurrencyMetadata c = Inr md \<Longrightarrow> 0 < cm_decimals md \<and> cm_decimals md \<le> 30"
  by (auto simp: getCurrencyMetadata_def CURRENCY_METADATA_def split: if_splits)

lemma major_from_groups:
  assumes md: "getCurrencyMetadata c = Inr md" and g: "decimal_groups (trim t) = Some (w, f)"
    and len: "length f \<le> cm_decimals md"
    and v: "int (nat_of_dec w) * 10 ^ cm_decimals md
        + int (nat_of_dec (take (cm_decimals md) (f @ replicate (cm_decimals md) (CHR ''0'')))) = v"
    and r: "atomic_range v"
  shows "majorToAtomicAmount t c = Inr (dec_of_nat (nat v))"
  using assms by (simp add: majorToAtomicAmount_def Let_def fromBigInt_range)

text \<open>
  Property C13: a formatted amount parses back. For every canonical atomic amount and every supported
  currency, \<open>formatAtomicAmount\<close> with the currency's decimals (with or without trimming trailing
  zeros) yields a decimal text that \<open>majorToAtomicAmount\<close> maps to the same atomic amount.
\<close>

theorem format_major_roundtrip:
  assumes "parseAtomicAmount s = Inr v" and "getCurrencyMetadata c = Inr md"
  shows "\<exists>t. formatAtomicAmount s (int (cm_decimals md)) trimZeros = Inr t \<and> majorToAtomicAmount t c = Inr s"
proof -
  define d where "d = cm_decimals md"
  have d: "0 < d" "d \<le> 30" using currency_decimals [OF assms(2)] by (simp_all add: d_def)
  have s: "canonical_decimal s" "v = int (nat_of_dec s)" "atomic_range v" using assms(1) by (auto simp: parse_Inr)
  have digits: "dec_of_nat (nat v) = s" using s by (simp add: dec_of_nat_of_dec)
  define p where "p = padStart (d + 1) (CHR ''0'') s"
  have lp: "d < length p" by (simp add: p_def padStart_def)
  have dp: "list_all is_digit p"
    using canonical_digits [OF s(1)] by (auto simp: p_def padStart_def list_all_iff is_digit_def)
  define w where "w = take (length p - d) p"
  define f where "f = drop (length p - d) p"
  have wf: "w \<noteq> []" "list_all is_digit w" "length f = d" "list_all is_digit f"
    using lp list_all_sub [OF dp set_take_subset] list_all_sub [OF dp set_drop_subset]
    by (auto simp: w_def f_def)
  have val: "int (nat_of_dec w) * 10 ^ d + int (nat_of_dec f) = v"
  proof -
    have "nat_of_dec w * 10 ^ d + nat_of_dec f = nat_of_dec (w @ f)" by (simp add: nat_of_dec_append wf)
    also have "w @ f = p" by (simp add: w_def f_def)
    also have "nat_of_dec p = nat_of_dec s" by (simp add: p_def padStart_def nat_of_dec_zeros)
    finally show ?thesis using s(2) by (metis of_nat_add of_nat_mult of_nat_numeral of_nat_power)
  qed
  define g where "g = (if trimZeros then dropTrailingZeros f else f)"
  have g: "list_all is_digit g" "length g \<le> d" "take d (g @ replicate d (CHR ''0'')) = f"
    using wf set_dropTrailingZeros [of f] dropTrailingZeros_restore [of f]
    by (auto simp: g_def dropTrailingZeros_def intro: list_all_sub le_trans [OF length_dropWhile_le])
  define t where "t = (if g \<noteq> [] then w @ ''.'' @ g else w)"
  have "formatAtomicAmount s (int (cm_decimals md)) trimZeros = Inr t"
    using d assms(1) digits
    by (simp add: formatAtomicAmount_def Let_def t_def g_def f_def w_def p_def d_def del: append_take_drop_id drop_eq_Nil drop_eq_Nil2)
  then have fmt: "formatAtomicAmount s (int (cm_decimals md)) trimZeros = Inr t" .
  have "decimal_groups (trim t) = Some (w, g)"
  proof (cases "g = []")
    case True
    then show ?thesis using decimal_groups_whole [OF wf(1,2)] by (simp add: t_def)
  next
    case False
    then show ?thesis using decimal_groups_dotted [OF wf(1,2) False g(1)] by (simp add: t_def)
  qed
  moreover have "int (nat_of_dec w) * 10 ^ d + int (nat_of_dec (take d (g @ replicate d (CHR ''0'')))) = v"
    unfolding g(3) by (rule val)
  ultimately have "majorToAtomicAmount t c = Inr (dec_of_nat (nat v))"
    unfolding d_def using g(2) s(3) d_def by (intro major_from_groups [OF assms(2)]) auto
  with fmt digits show ?thesis by auto
qed

theorem format_major_roundtrip_witness:
  "\<exists>t. formatAtomicAmount ''123456789'' 8 True = Inr t \<and> majorToAtomicAmount t ''CKB'' = Inr ''123456789''"
proof -
  have p: "parseAtomicAmount ''123456789'' = Inr 123456789"
    by (simp add: parse_Inr is_digit_def nat_of_dec_def digit_value_def atomic_range_def MAX_ATOMIC_VALUE_def)
  have m: "getCurrencyMetadata ''CKB'' = Inr \<lparr>cm_code = ''CKB'', cm_decimals = 8, cm_symbol = ''CKB''\<rparr>"
    by (simp add: getCurrencyMetadata_def CURRENCY_METADATA_def toUpperCase_def upper_char_def)
  show ?thesis using format_major_roundtrip [OF p m, of True] by simp
qed

text \<open>
  \<open>parseAtomicAmount\<close> and \<open>atomicAmountFromBigInt\<close> are inverse: the canonical strings are
  exactly the printed forms of the integers in range, so an \<open>AtomicAmount\<close> is an integer in
  \<open>[0, 2^256 - 1]\<close>.
\<close>

theorem atomic_amount_bijection:
  "parseAtomicAmount s = Inr v \<longleftrightarrow> atomicAmountFromBigInt v = Inr s"
  by (rule atomic_amount_parse [symmetric])

text \<open>
  Addition of atomic amounts is exact: it succeeds exactly when every operand parses and
  the integer sum is in range, and then the result parses to that sum (no rounding, no wrap-around).
\<close>

theorem addAtomicAmounts_exact:
  "addAtomicAmounts vs = Inr s \<longleftrightarrow>
    (\<exists>ns. map parseAtomicAmount vs = map Inr ns \<and> parseAtomicAmount s = Inr (sum_list ns))"
proof -
  have "addAtomicAmounts vs = Inr s \<longleftrightarrow> (\<exists>t. addAtomicTotal 0 vs = Inr t \<and> atomicAmountFromBigInt t = Inr s)"
    by (auto simp: addAtomicAmounts_def split: sum.splits)
  then show ?thesis by (auto simp: addAtomicTotal_acc atomic_amount_parse)
qed

end
