(* ===== verification/Store.thy ===== *)
theory Store
  imports Money
begin

section \<open>The data model (src/models)\<close>

text \<open>
  The documents of the money path (passes, charge attempts, daily counters, funding sources and
  allocations, receipts, notification deliveries), one record per mongoose schema with the fields the
  modelled operations read or write, and the database that holds the collections.

  Conventions: a \<open>Date\<close> is its number of milliseconds since the epoch (\<open>int\<close>); a field that may be
  absent is an \<open>option\<close>; a field of type \<open>AtomicAmount\<close> holds the integer its canonical string denotes
  (theory Money shows the two are in bijection, and the schema's \<open>match\<close> admits canonical strings
  only); a \<open>...Minor\<close> field is a JavaScript number kept in the safe-integer range. The legacy
  display numbers (\<open>session.spent\<close>, \<open>session.limit\<close>, \<open>attempt.amount\<close>) are \<open>major\<close>, see Money.
\<close>

subsection \<open>Enumerations\<close>

datatype payment_rail = R_lightning | R_bitcoin_onchain | R_fiber | R_ckb_onchain

datatype session_status = S_active | S_paused | S_settled | S_revoked | S_expired
datatype lifecycle_state = L_idle | L_top_up_pending | L_revoke_pending | L_settle_pending

datatype lifecycle_provider = LP_not_started | LP_submitted | LP_succeeded | LP_uncertain
datatype payment_purpose = PP_app_session | PP_subscription | PP_scheduled_release | PP_recurring_release
datatype release_cadence = RL_none | RL_on_demand | RL_daily | RL_weekly | RL_monthly | RL_custom
datatype recipient_status = RW_awaiting_details | RW_pending | RW_processing | RW_paid | RW_failed
datatype invite_status =
  IV_not_required | IV_pending | IV_sent | IV_claimed | IV_expired | IV_revoked | IV_send_failed
datatype notification_status = NT_not_required | NT_pending | NT_sent | NT_failed

datatype attempt_status = A_pending | A_uncertain | A_succeeded | A_failed
datatype reserve_status = RS_reserved | RS_debited | RS_released
datatype execution_layer = X_fiber | X_lightning | X_ckb_vault
datatype provider_status = P_not_started | P_submitted | P_uncertain | P_succeeded | P_failed

datatype funding_mode = M_connected_wallet | M_secured_autopay
datatype funding_source_kind = K_external_wallet | K_network_contract | K_legacy_operator_vault
datatype funding_guarantee =
  G_authorization_only | G_balance_observed | G_network_locked | G_network_locked_operator_controlled
datatype funding_state =
  F_unverified | F_available | F_fully_allocated | F_insufficient | F_stale | F_failed | F_revoked
datatype allocation_state = AL_active | AL_released | AL_exhausted
datatype funding_risk = FR_none | FR_unaudited_operator_contract | FR_legacy_operator_vault

datatype receipt_source = RC_scheduled_occurrence | RC_usage_event | RC_charge_attempt
datatype receipt_status = RT_succeeded | RT_failed | RT_refunded
datatype channel_type = CH_email | CH_nostr
datatype endpoint_status = E_active | E_revoked | E_unsubscribed | E_deleted
datatype delivery_status = D_queued | D_delivering | D_retrying | D_succeeded | D_failed | D_cancelled

definition rail_text :: "payment_rail \<Rightarrow> string" where
  "rail_text r = (case r of R_lightning \<Rightarrow> ''lightning'' | R_bitcoin_onchain \<Rightarrow> ''bitcoin_onchain''
     | R_fiber \<Rightarrow> ''fiber'' | R_ckb_onchain \<Rightarrow> ''ckb_onchain'')"

definition receipt_source_text :: "receipt_source \<Rightarrow> string" where
  "receipt_source_text s = (case s of RC_scheduled_occurrence \<Rightarrow> ''scheduled_occurrence''
     | RC_usage_event \<Rightarrow> ''usage_event'' | RC_charge_attempt \<Rightarrow> ''charge_attempt'')"

definition receipt_status_text :: "receipt_status \<Rightarrow> string" where
  "receipt_status_text s = (case s of RT_succeeded \<Rightarrow> ''succeeded'' | RT_failed \<Rightarrow> ''failed''
     | RT_refunded \<Rightarrow> ''refunded'')"

lemma rail_text_inject [simp]: "rail_text a = rail_text b \<longleftrightarrow> a = b"
  by (cases a; cases b) (simp_all add: rail_text_def)

lemma receipt_source_text_inject [simp]: "receipt_source_text a = receipt_source_text b \<longleftrightarrow> a = b"
  by (cases a; cases b) (simp_all add: receipt_source_text_def)

lemma receipt_status_text_inject [simp]: "receipt_status_text a = receipt_status_text b \<longleftrightarrow> a = b"
  by (cases a; cases b) (simp_all add: receipt_status_text_def)

subsection \<open>Asset identifiers (domain/payment.ts)\<close>

definition asset_head :: "char \<Rightarrow> bool" where
  "asset_head c \<longleftrightarrow> is_digit c \<or> (97 \<le> code c \<and> code c \<le> 122)"

definition asset_namespace_char :: "char \<Rightarrow> bool" where
  "asset_namespace_char c \<longleftrightarrow> asset_head c \<or> c \<in> {CHR ''.'', CHR ''_'', CHR ''-''}"

definition asset_part :: "(char \<Rightarrow> bool) \<Rightarrow> nat \<Rightarrow> string \<Rightarrow> bool" where
  "asset_part body n s \<longleftrightarrow>
     s \<noteq> [] \<and> asset_head (hd s) \<and> length (tl s) \<le> n \<and> list_all body (tl s)"

definition asset_id_format :: "string \<Rightarrow> bool" where
  "asset_id_format s \<longleftrightarrow>
     (case split_on (CHR '':'') s of
        ns # r # rs \<Rightarrow> asset_part asset_namespace_char 31 ns
          \<and> asset_part (\<lambda>c. asset_namespace_char c \<or> c = CHR '':'') 127 (join '':'' (r # rs))
      | _ \<Rightarrow> False)"

definition asAssetId :: "string \<Rightarrow> error + string" where
  "asAssetId value =
     (if asset_id_format value then Inr value
      else Inl (PlainError ''Asset id must use the canonical namespace:reference form.''))"

definition assetIdForLegacyCurrency :: "string \<Rightarrow> error + string" where
  "assetIdForLegacyCurrency currency =
     (let normalized = toUpperCase (trim currency) in
      if normalized = ''CKB'' then asAssetId ''ckb:ckb''
      else if normalized = ''BTC'' then asAssetId ''bitcoin:btc''
      else asAssetId (''legacy:'' @ toLowerCase normalized))"

lemma asset_id_samples:
  "asAssetId ''ckb:ckb'' = Inr ''ckb:ckb''" "asAssetId ''bitcoin:btc'' = Inr ''bitcoin:btc''"
  by (simp_all add: asAssetId_def asset_id_format_def asset_part_def asset_head_def asset_namespace_char_def is_digit_def)

lemma asset_ckb: "assetIdForLegacyCurrency ''CKB'' = Inr ''ckb:ckb''"
  by (simp add: assetIdForLegacyCurrency_def trim_def toUpperCase_def upper_char_def is_space_def asset_id_samples)

subsection \<open>Documents\<close>

text \<open>
  A recipient of a pass (\<open>recipientWalletSchema\<close>), and the fields of a pass that only the session service
  and the sweeps use, grouped in a record of their own.
\<close>

record recipient_wallet =
  rw_recipientId :: "string option"
  rw_destinationId :: "string option"
  rw_destinationReusable :: "bool option"
  rw_claimId :: "string option"
  rw_claimChannelId :: "string option"
  rw_name :: string
  rw_address :: "string option"
  rw_email :: "string option"
  rw_recipientTimeZone :: "string option"
  rw_amount :: "major option"
  rw_amountMinor :: "int option"
  rw_fiberInvoice :: "string option"
  rw_status :: "recipient_status option"
  rw_inviteStatus :: "invite_status option"
  rw_inviteTokenHash :: "string option"
  rw_inviteTokenExpiresAt :: "int option"
  rw_inviteSentAt :: "int option"
  rw_inviteClaimedAt :: "int option"
  rw_chargeAttemptId :: "string option"
  rw_paidAt :: "int option"
  rw_lastAttemptAt :: "int option"
  rw_lastFailureCode :: "string option"
  rw_lastFailureMessage :: "string option"
  rw_payoutProofId :: "string option"
  rw_notificationStatus :: "notification_status option"
  rw_notifiedAt :: "int option"
  rw_bridgeTxHash :: "string option"
  rw_channelOpenProofId :: "string option"
  rw_exitInvoice :: "string option"
  rw_exitInvoiceHash :: "string option"
  rw_exitPaymentProofId :: "string option"
  rw_exitPaymentAttemptId :: "string option"
  rw_exitSettlementTxHash :: "string option"
  rw_exitSettledAt :: "int option"

record session_detail =
  det_name :: string
  det_serviceAddress :: string
  det_appGrantCreatedAt :: "int option"
  det_paymentPurpose :: payment_purpose
  det_recipientName :: "string option"
  det_recipientAddress :: "string option"
  det_recipientWallets :: "recipient_wallet list"
  det_paymentReference :: "string option"
  det_releaseCadence :: release_cadence
  det_nextReleaseAt :: "int option"
  det_maxChargeAmount :: "major option"
  det_maxChargeAmountMinor :: "int option"
  det_fundingSourceId :: "string option"
  det_fiberSessionId :: "string option"
  det_fiberStatus :: "string option"
  det_fiberProofId :: "string option"
  det_lifecycleOperationId :: "string option"
  det_lifecycleIdempotencyKey :: "string option"
  det_lifecycleAmountMinor :: "int option"
  det_lifecycleProviderStatus :: "lifecycle_provider option"
  det_lifecycleProvider :: "string option"
  det_lifecycleNetwork :: "string option"
  det_lifecycleProofId :: "string option"
  det_lifecycleFailureCode :: "string option"
  det_lifecycleStartedAt :: "int option"
  det_lifecycleCompletedAt :: "int option"
  det_createdAt :: int

definition blank_detail :: session_detail where
  "blank_detail =
     \<lparr>det_name = [], det_serviceAddress = [], det_appGrantCreatedAt = None, det_paymentPurpose = PP_app_session,
      det_recipientName = None, det_recipientAddress = None, det_recipientWallets = [], det_paymentReference = None,
      det_releaseCadence = RL_none, det_nextReleaseAt = None, det_maxChargeAmount = None, det_maxChargeAmountMinor = None,
      det_fundingSourceId = None, det_fiberSessionId = None, det_fiberStatus = None, det_fiberProofId = None,
      det_lifecycleOperationId = None, det_lifecycleIdempotencyKey = None, det_lifecycleAmountMinor = None,
      det_lifecycleProviderStatus = None, det_lifecycleProvider = None, det_lifecycleNetwork = None,
      det_lifecycleProofId = None, det_lifecycleFailureCode = None, det_lifecycleStartedAt = None,
      det_lifecycleCompletedAt = None, det_createdAt = 0\<rparr>"

record session =
  ses_publicId :: string
  ses_ownerWalletId :: string
  ses_status :: session_status
  ses_lifecycleState :: "lifecycle_state option"
  ses_singleUse :: bool
  ses_appId :: "string option"
  ses_appGrantOwnerWalletId :: "string option"
  ses_appPermissions :: "string list"
  ses_autoMicroCharges :: bool
  ses_expiryAt :: "int option"
  ses_currency :: string
  ses_assetId :: "string option"
  ses_limit :: major
  ses_limitMinor :: "int option"
  ses_limitAtomic :: "int option"
  ses_spent :: major
  ses_spentMinor :: "int option"
  ses_spentAtomic :: "int option"
  ses_reservedMinor :: "int option"
  ses_reservedAtomic :: "int option"
  ses_fundingMode :: "funding_mode option"
  ses_fundingExecutionReady :: "bool option"
  ses_lastChargeProofId :: "string option"
  ses_fiberProvider :: "string option"
  ses_fiberNetwork :: "string option"
  ses_detail :: session_detail

record charge_attempt =
  att_attemptId :: string
  att_sessionId :: string
  att_appId :: "string option"
  att_apiKeyId :: "string option"
  att_ownerWalletId :: "string option"
  att_idempotencyKey :: "string option"
  att_requestFingerprint :: "string option"
  att_serviceReference :: "string option"
  att_amount :: major
  att_amountMinor :: "int option"
  att_amountAtomic :: "int option"
  att_currency :: string
  att_assetId :: "string option"
  att_type :: string
  att_status :: attempt_status
  att_reserveStatus :: reserve_status
  att_failureCode :: "string option"
  att_provider :: "string option"
  att_network :: "string option"
  att_proofId :: "string option"
  att_proofType :: "string option"
  att_executionLayer :: execution_layer
  att_paymentRequestHash :: "string option"
  att_providerCorrelationId :: "string option"
  att_providerStatus :: provider_status
  att_providerSubmittedAt :: "int option"
  att_providerCompletedAt :: "int option"
  att_reservationDay :: "string option"
  att_reservedAt :: "int option"
  att_finalizedAt :: "int option"
  att_executionLeaseId :: "string option"
  att_executionLeaseExpiresAt :: "int option"
  att_metadata :: "(string \<times> json) list"
  att_createdAt :: int

record daily_counter =
  day_sessionId :: string
  day_day :: string
  day_spentMinor :: int
  day_reservedMinor :: int

record funding_source =
  src_sourceId :: string
  src_ownerWalletId :: string
  src_mode :: funding_mode
  src_sourceKind :: funding_source_kind
  src_sourceReference :: string
  src_connectorId :: "string option"
  src_rail :: string
  src_network :: string
  src_assetId :: string
  src_guarantee :: funding_guarantee
  src_riskLabel :: funding_risk
  src_state :: funding_state
  src_availableMinor :: int
  src_authorizedMinor :: int
  src_lockedMinor :: int
  src_reservedMinor :: int
  src_spentMinor :: int
  src_releasedMinor :: int
  src_reclaimableMinor :: int
  src_networkProofId :: "string option"
  src_networkProofType :: "string option"
  src_proofObservedAt :: "int option"
  src_balanceObservedAt :: "int option"
  src_staleAt :: "int option"
  src_failureCode :: "string option"
  src_createdAt :: int

record funding_allocation =
  alc_allocationId :: string
  alc_sourceId :: string
  alc_sessionId :: string
  alc_ownerWalletId :: string
  alc_mode :: funding_mode
  alc_guarantee :: funding_guarantee
  alc_riskLabel :: funding_risk
  alc_state :: allocation_state
  alc_assetId :: string
  alc_authorizedMinor :: int
  alc_spentMinor :: int
  alc_releasedMinor :: int
  alc_remainingMinor :: int
  alc_networkProofIdAtAllocation :: "string option"
  alc_activatedAt :: int
  alc_releasedAt :: "int option"
  alc_exhaustedAt :: "int option"

record payment_receipt =
  rcp_receiptId :: string
  rcp_receiptHash :: string
  rcp_ownerWalletId :: string
  rcp_recipientId :: "string option"
  rcp_sourceType :: receipt_source
  rcp_sourceId :: string
  rcp_settlementId :: string
  rcp_rail :: payment_rail
  rcp_network :: string
  rcp_assetId :: string
  rcp_amountAtomic :: int
  rcp_feeAtomic :: int
  rcp_feeKnown :: bool
  rcp_status :: receipt_status
  rcp_paymentHash :: "string option"
  rcp_proofKind :: "string option"
  rcp_proofReference :: "string option"
  rcp_settledAt :: int
  rcp_createdAt :: int

record notification_endpoint =
  nep_endpointId :: string
  nep_ownerWalletId :: string
  nep_recipientId :: string
  nep_type :: channel_type
  nep_purpose :: string
  nep_status :: endpoint_status

record notification_delivery =
  ndl_deliveryId :: string
  ndl_receiptId :: string
  ndl_endpointId :: string
  ndl_ownerWalletId :: string
  ndl_channel :: channel_type
  ndl_status :: delivery_status
  ndl_attempts :: nat
  ndl_maxAttempts :: nat
  ndl_runAfter :: int

record audit_log =
  aud_actorWalletId :: string
  aud_action :: string
  aud_targetType :: string
  aud_targetId :: string

subsection \<open>The database\<close>

record core_db =
  sessions :: "session list"
  attempts :: "charge_attempt list"
  day_counters :: "daily_counter list"
  sources :: "funding_source list"
  allocations :: "funding_allocation list"
  receipts :: "payment_receipt list"
  endpoints :: "notification_endpoint list"
  deliveries :: "notification_delivery list"
  audit_logs :: "audit_log list"

abbreviation set_sessions :: "session list \<Rightarrow> 'a core_db_scheme \<Rightarrow> 'a core_db_scheme" where
  "set_sessions xs d \<equiv> d\<lparr>sessions := xs\<rparr>"

interpretation sessions: table sessions set_sessions ses_publicId
  by unfold_locales simp_all

interpretation attempts: table attempts "\<lambda>xs d. d\<lparr>attempts := xs\<rparr>" att_attemptId
  by unfold_locales simp_all

interpretation counters: table day_counters "\<lambda>xs d. d\<lparr>day_counters := xs\<rparr>" "\<lambda>c. (day_sessionId c, day_day c)"
  by unfold_locales simp_all

interpretation sources: table sources "\<lambda>xs d. d\<lparr>sources := xs\<rparr>" src_sourceId
  by unfold_locales simp_all

interpretation allocations: table allocations "\<lambda>xs d. d\<lparr>allocations := xs\<rparr>" alc_sessionId
  by unfold_locales simp_all

interpretation receipts: table receipts "\<lambda>xs d. d\<lparr>receipts := xs\<rparr>" "\<lambda>r. (rcp_sourceType r, rcp_sourceId r)"
  by unfold_locales simp_all

definition empty_db :: core_db where
  "empty_db = \<lparr>sessions = [], attempts = [], day_counters = [], sources = [], allocations = [], receipts = [],
     endpoints = [], deliveries = [], audit_logs = []\<rparr>"

text \<open>\<open>doc.save()\<close>: the stored document with the same key is replaced by the edited one.\<close>

definition save_session :: "session \<Rightarrow> 'a core_db_scheme \<Rightarrow> 'a core_db_scheme" where
  "save_session x d = d\<lparr>sessions := update_first (\<lambda>y. ses_publicId y = ses_publicId x) (\<lambda>_. x) (sessions d)\<rparr>"

definition save_attempt :: "charge_attempt \<Rightarrow> 'a core_db_scheme \<Rightarrow> 'a core_db_scheme" where
  "save_attempt x d = d\<lparr>attempts := update_first (\<lambda>y. att_attemptId y = att_attemptId x) (\<lambda>_. x) (attempts d)\<rparr>"

definition save_source :: "funding_source \<Rightarrow> 'a core_db_scheme \<Rightarrow> 'a core_db_scheme" where
  "save_source x d = d\<lparr>sources := update_first (\<lambda>y. src_sourceId y = src_sourceId x) (\<lambda>_. x) (sources d)\<rparr>"

definition save_allocation :: "funding_allocation \<Rightarrow> 'a core_db_scheme \<Rightarrow> 'a core_db_scheme" where
  "save_allocation x d =
     d\<lparr>allocations := update_first (\<lambda>y. alc_sessionId y = alc_sessionId x) (\<lambda>_. x) (allocations d)\<rparr>"

definition find_session :: "string \<Rightarrow> 'a core_db_scheme \<Rightarrow> session option" where
  "find_session i d = List.find (\<lambda>x. ses_publicId x = i) (sessions d)"

definition find_attempt :: "string \<Rightarrow> 'a core_db_scheme \<Rightarrow> charge_attempt option" where
  "find_attempt i d = List.find (\<lambda>x. att_attemptId x = i) (attempts d)"

text \<open>\<open>writeAuditLog\<close>: one document appended; a failing write is logged and ignored by the code.\<close>

definition writeAuditLog :: "string \<Rightarrow> string \<Rightarrow> string \<Rightarrow> string \<Rightarrow> 'a core_db_scheme \<Rightarrow> 'a core_db_scheme" where
  "writeAuditLog actorWalletId action targetType targetId d =
     d\<lparr>audit_logs := audit_logs d @
        [\<lparr>aud_actorWalletId = actorWalletId, aud_action = action, aud_targetType = targetType,
          aud_targetId = targetId\<rparr>]\<rparr>"

lemma writeAuditLog_frame [simp]:
  "sessions (writeAuditLog a b c e d) = sessions d"
  "attempts (writeAuditLog a b c e d) = attempts d"
  "day_counters (writeAuditLog a b c e d) = day_counters d"
  "sources (writeAuditLog a b c e d) = sources d"
  "allocations (writeAuditLog a b c e d) = allocations d"
  "receipts (writeAuditLog a b c e d) = receipts d"
  by (simp_all add: writeAuditLog_def)

lemma save_frames [simp]:
  "attempts (save_session x d) = attempts d" "day_counters (save_session x d) = day_counters d"
  "sources (save_session x d) = sources d" "allocations (save_session x d) = allocations d"
  "receipts (save_session x d) = receipts d"
  "sessions (save_attempt a d) = sessions d" "day_counters (save_attempt a d) = day_counters d"
  "sources (save_attempt a d) = sources d" "allocations (save_attempt a d) = allocations d"
  "receipts (save_attempt a d) = receipts d"
  "sessions (save_source s d) = sessions d" "attempts (save_source s d) = attempts d"
  "day_counters (save_source s d) = day_counters d" "allocations (save_source s d) = allocations d"
  "receipts (save_source s d) = receipts d"
  "sessions (save_allocation c d) = sessions d" "attempts (save_allocation c d) = attempts d"
  "day_counters (save_allocation c d) = day_counters d" "sources (save_allocation c d) = sources d"
  "receipts (save_allocation c d) = receipts d"
  by (simp_all add: save_session_def save_attempt_def save_source_def save_allocation_def)

subsection \<open>Dates as text\<close>

text \<open>
  \<open>date.toISOString()\<close> for years 0 to 9999: the proleptic Gregorian date of the day number, then the
  time of day. \<open>civil_of_day\<close> counts from 1 March of year 0, so that the leap day ends the year.
\<close>

definition MS_PER_DAY :: int where
  "MS_PER_DAY = 86400000"

definition civil_of_day :: "int \<Rightarrow> int \<times> int \<times> int" where
  "civil_of_day z =
     (let z' = z + 719468; era = z' div 146097; doe = z' mod 146097;
          yoe = (doe - doe div 1460 + doe div 36524 - doe div 146096) div 365;
          doy = doe - (365 * yoe + yoe div 4 - yoe div 100);
          mp = (5 * doy + 2) div 153;
          d = doy - (153 * mp + 2) div 5 + 1;
          m = (if mp < 10 then mp + 3 else mp - 9);
          y = yoe + era * 400 + (if m \<le> 2 then 1 else 0)
      in (y, m, d))"

definition pad_int :: "nat \<Rightarrow> int \<Rightarrow> string" where
  "pad_int n i = padStart n (CHR ''0'') (dec_of_nat (nat i))"

declare pad_int_def [unfolded dec_of_int_digits, code]

definition isoDay :: "int \<Rightarrow> string" where
  "isoDay t = (case civil_of_day (t div MS_PER_DAY) of (y, m, d) \<Rightarrow>
     pad_int 4 y @ ''-'' @ pad_int 2 m @ ''-'' @ pad_int 2 d)"

definition toISOString :: "int \<Rightarrow> string" where
  "toISOString t =
     (let ms = t mod MS_PER_DAY
      in isoDay t @ ''T'' @ pad_int 2 (ms div 3600000) @ '':'' @ pad_int 2 (ms div 60000 mod 60) @ '':''
         @ pad_int 2 (ms div 1000 mod 60) @ ''.'' @ pad_int 3 (ms mod 1000) @ ''Z'')"

end
