(* ===== verification/Vault_V2.thy ===== *)
theory Vault_V2
  imports Store
begin

section \<open>The per-pass vault, version 2 (domain/vaultV2.ts)\<close>

text \<open>
  The executable specification of the constrained vault: a policy fixed at creation, a state cell and
  the checks a transition must pass. \<open>validateVaultV2Transition\<close> is modelled with every check in the
  order of the code; a failed check is \<open>ModelError\<close> with the code of the exception.

  Amounts and hashes are strings, as in the code; \<open>amount\<close>, \<open>hash\<close> and \<open>integer\<close> are its validators.
  \<open>vault_step\<close> is one accepted transition and \<open>vault_run\<close> a sequence of them; the theorems bound what
  an operator can take over any run.
\<close>

datatype vault_action = Operator_payout | Owner_top_up | Owner_revoke | Owner_reclaim | Owner_migrate
datatype vault_asset = Native_ckb | Udt string
datatype vault_status = V_active | V_revoked

record vault_policy =
  vp_policyHash :: string
  vp_passIdHash :: string
  vp_ownerLockHash :: string
  vp_operatorLockHash :: string
  vp_recipientLockHash :: string
  vp_asset :: vault_asset
  vp_totalCapAtomic :: string
  vp_perPaymentCapAtomic :: string
  vp_cadenceSeconds :: int
  vp_occurrenceLimit :: int
  vp_expirySeconds :: "int option"
  vp_feeCeilingShannons :: string

record vault_state =
  vs_policyHash :: string
  vs_remainingAtomic :: string
  vs_occurrenceCount :: int
  vs_nextValidAfterSeconds :: int
  vs_nonce :: int
  vs_status :: vault_status

record vault_transition =
  vt_action :: vault_action
  vt_authLockHashes :: "string list"
  vt_inputPassIdHashes :: "string list"
  vt_observedAssetTypeHash :: "string option"
  vt_inputVaultAssetAtomic :: string
  vt_outputVaultAssetAtomic :: string
  vt_recipientLockHash :: "string option"
  vt_recipientAssetAtomic :: string
  vt_ownerNetAssetAtomic :: string
  vt_topUpAtomic :: string
  vt_feeShannons :: string
  vt_stateCapacityDeltaShannons :: string
  vt_verifiedTimeSeconds :: "int option"
  vt_outputState :: "vault_state option"
  vt_migrationTargetLockHash :: "string option"

record vault_values =
  vv_input :: int
  vv_output :: int
  vv_recipient :: int
  vv_ownerNet :: int
  vv_topUp :: int
  vv_fee :: int

definition is_hex_lower :: "char \<Rightarrow> bool" where
  "is_hex_lower c \<longleftrightarrow> is_digit c \<or> (97 \<le> code c \<and> code c \<le> 102)"

definition canonical_hash :: "string \<Rightarrow> bool" where
  "canonical_hash v \<longleftrightarrow> take 2 v = ''0x'' \<and> length v = 66 \<and> list_all is_hex_lower (drop 2 v)"

definition hash :: "string \<Rightarrow> error + string" where
  "hash value = (if canonical_hash value then Inr value else Inl (ModelError ''INVALID_HASH''))"

definition amount :: "string \<Rightarrow> error + int" where
  "amount value =
     (case bindE (asAtomicAmount value) parseAtomicAmount of
        Inl _ \<Rightarrow> Inl (ModelError ''INVALID_AMOUNT'')
      | Inr v \<Rightarrow> Inr v)"

definition integer :: "int \<Rightarrow> error + int" where
  "integer value =
     (if \<not> isSafeInteger value \<or> value < 0 then Inl (ModelError ''INVALID_INTEGER'') else Inr value)"

definition validatePolicy :: "vault_policy \<Rightarrow> error + unit" where
  "validatePolicy policy =
     bindE (hash (vp_policyHash policy)) (\<lambda>_.
     bindE (hash (vp_passIdHash policy)) (\<lambda>_.
     bindE (hash (vp_ownerLockHash policy)) (\<lambda>_.
     bindE (hash (vp_operatorLockHash policy)) (\<lambda>_.
     bindE (hash (vp_recipientLockHash policy)) (\<lambda>_.
     bindE (case vp_asset policy of Native_ckb \<Rightarrow> Inr '''' | Udt typeHash \<Rightarrow> hash typeHash) (\<lambda>_.
     bindE (amount (vp_totalCapAtomic policy)) (\<lambda>total.
     bindE (amount (vp_perPaymentCapAtomic policy)) (\<lambda>perPayment.
     bindE (require (\<not> (total \<le> 0 \<or> perPayment \<le> 0 \<or> perPayment > total)) (ModelError ''INVALID_CAP'')) (\<lambda>_.
     bindE (integer (vp_cadenceSeconds policy)) (\<lambda>_.
     bindE (integer (vp_occurrenceLimit policy)) (\<lambda>limit.
     bindE (require (\<not> limit < 1) (ModelError ''INVALID_OCCURRENCE_LIMIT'')) (\<lambda>_.
     bindE (case vp_expirySeconds policy of None \<Rightarrow> Inr 0 | Some e \<Rightarrow> integer e) (\<lambda>_.
     bindE (amount (vp_feeCeilingShannons policy)) (\<lambda>_. Inr ()))))))))))))))"

definition validateState :: "vault_policy \<Rightarrow> vault_state \<Rightarrow> error + unit" where
  "validateState policy state =
     bindE (require (vs_policyHash state = vp_policyHash policy) (ModelError ''POLICY_HASH_MISMATCH'')) (\<lambda>_.
     bindE (amount (vs_remainingAtomic state)) (\<lambda>remaining.
     bindE (amount (vp_totalCapAtomic policy)) (\<lambda>totalCap.
     bindE (require (\<not> remaining > totalCap) (ModelError ''TOTAL_CAP_EXCEEDED'')) (\<lambda>_.
     bindE (integer (vs_occurrenceCount state)) (\<lambda>_.
     bindE (integer (vs_nextValidAfterSeconds state)) (\<lambda>_.
     bindE (integer (vs_nonce state)) (\<lambda>_. Inr ())))))))"

definition requireAuth :: "vault_transition \<Rightarrow> string \<Rightarrow> string \<Rightarrow> error + unit" where
  "requireAuth transition expected failure = require (expected \<in> set (vt_authLockHashes transition)) (ModelError failure)"

definition requireOutputState ::
  "vault_policy \<Rightarrow> vault_state \<Rightarrow> vault_transition \<Rightarrow> error + vault_state" where
  "requireOutputState policy before transition =
     (case vt_outputState transition of
        None \<Rightarrow> Inl (ModelError ''OUTPUT_STATE_REQUIRED'')
      | Some output \<Rightarrow>
         bindE (validateState policy output) (\<lambda>_.
         bindE (require (vs_policyHash output = vs_policyHash before) (ModelError ''POLICY_MUTATION'')) (\<lambda>_.
         bindE (require (vs_nonce output = vs_nonce before + 1) (ModelError ''NONCE_INVALID'')) (\<lambda>_.
         Inr output))))"

definition requireZero :: "int \<Rightarrow> string \<Rightarrow> error + unit" where
  "requireZero value failure = require (value = 0) (ModelError failure)"

definition validateAsset :: "vault_policy \<Rightarrow> vault_transition \<Rightarrow> error + unit" where
  "validateAsset policy transition =
     (case vp_asset policy of
        Native_ckb \<Rightarrow> require (vt_observedAssetTypeHash transition = None) (ModelError ''UNEXPECTED_TYPE_SCRIPT'')
      | Udt typeHash \<Rightarrow>
         bindE (require (vt_observedAssetTypeHash transition = Some typeHash) (ModelError ''ASSET_TYPE_MISMATCH'')) (\<lambda>_.
         bindE (amount (vt_stateCapacityDeltaShannons transition)) (\<lambda>delta.
         requireZero delta ''UDT_STATE_CAPACITY_CHANGED'')))"

definition validateCommon ::
  "vault_policy \<Rightarrow> vault_state \<Rightarrow> vault_transition \<Rightarrow> error + vault_values" where
  "validateCommon policy before transition =
     bindE (validatePolicy policy) (\<lambda>_.
     bindE (validateState policy before) (\<lambda>_.
     bindE (require
        (\<not> (vt_inputPassIdHashes transition = []
            \<or> list_ex (\<lambda>passId. passId \<noteq> vp_passIdHash policy) (vt_inputPassIdHashes transition)))
        (ModelError ''PASS_CELL_MIXING'')) (\<lambda>_.
     bindE (validateAsset policy transition) (\<lambda>_.
     bindE (amount (vt_inputVaultAssetAtomic transition)) (\<lambda>input.
     bindE (amount (vt_outputVaultAssetAtomic transition)) (\<lambda>output.
     bindE (amount (vt_recipientAssetAtomic transition)) (\<lambda>recipient.
     bindE (amount (vt_ownerNetAssetAtomic transition)) (\<lambda>ownerNet.
     bindE (amount (vt_topUpAtomic transition)) (\<lambda>topUp.
     bindE (amount (vt_feeShannons transition)) (\<lambda>fee.
     bindE (amount (vs_remainingAtomic before)) (\<lambda>remaining.
     bindE (require (input = remaining) (ModelError ''INPUT_STATE_ASSET_MISMATCH'')) (\<lambda>_.
     bindE (amount (vp_feeCeilingShannons policy)) (\<lambda>ceiling.
     bindE (require (\<not> fee > ceiling) (ModelError ''FEE_CEILING_EXCEEDED'')) (\<lambda>_.
     Inr \<lparr>vv_input = input, vv_output = output, vv_recipient = recipient,
          vv_ownerNet = ownerNet, vv_topUp = topUp, vv_fee = fee\<rparr>))))))))))))))"

definition requireVerifiedTime ::
  "vault_policy \<Rightarrow> vault_state \<Rightarrow> vault_transition \<Rightarrow> error + int" where
  "requireVerifiedTime policy before transition =
     (case vt_verifiedTimeSeconds transition of
        None \<Rightarrow> Inl (ModelError ''TIME_EVIDENCE_REQUIRED'')
      | Some now \<Rightarrow>
         bindE (integer now) (\<lambda>_.
         bindE (require (\<not> now < vs_nextValidAfterSeconds before) (ModelError ''CADENCE_NOT_REACHED'')) (\<lambda>_.
         bindE (require (case vp_expirySeconds policy of None \<Rightarrow> True | Some e \<Rightarrow> \<not> now \<ge> e)
            (ModelError ''VAULT_EXPIRED'')) (\<lambda>_.
         Inr now))))"

definition native_fee :: "vault_policy \<Rightarrow> vault_values \<Rightarrow> int" where
  "native_fee policy values = (case vp_asset policy of Native_ckb \<Rightarrow> vv_fee values | Udt _ \<Rightarrow> 0)"

definition validateOperatorPayout ::
  "vault_policy \<Rightarrow> vault_state \<Rightarrow> vault_transition \<Rightarrow> vault_values \<Rightarrow> error + vault_state" where
  "validateOperatorPayout policy before transition values =
     bindE (requireAuth transition (vp_operatorLockHash policy) ''OPERATOR_AUTH_REQUIRED'') (\<lambda>_.
     bindE (require (vs_status before = V_active) (ModelError ''VAULT_REVOKED'')) (\<lambda>_.
     bindE (requireVerifiedTime policy before transition) (\<lambda>now.
     bindE (amount (vp_perPaymentCapAtomic policy)) (\<lambda>perPaymentCap.
     bindE (require (\<not> (vv_recipient values \<le> 0 \<or> vv_recipient values > perPaymentCap))
        (ModelError ''PAYMENT_CAP_EXCEEDED'')) (\<lambda>_.
     bindE (require (\<not> vv_recipient values > vv_input values) (ModelError ''INSUFFICIENT_REMAINING'')) (\<lambda>_.
     bindE (require (vt_recipientLockHash transition = Some (vp_recipientLockHash policy))
        (ModelError ''RECIPIENT_MISMATCH'')) (\<lambda>_.
     bindE (requireZero (vv_ownerNet values) ''OWNER_OUTPUT_FORBIDDEN'') (\<lambda>_.
     bindE (requireZero (vv_topUp values) ''TOP_UP_FORBIDDEN'') (\<lambda>_.
     bindE (require (\<not> vs_occurrenceCount before \<ge> vp_occurrenceLimit policy)
        (ModelError ''OCCURRENCE_LIMIT_REACHED'')) (\<lambda>_.
     let expectedRemaining = vv_input values - vv_recipient values - native_fee policy values in
     bindE (require (\<not> (expectedRemaining < 0 \<or> vv_output values \<noteq> expectedRemaining))
        (ModelError ''ASSET_CONSERVATION_FAILED'')) (\<lambda>_.
     bindE (requireOutputState policy before transition) (\<lambda>output.
     bindE (amount (vs_remainingAtomic output)) (\<lambda>outRemaining.
     bindE (require (outRemaining = expectedRemaining) (ModelError ''STATE_REMAINING_MISMATCH'')) (\<lambda>_.
     bindE (require (vs_occurrenceCount output = vs_occurrenceCount before + 1)
        (ModelError ''OCCURRENCE_COUNT_INVALID'')) (\<lambda>_.
     bindE (require (vs_status output = V_active) (ModelError ''STATUS_INVALID'')) (\<lambda>_.
     bindE (require (vs_nextValidAfterSeconds output
          = max (vs_nextValidAfterSeconds before) now + vp_cadenceSeconds policy)
        (ModelError ''NEXT_CADENCE_INVALID'')) (\<lambda>_.
     Inr output)))))))))))))))))"

definition validateOwnerTopUp ::
  "vault_policy \<Rightarrow> vault_state \<Rightarrow> vault_transition \<Rightarrow> vault_values \<Rightarrow> error + vault_state" where
  "validateOwnerTopUp policy before transition values =
     bindE (requireAuth transition (vp_ownerLockHash policy) ''OWNER_AUTH_REQUIRED'') (\<lambda>_.
     bindE (require (vs_status before = V_active) (ModelError ''VAULT_REVOKED'')) (\<lambda>_.
     bindE (require (\<not> vv_topUp values \<le> 0) (ModelError ''TOP_UP_REQUIRED'')) (\<lambda>_.
     bindE (requireZero (vv_recipient values) ''RECIPIENT_OUTPUT_FORBIDDEN'') (\<lambda>_.
     bindE (requireZero (vv_ownerNet values) ''OWNER_OUTPUT_FORBIDDEN'') (\<lambda>_.
     bindE (requireZero (vv_fee values) ''EXTERNAL_FEE_REQUIRED'') (\<lambda>_.
     let expected = vv_input values + vv_topUp values in
     bindE (amount (vp_totalCapAtomic policy)) (\<lambda>totalCap.
     bindE (require (\<not> (expected > totalCap \<or> vv_output values \<noteq> expected))
        (ModelError ''TOTAL_CAP_EXCEEDED'')) (\<lambda>_.
     bindE (requireOutputState policy before transition) (\<lambda>output.
     bindE (amount (vs_remainingAtomic output)) (\<lambda>outRemaining.
     bindE (require (\<not> (outRemaining \<noteq> expected
          \<or> vs_occurrenceCount output \<noteq> vs_occurrenceCount before
          \<or> vs_nextValidAfterSeconds output \<noteq> vs_nextValidAfterSeconds before
          \<or> vs_status output \<noteq> V_active)) (ModelError ''TOP_UP_STATE_INVALID'')) (\<lambda>_.
     Inr output)))))))))))"

definition validateOwnerRevoke ::
  "vault_policy \<Rightarrow> vault_state \<Rightarrow> vault_transition \<Rightarrow> vault_values \<Rightarrow> error + vault_state" where
  "validateOwnerRevoke policy before transition values =
     bindE (requireAuth transition (vp_ownerLockHash policy) ''OWNER_AUTH_REQUIRED'') (\<lambda>_.
     bindE (requireZero (vv_recipient values) ''RECIPIENT_OUTPUT_FORBIDDEN'') (\<lambda>_.
     bindE (requireZero (vv_ownerNet values) ''OWNER_OUTPUT_FORBIDDEN'') (\<lambda>_.
     bindE (requireZero (vv_topUp values) ''TOP_UP_FORBIDDEN'') (\<lambda>_.
     bindE (requireZero (vv_fee values) ''EXTERNAL_FEE_REQUIRED'') (\<lambda>_.
     bindE (require (vv_output values = vv_input values) (ModelError ''ASSET_CONSERVATION_FAILED'')) (\<lambda>_.
     bindE (requireOutputState policy before transition) (\<lambda>output.
     bindE (require (\<not> (vs_remainingAtomic output \<noteq> vs_remainingAtomic before
          \<or> vs_occurrenceCount output \<noteq> vs_occurrenceCount before
          \<or> vs_nextValidAfterSeconds output \<noteq> vs_nextValidAfterSeconds before
          \<or> vs_status output \<noteq> V_revoked)) (ModelError ''REVOKE_STATE_INVALID'')) (\<lambda>_.
     Inr output))))))))"

definition validateOwnerExit ::
  "vault_policy \<Rightarrow> vault_transition \<Rightarrow> vault_values \<Rightarrow> bool \<Rightarrow> error + unit" where
  "validateOwnerExit policy transition values migration =
     bindE (requireAuth transition (vp_ownerLockHash policy) ''OWNER_AUTH_REQUIRED'') (\<lambda>_.
     bindE (require (vt_outputState transition = None) (ModelError ''STATE_OUTPUT_FORBIDDEN'')) (\<lambda>_.
     bindE (require (vv_output values = 0) (ModelError ''VAULT_CHANGE_FORBIDDEN'')) (\<lambda>_.
     bindE (requireZero (vv_recipient values) ''RECIPIENT_OUTPUT_FORBIDDEN'') (\<lambda>_.
     bindE (requireZero (vv_topUp values) ''TOP_UP_FORBIDDEN'') (\<lambda>_.
     let expected = vv_input values - native_fee policy values in
     bindE (require (vv_ownerNet values = expected) (ModelError ''OWNER_CONSERVATION_FAILED'')) (\<lambda>_.
     if migration then
       (case vt_migrationTargetLockHash transition of
          None \<Rightarrow> Inl (ModelError ''MIGRATION_TARGET_REQUIRED'')
        | Some target \<Rightarrow>
           bindE (require (target \<noteq> []) (ModelError ''MIGRATION_TARGET_REQUIRED'')) (\<lambda>_.
           bindE (hash target) (\<lambda>_.
           require (vt_recipientLockHash transition = Some target) (ModelError ''MIGRATION_TARGET_MISMATCH''))))
     else require (vt_recipientLockHash transition = Some (vp_ownerLockHash policy))
            (ModelError ''OWNER_RECIPIENT_MISMATCH'')))))))"

definition validateVaultV2Transition ::
  "vault_policy \<Rightarrow> vault_state \<Rightarrow> vault_transition \<Rightarrow> error + vault_state option" where
  "validateVaultV2Transition policy before transition =
     bindE (validateCommon policy before transition) (\<lambda>values.
     case vt_action transition of
       Operator_payout \<Rightarrow> bindE (validateOperatorPayout policy before transition values) (\<lambda>s. Inr (Some s))
     | Owner_top_up \<Rightarrow> bindE (validateOwnerTopUp policy before transition values) (\<lambda>s. Inr (Some s))
     | Owner_revoke \<Rightarrow> bindE (validateOwnerRevoke policy before transition values) (\<lambda>s. Inr (Some s))
     | Owner_reclaim \<Rightarrow> bindE (validateOwnerExit policy transition values False) (\<lambda>_. Inr None)
     | Owner_migrate \<Rightarrow> bindE (validateOwnerExit policy transition values True) (\<lambda>_. Inr None))"


definition vaultV2Amount :: "int \<Rightarrow> error + string" where
  "vaultV2Amount value = atomicAmountFromBigInt value"

subsection \<open>What an accepted transition does\<close>

text \<open>
  \<open>amt\<close> reads a validated amount string. \<open>vault_run policy s ts s'\<close>: the transitions \<open>ts\<close> are accepted
  one after the other from \<open>s\<close>; \<open>s' = None\<close> when the last one closed the vault (reclaim, migrate).
\<close>

definition amt :: "string \<Rightarrow> int" where
  "amt s = (case amount s of Inl _ \<Rightarrow> 0 | Inr v \<Rightarrow> v)"

inductive vault_run :: "vault_policy \<Rightarrow> vault_state \<Rightarrow> vault_transition list \<Rightarrow> vault_state option \<Rightarrow> bool"
  for policy where
    stay: "vault_run policy s [] (Some s)"
  | close: "validateVaultV2Transition policy s t = Inr None \<Longrightarrow> vault_run policy s [t] None"
  | step: "validateVaultV2Transition policy s t = Inr (Some s') \<Longrightarrow> vault_run policy s' ts r \<Longrightarrow>
      vault_run policy s (t # ts) r"

code_pred vault_run .

inductive_cases vault_run_NilE: "vault_run policy s [] r"
inductive_cases vault_run_ConsE: "vault_run policy s (t # ts) r"

definition is_payout :: "vault_transition \<Rightarrow> bool" where
  "is_payout t \<longleftrightarrow> vt_action t = Operator_payout"

definition paid :: "vault_transition \<Rightarrow> int" where
  "paid t = amt (vt_recipientAssetAtomic t)"

definition fee_from_vault :: "vault_policy \<Rightarrow> vault_transition \<Rightarrow> int" where
  "fee_from_vault policy t = (case vp_asset policy of Native_ckb \<Rightarrow> amt (vt_feeShannons t) | Udt _ \<Rightarrow> 0)"

definition remaining_of :: "vault_state option \<Rightarrow> int" where
  "remaining_of r = (case r of None \<Rightarrow> 0 | Some s \<Rightarrow> amt (vs_remainingAtomic s))"

lemma amount_Inr: "amount s = Inr v \<longleftrightarrow> parseAtomicAmount s = Inr v"
  by (auto simp: amount_def asAtomicAmount_idem dest: asAtomicAmount_id split: sum.splits)

lemma amount_nonneg: "amount s = Inr v \<Longrightarrow> 0 \<le> v"
  by (auto simp: amount_Inr parse_Inr atomic_range_def)

lemma amt_Inr: "amount s = Inr v \<Longrightarrow> amt s = v"
  by (simp add: amt_def)

lemma amt_nonneg [simp]: "0 \<le> amt s"
  by (auto simp: amt_def dest: amount_nonneg split: sum.splits)

text \<open>The common checks tie the values record to the amounts of the transition.\<close>

lemma common_values:
  assumes "validateCommon policy s t = Inr v"
  shows "vv_input v = amt (vs_remainingAtomic s)" and "vv_output v = amt (vt_outputVaultAssetAtomic t)"
    and "vv_recipient v = paid t" and "vv_ownerNet v = amt (vt_ownerNetAssetAtomic t)"
    and "vv_topUp v = amt (vt_topUpAtomic t)" and "vv_fee v = amt (vt_feeShannons t)"
    and "native_fee policy v = fee_from_vault policy t"
    and "set (vt_inputPassIdHashes t) = {vp_passIdHash policy}"
    and "amt (vt_feeShannons t) \<le> amt (vp_feeCeilingShannons policy)"
    and "validatePolicy policy = Inr ()" and "validateState policy s = Inr ()"
  using assms unfolding validateCommon_def
  by (auto simp: paid_def native_fee_def fee_from_vault_def list_ex_iff neq_Nil_conv amt_Inr
      split: vault_asset.splits)


text \<open>One lemma per action: what the code's checks leave true.\<close>

lemma operator_payout_effect:
  assumes "validateOperatorPayout policy s t v = Inr s'"
  shows "vp_operatorLockHash policy \<in> set (vt_authLockHashes t)" and "vs_status s = V_active"
    and "vs_status s' = V_active" and "0 < vv_recipient v"
    and "vv_recipient v \<le> amt (vp_perPaymentCapAtomic policy)"
    and "vt_recipientLockHash t = Some (vp_recipientLockHash policy)"
    and "vv_ownerNet v = 0" and "vv_topUp v = 0"
    and "vs_occurrenceCount s < vp_occurrenceLimit policy"
    and "vs_occurrenceCount s' = vs_occurrenceCount s + 1"
    and "amt (vs_remainingAtomic s') = vv_input v - vv_recipient v - native_fee policy v"
    and "vv_output v = amt (vs_remainingAtomic s')"
    and "\<exists>now. vt_verifiedTimeSeconds t = Some now \<and> vs_nextValidAfterSeconds s \<le> now
          \<and> vs_nextValidAfterSeconds s' = now + vp_cadenceSeconds policy
          \<and> (\<forall>e. vp_expirySeconds policy = Some e \<longrightarrow> now < e)"
    and "validateState policy s' = Inr ()" and "vs_nonce s' = vs_nonce s + 1"
  using assms unfolding validateOperatorPayout_def requireAuth_def requireZero_def
    requireVerifiedTime_def requireOutputState_def
  by (auto simp: Let_def amt_Inr max_def split: option.splits)

lemma owner_top_up_effect:
  assumes "validateOwnerTopUp policy s t v = Inr s'"
  shows "vp_ownerLockHash policy \<in> set (vt_authLockHashes t)" and "vs_status s = V_active"
    and "vs_status s' = V_active" and "0 < vv_topUp v" and "vv_recipient v = 0" and "vv_ownerNet v = 0"
    and "vv_fee v = 0" and "vs_occurrenceCount s' = vs_occurrenceCount s"
    and "vs_nextValidAfterSeconds s' = vs_nextValidAfterSeconds s"
    and "amt (vs_remainingAtomic s') = vv_input v + vv_topUp v"
    and "vv_output v = amt (vs_remainingAtomic s')"
    and "validateState policy s' = Inr ()" and "vs_nonce s' = vs_nonce s + 1"
  using assms unfolding validateOwnerTopUp_def requireAuth_def requireZero_def requireOutputState_def
  by (auto simp: Let_def amt_Inr split: option.splits)

lemma owner_revoke_effect:
  assumes "validateOwnerRevoke policy s t v = Inr s'"
  shows "vp_ownerLockHash policy \<in> set (vt_authLockHashes t)" and "vs_status s' = V_revoked"
    and "vv_recipient v = 0" and "vv_ownerNet v = 0" and "vv_topUp v = 0" and "vv_fee v = 0"
    and "vv_output v = vv_input v" and "vs_remainingAtomic s' = vs_remainingAtomic s"
    and "vs_occurrenceCount s' = vs_occurrenceCount s"
    and "vs_nextValidAfterSeconds s' = vs_nextValidAfterSeconds s"
    and "validateState policy s' = Inr ()" and "vs_nonce s' = vs_nonce s + 1"
  using assms unfolding validateOwnerRevoke_def requireAuth_def requireZero_def requireOutputState_def
  by (auto split: option.splits)

lemma owner_exit_effect:
  assumes "validateOwnerExit policy t v migration = Inr u"
  shows "vp_ownerLockHash policy \<in> set (vt_authLockHashes t)" and "vt_outputState t = None"
    and "vv_output v = 0" and "vv_recipient v = 0" and "vv_topUp v = 0"
    and "vv_ownerNet v = vv_input v - native_fee policy v"
    and "\<not> migration \<Longrightarrow> vt_recipientLockHash t = Some (vp_ownerLockHash policy)"
    and "migration \<Longrightarrow> vt_migrationTargetLockHash t \<noteq> None
          \<and> vt_recipientLockHash t = vt_migrationTargetLockHash t"
  using assms unfolding validateOwnerExit_def requireAuth_def requireZero_def
  by (auto simp: Let_def split: option.splits if_splits)

lemma validate_cases:
  assumes "validateVaultV2Transition policy s t = Inr r"
  obtains (payout) v s' where "validateCommon policy s t = Inr v" and "is_payout t"
      and "validateOperatorPayout policy s t v = Inr s'" and "r = Some s'"
    | (top_up) v s' where "validateCommon policy s t = Inr v" and "vt_action t = Owner_top_up"
      and "validateOwnerTopUp policy s t v = Inr s'" and "r = Some s'"
    | (revoke) v s' where "validateCommon policy s t = Inr v" and "vt_action t = Owner_revoke"
      and "validateOwnerRevoke policy s t v = Inr s'" and "r = Some s'"
    | (exit) v where "validateCommon policy s t = Inr v" and "vt_action t \<in> {Owner_reclaim, Owner_migrate}"
      and "validateOwnerExit policy t v (vt_action t = Owner_migrate) = Inr ()" and "r = None"
proof -
  from assms obtain v where common: "validateCommon policy s t = Inr v"
    unfolding validateVaultV2Transition_def by auto
  show thesis
  proof (cases "vt_action t")
    case Operator_payout
    with assms common show thesis
      by (auto simp: validateVaultV2Transition_def is_payout_def intro: payout [OF common])
  next
    case Owner_top_up
    with assms common show thesis
      by (auto simp: validateVaultV2Transition_def intro: top_up [OF common])
  next
    case Owner_revoke
    with assms common show thesis
      by (auto simp: validateVaultV2Transition_def intro: revoke [OF common])
  next
    case Owner_reclaim
    with assms common show thesis
      by (auto simp: validateVaultV2Transition_def intro!: exit [OF common])
  next
    case Owner_migrate
    with assms common show thesis
      by (auto simp: validateVaultV2Transition_def intro!: exit [OF common])
  qed
qed

text \<open>One accepted transition conserves the asset, whatever the action.\<close>

lemma step_conserves:
  assumes "validateVaultV2Transition policy s t = Inr r"
  shows "amt (vs_remainingAtomic s) + amt (vt_topUpAtomic t)
    = paid t + amt (vt_ownerNetAssetAtomic t) + fee_from_vault policy t + remaining_of r"
  using assms
proof (cases rule: validate_cases)
  case (payout v s')
  then show ?thesis
    using common_values [OF payout(1)] operator_payout_effect [OF payout(3)]
    by (simp add: remaining_of_def)
next
  case (top_up v s')
  then show ?thesis
    using common_values [OF top_up(1)] owner_top_up_effect [OF top_up(3)]
    by (auto simp: remaining_of_def fee_from_vault_def split: vault_asset.splits)
next
  case (revoke v s')
  then show ?thesis
    using common_values [OF revoke(1)] owner_revoke_effect [OF revoke(3)]
    by (auto simp: remaining_of_def fee_from_vault_def split: vault_asset.splits)
next
  case (exit v)
  then show ?thesis
    using common_values [OF exit(1)] owner_exit_effect [OF exit(3)]
    by (simp add: remaining_of_def)
qed


text \<open>What the payment output of a transition may be.\<close>

lemma step_payment:
  assumes "validateVaultV2Transition policy s t = Inr r"
  shows "0 < paid t \<longleftrightarrow> is_payout t" and "0 \<le> paid t"
    and "is_payout t \<Longrightarrow> paid t \<le> amt (vp_perPaymentCapAtomic policy)"
    and "is_payout t \<Longrightarrow> vt_recipientLockHash t = Some (vp_recipientLockHash policy)"
proof -
  show "0 \<le> paid t" by (simp add: paid_def)
  show "0 < paid t \<longleftrightarrow> is_payout t"
    using assms
    by (cases rule: validate_cases)
      (use common_values(3) operator_payout_effect(4) owner_top_up_effect(5) owner_revoke_effect(3)
          owner_exit_effect(4) in \<open>auto simp: is_payout_def, fastforce+\<close>)
  show "is_payout t \<Longrightarrow> paid t \<le> amt (vp_perPaymentCapAtomic policy)"
    using assms
    by (cases rule: validate_cases)
      (use common_values(3) operator_payout_effect(5) in \<open>auto simp: is_payout_def, fastforce+\<close>)
  show "is_payout t \<Longrightarrow> vt_recipientLockHash t = Some (vp_recipientLockHash policy)"
    using assms
    by (cases rule: validate_cases)
      (use operator_payout_effect(6) in \<open>auto simp: is_payout_def\<close>)
qed


text \<open>What the next state cell may be.\<close>

lemma step_state:
  assumes "validateVaultV2Transition policy s t = Inr (Some s')"
  shows "vs_nonce s' = vs_nonce s + 1" and "validateState policy s' = Inr ()"
    and "vs_occurrenceCount s' = vs_occurrenceCount s + (if is_payout t then 1 else 0)"
    and "is_payout t \<Longrightarrow> vs_occurrenceCount s < vp_occurrenceLimit policy"
    and "is_payout t \<Longrightarrow> \<exists>now. vt_verifiedTimeSeconds t = Some now \<and> vs_nextValidAfterSeconds s \<le> now
          \<and> vs_nextValidAfterSeconds s' = now + vp_cadenceSeconds policy
          \<and> (\<forall>e. vp_expirySeconds policy = Some e \<longrightarrow> now < e)"
    and "\<not> is_payout t \<Longrightarrow> vs_nextValidAfterSeconds s' = vs_nextValidAfterSeconds s"
    and "vs_status s = V_revoked \<Longrightarrow> vs_status s' = V_revoked \<and> vt_action t = Owner_revoke
          \<and> vs_remainingAtomic s' = vs_remainingAtomic s"
proof -
  note effects = operator_payout_effect owner_top_up_effect owner_revoke_effect
  show "vs_nonce s' = vs_nonce s + 1" "validateState policy s' = Inr ()"
    "vs_occurrenceCount s' = vs_occurrenceCount s + (if is_payout t then 1 else 0)"
    using assms by (cases rule: validate_cases; use effects in \<open>auto simp: is_payout_def\<close>)+
  show "is_payout t \<Longrightarrow> vs_occurrenceCount s < vp_occurrenceLimit policy"
    using assms by (cases rule: validate_cases) (use operator_payout_effect(9) in \<open>auto simp: is_payout_def\<close>)
  show "is_payout t \<Longrightarrow> \<exists>now. vt_verifiedTimeSeconds t = Some now \<and> vs_nextValidAfterSeconds s \<le> now
          \<and> vs_nextValidAfterSeconds s' = now + vp_cadenceSeconds policy
          \<and> (\<forall>e. vp_expirySeconds policy = Some e \<longrightarrow> now < e)"
    using assms by (cases rule: validate_cases) (use operator_payout_effect(13) in \<open>auto simp: is_payout_def\<close>)
  show "\<not> is_payout t \<Longrightarrow> vs_nextValidAfterSeconds s' = vs_nextValidAfterSeconds s"
    using assms by (cases rule: validate_cases) (use effects in \<open>auto simp: is_payout_def\<close>)
  show "vs_status s = V_revoked \<Longrightarrow> vs_status s' = V_revoked \<and> vt_action t = Owner_revoke
          \<and> vs_remainingAtomic s' = vs_remainingAtomic s"
    using assms by (cases rule: validate_cases)
      (use operator_payout_effect(2) owner_top_up_effect(2) owner_revoke_effect in \<open>auto simp: is_payout_def\<close>)
qed

subsection \<open>Runs of transitions\<close>

lemma run_conserves:
  assumes "vault_run policy s ts r"
  shows "amt (vs_remainingAtomic s) + sum_list (map (amt \<circ> vt_topUpAtomic) ts)
    = sum_list (map paid ts) + sum_list (map (amt \<circ> vt_ownerNetAssetAtomic) ts)
      + sum_list (map (fee_from_vault policy) ts) + remaining_of r"
  using assms
proof induction
  case (stay s)
  then show ?case by (simp add: remaining_of_def)
next
  case (close s t)
  then show ?case using step_conserves [of policy s t None] by (simp add: algebra_simps)
next
  case (step s t s' ts r)
  then show ?case using step_conserves [OF step.hyps(1)] by (simp add: remaining_of_def algebra_simps)
qed

lemma run_payments:
  assumes "vault_run policy s ts r" and "t \<in> set ts"
  shows "0 \<le> paid t" and "0 < paid t \<longleftrightarrow> is_payout t"
    and "is_payout t \<Longrightarrow> paid t \<le> amt (vp_perPaymentCapAtomic policy)"
    and "is_payout t \<Longrightarrow> vt_recipientLockHash t = Some (vp_recipientLockHash policy)"
proof -
  from assms have "\<exists>s r. validateVaultV2Transition policy s t = Inr r"
    by induction auto
  then show "0 \<le> paid t" "0 < paid t \<longleftrightarrow> is_payout t"
    "is_payout t \<Longrightarrow> paid t \<le> amt (vp_perPaymentCapAtomic policy)"
    "is_payout t \<Longrightarrow> vt_recipientLockHash t = Some (vp_recipientLockHash policy)"
    using step_payment by blast+
qed

lemma payout_never_closes: "validateVaultV2Transition policy s t = Inr None \<Longrightarrow> \<not> is_payout t"
  by (erule validate_cases) (auto simp: is_payout_def)

lemma run_payout_count:
  assumes "vault_run policy s ts r"
  shows "int (length (filter is_payout ts)) \<le> max 0 (vp_occurrenceLimit policy - vs_occurrenceCount s)"
  using assms
proof induction
  case (close s t)
  then show ?case using payout_never_closes by simp
next
  case (step s t s' ts r)
  then show ?case using step_state(3,4) [OF step.hyps(1)] by (auto simp: max_def split: if_splits)
qed simp

lemma sum_paid_bound:
  assumes "\<And>t. t \<in> set ts \<Longrightarrow> 0 < paid t \<longleftrightarrow> is_payout t" and "\<And>t. t \<in> set ts \<Longrightarrow> 0 \<le> paid t"
    and "\<And>t. t \<in> set ts \<Longrightarrow> is_payout t \<Longrightarrow> paid t \<le> cap"
  shows "sum_list (map paid ts) \<le> cap * int (length (filter is_payout ts))"
  using assms
proof (induction ts)
  case (Cons t ts)
  then have "sum_list (map paid ts) \<le> cap * int (length (filter is_payout ts))" by simp
  moreover have "paid t = 0 \<or> is_payout t \<and> paid t \<le> cap" using Cons.prems by force
  moreover have "paid t = 0 \<longrightarrow> \<not> is_payout t" using Cons.prems by force
  ultimately show ?case by (auto simp: algebra_simps)
qed simp

text \<open>
  Property C3: the operator's budget. Over any sequence of accepted vault transitions, every payout goes
  to the committed recipient and is at most the per-payment cap, at most the remaining number of
  occurrences are paid, and the sum paid is bounded both by cap times occurrences and by the assets
  the vault held plus the owner's top-ups. The assets balance exactly: nothing leaves the vault but
  payouts, owner outputs and native fees.
\<close>

theorem vault_operator_budget:
  assumes "vault_run policy s ts r"
  shows "(\<forall>t \<in> set ts. is_payout t \<longrightarrow> paid t \<le> amt (vp_perPaymentCapAtomic policy)
            \<and> vt_recipientLockHash t = Some (vp_recipientLockHash policy))
    \<and> (\<forall>t \<in> set ts. 0 < paid t \<longleftrightarrow> is_payout t)
    \<and> int (length (filter is_payout ts)) \<le> max 0 (vp_occurrenceLimit policy - vs_occurrenceCount s)
    \<and> sum_list (map paid ts) \<le> amt (vp_perPaymentCapAtomic policy) * int (length (filter is_payout ts))
    \<and> amt (vs_remainingAtomic s) + sum_list (map (amt \<circ> vt_topUpAtomic) ts)
        = sum_list (map paid ts) + sum_list (map (amt \<circ> vt_ownerNetAssetAtomic) ts)
          + sum_list (map (fee_from_vault policy) ts) + remaining_of r"
proof (intro conjI)
  show "sum_list (map paid ts) \<le> amt (vp_perPaymentCapAtomic policy) * int (length (filter is_payout ts))"
    by (rule sum_paid_bound) (use run_payments [OF assms] in auto)
qed (use run_payments [OF assms] run_payout_count [OF assms] run_conserves [OF assms] in auto)


text \<open>A concrete vault: two payouts of 40 with a fee of 1, then a revoke and a reclaim.\<close>

definition sample_hash :: "char \<Rightarrow> string" where
  "sample_hash c = ''0x'' @ replicate 64 c"

definition sample_policy :: vault_policy where
  "sample_policy = \<lparr>vp_policyHash = sample_hash (CHR ''a''), vp_passIdHash = sample_hash (CHR ''b''),
     vp_ownerLockHash = sample_hash (CHR ''c''), vp_operatorLockHash = sample_hash (CHR ''d''),
     vp_recipientLockHash = sample_hash (CHR ''e''), vp_asset = Native_ckb,
     vp_totalCapAtomic = ''100'', vp_perPaymentCapAtomic = ''40'', vp_cadenceSeconds = 60,
     vp_occurrenceLimit = 2, vp_expirySeconds = Some 1000, vp_feeCeilingShannons = ''5''\<rparr>"

definition sample_state :: "string \<Rightarrow> int \<Rightarrow> int \<Rightarrow> int \<Rightarrow> vault_status \<Rightarrow> vault_state" where
  "sample_state remaining count next nonce status =
     \<lparr>vs_policyHash = sample_hash (CHR ''a''), vs_remainingAtomic = remaining, vs_occurrenceCount = count,
      vs_nextValidAfterSeconds = next, vs_nonce = nonce, vs_status = status\<rparr>"

definition sample_transition :: "vault_action \<Rightarrow> char \<Rightarrow> string \<Rightarrow> string \<Rightarrow> vault_transition" where
  "sample_transition action signer inputs outputs =
     \<lparr>vt_action = action, vt_authLockHashes = [sample_hash signer],
      vt_inputPassIdHashes = [sample_hash (CHR ''b'')], vt_observedAssetTypeHash = None,
      vt_inputVaultAssetAtomic = inputs, vt_outputVaultAssetAtomic = outputs, vt_recipientLockHash = None,
      vt_recipientAssetAtomic = ''0'', vt_ownerNetAssetAtomic = ''0'', vt_topUpAtomic = ''0'',
      vt_feeShannons = ''0'', vt_stateCapacityDeltaShannons = ''0'', vt_verifiedTimeSeconds = None,
      vt_outputState = None, vt_migrationTargetLockHash = None\<rparr>"

definition sample_payout :: vault_transition where
  "sample_payout = (sample_transition Operator_payout (CHR ''d'') ''100'' ''59'')
     \<lparr>vt_recipientLockHash := Some (sample_hash (CHR ''e'')), vt_recipientAssetAtomic := ''40'',
      vt_feeShannons := ''1'', vt_verifiedTimeSeconds := Some 10,
      vt_outputState := Some (sample_state ''59'' 1 70 1 V_active)\<rparr>"

definition sample_payout2 :: vault_transition where
  "sample_payout2 = (sample_transition Operator_payout (CHR ''d'') ''59'' ''18'')
     \<lparr>vt_recipientLockHash := Some (sample_hash (CHR ''e'')), vt_recipientAssetAtomic := ''40'',
      vt_feeShannons := ''1'', vt_verifiedTimeSeconds := Some 80,
      vt_outputState := Some (sample_state ''18'' 2 140 2 V_active)\<rparr>"

definition sample_revoke :: vault_transition where
  "sample_revoke = (sample_transition Owner_revoke (CHR ''c'') ''18'' ''18'')
     \<lparr>vt_outputState := Some (sample_state ''18'' 2 140 3 V_revoked)\<rparr>"

definition sample_reclaim :: vault_transition where
  "sample_reclaim = (sample_transition Owner_reclaim (CHR ''c'') ''18'' ''0'')
     \<lparr>vt_recipientLockHash := Some (sample_hash (CHR ''c'')), vt_ownerNetAssetAtomic := ''18''\<rparr>"

lemma sample_hash_valid: "is_hex_lower c \<Longrightarrow> hash (sample_hash c) = Inr (sample_hash c)"
  by (simp add: hash_def canonical_hash_def sample_hash_def list_all_iff)

lemma sample_hash_inject: "sample_hash c = sample_hash d \<longleftrightarrow> c = d"
  by (simp add: sample_hash_def)

lemma sample_hex: "is_hex_lower (CHR ''a'')" "is_hex_lower (CHR ''b'')" "is_hex_lower (CHR ''c'')"
  "is_hex_lower (CHR ''d'')" "is_hex_lower (CHR ''e'')"
  by (simp_all add: is_hex_lower_def is_digit_def)

lemma sample_amounts: "amount ''100'' = Inr 100" "amount ''59'' = Inr 59" "amount ''40'' = Inr 40"
  "amount ''18'' = Inr 18" "amount ''0'' = Inr 0" "amount ''1'' = Inr 1" "amount ''5'' = Inr 5"
  by (simp_all add: amount_Inr parse_Inr nat_of_dec_def is_digit_def digit_value_def
      atomic_range_def MAX_ATOMIC_VALUE_def)

lemma sample_integers: "0 \<le> n \<Longrightarrow> n \<le> 1000 \<Longrightarrow> integer n = Inr n"
  by (simp add: integer_def isSafeInteger_def MAX_SAFE_INTEGER_def)

lemmas sample_simps = sample_policy_def sample_state_def sample_transition_def sample_payout_def
  sample_payout2_def sample_revoke_def sample_reclaim_def sample_hash_valid sample_hash_inject
  sample_hex sample_amounts sample_integers

lemma sample_accepted:
  "validateVaultV2Transition sample_policy (sample_state ''100'' 0 0 0 V_active) sample_payout
    = Inr (Some (sample_state ''59'' 1 70 1 V_active))"
  "validateVaultV2Transition sample_policy (sample_state ''59'' 1 70 1 V_active) sample_payout2
    = Inr (Some (sample_state ''18'' 2 140 2 V_active))"
  "validateVaultV2Transition sample_policy (sample_state ''18'' 2 140 2 V_active) sample_revoke
    = Inr (Some (sample_state ''18'' 2 140 3 V_revoked))"
  "validateVaultV2Transition sample_policy (sample_state ''18'' 2 140 3 V_revoked) sample_reclaim = Inr None"
  by (simp_all add: validateVaultV2Transition_def validateCommon_def validatePolicy_def validateState_def
      validateAsset_def validateOperatorPayout_def validateOwnerRevoke_def validateOwnerExit_def requireAuth_def
      requireZero_def requireVerifiedTime_def requireOutputState_def native_fee_def sample_simps)

lemma sample_run:
  "vault_run sample_policy (sample_state ''100'' 0 0 0 V_active)
     [sample_payout, sample_payout2, sample_revoke, sample_reclaim] None"
  by (rule vault_run.step vault_run.close, rule sample_accepted)+


lemma sample_facts: "is_payout sample_payout" "is_payout sample_payout2" "\<not> is_payout sample_revoke"
  "\<not> is_payout sample_reclaim" "paid sample_payout = 40" "paid sample_payout2 = 40"
  "paid sample_revoke = 0" "paid sample_reclaim = 0"
  by (simp_all add: is_payout_def paid_def amt_def sample_simps)

theorem vault_operator_budget_witness:
  "sum_list (map paid [sample_payout, sample_payout2, sample_revoke, sample_reclaim]) = 80
    \<and> sum_list (map paid [sample_payout, sample_payout2, sample_revoke, sample_reclaim])
        \<le> amt (vp_perPaymentCapAtomic sample_policy)
            * int (length (filter is_payout [sample_payout, sample_payout2, sample_revoke, sample_reclaim]))"
  using vault_operator_budget [OF sample_run] by (simp add: sample_facts)

lemma revoked_run:
  assumes "vault_run policy s ts r" and "vs_status s = V_revoked"
  shows "(\<forall>t \<in> set ts. vt_action t \<in> {Owner_revoke, Owner_reclaim, Owner_migrate}
           \<and> vp_ownerLockHash policy \<in> set (vt_authLockHashes t))
    \<and> (\<forall>s'. r = Some s' \<longrightarrow> vs_status s' = V_revoked \<and> vs_remainingAtomic s' = vs_remainingAtomic s)"
  using assms
proof induction
  case (stay s)
  then show ?case by simp
next
  case (close s t)
  from close.hyps show ?case by (cases rule: validate_cases) (use owner_exit_effect(1) in auto)
next
  case (step s t s' ts r)
  note next_state = step_state(7) [OF step.hyps(1) step.prems]
  from step.hyps(1) have "vp_ownerLockHash policy \<in> set (vt_authLockHashes t)"
    by (cases rule: validate_cases) (use next_state owner_revoke_effect(1) in \<open>auto simp: is_payout_def\<close>)
  with next_state step.IH show ?case by auto
qed

text \<open>
  Revocation is final. After the owner revoked the vault, every later transition is signed by
  the owner and is another revoke, a reclaim or a migration; nothing is paid out and as long as the
  vault exists it stays revoked and holds the same assets.
\<close>

theorem vault_revoked_is_final:
  assumes "vault_run policy s ts r" and "vs_status s = V_revoked"
  shows "(\<forall>t \<in> set ts. vt_action t \<in> {Owner_revoke, Owner_reclaim, Owner_migrate}
           \<and> vp_ownerLockHash policy \<in> set (vt_authLockHashes t))
    \<and> sum_list (map paid ts) = 0
    \<and> (\<forall>s'. r = Some s' \<longrightarrow> vs_status s' = V_revoked \<and> vs_remainingAtomic s' = vs_remainingAtomic s)"
proof -
  note final = revoked_run [OF assms]
  have "paid t = 0" if "t \<in> set ts" for t
    using run_payments(1,2) [OF assms(1) that] final that by (force simp: is_payout_def)
  then have "map paid ts = map (\<lambda>_. 0) ts" by simp
  then have "sum_list (map paid ts) = 0" by (simp only: sum_list_0)
  with final show ?thesis by blast
qed

theorem vault_revoked_is_final_witness:
  "sum_list (map paid [sample_reclaim]) = 0 \<and> vt_action sample_reclaim \<noteq> Operator_payout"
proof -
  have "vault_run sample_policy (sample_state ''18'' 2 140 3 V_revoked) [sample_reclaim] None"
    by (rule vault_run.close, rule sample_accepted)
  from vault_revoked_is_final [OF this] show ?thesis by (auto simp: sample_state_def)
qed

text \<open>
  Authority and cell isolation. A transition is accepted only when its inputs come from the
  vault's own pass and from no other, its fee is within the ceiling, and it is signed by the operator
  (payout) or by the owner (everything else); the operator's payout pays nobody but the committed
  recipient and the owner's reclaim nobody but the owner.
\<close>

theorem vault_authority:
  assumes "validateVaultV2Transition policy s t = Inr r"
  shows "set (vt_inputPassIdHashes t) = {vp_passIdHash policy}
    \<and> amt (vt_feeShannons t) \<le> amt (vp_feeCeilingShannons policy)
    \<and> (if is_payout t then vp_operatorLockHash policy \<in> set (vt_authLockHashes t)
          \<and> vt_recipientLockHash t = Some (vp_recipientLockHash policy)
          \<and> amt (vt_ownerNetAssetAtomic t) = 0 \<and> amt (vt_topUpAtomic t) = 0
        else vp_ownerLockHash policy \<in> set (vt_authLockHashes t) \<and> paid t = 0)
    \<and> (vt_action t = Owner_reclaim \<longrightarrow> vt_recipientLockHash t = Some (vp_ownerLockHash policy)
          \<and> amt (vt_ownerNetAssetAtomic t) = amt (vs_remainingAtomic s) - fee_from_vault policy t)"
  using assms
proof (cases rule: validate_cases)
  case (payout v s')
  then show ?thesis
    using common_values [OF payout(1)] operator_payout_effect [OF payout(3)] by (simp add: is_payout_def)
next
  case (top_up v s')
  then show ?thesis
    using common_values [OF top_up(1)] owner_top_up_effect [OF top_up(3)] by (simp add: is_payout_def)
next
  case (revoke v s')
  then show ?thesis
    using common_values [OF revoke(1)] owner_revoke_effect [OF revoke(3)] by (simp add: is_payout_def)
next
  case (exit v)
  then show ?thesis
    using common_values(1,3,4,7,8,9) [OF exit(1)] owner_exit_effect(1,4,6,7) [OF exit(3)]
    by (cases "vt_action t") (simp_all add: is_payout_def)
qed

theorem vault_authority_witness:
  "sample_hash (CHR ''d'') \<in> set (vt_authLockHashes sample_payout)
    \<and> vt_recipientLockHash sample_payout = Some (sample_hash (CHR ''e''))"
  using vault_authority [OF sample_accepted(1)] by (simp add: sample_facts sample_policy_def)


subsection \<open>Cadence and replay\<close>

lemma policy_cadence: "validatePolicy policy = Inr () \<Longrightarrow> 0 \<le> vp_cadenceSeconds policy"
  by (auto simp: validatePolicy_def integer_def split: if_splits)

lemma validated_policy: "validateVaultV2Transition policy s t = Inr r \<Longrightarrow> validatePolicy policy = Inr ()"
  by (erule validate_cases) (use common_values(10) in blast)+

lemma run_append:
  assumes "vault_run policy s (us @ t # ts) r"
  shows "\<exists>s'. vault_run policy s us (Some s') \<and> vault_run policy s' (t # ts) r"
  using assms
proof (induction us arbitrary: s)
  case Nil
  then show ?case by (auto intro: vault_run.stay)
next
  case (Cons u us)
  then show ?case by (auto elim!: vault_run_ConsE intro: vault_run.step) (metis vault_run.step)
qed

lemma run_not_before:
  assumes "vault_run policy s ts r" and "t \<in> set ts" and "is_payout t" and "vt_verifiedTimeSeconds t = Some now"
  shows "vs_nextValidAfterSeconds s \<le> now"
  using assms
proof induction
  case (close s u)
  then show ?case using payout_never_closes by simp
next
  case (step s u s' ts r)
  show ?case
  proof (cases "is_payout u")
    case True
    then obtain now' where now': "vt_verifiedTimeSeconds u = Some now'"
        "vs_nextValidAfterSeconds s \<le> now'" "vs_nextValidAfterSeconds s' = now' + vp_cadenceSeconds policy"
      using step_state(5) [OF step.hyps(1)] by blast
    have "0 \<le> vp_cadenceSeconds policy"
      using policy_cadence validated_policy [OF step.hyps(1)] by blast
    with now' step show ?thesis by (cases "t = u") auto
  next
    case False
    with step show ?thesis using step_state(6) [OF step.hyps(1)] by auto
  qed
qed simp

lemma run_nonce: "vault_run policy s ts (Some s') \<Longrightarrow> vs_nonce s' = vs_nonce s + int (length ts)"
proof (induction ts arbitrary: s)
  case Nil
  then show ?case by (auto elim: vault_run_NilE)
next
  case (Cons t ts)
  then show ?case using step_state(1) by (fastforce elim!: vault_run_ConsE)
qed

text \<open>
  Cadence and replay protection. Two payouts of one run are at least the committed cadence
  apart in verified time and before the expiry, and every state the run passes through has a
  different nonce, so no state cell occurs twice.
\<close>

theorem vault_cadence:
  assumes "vault_run policy s (us @ t1 # vs @ t2 # ws) r" and "is_payout t1" and "is_payout t2"
  shows "\<exists>now1 now2. vt_verifiedTimeSeconds t1 = Some now1 \<and> vt_verifiedTimeSeconds t2 = Some now2
    \<and> now1 + vp_cadenceSeconds policy \<le> now2
    \<and> (\<forall>e. vp_expirySeconds policy = Some e \<longrightarrow> now2 < e)
    \<and> (\<exists>s1 s2. vault_run policy s us (Some s1) \<and> vault_run policy s (us @ t1 # vs) (Some s2)
         \<and> vs_nonce s1 < vs_nonce s2)"
proof -
  obtain s1 where s1: "vault_run policy s us (Some s1)" "vault_run policy s1 (t1 # vs @ t2 # ws) r"
    using run_append [OF assms(1)] by blast
  then obtain s1' where step1: "validateVaultV2Transition policy s1 t1 = Inr (Some s1')"
      and rest: "vault_run policy s1' (vs @ t2 # ws) r"
    by (auto elim: vault_run_ConsE)
  obtain now1 where now1: "vt_verifiedTimeSeconds t1 = Some now1"
      "vs_nextValidAfterSeconds s1' = now1 + vp_cadenceSeconds policy"
    using step_state(5) [OF step1 assms(2)] by blast
  obtain s2 where s2: "vault_run policy s1' vs (Some s2)" "vault_run policy s2 (t2 # ws) r"
    using run_append [OF rest] by blast
  then obtain s2' where step2: "validateVaultV2Transition policy s2 t2 = Inr (Some s2')"
    using payout_never_closes assms(3) by (auto elim: vault_run_ConsE)
  obtain now2 where now2: "vt_verifiedTimeSeconds t2 = Some now2"
      "\<forall>e. vp_expirySeconds policy = Some e \<longrightarrow> now2 < e"
    using step_state(5) [OF step2 assms(3)] by blast
  have "vs_nextValidAfterSeconds s1' \<le> now2"
    by (rule run_not_before [OF rest]) (use assms(3) now2 in auto)
  moreover obtain s2'' where s2'': "vault_run policy s (us @ t1 # vs) (Some s2'')"
    using run_append [of policy s "us @ t1 # vs" t2 ws r] assms(1) by auto
  moreover have "vs_nonce s1 < vs_nonce s2''"
    using run_nonce [OF s1(1)] run_nonce [OF s2''] by simp
  ultimately show ?thesis using now1 now2 s1(1) by auto
qed

theorem vault_cadence_witness:
  "\<exists>now1 now2. vt_verifiedTimeSeconds sample_payout = Some now1
    \<and> vt_verifiedTimeSeconds sample_payout2 = Some now2 \<and> now1 + 60 \<le> now2"
  using vault_cadence [of sample_policy _ "[]" sample_payout "[]" sample_payout2 "[sample_revoke, sample_reclaim]"]
    sample_run sample_facts(1,2) by (fastforce simp: sample_policy_def)

subsection \<open>The owner's exit\<close>

definition reclaim_transition :: "vault_policy \<Rightarrow> vault_state \<Rightarrow> vault_transition" where
  "reclaim_transition policy s =
     \<lparr>vt_action = Owner_reclaim, vt_authLockHashes = [vp_ownerLockHash policy],
      vt_inputPassIdHashes = [vp_passIdHash policy],
      vt_observedAssetTypeHash = (case vp_asset policy of Native_ckb \<Rightarrow> None | Udt h \<Rightarrow> Some h),
      vt_inputVaultAssetAtomic = vs_remainingAtomic s, vt_outputVaultAssetAtomic = ''0'',
      vt_recipientLockHash = Some (vp_ownerLockHash policy), vt_recipientAssetAtomic = ''0'',
      vt_ownerNetAssetAtomic = vs_remainingAtomic s, vt_topUpAtomic = ''0'', vt_feeShannons = ''0'',
      vt_stateCapacityDeltaShannons = ''0'', vt_verifiedTimeSeconds = None, vt_outputState = None,
      vt_migrationTargetLockHash = None\<rparr>"

text \<open>
  Property C12: the owner can always leave. In every well-formed state of a well-formed policy, revoked or
  not, expired or not, whatever the occurrence count, the transition that returns all remaining assets
  to the owner's lock with the owner's signature is accepted.
\<close>

theorem vault_owner_can_reclaim:
  assumes "validatePolicy policy = Inr ()" and "validateState policy s = Inr ()"
  shows "validateVaultV2Transition policy s (reclaim_transition policy s) = Inr None"
proof -
  obtain remaining ceiling where amounts: "amount (vs_remainingAtomic s) = Inr remaining"
      "amount (vp_feeCeilingShannons policy) = Inr ceiling" "0 \<le> ceiling"
    using assms by (auto simp: validatePolicy_def validateState_def dest: amount_nonneg)
  have "validateAsset policy (reclaim_transition policy s) = Inr ()"
    by (cases "vp_asset policy")
      (simp_all add: validateAsset_def reclaim_transition_def requireZero_def sample_amounts)
  then have "validateCommon policy s (reclaim_transition policy s) =
      Inr \<lparr>vv_input = remaining, vv_output = 0, vv_recipient = 0, vv_ownerNet = remaining, vv_topUp = 0, vv_fee = 0\<rparr>"
    using assms amounts by (simp add: validateCommon_def) (simp add: reclaim_transition_def sample_amounts)
  then show ?thesis
    by (simp add: validateVaultV2Transition_def)
      (simp add: reclaim_transition_def validateOwnerExit_def requireAuth_def requireZero_def native_fee_def
        split: vault_asset.splits)
qed

theorem vault_owner_can_reclaim_witness:
  "validateVaultV2Transition sample_policy (sample_state ''18'' 2 140 3 V_revoked)
     (reclaim_transition sample_policy (sample_state ''18'' 2 140 3 V_revoked)) = Inr None"
  by (rule vault_owner_can_reclaim) (simp_all add: validatePolicy_def validateState_def sample_simps)

end
