(* ===== verification/Receipts.thy ===== *)
theory Receipts
  imports Store
begin

section \<open>Receipts (domain/receipt.ts, services/receipt.service.ts)\<close>

text \<open>
  An immutable receipt per settled source, named and sealed by hashes, its notification deliveries,
  and the exact split of a batch fee over the receipts of its items. \<open>createHash('sha256')\<close> with its
  hexadecimal digest is the parameter \<open>sha\<close>; what the theorems need of it is that two given preimages
  do not collide.
\<close>

subsection \<open>Hashing a receipt\<close>

record receipt_hash_input =
  rh_receiptId :: string
  rh_ownerWalletId :: string
  rh_recipientId :: "string option"
  rh_sourceType :: receipt_source
  rh_sourceId :: string
  rh_settlementId :: string
  rh_rail :: payment_rail
  rh_network :: string
  rh_assetId :: string
  rh_amountAtomic :: string
  rh_feeAtomic :: string
  rh_feeKnown :: bool
  rh_status :: receipt_status
  rh_paymentHash :: "string option"
  rh_proofKind :: "string option"
  rh_proofReference :: "string option"
  rh_settledAt :: int

definition json_opt :: "string option \<Rightarrow> json" where
  "json_opt v = (case v of None \<Rightarrow> JNull | Some s \<Rightarrow> JStr s)"

definition receipt_canonical :: "receipt_hash_input \<Rightarrow> json" where
  "receipt_canonical input = JArr
     [JNum 1, JStr (rh_receiptId input), JStr (rh_ownerWalletId input), json_opt (rh_recipientId input),
      JStr (receipt_source_text (rh_sourceType input)), JStr (rh_sourceId input),
      JStr (rh_settlementId input), JStr (rail_text (rh_rail input)), JStr (rh_network input),
      JStr (rh_assetId input), JStr (rh_amountAtomic input), JStr (rh_feeAtomic input),
      JBool (rh_feeKnown input), JStr (receipt_status_text (rh_status input)),
      json_opt (rh_paymentHash input), json_opt (rh_proofKind input), json_opt (rh_proofReference input),
      JStr (toISOString (rh_settledAt input))]"

definition hashReceipt :: "(string \<Rightarrow> string) \<Rightarrow> receipt_hash_input \<Rightarrow> string" where
  "hashReceipt sha input = sha (stringify (receipt_canonical input))"

lemma json_opt_inject [simp]: "json_opt a = json_opt b \<longleftrightarrow> a = b"
  by (cases a; cases b) (simp_all add: json_opt_def)

text \<open>The preimage determines every field; the settlement time through its ISO text.\<close>

lemma receipt_preimage_inject:
  "stringify (receipt_canonical a) = stringify (receipt_canonical b) \<longleftrightarrow>
    toISOString (rh_settledAt a) = toISOString (rh_settledAt b) \<and> a\<lparr>rh_settledAt := 0\<rparr> = b\<lparr>rh_settledAt := 0\<rparr>"
  unfolding stringify_inject by (cases a; cases b) (auto simp: receipt_canonical_def)

subsection \<open>Splitting a fee\<close>

definition all_digits :: "string \<Rightarrow> bool" where
  "all_digits s \<longleftrightarrow> s \<noteq> [] \<and> list_all is_digit s"

fun distribute :: "nat \<Rightarrow> nat \<Rightarrow> int list \<Rightarrow> int list" where
  "distribute 0 index shares = shares"
| "distribute (Suc remainder) index shares =
     distribute remainder ((index + 1) mod length shares) (shares[index := shares ! index + 1])"

definition big :: "string \<Rightarrow> int" where
  "big s = int (nat_of_dec s)"

definition allocateAtomicFee :: "string \<Rightarrow> string list \<Rightarrow> error + string list" where
  "allocateAtomicFee totalFeeAtomic amountAtomics =
     (if \<not> all_digits totalFeeAtomic \<or> list_ex (\<lambda>amount. \<not> all_digits amount) amountAtomics
      then Inl (PlainError ''Receipt fee allocation requires unsigned atomic-unit integer strings.'')
      else if amountAtomics = [] then Inr []
      else
        let totalFee = big totalFeeAtomic; amounts = map big amountAtomics;
            totalAmount = sum_list amounts
        in if totalAmount \<le> 0
           then Inl (PlainError ''Receipt fee allocation requires a positive settlement total.'')
           else
             let shares = map (\<lambda>amount. totalFee * amount div totalAmount) amounts;
                 remainder = totalFee - sum_list shares
             in Inr (map dec_of_int (distribute (nat remainder) 0 shares)))"

lemma length_distribute [simp]: "length (distribute k i shares) = length shares"
  by (induction k i shares rule: distribute.induct) auto

text \<open>With no more units than shares, each of the first \<open>k\<close> shares gets one unit.\<close>

lemma distribute_nth:
  "i + k \<le> length shares \<Longrightarrow> j < length shares \<Longrightarrow>
    distribute k i shares ! j = shares ! j + (if i \<le> j \<and> j < i + k then 1 else 0)"
proof (induction k i shares rule: distribute.induct)
  case (2 k i shares)
  show ?case
  proof (cases "k = 0")
    case True
    with 2 show ?thesis by (simp add: nth_list_update)
  next
    case False
    with 2 have "(i + 1) mod length shares = i + 1" by simp
    with 2 show ?thesis by (auto simp: nth_list_update)
  qed
qed simp

lemma sum_list_update_inc: "i < length xs \<Longrightarrow> sum_list (xs[i := xs ! i + 1]) = sum_list xs + (1 :: int)"
  by (induction xs arbitrary: i) (auto simp: nth_Cons split: nat.splits)

lemma distribute_sum:
  "shares \<noteq> [] \<Longrightarrow> i < length shares \<Longrightarrow> sum_list (distribute k i shares) = sum_list shares + int k"
  by (induction k i shares rule: distribute.induct) (auto simp: sum_list_update_inc)

text \<open>The floors leave fewer units over than there are shares.\<close>

lemma floors_short:
  fixes f t :: int
  assumes "0 < t"
  shows "t * sum_list (map (\<lambda>a. f * a div t) xs) = f * sum_list xs - sum_list (map (\<lambda>a. f * a mod t) xs)"
proof (induction xs)
  case (Cons a xs)
  have "t * (f * a div t) = f * a - f * a mod t" by (metis minus_mod_eq_mult_div)
  with Cons show ?case by (simp add: algebra_simps)
qed simp

lemma mods_bound:
  assumes "(0 :: int) < t"
  shows "0 \<le> sum_list (map (\<lambda>a. f * a mod t) xs)"
    and "xs \<noteq> [] \<Longrightarrow> sum_list (map (\<lambda>a. f * a mod t) xs) < t * int (length xs)"
proof -
  show "0 \<le> sum_list (map (\<lambda>a. f * a mod t) xs)"
    by (rule sum_list_nonneg) (use assms in auto)
  show "xs \<noteq> [] \<Longrightarrow> sum_list (map (\<lambda>a. f * a mod t) xs) < t * int (length xs)"
  proof (induction xs)
    case (Cons a xs)
    have "f * a mod t < t" using assms by simp
    with Cons show ?case by (cases xs) (auto simp: algebra_simps)
  qed simp
qed

lemma remainder_bound:
  fixes f :: int
  assumes "0 < sum_list xs"
  defines "r \<equiv> f - sum_list (map (\<lambda>a. f * a div sum_list xs) xs)"
  shows "0 \<le> r" and "r < int (length xs)"
proof -
  define t where "t = sum_list xs"
  have t: "0 < t" "xs \<noteq> []" using assms(1) by (auto simp: t_def)
  have r: "t * r = sum_list (map (\<lambda>a. f * a mod t) xs)"
    using floors_short [OF t(1), of f xs] by (simp add: r_def t_def right_diff_distrib)
  from r mods_bound(1) [OF t(1)] have "0 \<le> t * r" by simp
  with t show "0 \<le> r" by (simp add: zero_le_mult_iff)
  from r mods_bound(2) [OF t] have "t * r < t * int (length xs)" by simp
  with t show "r < int (length xs)" by simp
qed

lemma big_dec_of_int: "0 \<le> i \<Longrightarrow> big (dec_of_int i) = i"
  by (simp add: big_def dec_of_int_def)

text \<open>
  A batch fee is split exactly. The shares are as many as the amounts, they add up to the
  whole fee, and each share is the proportional one rounded down or that plus one unit.
\<close>

theorem allocateAtomicFee_exact:
  assumes "allocateAtomicFee fee amounts = Inr shares" and "amounts \<noteq> []"
  shows "length shares = length amounts \<and> sum_list (map big shares) = big fee
    \<and> (\<forall>i < length amounts.
         let exact = big fee * big (amounts ! i) div sum_list (map big amounts)
         in exact \<le> big (shares ! i) \<and> big (shares ! i) \<le> exact + 1)"
proof -
  define t where "t = sum_list (map big amounts)"
  define fl where "fl = map (\<lambda>a. big fee * a div t) (map big amounts)"
  define k where "k = nat (big fee - sum_list fl)"
  have t: "0 < t" and shares: "shares = map dec_of_int (distribute k 0 fl)"
    using assms by (auto simp: allocateAtomicFee_def t_def fl_def k_def Let_def split: if_splits)
  have nonneg: "0 \<le> big s" for s by (simp add: big_def)
  have rb: "0 \<le> big fee - sum_list fl" "big fee - sum_list fl < int (length amounts)"
    using remainder_bound [of "map big amounts" "big fee"] t by (simp_all add: fl_def t_def)
  have lfl: "length fl = length amounts" by (simp add: fl_def)
  have k: "0 + k \<le> length fl" using rb by (simp add: k_def lfl)
  note nth = distribute_nth [OF k]
  have flnth: "fl ! i = big fee * big (amounts ! i) div t" if "i < length amounts" for i
    using that by (simp add: fl_def)
  have pos: "0 \<le> distribute k 0 fl ! i" if "i < length amounts" for i
    using nth [of i] that lfl flnth [OF that] t nonneg by (simp add: pos_imp_zdiv_nonneg_iff)
  have "map big shares = distribute k 0 fl"
    by (rule nth_equalityI) (use pos lfl in \<open>auto simp: shares big_dec_of_int\<close>)
  moreover have "sum_list (distribute k 0 fl) = big fee"
    using distribute_sum [of fl 0 k] assms(2) lfl rb(1) by (simp add: k_def) (metis length_0_conv)
  moreover have "exact \<le> big (shares ! i) \<and> big (shares ! i) \<le> exact + 1"
    if "i < length amounts" "exact = big fee * big (amounts ! i) div sum_list (map big amounts)" for i exact
    using that nth [of i] lfl flnth [OF that(1)] pos [OF that(1)]
    by (simp add: shares big_dec_of_int t_def)
  ultimately show ?thesis using lfl by (auto simp: shares Let_def)
qed

theorem allocateAtomicFee_exact_witness:
  "\<exists>shares. allocateAtomicFee ''10'' [''1'', ''1'', ''1''] = Inr shares \<and> sum_list (map big shares) = 10"
proof -
  have digits: "digit_char 4 = CHR ''4''" "digit_char 3 = CHR ''3''"
    using digit_char_value [of "CHR ''4''"] digit_char_value [of "CHR ''3''"]
    by (simp_all add: is_digit_def digit_value_def)
  have "allocateAtomicFee ''10'' [''1'', ''1'', ''1''] = Inr [''4'', ''3'', ''3'']"
    by (simp add: allocateAtomicFee_def all_digits_def big_def nat_of_dec_def is_digit_def digit_value_def
        Let_def dec_of_int_def dec_of_nat.simps [of 4] dec_of_nat.simps [of 3] digits)
  from allocateAtomicFee_exact [OF this] this show ?thesis
    by (auto simp: big_def nat_of_dec_def digit_value_def)
qed


subsection \<open>Creating a receipt\<close>

record receipt_input =
  cr_ownerWalletId :: string
  cr_recipientId :: "string option"
  cr_sourceType :: receipt_source
  cr_sourceId :: string
  cr_settlementId :: string
  cr_rail :: payment_rail
  cr_network :: string
  cr_assetId :: string
  cr_amountAtomic :: string
  cr_feeAtomic :: "string option"
  cr_status :: receipt_status
  cr_paymentHash :: "string option"
  cr_proofKind :: "string option"
  cr_proofReference :: "string option"
  cr_settledAt :: int

definition receiptIdFor :: "(string \<Rightarrow> string) \<Rightarrow> receipt_source \<Rightarrow> string \<Rightarrow> string" where
  "receiptIdFor sha sourceType sourceId = ''rcpt_'' @ sha (receipt_source_text sourceType @ ''|'' @ sourceId)"

definition deliveryIdFor :: "(string \<Rightarrow> string) \<Rightarrow> string \<Rightarrow> string \<Rightarrow> string" where
  "deliveryIdFor sha receiptId endpointId = ''ndlv_'' @ sha (receiptId @ ''|'' @ endpointId)"

definition receipt_hash_of ::
  "(string \<Rightarrow> string) \<Rightarrow> receipt_input \<Rightarrow> string \<Rightarrow> string \<Rightarrow> receipt_hash_input" where
  "receipt_hash_of sha input amountAtomic feeAtomic =
     \<lparr>rh_receiptId = receiptIdFor sha (cr_sourceType input) (cr_sourceId input),
      rh_ownerWalletId = cr_ownerWalletId input, rh_recipientId = cr_recipientId input,
      rh_sourceType = cr_sourceType input, rh_sourceId = cr_sourceId input,
      rh_settlementId = cr_settlementId input, rh_rail = cr_rail input, rh_network = cr_network input,
      rh_assetId = cr_assetId input, rh_amountAtomic = amountAtomic, rh_feeAtomic = feeAtomic,
      rh_feeKnown = (cr_feeAtomic input \<noteq> None), rh_status = cr_status input,
      rh_paymentHash = cr_paymentHash input, rh_proofKind = cr_proofKind input,
      rh_proofReference = cr_proofReference input, rh_settledAt = cr_settledAt input\<rparr>"

definition receipt_row :: "receipt_hash_input \<Rightarrow> string \<Rightarrow> int \<Rightarrow> payment_receipt" where
  "receipt_row h receiptHash now =
     \<lparr>rcp_receiptId = rh_receiptId h, rcp_receiptHash = receiptHash,
      rcp_ownerWalletId = rh_ownerWalletId h, rcp_recipientId = rh_recipientId h,
      rcp_sourceType = rh_sourceType h, rcp_sourceId = rh_sourceId h,
      rcp_settlementId = rh_settlementId h, rcp_rail = rh_rail h, rcp_network = rh_network h,
      rcp_assetId = rh_assetId h, rcp_amountAtomic = big (rh_amountAtomic h),
      rcp_feeAtomic = big (rh_feeAtomic h), rcp_feeKnown = rh_feeKnown h, rcp_status = rh_status h,
      rcp_paymentHash = rh_paymentHash h, rcp_proofKind = rh_proofKind h,
      rcp_proofReference = rh_proofReference h, rcp_settledAt = rh_settledAt h, rcp_createdAt = now\<rparr>"

text \<open>The unique indexes of the collection: \<open>receiptId\<close>, \<open>receiptHash\<close> and the source.\<close>

definition receipt_clash :: "payment_receipt \<Rightarrow> payment_receipt \<Rightarrow> bool" where
  "receipt_clash r x \<longleftrightarrow> rcp_receiptId x = rcp_receiptId r \<or> rcp_receiptHash x = rcp_receiptHash r
     \<or> (rcp_sourceType x = rcp_sourceType r \<and> rcp_sourceId x = rcp_sourceId r)"

definition find_receipt :: "receipt_source \<Rightarrow> string \<Rightarrow> 'a core_db_scheme \<Rightarrow> payment_receipt option" where
  "find_receipt sourceType sourceId d =
     List.find (\<lambda>r. (rcp_sourceType r, rcp_sourceId r) = (sourceType, sourceId)) (receipts d)"

definition createPaymentReceipt ::
  "(string \<Rightarrow> string) \<Rightarrow> int \<Rightarrow> receipt_input \<Rightarrow> ('a core_db_scheme, string) op" where
  "createPaymentReceipt sha now input d =
     (case asAtomicAmount (cr_amountAtomic input) of
        Inl e \<Rightarrow> (Inl e, d)
      | Inr amountAtomic \<Rightarrow>
     (case asAtomicAmount (opt_or (cr_feeAtomic input) ''0'') of
        Inl e \<Rightarrow> (Inl e, d)
      | Inr feeAtomic \<Rightarrow>
         let h = receipt_hash_of sha input amountAtomic feeAtomic; receiptHash = hashReceipt sha h
         in (case find_receipt (cr_sourceType input) (cr_sourceId input) d of
               Some existing \<Rightarrow>
                 if rcp_receiptHash existing \<noteq> receiptHash
                 then (Inl (PlainError ''Immutable receipt source was reused with different settlement data.''), d)
                 else (Inr (rcp_receiptId existing), d)
             | None \<Rightarrow>
                 (case insert_row (receipt_clash (receipt_row h receiptHash now)) (receipt_row h receiptHash now)
                         (receipts d) of
                    None \<Rightarrow> (Inl DuplicateKey, d)
                  | Some rs \<Rightarrow> (Inr (rh_receiptId h), d\<lparr>receipts := rs\<rparr>)))))"

text \<open>What a caller may rely on: the outcome is one of these.\<close>

lemma createPaymentReceipt_Inr:
  assumes "createPaymentReceipt sha now input d = (Inr receiptId, d')"
  obtains (existing) a f r where "asAtomicAmount (cr_amountAtomic input) = Inr a"
      and "asAtomicAmount (opt_or (cr_feeAtomic input) ''0'') = Inr f" and "d' = d"
      and "find_receipt (cr_sourceType input) (cr_sourceId input) d = Some r"
      and "rcp_receiptHash r = hashReceipt sha (receipt_hash_of sha input a f)" and "receiptId = rcp_receiptId r"
    | (created) a f r where "asAtomicAmount (cr_amountAtomic input) = Inr a"
      and "asAtomicAmount (opt_or (cr_feeAtomic input) ''0'') = Inr f"
      and "find_receipt (cr_sourceType input) (cr_sourceId input) d = None"
      and "r = receipt_row (receipt_hash_of sha input a f) (hashReceipt sha (receipt_hash_of sha input a f)) now"
      and "d' = d\<lparr>receipts := receipts d @ [r]\<rparr>" and "\<forall>x \<in> set (receipts d). \<not> receipt_clash r x"
      and "receiptId = receiptIdFor sha (cr_sourceType input) (cr_sourceId input)"
proof -
  from assms obtain a f where af: "asAtomicAmount (cr_amountAtomic input) = Inr a"
      "asAtomicAmount (opt_or (cr_feeAtomic input) ''0'') = Inr f"
    by (auto simp: createPaymentReceipt_def split: sum.splits)
  define h where "h = receipt_hash_of sha input a f"
  define r where "r = receipt_row h (hashReceipt sha h) now"
  show thesis
  proof (cases "find_receipt (cr_sourceType input) (cr_sourceId input) d")
    case None
    with assms af have "insert_row (receipt_clash r) r (receipts d) \<noteq> None"
      by (auto simp: createPaymentReceipt_def Let_def h_def r_def split: option.splits)
    then obtain rs where rs: "insert_row (receipt_clash r) r (receipts d) = Some rs" by blast
    with assms af None have "receiptId = rh_receiptId h" "d' = d\<lparr>receipts := rs\<rparr>"
      by (auto simp: createPaymentReceipt_def Let_def h_def r_def)
    with rs show thesis
      by (intro created [OF af None, of r]) (simp_all add: insert_row_Some h_def r_def receipt_hash_of_def)
  next
    case (Some x)
    with assms af show thesis
      by (intro existing [OF af _ Some])
        (simp_all add: createPaymentReceipt_def Let_def h_def split: if_splits)
  qed
qed

lemma createPaymentReceipt_Inl: "createPaymentReceipt sha now input d = (Inl e, d') \<Longrightarrow> d' = d"
  unfolding createPaymentReceipt_def Let_def by (auto split: sum.splits option.splits if_splits)

lemma createPaymentReceipt_frame:
  assumes "createPaymentReceipt sha now input d = (r, d')"
  shows "\<exists>rs. d' = d\<lparr>receipts := receipts d @ rs\<rparr> \<and> length rs \<le> 1"
proof (cases r)
  case (Inl e)
  with assms have "d' = d" using createPaymentReceipt_Inl by blast
  then have "d' = d\<lparr>receipts := receipts d @ []\<rparr>" by simp
  then show ?thesis by (metis list.size(3) zero_le)
next
  case (Inr receiptId)
  from assms [unfolded Inr] show ?thesis
  proof (cases rule: createPaymentReceipt_Inr)
    case existing
    then have "d' = d\<lparr>receipts := receipts d @ []\<rparr>" by simp
    then show ?thesis by (metis list.size(3) zero_le)
  next
    case (created a f x)
    then show ?thesis by (intro exI [of _ "[x]"]) simp
  qed
qed

text \<open>The receipt of the source is stored after a successful call, sealed by the hash of the input.\<close>

lemma createPaymentReceipt_stored:
  assumes "createPaymentReceipt sha now input d = (Inr receiptId, d')"
  shows "\<exists>a f r. asAtomicAmount (cr_amountAtomic input) = Inr a
    \<and> asAtomicAmount (opt_or (cr_feeAtomic input) ''0'') = Inr f
    \<and> find_receipt (cr_sourceType input) (cr_sourceId input) d' = Some r
    \<and> rcp_receiptHash r = hashReceipt sha (receipt_hash_of sha input a f) \<and> rcp_receiptId r = receiptId"
  using assms
proof (cases rule: createPaymentReceipt_Inr)
  case (existing a f r)
  then show ?thesis by blast
next
  case (created a f r)
  have "find_receipt (cr_sourceType input) (cr_sourceId input) d' = Some r"
    using created(3) unfolding find_receipt_def created(5)
    by (simp add: find_append_new) (simp add: created(4) receipt_row_def receipt_hash_of_def)
  with created show ?thesis by (auto simp: receipt_row_def receipt_hash_of_def)
qed

text \<open>The same call again, in any database that still has these receipts, changes nothing.\<close>

lemma createPaymentReceipt_again:
  assumes "createPaymentReceipt sha now input d = (Inr receiptId, d1)" and "receipts d2 = receipts d1"
  shows "createPaymentReceipt sha later input d2 = (Inr receiptId, d2)"
proof -
  obtain a f r where r: "asAtomicAmount (cr_amountAtomic input) = Inr a"
      "asAtomicAmount (opt_or (cr_feeAtomic input) ''0'') = Inr f"
      "find_receipt (cr_sourceType input) (cr_sourceId input) d1 = Some r"
      "rcp_receiptHash r = hashReceipt sha (receipt_hash_of sha input a f)" "rcp_receiptId r = receiptId"
    using createPaymentReceipt_stored [OF assms(1)] by blast
  moreover have "find_receipt (cr_sourceType input) (cr_sourceId input) d2 = Some r"
    using r(3) assms(2) by (simp add: find_receipt_def)
  ultimately show ?thesis by (simp add: createPaymentReceipt_def Let_def)
qed

definition receipt_preimage :: "(string \<Rightarrow> string) \<Rightarrow> receipt_input \<Rightarrow> string" where
  "receipt_preimage sha i =
     stringify (receipt_canonical (receipt_hash_of sha i (cr_amountAtomic i) (opt_or (cr_feeAtomic i) ''0'')))"

definition same_receipt :: "receipt_input \<Rightarrow> receipt_input \<Rightarrow> bool" where
  "same_receipt i j \<longleftrightarrow> i\<lparr>cr_settledAt := 0\<rparr> = j\<lparr>cr_settledAt := 0\<rparr>
     \<and> toISOString (cr_settledAt i) = toISOString (cr_settledAt j)"

lemma receipt_preimage_eq: "receipt_preimage sha i = receipt_preimage sha j \<longleftrightarrow> same_receipt i j"
proof
  assume "receipt_preimage sha i = receipt_preimage sha j"
  then show "same_receipt i j"
    unfolding receipt_preimage_def receipt_preimage_inject same_receipt_def
    by (cases i; cases j; cases "cr_feeAtomic i"; cases "cr_feeAtomic j") (auto simp: receipt_hash_of_def)
next
  assume "same_receipt i j"
  then show "receipt_preimage sha i = receipt_preimage sha j"
    unfolding receipt_preimage_def receipt_preimage_inject same_receipt_def
    by (cases i; cases j) (auto simp: receipt_hash_of_def)
qed

lemma createPaymentReceipt_hash:
  "asAtomicAmount (cr_amountAtomic i) = Inr a \<Longrightarrow> asAtomicAmount (opt_or (cr_feeAtomic i) ''0'') = Inr f \<Longrightarrow>
    hashReceipt sha (receipt_hash_of sha i a f) = sha (receipt_preimage sha i)"
  by (drule asAtomicAmount_id)+ (simp add: hashReceipt_def receipt_preimage_def)

text \<open>
  Property C5: a receipt is immutable and its creation idempotent. Once the receipt of a source exists,
  the same input returns its id and writes nothing; any other input for the same source is refused
  and writes nothing, unless the two preimages collide under the hash.
\<close>

theorem receipt_immutable:
  assumes "createPaymentReceipt sha now i d = (Inr receiptId, d1)"
    and "find_receipt (cr_sourceType i) (cr_sourceId i) d2 = find_receipt (cr_sourceType i) (cr_sourceId i) d1"
    and "cr_sourceType j = cr_sourceType i" and "cr_sourceId j = cr_sourceId i"
    and "sha (receipt_preimage sha i) = sha (receipt_preimage sha j) \<Longrightarrow>
      receipt_preimage sha i = receipt_preimage sha j"
  shows "(same_receipt i j \<longrightarrow> createPaymentReceipt sha now2 j d2 = (Inr receiptId, d2))
    \<and> (\<not> same_receipt i j \<longrightarrow> (\<exists>e. createPaymentReceipt sha now2 j d2 = (Inl e, d2)))"
proof -
  obtain a f r where r: "asAtomicAmount (cr_amountAtomic i) = Inr a"
      "asAtomicAmount (opt_or (cr_feeAtomic i) ''0'') = Inr f"
      "find_receipt (cr_sourceType i) (cr_sourceId i) d1 = Some r"
      "rcp_receiptHash r = hashReceipt sha (receipt_hash_of sha i a f)" "rcp_receiptId r = receiptId"
    using createPaymentReceipt_stored [OF assms(1)] by blast
  have found: "find_receipt (cr_sourceType j) (cr_sourceId j) d2 = Some r"
    using r(3) assms(2,3,4) by simp
  have sealed: "rcp_receiptHash r = sha (receipt_preimage sha i)"
    using r(4) createPaymentReceipt_hash [OF r(1,2)] by simp
  have same: "createPaymentReceipt sha now2 j d2 = (Inr receiptId, d2)" if "same_receipt i j"
  proof -
    have "cr_amountAtomic j = cr_amountAtomic i" "cr_feeAtomic j = cr_feeAtomic i"
      using that by (cases i; cases j; simp add: same_receipt_def)+
    with r have af: "asAtomicAmount (cr_amountAtomic j) = Inr a" "asAtomicAmount (opt_or (cr_feeAtomic j) ''0'') = Inr f"
      by simp_all
    have "receipt_preimage sha j = receipt_preimage sha i"
      using that by (metis receipt_preimage_eq)
    then show ?thesis
      using found af sealed r(5)
      by (simp add: createPaymentReceipt_def Let_def createPaymentReceipt_hash [OF af])
  qed
  have other: "\<exists>e. createPaymentReceipt sha now2 j d2 = (Inl e, d2)" if "\<not> same_receipt i j"
  proof (cases "createPaymentReceipt sha now2 j d2")
    case (Pair r2 d3)
    show ?thesis
    proof (cases r2)
      case (Inl e)
      with Pair createPaymentReceipt_Inl [of sha now2 j d2 e d3] show ?thesis by simp
    next
      case (Inr receiptId2)
      from Pair [unfolded Inr] have "rcp_receiptHash r = sha (receipt_preimage sha j)"
        using found createPaymentReceipt_hash by (cases rule: createPaymentReceipt_Inr) auto
      with sealed assms(5) that show ?thesis by (simp add: receipt_preimage_eq)
    qed
  qed
  from same other show ?thesis by blast
qed

definition sample_receipt_input :: receipt_input where
  "sample_receipt_input =
     \<lparr>cr_ownerWalletId = ''w'', cr_recipientId = Some ''r'', cr_sourceType = RC_charge_attempt, cr_sourceId = ''a'',
      cr_settlementId = ''s'', cr_rail = R_fiber, cr_network = ''testnet'', cr_assetId = ''ckb:ckb'',
      cr_amountAtomic = ''0'', cr_feeAtomic = None, cr_status = RT_succeeded, cr_paymentHash = None,
      cr_proofKind = None, cr_proofReference = None, cr_settledAt = 0\<rparr>"

lemma asAtomicAmount_zero: "asAtomicAmount ''0'' = Inr ''0''"
  by (rule asAtomicAmount_idem [of _ 0])
    (simp add: parse_Inr nat_of_dec_def digit_value_def atomic_range_def MAX_ATOMIC_VALUE_def)

lemma sample_receipt_created:
  "\<exists>d1. createPaymentReceipt (\<lambda>s. s) 7 sample_receipt_input empty_db
     = (Inr (receiptIdFor (\<lambda>s. s) RC_charge_attempt ''a''), d1)"
  by (simp add: createPaymentReceipt_def sample_receipt_input_def asAtomicAmount_zero find_receipt_def empty_db_def
      insert_row_def Let_def receipt_hash_of_def)

theorem receipt_immutable_witness:
  "\<exists>d1 :: core_db. createPaymentReceipt (\<lambda>s. s) 8 sample_receipt_input d1
      = (Inr (receiptIdFor (\<lambda>s. s) RC_charge_attempt ''a''), d1)
    \<and> (\<exists>e. createPaymentReceipt (\<lambda>s. s) 8 (sample_receipt_input\<lparr>cr_network := ''mainnet''\<rparr>) d1 = (Inl e, d1))"
proof -
  obtain d1 where d1: "createPaymentReceipt (\<lambda>s. s) 7 sample_receipt_input empty_db
      = (Inr (receiptIdFor (\<lambda>s. s) RC_charge_attempt ''a''), d1)"
    using sample_receipt_created by blast
  have "createPaymentReceipt (\<lambda>s. s) 8 sample_receipt_input d1
      = (Inr (receiptIdFor (\<lambda>s. s) RC_charge_attempt ''a''), d1)"
    using receipt_immutable [OF d1 refl refl refl, of 8] by (simp add: same_receipt_def)
  moreover have "\<not> same_receipt sample_receipt_input (sample_receipt_input\<lparr>cr_network := ''mainnet''\<rparr>)"
    by (simp add: same_receipt_def sample_receipt_input_def)
  then have "\<exists>e. createPaymentReceipt (\<lambda>s. s) 8 (sample_receipt_input\<lparr>cr_network := ''mainnet''\<rparr>) d1 = (Inl e, d1)"
    using receipt_immutable [OF d1 refl, of "sample_receipt_input\<lparr>cr_network := ''mainnet''\<rparr>" 8] by simp
  ultimately show ?thesis by blast
qed


subsection \<open>Notification deliveries and the read side\<close>

definition receipt_endpoint :: "payment_receipt \<Rightarrow> notification_endpoint \<Rightarrow> bool" where
  "receipt_endpoint receipt e \<longleftrightarrow> nep_ownerWalletId e = rcp_ownerWalletId receipt
     \<and> rcp_recipientId receipt = Some (nep_recipientId e) \<and> nep_purpose e = ''receipt'' \<and> nep_status e = E_active"

definition new_delivery :: "(string \<Rightarrow> string) \<Rightarrow> int \<Rightarrow> payment_receipt \<Rightarrow> notification_endpoint \<Rightarrow> notification_delivery" where
  "new_delivery sha now receipt e =
     \<lparr>ndl_deliveryId = deliveryIdFor sha (rcp_receiptId receipt) (nep_endpointId e),
      ndl_receiptId = rcp_receiptId receipt, ndl_endpointId = nep_endpointId e,
      ndl_ownerWalletId = rcp_ownerWalletId receipt, ndl_channel = nep_type e, ndl_status = D_queued,
      ndl_attempts = 0, ndl_maxAttempts = 5, ndl_runAfter = now\<rparr>"

definition upsert_delivery :: "notification_delivery \<Rightarrow> notification_delivery list \<Rightarrow> notification_delivery list" where
  "upsert_delivery n ds =
     (if list_ex (\<lambda>x. ndl_receiptId x = ndl_receiptId n \<and> ndl_endpointId x = ndl_endpointId n) ds then ds else ds @ [n])"

definition queueReceiptNotifications ::
  "(string \<Rightarrow> string) \<Rightarrow> int \<Rightarrow> string \<Rightarrow> 'a core_db_scheme \<Rightarrow> nat \<times> 'a core_db_scheme" where
  "queueReceiptNotifications sha now receiptId d =
     (case List.find (\<lambda>r. rcp_receiptId r = receiptId) (receipts d) of
        None \<Rightarrow> (0, d)
      | Some receipt \<Rightarrow>
          if rcp_recipientId receipt = None \<or> rcp_recipientId receipt = Some [] then (0, d)
          else
            let es = filter (receipt_endpoint receipt) (endpoints d) in
            if es = [] then (0, d)
            else
              let ds = fold (\<lambda>e. upsert_delivery (new_delivery sha now receipt e)) es (deliveries d)
              in (length ds - length (deliveries d), d\<lparr>deliveries := ds\<rparr>))"

record receipt_dto =
  rd_id :: string
  rd_hash :: string
  rd_source :: "string \<times> string"
  rd_settlementId :: string
  rd_recipientId :: "string option"
  rd_rail :: string
  rd_network :: string
  rd_assetId :: string
  rd_amountAtomic :: string
  rd_fee :: "string \<times> bool"
  rd_status :: string
  rd_paymentHash :: "string option"
  rd_proof :: "(string \<times> string) option"
  rd_settledAt :: string
  rd_createdAt :: string

definition atomic_text :: "int \<Rightarrow> string" where
  "atomic_text v = dec_of_nat (nat v)"

definition paymentReceiptDto :: "payment_receipt \<Rightarrow> receipt_dto" where
  "paymentReceiptDto receipt =
     \<lparr>rd_id = rcp_receiptId receipt, rd_hash = rcp_receiptHash receipt,
      rd_source = (receipt_source_text (rcp_sourceType receipt), rcp_sourceId receipt),
      rd_settlementId = rcp_settlementId receipt, rd_recipientId = rcp_recipientId receipt,
      rd_rail = rail_text (rcp_rail receipt), rd_network = rcp_network receipt,
      rd_assetId = rcp_assetId receipt, rd_amountAtomic = atomic_text (rcp_amountAtomic receipt),
      rd_fee = (atomic_text (rcp_feeAtomic receipt), rcp_feeKnown receipt),
      rd_status = receipt_status_text (rcp_status receipt), rd_paymentHash = rcp_paymentHash receipt,
      rd_proof = (case (rcp_proofKind receipt, rcp_proofReference receipt) of
          (Some kind, Some reference) \<Rightarrow> if kind \<noteq> [] \<and> reference \<noteq> [] then Some (kind, reference) else None
        | _ \<Rightarrow> None),
      rd_settledAt = toISOString (rcp_settledAt receipt), rd_createdAt = toISOString (rcp_createdAt receipt)\<rparr>"

definition newer_receipt :: "payment_receipt \<Rightarrow> payment_receipt \<Rightarrow> bool" where
  "newer_receipt a b \<longleftrightarrow> rcp_settledAt a > rcp_settledAt b
     \<or> rcp_settledAt a = rcp_settledAt b \<and> str_le (rcp_receiptId b) (rcp_receiptId a)"

definition listPaymentReceipts :: "string \<Rightarrow> int \<Rightarrow> 'a core_db_scheme \<Rightarrow> receipt_dto list" where
  "listPaymentReceipts ownerWalletId limit d =
     map paymentReceiptDto
       (take (nat (clamp 1 500 limit))
         (sort_by newer_receipt (filter (\<lambda>r. rcp_ownerWalletId r = ownerWalletId) (receipts d))))"

text \<open>The deliveries of a receipt: those there were, and one per endpoint that had none.\<close>

lemma upsert_delivery_keys:
  "(\<lambda>x. (ndl_receiptId x, ndl_endpointId x)) ` set (upsert_delivery n ds)
    = insert (ndl_receiptId n, ndl_endpointId n) ((\<lambda>x. (ndl_receiptId x, ndl_endpointId x)) ` set ds)"
  by (auto simp: upsert_delivery_def list_ex_iff image_iff) (metis)+

lemma upsert_delivery_distinct:
  "distinct (map (\<lambda>x. (ndl_receiptId x, ndl_endpointId x)) ds) \<Longrightarrow>
    distinct (map (\<lambda>x. (ndl_receiptId x, ndl_endpointId x)) (upsert_delivery n ds))"
  by (auto simp: upsert_delivery_def list_ex_iff)

lemma fold_upsert:
  fixes es :: "notification_endpoint list"
  defines "k \<equiv> \<lambda>x. (ndl_receiptId x, ndl_endpointId x)"
  shows "\<exists>new. fold (\<lambda>e. upsert_delivery (new_delivery sha now r e)) es ds = ds @ new"
    and "k ` set (fold (\<lambda>e. upsert_delivery (new_delivery sha now r e)) es ds)
      = k ` set ds \<union> {(rcp_receiptId r, nep_endpointId e) | e. e \<in> set es}"
    and "distinct (map k ds) \<Longrightarrow> distinct (map k (fold (\<lambda>e. upsert_delivery (new_delivery sha now r e)) es ds))"
proof (induction es arbitrary: ds)
  case (Cons e es)
  { case 1
    show ?case using Cons.IH(1) [of "upsert_delivery (new_delivery sha now r e) ds"]
      by (auto simp: upsert_delivery_def) }
  { case 2
    show ?case using Cons.IH(2) [of "upsert_delivery (new_delivery sha now r e) ds"]
      by (auto simp: k_def upsert_delivery_keys [unfolded k_def]) (auto simp: new_delivery_def) }
  { case 3
    then show ?case using Cons.IH(3) [of "upsert_delivery (new_delivery sha now r e) ds"] upsert_delivery_distinct
      by (simp add: k_def) }
qed simp_all


lemma queueReceiptNotifications_frame:
  "queueReceiptNotifications sha now receiptId d = (n, d') \<Longrightarrow> \<exists>ds. d' = d\<lparr>deliveries := ds\<rparr>"
  unfolding queueReceiptNotifications_def Let_def
  by (auto split: option.splits if_splits) (metis core_db.surjective core_db.update_convs(8))+

lemma fold_upsert_id:
  "(\<And>e. e \<in> set es \<Longrightarrow> (rcp_receiptId r, nep_endpointId e) \<in> (\<lambda>x. (ndl_receiptId x, ndl_endpointId x)) ` set ds) \<Longrightarrow>
    fold (\<lambda>e. upsert_delivery (new_delivery sha now r e)) es ds = ds"
proof (induction es)
  case (Cons e es)
  then obtain x where x: "x \<in> set ds" "ndl_receiptId x = rcp_receiptId r" "ndl_endpointId x = nep_endpointId e"
    by force
  then have "upsert_delivery (new_delivery sha now r e) ds = ds"
    by (auto simp: upsert_delivery_def new_delivery_def list_ex_iff)
  with Cons show ?case by simp
qed simp

text \<open>
  Every active receipt endpoint of the recipient gets exactly one delivery. After a call
  each of them has one, existing deliveries are untouched, only such endpoints were added, and
  calling again (at any later time) adds nothing.
\<close>

theorem queueReceiptNotifications_once:
  assumes "List.find (\<lambda>r. rcp_receiptId r = receiptId) (receipts d) = Some r"
    and "distinct (map (\<lambda>x. (ndl_receiptId x, ndl_endpointId x)) (deliveries d))"
    and "queueReceiptNotifications sha now receiptId d = (n, d')" and "rcp_recipientId r \<noteq> Some []"
  shows "distinct (map (\<lambda>x. (ndl_receiptId x, ndl_endpointId x)) (deliveries d'))
    \<and> (\<lambda>x. (ndl_receiptId x, ndl_endpointId x)) ` set (deliveries d')
        = (\<lambda>x. (ndl_receiptId x, ndl_endpointId x)) ` set (deliveries d)
          \<union> {(receiptId, nep_endpointId e) | e. e \<in> set (endpoints d) \<and> receipt_endpoint r e}
    \<and> take (length (deliveries d)) (deliveries d') = deliveries d
    \<and> n = length (deliveries d') - length (deliveries d)
    \<and> queueReceiptNotifications sha later receiptId d' = (0, d')"
proof -
  define es where "es = filter (receipt_endpoint r) (endpoints d)"
  define ds where "ds = fold (\<lambda>e. upsert_delivery (new_delivery sha now r e)) es (deliveries d)"
  have rid: "rcp_receiptId r = receiptId" using find_SomeD [OF assms(1)] by simp
  have none: "es = []" if "rcp_recipientId r = None"
    using that by (auto simp: es_def receipt_endpoint_def filter_empty_conv)
  have d': "d' = d\<lparr>deliveries := ds\<rparr>" "n = length ds - length (deliveries d)"
    using assms(1,3,4) none
    by (auto simp: queueReceiptNotifications_def Let_def ds_def es_def [symmetric] split: if_splits)
  obtain new where new: "ds = deliveries d @ new" using fold_upsert(1) ds_def by blast
  have keys: "(\<lambda>x. (ndl_receiptId x, ndl_endpointId x)) ` set ds
      = (\<lambda>x. (ndl_receiptId x, ndl_endpointId x)) ` set (deliveries d)
        \<union> {(receiptId, nep_endpointId e) | e. e \<in> set es}"
    using fold_upsert(2) [of sha now r es "deliveries d"] by (simp add: ds_def rid)
  have "fold (\<lambda>e. upsert_delivery (new_delivery sha later r e)) es ds = ds"
    by (rule fold_upsert_id) (auto simp: keys rid)
  then have again: "queueReceiptNotifications sha later receiptId d' = (0, d')"
    using assms(1) by (auto simp: queueReceiptNotifications_def Let_def d' es_def [symmetric])
  have "distinct (map (\<lambda>x. (ndl_receiptId x, ndl_endpointId x)) ds)"
    using fold_upsert(3) assms(2) by (simp add: ds_def)
  then show ?thesis using keys new again by (simp add: d' es_def)
qed

definition sample_notified_db :: core_db where
  "sample_notified_db = empty_db
     \<lparr>receipts := [receipt_row (receipt_hash_of (\<lambda>s. s) sample_receipt_input ''0'' ''0'') ''h'' 7],
      endpoints := [\<lparr>nep_endpointId = ''e1'', nep_ownerWalletId = ''w'', nep_recipientId = ''r'', nep_type = CH_email,
          nep_purpose = ''receipt'', nep_status = E_active\<rparr>,
        \<lparr>nep_endpointId = ''e2'', nep_ownerWalletId = ''w'', nep_recipientId = ''r'', nep_type = CH_nostr,
          nep_purpose = ''receipt'', nep_status = E_unsubscribed\<rparr>]\<rparr>"

theorem queueReceiptNotifications_once_witness:
  "\<exists>d'. queueReceiptNotifications (\<lambda>s. s) 9 (receiptIdFor (\<lambda>s. s) RC_charge_attempt ''a'') sample_notified_db = (1, d')
    \<and> queueReceiptNotifications (\<lambda>s. s) 10 (receiptIdFor (\<lambda>s. s) RC_charge_attempt ''a'') d' = (0, d')"
proof -
  define rid where "rid = receiptIdFor (\<lambda>s. s) RC_charge_attempt ''a''"
  define r where "r = receipt_row (receipt_hash_of (\<lambda>s. s) sample_receipt_input ''0'' ''0'') ''h'' 7"
  have r: "List.find (\<lambda>r. rcp_receiptId r = rid) (receipts sample_notified_db) = Some r"
    by (simp add: sample_notified_db_def r_def rid_def receipt_row_def receipt_hash_of_def sample_receipt_input_def)
  obtain d' where d': "queueReceiptNotifications (\<lambda>s. s) 9 rid sample_notified_db = (1, d')"
    using r by (simp add: queueReceiptNotifications_def Let_def)
      (simp add: sample_notified_db_def receipt_endpoint_def r_def receipt_row_def receipt_hash_of_def
        sample_receipt_input_def empty_db_def upsert_delivery_def)
  show ?thesis
    using d' queueReceiptNotifications_once [OF r _ d', of 10]
    by (auto simp: rid_def r_def receipt_row_def receipt_hash_of_def sample_receipt_input_def sample_notified_db_def
        empty_db_def)
qed

end
