(* ===== verification/Funding.thy ===== *)
theory Funding
  imports Store
begin

section \<open>Funding sources and allocations (domain/funding.ts, services/fundingSource.service.ts)\<close>

text \<open>
  A funding source is a connected wallet (an observed balance) or secured auto-pay (funds locked on the
  network). A pass takes an allocation from one source; finalized charges spend from it and the end
  of the pass releases the rest. The \<open>...Atomic\<close> twin of each amount is always written together with
  the minor amount as \<open>legacyMinorToAtomicAmount\<close> of it, so the record holds the minor amount only;
  the range check of that conversion is kept. The \<open>pre('validate')\<close> hooks of the two schemas run on
  every save. \<open>now\<close> stands for \<open>Date.now()\<close>.
\<close>

definition SOURCE_FRESHNESS_MS :: int where
  "SOURCE_FRESHNESS_MS = 5 * 60 * 1000"

subsection \<open>Pure rules\<close>

definition checkedMinor :: "int \<Rightarrow> error + int" where
  "checkedMinor value =
     (if \<not> isSafeInteger value \<or> value < 0 then Inl (PlainError ''must be a non-negative safe integer.'') else Inr value)"

definition securedReclaimableMinor :: "int \<Rightarrow> int \<Rightarrow> error + int" where
  "securedReclaimableMinor lockedMinor reservedMinor =
     bindE (checkedMinor lockedMinor) (\<lambda>locked.
     bindE (checkedMinor reservedMinor) (\<lambda>reserved.
     if reserved > locked then Inl (PlainError ''Secured funding reservations cannot exceed network-locked funds.'')
     else Inr (locked - reserved)))"

definition allocationRemainingMinor :: "funding_allocation \<Rightarrow> error + int" where
  "allocationRemainingMinor a =
     bindE (checkedMinor (alc_authorizedMinor a)) (\<lambda>authorized.
     bindE (checkedMinor (alc_spentMinor a)) (\<lambda>spent.
     bindE (checkedMinor (alc_releasedMinor a)) (\<lambda>released.
     if spent + released > authorized
     then Inl (PlainError ''Funding allocation spent plus released cannot exceed its authorization.'')
     else Inr (authorized - spent - released))))"

definition is_stale :: "int option \<Rightarrow> int \<Rightarrow> bool" where
  "is_stale staleAt now \<longleftrightarrow> (case staleAt of None \<Rightarrow> False | Some t \<Rightarrow> t \<le> now)"

definition has_proof :: "string option \<Rightarrow> bool" where
  "has_proof p \<longleftrightarrow> p \<noteq> None \<and> p \<noteq> Some []"

definition fundingSourceState :: "funding_source \<Rightarrow> int \<Rightarrow> error + funding_state" where
  "fundingSourceState s now =
     (if is_stale (src_staleAt s) now then Inr F_stale
      else if src_mode s = M_secured_autopay then
        if \<not> has_proof (src_networkProofId s) then Inr F_unverified
        else bindE (securedReclaimableMinor (src_lockedMinor s) (src_reservedMinor s)) (\<lambda>reclaimable.
             Inr (if reclaimable = 0 then F_fully_allocated else F_available))
      else if src_balanceObservedAt s = None then Inr F_unverified
      else bindE (checkedMinor (src_availableMinor s)) (\<lambda>available.
           bindE (checkedMinor (src_authorizedMinor s)) (\<lambda>authorized.
           Inr (if available > 0 \<and> available \<ge> authorized then F_available else F_insufficient))))"

definition legacyAtomicMirror :: "int list \<Rightarrow> error + unit" where
  "legacyAtomicMirror values = bindE (legacyAll values) (\<lambda>_. Inr ())"

definition refreshSourceAmounts :: "int \<Rightarrow> funding_source \<Rightarrow> error + funding_source" where
  "refreshSourceAmounts now s =
     bindE (if src_mode s = M_secured_autopay then securedReclaimableMinor (src_lockedMinor s) (src_reservedMinor s)
            else Inr (max 0 (src_availableMinor s - src_authorizedMinor s))) (\<lambda>reclaimable.
     let s' = s\<lparr>src_reclaimableMinor := reclaimable\<rparr> in
     bindE (legacyAtomicMirror [src_availableMinor s', src_authorizedMinor s', src_lockedMinor s',
        src_reservedMinor s', src_spentMinor s', src_releasedMinor s', src_reclaimableMinor s']) (\<lambda>_.
     bindE (fundingSourceState s' now) (\<lambda>state. Inr (s'\<lparr>src_state := state\<rparr>))))"

definition refreshAllocationAmounts :: "funding_allocation \<Rightarrow> error + funding_allocation" where
  "refreshAllocationAmounts a =
     bindE (allocationRemainingMinor a) (\<lambda>remaining.
     let a' = a\<lparr>alc_remainingMinor := remaining\<rparr> in
     bindE (legacyAtomicMirror [alc_authorizedMinor a', alc_spentMinor a', alc_releasedMinor a',
        alc_remainingMinor a']) (\<lambda>_. Inr a'))"

text \<open>The schema hooks, and saving through them.\<close>

definition validateSecuredProof :: "funding_source \<Rightarrow> error + unit" where
  "validateSecuredProof s =
     require (\<not> (src_mode s = M_secured_autopay \<and> src_lockedMinor s > 0 \<and> \<not> has_proof (src_networkProofId s)))
       (PlainError ''ValidationError'')"

definition validateAllocation :: "funding_allocation \<Rightarrow> error + unit" where
  "validateAllocation a =
     bindE (require (\<not> alc_spentMinor a + alc_releasedMinor a > alc_authorizedMinor a) (PlainError ''ValidationError'')) (\<lambda>_.
     require (\<not> (alc_mode a = M_secured_autopay \<and> \<not> has_proof (alc_networkProofIdAtAllocation a)
        \<and> alc_riskLabel a \<noteq> FR_legacy_operator_vault)) (PlainError ''ValidationError''))"

definition find_source :: "string \<Rightarrow> 'a core_db_scheme \<Rightarrow> funding_source option" where
  "find_source i d = List.find (\<lambda>s. src_sourceId s = i) (sources d)"

definition find_allocation :: "string \<Rightarrow> 'a core_db_scheme \<Rightarrow> funding_allocation option" where
  "find_allocation i d = List.find (\<lambda>a. alc_sessionId a = i) (allocations d)"

definition save_source_and_allocation ::
  "funding_source \<Rightarrow> funding_allocation \<Rightarrow> 'a \<Rightarrow> ('b core_db_scheme, 'a) op" where
  "save_source_and_allocation s a v d =
     (case validateSecuredProof s of
        Inl e \<Rightarrow> (Inl e, d)
      | Inr _ \<Rightarrow>
         (case validateAllocation a of
            Inl e \<Rightarrow> (Inl e, save_source s d)
          | Inr _ \<Rightarrow> (Inr v, save_allocation a (save_source s d))))"

subsection \<open>Recording what the network or the wallet shows\<close>

definition stableId :: "(string \<Rightarrow> string) \<Rightarrow> string \<Rightarrow> string \<Rightarrow> string" where
  "stableId sha prefix value = prefix @ ''_'' @ take 32 (sha value)"

definition securedFundingSourceId :: "(string \<Rightarrow> string) \<Rightarrow> string \<Rightarrow> string \<Rightarrow> string" where
  "securedFundingSourceId sha ownerWalletId sourceReference =
     stableId sha ''fsrc'' (join '':'' [''secured'', ownerWalletId, sourceReference])"

definition connectedFundingSourceId :: "(string \<Rightarrow> string) \<Rightarrow> string \<Rightarrow> string \<Rightarrow> string \<Rightarrow> string" where
  "connectedFundingSourceId sha ownerWalletId rail assetId =
     stableId sha ''fsrc'' (join '':'' [''connected'', ownerWalletId, rail, assetId])"

definition source_clash :: "funding_source \<Rightarrow> funding_source \<Rightarrow> bool" where
  "source_clash s x \<longleftrightarrow> src_sourceId x = src_sourceId s
     \<or> (src_ownerWalletId x = src_ownerWalletId s \<and> src_mode x = src_mode s
        \<and> src_sourceReference x = src_sourceReference s \<and> src_rail x = src_rail s \<and> src_assetId x = src_assetId s)"

definition blank_source :: "string \<Rightarrow> string \<Rightarrow> string \<Rightarrow> string \<Rightarrow> string \<Rightarrow> string \<Rightarrow> int \<Rightarrow> funding_source" where
  "blank_source sourceId ownerWalletId reference rail network assetId now =
     \<lparr>src_sourceId = sourceId, src_ownerWalletId = ownerWalletId, src_mode = M_connected_wallet,
      src_sourceKind = K_external_wallet, src_sourceReference = reference, src_connectorId = None,
      src_rail = rail, src_network = network, src_assetId = assetId, src_guarantee = G_authorization_only,
      src_riskLabel = FR_none, src_state = F_unverified, src_availableMinor = 0, src_authorizedMinor = 0,
      src_lockedMinor = 0, src_reservedMinor = 0, src_spentMinor = 0, src_releasedMinor = 0,
      src_reclaimableMinor = 0, src_networkProofId = None, src_networkProofType = None,
      src_proofObservedAt = None, src_balanceObservedAt = None, src_staleAt = None, src_failureCode = None,
      src_createdAt = now\<rparr>"

definition ensureConnectedWalletSource ::
  "(string \<Rightarrow> string) \<Rightarrow> string \<Rightarrow> int \<Rightarrow> string \<Rightarrow> string \<Rightarrow> string option \<Rightarrow> string option
    \<Rightarrow> ('a core_db_scheme, funding_source) op" where
  "ensureConnectedWalletSource sha network now ownerWalletId walletAddress rail0 assetId0 d =
     (case (case assetId0 of Some a \<Rightarrow> Inr a | None \<Rightarrow> assetIdForLegacyCurrency ''CKB'') of
        Inl e \<Rightarrow> (Inl e, d)
      | Inr assetId \<Rightarrow>
         let rail = opt_or rail0 ''ckb_onchain''; sourceId = connectedFundingSourceId sha ownerWalletId rail assetId;
             fresh = blank_source sourceId ownerWalletId walletAddress rail network assetId now
         in (case find_source sourceId d of
               Some source \<Rightarrow> (Inr source, d)
             | None \<Rightarrow>
                 (case insert_row (source_clash fresh) fresh (sources d) of
                    None \<Rightarrow> (Inl DuplicateKey, d)
                  | Some xs \<Rightarrow> (Inr fresh, d\<lparr>sources := xs\<rparr>))))"

definition recordConnectedWalletBalance ::
  "(string \<Rightarrow> string) \<Rightarrow> string \<Rightarrow> int \<Rightarrow> string \<Rightarrow> string \<Rightarrow> int \<Rightarrow> int \<Rightarrow> ('a core_db_scheme, unit) op" where
  "recordConnectedWalletBalance sha network now ownerWalletId walletAddress availableMinor observedAt d =
     (case ensureConnectedWalletSource sha network now ownerWalletId walletAddress None None d of
        (Inl e, d1) \<Rightarrow> (Inl e, d1)
      | (Inr source, d1) \<Rightarrow>
         let s = source\<lparr>src_availableMinor := availableMinor, src_guarantee := G_balance_observed,
                src_balanceObservedAt := Some observedAt, src_staleAt := Some (observedAt + SOURCE_FRESHNESS_MS),
                src_failureCode := None\<rparr>
         in (case refreshSourceAmounts now s of
               Inl e \<Rightarrow> (Inl e, d1)
             | Inr s' \<Rightarrow> (case validateSecuredProof s' of Inl e \<Rightarrow> (Inl e, d1) | Inr _ \<Rightarrow> (Inr (), save_source s' d1))))"

definition recordSecuredFundingProof ::
  "(string \<Rightarrow> string) \<Rightarrow> string \<Rightarrow> int \<Rightarrow> string \<Rightarrow> string \<Rightarrow> int \<Rightarrow> string \<Rightarrow> string \<Rightarrow> int \<Rightarrow> bool
    \<Rightarrow> ('a core_db_scheme, string) op" where
  "recordSecuredFundingProof sha network now ownerWalletId sourceReference amountMinor proofId proofType
      observedAt legacyOperatorVault d =
     (let sourceId = securedFundingSourceId sha ownerWalletId sourceReference in
      case find_source sourceId d of
        None \<Rightarrow>
          (case bindE (assetIdForLegacyCurrency ''CKB'') (\<lambda>assetId.
                bindE (legacyAtomicMirror [amountMinor, 0]) (\<lambda>_.
                let s = (blank_source sourceId ownerWalletId sourceReference ''ckb_onchain'' network assetId now)
                      \<lparr>src_mode := M_secured_autopay,
                       src_sourceKind := (if legacyOperatorVault then K_legacy_operator_vault else K_network_contract),
                       src_connectorId := Some ''fiber-rpc'', src_guarantee := G_network_locked_operator_controlled,
                       src_riskLabel := (if legacyOperatorVault then FR_legacy_operator_vault else FR_unaudited_operator_contract),
                       src_state := F_available, src_availableMinor := amountMinor, src_lockedMinor := amountMinor,
                       src_reclaimableMinor := amountMinor, src_networkProofId := Some proofId,
                       src_networkProofType := Some proofType, src_proofObservedAt := Some observedAt,
                       src_balanceObservedAt := Some observedAt,
                       src_staleAt := Some (observedAt + SOURCE_FRESHNESS_MS)\<rparr>
                in bindE (validateSecuredProof s) (\<lambda>_. Inr s))) of
             Inl e \<Rightarrow> (Inl e, d)
           | Inr s \<Rightarrow>
              (case insert_row (source_clash s) s (sources d) of
                 None \<Rightarrow> (Inl DuplicateKey, d)
               | Some xs \<Rightarrow> (Inr sourceId, d\<lparr>sources := xs\<rparr>)))
      | Some source \<Rightarrow>
          let s = source\<lparr>src_lockedMinor := src_lockedMinor source + amountMinor,
                 src_availableMinor := src_lockedMinor source + amountMinor,
                 src_networkProofId := Some proofId, src_networkProofType := Some proofType,
                 src_proofObservedAt := Some observedAt, src_balanceObservedAt := Some observedAt,
                 src_staleAt := Some (observedAt + SOURCE_FRESHNESS_MS), src_failureCode := None\<rparr>
          in (case bindE (refreshSourceAmounts now s) (\<lambda>s'. bindE (validateSecuredProof s') (\<lambda>_. Inr s')) of
                Inl e \<Rightarrow> (Inl e, d)
              | Inr s' \<Rightarrow> (Inr (src_sourceId s'), save_source s' d)))"

definition recordSecuredFundingBalance ::
  "int \<Rightarrow> string \<Rightarrow> string \<Rightarrow> int \<Rightarrow> int \<Rightarrow> ('a core_db_scheme, unit) op" where
  "recordSecuredFundingBalance now ownerWalletId sourceReference lockedMinor observedAt d =
     (case List.find (\<lambda>s. src_ownerWalletId s = ownerWalletId \<and> src_mode s = M_secured_autopay
              \<and> src_sourceReference s = sourceReference) (sources d) of
        None \<Rightarrow> (Inr (), d)
      | Some source \<Rightarrow>
         (case bindE (legacyAtomicMirror [lockedMinor]) (\<lambda>_.
            let s = source\<lparr>src_lockedMinor := lockedMinor, src_availableMinor := lockedMinor,
                   src_balanceObservedAt := Some observedAt,
                   src_staleAt := Some (observedAt + SOURCE_FRESHNESS_MS)\<rparr>
            in bindE
                 (if lockedMinor < src_reservedMinor s
                  then Inr (s\<lparr>src_reclaimableMinor := 0, src_state := F_insufficient,
                              src_failureCode := Some ''SECURED_FUNDING_AGGREGATE_INSUFFICIENT''\<rparr>)
                  else refreshSourceAmounts now (s\<lparr>src_failureCode := None\<rparr>)) (\<lambda>s'.
               bindE (validateSecuredProof s') (\<lambda>_. Inr s'))) of
            Inl e \<Rightarrow> (Inl e, d)
          | Inr s' \<Rightarrow> (Inr (), save_source s' d)))"


subsection \<open>Choosing a source for a pass\<close>

record funding_selection =
  sel_sourceId :: string
  sel_mode :: funding_mode
  sel_guarantee :: funding_guarantee
  sel_riskLabel :: funding_risk
  sel_executionReady :: bool
  sel_failureCode :: "string option"

definition risk_text :: "funding_risk \<Rightarrow> string" where
  "risk_text r = (case r of FR_none \<Rightarrow> ''none'' | FR_unaudited_operator_contract \<Rightarrow> ''unaudited_operator_contract''
     | FR_legacy_operator_vault \<Rightarrow> ''legacy_operator_vault'')"

definition source_order :: "funding_source \<Rightarrow> funding_source \<Rightarrow> bool" where
  "source_order a b \<longleftrightarrow>
     (if src_riskLabel a = src_riskLabel b then src_createdAt a \<le> src_createdAt b
      else str_le (risk_text (src_riskLabel a)) (risk_text (src_riskLabel b)))"

definition secured_candidate :: "string \<Rightarrow> int \<Rightarrow> int \<Rightarrow> funding_source \<Rightarrow> bool" where
  "secured_candidate ownerWalletId amountMinor now s \<longleftrightarrow> src_ownerWalletId s = ownerWalletId
     \<and> src_mode s = M_secured_autopay \<and> has_proof (src_networkProofId s) \<and> src_state s = F_available
     \<and> (case src_staleAt s of None \<Rightarrow> False | Some t \<Rightarrow> now < t)
     \<and> amountMinor \<le> src_lockedMinor s - src_reservedMinor s"

definition source_selection :: "int \<Rightarrow> funding_source \<Rightarrow> funding_selection" where
  "source_selection now s =
     (let secured = (src_mode s = M_secured_autopay); proofStale = is_stale (src_staleAt s) now in
      \<lparr>sel_sourceId = src_sourceId s, sel_mode = src_mode s, sel_guarantee = src_guarantee s,
       sel_riskLabel = src_riskLabel s,
       sel_executionReady = (secured \<and> has_proof (src_networkProofId s) \<and> \<not> proofStale
          \<and> src_state s \<notin> {F_unverified, F_insufficient, F_failed, F_revoked}),
       sel_failureCode =
         (if secured then
            if \<not> has_proof (src_networkProofId s) then Some ''SECURED_FUNDING_PROOF_REQUIRED''
            else if proofStale then Some ''SECURED_FUNDING_PROOF_STALE'' else src_failureCode s
          else Some ''CONNECTED_WALLET_EXECUTION_UNAVAILABLE'')\<rparr>)"

definition selectFundingSource ::
  "string \<Rightarrow> int \<Rightarrow> funding_mode option \<Rightarrow> string option \<Rightarrow> int \<Rightarrow> 'a core_db_scheme
    \<Rightarrow> error + funding_source option" where
  "selectFundingSource ownerWalletId amountMinor mode sourceId now d =
     (case sourceId of
        Some i \<Rightarrow>
          (case List.find (\<lambda>s. src_sourceId s = i \<and> src_ownerWalletId s = ownerWalletId) (sources d) of
             None \<Rightarrow> Inl (ApiError 404 ''FUNDING_SOURCE_NOT_FOUND'')
           | Some s \<Rightarrow>
              if mode \<noteq> None \<and> mode \<noteq> Some (src_mode s) then Inl (ApiError 400 ''FUNDING_MODE_MISMATCH'')
              else Inr (Some s))
      | None \<Rightarrow>
          if mode = Some M_secured_autopay \<or> mode = None then
            (case sort_by source_order (filter (secured_candidate ownerWalletId amountMinor now) (sources d)) of
               s # _ \<Rightarrow> Inr (Some s)
             | [] \<Rightarrow> if mode = Some M_secured_autopay then Inl (ApiError 402 ''SECURED_FUNDING_INSUFFICIENT'')
                     else Inr None)
          else Inr None)"

definition resolveFundingSelection ::
  "(string \<Rightarrow> string) \<Rightarrow> string \<Rightarrow> int \<Rightarrow> string \<Rightarrow> string \<Rightarrow> int \<Rightarrow> funding_mode option \<Rightarrow> string option
    \<Rightarrow> ('a core_db_scheme, funding_selection) op" where
  "resolveFundingSelection sha network now ownerWalletId walletAddress amountMinor mode sourceId d =
     (case selectFundingSource ownerWalletId amountMinor mode
             (if sourceId = Some [] then None else sourceId) now d of
        Inl e \<Rightarrow> (Inl e, d)
      | Inr (Some s) \<Rightarrow> (Inr (source_selection now s), d)
      | Inr None \<Rightarrow>
          (case ensureConnectedWalletSource sha network now ownerWalletId walletAddress None None d of
             (Inl e, d1) \<Rightarrow> (Inl e, d1)
           | (Inr s, d1) \<Rightarrow> (Inr (source_selection now s), d1)))"

subsection \<open>The life of an allocation\<close>

text \<open>The guard that allocation and top-up share for a secured source.\<close>

definition secured_headroom :: "funding_source \<Rightarrow> int \<Rightarrow> int \<Rightarrow> error + funding_source" where
  "secured_headroom source amountMinor now =
     (if src_mode source \<noteq> M_secured_autopay then Inr source
      else if \<not> has_proof (src_networkProofId source) then Inl (ApiError 409 ''SECURED_FUNDING_PROOF_REQUIRED'')
      else if is_stale (src_staleAt source) now then Inl (ApiError 409 ''SECURED_FUNDING_PROOF_STALE'')
      else bindE (securedReclaimableMinor (src_lockedMinor source) (src_reservedMinor source)) (\<lambda>reclaimable.
           if reclaimable < amountMinor then Inl (ApiError 402 ''SECURED_FUNDING_INSUFFICIENT'')
           else Inr (source\<lparr>src_reservedMinor := src_reservedMinor source + amountMinor\<rparr>)))"

definition new_allocation :: "string \<Rightarrow> int \<Rightarrow> string \<Rightarrow> string \<Rightarrow> int \<Rightarrow> funding_source \<Rightarrow> funding_allocation" where
  "new_allocation allocationId now ownerWalletId sessionId amountMinor source =
     \<lparr>alc_allocationId = allocationId, alc_sourceId = src_sourceId source, alc_sessionId = sessionId,
      alc_ownerWalletId = ownerWalletId, alc_mode = src_mode source, alc_guarantee = src_guarantee source,
      alc_riskLabel = src_riskLabel source, alc_state = AL_active, alc_assetId = src_assetId source,
      alc_authorizedMinor = amountMinor, alc_spentMinor = 0, alc_releasedMinor = 0,
      alc_remainingMinor = amountMinor,
      alc_networkProofIdAtAllocation =
        (if src_mode source = M_secured_autopay then src_networkProofId source else None),
      alc_activatedAt = now, alc_releasedAt = None, alc_exhaustedAt = None\<rparr>"

definition allocateFundingForSession ::
  "string \<Rightarrow> int \<Rightarrow> funding_selection \<Rightarrow> string \<Rightarrow> string \<Rightarrow> int \<Rightarrow> ('a core_db_scheme, unit) op" where
  "allocateFundingForSession allocationId now selection ownerWalletId sessionId amountMinor d =
     (case List.find (\<lambda>s. src_sourceId s = sel_sourceId selection \<and> src_ownerWalletId s = ownerWalletId
              \<and> src_mode s = sel_mode selection) (sources d) of
        None \<Rightarrow> (Inl (ApiError 404 ''FUNDING_SOURCE_NOT_FOUND''), d)
      | Some source0 \<Rightarrow>
         (case bindE (secured_headroom source0 amountMinor now) (\<lambda>s1.
               bindE (refreshSourceAmounts now (s1\<lparr>src_authorizedMinor := src_authorizedMinor s1 + amountMinor\<rparr>)) (\<lambda>s2.
               bindE (validateSecuredProof s2) (\<lambda>_. Inr s2))) of
            Inl e \<Rightarrow> (Inl e, d)
          | Inr source \<Rightarrow>
             let d1 = save_source source d; a = new_allocation allocationId now ownerWalletId sessionId amountMinor source in
             (case bindE (legacyAtomicMirror [amountMinor, 0]) (\<lambda>_. validateAllocation a) of
                Inl e \<Rightarrow> (Inl e, d1)
              | Inr _ \<Rightarrow>
                 (case insert_row (\<lambda>x. alc_sessionId x = sessionId \<or> alc_allocationId x = allocationId) a (allocations d1) of
                    None \<Rightarrow> (Inl DuplicateKey, d1)
                  | Some xs \<Rightarrow> (Inr (), d1\<lparr>allocations := xs\<rparr>)))))"

definition topUpFundingAllocation :: "int \<Rightarrow> string \<Rightarrow> int \<Rightarrow> ('a core_db_scheme, unit) op" where
  "topUpFundingAllocation now sessionId amountMinor d =
     (case List.find (\<lambda>a. alc_sessionId a = sessionId \<and> alc_state a = AL_active) (allocations d) of
        None \<Rightarrow> (Inr (), d)
      | Some allocation \<Rightarrow>
         (case find_source (alc_sourceId allocation) d of
            None \<Rightarrow> (Inl (PlainError ''Funding source is missing for pass top up.''), d)
          | Some source \<Rightarrow>
             (case bindE (secured_headroom source amountMinor now) (\<lambda>s1.
                   let s2 = s1\<lparr>src_authorizedMinor := src_authorizedMinor s1 + amountMinor\<rparr>;
                       a1 = allocation\<lparr>alc_authorizedMinor := alc_authorizedMinor allocation + amountMinor\<rparr>
                   in bindE (refreshAllocationAmounts a1) (\<lambda>a2.
                      bindE (refreshSourceAmounts now s2) (\<lambda>s3. Inr (s3, a2)))) of
                Inl e \<Rightarrow> (Inl e, d)
              | Inr (s, a) \<Rightarrow> save_source_and_allocation s a () d)))"

definition spend_source :: "funding_source \<Rightarrow> int \<Rightarrow> error + funding_source" where
  "spend_source source amountMinor =
     bindE (if src_mode source = M_secured_autopay then
              if src_reservedMinor source < amountMinor \<or> src_lockedMinor source < amountMinor
              then Inl (PlainError ''Secured source counters cannot cover finalized spend.'')
              else Inr (source\<lparr>src_reservedMinor := src_reservedMinor source - amountMinor,
                               src_lockedMinor := src_lockedMinor source - amountMinor,
                               src_availableMinor := src_lockedMinor source - amountMinor\<rparr>)
            else Inr source) (\<lambda>s1.
     if src_authorizedMinor s1 < amountMinor
     then Inl (PlainError ''Funding source authorization cannot cover finalized spend.'')
     else Inr (s1\<lparr>src_authorizedMinor := src_authorizedMinor s1 - amountMinor,
                  src_spentMinor := src_spentMinor s1 + amountMinor\<rparr>))"

definition exhaust_if_empty :: "int \<Rightarrow> funding_allocation \<Rightarrow> funding_allocation" where
  "exhaust_if_empty now a =
     (if alc_remainingMinor a = 0 then a\<lparr>alc_state := AL_exhausted, alc_exhaustedAt := Some now\<rparr> else a)"

definition spendFundingAllocation :: "int \<Rightarrow> string \<Rightarrow> int \<Rightarrow> ('a core_db_scheme, bool) op" where
  "spendFundingAllocation now sessionId amountMinor d =
     (case find_allocation sessionId d of
        None \<Rightarrow> (Inr False, d)
      | Some allocation \<Rightarrow>
         if alc_state allocation \<noteq> AL_active then (Inl (PlainError ''Funding allocation is not active.''), d)
         else (case allocationRemainingMinor allocation of
            Inl e \<Rightarrow> (Inl e, d)
          | Inr remaining \<Rightarrow>
             if remaining < amountMinor then (Inl (PlainError ''Funding allocation cannot cover finalized spend.''), d)
             else (case find_source (alc_sourceId allocation) d of
                None \<Rightarrow> (Inl (PlainError ''Funding source is missing for finalized spend.''), d)
              | Some source \<Rightarrow>
                 (case bindE (spend_source source amountMinor) (\<lambda>s1.
                       bindE (refreshAllocationAmounts
                         (allocation\<lparr>alc_spentMinor := alc_spentMinor allocation + amountMinor\<rparr>)) (\<lambda>a1.
                       bindE (refreshSourceAmounts now s1) (\<lambda>s2. Inr (s2, exhaust_if_empty now a1)))) of
                    Inl e \<Rightarrow> (Inl e, d)
                  | Inr (s, a) \<Rightarrow> save_source_and_allocation s a True d))))"

definition release_source :: "funding_source \<Rightarrow> int \<Rightarrow> error + funding_source" where
  "release_source source remainingMinor =
     bindE (if src_mode source = M_secured_autopay then
              if src_reservedMinor source < remainingMinor
              then Inl (PlainError ''Secured source reservation cannot be released consistently.'')
              else Inr (source\<lparr>src_reservedMinor := src_reservedMinor source - remainingMinor\<rparr>)
            else Inr source) (\<lambda>s1.
     if src_authorizedMinor s1 < remainingMinor
     then Inl (PlainError ''Funding source authorization cannot be released consistently.'')
     else Inr (s1\<lparr>src_authorizedMinor := src_authorizedMinor s1 - remainingMinor,
                  src_releasedMinor := src_releasedMinor s1 + remainingMinor\<rparr>))"

definition releaseFundingAllocation :: "int \<Rightarrow> string \<Rightarrow> ('a core_db_scheme, int) op" where
  "releaseFundingAllocation now sessionId d =
     (case find_allocation sessionId d of
        None \<Rightarrow> (Inr 0, d)
      | Some allocation \<Rightarrow>
         if alc_state allocation = AL_released \<or> alc_state allocation = AL_exhausted then (Inr 0, d)
         else (case allocationRemainingMinor allocation of
            Inl e \<Rightarrow> (Inl e, d)
          | Inr remainingMinor \<Rightarrow>
             (case find_source (alc_sourceId allocation) d of
                None \<Rightarrow> (Inl (PlainError ''Funding source is missing for pass release.''), d)
              | Some source \<Rightarrow>
                 (case bindE (release_source source remainingMinor) (\<lambda>s1.
                       bindE (refreshAllocationAmounts
                         (allocation\<lparr>alc_releasedMinor := alc_releasedMinor allocation + remainingMinor,
                                     alc_state := AL_released, alc_releasedAt := Some now\<rparr>)) (\<lambda>a1.
                       bindE (refreshSourceAmounts now s1) (\<lambda>s2. Inr (s2, a1)))) of
                    Inl e \<Rightarrow> (Inl e, d)
                  | Inr (s, a) \<Rightarrow> save_source_and_allocation s a remainingMinor d))))"

definition releaseFundingAllocationTransaction :: "int \<Rightarrow> string \<Rightarrow> ('a core_db_scheme, int) op" where
  "releaseFundingAllocationTransaction now sessionId d = transaction (releaseFundingAllocation now sessionId) d"

definition fundingExecutionStatus :: "int \<Rightarrow> string \<Rightarrow> int \<Rightarrow> 'a core_db_scheme \<Rightarrow> string option" where
  "fundingExecutionStatus now sessionId amountMinor d =
     (case find_allocation sessionId d of
        None \<Rightarrow> None
      | Some allocation \<Rightarrow>
         if alc_state allocation \<noteq> AL_active \<or> alc_remainingMinor allocation < amountMinor
         then Some ''FUNDING_ALLOCATION_INSUFFICIENT''
         else (case find_source (alc_sourceId allocation) d of
            None \<Rightarrow> Some ''FUNDING_SOURCE_NOT_FOUND''
          | Some source \<Rightarrow>
             if has_proof (src_failureCode source) then src_failureCode source
             else if src_mode source = M_secured_autopay then
               if \<not> has_proof (src_networkProofId source) then Some ''SECURED_FUNDING_PROOF_REQUIRED''
               else if is_stale (src_staleAt source) now then Some ''SECURED_FUNDING_PROOF_STALE''
               else if src_lockedMinor source < src_reservedMinor source \<or> src_lockedMinor source < amountMinor
                  \<or> src_reservedMinor source < amountMinor then Some ''SECURED_FUNDING_INSUFFICIENT''
               else None
             else if src_balanceObservedAt source = None then Some ''CONNECTED_WALLET_BALANCE_UNVERIFIED''
             else if is_stale (src_staleAt source) now then Some ''CONNECTED_WALLET_BALANCE_STALE''
             else if src_availableMinor source < amountMinor then Some ''CONNECTED_WALLET_LIQUIDITY_INSUFFICIENT''
             else None))"


subsection \<open>The accounting invariant\<close>

definition allocation_ok :: "funding_allocation \<Rightarrow> bool" where
  "allocation_ok a \<longleftrightarrow> 0 \<le> alc_spentMinor a \<and> 0 \<le> alc_releasedMinor a
     \<and> alc_spentMinor a + alc_releasedMinor a \<le> alc_authorizedMinor a
     \<and> alc_remainingMinor a = alc_authorizedMinor a - alc_spentMinor a - alc_releasedMinor a
     \<and> (alc_state a \<noteq> AL_active \<longrightarrow> alc_remainingMinor a = 0)"

definition of_source :: "string \<Rightarrow> funding_allocation \<Rightarrow> bool" where
  "of_source i a \<longleftrightarrow> alc_sourceId a = i"

definition source_ok :: "funding_allocation list \<Rightarrow> funding_source \<Rightarrow> bool" where
  "source_ok as s \<longleftrightarrow>
     src_authorizedMinor s = total (of_source (src_sourceId s)) alc_remainingMinor as
     \<and> src_spentMinor s = total (of_source (src_sourceId s)) alc_spentMinor as
     \<and> src_releasedMinor s = total (of_source (src_sourceId s)) alc_releasedMinor as
     \<and> (src_mode s = M_secured_autopay \<longrightarrow> src_reservedMinor s = src_authorizedMinor s)"

definition funding_inv :: "'a core_db_scheme \<Rightarrow> bool" where
  "funding_inv d \<longleftrightarrow> distinct (map src_sourceId (sources d)) \<and> distinct (map alc_sessionId (allocations d))
     \<and> (\<forall>a \<in> set (allocations d). allocation_ok a \<and> (\<exists>s \<in> set (sources d). src_sourceId s = alc_sourceId a))
     \<and> (\<forall>s \<in> set (sources d). source_ok (allocations d) s)"

lemma funding_invD:
  assumes "funding_inv d"
  shows "find_source i d = Some s \<Longrightarrow> source_ok (allocations d) s \<and> src_sourceId s = i \<and> s \<in> set (sources d)"
    and "find_allocation j d = Some a \<Longrightarrow> allocation_ok a \<and> alc_sessionId a = j \<and> a \<in> set (allocations d)"
  using assms by (auto simp: funding_inv_def find_source_def find_allocation_def dest: find_SomeD)

lemma sources_save_source:
  "sources (save_source s d) = update_first (\<lambda>y. src_sourceId y = src_sourceId s) (\<lambda>_. s) (sources d)"
  by (simp add: save_source_def)

lemma allocations_save_allocation:
  "allocations (save_allocation a d) = update_first (\<lambda>y. alc_sessionId y = alc_sessionId a) (\<lambda>_. a) (allocations d)"
  by (simp add: save_allocation_def)

lemma set_replace:
  "distinct (map key xs) \<Longrightarrow> List.find (\<lambda>y. key y = k) xs = Some x \<Longrightarrow> key x' = k \<Longrightarrow>
    set (update_first (\<lambda>y. key y = k) (\<lambda>_. x') xs) = insert x' (set xs - {x})"
  by (induction xs) (auto split: if_splits simp: image_iff dest: find_SomeD)

lemma keys_replace:
  "key x' = k \<Longrightarrow> map key (update_first (\<lambda>y. key y = k) (\<lambda>_. x') xs) = map key xs"
  by (induction xs) auto

text \<open>
  One source and one of its allocations change together: the invariant stays if the source's
  counters move by the same amounts as the allocation's.
\<close>

lemma pair_update_inv:
  assumes inv: "funding_inv d" and s: "find_source (alc_sourceId a) d = Some s" and a: "find_allocation j d = Some a"
    and ids: "src_sourceId s' = src_sourceId s" "src_mode s' = src_mode s"
      "alc_sessionId a' = alc_sessionId a" "alc_sourceId a' = alc_sourceId a" and ok: "allocation_ok a'"
    and moves: "src_authorizedMinor s' = src_authorizedMinor s + alc_remainingMinor a' - alc_remainingMinor a"
      "src_spentMinor s' = src_spentMinor s + alc_spentMinor a' - alc_spentMinor a"
      "src_releasedMinor s' = src_releasedMinor s + alc_releasedMinor a' - alc_releasedMinor a"
      "src_mode s = M_secured_autopay \<Longrightarrow>
        src_reservedMinor s' = src_reservedMinor s + alc_remainingMinor a' - alc_remainingMinor a"
  shows "funding_inv (save_allocation a' (save_source s' d))"
proof -
  have sd: "distinct (map src_sourceId (sources d))" and ad: "distinct (map alc_sessionId (allocations d))"
    using inv by (simp_all add: funding_inv_def)
  have sf: "List.find (\<lambda>y. src_sourceId y = src_sourceId s') (sources d) = Some s"
    using s funding_invD(1) [OF inv s] ids by (simp add: find_source_def)
  have af: "List.find (\<lambda>y. alc_sessionId y = alc_sessionId a') (allocations d) = Some a"
    using a funding_invD(2) [OF inv a] ids by (simp add: find_allocation_def)
  define ss where "ss = update_first (\<lambda>y. src_sourceId y = src_sourceId s') (\<lambda>_. s') (sources d)"
  have ssd: "map src_sourceId ss = map src_sourceId (sources d)" by (simp add: ss_def keys_replace)
  define as where "as = update_first (\<lambda>y. alc_sessionId y = alc_sessionId a') (\<lambda>_. a') (allocations d)"
  have asd: "map alc_sessionId as = map alc_sessionId (allocations d)" by (simp add: as_def keys_replace)
  have sset: "set ss = insert s' (set (sources d) - {s})" using set_replace [OF sd sf] by (simp add: ss_def)
  have aset: "set as = insert a' (set (allocations d) - {a})" using set_replace [OF ad af] by (simp add: as_def)
  have tot: "total p f as = total p f (allocations d) - (if p a then f a else 0) + (if p a' then f a' else 0)"
    for p and f :: "funding_allocation \<Rightarrow> int"
    using total_update_first [OF af] by (simp add: as_def)
  have sid: "src_sourceId s = alc_sourceId a" using funding_invD(1) [OF inv s] by simp
  have "source_ok as x" if x: "x \<in> set ss" for x
  proof (cases "x = s'")
    case True
    then show ?thesis
      using funding_invD(1) [OF inv s] ids moves sid by (auto simp: source_ok_def tot of_source_def)
  next
    case False
    with x sset have x: "x \<in> set (sources d)" "x \<noteq> s" by auto
    then have "src_sourceId x \<noteq> src_sourceId s"
      using find_unique_key [OF sd x(1)] sf ids by auto
    with x ids sid inv show ?thesis by (auto simp: funding_inv_def source_ok_def tot of_source_def)
  qed
  moreover have "allocation_ok x \<and> (\<exists>y \<in> set ss. src_sourceId y = alc_sourceId x)" if x: "x \<in> set as" for x
  proof -
    have "\<exists>y \<in> set (sources d). src_sourceId y = alc_sourceId x"
      using x aset ids funding_invD [OF inv] s a inv sid by (auto simp: funding_inv_def)
    then have "alc_sourceId x \<in> set (map src_sourceId ss)" unfolding ssd by force
    then have "\<exists>y \<in> set ss. src_sourceId y = alc_sourceId x" by auto
    then show ?thesis using x aset ok inv by (auto simp: funding_inv_def)
  qed
  ultimately show ?thesis
    using sd ad ssd asd
    by (simp add: funding_inv_def sources_save_source allocations_save_allocation flip: ss_def as_def)
qed

text \<open>A source changes without touching its counters, a new source or a new allocation appears.\<close>

lemma source_update_inv:
  assumes inv: "funding_inv d" and s: "s \<in> set (sources d)" and ids: "src_sourceId s' = src_sourceId s"
    and same: "src_mode s' = src_mode s" "src_authorizedMinor s' = src_authorizedMinor s"
      "src_spentMinor s' = src_spentMinor s" "src_releasedMinor s' = src_releasedMinor s"
      "src_reservedMinor s' = src_reservedMinor s"
  shows "funding_inv (save_source s' d)"
proof -
  have sd: "distinct (map src_sourceId (sources d))" using inv by (simp add: funding_inv_def)
  have sf: "List.find (\<lambda>y. src_sourceId y = src_sourceId s') (sources d) = Some s"
    using find_unique_key [OF sd s] ids by simp
  define ss where "ss = update_first (\<lambda>y. src_sourceId y = src_sourceId s') (\<lambda>_. s') (sources d)"
  have ssd: "map src_sourceId ss = map src_sourceId (sources d)" by (simp add: ss_def keys_replace)
  have sset: "set ss = insert s' (set (sources d) - {s})" using set_replace [OF sd sf] by (simp add: ss_def)
  have "src_sourceId ` set ss = src_sourceId ` set (sources d)"
    by (metis ssd list.set_map)
  then have "\<exists>y \<in> set ss. src_sourceId y = alc_sourceId x" if "x \<in> set (allocations d)" for x
    using that inv by (auto simp: funding_inv_def) (metis (no_types, lifting) imageE imageI)
  moreover have "source_ok (allocations d) x" if "x \<in> set ss" for x
    using that sset inv s ids same by (auto simp: funding_inv_def source_ok_def)
  ultimately show ?thesis
    using inv ssd by (simp add: funding_inv_def sources_save_source flip: ss_def)
qed

lemma new_source_inv:
  assumes inv: "funding_inv d" and fresh: "\<forall>x \<in> set (sources d). src_sourceId x \<noteq> src_sourceId s"
    and zero: "src_authorizedMinor s = 0" "src_spentMinor s = 0" "src_releasedMinor s = 0" "src_reservedMinor s = 0"
  shows "funding_inv (d\<lparr>sources := sources d @ [s]\<rparr>)"
proof -
  have "total (of_source (src_sourceId s)) f (allocations d) = 0" for f :: "funding_allocation \<Rightarrow> int"
  proof -
    have "total (of_source (src_sourceId s)) f (allocations d) = total (\<lambda>_. False) f (allocations d)"
      by (rule total_cong) (use inv fresh in \<open>auto simp: funding_inv_def of_source_def\<close>)
    then show ?thesis by (simp add: total_def)
  qed
  with inv fresh zero show ?thesis by (auto simp: funding_inv_def source_ok_def)
qed

lemma new_allocation_inv:
  assumes inv: "funding_inv d" and s: "s \<in> set (sources d)" and ids: "src_sourceId s' = src_sourceId s" "src_mode s' = src_mode s"
    and a: "alc_sourceId a = src_sourceId s" "allocation_ok a" "alc_spentMinor a = 0" "alc_releasedMinor a = 0"
    and fresh: "\<forall>x \<in> set (allocations d). alc_sessionId x \<noteq> alc_sessionId a"
    and moves: "src_authorizedMinor s' = src_authorizedMinor s + alc_remainingMinor a"
      "src_spentMinor s' = src_spentMinor s" "src_releasedMinor s' = src_releasedMinor s"
      "src_mode s = M_secured_autopay \<Longrightarrow> src_reservedMinor s' = src_reservedMinor s + alc_remainingMinor a"
  shows "funding_inv ((save_source s' d)\<lparr>allocations := allocations d @ [a]\<rparr>)"
proof -
  have sd: "distinct (map src_sourceId (sources d))" using inv by (simp add: funding_inv_def)
  have sf: "List.find (\<lambda>y. src_sourceId y = src_sourceId s') (sources d) = Some s"
    using find_unique_key [OF sd s] ids by simp
  define ss where "ss = update_first (\<lambda>y. src_sourceId y = src_sourceId s') (\<lambda>_. s') (sources d)"
  have ssd: "map src_sourceId ss = map src_sourceId (sources d)" by (simp add: ss_def keys_replace)
  have sset: "set ss = insert s' (set (sources d) - {s})" using set_replace [OF sd sf] by (simp add: ss_def)
  have "src_sourceId ` set ss = src_sourceId ` set (sources d)"
    by (metis ssd list.set_map)
  then have ref: "\<exists>y \<in> set ss. src_sourceId y = alc_sourceId x" if "x \<in> set (allocations d @ [a])" for x
    using that inv s a(1) by (auto simp: funding_inv_def) (metis (no_types, lifting) imageE imageI)+
  have "source_ok (allocations d @ [a]) x" if x: "x \<in> set ss" for x
  proof (cases "x = s'")
    case True
    with inv s ids moves a show ?thesis by (auto simp: funding_inv_def source_ok_def of_source_def)
  next
    case False
    with x sset have x: "x \<in> set (sources d)" "x \<noteq> s" by auto
    then have "src_sourceId x \<noteq> src_sourceId s"
      using find_unique_key [OF sd x(1)] sf ids by auto
    with x a(1) inv show ?thesis by (auto simp: funding_inv_def source_ok_def of_source_def)
  qed
  with ref inv a(2) fresh show ?thesis
    using ssd by (auto simp: funding_inv_def sources_save_source simp flip: ss_def)
qed


subsection \<open>Every operation keeps the accounts\<close>

lemma refreshSource_Inr:
  assumes "refreshSourceAmounts now s = Inr s'"
  shows "\<exists>r st. s' = s\<lparr>src_reclaimableMinor := r, src_state := st\<rparr>"
    and "src_mode s = M_secured_autopay \<Longrightarrow> 0 \<le> src_reservedMinor s \<and> src_reservedMinor s \<le> src_lockedMinor s"
  using assms by (auto simp: refreshSourceAmounts_def securedReclaimableMinor_def checkedMinor_def Let_def split: if_splits)

lemma refreshSource_fields:
  assumes "refreshSourceAmounts now s = Inr s'"
  shows "src_sourceId s' = src_sourceId s" "src_mode s' = src_mode s" "src_authorizedMinor s' = src_authorizedMinor s"
    "src_spentMinor s' = src_spentMinor s" "src_releasedMinor s' = src_releasedMinor s"
    "src_reservedMinor s' = src_reservedMinor s" "src_lockedMinor s' = src_lockedMinor s"
    "src_networkProofId s' = src_networkProofId s" "src_staleAt s' = src_staleAt s"
  using refreshSource_Inr(1) [OF assms] by auto

lemma refreshAllocation_Inr:
  assumes "refreshAllocationAmounts a = Inr a'"
  shows "a' = a\<lparr>alc_remainingMinor := alc_authorizedMinor a - alc_spentMinor a - alc_releasedMinor a\<rparr>"
    and "0 \<le> alc_spentMinor a" and "0 \<le> alc_releasedMinor a"
    and "alc_spentMinor a + alc_releasedMinor a \<le> alc_authorizedMinor a"
  using assms
  by (auto simp: refreshAllocationAmounts_def allocationRemainingMinor_def checkedMinor_def Let_def split: if_splits)

lemma refreshAllocation_fields:
  assumes "refreshAllocationAmounts a = Inr a'"
  shows "alc_sessionId a' = alc_sessionId a" "alc_sourceId a' = alc_sourceId a" "alc_state a' = alc_state a"
    "alc_spentMinor a' = alc_spentMinor a" "alc_releasedMinor a' = alc_releasedMinor a"
    "alc_authorizedMinor a' = alc_authorizedMinor a"
    "alc_remainingMinor a' = alc_authorizedMinor a - alc_spentMinor a - alc_releasedMinor a"
  by (simp_all add: refreshAllocation_Inr(1) [OF assms])

lemma allocationRemaining_Inr:
  "allocationRemainingMinor a = Inr r \<Longrightarrow> r = alc_authorizedMinor a - alc_spentMinor a - alc_releasedMinor a \<and> 0 \<le> r"
  by (auto simp: allocationRemainingMinor_def checkedMinor_def split: if_splits)

lemma secured_headroom_Inr:
  assumes "secured_headroom s n now = Inr s'"
  shows "s' = (if src_mode s = M_secured_autopay then s\<lparr>src_reservedMinor := src_reservedMinor s + n\<rparr> else s)"
    and "src_mode s = M_secured_autopay \<Longrightarrow> has_proof (src_networkProofId s) \<and> \<not> is_stale (src_staleAt s) now
          \<and> src_reservedMinor s + n \<le> src_lockedMinor s"
  using assms by (auto simp: secured_headroom_def securedReclaimableMinor_def checkedMinor_def split: if_splits)

lemma spend_source_Inr:
  assumes "spend_source s n = Inr s'"
  shows "src_authorizedMinor s' = src_authorizedMinor s - n" "src_spentMinor s' = src_spentMinor s + n"
    "src_releasedMinor s' = src_releasedMinor s" "src_sourceId s' = src_sourceId s" "src_mode s' = src_mode s"
    "src_mode s = M_secured_autopay \<Longrightarrow> src_reservedMinor s' = src_reservedMinor s - n
       \<and> src_lockedMinor s' = src_lockedMinor s - n \<and> n \<le> src_lockedMinor s"
    "src_mode s \<noteq> M_secured_autopay \<Longrightarrow> src_reservedMinor s' = src_reservedMinor s"
  using assms by (auto simp: spend_source_def split: if_splits)

lemma release_source_Inr:
  assumes "release_source s n = Inr s'"
  shows "src_authorizedMinor s' = src_authorizedMinor s - n" "src_spentMinor s' = src_spentMinor s"
    "src_releasedMinor s' = src_releasedMinor s + n" "src_sourceId s' = src_sourceId s" "src_mode s' = src_mode s"
    "src_lockedMinor s' = src_lockedMinor s"
    "src_mode s = M_secured_autopay \<Longrightarrow> src_reservedMinor s' = src_reservedMinor s - n"
  using assms by (auto simp: release_source_def split: if_splits)

lemmas refresh_fields = refreshSource_fields refreshAllocation_fields

lemma save_pair_Inr:
  "save_source_and_allocation s a v d = (Inr w, d') \<Longrightarrow> w = v \<and> d' = save_allocation a (save_source s d)"
  by (auto simp: save_source_and_allocation_def split: sum.splits)

text \<open>The successful outcomes of spending and releasing, in terms of the stored documents.\<close>

lemma spend_Inr:
  assumes "spendFundingAllocation now j n d = (Inr w, d')"
  obtains (none) "find_allocation j d = None" and "d' = d" and "\<not> w"
    | (spent) a s a1 s1 s2 where "find_allocation j d = Some a" and "find_source (alc_sourceId a) d = Some s"
      and "alc_state a = AL_active" and "n \<le> alc_authorizedMinor a - alc_spentMinor a - alc_releasedMinor a"
      and "spend_source s n = Inr s1" and "refreshSourceAmounts now s1 = Inr s2"
      and "refreshAllocationAmounts (a\<lparr>alc_spentMinor := alc_spentMinor a + n\<rparr>) = Inr a1"
      and "d' = save_allocation (exhaust_if_empty now a1) (save_source s2 d)" and "w"
proof (cases "find_allocation j d")
  case None
  with assms have "d' = d" "\<not> w" by (simp_all add: spendFundingAllocation_def)
  with None show thesis by (rule none)
next
  case (Some a)
  with assms obtain r where r: "allocationRemainingMinor a = Inr r" "n \<le> r" "alc_state a = AL_active"
    by (auto simp: spendFundingAllocation_def split: if_splits sum.splits)
  with assms Some obtain s where s: "find_source (alc_sourceId a) d = Some s"
    by (auto simp: spendFundingAllocation_def split: option.splits)
  with assms Some r obtain s1 a1 s2 where res: "spend_source s n = Inr s1"
      "refreshAllocationAmounts (a\<lparr>alc_spentMinor := alc_spentMinor a + n\<rparr>) = Inr a1"
      "refreshSourceAmounts now s1 = Inr s2"
      "save_source_and_allocation s2 (exhaust_if_empty now a1) True d = (Inr w, d')"
    by (auto simp: spendFundingAllocation_def split: sum.splits)
  show thesis
    by (rule spent [OF Some s r(3) _ res(1,3,2)])
      (use r(2) allocationRemaining_Inr [OF r(1)] save_pair_Inr [OF res(4)] in auto)
qed

lemma release_Inr:
  assumes "releaseFundingAllocation now j d = (Inr w, d')"
  obtains (no_change) "d' = d" and "w = 0" and "\<And>a. find_allocation j d = Some a \<Longrightarrow> alc_state a \<noteq> AL_active"
    | (released) a s s1 a1 s2 where "find_allocation j d = Some a" and "find_source (alc_sourceId a) d = Some s"
      and "alc_state a = AL_active" and "w = alc_authorizedMinor a - alc_spentMinor a - alc_releasedMinor a"
      and "release_source s w = Inr s1" and "refreshSourceAmounts now s1 = Inr s2"
      and "refreshAllocationAmounts (a\<lparr>alc_releasedMinor := alc_releasedMinor a + w,
              alc_state := AL_released, alc_releasedAt := Some now\<rparr>) = Inr a1"
      and "d' = save_allocation a1 (save_source s2 d)"
proof (cases "find_allocation j d")
  case None
  with assms have "d' = d" "w = 0" by (simp_all add: releaseFundingAllocation_def)
  then show thesis by (rule no_change) (simp add: None)
next
  case (Some a)
  show thesis
  proof (cases "alc_state a = AL_active")
    case False
    then have "alc_state a = AL_released \<or> alc_state a = AL_exhausted" by (cases "alc_state a") auto
    with assms Some have "d' = d" "w = 0" by (auto simp: releaseFundingAllocation_def)
    then show thesis by (rule no_change) (use Some False in simp)
  next
    case True
    with assms Some obtain r where r: "allocationRemainingMinor a = Inr r"
      by (auto simp: releaseFundingAllocation_def split: sum.splits)
    with assms Some True obtain s where s: "find_source (alc_sourceId a) d = Some s"
      by (auto simp: releaseFundingAllocation_def split: option.splits)
    with assms Some True r obtain s1 a1 s2 where res: "release_source s r = Inr s1"
        "refreshAllocationAmounts (a\<lparr>alc_releasedMinor := alc_releasedMinor a + r,
              alc_state := AL_released, alc_releasedAt := Some now\<rparr>) = Inr a1"
        "refreshSourceAmounts now s1 = Inr s2" "save_source_and_allocation s2 a1 r d = (Inr w, d')"
      by (auto simp: releaseFundingAllocation_def split: sum.splits)
    note w = save_pair_Inr [OF res(4)]
    show thesis
      by (rule released [OF Some s True _ _ res(3)]) (use res w allocationRemaining_Inr [OF r] in auto)
  qed
qed


lemma spend_keeps_inv:
  assumes "spendFundingAllocation now j n d = (Inr w, d')" and inv: "funding_inv d"
  shows "funding_inv d'"
  using assms(1)
proof (cases rule: spend_Inr)
  case none
  with inv show ?thesis by simp
next
  case (spent a s a1 s1 s2)
  note f = refreshSource_fields [OF spent(6)] refreshAllocation_fields [OF spent(7)]
  note ok = funding_invD(2) [OF inv spent(1)]
  show ?thesis
    unfolding spent(8)
    by (rule pair_update_inv [OF inv spent(2,1)])
      (use f ok spend_source_Inr [OF spent(5)] refreshAllocation_Inr(2-4) [OF spent(7)] in
        \<open>auto simp: exhaust_if_empty_def allocation_ok_def spent(3)\<close>)
qed

lemma release_keeps_inv:
  assumes "releaseFundingAllocation now j d = (Inr w, d')" and inv: "funding_inv d"
  shows "funding_inv d'"
  using assms(1)
proof (cases rule: release_Inr)
  case no_change
  with inv show ?thesis by simp
next
  case (released a s s1 a1 s2)
  note f = refreshSource_fields [OF released(6)] refreshAllocation_fields [OF released(7)]
  note ok = funding_invD(2) [OF inv released(1)]
  show ?thesis
    unfolding released(8)
    by (rule pair_update_inv [OF inv released(2,1)])
      (use f ok release_source_Inr [OF released(5)] refreshAllocation_Inr(2-4) [OF released(7)] released(4) in
        \<open>auto simp: allocation_ok_def released(3)\<close>)
qed

lemma topUp_Inr:
  assumes "topUpFundingAllocation now j n d = (Inr w, d')"
  obtains (none) "d' = d" and "List.find (\<lambda>a. alc_sessionId a = j \<and> alc_state a = AL_active) (allocations d) = None"
    | (topped) a s s1 a2 s3 where "List.find (\<lambda>a. alc_sessionId a = j \<and> alc_state a = AL_active) (allocations d) = Some a"
      and "find_source (alc_sourceId a) d = Some s" and "secured_headroom s n now = Inr s1"
      and "refreshAllocationAmounts (a\<lparr>alc_authorizedMinor := alc_authorizedMinor a + n\<rparr>) = Inr a2"
      and "refreshSourceAmounts now (s1\<lparr>src_authorizedMinor := src_authorizedMinor s1 + n\<rparr>) = Inr s3"
      and "d' = save_allocation a2 (save_source s3 d)"
proof (cases "List.find (\<lambda>a. alc_sessionId a = j \<and> alc_state a = AL_active) (allocations d)")
  case None
  with assms have "d' = d" by (simp add: topUpFundingAllocation_def)
  then show thesis by (rule none [OF _ None])
next
  case (Some a)
  with assms obtain s where s: "find_source (alc_sourceId a) d = Some s"
    by (auto simp: topUpFundingAllocation_def split: option.splits)
  with assms Some obtain s1 a2 s3 where res: "secured_headroom s n now = Inr s1"
      "refreshAllocationAmounts (a\<lparr>alc_authorizedMinor := alc_authorizedMinor a + n\<rparr>) = Inr a2"
      "refreshSourceAmounts now (s1\<lparr>src_authorizedMinor := src_authorizedMinor s1 + n\<rparr>) = Inr s3"
      "save_source_and_allocation s3 a2 () d = (Inr w, d')"
    by (auto simp: topUpFundingAllocation_def Let_def split: sum.splits)
  show thesis by (rule topped [OF Some s res(1-3)]) (use save_pair_Inr [OF res(4)] in simp)
qed

lemma topUp_keeps_inv:
  assumes "topUpFundingAllocation now j n d = (Inr w, d')" and inv: "funding_inv d"
  shows "funding_inv d'"
  using assms(1)
proof (cases rule: topUp_Inr)
  case none
  with inv show ?thesis by simp
next
  case (topped a s s1 a2 s3)
  from find_SomeD [OF topped(1)] have a: "a \<in> set (allocations d)" "alc_sessionId a = j" "alc_state a = AL_active"
    by simp_all
  have found: "find_allocation j d = Some a"
    using find_unique_key [of alc_sessionId "allocations d" a] a inv by (simp add: find_allocation_def funding_inv_def)
  note f = refreshSource_fields [OF topped(5)] refreshAllocation_fields [OF topped(4)]
  show ?thesis
    unfolding topped(6)
    by (rule pair_update_inv [OF inv topped(2) found])
      (use f funding_invD(2) [OF inv found] secured_headroom_Inr(1) [OF topped(3)] refreshAllocation_Inr(2-4) [OF topped(4)] in
        \<open>auto simp: allocation_ok_def a(3)\<close>)
qed

lemma allocate_Inr:
  assumes "allocateFundingForSession i now sel owner j n d = (Inr w, d')"
  obtains s s1 s2 where "s \<in> set (sources d)" and "src_sourceId s = sel_sourceId sel"
    and "secured_headroom s n now = Inr s1"
    and "refreshSourceAmounts now (s1\<lparr>src_authorizedMinor := src_authorizedMinor s1 + n\<rparr>) = Inr s2"
    and "0 \<le> n" and "\<forall>x \<in> set (allocations d). alc_sessionId x \<noteq> j"
    and "d' = (save_source s2 d)\<lparr>allocations := allocations d @ [new_allocation i now owner j n s2]\<rparr>"
proof -
  from assms obtain s where s: "List.find (\<lambda>s. src_sourceId s = sel_sourceId sel \<and> src_ownerWalletId s = owner
      \<and> src_mode s = sel_mode sel) (sources d) = Some s"
    by (auto simp: allocateFundingForSession_def split: option.splits)
  with assms obtain s1 s2 where res: "secured_headroom s n now = Inr s1"
      "refreshSourceAmounts now (s1\<lparr>src_authorizedMinor := src_authorizedMinor s1 + n\<rparr>) = Inr s2"
    by (auto simp: allocateFundingForSession_def split: sum.splits)
  have val: "validateSecuredProof s2 = Inr ()"
    using assms s res by (cases "validateSecuredProof s2") (auto simp: allocateFundingForSession_def)
  define d1 where "d1 = save_source s2 d"
  define a where "a = new_allocation i now owner j n s2"
  have rest: "legacyAtomicMirror [n, 0] = Inr ()" "insert_row (\<lambda>x. alc_sessionId x = j \<or> alc_allocationId x = i) a
      (allocations d1) = Some (allocations d')" "d' = d1\<lparr>allocations := allocations d'\<rparr>"
    using assms s res val
    by (auto simp: allocateFundingForSession_def Let_def a_def d1_def split: sum.splits option.splits)
  have "0 \<le> n" using rest(1) by (auto simp: legacyAtomicMirror_def legacy_Inr split: sum.splits)
  with rest find_SomeD [OF s] res show thesis
    by (intro that [of s s1 s2]) (auto simp: insert_row_Some a_def d1_def)
qed

lemma allocate_keeps_inv:
  assumes "allocateFundingForSession i now sel owner j n d = (Inr w, d')" and inv: "funding_inv d"
  shows "funding_inv d'"
  using assms(1)
proof (cases rule: allocate_Inr)
  case (1 s s1 s2)
  note f = refreshSource_fields [OF 1(4)] secured_headroom_Inr(1) [OF 1(3)]
  show ?thesis
    unfolding 1(7)
    by (rule new_allocation_inv [OF inv 1(1)])
      (use f 1(5,6) in \<open>auto simp: new_allocation_def allocation_ok_def\<close>)
qed

lemma ensure_keeps_inv:
  assumes "ensureConnectedWalletSource sha net now w addr rl ast d = (r, d')" and inv: "funding_inv d"
  shows "funding_inv d' \<and> allocations d' = allocations d \<and> (\<forall>s. r = Inr s \<longrightarrow> s \<in> set (sources d'))"
proof -
  have new: "funding_inv (d\<lparr>sources := sources d @ [blank_source i w addr rail net a now]\<rparr>)"
    if "\<forall>x \<in> set (sources d). \<not> source_clash (blank_source i w addr rail net a now) x" for i rail a
    by (rule new_source_inv [OF inv]) (use that in \<open>auto simp: blank_source_def source_clash_def\<close>)
  show ?thesis
    using assms new
    by (auto simp: ensureConnectedWalletSource_def Let_def insert_row_Some find_source_def
        split: sum.splits option.splits dest: find_SomeD)
qed

lemma connected_balance_keeps_inv:
  assumes "recordConnectedWalletBalance sha net now w addr n obs d = (r, d')" and inv: "funding_inv d"
  shows "funding_inv d'"
proof -
  obtain r1 d1 where e: "ensureConnectedWalletSource sha net now w addr None None d = (r1, d1)" by fastforce
  note d1 = ensure_keeps_inv [OF e inv]
  show ?thesis
  proof (cases r1)
    case (Inl x)
    with assms e d1 show ?thesis by (auto simp: recordConnectedWalletBalance_def)
  next
    case (Inr s)
    define s0 where "s0 = s\<lparr>src_availableMinor := n, src_guarantee := G_balance_observed,
                src_balanceObservedAt := Some obs, src_staleAt := Some (obs + SOURCE_FRESHNESS_MS),
                src_failureCode := None\<rparr>"
    have "d' = d1 \<or> (\<exists>s'. refreshSourceAmounts now s0 = Inr s' \<and> d' = save_source s' d1)"
      using assms(1) e Inr by (auto simp: recordConnectedWalletBalance_def Let_def s0_def split: sum.splits)
    moreover have "funding_inv (save_source s' d1)" if "refreshSourceAmounts now s0 = Inr s'" for s'
      by (rule source_update_inv [of d1 s])
        (use that d1 Inr refreshSource_fields [OF that] in \<open>auto simp: s0_def\<close>)
    ultimately show ?thesis using d1 by auto
  qed
qed


lemma secured_proof_keeps_inv:
  assumes "recordSecuredFundingProof sha net now w ref n proofId proofType obs legacy d = (r, d')" and inv: "funding_inv d"
  shows "funding_inv d'"
proof (cases "find_source (securedFundingSourceId sha w ref) d")
  case None
  define base where "base = blank_source (securedFundingSourceId sha w ref) w ref ''ckb_onchain'' net"
  have new: "funding_inv (d\<lparr>sources := sources d @ [s]\<rparr>)"
    if "\<forall>x \<in> set (sources d). \<not> source_clash s x" "src_authorizedMinor s = 0" "src_spentMinor s = 0"
      "src_releasedMinor s = 0" "src_reservedMinor s = 0" for s
    by (rule new_source_inv [OF inv]) (use that in \<open>auto simp: source_clash_def\<close>)
  have fields: "src_authorizedMinor (base a now) = 0" "src_spentMinor (base a now) = 0"
      "src_releasedMinor (base a now) = 0" "src_reservedMinor (base a now) = 0" for a
    by (simp_all add: base_def blank_source_def)
  from None assms(1) inv show ?thesis
    unfolding recordSecuredFundingProof_def Let_def base_def [symmetric]
    by (auto simp: insert_row_Some fields intro!: new split: sum.splits option.splits)
next
  case (Some source)
  define s0 where "s0 = source\<lparr>src_lockedMinor := src_lockedMinor source + n,
                 src_availableMinor := src_lockedMinor source + n,
                 src_networkProofId := Some proofId, src_networkProofType := Some proofType,
                 src_proofObservedAt := Some obs, src_balanceObservedAt := Some obs,
                 src_staleAt := Some (obs + SOURCE_FRESHNESS_MS), src_failureCode := None\<rparr>"
  have "d' = d \<or> (\<exists>s'. refreshSourceAmounts now s0 = Inr s' \<and> d' = save_source s' d)"
    using assms(1) Some
    by (auto simp: recordSecuredFundingProof_def Let_def s0_def [symmetric] split: sum.splits)
  moreover have "funding_inv (save_source s' d)" if "refreshSourceAmounts now s0 = Inr s'" for s'
    by (rule source_update_inv [of d source])
      (use that inv funding_invD(1) [OF inv Some] refreshSource_fields [OF that] in \<open>auto simp: s0_def\<close>)
  ultimately show ?thesis using inv by auto
qed

lemma secured_balance_keeps_inv:
  assumes "recordSecuredFundingBalance now w ref n obs d = (r, d')" and inv: "funding_inv d"
  shows "funding_inv d'"
proof (cases "List.find (\<lambda>s. src_ownerWalletId s = w \<and> src_mode s = M_secured_autopay
              \<and> src_sourceReference s = ref) (sources d)")
  case None
  with assms show ?thesis by (simp add: recordSecuredFundingBalance_def)
next
  case (Some source)
  define s0 where "s0 = source\<lparr>src_lockedMinor := n, src_availableMinor := n, src_balanceObservedAt := Some obs,
     src_staleAt := Some (obs + SOURCE_FRESHNESS_MS)\<rparr>"
  have "d' = d \<or> (\<exists>s'. d' = save_source s' d \<and>
      (s' = s0\<lparr>src_reclaimableMinor := 0, src_state := F_insufficient,
               src_failureCode := Some ''SECURED_FUNDING_AGGREGATE_INSUFFICIENT''\<rparr>
       \<or> refreshSourceAmounts now (s0\<lparr>src_failureCode := None\<rparr>) = Inr s'))"
    using assms(1) Some
    by (auto simp: recordSecuredFundingBalance_def Let_def s0_def [symmetric] split: sum.splits if_splits)
  moreover have src: "source \<in> set (sources d)" using find_SomeD [OF Some] by simp
  moreover have "funding_inv (save_source s' d)"
    if "refreshSourceAmounts now (s0\<lparr>src_failureCode := None\<rparr>) = Inr s'" for s'
    by (rule source_update_inv [OF inv src]) (use refreshSource_fields [OF that] in \<open>auto simp: s0_def\<close>)
  moreover have "funding_inv (save_source (s0\<lparr>src_reclaimableMinor := 0, src_state := F_insufficient,
               src_failureCode := Some c\<rparr>) d)" for c
    by (rule source_update_inv [OF inv src]) (simp_all add: s0_def)
  ultimately show ?thesis using inv by auto
qed

subsection \<open>Histories of the funding service\<close>

text \<open>
  One call of the service. Allocation, top-up, spend and release run inside a MongoDB transaction of
  their caller, so a failing call leaves nothing; the recordings write directly.
\<close>

inductive funding_step :: "(string \<Rightarrow> string) \<Rightarrow> string \<Rightarrow> 'a core_db_scheme \<Rightarrow> 'a core_db_scheme \<Rightarrow> bool"
  for sha network where
    ensure: "ensureConnectedWalletSource sha network now w addr rl ast d = (r, d') \<Longrightarrow> funding_step sha network d d'"
  | connected: "recordConnectedWalletBalance sha network now w addr n obs d = (r, d') \<Longrightarrow> funding_step sha network d d'"
  | proof_seen: "transaction (recordSecuredFundingProof sha network now w ref n p t obs legacy) d = (r', d') \<Longrightarrow>
      funding_step sha network d d'"
  | balance_seen: "recordSecuredFundingBalance now w ref n obs d = (r, d') \<Longrightarrow> funding_step sha network d d'"
  | allocated: "transaction (allocateFundingForSession i now sel w j n) d = (r, d') \<Longrightarrow> funding_step sha network d d'"
  | topped_up: "transaction (topUpFundingAllocation now j n) d = (r, d') \<Longrightarrow> funding_step sha network d d'"
  | spent: "transaction (spendFundingAllocation now j n) d = (r'', d') \<Longrightarrow> funding_step sha network d d'"
  | released: "releaseFundingAllocationTransaction now j d = (r3, d') \<Longrightarrow> funding_step sha network d d'"

inductive funding_history :: "(string \<Rightarrow> string) \<Rightarrow> string \<Rightarrow> 'a core_db_scheme \<Rightarrow> bool" for sha network where
  start: "sources d = [] \<Longrightarrow> allocations d = [] \<Longrightarrow> funding_history sha network d"
| call: "funding_history sha network d \<Longrightarrow> funding_step sha network d d' \<Longrightarrow> funding_history sha network d'"

lemma transaction_keeps_inv:
  assumes "transaction f d = (r, d')" and "funding_inv d" and "\<And>v d'. f d = (Inr v, d') \<Longrightarrow> funding_inv d'"
  shows "funding_inv d'"
  using assms(1) by (cases rule: transaction_cases) (use assms(2,3) in auto)

lemma funding_step_inv: "funding_step sha network d d' \<Longrightarrow> funding_inv d \<Longrightarrow> funding_inv d'"
proof (induction rule: funding_step.induct)
  case (ensure now w addr rl ast d r d')
  then show ?case using ensure_keeps_inv by blast
next
  case (proof_seen now w ref n p t obs legacy d r' d')
  from proof_seen.hyps proof_seen.prems show ?case by (rule transaction_keeps_inv) (rule secured_proof_keeps_inv [OF _ proof_seen.prems])
next
  case (allocated i now sel w j n d r d')
  from allocated.hyps allocated.prems show ?case by (rule transaction_keeps_inv) (rule allocate_keeps_inv [OF _ allocated.prems])
next
  case (topped_up now j n d r d')
  from topped_up.hyps topped_up.prems show ?case by (rule transaction_keeps_inv) (rule topUp_keeps_inv [OF _ topped_up.prems])
next
  case (spent now j n d r'' d')
  from spent.hyps spent.prems show ?case by (rule transaction_keeps_inv) (rule spend_keeps_inv [OF _ spent.prems])
next
  case (released now j d r3 d')
  from released.hyps [unfolded releaseFundingAllocationTransaction_def] released.prems
  show ?case by (rule transaction_keeps_inv) (rule release_keeps_inv [OF _ released.prems])
qed (use connected_balance_keeps_inv secured_balance_keeps_inv in blast)+

lemma funding_history_inv: "funding_history sha network d \<Longrightarrow> funding_inv d"
  by (induction rule: funding_history.induct) (use funding_step_inv in \<open>auto simp: funding_inv_def\<close>)

lemma total_add: "total p (\<lambda>x. f x + g x) xs = total p f xs + (total p g xs :: int)"
  by (induction xs) auto

text \<open>
  Property C2: the funding accounts balance. After any sequence of calls, every allocation has spent and
  released at most what was authorized and keeps exactly the rest, a closed allocation keeps
  nothing; every source's authorized, spent and released amounts are the sums over its allocations,
  together they are all that was ever authorized from it, and a secured source has reserved exactly
  what its allocations still hold.
\<close>

theorem funding_accounts_balance:
  assumes "funding_history sha network d"
  shows "(\<forall>a \<in> set (allocations d). 0 \<le> alc_spentMinor a \<and> 0 \<le> alc_releasedMinor a
      \<and> alc_spentMinor a + alc_releasedMinor a + alc_remainingMinor a = alc_authorizedMinor a
      \<and> 0 \<le> alc_remainingMinor a \<and> (alc_state a \<noteq> AL_active \<longrightarrow> alc_remainingMinor a = 0)
      \<and> (\<exists>s \<in> set (sources d). src_sourceId s = alc_sourceId a))
    \<and> (\<forall>s \<in> set (sources d).
      src_authorizedMinor s + src_spentMinor s + src_releasedMinor s
        = total (of_source (src_sourceId s)) alc_authorizedMinor (allocations d)
      \<and> src_spentMinor s = total (of_source (src_sourceId s)) alc_spentMinor (allocations d)
      \<and> src_authorizedMinor s = total (of_source (src_sourceId s)) alc_remainingMinor (allocations d)
      \<and> (src_mode s = M_secured_autopay \<longrightarrow> src_reservedMinor s = src_authorizedMinor s))"
proof -
  note inv = funding_history_inv [OF assms]
  have "src_authorizedMinor s + src_spentMinor s + src_releasedMinor s
        = total (of_source (src_sourceId s)) alc_authorizedMinor (allocations d)" if "s \<in> set (sources d)" for s
  proof -
    have "total (of_source (src_sourceId s)) alc_authorizedMinor (allocations d)
        = total (of_source (src_sourceId s)) (\<lambda>a. alc_remainingMinor a + alc_spentMinor a + alc_releasedMinor a) (allocations d)"
      by (rule total_cong) (use inv in \<open>auto simp: funding_inv_def allocation_ok_def\<close>)
    then show ?thesis using that inv by (simp add: total_add funding_inv_def source_ok_def)
  qed
  with inv show ?thesis by (auto simp: funding_inv_def allocation_ok_def source_ok_def)
qed


text \<open>A concrete history: 100 units proved, 60 allocated, 25 spent, the rest released.\<close>

definition sample_source :: "int \<Rightarrow> int \<Rightarrow> int \<Rightarrow> int \<Rightarrow> funding_source" where
  "sample_source locked held spent returned =
     (blank_source ''fsrc_secured:w:ref'' ''w'' ''ref'' ''ckb_onchain'' ''net'' ''ckb:ckb'' 0)
       \<lparr>src_mode := M_secured_autopay, src_sourceKind := K_network_contract, src_connectorId := Some ''fiber-rpc'',
        src_guarantee := G_network_locked_operator_controlled, src_riskLabel := FR_unaudited_operator_contract,
        src_state := F_available, src_availableMinor := locked, src_lockedMinor := locked,
        src_authorizedMinor := held, src_reservedMinor := held, src_spentMinor := spent,
        src_releasedMinor := returned, src_reclaimableMinor := locked - held,
        src_networkProofId := Some ''p'', src_networkProofType := Some ''t'', src_proofObservedAt := Some 0,
        src_balanceObservedAt := Some 0, src_staleAt := Some 300000\<rparr>"

definition sample_selection :: funding_selection where
  "sample_selection = source_selection 0 (sample_source 100 0 0 0)"

definition sample_allocation :: "int \<Rightarrow> int \<Rightarrow> funding_allocation" where
  "sample_allocation spent returned =
     (new_allocation ''al'' 0 ''w'' ''pass'' 60 (sample_source 100 60 0 0))
       \<lparr>alc_spentMinor := spent, alc_releasedMinor := returned, alc_remainingMinor := 60 - spent - returned\<rparr>"

definition sample_funding :: "funding_source list \<Rightarrow> funding_allocation list \<Rightarrow> core_db" where
  "sample_funding ss as = empty_db\<lparr>sources := ss, allocations := as\<rparr>"

lemmas sample_funding_simps = sample_source_def sample_selection_def sample_allocation_def sample_funding_def
  empty_db_def blank_source_def new_allocation_def find_source_def find_allocation_def save_source_def
  save_allocation_def save_source_and_allocation_def refreshSourceAmounts_def refreshAllocationAmounts_def
  securedReclaimableMinor_def allocationRemainingMinor_def checkedMinor_def
  fundingSourceState_def is_stale_def has_proof_def validateSecuredProof_def validateAllocation_def
  isSafeInteger_def MAX_SAFE_INTEGER_def SOURCE_FRESHNESS_MS_def Let_def

lemma legacyAtomicMirror_iff:
  "legacyAtomicMirror vs = Inr u \<longleftrightarrow> (\<forall>v \<in> set vs. 0 \<le> v \<and> v \<le> MAX_SAFE_INTEGER)"
proof -
  have "(\<exists>as. legacyAll vs = Inr as) \<longleftrightarrow> (\<forall>v \<in> set vs. 0 \<le> v \<and> v \<le> MAX_SAFE_INTEGER)"
  proof (induction vs)
    case (Cons v vs)
    show ?case
    proof (cases "legacyMinorToAtomicAmount v")
      case (Inl e)
      then have "\<not> (0 \<le> v \<and> v \<le> MAX_SAFE_INTEGER)" using legacy_Inr [of v] by auto
      with Inl show ?thesis by auto
    next
      case (Inr t)
      with Cons legacy_Inr [of v t] show ?thesis by (auto split: sum.splits)
    qed
  qed simp
  then show ?thesis by (auto simp: legacyAtomicMirror_def)
qed

lemma legacyAtomicMirror_ok:
  "\<forall>v \<in> set vs. 0 \<le> v \<and> v \<le> MAX_SAFE_INTEGER \<Longrightarrow> legacyAtomicMirror vs = Inr ()"
  by (simp add: legacyAtomicMirror_iff)

lemma sample_calls:
  "recordSecuredFundingProof (\<lambda>s. s) ''net'' 0 ''w'' ''ref'' 100 ''p'' ''t'' 0 False (sample_funding [] [])
    = (Inr ''fsrc_secured:w:ref'', sample_funding [sample_source 100 0 0 0] [])"
  "allocateFundingForSession ''al'' 0 sample_selection ''w'' ''pass'' 60 (sample_funding [sample_source 100 0 0 0] [])
    = (Inr (), sample_funding [sample_source 100 60 0 0] [sample_allocation 0 0])"
  "spendFundingAllocation 0 ''pass'' 25 (sample_funding [sample_source 100 60 0 0] [sample_allocation 0 0])
    = (Inr True, sample_funding [sample_source 75 35 25 0] [sample_allocation 25 0])"
  by (simp_all add: recordSecuredFundingProof_def allocateFundingForSession_def spendFundingAllocation_def
      securedFundingSourceId_def stableId_def asset_ckb legacyAtomicMirror_ok secured_headroom_def
      source_selection_def spend_source_def exhaust_if_empty_def insert_row_def sample_funding_simps)

lemma sample_history: "funding_history (\<lambda>s. s) ''net'' (sample_funding [sample_source 75 35 25 0] [sample_allocation 25 0])"
proof -
  have h0: "funding_history (\<lambda>s. s) ''net'' (sample_funding [] [])"
    by (rule funding_history.start) (simp_all add: sample_funding_def empty_db_def)
  have h1: "funding_history (\<lambda>s. s) ''net'' (sample_funding [sample_source 100 0 0 0] [])"
    by (rule funding_history.call [OF h0], rule funding_step.proof_seen, rule transaction_Inr, rule sample_calls(1))
  have h2: "funding_history (\<lambda>s. s) ''net'' (sample_funding [sample_source 100 60 0 0] [sample_allocation 0 0])"
    by (rule funding_history.call [OF h1], rule funding_step.allocated, rule transaction_Inr, rule sample_calls(2))
  show ?thesis
    by (rule funding_history.call [OF h2], rule funding_step.spent, rule transaction_Inr, rule sample_calls(3))
qed

theorem funding_accounts_balance_witness:
  "src_authorizedMinor (sample_source 75 35 25 0) + src_spentMinor (sample_source 75 35 25 0)
      + src_releasedMinor (sample_source 75 35 25 0)
    = total (of_source ''fsrc_secured:w:ref'') alc_authorizedMinor [sample_allocation 25 0]
    \<and> alc_remainingMinor (sample_allocation 25 0) = 35"
  using funding_accounts_balance [OF sample_history] by (simp add: sample_funding_simps of_source_def)

lemma find_replace:
  "List.find (\<lambda>y. key y = k) xs = Some x \<Longrightarrow> key x' = k \<Longrightarrow>
    List.find (\<lambda>y. key y = k) (update_first (\<lambda>y. key y = k) (\<lambda>_. x') xs) = Some x'"
  by (induction xs) (auto split: if_splits)

lemma find_saved_source:
  "find_source (src_sourceId s) d = Some s0 \<Longrightarrow> find_source (src_sourceId s) (save_source s d) = Some s"
  unfolding find_source_def save_source_def by (simp add: find_replace)

lemma find_source_frame [simp]: "find_source i (save_allocation a d) = find_source i d"
  "find_source i (d\<lparr>allocations := as\<rparr>) = find_source i d"
  by (simp_all add: find_source_def)

lemma find_saved_allocation:
  "find_allocation (alc_sessionId a) d = Some a0 \<Longrightarrow>
    find_allocation (alc_sessionId a) (save_allocation a (save_source s d)) = Some a"
  unfolding find_allocation_def save_allocation_def by (simp add: find_replace)

lemma refreshed_headroom:
  assumes "secured_headroom s0 n now = Inr s1"
    and "refreshSourceAmounts now (s1\<lparr>src_authorizedMinor := v\<rparr>) = Inr s2"
  shows "src_sourceId s2 = src_sourceId s0 \<and> (src_mode s2 = M_secured_autopay \<longrightarrow>
    src_reservedMinor s2 \<le> src_lockedMinor s2 \<and> has_proof (src_networkProofId s2) \<and> \<not> is_stale (src_staleAt s2) now)"
  using secured_headroom_Inr [OF assms(1)] refreshSource_Inr(2) [OF assms(2)] refreshSource_fields [OF assms(2)]
  by (auto split: if_splits)

text \<open>
  Property C6: secured funds are never allocated twice. A pass gets an allocation or a top-up from a
  secured source only with a network proof that is not stale, and afterwards everything the source's
  passes still hold is covered by the funds locked on the network.
\<close>

theorem secured_allocation_backed:
  assumes "funding_inv d"
    and "allocateFundingForSession i now sel owner j n d = (Inr (), d') \<or> topUpFundingAllocation now j n d = (Inr (), d')"
    and "find_allocation j d' = Some a" and "alc_state a = AL_active"
    and "find_source (alc_sourceId a) d' = Some s" and "src_mode s = M_secured_autopay"
  shows "total (of_source (src_sourceId s)) alc_remainingMinor (allocations d') \<le> src_lockedMinor s
    \<and> has_proof (src_networkProofId s) \<and> \<not> is_stale (src_staleAt s) now"
proof -
  have inv': "funding_inv d'"
    using assms(2) allocate_keeps_inv [OF _ assms(1)] topUp_keeps_inv [OF _ assms(1)] by blast
  have "src_reservedMinor s \<le> src_lockedMinor s \<and> has_proof (src_networkProofId s) \<and> \<not> is_stale (src_staleAt s) now"
    using assms(2)
  proof
    assume "allocateFundingForSession i now sel owner j n d = (Inr (), d')"
    then show ?thesis
    proof (cases rule: allocate_Inr)
      case (1 s0 s1 s2)
      note r = refreshed_headroom [OF 1(3,4)]
      have sd: "distinct (map src_sourceId (sources d))" using assms(1) by (simp add: funding_inv_def)
      have fresh: "List.find (\<lambda>x. alc_sessionId x = j) (allocations d) = None"
        using 1(6) by (auto simp: find_None_iff)
      have "a = new_allocation i now owner j n s2"
        using assms(3) unfolding 1(7) find_allocation_def
        by (simp add: find_append_new fresh) (simp add: new_allocation_def split: if_splits)
      then have a: "alc_sourceId a = src_sourceId s2" by (simp add: new_allocation_def)
      have "find_source (src_sourceId s2) d = Some s0"
        unfolding find_source_def using find_unique_key [OF sd 1(1)] r by simp
      then have "s = s2"
        using assms(5) find_saved_source unfolding 1(7) a by force
      with r assms(6) show ?thesis by simp
    qed
  next
    assume "topUpFundingAllocation now j n d = (Inr (), d')"
    then show ?thesis
    proof (cases rule: topUp_Inr)
      case none
      have "a \<in> set (allocations d)" "alc_sessionId a = j"
        using funding_invD(2) [OF inv' assms(3)] none(1) by simp_all
      with find_NoneD [OF none(2)] assms(4) show ?thesis by blast
    next
      case (topped a0 s0 s1 a2 s3)
      note r = refreshed_headroom [OF topped(3,5)]
      note f = refreshAllocation_fields [OF topped(4)]
      have ad: "distinct (map alc_sessionId (allocations d))" using assms(1) by (simp add: funding_inv_def)
      have a0: "a0 \<in> set (allocations d)" "alc_sessionId a0 = j" using find_SomeD [OF topped(1)] by simp_all
      then have "find_allocation j d = Some a0"
        using find_unique_key [OF ad a0(1)] by (simp add: find_allocation_def)
      then have "a = a2"
        using find_saved_allocation [of a2 d a0 s3] assms(3) f a0 unfolding topped(6) by simp
      moreover have "src_sourceId s0 = alc_sourceId a0" using funding_invD(1) [OF assms(1) topped(2)] by simp
      ultimately have "s = s3"
        using assms(5) find_saved_source [of s3 d s0] topped(2) r f unfolding topped(6) by simp
      with r assms(6) show ?thesis by simp
    qed
  qed
  with inv' funding_invD(1) [OF inv' assms(5)] assms(6) show ?thesis by (auto simp: source_ok_def)
qed


theorem secured_allocation_backed_witness:
  "total (of_source ''fsrc_secured:w:ref'') alc_remainingMinor [sample_allocation 0 0] \<le> 100"
proof -
  have "funding_inv (sample_funding [sample_source 100 0 0 0] [])"
    by (simp add: funding_inv_def source_ok_def sample_funding_simps)
  from secured_allocation_backed [OF this disjI1 [OF sample_calls(2)], of "sample_allocation 0 0" "sample_source 100 60 0 0"]
  show ?thesis by (simp add: sample_funding_simps)
qed

text \<open>
  Releasing is final and idempotent. A release returns exactly what the allocation still
  held; afterwards the allocation of the pass holds nothing and is closed, and releasing it again,
  at any later time, returns 0 and changes nothing.
\<close>

theorem release_idempotent:
  assumes "funding_inv d" and "releaseFundingAllocationTransaction now j d = (Inr n, d')"
  shows "releaseFundingAllocationTransaction later j d' = (Inr 0, d')
    \<and> n = (case find_allocation j d of None \<Rightarrow> 0 | Some a \<Rightarrow> alc_remainingMinor a)
    \<and> (\<forall>a. find_allocation j d' = Some a \<longrightarrow> alc_remainingMinor a = 0 \<and> alc_state a \<noteq> AL_active)"
proof -
  from assms(2) have rel: "releaseFundingAllocation now j d = (Inr n, d')"
    by (simp add: releaseFundingAllocationTransaction_def transaction_eq_Inr)
  note inv' = release_keeps_inv [OF rel assms(1)]
  have closed: "alc_state a \<noteq> AL_active" if "find_allocation j d' = Some a" for a
    using rel
  proof (cases rule: release_Inr)
    case no_change
    with that show ?thesis by simp
  next
    case (released a0 s s1 a1 s2)
    note f = refreshAllocation_fields [OF released(7)]
    have "alc_sessionId a0 = j" using funding_invD(2) [OF assms(1) released(1)] by simp
    then have "a = a1"
      using that find_saved_allocation [of a1 d a0 s2] released(1) f unfolding released(8) by simp
    with f show ?thesis by simp
  qed
  have "releaseFundingAllocation later j d' = (Inr 0, d')"
  proof (cases "find_allocation j d'")
    case (Some a)
    with closed [OF Some] show ?thesis
      by (cases "alc_state a") (simp_all add: releaseFundingAllocation_def)
  qed (simp add: releaseFundingAllocation_def)
  moreover have "n = (case find_allocation j d of None \<Rightarrow> 0 | Some a \<Rightarrow> alc_remainingMinor a)"
    using rel
  proof (cases rule: release_Inr)
    case no_change
    then show ?thesis
    proof (cases "find_allocation j d")
      case (Some a)
      with no_change(2) no_change(3) [OF Some] funding_invD(2) [OF assms(1) Some] show ?thesis by (simp add: allocation_ok_def)
    qed simp
  next
    case (released a0 s s1 a1 s2)
    then show ?thesis using funding_invD(2) [OF assms(1) released(1)] by (simp add: allocation_ok_def)
  qed
  moreover have "alc_remainingMinor a = 0" if "find_allocation j d' = Some a" for a
    using closed [OF that] funding_invD(2) [OF inv' that] by (simp add: allocation_ok_def)
  ultimately show ?thesis
    using closed by (simp add: releaseFundingAllocationTransaction_def transaction_eq_Inr)
qed

lemma sample_release:
  "releaseFundingAllocationTransaction 0 ''pass'' (sample_funding [sample_source 75 35 25 0] [sample_allocation 25 0])
    = (Inr 35, sample_funding [sample_source 75 0 25 35]
        [(sample_allocation 25 35)\<lparr>alc_state := AL_released, alc_releasedAt := Some 0\<rparr>])"
  by (simp add: releaseFundingAllocationTransaction_def transaction_def releaseFundingAllocation_def
      release_source_def legacyAtomicMirror_ok sample_funding_simps)

theorem release_idempotent_witness:
  "\<exists>d'. releaseFundingAllocationTransaction 0 ''pass'' (sample_funding [sample_source 75 35 25 0] [sample_allocation 25 0])
      = (Inr 35, d') \<and> releaseFundingAllocationTransaction 9 ''pass'' d' = (Inr 0, d')"
  using release_idempotent [OF funding_history_inv [OF sample_history] sample_release, of 9] sample_release by auto

definition minor_range :: "int \<Rightarrow> bool" where
  "minor_range v \<longleftrightarrow> 0 \<le> v \<and> v \<le> MAX_SAFE_INTEGER"

definition source_range :: "funding_source \<Rightarrow> bool" where
  "source_range s \<longleftrightarrow> minor_range (src_availableMinor s) \<and> minor_range (src_authorizedMinor s)
     \<and> minor_range (src_lockedMinor s) \<and> minor_range (src_reservedMinor s) \<and> minor_range (src_spentMinor s)
     \<and> minor_range (src_releasedMinor s)"

lemma checkedMinor_range: "minor_range v \<Longrightarrow> checkedMinor v = Inr v"
  by (simp add: minor_range_def checkedMinor_def isSafeInteger_def)

lemma allocation_range:
  assumes "0 \<le> alc_spentMinor a" and "0 \<le> alc_releasedMinor a"
    and "alc_spentMinor a + alc_releasedMinor a \<le> alc_authorizedMinor a" and "alc_authorizedMinor a \<le> MAX_SAFE_INTEGER"
  shows "allocationRemainingMinor a = Inr (alc_authorizedMinor a - alc_spentMinor a - alc_releasedMinor a)"
    and "refreshAllocationAmounts a =
      Inr (a\<lparr>alc_remainingMinor := alc_authorizedMinor a - alc_spentMinor a - alc_releasedMinor a\<rparr>)"
proof -
  have range: "minor_range (alc_authorizedMinor a)" "minor_range (alc_spentMinor a)" "minor_range (alc_releasedMinor a)"
    using assms by (auto simp: minor_range_def)
  then show r: "allocationRemainingMinor a = Inr (alc_authorizedMinor a - alc_spentMinor a - alc_releasedMinor a)"
    using assms by (simp add: allocationRemainingMinor_def checkedMinor_range)
  have "legacyAtomicMirror [alc_authorizedMinor a, alc_spentMinor a, alc_releasedMinor a,
      alc_authorizedMinor a - alc_spentMinor a - alc_releasedMinor a] = Inr ()"
    by (rule legacyAtomicMirror_ok) (use assms in auto)
  with r show "refreshAllocationAmounts a =
      Inr (a\<lparr>alc_remainingMinor := alc_authorizedMinor a - alc_spentMinor a - alc_releasedMinor a\<rparr>)"
    by (simp add: refreshAllocationAmounts_def Let_def)
qed

lemma refreshSource_range:
  assumes "source_range s" and "src_mode s = M_secured_autopay \<Longrightarrow> src_reservedMinor s \<le> src_lockedMinor s"
  shows "\<exists>s'. refreshSourceAmounts now s = Inr s'"
proof -
  define r where "r = (if src_mode s = M_secured_autopay then src_lockedMinor s - src_reservedMinor s
      else max 0 (src_availableMinor s - src_authorizedMinor s))"
  have r: "minor_range r" using assms by (auto simp: r_def source_range_def minor_range_def)
  have sec: "src_mode s = M_secured_autopay \<Longrightarrow>
      securedReclaimableMinor (src_lockedMinor s) (src_reservedMinor s) = Inr (src_lockedMinor s - src_reservedMinor s)"
    using assms by (simp add: securedReclaimableMinor_def source_range_def checkedMinor_range)
  have "legacyAtomicMirror [src_availableMinor s, src_authorizedMinor s, src_lockedMinor s,
        src_reservedMinor s, src_spentMinor s, src_releasedMinor s, r] = Inr ()"
    by (rule legacyAtomicMirror_ok) (use assms(1) r in \<open>auto simp: source_range_def minor_range_def\<close>)
  moreover have "\<exists>st. fundingSourceState (s\<lparr>src_reclaimableMinor := r\<rparr>) now = Inr st"
    using assms(1) sec by (auto simp: fundingSourceState_def source_range_def checkedMinor_range)
  ultimately show ?thesis
    using sec by (auto simp: refreshSourceAmounts_def Let_def r_def)
qed

text \<open>
  Property C10: a positive funding status is honoured. When \<open>fundingExecutionStatus\<close> says that an amount
  can be executed, spending that amount in the same state succeeds (the counters staying safe
  integers), and it takes exactly the amount from the allocation and from its source.
\<close>

theorem ready_funding_can_be_spent:
  assumes "funding_inv d" and "fundingExecutionStatus now j n d = None" and "0 \<le> n"
    and "find_allocation j d = Some a" and "find_source (alc_sourceId a) d = Some s"
    and "source_range s" and "alc_authorizedMinor a \<le> MAX_SAFE_INTEGER" and "src_spentMinor s + n \<le> MAX_SAFE_INTEGER"
    and "validateAllocation a = Inr ()"
  shows "\<exists>d' a' s'. spendFundingAllocation now j n d = (Inr True, d')
    \<and> find_allocation j d' = Some a' \<and> find_source (alc_sourceId a) d' = Some s'
    \<and> alc_spentMinor a' = alc_spentMinor a + n \<and> alc_remainingMinor a' = alc_remainingMinor a - n
    \<and> src_spentMinor s' = src_spentMinor s + n \<and> src_authorizedMinor s' = src_authorizedMinor s - n"
proof -
  have ready: "alc_state a = AL_active" "n \<le> alc_remainingMinor a"
    "src_mode s = M_secured_autopay \<Longrightarrow> has_proof (src_networkProofId s) \<and> src_reservedMinor s \<le> src_lockedMinor s
       \<and> n \<le> src_lockedMinor s \<and> n \<le> src_reservedMinor s"
    using assms(2) by (auto simp: fundingExecutionStatus_def assms(4,5) has_proof_def split: if_splits)
  note ok = funding_invD(2) [OF assms(1,4)] and sok = funding_invD(1) [OF assms(1,5)]
  have "alc_remainingMinor a \<le> total (of_source (alc_sourceId a)) alc_remainingMinor (allocations d)"
    by (rule total_ge_member) (use ok assms(1) in \<open>auto simp: of_source_def funding_inv_def allocation_ok_def\<close>)
  then have auth: "n \<le> src_authorizedMinor s" using sok ready(2) by (simp add: source_ok_def)
  have "\<exists>s1. spend_source s n = Inr s1"
    using auth ready(3) by (cases "src_mode s = M_secured_autopay") (simp_all add: spend_source_def)
  then obtain s1 where s1: "spend_source s n = Inr s1" by blast
  define a0 where "a0 = a\<lparr>alc_spentMinor := alc_spentMinor a + n\<rparr>"
  define a1 where "a1 = a0\<lparr>alc_remainingMinor := alc_authorizedMinor a - (alc_spentMinor a + n) - alc_releasedMinor a\<rparr>"
  have a1: "refreshAllocationAmounts a0 = Inr a1"
    using allocation_range(2) [of a0] ok ready(2) assms(3,7) by (simp add: a0_def a1_def allocation_ok_def)
  have r: "allocationRemainingMinor a = Inr (alc_remainingMinor a)"
    using allocation_range(1) [of a] ok assms(7) by (simp add: allocation_ok_def)
  have "source_range s1 \<and> (src_mode s1 = M_secured_autopay \<longrightarrow> src_reservedMinor s1 \<le> src_lockedMinor s1
      \<and> has_proof (src_networkProofId s1))"
    using s1 assms(3,6,8) auth ready(3)
    by (auto simp: spend_source_def source_range_def minor_range_def split: if_splits)
  then obtain s2 where s2: "refreshSourceAmounts now s1 = Inr s2" "validateSecuredProof s2 = Inr ()"
    using refreshSource_range refreshSource_fields by (fastforce simp: validateSecuredProof_def)
  have va: "validateAllocation (exhaust_if_empty now a1) = Inr ()"
    using assms(9) ok ready(2)
    by (auto simp: validateAllocation_def exhaust_if_empty_def a1_def a0_def allocation_ok_def)
  define d' where "d' = save_allocation (exhaust_if_empty now a1) (save_source s2 d)"
  have spend: "spendFundingAllocation now j n d = (Inr True, d')"
    using assms(4,5) ready r s1 a1 s2 va
    by (simp add: spendFundingAllocation_def save_source_and_allocation_def d'_def a0_def)
  have "alc_sessionId (exhaust_if_empty now a1) = j" using ok by (simp add: exhaust_if_empty_def a1_def a0_def)
  then have fa: "find_allocation j d' = Some (exhaust_if_empty now a1)"
    using find_saved_allocation [of "exhaust_if_empty now a1" d a s2] assms(4) by (simp add: d'_def)
  have id2: "src_sourceId s2 = alc_sourceId a"
    using refreshSource_fields(1) [OF s2(1)] spend_source_Inr(4) [OF s1] sok by simp
  have fs: "find_source (alc_sourceId a) d' = Some s2"
    using find_saved_source [of s2 d s] assms(5) id2 by (simp add: d'_def)
  have "src_spentMinor s2 = src_spentMinor s + n" "src_authorizedMinor s2 = src_authorizedMinor s - n"
    using spend_source_Inr(1,2) [OF s1] refreshSource_fields(3,4) [OF s2(1)] by simp_all
  moreover have "alc_spentMinor (exhaust_if_empty now a1) = alc_spentMinor a + n"
    "alc_remainingMinor (exhaust_if_empty now a1) = alc_remainingMinor a - n"
    using ok by (simp_all add: exhaust_if_empty_def a1_def a0_def allocation_ok_def)
  ultimately show ?thesis using spend fa fs by blast
qed

theorem ready_funding_can_be_spent_witness:
  "\<exists>d'. spendFundingAllocation 5 ''pass'' 25 (sample_funding [sample_source 100 60 0 0] [sample_allocation 0 0]) = (Inr True, d')"
proof -
  have "funding_inv (sample_funding [sample_source 100 60 0 0] [sample_allocation 0 0])"
    by (simp add: funding_inv_def source_ok_def allocation_ok_def of_source_def sample_funding_simps)
  from ready_funding_can_be_spent [OF this, of 5 "''pass''" 25 "sample_allocation 0 0" "sample_source 100 60 0 0"]
  show ?thesis
    by (simp add: fundingExecutionStatus_def source_range_def minor_range_def sample_funding_simps)
      (fastforce simp: sample_funding_simps)
qed

text \<open>
  Property C11: an observed shortfall blocks the exit of a pass. When the network shows fewer locked funds
  than the passes of a secured source hold, a release is refused unless this one pass alone covers
  the shortfall: with two large passes neither can be closed. (The recording of the balance accepts
  the shortfall and marks the source insufficient; the release then fails in \<open>refreshSourceAmounts\<close>.)
\<close>

theorem shortfall_blocks_release:
  assumes "funding_inv d" and "find_allocation j d = Some a" and "alc_state a = AL_active"
    and "find_source (alc_sourceId a) d = Some s" and "src_mode s = M_secured_autopay"
    and "src_lockedMinor s < src_reservedMinor s - alc_remainingMinor a"
  shows "\<exists>e. releaseFundingAllocationTransaction now j d = (Inl e, d)"
proof (cases "releaseFundingAllocation now j d")
  case (Pair r d')
  show ?thesis
  proof (cases r)
    case (Inl e)
    with Pair show ?thesis by (simp add: releaseFundingAllocationTransaction_def)
  next
    case (Inr n)
    from Pair [unfolded Inr] have False
    proof (cases rule: release_Inr)
      case no_change
      with assms(2,3) show False by blast
    next
      case (released a0 s0 s1 a1 s2)
      have n: "n = alc_remainingMinor a"
        using released(1,4) assms(2) funding_invD(2) [OF assms(1,2)] by (simp add: allocation_ok_def)
      have s: "s0 = s" using released(1,2) assms(2,4) by simp
      have "src_reservedMinor s1 \<le> src_lockedMinor s1"
        using refreshSource_Inr(2) [OF released(6)] release_source_Inr(5) [OF released(5)] s assms(5) by simp
      with release_source_Inr(6,7) [OF released(5)] s n assms(5,6) show False by simp
    qed
    then show ?thesis ..
  qed
qed

definition sample_two_passes :: "int \<Rightarrow> funding_state \<Rightarrow> string option \<Rightarrow> int \<Rightarrow> core_db" where
  "sample_two_passes locked state failure seen = sample_funding
     [(sample_source 100 100 0 0)\<lparr>src_lockedMinor := locked, src_availableMinor := locked, src_state := state,
        src_failureCode := failure, src_balanceObservedAt := Some seen, src_staleAt := Some (seen + 300000)\<rparr>]
     [sample_allocation 0 0,
      (sample_allocation 0 0)\<lparr>alc_sessionId := ''pass2'', alc_authorizedMinor := 40, alc_remainingMinor := 40\<rparr>]"

theorem shortfall_blocks_release_witness:
  "\<exists>d'. recordSecuredFundingBalance 1 ''w'' ''ref'' 20 1 (sample_two_passes 100 F_fully_allocated None 0) = (Inr (), d')
    \<and> (\<exists>e. releaseFundingAllocationTransaction 1 ''pass'' d' = (Inl e, d'))
    \<and> (\<exists>e. releaseFundingAllocationTransaction 1 ''pass2'' d' = (Inl e, d'))"
proof -
  define d' where "d' = sample_two_passes 20 F_insufficient (Some ''SECURED_FUNDING_AGGREGATE_INSUFFICIENT'') 1"
  have seen: "recordSecuredFundingBalance 1 ''w'' ''ref'' 20 1 (sample_two_passes 100 F_fully_allocated None 0) = (Inr (), d')"
    by (simp add: recordSecuredFundingBalance_def sample_two_passes_def d'_def legacyAtomicMirror_ok sample_funding_simps)
  have inv: "funding_inv d'"
    by (simp add: d'_def sample_two_passes_def funding_inv_def source_ok_def allocation_ok_def of_source_def
        sample_funding_simps)
  have "\<exists>e. releaseFundingAllocationTransaction 1 ''pass'' d' = (Inl e, d')"
    by (rule shortfall_blocks_release [OF inv, of _ "sample_allocation 0 0" "hd (sources d')"])
      (simp_all add: d'_def sample_two_passes_def sample_funding_simps)
  moreover have "\<exists>e. releaseFundingAllocationTransaction 1 ''pass2'' d' = (Inl e, d')"
    by (rule shortfall_blocks_release [OF inv, of _ "allocations d' ! 1" "hd (sources d')"])
      (simp_all add: d'_def sample_two_passes_def sample_funding_simps)
  ultimately show ?thesis using seen by blast
qed

end
