(* ===== verification/Ledger.thy ===== *)
theory Ledger
  imports Prelude
begin

section \<open>Reserve, settle, release\<close>

text \<open>
  The interface shared by the pass ledger, the daily ledger and the metered grant: an account with a
  limit, a spent and a reserved amount, and three guarded operations. \<open>reserve\<close> holds an amount if
  the limit allows it, \<open>settle\<close> turns held into spent, \<open>release\<close> gives it back. What the laws give
  for any sequence of calls is proved once here; the components interpret the locale on the updates
  their services send to the database.
\<close>

datatype ledger_call = Reserve int | Settle int | Release int

fun ledger_amount :: "ledger_call \<Rightarrow> int" where
  "ledger_amount (Reserve n) = n"
| "ledger_amount (Settle n) = n"
| "ledger_amount (Release n) = n"

fun held_change :: "ledger_call \<Rightarrow> int" where
  "held_change (Reserve n) = n"
| "held_change (Settle n) = - n"
| "held_change (Release n) = - n"

fun spent_change :: "ledger_call \<Rightarrow> int" where
  "spent_change (Settle n) = n"
| "spent_change _ = 0"

locale escrow =
  fixes limit :: "'l \<Rightarrow> int" and spent :: "'l \<Rightarrow> int" and held :: "'l \<Rightarrow> int"
    and reserve :: "int \<Rightarrow> 'l \<Rightarrow> 'l option" and settle :: "int \<Rightarrow> 'l \<Rightarrow> 'l option"
    and release :: "int \<Rightarrow> 'l \<Rightarrow> 'l option"
  assumes reserve_law: "reserve n l = Some l' \<Longrightarrow>
      limit l' = limit l \<and> spent l' = spent l \<and> held l' = held l + n \<and> spent l + held l + n \<le> limit l"
    and settle_law: "settle n l = Some l' \<Longrightarrow>
      limit l' = limit l \<and> spent l' = spent l + n \<and> held l' = held l - n \<and> n \<le> held l"
    and release_law: "release n l = Some l' \<Longrightarrow>
      limit l' = limit l \<and> spent l' = spent l \<and> held l' = held l - n \<and> n \<le> held l"
begin

definition covered :: "'l \<Rightarrow> bool" where
  "covered l \<longleftrightarrow> 0 \<le> held l \<and> spent l + held l \<le> limit l"

fun call :: "ledger_call \<Rightarrow> 'l \<Rightarrow> 'l option" where
  "call (Reserve n) l = reserve n l"
| "call (Settle n) l = settle n l"
| "call (Release n) l = release n l"

text \<open>A run skips the calls that are refused: the account stays as it was.\<close>

fun run :: "ledger_call list \<Rightarrow> 'l \<Rightarrow> ledger_call list \<times> 'l" where
  "run [] l = ([], l)"
| "run (c # cs) l =
     (case call c l of None \<Rightarrow> run cs l | Some l' \<Rightarrow> (case run cs l' of (accepted, l'') \<Rightarrow> (c # accepted, l'')))"

lemma call_laws:
  assumes "call c l = Some l'"
  shows "limit l' = limit l" and "spent l' = spent l + spent_change c" and "held l' = held l + held_change c"
    and "0 \<le> ledger_amount c \<Longrightarrow> covered l \<Longrightarrow> covered l'"
  using assms reserve_law settle_law release_law by (cases c; fastforce simp: covered_def)+

lemma run_accounts:
  assumes "run cs l = (accepted, l')"
  shows "limit l' = limit l \<and> spent l' = spent l + sum_list (map spent_change accepted)
    \<and> held l' = held l + sum_list (map held_change accepted) \<and> set accepted \<subseteq> set cs"
  using assms
proof (induction cs arbitrary: l accepted)
  case (Cons c cs)
  show ?case
  proof (cases "call c l")
    case None
    with Cons show ?thesis by fastforce
  next
    case (Some l1)
    with Cons.prems obtain accepted' where r: "run cs l1 = (accepted', l')" "accepted = c # accepted'"
      by (auto split: prod.splits)
    with Cons.IH [OF r(1)] call_laws [OF Some] show ?thesis by auto
  qed
qed simp

lemma run_covered:
  assumes "run cs l = (accepted, l')" and "\<forall>c \<in> set cs. 0 \<le> ledger_amount c" and "covered l"
  shows "covered l'"
  using assms
proof (induction cs arbitrary: l accepted)
  case (Cons c cs)
  show ?case
  proof (cases "call c l")
    case None
    with Cons show ?thesis by simp
  next
    case (Some l1)
    with Cons.prems obtain accepted' where r: "run cs l1 = (accepted', l')" by (auto split: prod.splits)
    have "covered l1" using call_laws(4) [OF Some] Cons.prems by simp
    with Cons.IH [OF r] Cons.prems show ?thesis by simp
  qed
qed simp

text \<open>Within any sequence of calls no more is ever spent than the limit.\<close>

lemma never_overspent:
  assumes "run cs l = (accepted, l')" and "\<forall>c \<in> set cs. 0 \<le> ledger_amount c" and "covered l"
  shows "spent l' \<le> limit l"
  using run_covered [OF assms] run_accounts [OF assms(1)] by (simp add: covered_def)

end

end
