(* ===== verification/Leases.thy ===== *)
theory Leases
  imports Prelude
begin

section \<open>Leases\<close>

text \<open>
  Workers take a document for a while by writing an owner and an expiry into it, under a filter that
  lets only a document without a live lease through. \<open>lease\<close> is that interface: \<open>free t x\<close> is the
  filter at time \<open>t\<close>, \<open>take t who x\<close> the update. Its one law says that the update closes the filter
  until the lease has run out. What follows for any sequence of claims, by any workers, is proved
  here; charge attempts, metered batches and worker leases interpret it.
\<close>

locale lease =
  fixes free :: "int \<Rightarrow> 'x \<Rightarrow> bool" and take :: "int \<Rightarrow> string \<Rightarrow> 'x \<Rightarrow> 'x" and ttl :: int
  assumes ttl_nonneg: "0 \<le> ttl" and taken: "t < now + ttl \<Longrightarrow> \<not> free t (take now who x)"
begin

definition claim :: "int \<Rightarrow> string \<Rightarrow> 'x \<Rightarrow> 'x option" where
  "claim now who x = (if free now x then Some (take now who x) else None)"

text \<open>The claims that succeed, in order.\<close>

fun claims :: "(int \<times> string) list \<Rightarrow> 'x \<Rightarrow> (int \<times> string) list" where
  "claims [] x = []"
| "claims ((now, who) # cs) x =
     (case claim now who x of None \<Rightarrow> claims cs x | Some y \<Rightarrow> (now, who) # claims cs y)"

lemma claim_excludes: "claim now who x = Some y \<Longrightarrow> t < now + ttl \<Longrightarrow> claim t other y = None"
  by (auto simp: claim_def taken split: if_splits)

lemma claims_after:
  assumes "sorted (map fst cs)" and "\<forall>t. t < s \<longrightarrow> \<not> free t x"
  shows "\<forall>c \<in> set (claims cs x). s \<le> fst c"
  using assms
proof (induction cs arbitrary: x s)
  case (Cons c cs)
  obtain now who where c: "c = (now, who)" by fastforce
  show ?case
  proof (cases "claim now who x")
    case None
    with Cons c show ?thesis by auto
  next
    case (Some y)
    then have y: "y = take now who x" "free now x" by (auto simp: claim_def split: if_splits)
    then have "s \<le> now" using Cons.prems(2) by (meson not_le)
    moreover have "\<forall>t. t < now + ttl \<longrightarrow> \<not> free t y" using taken y(1) by blast
    then have "\<forall>c \<in> set (claims cs y). now + ttl \<le> fst c" using Cons.IH Cons.prems(1) by auto
    ultimately show ?thesis using c Some ttl_nonneg by fastforce
  qed
qed simp

text \<open>Two successful claims are at least one lease apart.\<close>

lemma claims_spaced: "sorted (map fst cs) \<Longrightarrow> sorted_wrt (\<lambda>a b. fst a + ttl \<le> fst b) (claims cs x)"
proof (induction cs arbitrary: x)
  case (Cons c cs)
  obtain now who where c: "c = (now, who)" by fastforce
  show ?case
  proof (cases "claim now who x")
    case None
    with Cons c show ?thesis by simp
  next
    case (Some y)
    then have "y = take now who x" by (auto simp: claim_def split: if_splits)
    then have "\<forall>c \<in> set (claims cs y). now + ttl \<le> fst c"
      using claims_after [of cs "now + ttl" y] taken Cons.prems by auto
    with Cons c Some show ?thesis by auto
  qed
qed simp

end

end
