(* ===== verification/Charges.thy ===== *)
theory Charges
  imports Funding Receipts Ledger Leases
begin

section \<open>Charge reservations (services/chargeReservation.service.ts)\<close>

text \<open>
  A charge is first reserved against the pass and against the day, then executed by a payment
  provider under a lease, and at the end finalized (reserved becomes spent, the funding allocation is
  spent, a receipt is written) or released. Each operation is one MongoDB statement or one
  transaction of the service, with the filter of the code as its guard. \<open>now\<close> stands for \<open>new Date()\<close>.
\<close>

definition EXECUTION_LEASE_MS :: int where
  "EXECUTION_LEASE_MS = 60000"

definition chargeReservationDay :: "int \<Rightarrow> string" where
  "chargeReservationDay t = isoDay t"

subsection \<open>The ledger of a pass and of a day\<close>

definition ses_spentOf :: "session \<Rightarrow> int" where
  "ses_spentOf s = opt_or (ses_spentMinor s) 0"

definition ses_reservedOf :: "session \<Rightarrow> int" where
  "ses_reservedOf s = opt_or (ses_reservedMinor s) 0"

definition ses_limitOf :: "session \<Rightarrow> int" where
  "ses_limitOf s = opt_or (ses_limitMinor s) 0"

definition att_minor :: "charge_attempt \<Rightarrow> int" where
  "att_minor a = opt_or (att_amountMinor a) 0"

definition sessionReservationExpression :: "int \<Rightarrow> session \<Rightarrow> bool" where
  "sessionReservationExpression amountMinor s \<longleftrightarrow> ses_spentOf s + ses_reservedOf s + amountMinor \<le> ses_limitOf s"

definition dailyReservationExpression :: "int \<Rightarrow> int \<Rightarrow> daily_counter \<Rightarrow> bool" where
  "dailyReservationExpression amountMinor dailyLimitMinor c \<longleftrightarrow>
     day_spentMinor c + day_reservedMinor c + amountMinor \<le> dailyLimitMinor"

text \<open>\<open>{ reservedMinor: { $gte: n } }\<close> does not match a document without the field.\<close>

definition holds_reserved :: "int \<Rightarrow> session \<Rightarrow> bool" where
  "holds_reserved n s \<longleftrightarrow> (case ses_reservedMinor s of None \<Rightarrow> False | Some r \<Rightarrow> n \<le> r)"

definition inc_session_reserved :: "int \<Rightarrow> session \<Rightarrow> session" where
  "inc_session_reserved n s = s\<lparr>ses_reservedMinor := Some (ses_reservedOf s + n)\<rparr>"

definition settle_session :: "charge_attempt \<Rightarrow> int \<Rightarrow> session \<Rightarrow> session" where
  "settle_session a n s = (inc_session_reserved (- n) s)
     \<lparr>ses_spentMinor := Some (ses_spentOf s + n), ses_spent := ses_spent s + att_amount a,
      ses_lastChargeProofId := att_proofId a, ses_fiberProvider := att_provider a, ses_fiberNetwork := att_network a\<rparr>"

definition inc_day_reserved :: "int \<Rightarrow> daily_counter \<Rightarrow> daily_counter" where
  "inc_day_reserved n c = c\<lparr>day_reservedMinor := day_reservedMinor c + n\<rparr>"

definition settle_day :: "int \<Rightarrow> daily_counter \<Rightarrow> daily_counter" where
  "settle_day n c = c\<lparr>day_reservedMinor := day_reservedMinor c - n, day_spentMinor := day_spentMinor c + n\<rparr>"

definition is_counter :: "string \<Rightarrow> string \<Rightarrow> daily_counter \<Rightarrow> bool" where
  "is_counter sessionId day c \<longleftrightarrow> day_sessionId c = sessionId \<and> day_day c = day"

subsection \<open>Reserving\<close>

text \<open>
  The extra filter of a caller is an object that is spread into the query before its own operators are
  written, so a caller's \<open>$and\<close>, \<open>$or\<close> or \<open>$expr\<close> is replaced and only its conditions on fields stay.
  \<open>flt_fields\<close> is the conjunction of those conditions; the only caller, \<open>chargeSession\<close>, has none on
  \<open>publicId\<close>, \<open>ownerWalletId\<close> or \<open>status\<close>.
\<close>

record session_filter =
  flt_fields :: "session \<Rightarrow> bool"
  flt_and :: "session \<Rightarrow> bool"
  flt_or :: "session \<Rightarrow> bool"
  flt_expr :: "session \<Rightarrow> bool"

definition any_session :: session_filter where
  "any_session = \<lparr>flt_fields = (\<lambda>_. True), flt_and = (\<lambda>_. True), flt_or = (\<lambda>_. True), flt_expr = (\<lambda>_. True)\<rparr>"

definition filter_accepts :: "session_filter \<Rightarrow> session \<Rightarrow> bool" where
  "filter_accepts f s \<longleftrightarrow> flt_fields f s \<and> flt_and f s \<and> flt_or f s \<and> flt_expr f s"

record reserve_input =
  ri_attemptId :: string
  ri_sessionId :: string
  ri_ownerWalletId :: string
  ri_appId :: "string option"
  ri_apiKeyId :: "string option"
  ri_idempotencyKey :: string
  ri_requestFingerprint :: string
  ri_serviceReference :: "string option"
  ri_amount :: major
  ri_amountMinor :: int
  ri_currency :: string
  ri_type :: string
  ri_executionLayer :: execution_layer
  ri_paymentRequestHash :: "string option"
  ri_providerCorrelationId :: "string option"
  ri_metadata :: "(string \<times> json) list"
  ri_dailyLimitMinor :: int
  ri_executionLeaseId :: string
  ri_sessionMatch :: session_filter

definition existingAttempt :: "string \<Rightarrow> string \<Rightarrow> 'a core_db_scheme \<Rightarrow> charge_attempt option" where
  "existingAttempt sessionId idempotencyKey d =
     List.find (\<lambda>a. att_sessionId a = sessionId \<and> att_idempotencyKey a = Some idempotencyKey) (attempts d)"

definition dayStart :: "int \<Rightarrow> int" where
  "dayStart t = t div MS_PER_DAY * MS_PER_DAY"

definition historicalSpend :: "string \<Rightarrow> int \<Rightarrow> 'a core_db_scheme \<Rightarrow> int" where
  "historicalSpend sessionId now d =
     total (\<lambda>a. att_sessionId a = sessionId \<and> att_status a = A_succeeded
              \<and> dayStart now \<le> att_createdAt a \<and> att_createdAt a < dayStart now + MS_PER_DAY)
       (\<lambda>a. case att_amountMinor a of Some m \<Rightarrow> m | None \<Rightarrow> att_amount a div 1000) (attempts d)"

definition upsert_counter :: "string \<Rightarrow> int \<Rightarrow> 'a core_db_scheme \<Rightarrow> 'a core_db_scheme" where
  "upsert_counter sessionId now d =
     (let day = chargeReservationDay now in
      if list_ex (is_counter sessionId day) (day_counters d) then d
      else d\<lparr>day_counters := day_counters d @
             [\<lparr>day_sessionId = sessionId, day_day = day, day_spentMinor = historicalSpend sessionId now d,
               day_reservedMinor = 0\<rparr>]\<rparr>)"

definition reservation_filter :: "reserve_input \<Rightarrow> session_filter" where
  "reservation_filter i = (ri_sessionMatch i)
     \<lparr>flt_and := (\<lambda>s. ses_lifecycleState s = Some L_idle \<or> ses_lifecycleState s = None),
      flt_or := (\<lambda>s. \<not> ses_singleUse s \<or> ses_spentOf s + ses_reservedOf s = 0),
      flt_expr := sessionReservationExpression (ri_amountMinor i)\<rparr>"

definition reservable_session :: "reserve_input \<Rightarrow> session \<Rightarrow> bool" where
  "reservable_session i s \<longleftrightarrow> ses_publicId s = ri_sessionId i \<and> ses_ownerWalletId s = ri_ownerWalletId i
     \<and> ses_status s = S_active \<and> filter_accepts (reservation_filter i) s"

lemma reservable_session_iff:
  "reservable_session i s \<longleftrightarrow> ses_publicId s = ri_sessionId i \<and> ses_ownerWalletId s = ri_ownerWalletId i
     \<and> ses_status s = S_active \<and> flt_fields (ri_sessionMatch i) s
     \<and> (ses_lifecycleState s = Some L_idle \<or> ses_lifecycleState s = None)
     \<and> (\<not> ses_singleUse s \<or> ses_spentOf s + ses_reservedOf s = 0)
     \<and> sessionReservationExpression (ri_amountMinor i) s"
  by (auto simp: reservable_session_def reservation_filter_def filter_accepts_def)

definition new_attempt :: "int \<Rightarrow> reserve_input \<Rightarrow> string \<Rightarrow> charge_attempt" where
  "new_attempt now i assetId =
     \<lparr>att_attemptId = ri_attemptId i, att_sessionId = ri_sessionId i, att_appId = ri_appId i,
      att_apiKeyId = ri_apiKeyId i, att_ownerWalletId = Some (ri_ownerWalletId i),
      att_idempotencyKey = Some (ri_idempotencyKey i), att_requestFingerprint = Some (ri_requestFingerprint i),
      att_serviceReference = ri_serviceReference i, att_amount = ri_amount i,
      att_amountMinor = Some (ri_amountMinor i), att_amountAtomic = Some (ri_amountMinor i),
      att_currency = ri_currency i, att_assetId = Some assetId, att_type = ri_type i,
      att_status = A_pending, att_reserveStatus = RS_reserved, att_failureCode = None, att_provider = None,
      att_network = None, att_proofId = None, att_proofType = None, att_executionLayer = ri_executionLayer i,
      att_paymentRequestHash = ri_paymentRequestHash i, att_providerCorrelationId = ri_providerCorrelationId i,
      att_providerStatus = P_not_started, att_providerSubmittedAt = None, att_providerCompletedAt = None,
      att_reservationDay = Some (chargeReservationDay now), att_reservedAt = Some now, att_finalizedAt = None,
      att_executionLeaseId = Some (ri_executionLeaseId i),
      att_executionLeaseExpiresAt = Some (now + EXECUTION_LEASE_MS), att_metadata = ri_metadata i,
      att_createdAt = now\<rparr>"

definition attempt_clash :: "charge_attempt \<Rightarrow> charge_attempt \<Rightarrow> bool" where
  "attempt_clash a x \<longleftrightarrow> att_attemptId x = att_attemptId a
     \<or> (att_sessionId x = att_sessionId a \<and> att_idempotencyKey a \<noteq> None \<and> att_idempotencyKey x = att_idempotencyKey a)"

definition reserve_body :: "int \<Rightarrow> reserve_input \<Rightarrow> ('a core_db_scheme, charge_attempt \<times> bool) op" where
  "reserve_body now i d =
     (case existingAttempt (ri_sessionId i) (ri_idempotencyKey i) d of
        Some existing \<Rightarrow> (Inr (existing, False), d)
      | None \<Rightarrow>
         let day = chargeReservationDay now; d1 = upsert_counter (ri_sessionId i) now d in
         (case find_and_update (reservable_session i) (inc_session_reserved (ri_amountMinor i)) (sessions d1) of
            None \<Rightarrow> (Inl (ReservationError ''SESSION_RESERVATION_REJECTED''), d1)
          | Some (_, ss) \<Rightarrow>
             let d2 = d1\<lparr>sessions := ss\<rparr> in
             (case find_and_update
                     (\<lambda>c. is_counter (ri_sessionId i) day c \<and> dailyReservationExpression (ri_amountMinor i) (ri_dailyLimitMinor i) c)
                     (inc_day_reserved (ri_amountMinor i)) (day_counters d2) of
                None \<Rightarrow> (Inl (ReservationError ''DAILY_RESERVATION_REJECTED''), d2)
              | Some (_, cs) \<Rightarrow>
                 let d3 = d2\<lparr>day_counters := cs\<rparr> in
                 (case bindE (legacyMinorToAtomicAmount (ri_amountMinor i)) (\<lambda>_. assetIdForLegacyCurrency (ri_currency i)) of
                    Inl e \<Rightarrow> (Inl e, d3)
                  | Inr assetId \<Rightarrow>
                     let a = new_attempt now i assetId in
                     (case insert_row (attempt_clash a) a (attempts d3) of
                        None \<Rightarrow> (Inl DuplicateKey, d3)
                      | Some xs \<Rightarrow> (Inr (a, True), d3\<lparr>attempts := xs\<rparr>))))))"

definition reserveChargeAttempt :: "int \<Rightarrow> reserve_input \<Rightarrow> ('a core_db_scheme, charge_attempt \<times> bool) op" where
  "reserveChargeAttempt now i d =
     (case transaction (reserve_body now i) d of
        (Inl DuplicateKey, d') \<Rightarrow>
          (case existingAttempt (ri_sessionId i) (ri_idempotencyKey i) d' of
             Some existing \<Rightarrow> (Inr (existing, False), d')
           | None \<Rightarrow> (Inl DuplicateKey, d'))
      | r \<Rightarrow> r)"

subsection \<open>Executing under a lease\<close>

definition update_attempt ::
  "(charge_attempt \<Rightarrow> bool) \<Rightarrow> (charge_attempt \<Rightarrow> charge_attempt) \<Rightarrow> 'a core_db_scheme
    \<Rightarrow> charge_attempt option \<times> 'a core_db_scheme" where
  "update_attempt p f d =
     (case find_and_update p f (attempts d) of
        None \<Rightarrow> (None, d) | Some (a, xs) \<Rightarrow> (Some a, d\<lparr>attempts := xs\<rparr>))"

definition claimable :: "string \<Rightarrow> int \<Rightarrow> charge_attempt \<Rightarrow> bool" where
  "claimable attemptId now a \<longleftrightarrow> att_attemptId a = attemptId \<and> att_status a = A_pending
     \<and> att_reserveStatus a = RS_reserved \<and> att_providerStatus a = P_not_started
     \<and> (case att_executionLeaseExpiresAt a of None \<Rightarrow> False | Some t \<Rightarrow> t \<le> now)"

definition claimChargeExecution ::
  "string \<Rightarrow> string \<Rightarrow> int \<Rightarrow> 'a core_db_scheme \<Rightarrow> charge_attempt option \<times> 'a core_db_scheme" where
  "claimChargeExecution attemptId leaseId now =
     update_attempt (claimable attemptId now)
       (\<lambda>a. a\<lparr>att_executionLeaseId := Some leaseId, att_executionLeaseExpiresAt := Some (now + EXECUTION_LEASE_MS)\<rparr>)"

definition held_by :: "string \<Rightarrow> string \<Rightarrow> charge_attempt \<Rightarrow> bool" where
  "held_by attemptId leaseId a \<longleftrightarrow> att_attemptId a = attemptId \<and> att_executionLeaseId a = Some leaseId
     \<and> att_status a = A_pending \<and> att_reserveStatus a = RS_reserved \<and> att_providerStatus a = P_not_started"

definition markChargeProviderSubmitted ::
  "string \<Rightarrow> string \<Rightarrow> int \<Rightarrow> 'a core_db_scheme \<Rightarrow> charge_attempt option \<times> 'a core_db_scheme" where
  "markChargeProviderSubmitted attemptId leaseId now =
     update_attempt (held_by attemptId leaseId)
       (\<lambda>a. a\<lparr>att_providerStatus := P_submitted, att_providerSubmittedAt := Some now\<rparr>)"

definition setChargeProviderCorrelation ::
  "string \<Rightarrow> string \<Rightarrow> string \<Rightarrow> string option \<Rightarrow> 'a core_db_scheme \<Rightarrow> charge_attempt option \<times> 'a core_db_scheme" where
  "setChargeProviderCorrelation attemptId leaseId correlationId paymentRequestHash =
     update_attempt (held_by attemptId leaseId)
       (\<lambda>a. a\<lparr>att_providerCorrelationId := Some correlationId,
              att_paymentRequestHash := (if paymentRequestHash \<noteq> None \<and> paymentRequestHash \<noteq> Some []
                then paymentRequestHash else att_paymentRequestHash a)\<rparr>)"

record provider_result =
  pr_provider :: string
  pr_network :: string
  pr_proofId :: string
  pr_proofType :: string
  pr_executionLayer :: execution_layer
  pr_paymentRequestHash :: "string option"

definition in_flight :: "string \<Rightarrow> charge_attempt \<Rightarrow> bool" where
  "in_flight attemptId a \<longleftrightarrow> att_attemptId a = attemptId \<and> att_status a \<in> {A_pending, A_uncertain}
     \<and> att_reserveStatus a = RS_reserved"

definition markChargeProviderSucceeded ::
  "string \<Rightarrow> provider_result \<Rightarrow> int \<Rightarrow> 'a core_db_scheme \<Rightarrow> charge_attempt option \<times> 'a core_db_scheme" where
  "markChargeProviderSucceeded attemptId result now =
     update_attempt (in_flight attemptId)
       (\<lambda>a. a\<lparr>att_providerStatus := P_succeeded, att_providerCompletedAt := Some now,
              att_provider := Some (pr_provider result), att_network := Some (pr_network result),
              att_proofId := Some (pr_proofId result), att_proofType := Some (pr_proofType result),
              att_executionLayer := pr_executionLayer result,
              att_paymentRequestHash := (if pr_paymentRequestHash result \<noteq> None \<and> pr_paymentRequestHash result \<noteq> Some []
                then pr_paymentRequestHash result else att_paymentRequestHash a),
              att_failureCode := None\<rparr>)"

definition markChargeOutcomeUncertain :: "string \<Rightarrow> string \<Rightarrow> 'a core_db_scheme \<Rightarrow> 'a core_db_scheme" where
  "markChargeOutcomeUncertain attemptId failureCode d =
     snd (update_attempt (in_flight attemptId)
       (\<lambda>a. a\<lparr>att_status := A_uncertain, att_providerStatus := P_uncertain, att_failureCode := Some failureCode\<rparr>) d)"

subsection \<open>Releasing\<close>

definition find_charge :: "string \<Rightarrow> 'a core_db_scheme \<Rightarrow> charge_attempt option" where
  "find_charge attemptId d = List.find (\<lambda>a. att_attemptId a = attemptId) (attempts d)"

definition failed_attempt :: "int \<Rightarrow> string \<Rightarrow> charge_attempt \<Rightarrow> charge_attempt" where
  "failed_attempt now failureCode a =
     a\<lparr>att_status := A_failed, att_reserveStatus := RS_released, att_providerStatus := P_failed,
       att_failureCode := Some failureCode, att_executionLeaseExpiresAt := Some now\<rparr>"

definition has_day :: "charge_attempt \<Rightarrow> bool" where
  "has_day a \<longleftrightarrow> att_reservationDay a \<noteq> None \<and> att_reservationDay a \<noteq> Some []"

definition release_body :: "int \<Rightarrow> string \<Rightarrow> string \<Rightarrow> ('a core_db_scheme, unit) op" where
  "release_body now attemptId failureCode d =
     (case find_charge attemptId d of
        None \<Rightarrow> (Inr (), d)
      | Some a \<Rightarrow>
         if att_reserveStatus a = RS_released \<or> att_status a = A_failed then (Inr (), d)
         else if att_reserveStatus a \<noteq> RS_reserved \<or> \<not> has_day a
         then (Inl (PlainError ''Charge reservation cannot be released from its state.''), d)
         else
           let n = att_minor a in
           (case (find_and_update (\<lambda>s. ses_publicId s = att_sessionId a \<and> holds_reserved n s)
                    (inc_session_reserved (- n)) (sessions d),
                  find_and_update (\<lambda>c. is_counter (att_sessionId a) (opt_or (att_reservationDay a) []) c \<and> n \<le> day_reservedMinor c)
                    (inc_day_reserved (- n)) (day_counters d)) of
              (Some (_, ss), Some (_, cs)) \<Rightarrow>
                (Inr (), save_attempt (failed_attempt now failureCode a) (d\<lparr>sessions := ss, day_counters := cs\<rparr>))
            | _ \<Rightarrow> (Inl (PlainError ''Charge reservation counters could not be released consistently.''), d)))"

definition releaseChargeReservation :: "int \<Rightarrow> string \<Rightarrow> string \<Rightarrow> ('a core_db_scheme, unit) op" where
  "releaseChargeReservation now attemptId failureCode = transaction (release_body now attemptId failureCode)"

subsection \<open>Finalizing\<close>

definition metadata_string :: "string \<Rightarrow> charge_attempt \<Rightarrow> string option" where
  "metadata_string key a = (case map_of (att_metadata a) key of Some (JStr v) \<Rightarrow> Some v | _ \<Rightarrow> None)"

definition hasSpecializedReceipt :: "charge_attempt \<Rightarrow> bool" where
  "hasSpecializedReceipt a \<longleftrightarrow> metadata_string ''occurrenceId'' a \<noteq> None \<or> metadata_string ''meteredReceiptId'' a \<noteq> None"

definition chargeReceiptRail :: "charge_attempt \<Rightarrow> payment_rail" where
  "chargeReceiptRail a =
     (if att_executionLayer a = X_lightning then R_lightning
      else if att_executionLayer a = X_ckb_vault then R_ckb_onchain else R_fiber)"

definition charge_receipt_input :: "int \<Rightarrow> string \<Rightarrow> string \<Rightarrow> string \<Rightarrow> charge_attempt \<Rightarrow> receipt_input" where
  "charge_receipt_input now ownerWalletId assetId amountAtomic a =
     \<lparr>cr_ownerWalletId = ownerWalletId, cr_recipientId = metadata_string ''recipientId'' a,
      cr_sourceType = RC_charge_attempt, cr_sourceId = att_attemptId a,
      cr_settlementId = (case att_providerCorrelationId a of Some c \<Rightarrow> c | None \<Rightarrow> opt_or (att_proofId a) (att_attemptId a)),
      cr_rail = chargeReceiptRail a, cr_network = opt_or (att_network a) ''unknown'', cr_assetId = assetId,
      cr_amountAtomic = amountAtomic, cr_feeAtomic = None, cr_status = RT_succeeded,
      cr_paymentHash = (if att_proofType a \<in> {Some ''fiber_payment'', Some ''payment_hash''} then att_proofId a else None),
      cr_proofKind = att_proofType a, cr_proofReference = att_proofId a,
      cr_settledAt = opt_or (att_finalizedAt a) now\<rparr>"

definition createDirectChargeReceipt ::
  "(string \<Rightarrow> string) \<Rightarrow> int \<Rightarrow> charge_attempt \<Rightarrow> string \<Rightarrow> ('a core_db_scheme, string option) op" where
  "createDirectChargeReceipt sha now a ownerWalletId d =
     (if hasSpecializedReceipt a then (Inr None, d)
      else
        (case bindE (case att_assetId a of Some x \<Rightarrow> Inr x | None \<Rightarrow> assetIdForLegacyCurrency (att_currency a)) (\<lambda>assetId.
              bindE (case att_amountAtomic a of Some v \<Rightarrow> Inr (atomic_text v) | None \<Rightarrow> legacyMinorToAtomicAmount (att_minor a)) (\<lambda>amount.
              Inr (assetId, amount))) of
           Inl e \<Rightarrow> (Inl e, d)
         | Inr (assetId, amount) \<Rightarrow>
            (case createPaymentReceipt sha now (charge_receipt_input now ownerWalletId assetId amount a) d of
               (Inl e, d') \<Rightarrow> (Inl e, d')
             | (Inr receiptId, d') \<Rightarrow> (Inr (Some receiptId), d'))))"

definition receipt_owner :: "charge_attempt \<Rightarrow> 'a core_db_scheme \<Rightarrow> string option" where
  "receipt_owner a d =
     (case att_ownerWalletId a of Some w \<Rightarrow> Some w
      | None \<Rightarrow> map_option ses_ownerWalletId (find_session (att_sessionId a) d))"

definition succeeded_attempt :: "int \<Rightarrow> charge_attempt \<Rightarrow> charge_attempt" where
  "succeeded_attempt now a =
     a\<lparr>att_status := A_succeeded, att_reserveStatus := RS_debited, att_finalizedAt := Some now,
       att_executionLeaseExpiresAt := Some now\<rparr>"

definition finalize_settle ::
  "(string \<Rightarrow> string) \<Rightarrow> int \<Rightarrow> charge_attempt \<Rightarrow> ('a core_db_scheme, charge_attempt \<times> string option) op" where
  "finalize_settle sha now a d =
     (let n = att_minor a in
      case (find_and_update (\<lambda>s. ses_publicId s = att_sessionId a \<and> holds_reserved n s) (settle_session a n) (sessions d),
            find_and_update (\<lambda>c. is_counter (att_sessionId a) (opt_or (att_reservationDay a) []) c \<and> n \<le> day_reservedMinor c)
              (settle_day n) (day_counters d)) of
        (Some (updatedSession, ss), Some (_, cs)) \<Rightarrow>
          chain (spendFundingAllocation now (att_sessionId a) n) (\<lambda>_.
          chain (if ses_singleUse updatedSession then releaseFundingAllocation now (att_sessionId a) else (\<lambda>d. (Inr 0, d))) (\<lambda>_ d2.
            let a' = succeeded_attempt now a in
            chain (createDirectChargeReceipt sha now a' (ses_ownerWalletId updatedSession)) (\<lambda>receiptId d3.
              (Inr (a', receiptId), d3)) (save_attempt a' d2)))
            (d\<lparr>sessions := ss, day_counters := cs\<rparr>)
      | _ \<Rightarrow> (Inl (PlainError ''Charge reservation counters could not be finalized consistently.''), d))"

definition finalize_body ::
  "(string \<Rightarrow> string) \<Rightarrow> int \<Rightarrow> string \<Rightarrow> ('a core_db_scheme, charge_attempt \<times> string option) op" where
  "finalize_body sha now attemptId d =
     (case find_charge attemptId d of
        None \<Rightarrow> (Inl (PlainError ''Charge attempt was not found for finalization.''), d)
      | Some a \<Rightarrow>
         if att_status a = A_succeeded \<and> att_reserveStatus a = RS_debited then
           (case receipt_owner a d of
              None \<Rightarrow> (Inl (PlainError ''Charge receipt owner is missing.''), d)
            | Some [] \<Rightarrow> (Inl (PlainError ''Charge receipt owner is missing.''), d)
            | Some owner \<Rightarrow>
                chain (createDirectChargeReceipt sha now a owner) (\<lambda>receiptId d'. (Inr (a, receiptId), d')) d)
         else if att_providerStatus a \<noteq> P_succeeded \<or> att_reserveStatus a \<noteq> RS_reserved \<or> \<not> has_day a
         then (Inl (PlainError ''Charge attempt is not ready for finalization.''), d)
         else finalize_settle sha now a d)"

definition finalizeChargeReservation ::
  "(string \<Rightarrow> string) \<Rightarrow> int \<Rightarrow> string \<Rightarrow> ('a core_db_scheme, charge_attempt) op" where
  "finalizeChargeReservation sha now attemptId d =
     (case transaction (finalize_body sha now attemptId) d of
        (Inl e, d') \<Rightarrow> (Inl e, d')
      | (Inr (a, None), d') \<Rightarrow> (Inr a, d')
      | (Inr (a, Some receiptId), d') \<Rightarrow> (Inr a, snd (queueReceiptNotifications sha now receiptId d')))"


subsection \<open>The ledger invariant\<close>

definition is_held :: "charge_attempt \<Rightarrow> bool" where
  "is_held a \<longleftrightarrow> att_reserveStatus a = RS_reserved"

definition held_for :: "string \<Rightarrow> charge_attempt list \<Rightarrow> int" where
  "held_for sessionId as = total (\<lambda>a. is_held a \<and> att_sessionId a = sessionId) att_minor as"

definition held_on :: "string \<Rightarrow> string \<Rightarrow> charge_attempt list \<Rightarrow> int" where
  "held_on sessionId day as =
     total (\<lambda>a. is_held a \<and> att_sessionId a = sessionId \<and> att_reservationDay a = Some day) att_minor as"

text \<open>The two status fields of an attempt agree.\<close>

definition attempt_coherent :: "charge_attempt \<Rightarrow> bool" where
  "attempt_coherent a \<longleftrightarrow>
     (case att_reserveStatus a of RS_reserved \<Rightarrow> att_status a \<in> {A_pending, A_uncertain}
      | RS_debited \<Rightarrow> att_status a = A_succeeded | RS_released \<Rightarrow> att_status a = A_failed)"

definition counter_key :: "daily_counter \<Rightarrow> string \<times> string" where
  "counter_key c = (day_sessionId c, day_day c)"

definition held_attempt_ok :: "session list \<Rightarrow> daily_counter list \<Rightarrow> charge_attempt \<Rightarrow> bool" where
  "held_attempt_ok ss cs a \<longleftrightarrow> 0 \<le> att_minor a \<and> has_day a
     \<and> att_sessionId a \<in> ses_publicId ` set ss
     \<and> (\<exists>c \<in> set cs. is_counter (att_sessionId a) (opt_or (att_reservationDay a) []) c)"

definition session_ok :: "charge_attempt list \<Rightarrow> session \<Rightarrow> bool" where
  "session_ok as s \<longleftrightarrow> ses_reservedOf s = held_for (ses_publicId s) as \<and> ses_spentOf s + ses_reservedOf s \<le> ses_limitOf s"

definition counter_ok :: "charge_attempt list \<Rightarrow> daily_counter \<Rightarrow> bool" where
  "counter_ok as c \<longleftrightarrow> day_reservedMinor c = held_on (day_sessionId c) (day_day c) as"

definition ledger_inv :: "session list \<Rightarrow> charge_attempt list \<Rightarrow> daily_counter list \<Rightarrow> bool" where
  "ledger_inv ss as cs \<longleftrightarrow> distinct (map ses_publicId ss) \<and> distinct (map att_attemptId as)
     \<and> distinct (map counter_key cs)
     \<and> (\<forall>s \<in> set ss. session_ok as s) \<and> (\<forall>c \<in> set cs. counter_ok as c)
     \<and> (\<forall>a \<in> set as. attempt_coherent a \<and> (is_held a \<longrightarrow> held_attempt_ok ss cs a))"

definition charge_inv :: "'a core_db_scheme \<Rightarrow> bool" where
  "charge_inv d \<longleftrightarrow> ledger_inv (sessions d) (attempts d) (day_counters d)"

lemma is_counter_key: "is_counter i day c \<longleftrightarrow> counter_key c = (i, day)"
  by (auto simp: is_counter_def counter_key_def)

text \<open>Editing attempts without touching amounts, keys and reservation leaves the ledger alone.\<close>

definition bookkeeping :: "(charge_attempt \<Rightarrow> charge_attempt) \<Rightarrow> charge_attempt \<Rightarrow> bool" where
  "bookkeeping f a \<longleftrightarrow> att_attemptId (f a) = att_attemptId a \<and> att_sessionId (f a) = att_sessionId a
     \<and> att_reservationDay (f a) = att_reservationDay a \<and> att_amountMinor (f a) = att_amountMinor a
     \<and> att_reserveStatus (f a) = att_reserveStatus a \<and> att_status (f a) \<in> {att_status a, A_uncertain}
     \<and> att_idempotencyKey (f a) = att_idempotencyKey a
     \<and> (att_providerStatus (f a) = P_not_started \<longrightarrow> att_providerStatus a = P_not_started)"

lemma bookkeeping_inv:
  assumes "ledger_inv ss as cs" and f: "\<And>a. p a \<Longrightarrow> bookkeeping f a \<and> is_held a \<and> att_status a \<in> {A_pending, A_uncertain}"
  shows "ledger_inv ss (update_first p f as) cs"
proof -
  have held: "p a \<Longrightarrow> is_held (f a) = is_held a" for a using f [of a] by (simp add: bookkeeping_def is_held_def)
  have "held_for i (update_first p f as) = held_for i as" "held_on i j (update_first p f as) = held_on i j as" for i j
    unfolding held_for_def held_on_def
    by (rule total_update_same; use f held in \<open>simp add: bookkeeping_def att_minor_def\<close>)+
  then have "session_ok (update_first p f as) = session_ok as" "counter_ok (update_first p f as) = counter_ok as"
    by (simp_all add: session_ok_def counter_ok_def fun_eq_iff)
  moreover have "map att_attemptId (update_first p f as) = map att_attemptId as"
    by (rule map_update_first) (use f in \<open>auto simp: bookkeeping_def\<close>)
  moreover have "attempt_coherent a \<and> (is_held a \<longrightarrow> held_attempt_ok ss cs a)" if a: "a \<in> set (update_first p f as)" for a
  proof (cases "a \<in> set as")
    case True
    with assms(1) show ?thesis by (simp add: ledger_inv_def)
  next
    case False
    with set_update_firstD [OF a] obtain b where b: "b \<in> set as" "p b" "a = f b" by blast
    have ok: "attempt_coherent b" "is_held b \<Longrightarrow> held_attempt_ok ss cs b"
      using assms(1) b(1) by (auto simp: ledger_inv_def)
    note fb = f [OF b(2)]
    have "attempt_coherent a"
      using ok(1) fb b(3) by (cases "att_reserveStatus b") (auto simp: attempt_coherent_def bookkeeping_def)
    moreover have "held_attempt_ok ss cs a" if "is_held a"
      using ok(2) that fb b(3) by (auto simp: held_attempt_ok_def bookkeeping_def is_held_def att_minor_def has_day_def)
    ultimately show ?thesis by blast
  qed
  ultimately show ?thesis using assms(1) by (simp add: ledger_inv_def)
qed

text \<open>An attempt leaves the reserved state: its amount leaves the pass and the day.\<close>

lemma unreserve_inv:
  assumes inv: "ledger_inv ss as cs" and a: "List.find (\<lambda>a. att_attemptId a = i) as = Some a" and held: "is_held a"
    and ss': "find_and_update (\<lambda>s. ses_publicId s = att_sessionId a \<and> holds_reserved n s) fs ss = Some (s', ss')"
    and cs': "find_and_update (\<lambda>c. is_counter (att_sessionId a) day c \<and> n \<le> day_reservedMinor c) fc cs = Some (c', cs')"
    and n: "n = att_minor a" and day: "att_reservationDay a = Some day"
    and fs: "\<And>s. ses_publicId (fs s) = ses_publicId s" "\<And>s. ses_limitOf (fs s) = ses_limitOf s"
      "\<And>s. ses_reservedOf (fs s) = ses_reservedOf s - n" "\<And>s. ses_spentOf (fs s) \<le> ses_spentOf s + n"
    and fc: "\<And>c. counter_key (fc c) = counter_key c" "\<And>c. day_reservedMinor (fc c) = day_reservedMinor c - n"
    and a': "att_attemptId a' = i" "\<not> is_held a'" "attempt_coherent a'"
  shows "ledger_inv ss' (update_first (\<lambda>y. att_attemptId y = i) (\<lambda>_. a') as) cs'"
proof -
  define as' where "as' = update_first (\<lambda>y. att_attemptId y = i) (\<lambda>_. a') as"
  from inv have dist: "distinct (map ses_publicId ss)" "distinct (map att_attemptId as)" "distinct (map counter_key cs)"
    by (simp_all add: ledger_inv_def)
  from ss' obtain s where s: "s \<in> set ss" "ses_publicId s = att_sessionId a" "set ss' = insert (fs s) (set ss - {s})"
      "map ses_publicId ss' = map ses_publicId ss"
    by (rule find_and_update_keys [OF dist(1), where k = "att_sessionId a"]) (use fs in auto)
  from cs' obtain c where c: "c \<in> set cs" "is_counter (att_sessionId a) day c" "set cs' = insert (fc c) (set cs - {c})"
      "map counter_key cs' = map counter_key cs"
    by (rule find_and_update_keys [OF dist(3), where k = "(att_sessionId a, day)"]) (use fc in \<open>auto simp: is_counter_key\<close>)
  have as: "set as' = insert a' (set as - {a})" unfolding as'_def by (rule set_update_find [OF dist(2) a]) simp
  have keys: "map att_attemptId as' = map att_attemptId as"
    unfolding as'_def by (rule map_update_first) (use a'(1) in auto)
  have for_as': "held_for j as' = held_for j as - (if j = att_sessionId a then n else 0)" for j
    unfolding held_for_def as'_def using total_update_first [OF a] held a'(2) n by simp
  have on_as': "held_on j k as' = held_on j k as - (if j = att_sessionId a \<and> k = day then n else 0)" for j k
    unfolding held_on_def as'_def using total_update_first [OF a] held a'(2) n day by simp
  have "session_ok as' x" if "x \<in> set ss'" for x
  proof (cases "x = fs s")
    case True
    have "ses_reservedOf s = held_for (ses_publicId s) as" "ses_spentOf s + ses_reservedOf s \<le> ses_limitOf s"
      using inv s(1) by (auto simp: ledger_inv_def session_ok_def)
    with True s(2) fs(1,2,3) fs(4) [of s] for_as' show ?thesis by (simp add: session_ok_def)
  next
    case False
    with that s have x: "x \<in> set ss" "x \<noteq> s" by auto
    then have "ses_publicId x \<noteq> att_sessionId a"
      using find_unique_key [OF dist(1) x(1)] find_unique_key [OF dist(1) s(1)] s(2) by auto
    then have "held_for (ses_publicId x) as' = held_for (ses_publicId x) as" using for_as' by simp
    moreover have "ses_reservedOf x = held_for (ses_publicId x) as" "ses_spentOf x + ses_reservedOf x \<le> ses_limitOf x"
      using inv x(1) by (auto simp: ledger_inv_def session_ok_def)
    ultimately show ?thesis by (simp add: session_ok_def counter_ok_def)
  qed
  moreover have "counter_ok as' x" if "x \<in> set cs'" for x
  proof (cases "x = fc c")
    case True
    have "day_reservedMinor c = held_on (day_sessionId c) (day_day c) as" using inv c(1) by (auto simp: ledger_inv_def counter_ok_def)
    moreover have "day_sessionId (fc c) = att_sessionId a" "day_day (fc c) = day" "day_sessionId c = att_sessionId a"
        "day_day c = day"
      using c(2) fc(1) [of c] by (simp_all add: is_counter_key counter_key_def)
    ultimately show ?thesis using True fc(2) on_as' by (simp add: counter_ok_def)
  next
    case False
    with that c have x: "x \<in> set cs" "x \<noteq> c" by auto
    then have "counter_key x \<noteq> (att_sessionId a, day)"
      using find_unique_key [OF dist(3) x(1)] find_unique_key [OF dist(3) c(1)] c(2) by (auto simp: is_counter_key)
    then have "held_on (day_sessionId x) (day_day x) as' = held_on (day_sessionId x) (day_day x) as"
      using on_as' by (auto simp: counter_key_def)
    moreover have "day_reservedMinor x = held_on (day_sessionId x) (day_day x) as"
      using inv x(1) by (auto simp: ledger_inv_def counter_ok_def)
    ultimately show ?thesis by (simp add: session_ok_def counter_ok_def)
  qed
  moreover have "attempt_coherent x \<and> (is_held x \<longrightarrow> held_attempt_ok ss' cs' x)" if "x \<in> set as'" for x
  proof (cases "x = a'")
    case True
    with a' show ?thesis by simp
  next
    case False
    with that as have x: "x \<in> set as" by auto
    have "held_attempt_ok ss' cs' x" if "is_held x"
    proof -
      have "held_attempt_ok ss cs x" using inv x that by (simp add: ledger_inv_def)
      moreover have "ses_publicId ` set ss' = ses_publicId ` set ss" using s(4) by (metis list.set_map)
      moreover have "counter_key ` set cs' = counter_key ` set cs" using c(4) by (metis list.set_map)
      ultimately show ?thesis
        unfolding held_attempt_ok_def is_counter_key by (metis (no_types, lifting) imageE imageI)
    qed
    with inv x show ?thesis by (simp add: ledger_inv_def)
  qed
  ultimately show ?thesis
    using dist s(4) c(4) keys by (auto simp: ledger_inv_def simp flip: as'_def)
qed


text \<open>A counter appears; an amount is reserved for a new attempt.\<close>

lemma new_counter_inv:
  assumes inv: "ledger_inv ss as cs" and fresh: "\<forall>c \<in> set cs. \<not> is_counter i day c"
    and c: "counter_key c = (i, day)" "day_reservedMinor c = 0"
  shows "ledger_inv ss as (cs @ [c])"
proof -
  have "held_on i day as = total (\<lambda>_. False) att_minor as"
    unfolding held_on_def
    by (rule total_cong) (use inv fresh in \<open>auto simp: ledger_inv_def held_attempt_ok_def\<close>)
  then have "held_on i day as = 0" by (simp add: total_def)
  moreover have "day_sessionId c = i" "day_day c = day" using c(1) by (simp_all add: counter_key_def)
  moreover have "held_attempt_ok ss (cs @ [c]) a" if "held_attempt_ok ss cs a" for a
    using that by (auto simp: held_attempt_ok_def)
  moreover have "counter_ok as c" using calculation(1-3) c(2) by (simp add: counter_ok_def)
  ultimately show ?thesis
    using inv fresh c by (auto simp: ledger_inv_def is_counter_key)
qed

lemma reserve_inv:
  assumes inv: "ledger_inv ss as cs"
    and ss': "find_and_update p (inc_session_reserved n) ss = Some (s', ss')"
    and cs': "find_and_update q (inc_day_reserved n) cs = Some (c', cs')"
    and p: "\<And>s. p s \<Longrightarrow> ses_publicId s = i \<and> ses_spentOf s + ses_reservedOf s + n \<le> ses_limitOf s"
    and q: "\<And>c. q c \<Longrightarrow> is_counter i day c"
    and a: "is_held a" "att_sessionId a = i" "att_reservationDay a = Some day" "att_minor a = n" "0 \<le> n" "day \<noteq> []"
      "attempt_coherent a" and fresh: "\<forall>x \<in> set as. att_attemptId x \<noteq> att_attemptId a"
  shows "ledger_inv ss' (as @ [a]) cs'"
proof -
  from inv have dist: "distinct (map ses_publicId ss)" "distinct (map att_attemptId as)" "distinct (map counter_key cs)"
    by (simp_all add: ledger_inv_def)
  from ss' obtain s where s: "s \<in> set ss" "p s" "set ss' = insert (inc_session_reserved n s) (set ss - {s})"
      "map ses_publicId ss' = map ses_publicId ss"
    by (rule find_and_update_keys [OF dist(1), where k = i]) (use p in \<open>auto simp: inc_session_reserved_def\<close>)
  from cs' obtain c where c: "c \<in> set cs" "q c" "set cs' = insert (inc_day_reserved n c) (set cs - {c})"
      "map counter_key cs' = map counter_key cs"
    by (rule find_and_update_keys [OF dist(3), where k = "(i, day)"])
      (use q in \<open>auto simp: is_counter_key inc_day_reserved_def counter_key_def\<close>)
  note si = p [OF s(2)] and ci = q [OF c(2)]
  have for_as: "held_for j (as @ [a]) = held_for j as + (if j = i then n else 0)" for j
    using a by (simp add: held_for_def)
  have on_as: "held_on j k (as @ [a]) = held_on j k as + (if j = i \<and> k = day then n else 0)" for j k
    using a by (simp add: held_on_def)
  have "session_ok (as @ [a]) x" if "x \<in> set ss'" for x
  proof (cases "x = inc_session_reserved n s")
    case True
    have "ses_reservedOf s = held_for (ses_publicId s) as" using inv s(1) by (auto simp: ledger_inv_def session_ok_def)
    with True si for_as show ?thesis
      by (simp add: session_ok_def inc_session_reserved_def ses_reservedOf_def ses_spentOf_def ses_limitOf_def)
  next
    case False
    with that s have x: "x \<in> set ss" "x \<noteq> s" by auto
    then have "ses_publicId x \<noteq> i"
      using find_unique_key [OF dist(1) x(1)] find_unique_key [OF dist(1) s(1)] si by auto
    then have "held_for (ses_publicId x) (as @ [a]) = held_for (ses_publicId x) as" using for_as by simp
    moreover have "ses_reservedOf x = held_for (ses_publicId x) as" "ses_spentOf x + ses_reservedOf x \<le> ses_limitOf x"
      using inv x(1) by (auto simp: ledger_inv_def session_ok_def)
    ultimately show ?thesis by (simp add: session_ok_def counter_ok_def)
  qed
  moreover have "counter_ok (as @ [a]) x" if "x \<in> set cs'" for x
  proof (cases "x = inc_day_reserved n c")
    case True
    have "day_reservedMinor c = held_on (day_sessionId c) (day_day c) as" using inv c(1) by (auto simp: ledger_inv_def counter_ok_def)
    with True ci on_as show ?thesis by (simp add: counter_ok_def inc_day_reserved_def is_counter_def)
  next
    case False
    with that c have x: "x \<in> set cs" "x \<noteq> c" by auto
    then have "counter_key x \<noteq> (i, day)"
      using find_unique_key [OF dist(3) x(1)] find_unique_key [OF dist(3) c(1)] ci by (auto simp: is_counter_key)
    then have "held_on (day_sessionId x) (day_day x) (as @ [a]) = held_on (day_sessionId x) (day_day x) as"
      using on_as by (auto simp: counter_key_def)
    moreover have "day_reservedMinor x = held_on (day_sessionId x) (day_day x) as"
      using inv x(1) by (auto simp: ledger_inv_def counter_ok_def)
    ultimately show ?thesis by (simp add: session_ok_def counter_ok_def)
  qed
  moreover have pub: "ses_publicId ` set ss' = ses_publicId ` set ss" using s(4) by (metis list.set_map)
  moreover have ck: "counter_key ` set cs' = counter_key ` set cs" using c(4) by (metis list.set_map)
  moreover have "held_attempt_ok ss' cs' x" if "held_attempt_ok ss cs x" for x
    using that pub ck unfolding held_attempt_ok_def is_counter_key by (metis (no_types, lifting) imageE imageI)
  moreover have "i \<in> ses_publicId ` set ss" using s(1) si by (metis imageI)
  then have "held_attempt_ok ss cs a"
    using a ci c(1) by (auto simp: held_attempt_ok_def has_day_def)
  ultimately show ?thesis
    using inv s(4) c(4) fresh a(7) by (auto simp: ledger_inv_def)
qed

lemma isoDay_nonempty [simp]: "chargeReservationDay t \<noteq> []"
  by (simp add: chargeReservationDay_def isoDay_def split: prod.splits)

text \<open>The outcomes of a reservation.\<close>

lemma reserve_body_Inr:
  assumes "reserve_body now i d = (Inr (a, created), d')"
  obtains (existing) "existingAttempt (ri_sessionId i) (ri_idempotencyKey i) d = Some a" and "\<not> created" and "d' = d"
    | (new) assetId s ss c cs where "existingAttempt (ri_sessionId i) (ri_idempotencyKey i) d = None" and "created"
      and "a = new_attempt now i assetId" and "0 \<le> ri_amountMinor i"
      and "find_and_update (reservable_session i) (inc_session_reserved (ri_amountMinor i)) (sessions d) = Some (s, ss)"
      and "find_and_update
            (\<lambda>c. is_counter (ri_sessionId i) (chargeReservationDay now) c
              \<and> dailyReservationExpression (ri_amountMinor i) (ri_dailyLimitMinor i) c)
            (inc_day_reserved (ri_amountMinor i)) (day_counters (upsert_counter (ri_sessionId i) now d)) = Some (c, cs)"
      and "\<forall>x \<in> set (attempts d). \<not> attempt_clash a x"
      and "d' = (upsert_counter (ri_sessionId i) now d)\<lparr>sessions := ss, day_counters := cs, attempts := attempts d @ [a]\<rparr>"
proof (cases "existingAttempt (ri_sessionId i) (ri_idempotencyKey i) d")
  case (Some x)
  with assms have "x = a" "\<not> created" "d' = d" by (simp_all add: reserve_body_def)
  with Some show thesis by (intro existing) simp_all
next
  case None
  define d1 where "d1 = upsert_counter (ri_sessionId i) now d"
  have fr: "sessions d1 = sessions d" "attempts d1 = attempts d"
    by (simp_all add: d1_def upsert_counter_def Let_def)
  from assms None obtain s ss where s:
      "find_and_update (reservable_session i) (inc_session_reserved (ri_amountMinor i)) (sessions d1) = Some (s, ss)"
    by (auto simp: reserve_body_def Let_def d1_def split: option.splits)
  from assms None s obtain c cs where c:
      "find_and_update
            (\<lambda>c. is_counter (ri_sessionId i) (chargeReservationDay now) c
              \<and> dailyReservationExpression (ri_amountMinor i) (ri_dailyLimitMinor i) c)
            (inc_day_reserved (ri_amountMinor i)) (day_counters d1) = Some (c, cs)"
    by (auto simp: reserve_body_def Let_def d1_def split: option.splits)
  from assms None s c obtain assetId where asset:
      "bindE (legacyMinorToAtomicAmount (ri_amountMinor i)) (\<lambda>_. assetIdForLegacyCurrency (ri_currency i)) = Inr assetId"
    by (auto simp: reserve_body_def Let_def d1_def split: sum.splits)
  from asset have n: "0 \<le> ri_amountMinor i" by (auto simp: legacy_Inr)
  have a: "insert_row (attempt_clash (new_attempt now i assetId)) (new_attempt now i assetId) (attempts d) = Some (attempts d')"
      "a = new_attempt now i assetId" "created" "d' = d1\<lparr>sessions := ss, day_counters := cs, attempts := attempts d'\<rparr>"
    using assms None s c asset fr
    unfolding reserve_body_def Let_def d1_def [symmetric] by (simp_all split: option.splits) (auto split: option.splits)
  show thesis
    by (rule new [OF None a(3,2) n]) (use s c a fr in \<open>auto simp: insert_row_Some d1_def\<close>)
qed

lemma reserve_body_inv:
  assumes "reserve_body now i d = (Inr (a, created), d')" and inv: "charge_inv d"
  shows "charge_inv d'"
  using assms(1)
proof (cases rule: reserve_body_Inr)
  case existing
  with inv show ?thesis by simp
next
  case (new assetId s ss c cs)
  define d1 where "d1 = upsert_counter (ri_sessionId i) now d"
  have inv1: "ledger_inv (sessions d) (attempts d) (day_counters d1)"
    using inv new_counter_inv [of "sessions d" "attempts d" "day_counters d" "ri_sessionId i" "chargeReservationDay now"]
    by (auto simp: charge_inv_def d1_def upsert_counter_def Let_def list_ex_iff counter_key_def)
  have a: "is_held a" "att_sessionId a = ri_sessionId i" "att_reservationDay a = Some (chargeReservationDay now)"
      "att_minor a = ri_amountMinor i" "attempt_coherent a" "att_attemptId a = ri_attemptId i"
    by (simp_all add: new(3) new_attempt_def is_held_def att_minor_def attempt_coherent_def)
  have "ledger_inv ss (attempts d @ [a]) cs"
    by (rule reserve_inv [OF inv1 new(5) new(6) [folded d1_def] _ _ a(1-4) new(4) _ a(5)])
      (use new(7) in \<open>auto simp: reservable_session_iff sessionReservationExpression_def attempt_clash_def\<close>)
  with new(8) show ?thesis by (simp add: charge_inv_def)
qed


subsection \<open>Steps of the service\<close>

lemma update_attempt_eq:
  "snd (update_attempt p f d) = d\<lparr>attempts := update_first p f (attempts d)\<rparr>"
  by (auto simp: update_attempt_def find_and_update_def update_first_none split: option.splits)

lemma update_attempt_snd: "update_attempt p f d = (r, d') \<Longrightarrow> d' = d\<lparr>attempts := update_first p f (attempts d)\<rparr>"
  using update_attempt_eq [of p f d] by simp

text \<open>The part of the database the ledger is about.\<close>

definition same_ledger :: "'a core_db_scheme \<Rightarrow> 'a core_db_scheme \<Rightarrow> bool" where
  "same_ledger d d' \<longleftrightarrow> sessions d' = sessions d \<and> attempts d' = attempts d \<and> day_counters d' = day_counters d"

lemma same_ledger_trans: "same_ledger d e \<Longrightarrow> same_ledger e f \<Longrightarrow> same_ledger d f"
  by (simp add: same_ledger_def)

lemma spend_frame: "spendFundingAllocation now j n d = (Inr w, d') \<Longrightarrow> same_ledger d d' \<and> receipts d' = receipts d"
  by (erule spend_Inr) (simp_all add: same_ledger_def)

lemma release_frame: "releaseFundingAllocation now j d = (Inr w, d') \<Longrightarrow> same_ledger d d' \<and> receipts d' = receipts d"
  by (erule release_Inr) (simp_all add: same_ledger_def)

lemma direct_receipt_frame:
  assumes "createDirectChargeReceipt sha now a w d = (r, d')"
  shows "\<exists>rs. d' = d\<lparr>receipts := rs\<rparr>"
proof -
  have "\<exists>rs. d' = d\<lparr>receipts := rs\<rparr>" if "createPaymentReceipt sha now i d = (x, d')" for i x
    using createPaymentReceipt_frame [OF that] by blast
  moreover have "\<exists>rs. d = d\<lparr>receipts := rs\<rparr>" by (metis core_db.surjective core_db.update_convs(6))
  ultimately show ?thesis
    using assms by (auto simp: createDirectChargeReceipt_def split: if_splits sum.splits prod.splits)
qed

lemma queue_frame: "same_ledger d (snd (queueReceiptNotifications sha now i d))"
  using queueReceiptNotifications_frame [of sha now i d] by (cases "queueReceiptNotifications sha now i d") (auto simp: same_ledger_def)

lemma release_body_Inr:
  assumes "release_body now i failure d = (Inr u, d')"
  obtains (unchanged) "d' = d"
    | (released) a s ss c cs where "find_charge i d = Some a" and "is_held a" and "has_day a"
      and "find_and_update (\<lambda>s. ses_publicId s = att_sessionId a \<and> holds_reserved (att_minor a) s)
            (inc_session_reserved (- att_minor a)) (sessions d) = Some (s, ss)"
      and "find_and_update (\<lambda>c. is_counter (att_sessionId a) (opt_or (att_reservationDay a) []) c \<and> att_minor a \<le> day_reservedMinor c)
            (inc_day_reserved (- att_minor a)) (day_counters d) = Some (c, cs)"
      and "d' = save_attempt (failed_attempt now failure a) (d\<lparr>sessions := ss, day_counters := cs\<rparr>)"
proof (cases "find_charge i d")
  case None
  with assms have "d' = d" by (simp add: release_body_def)
  then show thesis by (rule unchanged)
next
  case (Some a)
  show thesis
  proof (cases "att_reserveStatus a = RS_released \<or> att_status a = A_failed")
    case True
    with assms Some have "d' = d" by (simp add: release_body_def)
    then show thesis by (rule unchanged)
  next
    case False
    with assms Some have h: "is_held a" "has_day a" by (auto simp: release_body_def is_held_def split: if_splits)
    with assms Some False obtain s ss c cs where
        "find_and_update (\<lambda>s. ses_publicId s = att_sessionId a \<and> holds_reserved (att_minor a) s)
            (inc_session_reserved (- att_minor a)) (sessions d) = Some (s, ss)"
        "find_and_update (\<lambda>c. is_counter (att_sessionId a) (opt_or (att_reservationDay a) []) c \<and> att_minor a \<le> day_reservedMinor c)
            (inc_day_reserved (- att_minor a)) (day_counters d) = Some (c, cs)"
        "d' = save_attempt (failed_attempt now failure a) (d\<lparr>sessions := ss, day_counters := cs\<rparr>)"
      by (auto simp: release_body_def Let_def is_held_def split: option.splits)
    then show thesis by (rule released [OF Some h])
  qed
qed

lemma finalize_body_Inr:
  assumes "finalize_body sha now i d = (Inr (b, rid), d')"
  obtains (again) w where "find_charge i d = Some b" and "att_status b = A_succeeded" and "att_reserveStatus b = RS_debited"
      and "receipt_owner b d = Some w" and "createDirectChargeReceipt sha now b w d = (Inr rid, d')"
    | (settled) a s ss c cs d1 d2 n1 n2 where "find_charge i d = Some a" and "is_held a" and "has_day a"
      and "att_providerStatus a = P_succeeded"
      and "find_and_update (\<lambda>s. ses_publicId s = att_sessionId a \<and> holds_reserved (att_minor a) s)
            (settle_session a (att_minor a)) (sessions d) = Some (s, ss)"
      and "find_and_update (\<lambda>c. is_counter (att_sessionId a) (opt_or (att_reservationDay a) []) c \<and> att_minor a \<le> day_reservedMinor c)
            (settle_day (att_minor a)) (day_counters d) = Some (c, cs)"
      and "spendFundingAllocation now (att_sessionId a) (att_minor a) (d\<lparr>sessions := ss, day_counters := cs\<rparr>) = (Inr n1, d1)"
      and "(if ses_singleUse s then releaseFundingAllocation now (att_sessionId a) d1 else (Inr 0, d1)) = (Inr n2, d2)"
      and "b = succeeded_attempt now a"
      and "createDirectChargeReceipt sha now b (ses_ownerWalletId s) (save_attempt b d2) = (Inr rid, d')"
proof (cases "find_charge i d")
  case None
  with assms show thesis by (simp add: finalize_body_def)
next
  case (Some a)
  show thesis
  proof (cases "att_status a = A_succeeded \<and> att_reserveStatus a = RS_debited")
    case True
    with assms Some obtain w where "receipt_owner a d = Some w"
        "chain (createDirectChargeReceipt sha now a w) (\<lambda>receiptId d'. (Inr (a, receiptId), d')) d = (Inr (b, rid), d')"
      by (auto simp: finalize_body_def split: option.splits list.splits)
    with True Some show thesis by (intro again) (auto simp: chain_eq_Inr)
  next
    case False
    with assms Some have h: "is_held a" "has_day a" "att_providerStatus a = P_succeeded"
      and fin: "finalize_settle sha now a d = (Inr (b, rid), d')"
      by (auto simp: finalize_body_def is_held_def split: if_splits)
    from fin obtain s ss where s: "find_and_update (\<lambda>s. ses_publicId s = att_sessionId a \<and> holds_reserved (att_minor a) s)
            (settle_session a (att_minor a)) (sessions d) = Some (s, ss)"
      by (auto simp: finalize_settle_def Let_def split: option.splits)
    with fin obtain c cs where c: "find_and_update (\<lambda>c. is_counter (att_sessionId a) (opt_or (att_reservationDay a) []) c
            \<and> att_minor a \<le> day_reservedMinor c) (settle_day (att_minor a)) (day_counters d) = Some (c, cs)"
      by (auto simp: finalize_settle_def Let_def split: option.splits)
    from fin s c obtain n1 d1 n2 d2 where rest:
        "spendFundingAllocation now (att_sessionId a) (att_minor a) (d\<lparr>sessions := ss, day_counters := cs\<rparr>) = (Inr n1, d1)"
        "(if ses_singleUse s then releaseFundingAllocation now (att_sessionId a) d1 else (Inr 0, d1)) = (Inr n2, d2)"
        "b = succeeded_attempt now a"
        "createDirectChargeReceipt sha now b (ses_ownerWalletId s) (save_attempt b d2) = (Inr rid, d')"
      by (auto simp: finalize_settle_def Let_def chain_eq_Inr split: if_splits)
    show thesis by (rule settled [OF Some h s c rest])
  qed
qed


inductive charge_step :: "(string \<Rightarrow> string) \<Rightarrow> 'a core_db_scheme \<Rightarrow> 'a core_db_scheme \<Rightarrow> bool" for sha where
    reserve: "reserveChargeAttempt now i d = (r, d') \<Longrightarrow> charge_step sha d d'"
  | claim: "claimChargeExecution attemptId leaseId now d = (o1, d') \<Longrightarrow> charge_step sha d d'"
  | submit: "markChargeProviderSubmitted attemptId leaseId now d = (o2, d') \<Longrightarrow> charge_step sha d d'"
  | correlate: "setChargeProviderCorrelation attemptId leaseId c h d = (o3, d') \<Longrightarrow> charge_step sha d d'"
  | succeed: "markChargeProviderSucceeded attemptId result now d = (o4, d') \<Longrightarrow> charge_step sha d d'"
  | uncertain: "markChargeOutcomeUncertain attemptId failure d = d' \<Longrightarrow> charge_step sha d d'"
  | release: "releaseChargeReservation now attemptId failure d = (u, d') \<Longrightarrow> charge_step sha d d'"
  | finalize: "finalizeChargeReservation sha now attemptId d = (a, d') \<Longrightarrow> charge_step sha d d'"

inductive charge_history :: "(string \<Rightarrow> string) \<Rightarrow> 'a core_db_scheme \<Rightarrow> 'a core_db_scheme \<Rightarrow> bool" for sha d0 where
    start: "charge_history sha d0 d0"
  | more: "charge_history sha d0 d \<Longrightarrow> charge_step sha d d' \<Longrightarrow> charge_history sha d0 d'"

text \<open>
  What a step does to the ledger, as one of five cases; the invariant and the accounts are then
  checked case by case.
\<close>

definition attempt_edit :: "'a core_db_scheme \<Rightarrow> 'a core_db_scheme \<Rightarrow> bool" where
  "attempt_edit d d' \<longleftrightarrow> (\<exists>p f. same_ledger (d\<lparr>attempts := update_first p f (attempts d)\<rparr>) d'
     \<and> (\<forall>a. p a \<longrightarrow> bookkeeping f a \<and> is_held a \<and> att_status a \<in> {A_pending, A_uncertain}))"

definition unreserved :: "(int \<Rightarrow> session \<Rightarrow> session) \<Rightarrow> (int \<Rightarrow> daily_counter \<Rightarrow> daily_counter) \<Rightarrow> charge_attempt
    \<Rightarrow> charge_attempt \<Rightarrow> 'a core_db_scheme \<Rightarrow> 'a core_db_scheme \<Rightarrow> bool" where
  "unreserved fs fc a a' d d' \<longleftrightarrow> (\<exists>s c.
     find_charge (att_attemptId a) d = Some a \<and> is_held a \<and> has_day a \<and> att_attemptId a' = att_attemptId a
     \<and> find_and_update (\<lambda>s. ses_publicId s = att_sessionId a \<and> holds_reserved (att_minor a) s) (fs (att_minor a)) (sessions d)
         = Some (s, sessions d')
     \<and> find_and_update (\<lambda>c. is_counter (att_sessionId a) (opt_or (att_reservationDay a) []) c \<and> att_minor a \<le> day_reservedMinor c)
         (fc (att_minor a)) (day_counters d) = Some (c, day_counters d')
     \<and> attempts d' = update_first (\<lambda>y. att_attemptId y = att_attemptId a) (\<lambda>_. a') (attempts d))"

lemma find_charge_id: "find_charge i d = Some a \<Longrightarrow> att_attemptId a = i \<and> a \<in> set (attempts d)"
  unfolding find_charge_def by (auto dest: find_SomeD)

lemma same_ledger_refl [simp]: "same_ledger d d"
  by (simp add: same_ledger_def)

lemma no_edit: "same_ledger d d' \<Longrightarrow> attempt_edit d d'"
proof -
  have "update_first (\<lambda>_. False) id xs = xs" for xs :: "charge_attempt list" by (induction xs) auto
  then show "same_ledger d d' \<Longrightarrow> attempt_edit d d'"
    unfolding attempt_edit_def same_ledger_def by (intro exI [of _ "\<lambda>_. False"] exI [of _ id]) simp
qed

lemma edit_by_update:
  assumes "update_attempt p f d = (r, d')"
    and "\<And>a. p a \<Longrightarrow> bookkeeping f a \<and> is_held a \<and> att_status a \<in> {A_pending, A_uncertain}"
  shows "attempt_edit d d'"
  unfolding attempt_edit_def using assms by (auto simp: update_attempt_snd [OF assms(1)] intro!: exI [of _ p] exI [of _ f])

lemma release_step_cases:
  assumes "releaseChargeReservation now i failure d = (u, d')"
  shows "attempt_edit d d' \<or> (\<exists>a. unreserved (\<lambda>n. inc_session_reserved (- n)) (\<lambda>n. inc_day_reserved (- n)) a
           (failed_attempt now failure a) d d')"
  using assms unfolding releaseChargeReservation_def
proof (cases rule: transaction_cases)
  case (aborted e)
  then show ?thesis by (simp add: no_edit)
next
  case (committed v)
  from committed(2) show ?thesis
  proof (cases rule: release_body_Inr)
    case unchanged
    then show ?thesis by (simp add: no_edit)
  next
    case (released a s ss c cs)
    then have "unreserved (\<lambda>n. inc_session_reserved (- n)) (\<lambda>n. inc_day_reserved (- n)) a (failed_attempt now failure a) d d'"
      using find_charge_id [OF released(1)]
      by (auto simp: unreserved_def save_attempt_def failed_attempt_def)
    then show ?thesis by blast
  qed
qed

lemma finalize_body_step:
  assumes "finalize_body sha now i d = (Inr (b, rid), d')"
  shows "same_ledger d d' \<or> (\<exists>a. b = succeeded_attempt now a \<and>
      unreserved (settle_session a) settle_day a b d d')"
  using assms
proof (cases rule: finalize_body_Inr)
  case (again w)
  from direct_receipt_frame [OF again(5)] show ?thesis by (auto simp: same_ledger_def)
next
  case (settled a s ss c cs d1 d2 n1 n2)
  have "same_ledger (d\<lparr>sessions := ss, day_counters := cs\<rparr>) d1" using spend_frame [OF settled(7)] by simp
  moreover have "same_ledger d1 d2"
    using settled(8) release_frame [of now "att_sessionId a" d1 n2 d2] by (auto split: if_splits)
  ultimately have d2: "same_ledger (d\<lparr>sessions := ss, day_counters := cs\<rparr>) d2" by (rule same_ledger_trans)
  obtain rs where "d' = (save_attempt b d2)\<lparr>receipts := rs\<rparr>" using direct_receipt_frame [OF settled(10)] by blast
  with d2 have "sessions d' = ss" "day_counters d' = cs"
      "attempts d' = update_first (\<lambda>y. att_attemptId y = att_attemptId a) (\<lambda>_. b) (attempts d)"
    by (simp_all add: same_ledger_def save_attempt_def settled(9) succeeded_attempt_def)
  with settled find_charge_id [OF settled(1)] have "unreserved (settle_session a) settle_day a b d d'"
    by (auto simp: unreserved_def succeeded_attempt_def)
  with settled(9) show ?thesis by blast
qed

lemma finalize_step_cases:
  assumes "finalizeChargeReservation sha now i d = (r, d')"
  shows "attempt_edit d d' \<or> (\<exists>a. unreserved (settle_session a) settle_day a (succeeded_attempt now a) d d')"
proof (cases "transaction (finalize_body sha now i) d")
  case (Pair r1 d1)
  then have "same_ledger d d1 \<or> (\<exists>a. unreserved (settle_session a) settle_day a (succeeded_attempt now a) d d1)"
  proof (cases rule: transaction_cases)
    case (committed v)
    then show ?thesis using finalize_body_step by (cases v) blast
  qed simp
  moreover have "same_ledger d1 d'"
    using assms Pair queue_frame [of d1 sha now]
    by (auto simp: finalizeChargeReservation_def split: sum.splits option.splits prod.splits)
  ultimately consider "same_ledger d d'"
    | a where "unreserved (settle_session a) settle_day a (succeeded_attempt now a) d d'"
    using same_ledger_trans by (auto simp: unreserved_def same_ledger_def)
  then show ?thesis using no_edit by cases blast+
qed

lemma reserve_step_cases:
  assumes "reserveChargeAttempt now i d = (r, d')"
  shows "d' = d \<or> (\<exists>a. reserve_body now i d = (Inr (a, True), d'))"
proof (cases "transaction (reserve_body now i) d")
  case (Pair r1 d1)
  then have "d1 = d \<or> (\<exists>a. reserve_body now i d = (Inr (a, True), d1))"
  proof (cases rule: transaction_cases)
    case (committed v)
    then show ?thesis by (cases v) (auto elim: reserve_body_Inr)
  qed simp
  with assms Pair show ?thesis
    by (auto simp: reserveChargeAttempt_def split: sum.splits error.splits option.splits)
qed

lemma charge_step_cases:
  assumes "charge_step sha d d'"
  obtains (edit) "attempt_edit d d'"
    | (reserved) now i a where "reserve_body now i d = (Inr (a, True), d')"
    | (released) now failure a where
        "unreserved (\<lambda>n. inc_session_reserved (- n)) (\<lambda>n. inc_day_reserved (- n)) a (failed_attempt now failure a) d d'"
    | (finalized) now a where "unreserved (settle_session a) settle_day a (succeeded_attempt now a) d d'"
  using assms
proof cases
  case (reserve now i r)
  with reserve_step_cases [OF reserve] that(1,2) no_edit [OF same_ledger_refl] show thesis by blast
next
  case (claim i l now r)
  show thesis
    by (rule edit, rule edit_by_update [OF claim [unfolded claimChargeExecution_def]])
      (auto simp: claimable_def bookkeeping_def is_held_def)
next
  case (submit i l now r)
  show thesis
    by (rule edit, rule edit_by_update [OF submit [unfolded markChargeProviderSubmitted_def]])
      (auto simp: held_by_def bookkeeping_def is_held_def)
next
  case (correlate i l c h r)
  show thesis
    by (rule edit, rule edit_by_update [OF correlate [unfolded setChargeProviderCorrelation_def]])
      (auto simp: held_by_def bookkeeping_def is_held_def)
next
  case (succeed i result now r)
  show thesis
    by (rule edit, rule edit_by_update [OF succeed [unfolded markChargeProviderSucceeded_def]])
      (auto simp: in_flight_def bookkeeping_def is_held_def)
next
  case (uncertain i failure)
  then have "\<exists>r. update_attempt (in_flight i)
       (\<lambda>a. a\<lparr>att_status := A_uncertain, att_providerStatus := P_uncertain, att_failureCode := Some failure\<rparr>) d = (r, d')"
    by (metis markChargeOutcomeUncertain_def prod.collapse)
  then show thesis
    by (elim exE, intro edit, elim edit_by_update) (auto simp: in_flight_def bookkeeping_def is_held_def)
next
  case (release now i failure u)
  with release_step_cases [OF release] that show thesis by blast
next
  case (finalize now i a)
  with finalize_step_cases [OF finalize] that show thesis by blast
qed


lemma unreserved_inv:
  assumes u: "unreserved fs fc a a' d d'" and inv: "charge_inv d"
    and fs: "\<And>s. ses_publicId (fs (att_minor a) s) = ses_publicId s" "\<And>s. ses_limitOf (fs (att_minor a) s) = ses_limitOf s"
      "\<And>s. ses_reservedOf (fs (att_minor a) s) = ses_reservedOf s - att_minor a"
      "\<And>s. 0 \<le> att_minor a \<Longrightarrow> ses_spentOf (fs (att_minor a) s) \<le> ses_spentOf s + att_minor a"
    and fc: "\<And>c. counter_key (fc (att_minor a) c) = counter_key c"
      "\<And>c. day_reservedMinor (fc (att_minor a) c) = day_reservedMinor c - att_minor a"
    and a': "\<not> is_held a'" "attempt_coherent a'"
  shows "charge_inv d'"
proof -
  from u obtain s c where u': "find_charge (att_attemptId a) d = Some a" "is_held a" "has_day a" "att_attemptId a' = att_attemptId a"
     "find_and_update (\<lambda>s. ses_publicId s = att_sessionId a \<and> holds_reserved (att_minor a) s) (fs (att_minor a)) (sessions d)
         = Some (s, sessions d')"
     "find_and_update (\<lambda>c. is_counter (att_sessionId a) (opt_or (att_reservationDay a) []) c \<and> att_minor a \<le> day_reservedMinor c)
         (fc (att_minor a)) (day_counters d) = Some (c, day_counters d')"
     "attempts d' = update_first (\<lambda>y. att_attemptId y = att_attemptId a) (\<lambda>_. a') (attempts d)"
    unfolding unreserved_def by blast
  obtain day where day: "att_reservationDay a = Some day" using u'(3) by (auto simp: has_day_def)
  have c: "find_and_update (\<lambda>c. is_counter (att_sessionId a) day c \<and> att_minor a \<le> day_reservedMinor c)
         (fc (att_minor a)) (day_counters d) = Some (c, day_counters d')"
    using u'(6) by (simp add: day)
  have "0 \<le> att_minor a"
    using inv u'(2) find_charge_id [OF u'(1)] by (auto simp: charge_inv_def ledger_inv_def held_attempt_ok_def)
  then show ?thesis
    unfolding charge_inv_def u'(7)
    by (intro unreserve_inv [OF inv [unfolded charge_inv_def] u'(1) [unfolded find_charge_def] u'(2) u'(5) c refl day])
      (simp_all add: fs fc a' u'(4))
qed

lemma settle_session_simps [simp]:
  "ses_publicId (settle_session a n s) = ses_publicId s" "ses_limitOf (settle_session a n s) = ses_limitOf s"
  "ses_reservedOf (settle_session a n s) = ses_reservedOf s - n" "ses_spentOf (settle_session a n s) = ses_spentOf s + n"
  by (simp_all add: settle_session_def inc_session_reserved_def ses_limitOf_def ses_reservedOf_def ses_spentOf_def)

lemma inc_session_reserved_simps [simp]:
  "ses_publicId (inc_session_reserved n s) = ses_publicId s" "ses_limitOf (inc_session_reserved n s) = ses_limitOf s"
  "ses_reservedOf (inc_session_reserved n s) = ses_reservedOf s + n" "ses_spentOf (inc_session_reserved n s) = ses_spentOf s"
  by (simp_all add: inc_session_reserved_def ses_limitOf_def ses_reservedOf_def ses_spentOf_def)

lemma day_simps [simp]:
  "counter_key (inc_day_reserved n c) = counter_key c" "day_reservedMinor (inc_day_reserved n c) = day_reservedMinor c + n"
  "counter_key (settle_day n c) = counter_key c" "day_reservedMinor (settle_day n c) = day_reservedMinor c - n"
  by (simp_all add: inc_day_reserved_def settle_day_def counter_key_def)

lemma closed_attempt_simps [simp]:
  "\<not> is_held (failed_attempt now failure a)" "attempt_coherent (failed_attempt now failure a)"
  "\<not> is_held (succeeded_attempt now a)" "attempt_coherent (succeeded_attempt now a)"
  by (simp_all add: is_held_def attempt_coherent_def failed_attempt_def succeeded_attempt_def)

lemma charge_step_inv:
  assumes "charge_step sha d d'" and inv: "charge_inv d"
  shows "charge_inv d'"
  using assms(1)
proof (cases rule: charge_step_cases)
  case edit
  then obtain p f where e: "same_ledger (d\<lparr>attempts := update_first p f (attempts d)\<rparr>) d'"
      "\<And>a. p a \<Longrightarrow> bookkeeping f a \<and> is_held a \<and> att_status a \<in> {A_pending, A_uncertain}"
    by (auto simp: attempt_edit_def)
  from bookkeeping_inv [OF inv [unfolded charge_inv_def] e(2)] e(1) show ?thesis
    by (simp add: charge_inv_def same_ledger_def)
next
  case (reserved now i a)
  from reserve_body_inv [OF reserved inv] show ?thesis .
next
  case (released now failure a)
  from released inv show ?thesis by (rule unreserved_inv) simp_all
next
  case (finalized now a)
  from finalized inv show ?thesis by (rule unreserved_inv) simp_all
qed

lemma charge_history_inv: "charge_history sha d0 d \<Longrightarrow> charge_inv d0 \<Longrightarrow> charge_inv d"
proof (induction rule: charge_history.induct)
  case (more d d')
  from charge_step_inv [OF more.hyps(2) more.IH [OF more.prems]] show ?case .
qed simp

subsection \<open>What was spent is what was finalized\<close>

definition debited_for :: "string \<Rightarrow> charge_attempt list \<Rightarrow> int" where
  "debited_for i as = total (\<lambda>a. att_reserveStatus a = RS_debited \<and> att_sessionId a = i) att_minor as"

lemma find_update_find:
  assumes "distinct (map key xs)" and "List.find p xs = Some x" and "\<And>y. p y \<Longrightarrow> key y = k" and "\<And>y. key (f y) = key y"
  shows "List.find (\<lambda>y. key y = i) (update_first p f xs)
    = (if i = k then Some (f x) else List.find (\<lambda>y. key y = i) xs)"
  using assms
proof (induction xs)
  case (Cons z zs)
  show ?case
  proof (cases "p z")
    case True
    with Cons.prems show ?thesis by auto
  next
    case False
    with Cons.prems(2) have x: "List.find p zs = Some x" by simp
    have "key z \<noteq> key x" using find_SomeD [OF x] Cons.prems(1) by auto
    then have "key z \<noteq> k" using find_SomeD [OF x] Cons.prems(3) by simp
    moreover have "List.find (\<lambda>y. key y = i) (update_first p f zs) = (if i = k then Some (f x) else List.find (\<lambda>y. key y = i) zs)"
      by (rule Cons.IH) (use Cons.prems x in auto)
    ultimately show ?thesis using False by (cases "i = k") simp_all
  qed
qed simp

text \<open>How one step moves a pass: its terms stay, and spent moves with the finalized attempts.\<close>

definition pass_moves :: "string \<Rightarrow> 'a core_db_scheme \<Rightarrow> 'a core_db_scheme \<Rightarrow> bool" where
  "pass_moves i d d' \<longleftrightarrow> (\<forall>s. find_session i d = Some s \<longrightarrow> (\<exists>s'. find_session i d' = Some s'
     \<and> ses_limitOf s' = ses_limitOf s \<and> ses_ownerWalletId s' = ses_ownerWalletId s \<and> ses_status s' = ses_status s
     \<and> ses_spentOf s' - debited_for i (attempts d') = ses_spentOf s - debited_for i (attempts d)))"

lemma pass_moves_trans: "pass_moves i d e \<Longrightarrow> pass_moves i e f \<Longrightarrow> pass_moves i d f"
  by (fastforce simp: pass_moves_def)

lemma session_update_moves:
  assumes inv: "charge_inv d" and up: "find_and_update p f (sessions d) = Some (s', sessions d')"
    and p: "\<And>s. p s \<Longrightarrow> ses_publicId s = k"
    and f: "\<And>s. ses_publicId (f s) = ses_publicId s \<and> ses_limitOf (f s) = ses_limitOf s
      \<and> ses_ownerWalletId (f s) = ses_ownerWalletId s \<and> ses_status (f s) = ses_status s \<and> ses_spentOf (f s) = ses_spentOf s + m"
    and deb: "debited_for i (attempts d') = debited_for i (attempts d) + (if i = k then m else 0)"
  shows "pass_moves i d d'"
proof -
  have dist: "distinct (map ses_publicId (sessions d))" using inv by (simp add: charge_inv_def ledger_inv_def)
  from up obtain s where s: "s \<in> set (sessions d)" "p s" "List.find p (sessions d) = Some s"
      "sessions d' = update_first p f (sessions d)"
    by (rule find_and_update_keys [OF dist, where k = k]) (use p f in auto)
  have "find_session i d' = (if i = k then Some (f s) else find_session i d)"
    unfolding find_session_def s(4) by (rule find_update_find [OF dist s(3) p]) (use f in auto)
  moreover have "find_session k d = Some s"
    unfolding find_session_def using find_unique_key [OF dist s(1)] p [OF s(2)] by simp
  ultimately show ?thesis using f deb by (auto simp: pass_moves_def)
qed

lemma debited_replace:
  assumes a: "find_charge j d = Some a" "att_reserveStatus a = RS_reserved"
    and as: "attempts d' = update_first (\<lambda>y. att_attemptId y = j) (\<lambda>_. a') (attempts d)"
    and a': "att_minor a' = att_minor a" "att_sessionId a' = att_sessionId a"
  shows "debited_for i (attempts d') = debited_for i (attempts d)
    + (if i = att_sessionId a \<and> att_reserveStatus a' = RS_debited then att_minor a else 0)"
  using total_update_first [OF a(1) [unfolded find_charge_def]] a(2) a' by (simp add: debited_for_def as)

lemma charge_step_moves:
  assumes "charge_step sha d d'" and inv: "charge_inv d"
  shows "pass_moves i d d'"
  using assms(1)
proof (cases rule: charge_step_cases)
  case edit
  then obtain p f where e: "same_ledger (d\<lparr>attempts := update_first p f (attempts d)\<rparr>) d'"
      "\<And>a. p a \<Longrightarrow> bookkeeping f a \<and> is_held a \<and> att_status a \<in> {A_pending, A_uncertain}"
    by (auto simp: attempt_edit_def)
  have "debited_for i (update_first p f (attempts d)) = debited_for i (attempts d)"
    unfolding debited_for_def by (rule total_update_same; use e(2) in \<open>simp add: bookkeeping_def att_minor_def\<close>)
  with e(1) show ?thesis by (simp add: pass_moves_def same_ledger_def find_session_def)
next
  case (reserved now j a)
  from reserved show ?thesis
  proof (cases rule: reserve_body_Inr)
    case (new assetId s ss c cs)
    show ?thesis
      by (rule session_update_moves [OF inv, where k = "ri_sessionId j" and m = 0 and s' = s
            and p = "reservable_session j" and f = "inc_session_reserved (ri_amountMinor j)"])
        (use new(5) in \<open>auto simp: new(8) reservable_session_iff inc_session_reserved_def ses_spentOf_def ses_limitOf_def
           debited_for_def new(3) new_attempt_def upsert_counter_def Let_def\<close>)
  qed simp
next
  case (released now failure a)
  then have a: "find_charge (att_attemptId a) d = Some a" "att_reserveStatus a = RS_reserved"
    "attempts d' = update_first (\<lambda>y. att_attemptId y = att_attemptId a) (\<lambda>_. failed_attempt now failure a) (attempts d)"
    by (auto simp: unreserved_def is_held_def)
  from released obtain s where s: "find_and_update (\<lambda>s. ses_publicId s = att_sessionId a \<and> holds_reserved (att_minor a) s)
      (inc_session_reserved (- att_minor a)) (sessions d) = Some (s, sessions d')"
    by (auto simp: unreserved_def)
  have "debited_for i (attempts d') = debited_for i (attempts d)"
    using debited_replace [OF a] by (simp add: failed_attempt_def att_minor_def)
  then show ?thesis
    by (intro session_update_moves [OF inv s, where k = "att_sessionId a" and m = 0])
      (auto simp: inc_session_reserved_def ses_spentOf_def ses_limitOf_def)
next
  case (finalized now a)
  then have a: "find_charge (att_attemptId a) d = Some a" "att_reserveStatus a = RS_reserved"
    "attempts d' = update_first (\<lambda>y. att_attemptId y = att_attemptId a) (\<lambda>_. succeeded_attempt now a) (attempts d)"
    by (auto simp: unreserved_def is_held_def)
  from finalized obtain s where s: "find_and_update (\<lambda>s. ses_publicId s = att_sessionId a \<and> holds_reserved (att_minor a) s)
      (settle_session a (att_minor a)) (sessions d) = Some (s, sessions d')"
    by (auto simp: unreserved_def)
  have "debited_for i (attempts d') = debited_for i (attempts d) + (if i = att_sessionId a then att_minor a else 0)"
    using debited_replace [OF a] by (simp add: succeeded_attempt_def att_minor_def)
  then show ?thesis
    by (intro session_update_moves [OF inv s, where k = "att_sessionId a" and m = "att_minor a"])
      (auto simp: settle_session_def inc_session_reserved_def ses_spentOf_def ses_limitOf_def)
qed

lemma charge_history_moves: "charge_history sha d0 d \<Longrightarrow> charge_inv d0 \<Longrightarrow> pass_moves i d0 d"
proof (induction rule: charge_history.induct)
  case start
  then show ?case by (simp add: pass_moves_def)
next
  case (more d d')
  with charge_history_inv charge_step_moves pass_moves_trans show ?case by metis
qed

text \<open>
  Property C1: a pass is never overspent by direct charges. Along any sequence of service calls, whatever
  their order, failures and repetitions, the reserved amount of every pass is the sum of its attempts
  still reserved, spent plus reserved stays within the limit, no reserved amount is negative, and the
  spent amount grows by exactly the amounts of the attempts finalized since: every attempt is debited
  at most once.
\<close>

theorem pass_never_overspent:
  assumes "charge_inv d0" and "charge_history sha d0 d" and "find_session i d0 = Some s0"
  shows "\<exists>s. find_session i d = Some s \<and> ses_limitOf s = ses_limitOf s0
    \<and> ses_reservedOf s = held_for i (attempts d) \<and> 0 \<le> ses_reservedOf s
    \<and> ses_spentOf s + ses_reservedOf s \<le> ses_limitOf s0
    \<and> ses_spentOf s - ses_spentOf s0 = debited_for i (attempts d) - debited_for i (attempts d0)"
proof -
  from charge_history_moves [OF assms(2,1), of i] assms(3) obtain s where s: "find_session i d = Some s"
      "ses_limitOf s = ses_limitOf s0"
      "ses_spentOf s - debited_for i (attempts d) = ses_spentOf s0 - debited_for i (attempts d0)"
    by (auto simp: pass_moves_def)
  have inv: "charge_inv d" using charge_history_inv assms(1,2) by blast
  have "s \<in> set (sessions d)" "ses_publicId s = i"
    using s(1) by (auto simp: find_session_def dest: find_SomeD)
  then have "session_ok (attempts d) s" "0 \<le> held_for i (attempts d)"
    using inv unfolding held_for_def
    by (auto simp: charge_inv_def ledger_inv_def held_attempt_ok_def intro!: total_nonneg)
  with s \<open>ses_publicId s = i\<close> show ?thesis by (auto simp: session_ok_def)
qed


definition sample_session :: session where
  "sample_session = \<lparr>ses_publicId = ''pass'', ses_ownerWalletId = ''w'', ses_status = S_active,
     ses_lifecycleState = None, ses_singleUse = False, ses_appId = None, ses_appGrantOwnerWalletId = None,
     ses_appPermissions = [], ses_autoMicroCharges = False, ses_expiryAt = None, ses_currency = ''CKB'',
     ses_assetId = None, ses_limit = 0, ses_limitMinor = Some 100, ses_limitAtomic = None, ses_spent = 0,
     ses_spentMinor = Some 0, ses_spentAtomic = None, ses_reservedMinor = None, ses_reservedAtomic = None,
     ses_fundingMode = None, ses_fundingExecutionReady = None, ses_lastChargeProofId = None,
     ses_fiberProvider = None, ses_fiberNetwork = None, ses_detail = blank_detail\<rparr>"

definition sample_reserve :: reserve_input where
  "sample_reserve = \<lparr>ri_attemptId = ''a1'', ri_sessionId = ''pass'', ri_ownerWalletId = ''w'', ri_appId = None,
     ri_apiKeyId = None, ri_idempotencyKey = ''k'', ri_requestFingerprint = ''f'', ri_serviceReference = None,
     ri_amount = 0, ri_amountMinor = 30, ri_currency = ''CKB'', ri_type = ''debit'', ri_executionLayer = X_fiber,
     ri_paymentRequestHash = None, ri_providerCorrelationId = None, ri_metadata = [], ri_dailyLimitMinor = 50,
     ri_executionLeaseId = ''lease'', ri_sessionMatch = any_session\<rparr>"

definition sample_charge_db :: core_db where
  "sample_charge_db = empty_db\<lparr>sessions := [sample_session]\<rparr>"

definition sample_attempt :: charge_attempt where
  "sample_attempt = new_attempt 0 sample_reserve ''ckb:ckb''"

definition sample_reserved_db :: core_db where
  "sample_reserved_db = sample_charge_db
     \<lparr>sessions := [sample_session\<lparr>ses_reservedMinor := Some 30\<rparr>], attempts := [sample_attempt],
      day_counters := [\<lparr>day_sessionId = ''pass'', day_day = chargeReservationDay 0, day_spentMinor = 0, day_reservedMinor = 30\<rparr>]\<rparr>"

lemmas sample_charge_simps = sample_session_def sample_reserve_def sample_charge_db_def sample_attempt_def
  sample_reserved_db_def empty_db_def new_attempt_def any_session_def

lemma legacy_value: "0 \<le> v \<Longrightarrow> v \<le> MAX_SAFE_INTEGER \<Longrightarrow> legacyMinorToAtomicAmount v = Inr (dec_of_nat (nat v))"
  by (simp add: legacy_Inr)

lemma sample_reserve_call: "reserveChargeAttempt 0 sample_reserve sample_charge_db = (Inr (sample_attempt, True), sample_reserved_db)"
proof -
  have "legacyMinorToAtomicAmount 30 = Inr (dec_of_nat 30)" by (simp add: legacy_value MAX_SAFE_INTEGER_def)
  moreover have "reservable_session sample_reserve sample_session"
    by (simp add: reservable_session_iff sample_charge_simps sessionReservationExpression_def ses_spentOf_def
        ses_reservedOf_def ses_limitOf_def)
  moreover define c where "c = \<lparr>day_sessionId = ''pass'', day_day = chargeReservationDay 0, day_spentMinor = 0, day_reservedMinor = 0\<rparr>"
  moreover have "upsert_counter ''pass'' 0 sample_charge_db = sample_charge_db\<lparr>day_counters := [c]\<rparr>"
    by (simp add: upsert_counter_def c_def historicalSpend_def sample_charge_db_def empty_db_def Let_def)
  moreover have "existingAttempt ''pass'' ''k'' sample_charge_db = None"
    by (simp add: existingAttempt_def sample_charge_db_def empty_db_def)
  moreover have "ri_sessionId sample_reserve = ''pass''" "ri_idempotencyKey sample_reserve = ''k''"
      "ri_amountMinor sample_reserve = 30" "ri_dailyLimitMinor sample_reserve = 50" "ri_currency sample_reserve = ''CKB''"
    by (simp_all add: sample_reserve_def)
  moreover have "sessions sample_charge_db = [sample_session]" "attempts sample_charge_db = []"
      "inc_session_reserved 30 sample_session = sample_session\<lparr>ses_reservedMinor := Some 30\<rparr>"
    by (simp_all add: sample_charge_db_def empty_db_def inc_session_reserved_def ses_reservedOf_def sample_session_def)
  ultimately have "reserve_body 0 sample_reserve sample_charge_db = (Inr (sample_attempt, True), sample_reserved_db)"
    by (simp add: reserve_body_def find_and_update_def asset_ckb insert_row_def Let_def is_counter_def
        dailyReservationExpression_def inc_day_reserved_def sample_attempt_def sample_reserved_db_def)
  then show ?thesis by (simp add: reserveChargeAttempt_def transaction_def)
qed

lemma sample_charge_inv: "charge_inv sample_charge_db"
  by (simp add: charge_inv_def ledger_inv_def session_ok_def held_for_def ses_reservedOf_def ses_spentOf_def
      ses_limitOf_def sample_charge_simps)

lemma sample_charge_history: "charge_history sha sample_charge_db sample_reserved_db"
  by (rule charge_history.more [OF charge_history.start], rule charge_step.reserve, rule sample_reserve_call)

theorem pass_never_overspent_witness:
  "\<exists>s. find_session ''pass'' sample_reserved_db = Some s \<and> ses_reservedOf s = held_for ''pass'' [sample_attempt]
    \<and> ses_spentOf s + ses_reservedOf s \<le> 100"
  using pass_never_overspent [OF sample_charge_inv sample_charge_history [of id], of "''pass''" sample_session]
  by (simp add: find_session_def sample_charge_simps) (simp add: ses_limitOf_def)

subsection \<open>Attempts only move forward\<close>

definition evolves :: "charge_attempt \<Rightarrow> charge_attempt \<Rightarrow> bool" where
  "evolves a b \<longleftrightarrow> att_attemptId b = att_attemptId a \<and> att_sessionId b = att_sessionId a
     \<and> att_idempotencyKey b = att_idempotencyKey a \<and> att_amountMinor b = att_amountMinor a
     \<and> (\<not> is_held a \<longrightarrow> b = a)
     \<and> (att_providerStatus b = P_not_started \<longrightarrow> att_providerStatus a = P_not_started)"

lemma evolves_refl [simp]: "evolves a a"
  by (simp add: evolves_def)

lemma evolves_trans: "evolves a b \<Longrightarrow> evolves b c \<Longrightarrow> evolves a c"
  by (auto simp: evolves_def is_held_def)

definition attempts_evolve :: "'a core_db_scheme \<Rightarrow> 'a core_db_scheme \<Rightarrow> bool" where
  "attempts_evolve d d' \<longleftrightarrow> (\<exists>bs new. attempts d' = bs @ new \<and> list_all2 evolves (attempts d) bs)"

lemma list_all2_update_first:
  "(\<And>x. R x x) \<Longrightarrow> (\<And>x. List.find p xs = Some x \<Longrightarrow> R x (f x)) \<Longrightarrow> list_all2 R xs (update_first p f xs)"
  by (induction xs) (auto simp: list_all2_refl)

lemma evolve_update:
  assumes "attempts d' = update_first p f (attempts d)" and "\<And>x. List.find p (attempts d) = Some x \<Longrightarrow> evolves x (f x)"
  shows "attempts_evolve d d'"
  unfolding attempts_evolve_def
  by (intro exI [of _ "attempts d'"] exI [of _ "[]"]) (use assms list_all2_update_first [of evolves] in auto)

lemma charge_step_evolves:
  assumes "charge_step sha d d'"
  shows "attempts_evolve d d'"
  using assms
proof (cases rule: charge_step_cases)
  case edit
  then obtain p f where e: "attempts d' = update_first p f (attempts d)"
      "\<And>a. p a \<Longrightarrow> bookkeeping f a \<and> is_held a \<and> att_status a \<in> {A_pending, A_uncertain}"
    by (auto simp: attempt_edit_def same_ledger_def)
  show ?thesis
    by (rule evolve_update [OF e(1)]) (use e(2) find_SomeD in \<open>fastforce simp: evolves_def bookkeeping_def\<close>)
next
  case (reserved now i a)
  then have "\<exists>new. attempts d' = attempts d @ new" by (cases rule: reserve_body_Inr) auto
  moreover have "list_all2 evolves (attempts d) (attempts d)" by (rule list_all2_refl) simp
  ultimately show ?thesis by (auto simp: attempts_evolve_def)
next
  case (released now failure a)
  then show ?thesis
    by (intro evolve_update [of d' "\<lambda>y. att_attemptId y = att_attemptId a" "\<lambda>_. failed_attempt now failure a" d])
      (auto simp: unreserved_def find_charge_def evolves_def failed_attempt_def)
next
  case (finalized now a)
  then show ?thesis
    by (intro evolve_update [of d' "\<lambda>y. att_attemptId y = att_attemptId a" "\<lambda>_. succeeded_attempt now a" d])
      (auto simp: unreserved_def find_charge_def evolves_def succeeded_attempt_def)
qed

lemma attempts_evolve_trans:
  assumes "attempts_evolve d e" and "attempts_evolve e f"
  shows "attempts_evolve d f"
proof -
  from assms obtain bs new cs new' where h: "attempts e = bs @ new" "list_all2 evolves (attempts d) bs"
      "attempts f = cs @ new'" "list_all2 evolves (bs @ new) cs"
    by (auto simp: attempts_evolve_def)
  then obtain cs1 cs2 where "cs = cs1 @ cs2" "list_all2 evolves bs cs1" by (auto simp: list_all2_append1)
  with h have "attempts f = cs1 @ (cs2 @ new')" "list_all2 evolves (attempts d) cs1"
    using list_all2_trans [of evolves evolves evolves, OF evolves_trans] by auto
  then show ?thesis unfolding attempts_evolve_def by blast
qed

lemma charge_history_evolves: "charge_history sha d0 d \<Longrightarrow> attempts_evolve d0 d"
proof (induction rule: charge_history.induct)
  case start
  have "list_all2 evolves (attempts d0) (attempts d0)" by (rule list_all2_refl) simp
  then show ?case unfolding attempts_evolve_def by (intro exI [of _ "attempts d0"] exI [of _ "[]"]) simp
next
  case (more d d')
  with charge_step_evolves attempts_evolve_trans show ?case by blast
qed

lemma evolve_find:
  assumes "attempts_evolve d d'" and "List.find q (attempts d) = Some a" and "\<And>x y. evolves x y \<Longrightarrow> q x = q y"
  shows "\<exists>b. List.find q (attempts d') = Some b \<and> evolves a b"
proof -
  from assms(1) obtain bs new where h: "attempts d' = bs @ new" "list_all2 evolves (attempts d) bs"
    by (auto simp: attempts_evolve_def)
  have "\<exists>b. List.find q bs = Some b \<and> evolves a b"
    using h(2) assms(2)
  proof (induction rule: list_all2_induct)
    case (Cons x xs y ys)
    then show ?case using assms(3) by (auto split: if_splits)
  qed simp
  then obtain b where "List.find q bs = Some b" "evolves a b" by blast
  with h(1) show ?thesis by (simp add: find_append_old)
qed


text \<open>
  Retries are idempotent. After a reservation returned an attempt, any later call with the
  same pass and idempotency key, whatever the rest of its input and whatever the service did in
  between, returns that attempt (in its current state), reports that it created nothing and leaves the
  database as it is.
\<close>

theorem reserve_retry_idempotent:
  assumes "reserveChargeAttempt now i d = (Inr (a, created), d1)" and "charge_history sha d1 d2"
    and "ri_sessionId j = ri_sessionId i" and "ri_idempotencyKey j = ri_idempotencyKey i"
  shows "\<exists>b. reserveChargeAttempt later j d2 = (Inr (b, False), d2) \<and> att_attemptId b = att_attemptId a
    \<and> att_amountMinor b = att_amountMinor a"
proof -
  have "existingAttempt (ri_sessionId i) (ri_idempotencyKey i) d1 = Some a"
  proof (cases "reserve_body now i d")
    case (Pair r d')
    show ?thesis
    proof (cases r)
      case (Inl e)
      with Pair assms(1) show ?thesis
        by (auto simp: reserveChargeAttempt_def transaction_def split: error.splits option.splits)
    next
      case (Inr v)
      with Pair assms(1) have body: "reserve_body now i d = (Inr (a, created), d1)"
        by (auto simp: reserveChargeAttempt_def transaction_def)
      then show ?thesis
      proof (cases rule: reserve_body_Inr)
        case (new assetId s ss c cs)
        then show ?thesis
          by (simp add: existingAttempt_def find_append_new) (simp add: new_attempt_def)
      qed simp
    qed
  qed
  then obtain b where b: "existingAttempt (ri_sessionId i) (ri_idempotencyKey i) d2 = Some b" "evolves a b"
    using evolve_find [OF charge_history_evolves [OF assms(2)]] unfolding existingAttempt_def
    by (metis (no_types, lifting) evolves_def)
  then have "reserveChargeAttempt later j d2 = (Inr (b, False), d2)"
    using assms(3,4) by (simp add: reserveChargeAttempt_def reserve_body_def transaction_def)
  with b(2) show ?thesis by (auto simp: evolves_def)
qed

theorem reserve_retry_idempotent_witness:
  "\<exists>b. reserveChargeAttempt 99 (sample_reserve\<lparr>ri_attemptId := ''a2'', ri_amountMinor := 7\<rparr>) sample_reserved_db
      = (Inr (b, False), sample_reserved_db) \<and> att_attemptId b = ''a1''"
  using reserve_retry_idempotent [OF sample_reserve_call charge_history.start [of id],
      of "sample_reserve\<lparr>ri_attemptId := ''a2'', ri_amountMinor := 7\<rparr>" 99]
  by (auto simp: sample_charge_simps)

text \<open>
  Property C8: a provider is asked at most once. Once a lease holder marked an attempt as submitted, then
  whatever happens afterwards no worker can claim the attempt again and nobody can mark it submitted
  again or change its correlation, even after the lease expired.
\<close>

theorem submitted_at_most_once:
  assumes "markChargeProviderSubmitted attemptId leaseId now d = (Some a, d1)" and "charge_history sha d1 d2"
    and "charge_inv d"
  shows "claimChargeExecution attemptId lease2 later d2 = (None, d2)
    \<and> markChargeProviderSubmitted attemptId lease2 later d2 = (None, d2)
    \<and> setChargeProviderCorrelation attemptId lease2 c h d2 = (None, d2)"
proof -
  define f where "f = (\<lambda>a :: charge_attempt. a\<lparr>att_providerStatus := P_submitted, att_providerSubmittedAt := Some now\<rparr>)"
  from assms(1) obtain x where x: "List.find (held_by attemptId leaseId) (attempts d) = Some x" "a = f x"
      "attempts d1 = update_first (held_by attemptId leaseId) f (attempts d)"
    by (auto simp: markChargeProviderSubmitted_def update_attempt_def find_and_update_def f_def split: option.splits)
  have a: "a \<in> set (attempts d1)" "att_attemptId a = attemptId" "att_providerStatus a = P_submitted"
    using x(2,3) update_first_found [OF x(1), of f] find_SomeD [OF x(1)] by (simp_all add: f_def held_by_def)
  have "charge_step id d d1" by (rule charge_step.submit [OF assms(1)])
  then have "charge_inv d2" using charge_history_inv [OF assms(2)] charge_step_inv assms(3) by blast
  then have dist: "distinct (map att_attemptId (attempts d2))" by (simp add: charge_inv_def ledger_inv_def)
  from charge_history_evolves [OF assms(2)] obtain bs new where bs: "attempts d2 = bs @ new" "list_all2 evolves (attempts d1) bs"
    by (auto simp: attempts_evolve_def)
  with a(1) obtain b where b: "b \<in> set (attempts d2)" "evolves a b"
    by (metis in_set_conv_nth list_all2_conv_all_nth nth_mem Un_iff set_append)
  have started: "att_providerStatus y \<noteq> P_not_started" if "y \<in> set (attempts d2)" "att_attemptId y = attemptId" for y
  proof -
    have "y = b"
      using find_unique_key [OF dist that(1)] find_unique_key [OF dist b(1)] that(2) b(2) a(2)
      by (auto simp: evolves_def)
    with b(2) a(3) show ?thesis by (auto simp: evolves_def)
  qed
  then have "List.find (claimable attemptId later) (attempts d2) = None"
      "List.find (held_by attemptId lease2) (attempts d2) = None"
    by (auto simp: find_None_iff claimable_def held_by_def)
  then show ?thesis
    by (simp add: claimChargeExecution_def markChargeProviderSubmitted_def setChargeProviderCorrelation_def
        update_attempt_def find_and_update_def)
qed


lemma sample_submit:
  "\<exists>d1. markChargeProviderSubmitted ''a1'' ''lease'' 5 sample_reserved_db
    = (Some (sample_attempt\<lparr>att_providerStatus := P_submitted, att_providerSubmittedAt := Some 5\<rparr>), d1)"
  by (simp add: markChargeProviderSubmitted_def update_attempt_def find_and_update_def held_by_def sample_charge_simps)

theorem submitted_at_most_once_witness:
  "\<exists>a d1. markChargeProviderSubmitted ''a1'' ''lease'' 5 sample_reserved_db = (Some a, d1)
    \<and> claimChargeExecution ''a1'' ''other'' 100000 d1 = (None, d1)"
proof -
  obtain d1 where d1: "markChargeProviderSubmitted ''a1'' ''lease'' 5 sample_reserved_db
    = (Some (sample_attempt\<lparr>att_providerStatus := P_submitted, att_providerSubmittedAt := Some 5\<rparr>), d1)"
    using sample_submit by blast
  have "charge_inv sample_reserved_db" by (rule charge_history_inv [OF sample_charge_history sample_charge_inv])
  from submitted_at_most_once [OF d1 charge_history.start [of id] this] d1 show ?thesis by blast
qed

text \<open>
  Property C9: the daily limit is enforced with history. A reservation that was made leaves the day's
  counter with spent plus reserved within the daily limit; the reserved part is exactly the attempts
  of that day still reserved, the new one among them; and a counter created by this reservation starts
  from the succeeded charges of that UTC day.
\<close>

theorem daily_limit_enforced:
  assumes "reserveChargeAttempt now i d = (Inr (a, True), d')" and "charge_inv d"
  shows "a \<in> set (attempts d') \<and> is_held a \<and> att_minor a = ri_amountMinor i
    \<and> (\<exists>c \<in> set (day_counters d'). is_counter (ri_sessionId i) (chargeReservationDay now) c
      \<and> day_spentMinor c + day_reservedMinor c \<le> ri_dailyLimitMinor i
      \<and> day_reservedMinor c = held_on (ri_sessionId i) (chargeReservationDay now) (attempts d')
      \<and> ((\<forall>c0 \<in> set (day_counters d). \<not> is_counter (ri_sessionId i) (chargeReservationDay now) c0) \<longrightarrow>
          day_spentMinor c = historicalSpend (ri_sessionId i) now d))"
proof -
  have body: "reserve_body now i d = (Inr (a, True), d')"
    using assms(1) by (auto simp: reserveChargeAttempt_def transaction_def split: prod.splits sum.splits error.splits option.splits)
  from body show ?thesis
  proof (cases rule: reserve_body_Inr)
    case (new assetId s ss c cs)
    let ?day = "chargeReservationDay now"
    define cs0 where "cs0 = day_counters (upsert_counter (ri_sessionId i) now d)"
    have inv': "charge_inv d'" by (rule reserve_body_inv [OF body assms(2)])
    obtain c0 where c0: "List.find (\<lambda>c. is_counter (ri_sessionId i) ?day c
          \<and> dailyReservationExpression (ri_amountMinor i) (ri_dailyLimitMinor i) c) cs0 = Some c0"
        "c = inc_day_reserved (ri_amountMinor i) c0" and up: "cs = update_first (\<lambda>c. is_counter (ri_sessionId i) ?day c
          \<and> dailyReservationExpression (ri_amountMinor i) (ri_dailyLimitMinor i) c) (inc_day_reserved (ri_amountMinor i)) cs0"
      using new(6) unfolding cs0_def [symmetric] find_and_update_Some by blast
    have cin: "c \<in> set cs" unfolding up c0(2) by (rule update_first_found [OF c0(1)])
    have c0': "c0 \<in> set cs0" "is_counter (ri_sessionId i) ?day c0"
        "dailyReservationExpression (ri_amountMinor i) (ri_dailyLimitMinor i) c0"
      using find_SomeD [OF c0(1)] by simp_all
    have ok: "counter_ok (attempts d') c"
      using inv' cin new(8) by (simp add: charge_inv_def ledger_inv_def)
    moreover have ic: "is_counter (ri_sessionId i) ?day c" using c0' c0(2) by (simp add: is_counter_key)
    moreover have "day_spentMinor c + day_reservedMinor c \<le> ri_dailyLimitMinor i"
      using c0' c0(2) by (simp add: inc_day_reserved_def dailyReservationExpression_def)
    moreover have "day_spentMinor c = historicalSpend (ri_sessionId i) now d"
      if "\<forall>c0 \<in> set (day_counters d). \<not> is_counter (ri_sessionId i) ?day c0"
      using that c0' c0(2)
      by (auto simp: cs0_def upsert_counter_def Let_def list_ex_iff inc_day_reserved_def)
    moreover have "day_reservedMinor c = held_on (ri_sessionId i) ?day (attempts d')"
      using ok ic by (simp add: counter_ok_def is_counter_def)
    moreover have "c \<in> set (day_counters d')" using cin new(8) by simp
    moreover have "a \<in> set (attempts d')" "is_held a" "att_minor a = ri_amountMinor i"
      by (simp_all add: new(8), simp_all add: new(3) is_held_def att_minor_def new_attempt_def)
    ultimately show ?thesis by blast
  qed simp
qed

theorem daily_limit_enforced_witness:
  "\<exists>c \<in> set (day_counters sample_reserved_db). is_counter ''pass'' (chargeReservationDay 0) c
      \<and> day_spentMinor c + day_reservedMinor c \<le> 50"
  using daily_limit_enforced [OF sample_reserve_call sample_charge_inv]
  by (auto simp: sample_reserve_def)


subsection \<open>Finalizing twice\<close>

lemma direct_receipt_again:
  assumes "createDirectChargeReceipt sha now a w d = (Inr rid, d1)" and "receipts d2 = receipts d1"
    and "att_finalizedAt a \<noteq> None"
  shows "createDirectChargeReceipt sha later a w d2 = (Inr rid, d2)"
proof (cases "hasSpecializedReceipt a")
  case True
  with assms show ?thesis by (simp add: createDirectChargeReceipt_def)
next
  case False
  define res where "res = bindE (case att_assetId a of Some x \<Rightarrow> Inr x | None \<Rightarrow> assetIdForLegacyCurrency (att_currency a)) (\<lambda>assetId.
              bindE (case att_amountAtomic a of Some v \<Rightarrow> Inr (atomic_text v) | None \<Rightarrow> legacyMinorToAtomicAmount (att_minor a)) (\<lambda>amount.
              Inr (assetId, amount)))"
  have input: "charge_receipt_input later w assetId amount a = charge_receipt_input now w assetId amount a" for assetId amount
    using assms(3) by (auto simp: charge_receipt_input_def)
  from False assms(1) obtain assetId amount id where
      "res = Inr (assetId, amount)" "createPaymentReceipt sha now (charge_receipt_input now w assetId amount a) d = (Inr id, d1)"
      "rid = Some id"
    by (auto simp: createDirectChargeReceipt_def res_def [symmetric] split: sum.splits prod.splits)
  with False createPaymentReceipt_again [OF _ assms(2), of sha now _ d _ later] show ?thesis
    by (simp add: createDirectChargeReceipt_def res_def [symmetric] input)
qed

lemma queue_receipts: "receipts (snd (queueReceiptNotifications sha now i d)) = receipts d"
  using queueReceiptNotifications_frame [of sha now i d] by (cases "queueReceiptNotifications sha now i d") auto

lemma finalized_again:
  assumes "find_charge i d1 = Some b" and "att_status b = A_succeeded" and "att_reserveStatus b = RS_debited"
    and "att_finalizedAt b \<noteq> None" and "receipt_owner b d1 = Some w" and "w \<noteq> []"
    and "createDirectChargeReceipt sha now b w d0 = (Inr rid, d1)"
    and "same_ledger d1 d2" and "receipts d2 = receipts d1"
  shows "\<exists>d3. finalizeChargeReservation sha later i d2 = (Inr b, d3) \<and> same_ledger d2 d3 \<and> receipts d3 = receipts d2"
proof -
  have "find_charge i d2 = Some b" "receipt_owner b d2 = Some w"
    using assms(1,5,8) by (simp_all add: same_ledger_def find_charge_def receipt_owner_def find_session_def split: option.splits)
  moreover have "createDirectChargeReceipt sha later b w d2 = (Inr rid, d2)"
    by (rule direct_receipt_again [OF assms(7,9,4)])
  moreover obtain c cs where "w = c # cs" using assms(6) by (cases w) auto
  ultimately have "finalize_body sha later i d2 = (Inr (b, rid), d2)"
    using assms(2,3) by (simp add: finalize_body_def chain_def)
  then have "finalizeChargeReservation sha later i d2 = (Inr b, case rid of None \<Rightarrow> d2 | Some r \<Rightarrow> snd (queueReceiptNotifications sha later r d2))"
    by (simp add: finalizeChargeReservation_def transaction_def split: option.splits)
  then show ?thesis
    using queue_frame [of d2 sha later] by (auto simp: queue_receipts split: option.splits)
qed

text \<open>
  Property C4: finalization is all or nothing, and repeating it is harmless. A call that fails leaves the
  database as it was. A call that succeeds stores the attempt as succeeded and debited, and any later
  call for it returns the same attempt and changes no pass, counter, attempt or receipt: neither the
  money nor the receipt is booked twice.
\<close>

theorem finalize_once:
  assumes "charge_inv d" and "find_charge i d = Some a" and "find_session (att_sessionId a) d = Some s"
    and "att_ownerWalletId a \<in> {None, Some (ses_ownerWalletId s)}" and "ses_ownerWalletId s \<noteq> []"
    and "att_status a = A_succeeded \<Longrightarrow> att_finalizedAt a \<noteq> None"
    and "finalizeChargeReservation sha now i d = (r, d')"
  shows "(\<forall>e. r = Inl e \<longrightarrow> d' = d)
    \<and> (\<forall>b. r = Inr b \<longrightarrow> att_status b = A_succeeded \<and> att_reserveStatus b = RS_debited \<and> find_charge i d' = Some b
        \<and> (\<exists>d3. finalizeChargeReservation sha later i d' = (Inr b, d3) \<and> same_ledger d' d3 \<and> receipts d3 = receipts d'))"
proof (cases "transaction (finalize_body sha now i) d")
  case (Pair r1 d1)
  from Pair show ?thesis
  proof (cases rule: transaction_cases)
    case (aborted e)
    with Pair assms(7) have "r = Inl e" "d' = d" by (simp_all add: finalizeChargeReservation_def)
    then show ?thesis by simp
  next
    case (committed v)
    obtain b rid where v: "v = (b, rid)" by (cases v)
    have d': "r = Inr b" "d' = (case rid of None \<Rightarrow> d1 | Some x \<Rightarrow> snd (queueReceiptNotifications sha now x d1))"
      using Pair committed v assms(7) by (auto simp: finalizeChargeReservation_def split: option.splits)
    have frame: "same_ledger d1 d'" "receipts d' = receipts d1"
      using d'(2) queue_frame [of d1 sha now] by (auto simp: queue_receipts split: option.splits)
    from committed(2) [unfolded v] have "att_status b = A_succeeded \<and> att_reserveStatus b = RS_debited
        \<and> find_charge i d1 = Some b \<and> att_finalizedAt b \<noteq> None
        \<and> (\<exists>w d0. receipt_owner b d1 = Some w \<and> w \<noteq> [] \<and> createDirectChargeReceipt sha now b w d0 = (Inr rid, d1))"
    proof (cases rule: finalize_body_Inr)
      case (again w)
      have ab: "b = a" using again(1) assms(2) by simp
      obtain rs where "d1 = d\<lparr>receipts := rs\<rparr>" using direct_receipt_frame [OF again(5)] by blast
      then have "find_charge i d1 = Some b" "receipt_owner b d1 = Some w"
        using again by (simp_all add: find_charge_def receipt_owner_def find_session_def split: option.splits)
      moreover have "w \<noteq> []"
        using again(4) assms(3,4,5) ab by (auto simp: receipt_owner_def split: option.splits)
      ultimately show ?thesis using again assms(6) ab by blast
    next
      case (settled a0 s0 ss c cs e1 e2 n1 n2)
      have a0: "a0 = a" using settled(1) assms(2) by simp
      have inv: "distinct (map ses_publicId (sessions d))" using assms(1) by (simp add: charge_inv_def ledger_inv_def)
      let ?p = "\<lambda>s. ses_publicId s = att_sessionId a \<and> holds_reserved (att_minor a) s"
      from settled(5) [unfolded a0] obtain s1 where s1: "List.find ?p (sessions d) = Some s1"
          "s0 = settle_session a (att_minor a) s1" "ss = update_first ?p (settle_session a (att_minor a)) (sessions d)"
        unfolding find_and_update_Some by blast
      have "s1 = s"
        using find_SomeD [OF s1(1)] find_unique_key [OF inv, of s1] assms(3) by (auto simp: find_session_def)
      then have owner: "ses_ownerWalletId s0 = ses_ownerWalletId s"
        by (simp add: s1(2) settle_session_def inc_session_reserved_def)
      have fs: "List.find (\<lambda>y. ses_publicId y = att_sessionId a) ss = Some s0"
        unfolding s1(3) using find_update_find [OF inv s1(1), of "att_sessionId a"] s1(2) by simp
      have "same_ledger (d\<lparr>sessions := ss, day_counters := cs\<rparr>) e1" using spend_frame [OF settled(7)] by simp
      moreover have "same_ledger e1 e2"
        using settled(8) release_frame [of now "att_sessionId a0" e1 n2 e2] by (auto split: if_splits)
      ultimately have e2: "same_ledger (d\<lparr>sessions := ss, day_counters := cs\<rparr>) e2" by (rule same_ledger_trans)
      obtain rs where d1: "d1 = (save_attempt b e2)\<lparr>receipts := rs\<rparr>" using direct_receipt_frame [OF settled(10)] by blast
      have "attempts d1 = update_first (\<lambda>y. att_attemptId y = i) (\<lambda>_. b) (attempts d)"
        using e2 find_charge_id [OF assms(2)]
        by (simp add: d1 same_ledger_def save_attempt_def settled(9) a0 succeeded_attempt_def)
      then have fc: "find_charge i d1 = Some b"
        using find_replace [of att_attemptId i "attempts d" a b] assms(2) find_charge_id [OF assms(2)]
        by (simp add: find_charge_def settled(9) a0 succeeded_attempt_def)
      have "sessions d1 = ss" using e2 by (simp add: d1 same_ledger_def)
      then have "receipt_owner b d1 = Some (ses_ownerWalletId s)"
        using fs owner assms(4) by (auto simp: receipt_owner_def find_session_def settled(9) a0 succeeded_attempt_def)
      with fc settled(9,10) owner assms(5) show ?thesis
        by (auto simp: succeeded_attempt_def intro!: exI [of _ "save_attempt b e2"])
    qed
    then obtain w d0 where b: "att_status b = A_succeeded" "att_reserveStatus b = RS_debited" "find_charge i d1 = Some b"
        "att_finalizedAt b \<noteq> None" "receipt_owner b d1 = Some w" "w \<noteq> []" "createDirectChargeReceipt sha now b w d0 = (Inr rid, d1)"
      by blast
    have "find_charge i d' = Some b" using b(3) frame(1) by (simp add: find_charge_def same_ledger_def)
    with finalized_again [OF b(3,1,2,4,5,6,7) frame, of later] b(1,2) d'(1) show ?thesis by simp
  qed
qed


definition sample_paid_db :: core_db where
  "sample_paid_db = sample_reserved_db\<lparr>attempts := [sample_attempt\<lparr>att_providerStatus := P_succeeded,
     att_metadata := [(''occurrenceId'', JStr ''o'')]\<rparr>]\<rparr>"

lemma sample_paid_inv: "charge_inv sample_paid_db"
  by (simp add: charge_inv_def ledger_inv_def session_ok_def counter_ok_def held_for_def held_on_def
      ses_reservedOf_def ses_spentOf_def ses_limitOf_def att_minor_def is_held_def attempt_coherent_def
      held_attempt_ok_def has_day_def is_counter_def sample_paid_db_def sample_charge_simps)

lemma sample_finalize: "\<exists>b d'. finalizeChargeReservation id 9 ''a1'' sample_paid_db = (Inr b, d')"
  by (simp add: finalizeChargeReservation_def finalize_body_def finalize_settle_def transaction_def find_charge_def
      find_and_update_def holds_reserved_def has_day_def is_counter_def sample_paid_db_def chain_def
      spendFundingAllocation_def find_allocation_def settle_session_def createDirectChargeReceipt_def Let_def
      hasSpecializedReceipt_def metadata_string_def succeeded_attempt_def att_minor_def inc_session_reserved_def
      sample_charge_simps)

theorem finalize_once_witness:
  "\<exists>b d' d3. finalizeChargeReservation id 9 ''a1'' sample_paid_db = (Inr b, d')
    \<and> finalizeChargeReservation id 20 ''a1'' d' = (Inr b, d3) \<and> same_ledger d' d3 \<and> att_reserveStatus b = RS_debited"
proof -
  obtain b d' where r: "finalizeChargeReservation id 9 ''a1'' sample_paid_db = (Inr b, d')" using sample_finalize by blast
  define a where "a = sample_attempt\<lparr>att_providerStatus := P_succeeded, att_metadata := [(''occurrenceId'', JStr ''o'')]\<rparr>"
  have a: "find_charge ''a1'' sample_paid_db = Some a" "att_sessionId a = ''pass''" "att_ownerWalletId a = Some ''w''"
      "att_status a = A_pending"
    by (simp_all add: find_charge_def sample_paid_db_def a_def sample_attempt_def new_attempt_def sample_reserve_def)
  have s: "find_session ''pass'' sample_paid_db = Some (sample_session\<lparr>ses_reservedMinor := Some 30\<rparr>)"
      "ses_ownerWalletId (sample_session\<lparr>ses_reservedMinor := Some 30\<rparr>) = ''w''"
    by (simp_all add: find_session_def sample_paid_db_def sample_reserved_db_def sample_session_def)
  from finalize_once [OF sample_paid_inv a(1) s(1) [folded a(2)] _ _ _ r, of 20] show ?thesis
    using r a s by simp blast
qed


subsection \<open>The execution lease\<close>

definition leased_attempt :: "int \<Rightarrow> string \<Rightarrow> charge_attempt \<Rightarrow> charge_attempt" where
  "leased_attempt now leaseId a =
     a\<lparr>att_executionLeaseId := Some leaseId, att_executionLeaseExpiresAt := Some (now + EXECUTION_LEASE_MS)\<rparr>"

interpretation charge_lease: lease "claimable attemptId" leased_attempt EXECUTION_LEASE_MS for attemptId
  by unfold_locales (simp_all add: claimable_def leased_attempt_def EXECUTION_LEASE_MS_def)

text \<open>Two successful claims of one attempt, by whatever instances, are a lease apart.\<close>

lemma charge_claims_spaced:
  "sorted (map fst cs) \<Longrightarrow> sorted_wrt (\<lambda>a b. fst a + EXECUTION_LEASE_MS \<le> fst b) (charge_lease.claims attemptId cs x)"
  by (rule charge_lease.claims_spaced)

subsection \<open>The pass ledger as an escrow account\<close>

definition ses_reserve :: "int \<Rightarrow> session \<Rightarrow> session option" where
  "ses_reserve n s = (if sessionReservationExpression n s then Some (inc_session_reserved n s) else None)"

definition ses_settle :: "charge_attempt \<Rightarrow> int \<Rightarrow> session \<Rightarrow> session option" where
  "ses_settle a n s = (if holds_reserved n s then Some (settle_session a n s) else None)"

definition ses_release :: "int \<Rightarrow> session \<Rightarrow> session option" where
  "ses_release n s = (if holds_reserved n s then Some (inc_session_reserved (- n) s) else None)"

definition day_reserve :: "int \<Rightarrow> int \<times> daily_counter \<Rightarrow> (int \<times> daily_counter) option" where
  "day_reserve n l = (if dailyReservationExpression n (fst l) (snd l) then Some (fst l, inc_day_reserved n (snd l)) else None)"

definition day_settle :: "int \<Rightarrow> int \<times> daily_counter \<Rightarrow> (int \<times> daily_counter) option" where
  "day_settle n l = (if n \<le> day_reservedMinor (snd l) then Some (fst l, settle_day n (snd l)) else None)"

definition day_release :: "int \<Rightarrow> int \<times> daily_counter \<Rightarrow> (int \<times> daily_counter) option" where
  "day_release n l = (if n \<le> day_reservedMinor (snd l) then Some (fst l, inc_day_reserved (- n) (snd l)) else None)"

lemma holds_reserved_le: "holds_reserved n s \<Longrightarrow> n \<le> ses_reservedOf s"
  by (auto simp: holds_reserved_def ses_reservedOf_def split: option.splits)

interpretation pass_ledger: escrow ses_limitOf ses_spentOf ses_reservedOf ses_reserve "ses_settle a" ses_release for a
  by unfold_locales
    (auto simp: ses_reserve_def ses_settle_def ses_release_def sessionReservationExpression_def
      dest: holds_reserved_le split: if_splits)

interpretation day_ledger: escrow fst "day_spentMinor \<circ> snd" "day_reservedMinor \<circ> snd" day_reserve day_settle day_release
  by unfold_locales
    (auto simp: day_reserve_def day_settle_def day_release_def dailyReservationExpression_def inc_day_reserved_def
      settle_day_def split: if_splits)

lemma session_refines:
  assumes inv: "charge_inv d" and up: "find_and_update p f (sessions d) = Some (s', sessions d')"
    and p: "\<And>s. p s \<Longrightarrow> ses_publicId s = k \<and> op s = Some (f s)" and f: "\<And>s. ses_publicId (f s) = ses_publicId s"
    and i: "find_session i d = Some s"
  shows "\<exists>s2. find_session i d' = Some s2 \<and> (s2 = s \<or> op s = Some s2)"
proof -
  have dist: "distinct (map ses_publicId (sessions d))" using inv by (simp add: charge_inv_def ledger_inv_def)
  from up obtain x where x: "x \<in> set (sessions d)" "p x" "List.find p (sessions d) = Some x"
      "sessions d' = update_first p f (sessions d)"
    by (rule find_and_update_keys [OF dist, where k = k]) (use p f in auto)
  have "find_session i d' = (if i = k then Some (f x) else find_session i d)"
    unfolding find_session_def x(4) by (rule find_update_find [OF dist x(3)]) (use p f in auto)
  moreover have "find_session k d = Some x"
    unfolding find_session_def using find_unique_key [OF dist x(1)] p [OF x(2)] by simp
  ultimately show ?thesis using i p [OF x(2)] by auto
qed

text \<open>
  Property C7: the service implements the escrow account. Every service call moves every pass by one
  escrow operation (reserve, settle or release, with its guard) or not at all, so the account of the
  pass stays covered: spent plus reserved never passes the limit.
\<close>

theorem charge_refines_escrow:
  assumes "charge_step sha d d'" and "charge_inv d" and "find_session i d = Some s"
  shows "\<exists>s'. find_session i d' = Some s'
    \<and> (s' = s \<or> (\<exists>n. ses_reserve n s = Some s' \<or> ses_release n s = Some s' \<or> (\<exists>a. ses_settle a n s = Some s')))
    \<and> ses_limitOf s' = ses_limitOf s \<and> ses_spentOf s' + ses_reservedOf s' \<le> ses_limitOf s"
proof -
  have "\<exists>s'. find_session i d' = Some s'
    \<and> (s' = s \<or> (\<exists>n. ses_reserve n s = Some s' \<or> ses_release n s = Some s' \<or> (\<exists>a. ses_settle a n s = Some s')))"
    using assms(1)
  proof (cases rule: charge_step_cases)
    case edit
    with assms(3) show ?thesis by (auto simp: attempt_edit_def same_ledger_def find_session_def)
  next
    case (reserved now j a)
    from reserved show ?thesis
    proof (cases rule: reserve_body_Inr)
      case existing
      with assms(3) show ?thesis by simp
    next
      case (new assetId s0 ss c cs)
      have "\<exists>s2. find_session i d' = Some s2 \<and> (s2 = s \<or> ses_reserve (ri_amountMinor j) s = Some s2)"
        by (rule session_refines [OF assms(2), where p = "reservable_session j" and k = "ri_sessionId j" and s' = s0
              and f = "inc_session_reserved (ri_amountMinor j)"])
          (use new assms(3) in \<open>auto simp: reservable_session_iff ses_reserve_def\<close>)
      then show ?thesis by blast
    qed
  next
    case (released now failure a)
    then obtain s0 where s0: "find_and_update (\<lambda>s. ses_publicId s = att_sessionId a \<and> holds_reserved (att_minor a) s)
        (inc_session_reserved (- att_minor a)) (sessions d) = Some (s0, sessions d')"
      by (auto simp: unreserved_def)
    have "\<exists>s2. find_session i d' = Some s2 \<and> (s2 = s \<or> ses_release (att_minor a) s = Some s2)"
      by (rule session_refines [OF assms(2) s0, where k = "att_sessionId a"]) (use assms(3) in \<open>auto simp: ses_release_def\<close>)
    then show ?thesis by blast
  next
    case (finalized now a)
    then obtain s0 where s0: "find_and_update (\<lambda>s. ses_publicId s = att_sessionId a \<and> holds_reserved (att_minor a) s)
        (settle_session a (att_minor a)) (sessions d) = Some (s0, sessions d')"
      by (auto simp: unreserved_def)
    have "\<exists>s2. find_session i d' = Some s2 \<and> (s2 = s \<or> ses_settle a (att_minor a) s = Some s2)"
      by (rule session_refines [OF assms(2) s0, where k = "att_sessionId a"]) (use assms(3) in \<open>auto simp: ses_settle_def\<close>)
    then show ?thesis by blast
  qed
  then obtain s' where s': "find_session i d' = Some s'"
      "s' = s \<or> (\<exists>n. ses_reserve n s = Some s' \<or> ses_release n s = Some s' \<or> (\<exists>a. ses_settle a n s = Some s'))"
    by blast
  then have "ses_limitOf s' = ses_limitOf s"
    using pass_ledger.reserve_law pass_ledger.release_law pass_ledger.settle_law by metis
  moreover have "session_ok (attempts d') s'"
    using charge_step_inv [OF assms(1,2)] s'(1)
    by (auto simp: charge_inv_def ledger_inv_def find_session_def dest!: find_SomeD)
  ultimately show ?thesis using s' by (auto simp: session_ok_def)
qed

theorem charge_refines_escrow_witness:
  "\<exists>s'. find_session ''pass'' sample_reserved_db = Some s' \<and> ses_spentOf s' + ses_reservedOf s' \<le> 100"
  using charge_refines_escrow [OF charge_step.reserve [OF sample_reserve_call] sample_charge_inv, of "''pass''" sample_session]
  by (simp add: find_session_def sample_charge_simps) (simp add: ses_limitOf_def)

end
