(* ===== verification/Metered.thy ===== *)
theory Metered
  imports Charges
begin

section \<open>Metered payments (domain/meteredPayment.ts, services/meteredPayment.service.ts)\<close>

text \<open>
  A wallet owner grants an app a metered budget on a pass; the app submits usage events, each of which
  reserves its amount on the grant and on the pass and joins a batch; batches are settled by the
  worker (theory Metered_Worker) or released. This theory holds the documents, the grant operations
  and the acceptance, release and revocation of usage, with the accounting invariant of grants,
  events, batches and rate counters.

  Parameters: \<open>sha\<close> is SHA-256 in hexadecimal, \<open>now\<close> is \<open>new Date()\<close>, and the identifiers that
  \<open>newMeteredId\<close> draws at random are arguments; a collision with a stored identifier is the
  duplicate-key error of the unique index. \<open>AtomicAmount\<close> fields hold the integer of their text.
\<close>

subsection \<open>Documents\<close>

datatype grant_status = GR_active | GR_revoked | GR_expired | GR_depleted
datatype usage_status = U_reserved | U_settling | U_settled | U_released | U_failed
datatype batch_status =
  B_collecting | B_queued | B_processing | B_uncertain | B_retrying | B_succeeded | B_failed | B_released
datatype metered_executor = ME_nwc | ME_btcpay | ME_fiber
datatype app_status = AP_pending_verification | AP_active | AP_suspended | AP_revoked
datatype destination_kind = DK_address | DK_invoice | DK_endpoint | DK_bolt12_offer | DK_lnurl | DK_lightning_address
datatype destination_status = DS_active | DS_replaced | DS_revoked
datatype scope_type = SC_wallet | SC_pass | SC_app
datatype connection_status = CN_active | CN_revoked | CN_failed
datatype execution_mode = EM_interactive | EM_unattended

definition grant_status_text :: "grant_status \<Rightarrow> string" where
  "grant_status_text s = (case s of GR_active \<Rightarrow> ''active'' | GR_revoked \<Rightarrow> ''revoked''
     | GR_expired \<Rightarrow> ''expired'' | GR_depleted \<Rightarrow> ''depleted'')"

definition usage_status_text :: "usage_status \<Rightarrow> string" where
  "usage_status_text s = (case s of U_reserved \<Rightarrow> ''reserved'' | U_settling \<Rightarrow> ''settling''
     | U_settled \<Rightarrow> ''settled'' | U_released \<Rightarrow> ''released'' | U_failed \<Rightarrow> ''failed'')"

definition batch_status_text :: "batch_status \<Rightarrow> string" where
  "batch_status_text s = (case s of B_collecting \<Rightarrow> ''collecting'' | B_queued \<Rightarrow> ''queued''
     | B_processing \<Rightarrow> ''processing'' | B_uncertain \<Rightarrow> ''uncertain'' | B_retrying \<Rightarrow> ''retrying''
     | B_succeeded \<Rightarrow> ''succeeded'' | B_failed \<Rightarrow> ''failed'' | B_released \<Rightarrow> ''released'')"

definition executor_text :: "metered_executor \<Rightarrow> string" where
  "executor_text e = (case e of ME_nwc \<Rightarrow> ''nwc'' | ME_btcpay \<Rightarrow> ''btcpay'' | ME_fiber \<Rightarrow> ''fiber'')"

record app_record =
  app_appId :: string
  app_ownerWalletId :: string
  app_name :: string
  app_serviceAddress :: string
  app_webhookUrl :: "string option"
  app_webhookSigningSecret :: "string option"
  app_status :: app_status

record payment_destination =
  dst_destinationId :: string
  dst_recipientId :: string
  dst_ownerWalletId :: string
  dst_rail :: payment_rail
  dst_network :: string
  dst_assetId :: string
  dst_kind :: destination_kind
  dst_value :: string
  dst_resolverEndpoint :: "string option"
  dst_reusable :: bool
  dst_status :: destination_status

record nwc_connection =
  nwc_connectionId :: string
  nwc_ownerWalletId :: string
  nwc_scopeType :: scope_type
  nwc_scopeId :: string
  nwc_status :: connection_status
  nwc_executionMode :: execution_mode
  nwc_methods :: "string list"
  nwc_network :: string
  nwc_assetId :: string
  nwc_allowanceEnforced :: bool
  nwc_allowanceAtomic :: int
  nwc_allowanceUsedAtomic :: int
  nwc_allowanceProofEventId :: "string option"
  nwc_allowanceResetsAt :: "int option"
  nwc_walletPubkey :: string
  nwc_clientPubkey :: string
  nwc_clientKeyFingerprint :: string
  nwc_relayUrls :: "string list"
  nwc_selectedRelay :: string
  nwc_secretCiphertext :: "string option"
  nwc_encryption :: string
  nwc_advertisedMethods :: "string list"
  nwc_notifications :: "string list"
  nwc_infoEventId :: string
  nwc_infoResponseEventId :: "string option"
  nwc_lud16 :: "string option"
  nwc_balanceAtomic :: int
  nwc_balanceObservedAt :: "int option"
  nwc_balanceStaleAt :: "int option"
  nwc_lastUsedAt :: "int option"
  nwc_lastFailureCode :: "string option"
  nwc_createdAt :: int
  nwc_revokedAt :: "int option"
  nwc_revokeReason :: "string option"

record btcpay_connection =
  btc_connectionId :: string
  btc_ownerWalletId :: string
  btc_scopeType :: scope_type
  btc_scopeId :: string
  btc_network :: string
  btc_storeId :: string
  btc_permissions :: "string list"
  btc_status :: connection_status

record metered_grant =
  mg_grantId :: string
  mg_ownerWalletId :: string
  mg_appId :: string
  mg_sessionId :: string
  mg_recipientId :: string
  mg_destinationId :: string
  mg_rail :: payment_rail
  mg_network :: string
  mg_assetId :: string
  mg_executor :: metered_executor
  mg_connectionId :: "string option"
  mg_status :: grant_status
  mg_maxPerEventAtomic :: int
  mg_totalLimitAtomic :: int
  mg_reservedAtomic :: int
  mg_spentAtomic :: int
  mg_rateLimitCount :: int
  mg_rateLimitWindowSeconds :: int
  mg_immediateThresholdAtomic :: int
  mg_maxBatchAtomic :: int
  mg_maxBatchEvents :: int
  mg_settlementDelayMs :: int
  mg_expiresAt :: int
  mg_revokedAt :: "int option"
  mg_createdAt :: int

record usage_event =
  ue_eventId :: string
  ue_receiptId :: string
  ue_externalId :: string
  ue_requestFingerprint :: string
  ue_ownerWalletId :: string
  ue_appId :: string
  ue_grantId :: string
  ue_sessionId :: string
  ue_recipientId :: string
  ue_destinationId :: string
  ue_rail :: payment_rail
  ue_network :: string
  ue_assetId :: string
  ue_amountAtomic :: int
  ue_type :: string
  ue_policyReference :: string
  ue_metadata :: "json option"
  ue_batchId :: string
  ue_status :: usage_status
  ue_reservationDay :: string
  ue_acceptedAt :: int
  ue_settlingAt :: "int option"
  ue_settledAt :: "int option"
  ue_releasedAt :: "int option"
  ue_proofKind :: "string option"
  ue_proofReference :: "string option"
  ue_paymentRequestHash :: "string option"
  ue_failureCode :: "string option"

record metered_batch =
  mb_batchId :: string
  mb_batchKey :: string
  mb_accepting :: bool
  mb_ownerWalletId :: string
  mb_appId :: string
  mb_grantId :: string
  mb_sessionId :: string
  mb_recipientId :: string
  mb_destinationId :: string
  mb_rail :: payment_rail
  mb_network :: string
  mb_assetId :: string
  mb_executor :: metered_executor
  mb_connectionId :: "string option"
  mb_status :: batch_status
  mb_totalAtomic :: int
  mb_eventCount :: int
  mb_runAfter :: int
  mb_attempts :: int
  mb_maxAttempts :: int
  mb_leaseId :: "string option"
  mb_leaseExpiresAt :: "int option"
  mb_submittedAt :: "int option"
  mb_completedAt :: "int option"
  mb_paymentRequestHash :: "string option"
  mb_paymentHash :: "string option"
  mb_providerPaymentId :: "string option"
  mb_proofKind :: "string option"
  mb_proofReference :: "string option"
  mb_failureCode :: "string option"
  mb_createdAt :: int

record rate_counter =
  mrc_grantId :: string
  mrc_windowStart :: int
  mrc_windowEnd :: int
  mrc_count :: int

record metered_db = core_db +
  apps :: "app_record list"
  destinations :: "payment_destination list"
  nwc_connections :: "nwc_connection list"
  btcpay_connections :: "btcpay_connection list"
  grants :: "metered_grant list"
  events :: "usage_event list"
  batches :: "metered_batch list"
  rate_counters :: "rate_counter list"

interpretation grants: table grants "\<lambda>xs d. d\<lparr>grants := xs\<rparr>" mg_grantId
  by unfold_locales simp_all

interpretation events: table events "\<lambda>xs d. d\<lparr>events := xs\<rparr>" ue_eventId
  by unfold_locales simp_all

interpretation batches: table batches "\<lambda>xs d. d\<lparr>batches := xs\<rparr>" mb_batchId
  by unfold_locales simp_all

interpretation rate_counters: table rate_counters "\<lambda>xs d. d\<lparr>rate_counters := xs\<rparr>" "\<lambda>c. (mrc_grantId c, mrc_windowStart c)"
  by unfold_locales simp_all

definition save_grant :: "metered_grant \<Rightarrow> 'a metered_db_scheme \<Rightarrow> 'a metered_db_scheme" where
  "save_grant x d = d\<lparr>grants := update_first (\<lambda>y. mg_grantId y = mg_grantId x) (\<lambda>_. x) (grants d)\<rparr>"

definition save_batch :: "metered_batch \<Rightarrow> 'a metered_db_scheme \<Rightarrow> 'a metered_db_scheme" where
  "save_batch x d = d\<lparr>batches := update_first (\<lambda>y. mb_batchId y = mb_batchId x) (\<lambda>_. x) (batches d)\<rparr>"

definition find_grant :: "string \<Rightarrow> 'a metered_db_scheme \<Rightarrow> metered_grant option" where
  "find_grant i d = List.find (\<lambda>g. mg_grantId g = i) (grants d)"

definition find_batch :: "string \<Rightarrow> 'a metered_db_scheme \<Rightarrow> metered_batch option" where
  "find_batch i d = List.find (\<lambda>b. mb_batchId b = i) (batches d)"

subsection \<open>Domain rules\<close>

text \<open>The separator of \<open>meteredBatchKey\<close> is the control character U+001F.\<close>

definition meteredBatchKey :: "metered_grant \<Rightarrow> string" where
  "meteredBatchKey g = join [char_of (31 :: nat)]
     [mg_ownerWalletId g, mg_appId g, mg_grantId g, mg_sessionId g, mg_recipientId g, mg_destinationId g,
      rail_text (mg_rail g), toLowerCase (mg_network g), mg_assetId g, executor_text (mg_executor g),
      opt_or (mg_connectionId g) []]"

definition assertMeteredGrantLimits :: "int \<Rightarrow> int \<Rightarrow> int \<Rightarrow> int \<Rightarrow> error + unit" where
  "assertMeteredGrantLimits perEvent total' threshold maxBatch =
     (if perEvent \<le> 0 \<or> total' \<le> 0 \<or> threshold \<le> 0 \<or> maxBatch \<le> 0
      then Inl (PlainError ''Metered payment limits must be positive atomic amounts.'')
      else if perEvent > total' then Inl (PlainError ''Per-event limit cannot exceed the grant total.'')
      else if perEvent > maxBatch then Inl (PlainError ''Per-event limit cannot exceed the batch limit.'')
      else if threshold > maxBatch then Inl (PlainError ''Immediate threshold cannot exceed the batch limit.'')
      else Inr ())"

definition nextRateWindow :: "int \<Rightarrow> int \<Rightarrow> int \<times> int" where
  "nextRateWindow now windowSeconds =
     (let windowMs = windowSeconds * 1000; startMs = now div windowMs * windowMs
      in (startMs, startMs + windowMs))"

definition exactMeteredAmount :: "string \<Rightarrow> bool \<Rightarrow> error + int" where
  "exactMeteredAmount value positive =
     (case asAtomicAmount value of
        Inl _ \<Rightarrow> Inl (ApiError 400 ''METERED_ATOMIC_AMOUNT_INVALID'')
      | Inr normalized \<Rightarrow>
         bindE (parseAtomicAmount normalized) (\<lambda>v.
           if positive \<and> v \<le> 0 then Inl (ApiError 400 ''METERED_ATOMIC_AMOUNT_INVALID'') else Inr v))"

definition safeMeteredAtomicNumber :: "int \<Rightarrow> error + int" where
  "safeMeteredAtomicNumber value =
     (if value < 0 \<or> value > MAX_SAFE_INTEGER then Inl (ApiError 400 ''METERED_LEGACY_LEDGER_LIMIT'')
      else Inr value)"

text \<open>
  The pass carries every ledger field twice: the canonical \<open>...Atomic\<close> text and the legacy
  \<open>...Minor\<close> number. \<open>sessionAtomic\<close> reads the first one that is there, \<open>setSessionAtomic\<close> writes both.
\<close>

datatype ledger_field = LF_limit | LF_spent | LF_reserved

fun atomic_field :: "ledger_field \<Rightarrow> session \<Rightarrow> int option" where
  "atomic_field LF_limit s = ses_limitAtomic s"
| "atomic_field LF_spent s = ses_spentAtomic s"
| "atomic_field LF_reserved s = ses_reservedAtomic s"

fun minor_field :: "ledger_field \<Rightarrow> session \<Rightarrow> int option" where
  "minor_field LF_limit s = ses_limitMinor s"
| "minor_field LF_spent s = ses_spentMinor s"
| "minor_field LF_reserved s = ses_reservedMinor s"

definition sessionAtomic :: "session \<Rightarrow> ledger_field \<Rightarrow> int" where
  "sessionAtomic s field =
     (case atomic_field field s of
        Some a \<Rightarrow> a
      | None \<Rightarrow> (case minor_field field s of Some m \<Rightarrow> if isSafeInteger m then m else 0 | None \<Rightarrow> 0))"

fun setSessionAtomic :: "session \<Rightarrow> ledger_field \<Rightarrow> int \<Rightarrow> error + session" where
  "setSessionAtomic s LF_reserved value =
     bindE (safeMeteredAtomicNumber value) (\<lambda>minor.
       Inr (s\<lparr>ses_reservedAtomic := Some value, ses_reservedMinor := Some minor\<rparr>))"
| "setSessionAtomic s LF_spent value =
     bindE (safeMeteredAtomicNumber value) (\<lambda>minor.
     bindE (fromMinorUnits (Some minor) (ses_currency s)) (\<lambda>major.
       Inr (s\<lparr>ses_spentAtomic := Some value, ses_spentMinor := Some minor, ses_spent := major\<rparr>)))"
| "setSessionAtomic s LF_limit value =
     bindE (safeMeteredAtomicNumber value) (\<lambda>minor.
       Inr (s\<lparr>ses_limitAtomic := Some value, ses_limitMinor := Some minor\<rparr>))"

definition meteredGrantRemaining :: "metered_grant \<Rightarrow> int" where
  "meteredGrantRemaining g = mg_totalLimitAtomic g - mg_spentAtomic g - mg_reservedAtomic g"

subsection \<open>Views of the documents\<close>

record metered_grant_dto =
  gd_id :: string
  gd_appId :: string
  gd_sessionId :: string
  gd_recipientId :: string
  gd_destinationId :: string
  gd_rail :: string
  gd_network :: string
  gd_assetId :: string
  gd_executor :: string
  gd_connectionId :: "string option"
  gd_status :: string
  gd_maxPerEventAtomic :: string
  gd_totalLimitAtomic :: string
  gd_reservedAtomic :: string
  gd_spentAtomic :: string
  gd_remainingAtomic :: string
  gd_rateLimitCount :: int
  gd_rateLimitWindowSeconds :: int
  gd_immediateThresholdAtomic :: string
  gd_maxBatchAtomic :: string
  gd_maxBatchEvents :: int
  gd_settlementDelayMs :: int
  gd_expiresAt :: string
  gd_createdAt :: string
  gd_revokedAt :: "string option"

definition toMeteredGrantDto :: "metered_grant \<Rightarrow> metered_grant_dto" where
  "toMeteredGrantDto g =
     (let remaining = meteredGrantRemaining g in
      \<lparr>gd_id = mg_grantId g, gd_appId = mg_appId g, gd_sessionId = mg_sessionId g,
       gd_recipientId = mg_recipientId g, gd_destinationId = mg_destinationId g,
       gd_rail = rail_text (mg_rail g), gd_network = mg_network g, gd_assetId = mg_assetId g,
       gd_executor = executor_text (mg_executor g), gd_connectionId = mg_connectionId g,
       gd_status = grant_status_text (mg_status g),
       gd_maxPerEventAtomic = atomic_text (mg_maxPerEventAtomic g),
       gd_totalLimitAtomic = atomic_text (mg_totalLimitAtomic g),
       gd_reservedAtomic = atomic_text (mg_reservedAtomic g), gd_spentAtomic = atomic_text (mg_spentAtomic g),
       gd_remainingAtomic = atomic_text (if remaining < 0 then 0 else remaining),
       gd_rateLimitCount = mg_rateLimitCount g, gd_rateLimitWindowSeconds = mg_rateLimitWindowSeconds g,
       gd_immediateThresholdAtomic = atomic_text (mg_immediateThresholdAtomic g),
       gd_maxBatchAtomic = atomic_text (mg_maxBatchAtomic g), gd_maxBatchEvents = mg_maxBatchEvents g,
       gd_settlementDelayMs = mg_settlementDelayMs g, gd_expiresAt = toISOString (mg_expiresAt g),
       gd_createdAt = toISOString (mg_createdAt g), gd_revokedAt = map_option toISOString (mg_revokedAt g)\<rparr>)"

record usage_receipt_view =
  ur_id :: string
  ur_status :: string
  ur_proofKind :: "string option"
  ur_proofReference :: "string option"
  ur_paymentRequestHash :: "string option"
  ur_settledAt :: "string option"
  ur_releasedAt :: "string option"
  ur_failure :: "string option"

record usage_event_dto =
  ud_id :: string
  ud_externalId :: string
  ud_appId :: string
  ud_grantId :: string
  ud_sessionId :: string
  ud_recipientId :: string
  ud_destinationId :: string
  ud_rail :: string
  ud_network :: string
  ud_assetId :: string
  ud_amountAtomic :: string
  ud_type :: string
  ud_policyReference :: string
  ud_batchId :: string
  ud_status :: string
  ud_metadata :: "json option"
  ud_acceptedAt :: string
  ud_receipt :: usage_receipt_view

definition recordMetadata :: "json option \<Rightarrow> json option" where
  "recordMetadata v = (case v of Some (JObj kvs) \<Rightarrow> Some (JObj kvs) | _ \<Rightarrow> None)"

text \<open>\<open>x ? ... : undefined\<close> on an optional text: the empty text counts as absent.\<close>

definition nonempty :: "string option \<Rightarrow> string option" where
  "nonempty x = (if x = Some [] then None else x)"

definition toUsageEventDto :: "usage_event \<Rightarrow> usage_event_dto" where
  "toUsageEventDto e =
     \<lparr>ud_id = ue_eventId e, ud_externalId = ue_externalId e, ud_appId = ue_appId e, ud_grantId = ue_grantId e,
      ud_sessionId = ue_sessionId e, ud_recipientId = ue_recipientId e, ud_destinationId = ue_destinationId e,
      ud_rail = rail_text (ue_rail e), ud_network = ue_network e, ud_assetId = ue_assetId e,
      ud_amountAtomic = atomic_text (ue_amountAtomic e), ud_type = ue_type e,
      ud_policyReference = ue_policyReference e, ud_batchId = ue_batchId e,
      ud_status = usage_status_text (ue_status e), ud_metadata = recordMetadata (ue_metadata e),
      ud_acceptedAt = toISOString (ue_acceptedAt e),
      ud_receipt = \<lparr>ur_id = ue_receiptId e, ur_status = usage_status_text (ue_status e),
        ur_proofKind = ue_proofKind e, ur_proofReference = ue_proofReference e,
        ur_paymentRequestHash = ue_paymentRequestHash e, ur_settledAt = map_option toISOString (ue_settledAt e),
        ur_releasedAt = map_option toISOString (ue_releasedAt e), ur_failure = nonempty (ue_failureCode e)\<rparr>\<rparr>"

record metered_batch_dto =
  bd_id :: string
  bd_grantId :: string
  bd_sessionId :: string
  bd_recipientId :: string
  bd_destinationId :: string
  bd_rail :: string
  bd_network :: string
  bd_assetId :: string
  bd_executor :: string
  bd_status :: string
  bd_totalAtomic :: string
  bd_eventCount :: int
  bd_attempts :: int
  bd_runAfter :: string
  bd_submittedAt :: "string option"
  bd_completedAt :: "string option"
  bd_paymentRequestHash :: "string option"
  bd_paymentHash :: "string option"
  bd_providerPaymentId :: "string option"
  bd_proofKind :: "string option"
  bd_proofReference :: "string option"
  bd_failure :: "string option"

definition toMeteredBatchDto :: "metered_batch \<Rightarrow> metered_batch_dto" where
  "toMeteredBatchDto b =
     \<lparr>bd_id = mb_batchId b, bd_grantId = mb_grantId b, bd_sessionId = mb_sessionId b,
      bd_recipientId = mb_recipientId b, bd_destinationId = mb_destinationId b,
      bd_rail = rail_text (mb_rail b), bd_network = mb_network b, bd_assetId = mb_assetId b,
      bd_executor = executor_text (mb_executor b), bd_status = batch_status_text (mb_status b),
      bd_totalAtomic = atomic_text (mb_totalAtomic b), bd_eventCount = mb_eventCount b,
      bd_attempts = mb_attempts b, bd_runAfter = toISOString (mb_runAfter b),
      bd_submittedAt = map_option toISOString (mb_submittedAt b),
      bd_completedAt = map_option toISOString (mb_completedAt b),
      bd_paymentRequestHash = mb_paymentRequestHash b, bd_paymentHash = mb_paymentHash b,
      bd_providerPaymentId = mb_providerPaymentId b, bd_proofKind = mb_proofKind b,
      bd_proofReference = mb_proofReference b, bd_failure = nonempty (mb_failureCode b)\<rparr>"

subsection \<open>Granting\<close>

record metered_actor =
  ma_appId :: string
  ma_ownerWalletId :: string
  ma_wallet :: bool
  ma_keyId :: "string option"

record grant_input =
  gi_sessionId :: string
  gi_recipientId :: string
  gi_destinationId :: string
  gi_rail :: payment_rail
  gi_network :: string
  gi_assetId :: string
  gi_executor :: metered_executor
  gi_connectionId :: "string option"
  gi_maxPerEventAtomic :: string
  gi_totalLimitAtomic :: string
  gi_rateLimitCount :: int
  gi_rateLimitWindowSeconds :: int
  gi_immediateThresholdAtomic :: string
  gi_maxBatchAtomic :: string
  gi_maxBatchEvents :: int
  gi_settlementDelayMs :: int
  gi_expiresAt :: "int option"

definition ensureMeteredActorApp :: "metered_actor \<Rightarrow> 'a metered_db_scheme \<Rightarrow> error + unit" where
  "ensureMeteredActorApp actor d =
     require (list_ex (\<lambda>a. app_appId a = ma_appId actor \<and> app_ownerWalletId a = ma_ownerWalletId actor
         \<and> app_status a = AP_active) (apps d))
       (ApiError 404 ''APP_NOT_FOUND'')"

definition validateGrantExecutor :: "payment_rail \<Rightarrow> metered_executor \<Rightarrow> string option \<Rightarrow> error + unit" where
  "validateGrantExecutor rail executor connectionId =
     (if rail = R_lightning \<and> executor \<notin> {ME_nwc, ME_btcpay} then Inl (ApiError 400 ''METERED_EXECUTOR_MISMATCH'')
      else if rail = R_fiber \<and> executor \<noteq> ME_fiber then Inl (ApiError 400 ''METERED_EXECUTOR_MISMATCH'')
      else if rail \<notin> {R_lightning, R_fiber} then Inl (ApiError 400 ''METERED_RAIL_UNSUPPORTED'')
      else if executor \<noteq> ME_fiber \<and> trim (opt_or connectionId []) = []
      then Inl (ApiError 400 ''METERED_CONNECTION_REQUIRED'')
      else Inr ())"

definition connectionScopeMatches :: "scope_type \<Rightarrow> string \<Rightarrow> metered_actor \<Rightarrow> string \<Rightarrow> bool" where
  "connectionScopeMatches scopeType scopeId actor sessionId =
     (case scopeType of SC_wallet \<Rightarrow> scopeId = ma_ownerWalletId actor | SC_pass \<Rightarrow> scopeId = sessionId
      | SC_app \<Rightarrow> scopeId = ma_appId actor)"

definition requiredBtcpayPermissions :: "string \<Rightarrow> string list" where
  "requiredBtcpayPermissions storeId =
     [''btcpay.store.cancreateinvoice:'' @ storeId, ''btcpay.store.canviewinvoices:'' @ storeId,
      ''btcpay.store.canuselightningnode:'' @ storeId]"

definition validateNwcConnection ::
  "metered_actor \<Rightarrow> string \<Rightarrow> string \<Rightarrow> string \<Rightarrow> int \<Rightarrow> int \<Rightarrow> nwc_connection option \<Rightarrow> error + unit" where
  "validateNwcConnection actor sessionId network assetId maxBatch totalLimit found =
     (case found of
        None \<Rightarrow> Inl (ApiError 403 ''METERED_CONNECTION_SCOPE_INVALID'')
      | Some c \<Rightarrow>
         if \<not> connectionScopeMatches (nwc_scopeType c) (nwc_scopeId c) actor sessionId
         then Inl (ApiError 403 ''METERED_CONNECTION_SCOPE_INVALID'')
         else if nwc_network c \<noteq> network \<or> nwc_assetId c \<noteq> assetId \<or> nwc_executionMode c \<noteq> EM_unattended \<or> \<not> nwc_allowanceEnforced c
           \<or> nonempty (nwc_allowanceProofEventId c) = None \<or> ''pay_invoice'' \<notin> set (nwc_methods c)
           \<or> ''lookup_invoice'' \<notin> set (nwc_methods c)
         then Inl (ApiError 409 ''METERED_NWC_CAPABILITY_INVALID'')
         else if nwc_allowanceAtomic c - nwc_allowanceUsedAtomic c < min maxBatch totalLimit
         then Inl (ApiError 402 ''METERED_NWC_ALLOWANCE_INSUFFICIENT'')
         else Inr ())"

definition validateBtcpayConnection ::
  "metered_actor \<Rightarrow> string \<Rightarrow> string \<Rightarrow> btcpay_connection option \<Rightarrow> error + unit" where
  "validateBtcpayConnection actor sessionId network found =
     (case found of
        None \<Rightarrow> Inl (ApiError 403 ''METERED_CONNECTION_SCOPE_INVALID'')
      | Some c \<Rightarrow>
         if \<not> connectionScopeMatches (btc_scopeType c) (btc_scopeId c) actor sessionId
         then Inl (ApiError 403 ''METERED_CONNECTION_SCOPE_INVALID'')
         else if btc_network c \<noteq> network
           \<or> \<not> list_all (\<lambda>permission. permission \<in> set (btc_permissions c)) (requiredBtcpayPermissions (btc_storeId c))
         then Inl (ApiError 409 ''METERED_BTCPAY_CAPABILITY_INVALID'')
         else Inr ())"

definition validateExecutorConnection ::
  "metered_actor \<Rightarrow> grant_input \<Rightarrow> string \<Rightarrow> int \<Rightarrow> int \<Rightarrow> 'a metered_db_scheme \<Rightarrow> error + unit" where
  "validateExecutorConnection actor i network maxBatch totalLimit d =
     (case gi_executor i of
        ME_fiber \<Rightarrow> Inr ()
      | ME_nwc \<Rightarrow>
          validateNwcConnection actor (gi_sessionId i) network (gi_assetId i) maxBatch totalLimit
            (List.find (\<lambda>c. Some (nwc_connectionId c) = gi_connectionId i \<and> nwc_ownerWalletId c = ma_ownerWalletId actor
                \<and> nwc_status c = CN_active) (nwc_connections d))
      | ME_btcpay \<Rightarrow>
          validateBtcpayConnection actor (gi_sessionId i) network
            (List.find (\<lambda>c. Some (btc_connectionId c) = gi_connectionId i \<and> btc_ownerWalletId c = ma_ownerWalletId actor
                \<and> btc_status c = CN_active) (btcpay_connections d)))"

definition assertOwnerBoundSession :: "session \<Rightarrow> metered_actor \<Rightarrow> int \<Rightarrow> error + unit" where
  "assertOwnerBoundSession s actor now =
     (if ses_status s \<noteq> S_active \<or> ses_appId s \<noteq> Some (ma_appId actor)
         \<or> ses_appGrantOwnerWalletId s \<noteq> Some (ma_ownerWalletId actor)
         \<or> ''charges:create'' \<notin> set (ses_appPermissions s) \<or> \<not> ses_autoMicroCharges s
         \<or> (case ses_expiryAt s of Some t \<Rightarrow> t \<le> now | None \<Rightarrow> False)
      then Inl (ApiError 403 ''METERED_APP_GRANT_INVALID'') else Inr ())"

definition grant_amounts :: "grant_input \<Rightarrow> error + int \<times> int \<times> int \<times> int" where
  "grant_amounts i =
     bindE (exactMeteredAmount (gi_maxPerEventAtomic i) True) (\<lambda>perEvent.
     bindE (exactMeteredAmount (gi_totalLimitAtomic i) True) (\<lambda>total'.
     bindE (exactMeteredAmount (gi_immediateThresholdAtomic i) True) (\<lambda>threshold.
     bindE (exactMeteredAmount (gi_maxBatchAtomic i) True) (\<lambda>maxBatch.
     case assertMeteredGrantLimits perEvent total' threshold maxBatch of
       Inl _ \<Rightarrow> Inl (ApiError 400 ''METERED_GRANT_LIMITS_INVALID'')
     | Inr _ \<Rightarrow> Inr (perEvent, total', threshold, maxBatch)))))"

text \<open>An unparsable \<open>expiresAt\<close> is the date \<open>NaN\<close>, here \<open>None\<close>.\<close>

definition grant_expiry :: "grant_input \<Rightarrow> int \<Rightarrow> error + int" where
  "grant_expiry i now =
     (case gi_expiresAt i of
        None \<Rightarrow> Inl (ApiError 400 ''METERED_GRANT_EXPIRY_INVALID'')
      | Some t \<Rightarrow> if t \<le> now then Inl (ApiError 400 ''METERED_GRANT_EXPIRY_INVALID'') else Inr t)"

definition grant_destination :: "metered_actor \<Rightarrow> grant_input \<Rightarrow> 'a metered_db_scheme \<Rightarrow> payment_destination option" where
  "grant_destination actor i d =
     List.find (\<lambda>x. dst_destinationId x = gi_destinationId i \<and> dst_recipientId x = gi_recipientId i
         \<and> dst_ownerWalletId x = ma_ownerWalletId actor \<and> dst_status x = DS_active \<and> dst_reusable x) (destinations d)"

definition grant_session_checks ::
  "metered_actor \<Rightarrow> grant_input \<Rightarrow> int \<Rightarrow> int \<Rightarrow> string \<Rightarrow> int \<Rightarrow> 'a metered_db_scheme \<Rightarrow> error + unit" where
  "grant_session_checks actor i now expiresAt assetId totalLimit d =
     (case List.find (\<lambda>s. ses_publicId s = gi_sessionId i \<and> ses_ownerWalletId s = ma_ownerWalletId actor) (sessions d) of
        None \<Rightarrow> Inl (ApiError 404 ''SESSION_NOT_FOUND'')
      | Some s \<Rightarrow>
     bindE (assertOwnerBoundSession s actor now) (\<lambda>_.
     bindE (require (\<not> (case ses_expiryAt s of Some t \<Rightarrow> expiresAt > t | None \<Rightarrow> False))
              (ApiError 400 ''METERED_GRANT_EXPIRY_INVALID'')) (\<lambda>_.
     (case grant_destination actor i d of
        None \<Rightarrow> Inl (ApiError 404 ''METERED_DESTINATION_NOT_FOUND'')
      | Some x \<Rightarrow>
     bindE (require (dst_kind x \<notin> {DK_invoice, DK_address}) (ApiError 400 ''METERED_REUSABLE_DESTINATION_REQUIRED'')) (\<lambda>_.
     bindE (require (\<not> (dst_rail x \<noteq> gi_rail i \<or> toLowerCase (dst_network x) \<noteq> toLowerCase (gi_network i)
              \<or> dst_assetId x \<noteq> assetId)) (ApiError 409 ''METERED_DESTINATION_MISMATCH'')) (\<lambda>_.
     bindE (require (opt_or (ses_assetId s) (if ses_currency s = ''BTC'' then ''bitcoin:btc'' else ''ckb:ckb'') = assetId)
              (ApiError 409 ''METERED_SESSION_ASSET_MISMATCH'')) (\<lambda>_.
     require (\<not> totalLimit > sessionAtomic s LF_limit) (ApiError 400 ''METERED_GRANT_LIMIT_EXCEEDED''))))))))"

definition new_grant ::
  "metered_actor \<Rightarrow> grant_input \<Rightarrow> string \<Rightarrow> int \<Rightarrow> int \<Rightarrow> string \<Rightarrow> int \<times> int \<times> int \<times> int \<Rightarrow> metered_grant" where
  "new_grant actor i grantId now expiresAt assetId = (\<lambda>(perEvent, total', threshold, maxBatch).
     \<lparr>mg_grantId = grantId, mg_ownerWalletId = ma_ownerWalletId actor, mg_appId = ma_appId actor,
      mg_sessionId = gi_sessionId i, mg_recipientId = gi_recipientId i, mg_destinationId = gi_destinationId i,
      mg_rail = gi_rail i, mg_network = toLowerCase (trim (gi_network i)), mg_assetId = assetId,
      mg_executor = gi_executor i, mg_connectionId = nonempty (map_option trim (gi_connectionId i)),
      mg_status = GR_active, mg_maxPerEventAtomic = perEvent, mg_totalLimitAtomic = total',
      mg_reservedAtomic = 0, mg_spentAtomic = 0, mg_rateLimitCount = gi_rateLimitCount i,
      mg_rateLimitWindowSeconds = gi_rateLimitWindowSeconds i, mg_immediateThresholdAtomic = threshold,
      mg_maxBatchAtomic = maxBatch, mg_maxBatchEvents = gi_maxBatchEvents i,
      mg_settlementDelayMs = gi_settlementDelayMs i, mg_expiresAt = expiresAt, mg_revokedAt = None,
      mg_createdAt = now\<rparr>)"

text \<open>The \<open>min\<close> and \<open>max\<close> of the schema.\<close>

definition grant_schema_ok :: "metered_grant \<Rightarrow> bool" where
  "grant_schema_ok g \<longleftrightarrow> 1 \<le> mg_rateLimitCount g \<and> mg_rateLimitCount g \<le> 100000
     \<and> 1 \<le> mg_rateLimitWindowSeconds g \<and> mg_rateLimitWindowSeconds g \<le> 86400
     \<and> 1 \<le> mg_maxBatchEvents g \<and> mg_maxBatchEvents g \<le> 1000
     \<and> 0 \<le> mg_settlementDelayMs g \<and> mg_settlementDelayMs g \<le> 3600000"

definition createMeteredGrant ::
  "string \<Rightarrow> metered_actor \<Rightarrow> grant_input \<Rightarrow> int \<Rightarrow> ('a metered_db_scheme, metered_grant_dto) op" where
  "createMeteredGrant grantId actor i now d =
     (case bindE (require (ma_wallet actor) (ApiError 403 ''METERED_GRANT_OWNER_REQUIRED'')) (\<lambda>_.
           bindE (ensureMeteredActorApp actor d) (\<lambda>_.
           bindE (grant_amounts i) (\<lambda>amounts.
           bindE (validateGrantExecutor (gi_rail i) (gi_executor i) (gi_connectionId i)) (\<lambda>_.
           bindE (grant_expiry i now) (\<lambda>expiresAt.
           bindE (asAssetId (gi_assetId i)) (\<lambda>assetId.
           bindE (grant_session_checks actor i now expiresAt assetId (fst (snd amounts)) d) (\<lambda>_.
           bindE (validateExecutorConnection actor i (toLowerCase (trim (gi_network i)))
                    (snd (snd (snd amounts))) (fst (snd amounts)) d) (\<lambda>_.
           Inr (new_grant actor i grantId now expiresAt assetId amounts))))))))) of
        Inl e \<Rightarrow> (Inl e, d)
      | Inr g \<Rightarrow>
         if \<not> grant_schema_ok g then (Inl (ModelError ''ValidationError''), d)
         else
           (case insert_row (\<lambda>x. mg_grantId x = mg_grantId g) g (grants d) of
              None \<Rightarrow> (Inl DuplicateKey, d)
            | Some gs \<Rightarrow>
               (Inr (toMeteredGrantDto g),
                writeAuditLog (ma_ownerWalletId actor) ''metered.grant.created'' ''metered_grant'' (mg_grantId g)
                  (d\<lparr>grants := gs\<rparr>))))"

definition listMeteredGrants :: "metered_actor \<Rightarrow> 'a metered_db_scheme \<Rightarrow> error + metered_grant_dto list" where
  "listMeteredGrants actor d =
     bindE (ensureMeteredActorApp actor d) (\<lambda>_.
       Inr (map toMeteredGrantDto (sort_by (\<lambda>a b. mg_createdAt b \<le> mg_createdAt a)
         (filter (\<lambda>g. mg_appId g = ma_appId actor \<and> mg_ownerWalletId g = ma_ownerWalletId actor) (grants d)))))"

text \<open>\<open>...(grantId ? { grantId } : {})\<close>: no filter without a grant id.\<close>

definition grant_filter :: "string option \<Rightarrow> string \<Rightarrow> bool" where
  "grant_filter grantId i \<longleftrightarrow> (case nonempty grantId of None \<Rightarrow> True | Some g \<Rightarrow> i = g)"

definition listUsageEvents :: "metered_actor \<Rightarrow> string option \<Rightarrow> 'a metered_db_scheme \<Rightarrow> error + usage_event_dto list" where
  "listUsageEvents actor grantId d =
     bindE (ensureMeteredActorApp actor d) (\<lambda>_.
       Inr (map toUsageEventDto (take 500 (sort_by (\<lambda>a b. ue_acceptedAt b \<le> ue_acceptedAt a)
         (filter (\<lambda>e. ue_appId e = ma_appId actor \<and> ue_ownerWalletId e = ma_ownerWalletId actor
            \<and> grant_filter grantId (ue_grantId e)) (events d))))))"

definition listMeteredBatches :: "metered_actor \<Rightarrow> string option \<Rightarrow> 'a metered_db_scheme \<Rightarrow> error + metered_batch_dto list" where
  "listMeteredBatches actor grantId d =
     bindE (ensureMeteredActorApp actor d) (\<lambda>_.
       Inr (map toMeteredBatchDto (take 200 (sort_by (\<lambda>a b. mb_createdAt b \<le> mb_createdAt a)
         (filter (\<lambda>b. mb_appId b = ma_appId actor \<and> mb_ownerWalletId b = ma_ownerWalletId actor
            \<and> grant_filter grantId (mb_grantId b)) (batches d))))))"

subsection \<open>Accepting a usage event\<close>

record usage_input =
  ui_grantId :: string
  ui_externalId :: string
  ui_amountAtomic :: string
  ui_type :: "string option"
  ui_policyReference :: "string option"
  ui_metadata :: "json option"

record metered_ids =
  mi_batchId :: string
  mi_eventId :: string
  mi_receiptId :: string

definition trimmed_or :: "string option \<Rightarrow> string \<Rightarrow> string" where
  "trimmed_or x y = (let t = trim (opt_or x []) in if t = [] then y else t)"

definition usage_type :: "usage_input \<Rightarrow> string" where
  "usage_type i = trimmed_or (ui_type i) ''Metered usage''"

definition usage_policy :: "usage_input \<Rightarrow> string" where
  "usage_policy i = trimmed_or (ui_policyReference i) (ui_grantId i)"

definition usageRequestFingerprint :: "(string \<Rightarrow> string) \<Rightarrow> metered_actor \<Rightarrow> usage_input \<Rightarrow> int \<Rightarrow> string" where
  "usageRequestFingerprint sha actor i amount =
     sha (stringify (JObj
       [(''appId'', JStr (ma_appId actor)), (''grantId'', JStr (ui_grantId i)),
        (''externalId'', JStr (trim (ui_externalId i))), (''amountAtomic'', JStr (atomic_text amount)),
        (''type'', JStr (usage_type i)), (''policyReference'', JStr (usage_policy i))]))"

definition find_event :: "string \<Rightarrow> string \<Rightarrow> 'a metered_db_scheme \<Rightarrow> usage_event option" where
  "find_event appId externalId d = List.find (\<lambda>e. ue_appId e = appId \<and> ue_externalId e = externalId) (events d)"

definition replayUsageEvent :: "usage_event \<Rightarrow> string \<Rightarrow> error + usage_event_dto" where
  "replayUsageEvent existing fingerprint =
     (if ue_requestFingerprint existing \<noteq> fingerprint then Inl (ApiError 409 ''USAGE_EVENT_IDEMPOTENCY_CONFLICT'')
      else Inr (toUsageEventDto existing))"

text \<open>The limits of the grant, then those of the pass.\<close>

definition grant_admits :: "int \<Rightarrow> metered_grant \<Rightarrow> error + unit" where
  "grant_admits amount g =
     (if amount > mg_maxPerEventAtomic g then Inl (ApiError 402 ''METERED_PER_EVENT_LIMIT_EXCEEDED'')
      else if amount > meteredGrantRemaining g then Inl (ApiError 402 ''METERED_GRANT_LIMIT_EXCEEDED'')
      else Inr ())"

definition session_admits :: "metered_actor \<Rightarrow> int \<Rightarrow> int \<Rightarrow> metered_grant \<Rightarrow> 'a metered_db_scheme \<Rightarrow> error + session" where
  "session_admits actor amount now g d =
     (case List.find (\<lambda>s. ses_publicId s = mg_sessionId g \<and> ses_ownerWalletId s = ma_ownerWalletId actor) (sessions d) of
        None \<Rightarrow> Inl (ApiError 404 ''SESSION_NOT_FOUND'')
      | Some s \<Rightarrow>
         bindE (assertOwnerBoundSession s actor now) (\<lambda>_.
         bindE (require (\<not> sessionAtomic s LF_spent + (sessionAtomic s LF_reserved + amount) > sessionAtomic s LF_limit)
                  (ApiError 402 ''SESSION_LIMIT_EXCEEDED'')) (\<lambda>_.
         Inr s)))"

definition is_window :: "metered_grant \<Rightarrow> int \<Rightarrow> rate_counter \<Rightarrow> bool" where
  "is_window g start c \<longleftrightarrow> mrc_grantId c = mg_grantId g \<and> mrc_windowStart c = start"

definition new_window :: "metered_grant \<Rightarrow> int \<Rightarrow> rate_counter" where
  "new_window g now =
     (case nextRateWindow now (mg_rateLimitWindowSeconds g) of (start, end') \<Rightarrow>
        \<lparr>mrc_grantId = mg_grantId g, mrc_windowStart = start, mrc_windowEnd = end', mrc_count = 0\<rparr>)"

definition count_usage :: "rate_counter \<Rightarrow> rate_counter" where
  "count_usage c = c\<lparr>mrc_count := mrc_count c + 1\<rparr>"

definition take_rate_slot :: "metered_grant \<Rightarrow> int \<Rightarrow> rate_counter list \<Rightarrow> error + rate_counter list" where
  "take_rate_slot g now cs =
     (let start = fst (nextRateWindow now (mg_rateLimitWindowSeconds g));
          cs1 = (if List.find (is_window g start) cs = None then cs @ [new_window g now] else cs);
          counter = opt_or (List.find (is_window g start) cs1) (new_window g now)
      in if mrc_count counter \<ge> mg_rateLimitCount g then Inl (ApiError 429 ''METERED_RATE_LIMIT_EXCEEDED'')
         else Inr (update_first (is_window g start) count_usage cs1))"

definition new_batch :: "string \<Rightarrow> string \<Rightarrow> bool \<Rightarrow> int \<Rightarrow> metered_grant \<Rightarrow> metered_batch" where
  "new_batch batchId batchKey immediate now g =
     \<lparr>mb_batchId = batchId, mb_batchKey = batchKey, mb_accepting = (\<not> immediate),
      mb_ownerWalletId = mg_ownerWalletId g, mb_appId = mg_appId g, mb_grantId = mg_grantId g,
      mb_sessionId = mg_sessionId g, mb_recipientId = mg_recipientId g, mb_destinationId = mg_destinationId g,
      mb_rail = mg_rail g, mb_network = mg_network g, mb_assetId = mg_assetId g, mb_executor = mg_executor g,
      mb_connectionId = mg_connectionId g, mb_status = (if immediate then B_queued else B_collecting),
      mb_totalAtomic = 0, mb_eventCount = 0,
      mb_runAfter = (if immediate then now else now + mg_settlementDelayMs g),
      mb_attempts = 0, mb_maxAttempts = 5, mb_leaseId = None, mb_leaseExpiresAt = None, mb_submittedAt = None,
      mb_completedAt = None, mb_paymentRequestHash = None, mb_paymentHash = None, mb_providerPaymentId = None,
      mb_proofKind = None, mb_proofReference = None, mb_failureCode = None, mb_createdAt = now\<rparr>"

definition batch_clash :: "metered_batch \<Rightarrow> metered_batch \<Rightarrow> bool" where
  "batch_clash b x \<longleftrightarrow> mb_batchId x = mb_batchId b
     \<or> (mb_accepting b \<and> mb_accepting x \<and> mb_batchKey x = mb_batchKey b)"

definition queue_batch :: "int \<Rightarrow> metered_batch \<Rightarrow> metered_batch" where
  "queue_batch now b = b\<lparr>mb_accepting := False, mb_status := B_queued, mb_runAfter := now\<rparr>"

definition open_batch :: "string \<Rightarrow> metered_grant \<Rightarrow> metered_batch list \<Rightarrow> metered_batch option" where
  "open_batch batchKey g bs =
     List.find (\<lambda>b. mb_batchKey b = batchKey \<and> mb_accepting b \<and> mb_grantId b = mg_grantId g) bs"

definition batch_full :: "metered_grant \<Rightarrow> int \<Rightarrow> metered_batch \<Rightarrow> bool" where
  "batch_full g amount b \<longleftrightarrow> mb_eventCount b \<ge> mg_maxBatchEvents g \<or> mb_totalAtomic b + amount > mg_maxBatchAtomic g"

definition add_batch :: "metered_batch \<Rightarrow> metered_batch list \<Rightarrow> error + metered_batch \<times> metered_batch list" where
  "add_batch b bs = (case insert_row (batch_clash b) b bs of None \<Rightarrow> Inl DuplicateKey | Some bs' \<Rightarrow> Inr (b, bs'))"

definition choose_batch ::
  "string \<Rightarrow> string \<Rightarrow> bool \<Rightarrow> int \<Rightarrow> int \<Rightarrow> metered_grant \<Rightarrow> metered_batch list
    \<Rightarrow> error + metered_batch \<times> metered_batch list" where
  "choose_batch batchId batchKey immediate amount now g bs =
     (case (if immediate then None else open_batch batchKey g bs) of
        None \<Rightarrow> add_batch (new_batch batchId batchKey immediate now g) bs
      | Some b \<Rightarrow>
         if batch_full g amount b
         then add_batch (new_batch batchId batchKey immediate now g)
                (update_first (\<lambda>y. mb_batchId y = mb_batchId b) (\<lambda>_. queue_batch now b) bs)
         else Inr (b, bs))"

definition grow_batch :: "bool \<Rightarrow> int \<Rightarrow> int \<Rightarrow> metered_grant \<Rightarrow> metered_batch \<Rightarrow> error + metered_batch" where
  "grow_batch immediate amount now g b =
     (let nextTotal = mb_totalAtomic b + amount; nextCount = mb_eventCount b + 1 in
      bindE (checkedAtomicValue nextTotal) (\<lambda>total'.
        let b' = b\<lparr>mb_totalAtomic := total', mb_eventCount := nextCount\<rparr> in
        Inr (if immediate \<or> mg_settlementDelayMs g = 0 \<or> nextTotal \<ge> mg_immediateThresholdAtomic g
                \<or> nextTotal \<ge> mg_maxBatchAtomic g \<or> nextCount \<ge> mg_maxBatchEvents g
             then queue_batch now b' else b')))"

definition join_batch ::
  "(string \<Rightarrow> string) \<Rightarrow> string \<Rightarrow> int \<Rightarrow> int \<Rightarrow> metered_grant \<Rightarrow> metered_batch list \<Rightarrow> error + string \<times> metered_batch list" where
  "join_batch sha batchId amount now g bs =
     (let batchKey = sha (meteredBatchKey g); immediate = (amount \<ge> mg_immediateThresholdAtomic g) in
      bindE (asAssetId (mg_assetId g)) (\<lambda>_.
      bindE (choose_batch batchId batchKey immediate amount now g bs) (\<lambda>(b, bs1).
      bindE (grow_batch immediate amount now g b) (\<lambda>b'.
      Inr (mb_batchId b', update_first (\<lambda>y. mb_batchId y = mb_batchId b') (\<lambda>_. b') bs1)))))"

definition new_event ::
  "metered_ids \<Rightarrow> usage_input \<Rightarrow> int \<Rightarrow> string \<Rightarrow> string \<Rightarrow> int \<Rightarrow> metered_grant \<Rightarrow> usage_event" where
  "new_event ids i amount fingerprint batchId now g =
     \<lparr>ue_eventId = mi_eventId ids, ue_receiptId = mi_receiptId ids, ue_externalId = trim (ui_externalId i),
      ue_requestFingerprint = fingerprint, ue_ownerWalletId = mg_ownerWalletId g, ue_appId = mg_appId g,
      ue_grantId = mg_grantId g, ue_sessionId = mg_sessionId g, ue_recipientId = mg_recipientId g,
      ue_destinationId = mg_destinationId g, ue_rail = mg_rail g, ue_network = mg_network g,
      ue_assetId = mg_assetId g, ue_amountAtomic = amount, ue_type = usage_type i,
      ue_policyReference = usage_policy i, ue_metadata = ui_metadata i, ue_batchId = batchId,
      ue_status = U_reserved, ue_reservationDay = take 10 (toISOString now), ue_acceptedAt = now,
      ue_settlingAt = None, ue_settledAt = None, ue_releasedAt = None, ue_proofKind = None,
      ue_proofReference = None, ue_paymentRequestHash = None, ue_failureCode = None\<rparr>"

definition event_clash :: "usage_event \<Rightarrow> usage_event \<Rightarrow> bool" where
  "event_clash e x \<longleftrightarrow> ue_eventId x = ue_eventId e \<or> ue_receiptId x = ue_receiptId e
     \<or> (ue_appId x = ue_appId e \<and> ue_externalId x = ue_externalId e)"

definition add_event :: "usage_event \<Rightarrow> usage_event list \<Rightarrow> error + usage_event list" where
  "add_event e es =
     (if ue_externalId e = [] then Inl (ModelError ''ValidationError'')
      else (case insert_row (event_clash e) e es of None \<Rightarrow> Inl DuplicateKey | Some es' \<Rightarrow> Inr es'))"

definition usage_attempt :: "metered_actor \<Rightarrow> usage_event \<Rightarrow> major \<Rightarrow> string \<Rightarrow> int \<Rightarrow> charge_attempt" where
  "usage_attempt actor e amount currency now =
     \<lparr>att_attemptId = ue_eventId e, att_sessionId = ue_sessionId e, att_appId = Some (ue_appId e),
      att_apiKeyId = ma_keyId actor, att_ownerWalletId = Some (ue_ownerWalletId e),
      att_idempotencyKey = Some (''usage:'' @ ue_appId e @ '':'' @ ue_externalId e),
      att_requestFingerprint = Some (ue_requestFingerprint e), att_serviceReference = Some (ue_externalId e),
      att_amount = amount, att_amountMinor = Some (ue_amountAtomic e), att_amountAtomic = Some (ue_amountAtomic e),
      att_currency = currency, att_assetId = Some (ue_assetId e), att_type = ue_type e, att_status = A_pending,
      att_reserveStatus = RS_reserved, att_failureCode = None, att_provider = None, att_network = None,
      att_proofId = None, att_proofType = None,
      att_executionLayer = (if ue_rail e = R_lightning then X_lightning else X_fiber),
      att_paymentRequestHash = None, att_providerCorrelationId = None, att_providerStatus = P_not_started,
      att_providerSubmittedAt = None, att_providerCompletedAt = None,
      att_reservationDay = Some (ue_reservationDay e), att_reservedAt = Some now, att_finalizedAt = None,
      att_executionLeaseId = None, att_executionLeaseExpiresAt = None,
      att_metadata = [(''meteredUsageEventId'', JStr (ue_eventId e)), (''meteredReceiptId'', JStr (ue_receiptId e)),
        (''meteredGrantId'', JStr (ue_grantId e)), (''meteredBatchId'', JStr (ue_batchId e)),
        (''policyReference'', JStr (ue_policyReference e))],
      att_createdAt = now\<rparr>"

text \<open>
  The transaction. Everything is computed before the documents are stored; an exception on the way
  leaves the writes made so far, which the transaction then undoes. That matters for one branch only:
  an expired grant is saved with status \<open>expired\<close> before the exception.
\<close>

definition accept_writes ::
  "(string \<Rightarrow> string) \<Rightarrow> metered_ids \<Rightarrow> metered_actor \<Rightarrow> usage_input \<Rightarrow> int \<Rightarrow> string \<Rightarrow> int
    \<Rightarrow> metered_grant \<Rightarrow> session \<Rightarrow> 'a metered_db_scheme \<Rightarrow> error + usage_event \<times> 'a metered_db_scheme" where
  "accept_writes sha ids actor i amount fingerprint now g s d =
     bindE (take_rate_slot g now (rate_counters d)) (\<lambda>cs.
     bindE (join_batch sha (mi_batchId ids) amount now g (batches d)) (\<lambda>(batchId, bs).
     let e = new_event ids i amount fingerprint batchId now g in
     bindE (add_event e (events d)) (\<lambda>es.
     bindE (fromMinorUnits (Some amount) (ses_currency s)) (\<lambda>major.
     let a = usage_attempt actor e major (ses_currency s) now in
     bindE (case insert_row (attempt_clash a) a (attempts d) of None \<Rightarrow> Inl DuplicateKey | Some as \<Rightarrow> Inr as) (\<lambda>as.
     bindE (checkedAtomicValue (mg_reservedAtomic g + amount)) (\<lambda>reserved.
     bindE (setSessionAtomic s LF_reserved (sessionAtomic s LF_reserved + amount)) (\<lambda>s'.
     Inr (e, save_session s' (save_grant (g\<lparr>mg_reservedAtomic := reserved\<rparr>)
                (d\<lparr>rate_counters := cs, batches := bs, events := es, attempts := as\<rparr>))))))))))"

definition accept_body ::
  "(string \<Rightarrow> string) \<Rightarrow> metered_ids \<Rightarrow> metered_actor \<Rightarrow> usage_input \<Rightarrow> int \<Rightarrow> string \<Rightarrow> int
    \<Rightarrow> ('a metered_db_scheme, usage_event) op" where
  "accept_body sha ids actor i amount fingerprint now d =
     (case find_event (ma_appId actor) (trim (ui_externalId i)) d of
        Some duplicate \<Rightarrow> (Inr duplicate, d)
      | None \<Rightarrow>
     (case List.find (\<lambda>g. mg_grantId g = ui_grantId i \<and> mg_appId g = ma_appId actor
                \<and> mg_ownerWalletId g = ma_ownerWalletId actor) (grants d) of
        None \<Rightarrow> (Inl (ApiError 404 ''METERED_GRANT_NOT_FOUND''), d)
      | Some g \<Rightarrow>
         if mg_status g \<noteq> GR_active then (Inl (ApiError 409 ''METERED_GRANT_INACTIVE''), d)
         else if mg_expiresAt g \<le> now
         then (Inl (ApiError 410 ''METERED_GRANT_EXPIRED''), save_grant (g\<lparr>mg_status := GR_expired\<rparr>) d)
         else
           (case bindE (grant_admits amount g) (\<lambda>_.
                 bindE (session_admits actor amount now g d) (\<lambda>s.
                 accept_writes sha ids actor i amount fingerprint now g s d)) of
              Inl e \<Rightarrow> (Inl e, d)
            | Inr (e, d') \<Rightarrow> (Inr e, d'))))"

definition acceptUsageEventOnce ::
  "(string \<Rightarrow> string) \<Rightarrow> metered_ids \<Rightarrow> metered_actor \<Rightarrow> usage_input \<Rightarrow> int
    \<Rightarrow> ('a metered_db_scheme, usage_event_dto) op" where
  "acceptUsageEventOnce sha ids actor i now d =
     (case bindE (exactMeteredAmount (ui_amountAtomic i) True) safeMeteredAtomicNumber of
        Inl e \<Rightarrow> (Inl e, d)
      | Inr amount \<Rightarrow>
         let fingerprint = usageRequestFingerprint sha actor i amount in
         (case find_event (ma_appId actor) (trim (ui_externalId i)) d of
            Some replay \<Rightarrow> (replayUsageEvent replay fingerprint, d)
          | None \<Rightarrow>
             (case transaction (accept_body sha ids actor i amount fingerprint now) d of
                (Inl e, d') \<Rightarrow> (Inl e, d')
              | (Inr accepted, d') \<Rightarrow>
                 (case replayUsageEvent accepted fingerprint of
                    Inl e \<Rightarrow> (Inl e, d')
                  | Inr dto \<Rightarrow>
                     (Inr dto, writeAuditLog (ma_ownerWalletId actor) ''metered.usage.accepted'' ''usage_event''
                        (ud_id dto) d')))))"

text \<open>
  \<open>submitUsageEvent\<close> repeats the transaction on a duplicate key, up to five times, with new identifiers
  each time: \<open>tries\<close> lists the identifiers and the clock of the attempts.
\<close>

definition MAX_TRANSACTION_RETRIES :: nat where
  "MAX_TRANSACTION_RETRIES = 5"

fun submit_loop ::
  "(string \<Rightarrow> string) \<Rightarrow> (metered_ids \<times> int) list \<Rightarrow> metered_actor \<Rightarrow> usage_input \<Rightarrow> error
    \<Rightarrow> ('a metered_db_scheme, usage_event_dto) op" where
  "submit_loop sha [] actor i lastError d = (Inl lastError, d)"
| "submit_loop sha ((ids, now) # tries) actor i lastError d =
     (case acceptUsageEventOnce sha ids actor i now d of
        (Inr dto, d') \<Rightarrow> (Inr dto, d')
      | (Inl DuplicateKey, d') \<Rightarrow>
         (case find_event (ma_appId actor) (trim (ui_externalId i)) d' of
            Some existing \<Rightarrow>
              (bindE (exactMeteredAmount (ui_amountAtomic i) True) (\<lambda>amount.
                 replayUsageEvent existing (usageRequestFingerprint sha actor i amount)), d')
          | None \<Rightarrow> submit_loop sha tries actor i DuplicateKey d')
      | (Inl e, d') \<Rightarrow> (Inl e, d'))"

definition submitUsageEvent ::
  "(string \<Rightarrow> string) \<Rightarrow> (metered_ids \<times> int) list \<Rightarrow> metered_actor \<Rightarrow> usage_input
    \<Rightarrow> ('a metered_db_scheme, usage_event_dto) op" where
  "submitUsageEvent sha tries actor i d =
     (case ensureMeteredActorApp actor d of
        Inl e \<Rightarrow> (Inl e, d)
      | Inr _ \<Rightarrow>
         submit_loop sha (take MAX_TRANSACTION_RETRIES tries) actor i
           (PlainError ''Usage event contention retries exhausted.'') d)"

subsection \<open>Releasing and revoking\<close>

definition live_status :: "usage_status \<Rightarrow> bool" where
  "live_status s \<longleftrightarrow> s \<in> {U_reserved, U_settling}"

definition terminal_batch :: "batch_status \<Rightarrow> bool" where
  "terminal_batch s \<longleftrightarrow> s \<in> {B_succeeded, B_released, B_failed}"

definition batch_events :: "string \<Rightarrow> usage_event list \<Rightarrow> usage_event list" where
  "batch_events batchId es = filter (\<lambda>e. ue_batchId e = batchId \<and> live_status (ue_status e)) es"

definition released_event :: "int \<Rightarrow> string \<Rightarrow> batch_status \<Rightarrow> usage_event \<Rightarrow> usage_event" where
  "released_event now failureCode finalStatus e =
     e\<lparr>ue_status := (if finalStatus = B_released then U_released else U_failed), ue_releasedAt := Some now,
       ue_failureCode := Some failureCode\<rparr>"

definition released_usage_attempt :: "int \<Rightarrow> string \<Rightarrow> charge_attempt \<Rightarrow> charge_attempt" where
  "released_usage_attempt now failureCode a =
     a\<lparr>att_status := A_failed, att_reserveStatus := RS_released, att_providerStatus := P_failed,
       att_failureCode := Some failureCode, att_finalizedAt := Some now\<rparr>"

definition closed_batch :: "int \<Rightarrow> string \<Rightarrow> batch_status \<Rightarrow> metered_batch \<Rightarrow> metered_batch" where
  "closed_batch now failureCode finalStatus b =
     b\<lparr>mb_status := finalStatus, mb_accepting := False, mb_completedAt := Some now,
       mb_failureCode := Some failureCode, mb_leaseExpiresAt := Some now, mb_leaseId := None\<rparr>"

definition release_batch_body ::
  "string \<Rightarrow> string \<Rightarrow> batch_status \<Rightarrow> int \<Rightarrow> ('a metered_db_scheme, unit) op" where
  "release_batch_body batchId failureCode finalStatus now d =
     (case find_batch batchId d of
        None \<Rightarrow> (Inr (), d)
      | Some b \<Rightarrow>
         if terminal_batch (mb_status b) then (Inr (), d)
         else
           let es = batch_events batchId (events d); held = sum_list (map ue_amountAtomic es);
               ids = map ue_eventId es
           in (case (find_grant (mb_grantId b) d, find_session (mb_sessionId b) d) of
                 (Some g, Some s) \<Rightarrow>
                   if mg_reservedAtomic g < held \<or> sessionAtomic s LF_reserved < held
                   then (Inl (PlainError ''Metered reservation counters cannot be released consistently.''), d)
                   else
                     (case bindE (checkedAtomicValue (mg_reservedAtomic g - held)) (\<lambda>reserved.
                           bindE (setSessionAtomic s LF_reserved (sessionAtomic s LF_reserved - held)) (\<lambda>s'.
                           Inr (reserved, s'))) of
                        Inl e \<Rightarrow> (Inl e, d)
                      | Inr (reserved, s') \<Rightarrow>
                         (Inr (), save_batch (closed_batch now failureCode finalStatus b)
                            ((save_session s' (save_grant (g\<lparr>mg_reservedAtomic := reserved\<rparr>) d))
                               \<lparr>events := update_all (\<lambda>e. ue_eventId e \<in> set ids)
                                  (released_event now failureCode finalStatus) (events d),
                                attempts := update_all (\<lambda>a. att_attemptId a \<in> set ids \<and> att_reserveStatus a = RS_reserved)
                                  (released_usage_attempt now failureCode) (attempts d)\<rparr>)))
               | _ \<Rightarrow> (Inl (PlainError ''Metered reservation owner state is missing.''), d)))"

definition releaseMeteredBatchReservation ::
  "string \<Rightarrow> string \<Rightarrow> batch_status \<Rightarrow> int \<Rightarrow> ('a metered_db_scheme, unit) op" where
  "releaseMeteredBatchReservation batchId failureCode finalStatus now =
     transaction (release_batch_body batchId failureCode finalStatus now)"

definition releasable_batch :: "string \<Rightarrow> metered_batch \<Rightarrow> bool" where
  "releasable_batch grantId b \<longleftrightarrow> mb_grantId b = grantId \<and> mb_submittedAt b = None
     \<and> mb_status b \<in> {B_collecting, B_queued, B_retrying}"

fun release_all :: "int \<Rightarrow> string list \<Rightarrow> ('a metered_db_scheme, unit) op" where
  "release_all now [] d = (Inr (), d)"
| "release_all now (b # bs) d =
     chain (releaseMeteredBatchReservation b ''METERED_GRANT_REVOKED'' B_released now) (\<lambda>_. release_all now bs) d"

definition is_actor_grant :: "metered_actor \<Rightarrow> string \<Rightarrow> metered_grant \<Rightarrow> bool" where
  "is_actor_grant actor grantId g \<longleftrightarrow> mg_grantId g = grantId \<and> mg_appId g = ma_appId actor
     \<and> mg_ownerWalletId g = ma_ownerWalletId actor"

definition revoked_grant :: "int \<Rightarrow> metered_grant \<Rightarrow> metered_grant" where
  "revoked_grant now g = g\<lparr>mg_status := GR_revoked, mg_revokedAt := Some now\<rparr>"

definition revokeMeteredGrant ::
  "metered_actor \<Rightarrow> string \<Rightarrow> int \<Rightarrow> ('a metered_db_scheme, metered_grant_dto) op" where
  "revokeMeteredGrant actor grantId now d =
     (case bindE (require (ma_wallet actor) (ApiError 403 ''METERED_GRANT_OWNER_REQUIRED'')) (\<lambda>_.
           ensureMeteredActorApp actor d) of
        Inl e \<Rightarrow> (Inl e, d)
      | Inr _ \<Rightarrow>
         (case find_and_update (\<lambda>g. is_actor_grant actor grantId g \<and> mg_status g = GR_active) (revoked_grant now) (grants d) of
            None \<Rightarrow>
              (case List.find (is_actor_grant actor grantId) (grants d) of
                 None \<Rightarrow> (Inl (ApiError 404 ''METERED_GRANT_NOT_FOUND''), d)
               | Some g \<Rightarrow> (Inr (toMeteredGrantDto g), d))
          | Some (_, gs) \<Rightarrow>
              let releasable = map mb_batchId (filter (releasable_batch grantId) (batches d)) in
              chain (release_all now releasable) (\<lambda>_ d1.
                let d2 = writeAuditLog (ma_ownerWalletId actor) ''metered.grant.revoked'' ''metered_grant'' grantId d1 in
                (case find_grant grantId d2 of
                   None \<Rightarrow> (Inl (PlainError ''Revoked metered grant disappeared.''), d2)
                 | Some g \<Rightarrow> (Inr (toMeteredGrantDto g), d2)))
                (d\<lparr>grants := gs\<rparr>)))"

end
