(* ===== verification/Metered_Accounts.thy ===== *)
theory Metered_Accounts
  imports Metered
begin

section \<open>The accounts of metered payments\<close>

text \<open>
  The invariant of grants, usage events and batches: what a grant holds reserved is the sum of its
  unsettled events, what it spent is the sum of its settled events, an open batch is exactly the sum
  of its events, and the pass holds at least what its events need. Every operation of theory Metered
  keeps it; the worker's operations follow in Metered_Worker.
\<close>

subsection \<open>Sums over events\<close>

definition is_live :: "usage_event \<Rightarrow> bool" where
  "is_live e \<longleftrightarrow> live_status (ue_status e)"

definition in_batch :: "string \<Rightarrow> usage_event \<Rightarrow> bool" where
  "in_batch i e \<longleftrightarrow> ue_batchId e = i \<and> is_live e"

definition live_of :: "string \<Rightarrow> usage_event list \<Rightarrow> int" where
  "live_of grantId es = total (\<lambda>e. is_live e \<and> ue_grantId e = grantId) ue_amountAtomic es"

definition settled_of :: "string \<Rightarrow> usage_event list \<Rightarrow> int" where
  "settled_of grantId es = total (\<lambda>e. ue_status e = U_settled \<and> ue_grantId e = grantId) ue_amountAtomic es"

definition live_on :: "string \<Rightarrow> usage_event list \<Rightarrow> int" where
  "live_on sessionId es = total (\<lambda>e. is_live e \<and> ue_sessionId e = sessionId) ue_amountAtomic es"

definition held_in :: "string \<Rightarrow> usage_event list \<Rightarrow> int" where
  "held_in batchId es = total (in_batch batchId) ue_amountAtomic es"

definition count_in :: "string \<Rightarrow> usage_event list \<Rightarrow> int" where
  "count_in batchId es = total (in_batch batchId) (\<lambda>_. 1) es"

lemma batch_events_sum: "sum_list (map ue_amountAtomic (batch_events i es)) = held_in i es"
  by (induction es) (auto simp: batch_events_def held_in_def in_batch_def is_live_def)

lemma batch_events_count: "int (length (batch_events i es)) = count_in i es"
  by (induction es) (auto simp: batch_events_def count_in_def in_batch_def is_live_def)

subsection \<open>The invariant\<close>

text \<open>What never changes of a grant, and what an event refers to.\<close>

definition grant_terms :: "metered_grant \<Rightarrow> metered_grant" where
  "grant_terms g = g\<lparr>mg_status := GR_active, mg_reservedAtomic := 0, mg_spentAtomic := 0, mg_revokedAt := None\<rparr>"

definition batch_ref :: "metered_batch \<Rightarrow> string \<times> string \<times> string" where
  "batch_ref b = (mb_batchId b, mb_grantId b, mb_sessionId b)"

definition event_ref :: "usage_event \<Rightarrow> string \<times> string \<times> string" where
  "event_ref e = (ue_batchId e, ue_grantId e, ue_sessionId e)"

definition grant_ok :: "usage_event list \<Rightarrow> metered_grant \<Rightarrow> bool" where
  "grant_ok es g \<longleftrightarrow> mg_reservedAtomic g = live_of (mg_grantId g) es \<and> mg_spentAtomic g = settled_of (mg_grantId g) es
     \<and> mg_spentAtomic g + mg_reservedAtomic g \<le> mg_totalLimitAtomic g
     \<and> mg_maxPerEventAtomic g \<le> mg_maxBatchAtomic g \<and> 1 \<le> mg_maxBatchEvents g"

definition within_terms :: "metered_batch \<Rightarrow> metered_grant \<Rightarrow> bool" where
  "within_terms b t \<longleftrightarrow> mg_grantId t = mb_grantId b \<and> mb_sessionId b = mg_sessionId t
     \<and> mb_totalAtomic b \<le> mg_maxBatchAtomic t \<and> mb_eventCount b \<le> mg_maxBatchEvents t"

definition batch_sums :: "usage_event list \<Rightarrow> metered_batch \<Rightarrow> bool" where
  "batch_sums es b \<longleftrightarrow>
     (if terminal_batch (mb_status b) then count_in (mb_batchId b) es = 0
      else mb_totalAtomic b = held_in (mb_batchId b) es \<and> mb_eventCount b = count_in (mb_batchId b) es)"

definition batch_ok :: "metered_grant set \<Rightarrow> usage_event list \<Rightarrow> metered_batch \<Rightarrow> bool" where
  "batch_ok terms es b \<longleftrightarrow> (\<exists>t \<in> terms. within_terms b t) \<and> batch_sums es b
     \<and> (mb_accepting b \<longrightarrow> mb_status b = B_collecting) \<and> (mb_leaseId b \<noteq> None \<longrightarrow> \<not> terminal_batch (mb_status b) \<and> \<not> mb_accepting b)"

definition event_ok :: "(string \<times> string \<times> string) set \<Rightarrow> usage_event \<Rightarrow> bool" where
  "event_ok refs e \<longleftrightarrow> 0 < ue_amountAtomic e \<and> event_ref e \<in> refs"

definition pass_ok :: "usage_event list \<Rightarrow> session \<Rightarrow> bool" where
  "pass_ok es s \<longleftrightarrow> live_on (ses_publicId s) es \<le> sessionAtomic s LF_reserved
     \<and> sessionAtomic s LF_spent + sessionAtomic s LF_reserved \<le> sessionAtomic s LF_limit"

definition metered_ok ::
  "session list \<Rightarrow> metered_grant list \<Rightarrow> usage_event list \<Rightarrow> metered_batch list \<Rightarrow> bool" where
  "metered_ok ss gs es bs \<longleftrightarrow> distinct (map ses_publicId ss) \<and> distinct (map mg_grantId gs)
     \<and> distinct (map ue_eventId es) \<and> distinct (map mb_batchId bs)
     \<and> (\<forall>s \<in> set ss. pass_ok es s) \<and> (\<forall>g \<in> set gs. grant_ok es g)
     \<and> (\<forall>b \<in> set bs. batch_ok (grant_terms ` set gs) es b \<and> 0 < mb_totalAtomic b)
     \<and> (\<forall>e \<in> set es. event_ok (batch_ref ` set bs) e)"

lemma metered_okD:
  assumes "metered_ok ss gs es bs"
  shows "distinct (map ses_publicId ss)" and "distinct (map mg_grantId gs)"
    and "distinct (map ue_eventId es)" and "distinct (map mb_batchId bs)"
    and "s \<in> set ss \<Longrightarrow> pass_ok es s" and "g \<in> set gs \<Longrightarrow> grant_ok es g"
    and "b \<in> set bs \<Longrightarrow> batch_ok (grant_terms ` set gs) es b" and "b \<in> set bs \<Longrightarrow> 0 < mb_totalAtomic b"
    and "e \<in> set es \<Longrightarrow> event_ok (batch_ref ` set bs) e"
  using assms by (auto simp: metered_ok_def)

lemma grant_terms_simps [simp]:
  "mg_grantId (grant_terms g) = mg_grantId g" "mg_sessionId (grant_terms g) = mg_sessionId g"
  "mg_maxBatchAtomic (grant_terms g) = mg_maxBatchAtomic g" "mg_maxBatchEvents (grant_terms g) = mg_maxBatchEvents g"
  by (simp_all add: grant_terms_def)

lemma set_sessionAtomic:
  assumes "setSessionAtomic s LF_reserved v = Inr s'"
  shows "sessionAtomic s' LF_reserved = v" and "sessionAtomic s' LF_spent = sessionAtomic s LF_spent"
    and "sessionAtomic s' LF_limit = sessionAtomic s LF_limit" and "ses_publicId s' = ses_publicId s"
    and "0 \<le> v"
  using assms by (auto simp: sessionAtomic_def safeMeteredAtomicNumber_def split: if_splits option.splits)

lemma set_sessionAtomic_spent:
  assumes "setSessionAtomic s LF_spent v = Inr s'"
  shows "sessionAtomic s' LF_spent = v" and "sessionAtomic s' LF_reserved = sessionAtomic s LF_reserved"
    and "sessionAtomic s' LF_limit = sessionAtomic s LF_limit" and "ses_publicId s' = ses_publicId s"
  using assms by (auto simp: sessionAtomic_def safeMeteredAtomicNumber_def split: if_splits option.splits)

text \<open>Replacing the one document with a key.\<close>

lemma replace_row:
  assumes "distinct (map key xs)" and "x \<in> set xs" and "key x' = key x"
  shows "set (update_first (\<lambda>y. key y = key x) (\<lambda>_. x') xs) = insert x' (set xs - {x})"
    and "map key (update_first (\<lambda>y. key y = key x) (\<lambda>_. x') xs) = map key xs"
  using set_update_find [OF assms(1) find_unique_key [OF assms(1,2)], of "key x" "\<lambda>_. x'"] assms(3)
    map_update_first [of "\<lambda>y. key y = key x" key "\<lambda>_. x'" xs]
  by simp_all

lemma same_key: "distinct (map key xs) \<Longrightarrow> x \<in> set xs \<Longrightarrow> y \<in> set xs \<Longrightarrow> key x = key y \<Longrightarrow> x = y"
  by (metis find_unique_key option.inject)

lemma refs_of_map: "map f xs = map f ys \<Longrightarrow> f ` set xs = f ` set ys"
  by (metis list.set_map)

lemma held_nonneg: "(\<And>e. e \<in> set es \<Longrightarrow> 0 < ue_amountAtomic e) \<Longrightarrow> 0 \<le> held_in i es"
  unfolding held_in_def by (rule total_nonneg) (auto intro: less_imp_le)

subsection \<open>Editing batches, events and grants without moving money\<close>

lemma map_update_first_in:
  "(\<And>x. x \<in> set xs \<Longrightarrow> p x \<Longrightarrow> key (f x) = key x) \<Longrightarrow> map key (update_first p f xs) = map key xs"
  by (induction xs) auto

lemma batch_edit_ok:
  assumes ok: "metered_ok ss gs es bs"
    and f: "\<And>b. b \<in> set bs \<Longrightarrow> p b \<Longrightarrow> \<not> terminal_batch (mb_status b) \<and> batch_ref (f b) = batch_ref b
      \<and> mb_totalAtomic (f b) = mb_totalAtomic b \<and> mb_eventCount (f b) = mb_eventCount b
      \<and> \<not> terminal_batch (mb_status (f b)) \<and> \<not> mb_accepting (f b)"
  shows "metered_ok ss gs es (update_first p f bs)"
proof -
  have refs: "map batch_ref (update_first p f bs) = map batch_ref bs" by (rule map_update_first_in) (use f in blast)
  have ids: "map mb_batchId (update_first p f bs) = map mb_batchId bs"
    by (rule map_update_first_in) (use f in \<open>auto simp: batch_ref_def\<close>)
  have "batch_ok (grant_terms ` set gs) es b \<and> 0 < mb_totalAtomic b" if b: "b \<in> set (update_first p f bs)" for b
  proof (cases "b \<in> set bs")
    case True
    with ok show ?thesis by (simp add: metered_ok_def)
  next
    case False
    with set_update_firstD [OF b] obtain c where c: "c \<in> set bs" "p c" "b = f c" by blast
    have "batch_ok (grant_terms ` set gs) es c" "0 < mb_totalAtomic c" using metered_okD(7,8) [OF ok c(1)] by simp_all
    moreover have "within_terms b = within_terms c" "batch_sums es b = batch_sums es c"
      using f [OF c(1,2)] c(3) by (simp_all add: within_terms_def batch_sums_def batch_ref_def fun_eq_iff)
    ultimately show ?thesis using f [OF c(1,2)] c(3) by (simp add: batch_ok_def)
  qed
  with ok ids refs_of_map [OF refs] show ?thesis by (simp add: metered_ok_def)
qed

lemma event_totals_cong:
  assumes "\<And>e. e \<in> set es \<Longrightarrow> q e \<Longrightarrow> is_live (f e) = is_live e \<and> (ue_status (f e) = U_settled) = (ue_status e = U_settled)
      \<and> event_ref (f e) = event_ref e \<and> ue_amountAtomic (f e) = ue_amountAtomic e"
  shows "live_of i (update_all q f es) = live_of i es" "settled_of i (update_all q f es) = settled_of i es"
    "live_on i (update_all q f es) = live_on i es" "held_in i (update_all q f es) = held_in i es"
    "count_in i (update_all q f es) = count_in i es"
  using assms by (induction es)
    (auto simp: live_of_def settled_of_def live_on_def held_in_def count_in_def in_batch_def event_ref_def update_all_def)

lemma event_edit_ok:
  assumes ok: "metered_ok ss gs es bs"
    and f: "\<And>e. e \<in> set es \<Longrightarrow> q e \<Longrightarrow> is_live (f e) = is_live e \<and> (ue_status (f e) = U_settled) = (ue_status e = U_settled)
      \<and> event_ref (f e) = event_ref e \<and> ue_amountAtomic (f e) = ue_amountAtomic e"
    and id: "\<And>e. ue_eventId (f e) = ue_eventId e"
  shows "metered_ok ss gs (update_all q f es) bs"
proof -
  note totals = event_totals_cong [OF f]
  have "batch_ok terms (update_all q f es) = batch_ok terms es" for terms
    by (simp add: batch_ok_def batch_sums_def totals fun_eq_iff)
  moreover have "pass_ok (update_all q f es) = pass_ok es" "grant_ok (update_all q f es) = grant_ok es"
    by (simp_all add: pass_ok_def grant_ok_def totals fun_eq_iff)
  moreover have "map ue_eventId (update_all q f es) = map ue_eventId es" by (rule map_update_all) (rule id)
  moreover have "event_ok refs e" if "e \<in> set (update_all q f es)" "\<forall>e \<in> set es. event_ok refs e" for refs e
    using that f by (auto simp: set_update_all event_ok_def)
  ultimately show ?thesis
    using ok by (simp add: metered_ok_def)
qed

lemma grant_edit_ok:
  assumes ok: "metered_ok ss gs es bs"
    and f: "\<And>g. grant_terms (f g) = grant_terms g \<and> mg_reservedAtomic (f g) = mg_reservedAtomic g
      \<and> mg_spentAtomic (f g) = mg_spentAtomic g"
  shows "metered_ok ss (update_first p f gs) es bs"
proof -
  have terms: "map grant_terms (update_first p f gs) = map grant_terms gs" by (rule map_update_first) (use f in blast)
  have same: "mg_grantId (f g) = mg_grantId g" "mg_totalLimitAtomic (f g) = mg_totalLimitAtomic g"
    "mg_maxPerEventAtomic (f g) = mg_maxPerEventAtomic g" "mg_maxBatchAtomic (f g) = mg_maxBatchAtomic g"
    "mg_maxBatchEvents (f g) = mg_maxBatchEvents g" for g
    using f [of g] by (auto simp: grant_terms_def dest: arg_cong [where f = mg_grantId] arg_cong [where f = mg_totalLimitAtomic]
        arg_cong [where f = mg_maxPerEventAtomic] arg_cong [where f = mg_maxBatchAtomic] arg_cong [where f = mg_maxBatchEvents])
  have "map mg_grantId (update_first p f gs) = map mg_grantId gs" by (rule map_update_first) (rule same)
  moreover have "grant_ok es g" if g: "g \<in> set (update_first p f gs)" for g
  proof (cases "g \<in> set gs")
    case True
    with ok show ?thesis by (simp add: metered_ok_def)
  next
    case False
    with set_update_firstD [OF g] obtain h where "h \<in> set gs" "g = f h" by blast
    moreover have "grant_ok es h" by (rule metered_okD(6) [OF ok \<open>h \<in> set gs\<close>])
    ultimately show ?thesis using f [of h] same [of h] by (simp add: grant_ok_def)
  qed
  ultimately show ?thesis using ok refs_of_map [OF terms] by (simp add: metered_ok_def)
qed

lemma new_grant_ok:
  assumes ok: "metered_ok ss gs es bs" and fresh: "\<forall>x \<in> set gs. mg_grantId x \<noteq> mg_grantId g"
    and g: "mg_reservedAtomic g = 0" "mg_spentAtomic g = 0" "0 \<le> mg_totalLimitAtomic g"
      "mg_maxPerEventAtomic g \<le> mg_maxBatchAtomic g" "1 \<le> mg_maxBatchEvents g"
  shows "metered_ok ss (gs @ [g]) es bs"
proof -
  have "ue_grantId e \<noteq> mg_grantId g" if e: "e \<in> set es" for e
  proof -
    from metered_okD(9) [OF ok e] obtain b where b: "b \<in> set bs" "mb_grantId b = ue_grantId e"
      by (auto simp: event_ok_def event_ref_def batch_ref_def)
    from metered_okD(7) [OF ok b(1)] obtain t where "t \<in> set gs" "mg_grantId t = ue_grantId e"
      by (auto simp: batch_ok_def within_terms_def b(2))
    with fresh show ?thesis by metis
  qed
  then have none: "total (\<lambda>e. P e \<and> ue_grantId e = mg_grantId g) ue_amountAtomic es = 0" for P
    by (subst total_cong [where q = "\<lambda>_. False" and g = ue_amountAtomic]) (auto simp: total_def)
  have "grant_ok es g" using g by (simp add: grant_ok_def live_of_def settled_of_def none)
  moreover have "batch_ok (grant_terms ` set (gs @ [g])) es b" if "batch_ok (grant_terms ` set gs) es b" for b
    using that by (auto simp: batch_ok_def)
  moreover have "mg_grantId g \<notin> mg_grantId ` set gs" using fresh by auto
  ultimately show ?thesis using ok by (simp add: metered_ok_def)
qed

subsection \<open>Closing a batch\<close>

lemma close_totals:
  assumes f: "\<And>e. ue_status (f e) = st \<and> event_ref (f e) = event_ref e \<and> ue_amountAtomic (f e) = ue_amountAtomic e"
    and st: "\<not> live_status st"
  shows "live_of i (update_all (in_batch k) f es) = live_of i es - total (\<lambda>e. in_batch k e \<and> ue_grantId e = i) ue_amountAtomic es"
    and "live_on j (update_all (in_batch k) f es) = live_on j es - total (\<lambda>e. in_batch k e \<and> ue_sessionId e = j) ue_amountAtomic es"
    and "settled_of i (update_all (in_batch k) f es) = settled_of i es
      + (if st = U_settled then total (\<lambda>e. in_batch k e \<and> ue_grantId e = i) ue_amountAtomic es else 0)"
    and "held_in l (update_all (in_batch k) f es) = (if l = k then 0 else held_in l es)"
    and "count_in l (update_all (in_batch k) f es) = (if l = k then 0 else count_in l es)"
  using f st
  by (induction es) (auto simp: update_all_def live_of_def live_on_def settled_of_def held_in_def count_in_def
      in_batch_def is_live_def event_ref_def live_status_def)

lemma held_by_owner:
  assumes "\<And>e. e \<in> set es \<Longrightarrow> ue_batchId e = k \<Longrightarrow> field e = j"
  shows "total (\<lambda>e. in_batch k e \<and> field e = i) ue_amountAtomic es = (if i = j then held_in k es else 0)"
  using assms by (induction es) (auto simp: held_in_def in_batch_def)

lemma close_ok:
  assumes ok: "metered_ok ss gs es bs"
    and b: "b \<in> set bs" "mb_batchId b = k" and g: "g \<in> set gs" "mg_grantId g = mb_grantId b"
    and s: "s \<in> set ss" "ses_publicId s = mb_sessionId b"
    and fe: "\<And>e. ue_status (fe e) = st \<and> event_ref (fe e) = event_ref e \<and> ue_amountAtomic (fe e) = ue_amountAtomic e
      \<and> ue_eventId (fe e) = ue_eventId e" and st: "\<not> live_status st"
    and paid: "paid = (if st = U_settled then held_in k es else 0)"
    and g': "grant_terms g' = grant_terms g" "mg_totalLimitAtomic g' = mg_totalLimitAtomic g"
      "mg_maxPerEventAtomic g' = mg_maxPerEventAtomic g" "mg_reservedAtomic g' = mg_reservedAtomic g - held_in k es"
      "mg_spentAtomic g' = mg_spentAtomic g + paid"
    and s': "ses_publicId s' = ses_publicId s" "sessionAtomic s' LF_reserved = sessionAtomic s LF_reserved - held_in k es"
      "sessionAtomic s' LF_spent = sessionAtomic s LF_spent + paid" "sessionAtomic s' LF_limit = sessionAtomic s LF_limit"
    and b': "batch_ref b' = batch_ref b" "mb_totalAtomic b' = mb_totalAtomic b" "mb_eventCount b' = mb_eventCount b"
      "terminal_batch (mb_status b')" "\<not> mb_accepting b'" "mb_leaseId b' = None"
  shows "metered_ok (update_first (\<lambda>y. ses_publicId y = ses_publicId s) (\<lambda>_. s') ss)
    (update_first (\<lambda>y. mg_grantId y = mg_grantId g) (\<lambda>_. g') gs) (update_all (in_batch k) fe es)
    (update_first (\<lambda>y. mb_batchId y = k) (\<lambda>_. b') bs)"
proof -
  define ss' gs' es' bs' where "ss' = update_first (\<lambda>y. ses_publicId y = ses_publicId s) (\<lambda>_. s') ss"
    and "gs' = update_first (\<lambda>y. mg_grantId y = mg_grantId g) (\<lambda>_. g') gs"
    and "es' = update_all (in_batch k) fe es" and "bs' = update_first (\<lambda>y. mb_batchId y = k) (\<lambda>_. b') bs"
  note defs = this
  note ok' = metered_okD [OF ok]
  have ids: "mg_grantId g' = mg_grantId g" "mg_maxBatchAtomic g' = mg_maxBatchAtomic g" "mg_maxBatchEvents g' = mg_maxBatchEvents g"
      "mb_batchId b' = k"
    using g'(1) b'(1) b(2) grant_terms_simps [of g'] grant_terms_simps [of g] by (simp_all add: batch_ref_def)
  have ss': "set ss' = insert s' (set ss - {s})" "map ses_publicId ss' = map ses_publicId ss"
    unfolding defs by (rule replace_row [OF ok'(1) s(1) s'(1)])+
  have gs': "set gs' = insert g' (set gs - {g})" "map mg_grantId gs' = map mg_grantId gs"
    unfolding defs by (rule replace_row [OF ok'(2) g(1) ids(1)])+
  have bs': "set bs' = insert b' (set bs - {b})" "map mb_batchId bs' = map mb_batchId bs"
    unfolding defs using replace_row [OF ok'(4) b(1), of b'] ids(4) b(2) by simp_all
  have es': "map ue_eventId es' = map ue_eventId es" unfolding defs by (rule map_update_all) (use fe in blast)
  have own: "ue_grantId e = mb_grantId b \<and> ue_sessionId e = mb_sessionId b" if "e \<in> set es" "ue_batchId e = k" for e
  proof -
    from ok'(9) [OF that(1)] obtain c where c: "c \<in> set bs" "batch_ref c = event_ref e" by (auto simp: event_ok_def)
    with same_key [OF ok'(4) c(1) b(1)] b(2) that(2) show ?thesis by (simp add: batch_ref_def event_ref_def)
  qed
  have fe': "\<And>e. ue_status (fe e) = st \<and> event_ref (fe e) = event_ref e \<and> ue_amountAtomic (fe e) = ue_amountAtomic e"
    using fe by blast
  note close = close_totals [OF fe' st, where k = k and es = es, folded defs(3)]
  have by_grant: "total (\<lambda>e. in_batch k e \<and> ue_grantId e = i) ue_amountAtomic es = (if i = mb_grantId b then held_in k es else 0)" for i
    by (rule held_by_owner) (use own in blast)
  have by_pass: "total (\<lambda>e. in_batch k e \<and> ue_sessionId e = i) ue_amountAtomic es = (if i = mb_sessionId b then held_in k es else 0)" for i
    by (rule held_by_owner) (use own in blast)
  have held: "0 \<le> held_in k es" by (rule held_nonneg) (use ok'(9) in \<open>auto simp: event_ok_def\<close>)
  have "pass_ok es' x" if x: "x \<in> set ss'" for x
  proof (cases "x = s'")
    case True
    with ok'(5) [OF s(1)] s s' close(2) by_pass held paid show ?thesis by (auto simp: pass_ok_def)
  next
    case False
    with x ss' have x: "x \<in> set ss" "x \<noteq> s" by auto
    then have "ses_publicId x \<noteq> mb_sessionId b" using same_key [OF ok'(1) x(1) s(1)] s(2) by auto
    with ok'(5) [OF x(1)] close(2) by_pass show ?thesis by (simp add: pass_ok_def)
  qed
  moreover have "grant_ok es' x" if x: "x \<in> set gs'" for x
  proof (cases "x = g'")
    case True
    with ok'(6) [OF g(1)] g g' ids close(1,3) by_grant held paid show ?thesis by (auto simp: grant_ok_def)
  next
    case False
    with x gs' have x: "x \<in> set gs" "x \<noteq> g" by auto
    then have "mg_grantId x \<noteq> mb_grantId b" using same_key [OF ok'(2) x(1) g(1)] g(2) by auto
    with ok'(6) [OF x(1)] close(1,3) by_grant show ?thesis by (simp add: grant_ok_def)
  qed
  moreover have terms: "grant_terms ` set gs' = grant_terms ` set gs"
    using gs'(1) g(1) g'(1) by (auto simp: image_iff)
  have "batch_ok (grant_terms ` set gs') es' x \<and> 0 < mb_totalAtomic x" if x: "x \<in> set bs'" for x
  proof (cases "x = b'")
    case True
    have "within_terms b' = within_terms b" using b' by (simp add: within_terms_def batch_ref_def fun_eq_iff)
    with True ok'(7,8) [OF b(1)] b' ids(4) close(5) show ?thesis
      by (simp add: batch_ok_def batch_sums_def terms)
  next
    case False
    with x bs' have x: "x \<in> set bs" "x \<noteq> b" by auto
    then have "mb_batchId x \<noteq> k" using same_key [OF ok'(4) x(1) b(1)] b(2) by auto
    with ok'(7,8) [OF x(1)] close(4,5) show ?thesis by (simp add: batch_ok_def batch_sums_def terms)
  qed
  moreover have "batch_ref ` set bs' = batch_ref ` set bs" using bs'(1) b(1) b'(1) by (auto simp: image_iff)
  moreover have "event_ok refs e" if "e \<in> set es'" "\<forall>e \<in> set es. event_ok refs e" for refs e
    using that fe by (auto simp: defs(3) set_update_all event_ok_def)
  ultimately have "metered_ok ss' gs' es' bs'"
    using ok ss'(2) gs'(2) es' bs'(2) by (simp add: metered_ok_def)
  then show ?thesis by (simp add: defs)
qed

subsection \<open>Accepting an event\<close>

definition batches_ok :: "metered_grant set \<Rightarrow> usage_event list \<Rightarrow> metered_batch list \<Rightarrow> bool" where
  "batches_ok terms es bs \<longleftrightarrow> distinct (map mb_batchId bs) \<and> (\<forall>b \<in> set bs. batch_ok terms es b)
     \<and> (\<forall>e \<in> set es. event_ref e \<in> batch_ref ` set bs)"

text \<open>The batch an event may join: room for the amount, and it belongs to the grant.\<close>

definition has_room :: "metered_grant \<Rightarrow> int \<Rightarrow> metered_batch \<Rightarrow> bool" where
  "has_room g amount b \<longleftrightarrow> mb_grantId b = mg_grantId g \<and> mb_sessionId b = mg_sessionId g \<and> \<not> terminal_batch (mb_status b)
     \<and> 0 \<le> mb_totalAtomic b \<and> mb_totalAtomic b + amount \<le> mg_maxBatchAtomic g \<and> mb_eventCount b + 1 \<le> mg_maxBatchEvents g"

lemma queue_batch_ok:
  assumes "batch_ok terms es b" and "mb_accepting b"
  shows "batch_ok terms es (queue_batch now b)" and "batch_ref (queue_batch now b) = batch_ref b"
    and "mb_totalAtomic (queue_batch now b) = mb_totalAtomic b"
proof -
  have "within_terms (queue_batch now b) = within_terms b" by (simp add: within_terms_def queue_batch_def fun_eq_iff)
  then show "batch_ok terms es (queue_batch now b)"
    using assms by (auto simp: batch_ok_def batch_sums_def queue_batch_def terminal_batch_def)
qed (simp_all add: queue_batch_def batch_ref_def)

lemma add_batch_ok:
  assumes ok: "batches_ok terms es bs" and new: "add_batch (new_batch i key imm now g) bs = Inr (b, bs1)"
    and g: "grant_terms g \<in> terms" and amount: "0 < amount" "amount \<le> mg_maxBatchAtomic g" "1 \<le> mg_maxBatchEvents g"
  shows "batches_ok terms es bs1" and "bs1 = bs @ [b]" and "b = new_batch i key imm now g" and "has_room g amount b"
proof -
  from new have b: "b = new_batch i key imm now g" "bs1 = bs @ [b]" "\<forall>x \<in> set bs. mb_batchId x \<noteq> i"
    by (auto simp: add_batch_def insert_row_Some batch_clash_def new_batch_def split: option.splits)
  then show "bs1 = bs @ [b]" "b = new_batch i key imm now g" by simp_all
  have none: "ue_batchId e \<noteq> i" if "e \<in> set es" for e
  proof -
    from ok that obtain x where "x \<in> set bs" "batch_ref x = event_ref e" by (auto simp: batches_ok_def)
    with b(3) show ?thesis by (auto simp: event_ref_def batch_ref_def)
  qed
  then have "held_in i es = 0 \<and> count_in i es = 0"
    by (induction es) (auto simp: held_in_def count_in_def in_batch_def)
  moreover have "within_terms b (grant_terms g)" using amount by (simp add: b(1) within_terms_def new_batch_def)
  ultimately have "batch_ok terms es b"
    using g by (auto simp: batch_ok_def batch_sums_def b(1) new_batch_def terminal_batch_def)
  moreover have "mb_batchId b = i" by (simp add: b(1) new_batch_def)
  ultimately show "batches_ok terms es bs1" using ok b(2,3) by (auto simp: batches_ok_def)
  show "has_room g amount b" using amount by (simp add: has_room_def b(1) new_batch_def terminal_batch_def)
qed

lemma choose_batch_ok:
  assumes ok: "batches_ok terms es bs" and choose: "choose_batch i key imm amount now g bs = Inr (b, bs1)"
    and g: "grant_terms g \<in> terms" "\<And>t. t \<in> terms \<Longrightarrow> mg_grantId t = mg_grantId g \<Longrightarrow> t = grant_terms g"
    and amount: "0 < amount" "amount \<le> mg_maxBatchAtomic g" "1 \<le> mg_maxBatchEvents g"
    and pos: "\<forall>x \<in> set bs. 0 < mb_totalAtomic x"
  shows "batches_ok terms es bs1 \<and> b \<in> set bs1 \<and> has_room g amount b
    \<and> (\<forall>x \<in> set bs1. x \<noteq> b \<longrightarrow> 0 < mb_totalAtomic x) \<and> batch_ref ` set bs \<subseteq> batch_ref ` set bs1"
proof (cases "if imm then None else open_batch key g bs")
  case None
  with choose have new: "add_batch (new_batch i key imm now g) bs = Inr (b, bs1)" by (simp add: choose_batch_def)
  from add_batch_ok [OF ok new g(1) amount] pos show ?thesis by auto
next
  case (Some c)
  then have c: "c \<in> set bs" "mb_accepting c" "mb_grantId c = mg_grantId g"
    by (auto simp: open_batch_def dest!: find_SomeD split: if_splits)
  from ok c(1) have cok: "batch_ok terms es c" by (simp add: batches_ok_def)
  show ?thesis
  proof (cases "batch_full g amount c")
    case True
    define bs0 where "bs0 = update_first (\<lambda>y. mb_batchId y = mb_batchId c) (\<lambda>_. queue_batch now c) bs"
    have ids: "distinct (map mb_batchId bs)" using ok by (simp add: batches_ok_def)
    note row = replace_row [OF ids c(1), of "queue_batch now c", folded bs0_def]
    note q = queue_batch_ok [OF cok c(2), of now]
    have bs0: "set bs0 = insert (queue_batch now c) (set bs - {c})" "map mb_batchId bs0 = map mb_batchId bs"
      using row by (simp_all add: queue_batch_def)
    have refs: "batch_ref ` set bs0 = batch_ref ` set bs" using bs0(1) c(1) q(2) by (auto simp: image_iff)
    have ok0: "batches_ok terms es bs0" using ok ids bs0 q(1) refs by (auto simp: batches_ok_def)
    from choose Some True have new: "add_batch (new_batch i key imm now g) bs0 = Inr (b, bs1)"
      by (simp add: choose_batch_def bs0_def)
    from add_batch_ok [OF ok0 new g(1) amount] pos bs0(1) q(3) refs c(1) show ?thesis by auto
  next
    case False
    with choose Some have b: "b = c" "bs1 = bs" by (auto simp: choose_batch_def)
    from cok obtain t where t: "t \<in> terms" "within_terms c t" by (auto simp: batch_ok_def)
    with g(2) [OF t(1)] c(3) have "within_terms c (grant_terms g)" by (simp add: within_terms_def)
    moreover have "mb_status c = B_collecting" using cok c(2) by (simp add: batch_ok_def)
    moreover have "0 < mb_totalAtomic c" using pos c(1) by blast
    ultimately show ?thesis
      using False ok c pos b by (auto simp: has_room_def batch_full_def within_terms_def terminal_batch_def)
  qed
qed

lemma grow_batch_Inr:
  assumes "grow_batch imm amount now g b = Inr b'"
  shows "batch_ref b' = batch_ref b" and "mb_totalAtomic b' = mb_totalAtomic b + amount"
    and "mb_eventCount b' = mb_eventCount b + 1" and "mb_status b' = mb_status b \<or> mb_status b' = B_queued"
    and "mb_accepting b' \<Longrightarrow> mb_accepting b \<and> mb_status b' = mb_status b"
    and "mb_batchId b' = mb_batchId b" and "mb_leaseId b' = mb_leaseId b"
  using assms by (auto simp: grow_batch_def Let_def batch_ref_def queue_batch_def split: if_splits)

lemma join_batch_ok:
  assumes ok: "batches_ok terms es bs" and join: "join_batch sha i amount now g bs = Inr (k, bs')"
    and g: "grant_terms g \<in> terms" "\<And>t. t \<in> terms \<Longrightarrow> mg_grantId t = mg_grantId g \<Longrightarrow> t = grant_terms g"
    and amount: "0 < amount" "amount \<le> mg_maxBatchAtomic g" "1 \<le> mg_maxBatchEvents g"
    and pos: "\<forall>x \<in> set bs. 0 < mb_totalAtomic x"
    and e: "event_ref e = (k, mg_grantId g, mg_sessionId g)" "is_live e" "ue_amountAtomic e = amount"
  shows "batches_ok terms (es @ [e]) bs' \<and> (\<forall>x \<in> set bs'. 0 < mb_totalAtomic x)
    \<and> batch_ref ` set bs \<subseteq> batch_ref ` set bs'"
proof -
  from join obtain b bs1 b' where
    choose: "choose_batch i (sha (meteredBatchKey g)) (mg_immediateThresholdAtomic g \<le> amount) amount now g bs = Inr (b, bs1)"
    and grow: "grow_batch (mg_immediateThresholdAtomic g \<le> amount) amount now g b = Inr b'"
    and bs': "bs' = update_first (\<lambda>y. mb_batchId y = mb_batchId b') (\<lambda>_. b') bs1" "k = mb_batchId b'"
    by (auto simp: join_batch_def Let_def split: prod.splits)
  note c = choose_batch_ok [OF ok choose g amount pos]
  note grown = grow_batch_Inr [OF grow]
  from c have ok1: "batches_ok terms es bs1" and b: "b \<in> set bs1" "has_room g amount b" by blast+
  have ids: "distinct (map mb_batchId bs1)" using ok1 by (simp add: batches_ok_def)
  have set': "set bs' = insert b' (set bs1 - {b})" "map mb_batchId bs' = map mb_batchId bs1"
    using replace_row [OF ids b(1), of b'] grown(6) bs' by simp_all
  have refs: "batch_ref ` set bs' = batch_ref ` set bs1" using set'(1) b(1) grown(1) by (auto simp: image_iff)
  have e': "in_batch k e" "ue_batchId e = k" using e(1,2) by (simp_all add: in_batch_def event_ref_def)
  have held: "held_in j (es @ [e]) = held_in j es + (if j = k then amount else 0)"
    "count_in j (es @ [e]) = count_in j es + (if j = k then 1 else 0)" for j
    using e' e(3) by (auto simp: held_in_def count_in_def in_batch_def)
  have "batch_ok terms (es @ [e]) x" if x: "x \<in> set bs'" for x
  proof (cases "x = b'")
    case True
    have "batch_ok terms es b" using ok1 b(1) by (simp add: batches_ok_def)
    moreover have "within_terms b' (grant_terms g)"
      using b(2) grown by (auto simp: has_room_def within_terms_def batch_ref_def)
    moreover have "\<not> terminal_batch (mb_status b')" using grown(4) b(2) by (auto simp: has_room_def terminal_batch_def)
    ultimately show ?thesis
      using True b(2) grown(2,3,5,6,7) bs'(2) g(1) held [of k]
      by (auto simp: batch_ok_def batch_sums_def has_room_def)
  next
    case False
    with x set' have x: "x \<in> set bs1" "x \<noteq> b" by auto
    then have "mb_batchId x \<noteq> k" using same_key [OF ids x(1) b(1)] bs'(2) grown(6) by auto
    moreover have "batch_ok terms es x" using ok1 x(1) by (simp add: batches_ok_def)
    ultimately show ?thesis using held by (simp add: batch_ok_def batch_sums_def)
  qed
  moreover have "event_ref e \<in> batch_ref ` set bs'"
    using set'(1) grown(1) b(2) e(1) bs'(2) by (auto simp: batch_ref_def has_room_def image_iff)
  moreover have "0 < mb_totalAtomic x" if x: "x \<in> set bs'" for x
    using x set'(1) c grown(2) b(2) amount(1) by (auto simp: has_room_def)
  ultimately show ?thesis using ok1 ids set'(2) refs c by (auto simp: batches_ok_def)
qed

lemma accept_writes_Inr:
  assumes "accept_writes sha ids actor i amount fingerprint now g s d = Inr (e, d')"
  obtains cs k bs major as s' where "take_rate_slot g now (rate_counters d) = Inr cs"
    and "join_batch sha (mi_batchId ids) amount now g (batches d) = Inr (k, bs)"
    and "e = new_event ids i amount fingerprint k now g"
    and "\<forall>x \<in> set (events d). \<not> event_clash e x" and "ue_externalId e \<noteq> []"
    and "setSessionAtomic s LF_reserved (sessionAtomic s LF_reserved + amount) = Inr s'"
    and "as = attempts d @ [usage_attempt actor e major (ses_currency s) now]"
    and "d' = save_session s' (save_grant (g\<lparr>mg_reservedAtomic := mg_reservedAtomic g + amount\<rparr>)
              (d\<lparr>rate_counters := cs, batches := bs, events := events d @ [e], attempts := as\<rparr>))"
proof -
  from assms obtain cs where cs: "take_rate_slot g now (rate_counters d) = Inr cs" by (auto simp: accept_writes_def)
  from assms cs obtain k bs where j: "join_batch sha (mi_batchId ids) amount now g (batches d) = Inr (k, bs)"
    by (auto simp: accept_writes_def)
  define f where "f = new_event ids i amount fingerprint k now g"
  from assms cs j obtain es where es: "add_event f (events d) = Inr es" by (auto simp: accept_writes_def f_def Let_def)
  from assms cs j es obtain major where m: "fromMinorUnits (Some amount) (ses_currency s) = Inr major"
    by (auto simp: accept_writes_def f_def Let_def)
  define a where "a = usage_attempt actor f major (ses_currency s) now"
  from assms cs j es m obtain as where as: "insert_row (attempt_clash a) a (attempts d) = Some as"
    by (cases "insert_row (attempt_clash a) a (attempts d)") (auto simp: accept_writes_def f_def a_def Let_def)
  from assms cs j es m as obtain s' where s': "setSessionAtomic s LF_reserved (sessionAtomic s LF_reserved + amount) = Inr s'"
    by (auto simp: accept_writes_def f_def a_def Let_def)
  from assms cs j es m as s' have r: "e = f" "d' = save_session s' (save_grant (g\<lparr>mg_reservedAtomic := mg_reservedAtomic g + amount\<rparr>)
        (d\<lparr>rate_counters := cs, batches := bs, events := es, attempts := as\<rparr>))"
    by (auto simp: accept_writes_def f_def a_def Let_def)
  from es have "es = events d @ [f]" "\<forall>x \<in> set (events d). \<not> event_clash f x" "ue_externalId f \<noteq> []"
    by (auto simp: add_event_def insert_row_Some split: if_splits option.splits)
  moreover from as have "as = attempts d @ [a]" by (simp add: insert_row_Some)
  ultimately show thesis using that [OF cs j] r s' by (simp add: f_def a_def)
qed

definition metered_inv :: "'a metered_db_scheme \<Rightarrow> bool" where
  "metered_inv d \<longleftrightarrow> metered_ok (sessions d) (grants d) (events d) (batches d)"

lemma save_simps [simp]:
  "sessions (save_grant g d) = sessions d" "events (save_grant g d) = events d" "batches (save_grant g d) = batches d"
  "rate_counters (save_grant g d) = rate_counters d" "attempts (save_grant g d) = attempts d"
  "grants (save_session s d) = grants d" "events (save_session s d) = events d" "batches (save_session s d) = batches d"
  "rate_counters (save_session s d) = rate_counters d"
  "sessions (save_batch b d) = sessions d" "grants (save_batch b d) = grants d" "events (save_batch b d) = events d"
  "rate_counters (save_batch b d) = rate_counters d" "attempts (save_batch b d) = attempts d"
  "grants (writeAuditLog w x y z d) = grants d" "events (writeAuditLog w x y z d) = events d"
  "batches (writeAuditLog w x y z d) = batches d" "rate_counters (writeAuditLog w x y z d) = rate_counters d"
  by (simp_all add: save_grant_def save_session_def save_batch_def writeAuditLog_def)

lemma accept_ok:
  assumes ok: "metered_ok ss gs es bs" and g: "g \<in> set gs" and s: "s \<in> set ss" "ses_publicId s = mg_sessionId g"
    and admits: "0 < amount" "amount \<le> mg_maxPerEventAtomic g" "amount \<le> meteredGrantRemaining g"
      "sessionAtomic s LF_spent + (sessionAtomic s LF_reserved + amount) \<le> sessionAtomic s LF_limit"
    and join: "join_batch sha i amount now g bs = Inr (k, bs')"
    and e: "event_ref e = (k, mg_grantId g, mg_sessionId g)" "ue_status e = U_reserved" "ue_amountAtomic e = amount"
      "\<forall>x \<in> set es. ue_eventId x \<noteq> ue_eventId e"
    and s': "setSessionAtomic s LF_reserved (sessionAtomic s LF_reserved + amount) = Inr s'"
  shows "metered_ok (update_first (\<lambda>y. ses_publicId y = ses_publicId s) (\<lambda>_. s') ss)
    (update_first (\<lambda>y. mg_grantId y = mg_grantId g) (\<lambda>_. g\<lparr>mg_reservedAtomic := mg_reservedAtomic g + amount\<rparr>) gs)
    (es @ [e]) bs'"
proof -
  define g' where "g' = g\<lparr>mg_reservedAtomic := mg_reservedAtomic g + amount\<rparr>"
  define ss' gs' where "ss' = update_first (\<lambda>y. ses_publicId y = ses_publicId s) (\<lambda>_. s') ss"
    and "gs' = update_first (\<lambda>y. mg_grantId y = mg_grantId g) (\<lambda>_. g') gs"
  note ok' = metered_okD [OF ok]
  note sa = set_sessionAtomic [OF s']
  have live: "is_live e" using e(2) by (simp add: is_live_def live_status_def)
  have ref: "ue_grantId e = mg_grantId g" "ue_sessionId e = mg_sessionId g" using e(1) by (simp_all add: event_ref_def)
  have sums: "live_of j (es @ [e]) = live_of j es + (if j = mg_grantId g then amount else 0)"
    "settled_of j (es @ [e]) = settled_of j es"
    "live_on j (es @ [e]) = live_on j es + (if j = mg_sessionId g then amount else 0)" for j
    using live e(2,3) ref by (auto simp: live_of_def settled_of_def live_on_def)
  have ss': "set ss' = insert s' (set ss - {s})" "map ses_publicId ss' = map ses_publicId ss"
    unfolding ss'_def by (rule replace_row [OF ok'(1) s(1) sa(4)])+
  have "mg_grantId g' = mg_grantId g" by (simp add: g'_def)
  note gr = replace_row [OF ok'(2) g this, folded gs'_def]
  have terms: "grant_terms ` set gs' = grant_terms ` set gs"
    using gr(1) g by (auto simp: image_iff g'_def grant_terms_def)
  have "grant_terms g \<in> grant_terms ` set gs" using g by blast
  moreover have "t = grant_terms g" if "t \<in> grant_terms ` set gs" "mg_grantId t = mg_grantId g" for t
  proof -
    from that obtain x where x: "x \<in> set gs" "t = grant_terms x" by blast
    with that(2) have "x = g" using same_key [OF ok'(2) x(1) g] by simp
    with x show ?thesis by simp
  qed
  moreover have "amount \<le> mg_maxBatchAtomic g" "1 \<le> mg_maxBatchEvents g"
    using ok'(6) [OF g] admits(2) by (simp_all add: grant_ok_def)
  moreover have "batches_ok (grant_terms ` set gs) es bs" using ok by (auto simp: metered_ok_def batches_ok_def event_ok_def)
  ultimately have joined: "batches_ok (grant_terms ` set gs) (es @ [e]) bs'" "\<forall>x \<in> set bs'. 0 < mb_totalAtomic x"
      "batch_ref ` set bs \<subseteq> batch_ref ` set bs'"
    using join_batch_ok [OF _ join _ _ admits(1) _ _ _ e(1) live e(3)] ok'(8) by blast+
  have "pass_ok (es @ [e]) x" if x: "x \<in> set ss'" for x
  proof (cases "x = s'")
    case True
    with ok'(5) [OF s(1)] s sa admits(4) sums show ?thesis by (simp add: pass_ok_def)
  next
    case False
    with x ss' have x: "x \<in> set ss" "x \<noteq> s" by auto
    then have "ses_publicId x \<noteq> mg_sessionId g" using same_key [OF ok'(1) x(1) s(1)] s(2) by auto
    with ok'(5) [OF x(1)] sums show ?thesis by (simp add: pass_ok_def)
  qed
  moreover have "grant_ok (es @ [e]) x" if x: "x \<in> set gs'" for x
  proof (cases "x = g'")
    case True
    have "mg_reservedAtomic g = live_of (mg_grantId g) es" using ok'(6) [OF g] by (simp add: grant_ok_def)
    with True ok'(6) [OF g] admits(3) sums show ?thesis
      by (simp add: grant_ok_def g'_def meteredGrantRemaining_def)
  next
    case False
    with x gr(1) have x: "x \<in> set gs" "x \<noteq> g" by auto
    then have "mg_grantId x \<noteq> mg_grantId g" using same_key [OF ok'(2) x(1) g] by auto
    with ok'(6) [OF x(1)] sums show ?thesis by (simp add: grant_ok_def)
  qed
  moreover have "distinct (map ue_eventId (es @ [e]))" using ok'(3) e(4) by auto
  moreover have "event_ok (batch_ref ` set bs') x" if "x \<in> set (es @ [e])" for x
    using that ok'(9) [of x] joined(1,3) admits(1) e(3) by (auto simp: event_ok_def batches_ok_def)
  ultimately have "metered_ok ss' gs' (es @ [e]) bs'"
    using ok joined ss'(2) gr(2) terms by (simp add: metered_ok_def batches_ok_def)
  then show ?thesis by (simp add: ss'_def gs'_def g'_def)
qed

lemma outcome_Inr:
  "(case x of Inl e \<Rightarrow> (Inl e, d) | Inr y \<Rightarrow> (case y of (v, d1) \<Rightarrow> (Inr v, d1))) = (Inr w, d') \<Longrightarrow> x = Inr (w, d')"
  by (cases x) (auto split: prod.splits)

lemma accept_body_Inr:
  assumes "accept_body sha ids actor i amount fingerprint now d = (Inr e, d')"
  obtains (replayed) "find_event (ma_appId actor) (trim (ui_externalId i)) d = Some e" and "d' = d"
    | (accepted) g s where "g \<in> set (grants d)" and "is_actor_grant actor (ui_grantId i) g" and "mg_status g = GR_active"
      and "now < mg_expiresAt g" and "grant_admits amount g = Inr ()" and "session_admits actor amount now g d = Inr s"
      and "find_event (ma_appId actor) (trim (ui_externalId i)) d = None"
      and "accept_writes sha ids actor i amount fingerprint now g s d = Inr (e, d')"
proof (cases "find_event (ma_appId actor) (trim (ui_externalId i)) d")
  case (Some x)
  from assms [unfolded accept_body_def Some option.case] have "x = e" "d' = d" by simp_all
  with Some show thesis by (intro replayed) simp_all
next
  case None
  let ?p = "\<lambda>g. mg_grantId g = ui_grantId i \<and> mg_appId g = ma_appId actor \<and> mg_ownerWalletId g = ma_ownerWalletId actor"
  have "List.find ?p (grants d) \<noteq> None"
  proof
    assume none: "List.find ?p (grants d) = None"
    from assms [unfolded accept_body_def None none option.case] show False by simp
  qed
  then obtain g where g: "List.find ?p (grants d) = Some g" by (cases "List.find ?p (grants d)") simp_all
  note body = assms [unfolded accept_body_def None g option.case]
  have act: "mg_status g = GR_active"
    by (rule ccontr) (use body in \<open>simp only: not_False_eq_True if_True prod.inject sum.distinct simp_thms\<close>)
  have fresh: "now < mg_expiresAt g"
  proof (rule ccontr)
    assume "\<not> now < mg_expiresAt g"
    then have "(mg_expiresAt g \<le> now) = True" by simp
    from body [unfolded act this] show False by simp
  qed
  from act fresh have nz: "(mg_status g \<noteq> GR_active) = False" "(mg_expiresAt g \<le> now) = False" by simp_all
  have "bindE (grant_admits amount g) (\<lambda>_. bindE (session_admits actor amount now g d) (\<lambda>s.
        accept_writes sha ids actor i amount fingerprint now g s d)) = Inr (e, d')"
    by (rule outcome_Inr) (use body in \<open>simp only: nz if_False\<close>)
  then obtain s where s: "grant_admits amount g = Inr ()" "session_admits actor amount now g d = Inr s"
      "accept_writes sha ids actor i amount fingerprint now g s d = Inr (e, d')" by auto
  from find_SomeD [OF g] have "g \<in> set (grants d)" "is_actor_grant actor (ui_grantId i) g"
    by (simp_all add: is_actor_grant_def)
  with act fresh s None accepted show thesis by blast
qed

lemma session_admits_Inr:
  assumes "session_admits actor amount now g d = Inr s"
  shows "s \<in> set (sessions d)" and "ses_publicId s = mg_sessionId g" and "ses_ownerWalletId s = ma_ownerWalletId actor"
    and "assertOwnerBoundSession s actor now = Inr ()"
    and "sessionAtomic s LF_spent + (sessionAtomic s LF_reserved + amount) \<le> sessionAtomic s LF_limit"
  using assms by (auto simp: session_admits_def dest!: find_SomeD split: option.splits)

lemma grant_admits_Inr: "grant_admits amount g = Inr () \<longleftrightarrow> amount \<le> mg_maxPerEventAtomic g \<and> amount \<le> meteredGrantRemaining g"
  by (auto simp: grant_admits_def)

lemma accept_body_inv:
  assumes inv: "metered_inv d" and r: "accept_body sha ids actor i amount fingerprint now d = (Inr e, d')" and pos: "0 < amount"
  shows "metered_inv d'"
  using r
proof (cases rule: accept_body_Inr)
  case replayed
  with inv show ?thesis by simp
next
  case (accepted g s)
  from accepted(8) show ?thesis
  proof (rule accept_writes_Inr)
    fix cs k bs major as s'
    assume w: "join_batch sha (mi_batchId ids) amount now g (batches d) = Inr (k, bs)"
      "e = new_event ids i amount fingerprint k now g" "\<forall>x \<in> set (events d). \<not> event_clash e x"
      "setSessionAtomic s LF_reserved (sessionAtomic s LF_reserved + amount) = Inr s'"
      "d' = save_session s' (save_grant (g\<lparr>mg_reservedAtomic := mg_reservedAtomic g + amount\<rparr>)
              (d\<lparr>rate_counters := cs, batches := bs, events := events d @ [e], attempts := as\<rparr>))"
    have e: "event_ref e = (k, mg_grantId g, mg_sessionId g)" "ue_status e = U_reserved" "ue_amountAtomic e = amount"
      "\<forall>x \<in> set (events d). ue_eventId x \<noteq> ue_eventId e"
      using w(2,3) by (auto simp: new_event_def event_ref_def event_clash_def)
    note sa = session_admits_Inr [OF accepted(6)]
    from accepted(5) have "amount \<le> mg_maxPerEventAtomic g" "amount \<le> meteredGrantRemaining g"
      by (simp_all add: grant_admits_Inr)
    from accept_ok [OF inv [unfolded metered_inv_def] accepted(1) sa(1,2) pos this sa(5) w(1) e w(4)]
    show ?thesis using set_sessionAtomic(4) [OF w(4)]
      by (simp add: w(5) metered_inv_def) (simp add: save_session_def save_grant_def)
  qed
qed

subsection \<open>Releasing a batch\<close>

lemma in_batch_ids:
  assumes "distinct (map ue_eventId es)" and "e \<in> set es"
  shows "ue_eventId e \<in> set (map ue_eventId (batch_events k es)) \<longleftrightarrow> in_batch k e"
proof
  assume "ue_eventId e \<in> set (map ue_eventId (batch_events k es))"
  then obtain x where x: "x \<in> set es" "in_batch k x" "ue_eventId x = ue_eventId e"
    by (auto simp: batch_events_def in_batch_def is_live_def)
  with same_key [OF assms(1) x(1) assms(2)] show "in_batch k e" by simp
next
  assume "in_batch k e"
  with assms(2) show "ue_eventId e \<in> set (map ue_eventId (batch_events k es))"
    by (auto simp: batch_events_def in_batch_def is_live_def)
qed

lemma update_batch_events:
  assumes "distinct (map ue_eventId es)"
  shows "update_all (\<lambda>e. ue_eventId e \<in> set (map ue_eventId (batch_events k es))) f es = update_all (in_batch k) f es"
  unfolding update_all_def by (rule map_cong [OF refl]) (use in_batch_ids [OF assms] in simp)

lemma release_batch_body_Inr:
  assumes "release_batch_body k failureCode finalStatus now d = (Inr u, d')"
  obtains (skipped) "d' = d" and "\<And>b. find_batch k d = Some b \<Longrightarrow> terminal_batch (mb_status b)"
    | (released) b g s s' where "find_batch k d = Some b" and "\<not> terminal_batch (mb_status b)"
      and "find_grant (mb_grantId b) d = Some g" and "find_session (mb_sessionId b) d = Some s"
      and "held_in k (events d) \<le> mg_reservedAtomic g"
      and "setSessionAtomic s LF_reserved (sessionAtomic s LF_reserved - held_in k (events d)) = Inr s'"
      and "d' = save_batch (closed_batch now failureCode finalStatus b)
            ((save_session s' (save_grant (g\<lparr>mg_reservedAtomic := mg_reservedAtomic g - held_in k (events d)\<rparr>) d))
               \<lparr>events := update_all (\<lambda>e. ue_eventId e \<in> set (map ue_eventId (batch_events k (events d))))
                  (released_event now failureCode finalStatus) (events d),
                attempts := update_all (\<lambda>a. att_attemptId a \<in> set (map ue_eventId (batch_events k (events d)))
                    \<and> att_reserveStatus a = RS_reserved)
                  (released_usage_attempt now failureCode) (attempts d)\<rparr>)"
proof (cases "find_batch k d")
  case None
  with assms skipped show thesis by (simp add: release_batch_body_def)
next
  case (Some b)
  show thesis
  proof (cases "terminal_batch (mb_status b)")
    case True
    with assms Some skipped show thesis by (simp add: release_batch_body_def)
  next
    case False
    note body = assms [unfolded release_batch_body_def Some option.case if_not_P [OF False] Let_def batch_events_sum]
    obtain g where g: "find_grant (mb_grantId b) d = Some g"
      using body by (cases "find_grant (mb_grantId b) d") simp_all
    obtain s where s: "find_session (mb_sessionId b) d = Some s"
      using body g by (cases "find_session (mb_sessionId b) d") simp_all
    have enough: "held_in k (events d) \<le> mg_reservedAtomic g"
      using body by (simp add: g s split: if_splits)
    obtain s' where s': "setSessionAtomic s LF_reserved (sessionAtomic s LF_reserved - held_in k (events d)) = Inr s'"
      using body by (cases "setSessionAtomic s LF_reserved (sessionAtomic s LF_reserved - held_in k (events d))")
        (auto simp: g s bindE_def split: if_splits sum.splits)
    have "\<exists>r. checkedAtomicValue (mg_reservedAtomic g - held_in k (events d)) = Inr r"
      using body by (cases "checkedAtomicValue (mg_reservedAtomic g - held_in k (events d))")
        (auto simp: g s bindE_def simp del: checkedAtomicValue_Inr split: if_splits)
    then have checked: "checkedAtomicValue (mg_reservedAtomic g - held_in k (events d)) = Inr (mg_reservedAtomic g - held_in k (events d))"
      by auto
    from body have "d' = save_batch (closed_batch now failureCode finalStatus b)
            ((save_session s' (save_grant (g\<lparr>mg_reservedAtomic := mg_reservedAtomic g - held_in k (events d)\<rparr>) d))
               \<lparr>events := update_all (\<lambda>e. ue_eventId e \<in> set (map ue_eventId (batch_events k (events d))))
                  (released_event now failureCode finalStatus) (events d),
                attempts := update_all (\<lambda>a. att_attemptId a \<in> set (map ue_eventId (batch_events k (events d)))
                    \<and> att_reserveStatus a = RS_reserved)
                  (released_usage_attempt now failureCode) (attempts d)\<rparr>)"
      by (simp add: g s s' checked split: if_splits del: setSessionAtomic.simps checkedAtomicValue_Inr set_map)
    from released [OF Some False g s enough s' this] show thesis .
  qed
qed

lemma find_batchD: "find_batch k d = Some b \<Longrightarrow> b \<in> set (batches d) \<and> mb_batchId b = k"
  by (auto simp: find_batch_def dest: find_SomeD)

lemma find_grantD: "find_grant k d = Some g \<Longrightarrow> g \<in> set (grants d) \<and> mg_grantId g = k"
  by (auto simp: find_grant_def dest: find_SomeD)

lemma find_sessionD: "find_session k d = Some s \<Longrightarrow> s \<in> set (sessions d) \<and> ses_publicId s = k"
  by (auto simp: find_session_def dest: find_SomeD)

lemma release_batch_body_inv:
  assumes inv: "metered_inv d" and r: "release_batch_body k failureCode finalStatus now d = (Inr u, d')"
    and final: "finalStatus \<in> {B_released, B_failed}"
  shows "metered_inv d'"
  using r
proof (cases rule: release_batch_body_Inr)
  case skipped
  with inv show ?thesis by simp
next
  case (released b g s s')
  note ok = inv [unfolded metered_inv_def]
  from find_batchD [OF released(1)] find_grantD [OF released(3)] find_sessionD [OF released(4)]
  have b: "b \<in> set (batches d)" "mb_batchId b = k" and g: "g \<in> set (grants d)" "mg_grantId g = mb_grantId b"
    and s: "s \<in> set (sessions d)" "ses_publicId s = mb_sessionId b" by auto
  define st where "st = (if finalStatus = B_released then U_released else U_failed)"
  have "metered_ok
      (update_first (\<lambda>y. ses_publicId y = ses_publicId s) (\<lambda>_. s') (sessions d))
      (update_first (\<lambda>y. mg_grantId y = mg_grantId g)
         (\<lambda>_. g\<lparr>mg_reservedAtomic := mg_reservedAtomic g - held_in k (events d)\<rparr>) (grants d))
      (update_all (in_batch k) (released_event now failureCode finalStatus) (events d))
      (update_first (\<lambda>y. mb_batchId y = k) (\<lambda>_. closed_batch now failureCode finalStatus b) (batches d))"
    by (rule close_ok [OF ok b g s, where st = st and paid = 0])
      (use set_sessionAtomic [OF released(6)] final in \<open>auto simp: st_def released_event_def event_ref_def live_status_def
          grant_terms_def closed_batch_def batch_ref_def terminal_batch_def\<close>)
  with update_batch_events [OF metered_okD(3) [OF ok]] set_sessionAtomic(4) [OF released(6)] b(2)
  show ?thesis
    by (simp add: released(7) metered_inv_def) (simp add: save_batch_def save_session_def save_grant_def closed_batch_def)
qed

lemma release_inv:
  assumes "metered_inv d" and "releaseMeteredBatchReservation k failureCode finalStatus now d = (r, d')"
    and "finalStatus \<in> {B_released, B_failed}"
  shows "metered_inv d'"
  using assms(2) unfolding releaseMeteredBatchReservation_def
  by (cases rule: transaction_cases) (use assms release_batch_body_inv in blast)+

lemma release_all_inv:
  "metered_inv d \<Longrightarrow> release_all now ks d = (r, d') \<Longrightarrow> metered_inv d'"
proof (induction ks arbitrary: d)
  case (Cons k ks)
  obtain r1 d1 where r1: "releaseMeteredBatchReservation k ''METERED_GRANT_REVOKED'' B_released now d = (r1, d1)"
    by fastforce
  have "metered_inv d1" by (rule release_inv [OF Cons.prems(1) r1]) simp
  with Cons r1 show ?case by (cases r1) (auto simp: chain_def)
qed simp

subsection \<open>The service calls\<close>

lemma audit_inv [simp]: "metered_inv (writeAuditLog w x y z d) = metered_inv d"
  by (simp add: metered_inv_def)

lemma exact_amount_pos: "exactMeteredAmount v True = Inr n \<Longrightarrow> 0 < n"
  by (auto simp: exactMeteredAmount_def split: sum.splits if_splits)

text \<open>One acceptance leaves the database alone, or is one committed transaction and an audit entry.\<close>

lemma accept_once_cases:
  assumes "acceptUsageEventOnce sha ids actor i now d = (r, d')"
  obtains (unchanged) "d' = d" and "find_event (ma_appId actor) (trim (ui_externalId i)) d = None \<Longrightarrow> \<exists>e. r = Inl e"
    | (committed) amount e where "0 < amount" and "exactMeteredAmount (ui_amountAtomic i) True = Inr amount"
      and "amount \<le> MAX_SAFE_INTEGER" and "find_event (ma_appId actor) (trim (ui_externalId i)) d = None"
      and "\<exists>d1. accept_body sha ids actor i amount (usageRequestFingerprint sha actor i amount) now d = (Inr e, d1)
        \<and> (d' = d1 \<or> d' = writeAuditLog (ma_ownerWalletId actor) ''metered.usage.accepted'' ''usage_event'' (ue_eventId e) d1)"
      and "r = replayUsageEvent e (usageRequestFingerprint sha actor i amount)"
proof (cases "bindE (exactMeteredAmount (ui_amountAtomic i) True) safeMeteredAtomicNumber")
  case (Inl e)
  with assms have "d' = d" "r = Inl e" by (simp_all add: acceptUsageEventOnce_def)
  with unchanged show thesis by blast
next
  case (Inr amount)
  then have amount: "exactMeteredAmount (ui_amountAtomic i) True = Inr amount" "amount \<le> MAX_SAFE_INTEGER"
    by (auto simp: safeMeteredAtomicNumber_def split: if_splits)
  define f where "f = usageRequestFingerprint sha actor i amount"
  note run = assms [unfolded acceptUsageEventOnce_def Inr sum.case Let_def, folded f_def]
  show thesis
  proof (cases "find_event (ma_appId actor) (trim (ui_externalId i)) d")
    case (Some x)
    from run [unfolded Some option.case] have "d' = d" by simp
    with unchanged Some show thesis by simp
  next
    case None
    note run' = run [unfolded None option.case]
    obtain r1 d1 where t: "transaction (accept_body sha ids actor i amount f now) d = (r1, d1)" by fastforce
    from t show thesis
    proof (cases rule: transaction_cases)
      case (aborted e)
      from run' [unfolded t prod.case aborted(1) sum.case] aborted(2) have "d' = d" "r = Inl e" by simp_all
      with unchanged show thesis by blast
    next
      case (committed e)
      from run' [unfolded t prod.case committed(1) sum.case]
      have "r = replayUsageEvent e f" "d' = d1 \<or> d' = writeAuditLog (ma_ownerWalletId actor) ''metered.usage.accepted'' ''usage_event'' (ue_eventId e) d1"
        by (auto simp: replayUsageEvent_def toUsageEventDto_def split: if_splits)
      with that(2) [OF exact_amount_pos [OF amount(1)] amount None] committed(2) show thesis by (auto simp: f_def)
    qed
  qed
qed

lemma accept_once_inv:
  assumes "metered_inv d" and "acceptUsageEventOnce sha ids actor i now d = (r, d')"
  shows "metered_inv d'"
  using assms(2)
proof (cases rule: accept_once_cases)
  case (committed amount e)
  then obtain d1 where "accept_body sha ids actor i amount (usageRequestFingerprint sha actor i amount) now d = (Inr e, d1)"
    "d' = d1 \<or> d' = writeAuditLog (ma_ownerWalletId actor) ''metered.usage.accepted'' ''usage_event'' (ue_eventId e) d1" by blast
  with accept_body_inv [OF assms(1) this(1) committed(1)] show ?thesis by auto
qed (use assms in simp)

text \<open>A submission is a chain of acceptances; \<open>P\<close> is any property that each of them keeps.\<close>

lemma submit_induct:
  assumes step: "\<And>ids now d r d'. P d \<Longrightarrow> acceptUsageEventOnce sha ids actor i now d = (r, d') \<Longrightarrow> P d'"
    and "P d" and "submitUsageEvent sha tries actor i d = (r, d')"
  shows "P d'"
proof -
  have loop: "P d \<Longrightarrow> submit_loop sha ts actor i err d = (r, d') \<Longrightarrow> P d'" for ts err d r d'
  proof (induction ts arbitrary: d err)
    case (Cons t ts)
    obtain ids now where t: "t = (ids, now)" by fastforce
    obtain r1 d1 where a: "acceptUsageEventOnce sha ids actor i now d = (r1, d1)" by fastforce
    have P1: "P d1" by (rule step [OF Cons.prems(1) a])
    show ?case
    proof (cases "r1 = Inl DuplicateKey \<and> find_event (ma_appId actor) (trim (ui_externalId i)) d1 = None")
      case True
      with Cons.IH [OF P1] Cons.prems(2) a t show ?thesis by simp
    next
      case False
      with Cons.prems(2) a t P1 show ?thesis by (auto split: sum.splits error.splits option.splits)
    qed
  qed simp
  show ?thesis
    using assms(2,3) by (auto simp: submitUsageEvent_def intro: loop split: sum.splits)
qed

lemma revoke_cases:
  assumes "revokeMeteredGrant actor grantId now d = (r, d')"
  obtains (unchanged) "d' = d"
    | (revoked) gs d1 r1 where "gs = update_first (\<lambda>g. is_actor_grant actor grantId g \<and> mg_status g = GR_active) (revoked_grant now) (grants d)"
      and "release_all now (map mb_batchId (filter (releasable_batch grantId) (batches d))) (d\<lparr>grants := gs\<rparr>) = (r1, d1)"
      and "d' = d1 \<or> d' = writeAuditLog (ma_ownerWalletId actor) ''metered.grant.revoked'' ''metered_grant'' grantId d1"
proof (cases "bindE (require (ma_wallet actor) (ApiError 403 ''METERED_GRANT_OWNER_REQUIRED'')) (\<lambda>_. ensureMeteredActorApp actor d)")
  case (Inl e)
  with assms unchanged show thesis by (simp add: revokeMeteredGrant_def)
next
  case (Inr u)
  note run = assms [unfolded revokeMeteredGrant_def Inr sum.case]
  show thesis
  proof (cases "find_and_update (\<lambda>g. is_actor_grant actor grantId g \<and> mg_status g = GR_active) (revoked_grant now) (grants d)")
    case None
    from run [unfolded None option.case] unchanged show thesis by (auto split: option.splits)
  next
    case (Some x)
    obtain g gs where x: "x = (g, gs)" by fastforce
    obtain r1 d1 where rel: "release_all now (map mb_batchId (filter (releasable_batch grantId) (batches d))) (d\<lparr>grants := gs\<rparr>) = (r1, d1)"
      by fastforce
    from Some x have gs: "gs = update_first (\<lambda>g. is_actor_grant actor grantId g \<and> mg_status g = GR_active) (revoked_grant now) (grants d)"
      by (auto simp: find_and_update_Some)
    from run [unfolded Some option.case x prod.case Let_def chain_def rel]
    have "d' = d1 \<or> d' = writeAuditLog (ma_ownerWalletId actor) ''metered.grant.revoked'' ''metered_grant'' grantId d1"
      by (auto split: sum.splits option.splits)
    with revoked [OF gs rel] show thesis by blast
  qed
qed

lemma revoke_inv:
  assumes inv: "metered_inv d" and "revokeMeteredGrant actor grantId now d = (r, d')"
  shows "metered_inv d'"
  using assms(2)
proof (cases rule: revoke_cases)
  case (revoked gs d1 r1)
  have "metered_inv (d\<lparr>grants := gs\<rparr>)"
    using grant_edit_ok [OF inv [unfolded metered_inv_def], of "revoked_grant now"] revoked(1)
    by (simp add: metered_inv_def revoked_grant_def grant_terms_def)
  with release_all_inv [OF _ revoked(2)] revoked(3) show ?thesis by auto
qed (use inv in simp)

lemma create_grant_cases:
  assumes "createMeteredGrant grantId actor i now d = (r, d')"
  obtains (unchanged) "d' = d"
    | (created) g where "d' = writeAuditLog (ma_ownerWalletId actor) ''metered.grant.created'' ''metered_grant'' grantId
          (d\<lparr>grants := grants d @ [g]\<rparr>)"
      and "\<forall>x \<in> set (grants d). mg_grantId x \<noteq> mg_grantId g" and "grant_schema_ok g"
      and "mg_reservedAtomic g = 0" and "mg_spentAtomic g = 0" and "0 < mg_totalLimitAtomic g"
      and "mg_maxPerEventAtomic g \<le> mg_maxBatchAtomic g" and "mg_grantId g = grantId"
proof -
  define checks where "checks = bindE (require (ma_wallet actor) (ApiError 403 ''METERED_GRANT_OWNER_REQUIRED'')) (\<lambda>_.
           bindE (ensureMeteredActorApp actor d) (\<lambda>_.
           bindE (grant_amounts i) (\<lambda>amounts.
           bindE (validateGrantExecutor (gi_rail i) (gi_executor i) (gi_connectionId i)) (\<lambda>_.
           bindE (grant_expiry i now) (\<lambda>expiresAt.
           bindE (asAssetId (gi_assetId i)) (\<lambda>assetId.
           bindE (grant_session_checks actor i now expiresAt assetId (fst (snd amounts)) d) (\<lambda>_.
           bindE (validateExecutorConnection actor i (toLowerCase (trim (gi_network i)))
                    (snd (snd (snd amounts))) (fst (snd amounts)) d) (\<lambda>_.
           Inr (new_grant actor i grantId now expiresAt assetId amounts)))))))))"
  note run = assms [unfolded createMeteredGrant_def, folded checks_def]
  show thesis
  proof (cases checks)
    case (Inl e)
    with run unchanged show thesis by simp
  next
    case (Inr g)
    then obtain perEvent total' threshold maxBatch expiresAt assetId where
      amounts: "grant_amounts i = Inr (perEvent, total', threshold, maxBatch)"
      and g: "g = new_grant actor i grantId now expiresAt assetId (perEvent, total', threshold, maxBatch)"
      by (auto simp: checks_def)
    from amounts have "0 < total'" "perEvent \<le> maxBatch"
      by (auto simp: grant_amounts_def assertMeteredGrantLimits_def split: sum.splits if_splits)
    then have terms: "mg_reservedAtomic g = 0" "mg_spentAtomic g = 0" "0 < mg_totalLimitAtomic g"
        "mg_maxPerEventAtomic g \<le> mg_maxBatchAtomic g" "mg_grantId g = grantId"
      by (simp_all add: g new_grant_def)
    show thesis
    proof (cases "grant_schema_ok g")
      case False
      with run Inr unchanged show thesis by simp
    next
      case True
      show thesis
      proof (cases "insert_row (\<lambda>x. mg_grantId x = mg_grantId g) g (grants d)")
        case None
        with run Inr True unchanged show thesis by simp
      next
        case (Some gs)
        have new: "gs = grants d @ [g]" "\<forall>x \<in> set (grants d). mg_grantId x \<noteq> mg_grantId g"
          using Some by (simp_all add: insert_row_Some)
        from run Inr True Some terms(5) have "d' = writeAuditLog (ma_ownerWalletId actor) ''metered.grant.created''
            ''metered_grant'' grantId (d\<lparr>grants := gs\<rparr>)" by simp
        with created [of g] new terms True show thesis by simp
      qed
    qed
  qed
qed

lemma create_grant_inv:
  assumes inv: "metered_inv d" and "createMeteredGrant grantId actor i now d = (r, d')"
  shows "metered_inv d'"
  using assms(2)
proof (cases rule: create_grant_cases)
  case (created g)
  have "metered_ok (sessions d) (grants d @ [g]) (events d) (batches d)"
    by (rule new_grant_ok [OF inv [unfolded metered_inv_def]])
      (use created in \<open>simp_all add: grant_schema_ok_def\<close>)
  with created(1) show ?thesis by (simp add: metered_inv_def)
qed (use inv in simp)

end
