(* ===== verification/Metered_Worker.thy ===== *)
theory Metered_Worker
  imports Metered_Accounts
begin

section \<open>Settling metered batches (services/meteredPaymentWorker.service.ts)\<close>

text \<open>
  The worker claims one due batch at a time under a lease, asks the provider about batches that were
  already submitted, resolves a payment request and executes it for the others, and settles, retries
  or releases the batch. The executor (\<open>MeteredBatchExecutor\<close>, injected by the caller of the code)
  and the destination resolver are parameters: an execution returns whether the executor called
  \<open>markSubmitted\<close>, and its result or the exception it threw.
\<close>

definition BATCH_LEASE_MS :: int where
  "BATCH_LEASE_MS = 60000"

datatype execution_status = ER_succeeded | ER_pending | ER_failed

record execution_result =
  er_status :: execution_status
  er_providerPaymentId :: "string option"
  er_paymentHash :: "string option"
  er_feeAtomic :: "string option"
  er_proofKind :: "string option"
  er_proofReference :: "string option"
  er_failureCode :: "string option"

record resolved_request =
  rr_paymentRequest :: string
  rr_paymentRequestHash :: string
  rr_paymentHash :: "string option"

record batch_executor =
  ex_execute :: "metered_batch \<Rightarrow> resolved_request \<Rightarrow> string option option \<times> (error + execution_result)"
  ex_lookup :: "metered_batch \<Rightarrow> error + execution_result option"
  ex_resolve :: "metered_batch \<Rightarrow> payment_destination \<Rightarrow> int \<Rightarrow> error + resolved_request"

definition or_else :: "'a option \<Rightarrow> 'a option \<Rightarrow> 'a option" where
  "or_else x y = (case x of Some v \<Rightarrow> Some v | None \<Rightarrow> y)"

subsection \<open>Finalizing\<close>

definition event_before :: "usage_event \<Rightarrow> usage_event \<Rightarrow> bool" where
  "event_before a b \<longleftrightarrow> ue_acceptedAt a < ue_acceptedAt b
     \<or> (ue_acceptedAt a = ue_acceptedAt b \<and> str_le (ue_eventId a) (ue_eventId b))"

definition settled_event :: "int \<Rightarrow> execution_result \<Rightarrow> metered_batch \<Rightarrow> usage_event \<Rightarrow> usage_event" where
  "settled_event now result b e =
     e\<lparr>ue_status := U_settled, ue_settledAt := Some now, ue_proofKind := er_proofKind result,
       ue_proofReference := er_proofReference result, ue_paymentRequestHash := mb_paymentRequestHash b,
       ue_failureCode := None\<rparr>"

definition settled_usage_attempt :: "int \<Rightarrow> execution_result \<Rightarrow> metered_batch \<Rightarrow> charge_attempt \<Rightarrow> charge_attempt" where
  "settled_usage_attempt now result b a =
     a\<lparr>att_status := A_succeeded, att_reserveStatus := RS_debited, att_providerStatus := P_succeeded,
       att_provider := Some (executor_text (mb_executor b)), att_network := Some (mb_network b),
       att_providerCorrelationId := er_providerPaymentId result, att_proofId := er_proofReference result,
       att_proofType := er_proofKind result, att_paymentRequestHash := mb_paymentRequestHash b,
       att_finalizedAt := Some now, att_providerCompletedAt := Some now, att_failureCode := None\<rparr>"

definition settled_grant :: "int \<Rightarrow> metered_grant \<Rightarrow> error + metered_grant" where
  "settled_grant paid g =
     bindE (checkedAtomicValue (mg_reservedAtomic g - paid)) (\<lambda>reserved.
     bindE (checkedAtomicValue (mg_spentAtomic g + paid)) (\<lambda>spent.
     Inr (g\<lparr>mg_reservedAtomic := reserved, mg_spentAtomic := spent,
            mg_status := (if mg_spentAtomic g + paid \<ge> mg_totalLimitAtomic g \<and> mg_status g = GR_active
                          then GR_depleted else mg_status g)\<rparr>)))"

definition settled_session :: "int \<Rightarrow> session \<Rightarrow> error + session" where
  "settled_session paid s =
     bindE (setSessionAtomic s LF_reserved (sessionAtomic s LF_reserved - paid)) (\<lambda>s1.
     bindE (setSessionAtomic s1 LF_spent (sessionAtomic s LF_spent + paid)) (\<lambda>s2.
     Inr (if sessionAtomic s LF_spent + paid \<ge> sessionAtomic s LF_limit then s2\<lparr>ses_status := S_expired\<rparr> else s2)))"

definition usage_receipt_input ::
  "int \<Rightarrow> execution_result \<Rightarrow> metered_batch \<Rightarrow> usage_event \<Rightarrow> string option \<Rightarrow> receipt_input" where
  "usage_receipt_input now result b e fee =
     \<lparr>cr_ownerWalletId = ue_ownerWalletId e, cr_recipientId = Some (ue_recipientId e),
      cr_sourceType = RC_usage_event, cr_sourceId = ue_eventId e, cr_settlementId = mb_batchId b,
      cr_rail = ue_rail e, cr_network = ue_network e, cr_assetId = ue_assetId e,
      cr_amountAtomic = atomic_text (ue_amountAtomic e), cr_feeAtomic = fee, cr_status = RT_succeeded,
      cr_paymentHash = or_else (er_paymentHash result) (mb_paymentHash b), cr_proofKind = er_proofKind result,
      cr_proofReference = er_proofReference result, cr_settledAt = now\<rparr>"

definition fee_shares :: "execution_result \<Rightarrow> usage_event list \<Rightarrow> error + string option list" where
  "fee_shares result es =
     (case er_feeAtomic result of
        None \<Rightarrow> Inr (map (\<lambda>_. None) es)
      | Some fee \<Rightarrow> bindE (allocateAtomicFee fee (map (\<lambda>e. atomic_text (ue_amountAtomic e)) es)) (\<lambda>shares. Inr (map Some shares)))"

fun create_receipts ::
  "(string \<Rightarrow> string) \<Rightarrow> int \<Rightarrow> execution_result \<Rightarrow> metered_batch \<Rightarrow> (usage_event \<times> string option) list
    \<Rightarrow> ('a core_db_scheme, string list) op" where
  "create_receipts sha now result b [] d = (Inr [], d)"
| "create_receipts sha now result b ((e, fee) # rest) d =
     chain (createPaymentReceipt sha now (usage_receipt_input now result b e fee)) (\<lambda>i.
     chain (create_receipts sha now result b rest) (\<lambda>is d'. (Inr (i # is), d'))) d"

definition succeeded_batch :: "int \<Rightarrow> execution_result \<Rightarrow> metered_batch \<Rightarrow> metered_batch" where
  "succeeded_batch now result b =
     b\<lparr>mb_status := B_succeeded, mb_accepting := False, mb_completedAt := Some now,
       mb_providerPaymentId := or_else (er_providerPaymentId result) (mb_providerPaymentId b),
       mb_paymentHash := or_else (er_paymentHash result) (mb_paymentHash b),
       mb_proofKind := er_proofKind result, mb_proofReference := er_proofReference result,
       mb_failureCode := None, mb_leaseId := None, mb_leaseExpiresAt := Some now\<rparr>"

definition settle_events ::
  "int \<Rightarrow> execution_result \<Rightarrow> metered_batch \<Rightarrow> string list \<Rightarrow> 'a metered_db_scheme \<Rightarrow> 'a metered_db_scheme" where
  "settle_events now result b ids d =
     d\<lparr>events := update_all (\<lambda>e. ue_eventId e \<in> set ids) (settled_event now result b) (events d),
       attempts := update_all (\<lambda>a. att_attemptId a \<in> set ids \<and> att_reserveStatus a = RS_reserved)
         (settled_usage_attempt now result b) (attempts d)\<rparr>"

definition settle_writes ::
  "(string \<Rightarrow> string) \<Rightarrow> int \<Rightarrow> execution_result \<Rightarrow> metered_batch \<Rightarrow> metered_grant \<Rightarrow> session \<Rightarrow> usage_event list
    \<Rightarrow> ('a metered_db_scheme, string list) op" where
  "settle_writes sha now result b g s es d =
     (let paid = sum_list (map ue_amountAtomic es); ids = map ue_eventId es in
      case bindE (settled_grant paid g) (\<lambda>g'. bindE (settled_session paid s) (\<lambda>s'.
           bindE (safeMeteredAtomicNumber paid) (\<lambda>n. Inr (g', s', n)))) of
        Inl e \<Rightarrow> (Inl e, d)
      | Inr (g', s', n) \<Rightarrow>
         chain (spendFundingAllocation now (mb_sessionId b) n) (\<lambda>_ d1.
           let d2 = settle_events now result b ids (save_session s' (save_grant g' d1)) in
           (case fee_shares result es of
              Inl e \<Rightarrow> (Inl e, d2)
            | Inr fees \<Rightarrow>
               chain (create_receipts sha now result b (zip es fees)) (\<lambda>receiptIds d3.
                 (Inr receiptIds, save_batch (succeeded_batch now result b) d3)) d2)) d)"

definition finalize_batch_body ::
  "(string \<Rightarrow> string) \<Rightarrow> string \<Rightarrow> execution_result \<Rightarrow> int
    \<Rightarrow> ('a metered_db_scheme, (metered_batch \<times> string list) option) op" where
  "finalize_batch_body sha batchId result now d =
     (case find_batch batchId d of
        None \<Rightarrow> (Inr None, d)
      | Some b \<Rightarrow>
         if mb_status b = B_succeeded then (Inr None, d)
         else
           let es = sort_by event_before (batch_events batchId (events d));
               paid = sum_list (map ue_amountAtomic es)
           in if paid \<noteq> mb_totalAtomic b \<or> int (length es) \<noteq> mb_eventCount b
              then (Inl (PlainError ''Metered batch event total does not match its immutable accounting total.''), d)
              else (case (find_grant (mb_grantId b) d, find_session (mb_sessionId b) d) of
                 (Some g, Some s) \<Rightarrow>
                   if mg_reservedAtomic g < paid \<or> sessionAtomic s LF_reserved < paid
                   then (Inl (PlainError ''Metered settlement reservation is missing.''), d)
                   else chain (settle_writes sha now result b g s es) (\<lambda>is d'. (Inr (Some (b, is)), d')) d
               | _ \<Rightarrow> (Inl (PlainError ''Metered settlement owner state is missing.''), d)))"

definition finalizeMeteredBatch ::
  "(string \<Rightarrow> string) \<Rightarrow> string \<Rightarrow> execution_result \<Rightarrow> int \<Rightarrow> ('a metered_db_scheme, unit) op" where
  "finalizeMeteredBatch sha batchId result now d =
     (case transaction (finalize_batch_body sha batchId result now) d of
        (Inl e, d') \<Rightarrow> (Inl e, d')
      | (Inr None, d') \<Rightarrow> (Inr (), d')
      | (Inr (Some (b, receiptIds)), d') \<Rightarrow>
         (Inr (), writeAuditLog (mb_ownerWalletId b) ''metered.batch.succeeded'' ''metered_batch'' batchId
            (fold (\<lambda>i x. snd (queueReceiptNotifications sha now i x)) receiptIds d')))"

subsection \<open>Leases\<close>

definition batch_claimable :: "int \<Rightarrow> metered_batch \<Rightarrow> bool" where
  "batch_claimable now b \<longleftrightarrow> mb_status b \<in> {B_collecting, B_queued, B_processing, B_uncertain, B_retrying}
     \<and> mb_runAfter b \<le> now \<and> (case mb_leaseExpiresAt b of Some t \<Rightarrow> t \<le> now | None \<Rightarrow> True)"

definition batch_before :: "metered_batch \<Rightarrow> metered_batch \<Rightarrow> bool" where
  "batch_before a b \<longleftrightarrow> mb_runAfter a < mb_runAfter b
     \<or> (mb_runAfter a = mb_runAfter b \<and> mb_createdAt a \<le> mb_createdAt b)"

definition claimed_batch :: "int \<Rightarrow> string \<Rightarrow> metered_batch \<Rightarrow> metered_batch" where
  "claimed_batch now leaseId b =
     b\<lparr>mb_status := B_processing, mb_accepting := False, mb_leaseId := Some leaseId,
       mb_leaseExpiresAt := Some (now + BATCH_LEASE_MS), mb_attempts := mb_attempts b + 1\<rparr>"

text \<open>\<open>uuid\<close> is the fresh \<open>randomUUID()\<close> of the lease.\<close>

definition claimMeteredBatch ::
  "int \<Rightarrow> string \<Rightarrow> string \<Rightarrow> 'a metered_db_scheme \<Rightarrow> metered_batch option \<times> 'a metered_db_scheme" where
  "claimMeteredBatch now workerId uuid d =
     (case sort_by batch_before (filter (batch_claimable now) (batches d)) of
        [] \<Rightarrow> (None, d)
      | b # _ \<Rightarrow>
         let b' = claimed_batch now (workerId @ '':'' @ uuid) b in
         (Some b', save_batch b' d))"

definition holds_lease :: "metered_batch \<Rightarrow> metered_batch \<Rightarrow> bool" where
  "holds_lease b x \<longleftrightarrow> mb_batchId x = mb_batchId b \<and> mb_leaseId x = mb_leaseId b"

definition update_batch ::
  "(metered_batch \<Rightarrow> bool) \<Rightarrow> (metered_batch \<Rightarrow> metered_batch) \<Rightarrow> 'a metered_db_scheme \<Rightarrow> 'a metered_db_scheme" where
  "update_batch p f d = d\<lparr>batches := update_first p f (batches d)\<rparr>"

definition retry_delay :: "int \<Rightarrow> int" where
  "retry_delay n = min 60000 (1000 * 2 ^ nat (min (max (n - 1) 0) 6))"

definition retryMeteredBatch ::
  "metered_batch \<Rightarrow> string \<Rightarrow> bool \<Rightarrow> int \<Rightarrow> 'a metered_db_scheme \<Rightarrow> 'a metered_db_scheme" where
  "retryMeteredBatch b failureCode submitted now =
     update_batch (holds_lease b)
       (\<lambda>x. x\<lparr>mb_status := (if submitted then B_uncertain else B_retrying),
              mb_runAfter := now + retry_delay (mb_attempts b), mb_leaseExpiresAt := Some now,
              mb_failureCode := Some failureCode, mb_leaseId := None\<rparr>)"

text \<open>The payment request is recorded under the lease; its hash is unique among the batches.\<close>

definition storePaymentRequest ::
  "metered_batch \<Rightarrow> resolved_request \<Rightarrow> 'a metered_db_scheme \<Rightarrow> (error + bool) \<times> 'a metered_db_scheme" where
  "storePaymentRequest b resolved d =
     (case List.find (holds_lease b) (batches d) of
        None \<Rightarrow> (Inr False, d)
      | Some _ \<Rightarrow>
         if list_ex (\<lambda>x. mb_batchId x \<noteq> mb_batchId b \<and> mb_paymentRequestHash x = Some (rr_paymentRequestHash resolved)) (batches d)
         then (Inl DuplicateKey, d)
         else (Inr True, update_batch (holds_lease b)
                (\<lambda>x. x\<lparr>mb_paymentRequestHash := Some (rr_paymentRequestHash resolved),
                       mb_paymentHash := rr_paymentHash resolved\<rparr>) d))"

definition markEventsSettling :: "string \<Rightarrow> int \<Rightarrow> 'a metered_db_scheme \<Rightarrow> 'a metered_db_scheme" where
  "markEventsSettling batchId now d =
     d\<lparr>events := update_all (\<lambda>e. ue_batchId e = batchId \<and> ue_status e = U_reserved)
         (\<lambda>e. e\<lparr>ue_status := U_settling, ue_settlingAt := Some now\<rparr>) (events d)\<rparr>"

definition markBatchSubmitted :: "metered_batch \<Rightarrow> string option \<Rightarrow> int \<Rightarrow> 'a metered_db_scheme \<Rightarrow> 'a metered_db_scheme" where
  "markBatchSubmitted b providerPaymentId now =
     update_batch (holds_lease b)
       (\<lambda>x. x\<lparr>mb_submittedAt := Some now,
              mb_providerPaymentId := or_else (nonempty providerPaymentId) (mb_providerPaymentId x)\<rparr>)"

subsection \<open>One batch\<close>

definition publicFailure :: "error \<Rightarrow> string \<times> bool" where
  "publicFailure e = (case e of
     ApiError statusCode c \<Rightarrow>
       (c, statusCode \<ge> 500 \<or> contains ''TIMEOUT'' c \<or> contains ''UNCERTAIN'' c \<or> contains ''UNAVAILABLE'' c)
   | DuplicateKey \<Rightarrow> (''METERED_PAYMENT_REQUEST_REUSED'', True)
   | _ \<Rightarrow> (''METERED_SETTLEMENT_FAILED'', True))"

datatype batch_outcome = O_succeeded | O_pending | O_retried | O_released | O_skipped

definition result_code :: "execution_result \<Rightarrow> string" where
  "result_code result = opt_or (er_failureCode result) ''METERED_SETTLEMENT_FAILED''"

definition conclude ::
  "(string \<Rightarrow> string) \<Rightarrow> metered_batch \<Rightarrow> execution_result \<Rightarrow> bool \<Rightarrow> int \<Rightarrow> ('a metered_db_scheme, batch_outcome) op" where
  "conclude sha b result submitted clock d =
     (case er_status result of
        ER_succeeded \<Rightarrow> chain (finalizeMeteredBatch sha (mb_batchId b) result clock) (\<lambda>_ d'. (Inr O_succeeded, d')) d
      | ER_failed \<Rightarrow>
          chain (releaseMeteredBatchReservation (mb_batchId b) (result_code result) B_failed clock)
            (\<lambda>_ d'. (Inr O_released, d')) d
      | ER_pending \<Rightarrow> (Inr O_pending, retryMeteredBatch b ''METERED_SETTLEMENT_UNCERTAIN'' submitted clock d))"

definition batch_destination :: "metered_batch \<Rightarrow> 'a metered_db_scheme \<Rightarrow> error + payment_destination" where
  "batch_destination b d =
     (case List.find (\<lambda>x. dst_destinationId x = mb_destinationId b \<and> dst_recipientId x = mb_recipientId b
              \<and> dst_ownerWalletId x = mb_ownerWalletId b \<and> dst_status x = DS_active \<and> dst_reusable x) (destinations d) of
        None \<Rightarrow> Inl (ApiError 409 ''METERED_DESTINATION_INACTIVE'')
      | Some x \<Rightarrow>
         if dst_rail x \<noteq> mb_rail b \<or> dst_network x \<noteq> mb_network b \<or> dst_assetId x \<noteq> mb_assetId b
         then Inl (ApiError 409 ''METERED_DESTINATION_MISMATCH'') else Inr x)"

definition execute_batch ::
  "(string \<Rightarrow> string) \<Rightarrow> batch_executor \<Rightarrow> metered_batch \<Rightarrow> int \<Rightarrow> int \<Rightarrow> ('a metered_db_scheme, batch_outcome) op" where
  "execute_batch sha executor b now clock d =
     (case bindE (batch_destination b d) (\<lambda>x. ex_resolve executor b x now) of
        Inl e \<Rightarrow> (Inl e, d)
      | Inr resolved \<Rightarrow>
     (case storePaymentRequest b resolved d of
        (Inl e, d1) \<Rightarrow> (Inl e, d1)
      | (Inr False, d1) \<Rightarrow> (Inr O_skipped, d1)
      | (Inr True, d1) \<Rightarrow>
         let d2 = markEventsSettling (mb_batchId b) now d1 in
         (case ex_execute executor b resolved of
            (mark, outcome) \<Rightarrow>
              let d3 = (case mark of None \<Rightarrow> d2 | Some pid \<Rightarrow> markBatchSubmitted b pid clock d2) in
              (case outcome of
                 Inl e \<Rightarrow> (Inl e, d3)
               | Inr result \<Rightarrow> conclude sha b result (mark \<noteq> None) clock d3))))"

definition settle_batch ::
  "(string \<Rightarrow> string) \<Rightarrow> batch_executor \<Rightarrow> metered_batch \<Rightarrow> int \<Rightarrow> int \<Rightarrow> ('a metered_db_scheme, batch_outcome) op" where
  "settle_batch sha executor b now clock d =
     (case find_grant (mb_grantId b) d of
        None \<Rightarrow> (Inl (ApiError 409 ''METERED_GRANT_NOT_FOUND''), d)
      | Some g \<Rightarrow>
         if mg_status g \<in> {GR_revoked, GR_expired} \<and> mb_submittedAt b = None
         then chain (releaseMeteredBatchReservation (mb_batchId b) ''METERED_GRANT_INACTIVE'' B_released clock)
                (\<lambda>_ d'. (Inr O_released, d')) d
         else if mb_submittedAt b \<noteq> None then
           (case ex_lookup executor b of
              Inl e \<Rightarrow> (Inl e, d)
            | Inr (Some recovered) \<Rightarrow> conclude sha b recovered True clock d
            | Inr None \<Rightarrow> execute_batch sha executor b now clock d)
         else execute_batch sha executor b now clock d)"

text \<open>The \<open>catch\<close> branch.\<close>

definition recover_batch :: "metered_batch \<Rightarrow> error \<Rightarrow> int \<Rightarrow> ('a metered_db_scheme, batch_outcome) op" where
  "recover_batch b e clock d =
     (case publicFailure e of
        (failureCode, retryable) \<Rightarrow>
          let submitted = (case find_batch (mb_batchId b) d of None \<Rightarrow> False | Some x \<Rightarrow> mb_submittedAt x \<noteq> None) in
          if retryable \<and> mb_attempts b < mb_maxAttempts b
          then (Inr O_retried, retryMeteredBatch b failureCode submitted clock d)
          else chain (releaseMeteredBatchReservation (mb_batchId b) failureCode B_failed clock)
                 (\<lambda>_ d'. (Inr O_released, d')) d)"

definition process_batch ::
  "(string \<Rightarrow> string) \<Rightarrow> batch_executor \<Rightarrow> metered_batch \<Rightarrow> int \<Rightarrow> int \<Rightarrow> ('a metered_db_scheme, batch_outcome) op" where
  "process_batch sha executor b now clock d =
     (case settle_batch sha executor b now clock d of
        (Inr outcome, d') \<Rightarrow> (Inr outcome, d')
      | (Inl e, d') \<Rightarrow> recover_batch b e clock d')"

record worker_output =
  wo_claimed :: nat
  wo_succeeded :: nat
  wo_pending :: nat
  wo_retried :: nat
  wo_released :: nat
  wo_skipped :: nat

fun count_outcome :: "batch_outcome \<Rightarrow> worker_output \<Rightarrow> worker_output" where
  "count_outcome O_succeeded w = w\<lparr>wo_succeeded := wo_succeeded w + 1\<rparr>"
| "count_outcome O_pending w = w\<lparr>wo_pending := wo_pending w + 1\<rparr>"
| "count_outcome O_retried w = w\<lparr>wo_retried := wo_retried w + 1\<rparr>"
| "count_outcome O_released w = w\<lparr>wo_released := wo_released w + 1\<rparr>"
| "count_outcome O_skipped w = w\<lparr>wo_skipped := wo_skipped w + 1\<rparr>"

text \<open>
  \<open>ticks\<close> gives each round its fresh lease identifier and its clock. An exception of the \<open>catch\<close>
  branch itself leaves the loop.
\<close>

fun worker_loop ::
  "(string \<Rightarrow> string) \<Rightarrow> batch_executor \<Rightarrow> int \<Rightarrow> string \<Rightarrow> (string \<times> int) list \<Rightarrow> worker_output
    \<Rightarrow> ('a metered_db_scheme, worker_output) op" where
  "worker_loop sha executor now workerId [] output d = (Inr output, d)"
| "worker_loop sha executor now workerId ((uuid, clock) # ticks) output d =
     (case claimMeteredBatch now workerId uuid d of
        (None, d') \<Rightarrow> (Inr output, d')
      | (Some b, d') \<Rightarrow>
         chain (process_batch sha executor b now clock)
           (\<lambda>outcome. worker_loop sha executor now workerId ticks
              (count_outcome outcome (output\<lparr>wo_claimed := wo_claimed output + 1\<rparr>))) d')"

definition runMeteredPaymentWorker ::
  "(string \<Rightarrow> string) \<Rightarrow> batch_executor \<Rightarrow> int option \<Rightarrow> string option \<Rightarrow> int \<Rightarrow> (nat \<Rightarrow> string \<times> int)
    \<Rightarrow> ('a metered_db_scheme, worker_output) op" where
  "runMeteredPaymentWorker sha executor limit workerId now tick =
     worker_loop sha executor now (trimmed_or workerId ''metered-payment-worker'')
       (map tick [0..<nat (clamp 1 100 (opt_or limit 10))])
       \<lparr>wo_claimed = 0, wo_succeeded = 0, wo_pending = 0, wo_retried = 0, wo_released = 0, wo_skipped = 0\<rparr>"

subsection \<open>Frames\<close>

text \<open>The operations of the core database leave the metered collections alone.\<close>

definition same_metered :: "'a metered_db_scheme \<Rightarrow> 'a metered_db_scheme \<Rightarrow> bool" where
  "same_metered d d' \<longleftrightarrow> grants d' = grants d \<and> events d' = events d \<and> batches d' = batches d
     \<and> rate_counters d' = rate_counters d \<and> sessions d' = sessions d \<and> attempts d' = attempts d"

lemma same_metered_refl [simp]: "same_metered d d"
  by (simp add: same_metered_def)

lemma same_metered_trans: "same_metered d e \<Longrightarrow> same_metered e f \<Longrightarrow> same_metered d f"
  by (simp add: same_metered_def)

lemma same_metered_receipts [simp]: "same_metered d (d\<lparr>receipts := rs\<rparr>)"
  by (simp add: same_metered_def)

lemma same_metered_deliveries [simp]: "same_metered d (d\<lparr>deliveries := ds\<rparr>)"
  by (simp add: same_metered_def)

lemma same_metered_audit [simp]: "same_metered d (writeAuditLog w x y z d)"
  by (simp add: same_metered_def)

lemma same_metered_inv: "same_metered d d' \<Longrightarrow> metered_inv d' = metered_inv d"
  by (simp add: same_metered_def metered_inv_def)

lemma spend_same_metered: "spendFundingAllocation now j n d = (Inr w, d') \<Longrightarrow> same_metered d d'"
  by (erule spend_Inr) (simp_all add: same_metered_def save_allocation_def save_source_def)

lemma receipt_same_metered: "createPaymentReceipt sha now input d = (r, d') \<Longrightarrow> same_metered d d'"
  using createPaymentReceipt_frame [of sha now input d r d'] by auto

lemma create_receipts_same_metered: "create_receipts sha now result b xs d = (r, d') \<Longrightarrow> same_metered d d'"
proof (induction xs arbitrary: d r d')
  case (Cons x xs)
  obtain e fee where x: "x = (e, fee)" by fastforce
  obtain r1 d1 where 1: "createPaymentReceipt sha now (usage_receipt_input now result b e fee) d = (r1, d1)" by fastforce
  obtain r2 d2 where 2: "create_receipts sha now result b xs d1 = (r2, d2)" by fastforce
  from receipt_same_metered [OF 1] Cons.IH [OF 2] Cons.prems x 1 2 show ?case
    by (auto simp: chain_def split: sum.splits intro: same_metered_trans)
qed simp

lemma queue_same_metered: "same_metered d (snd (queueReceiptNotifications sha now i d))"
proof -
  obtain n d' where "queueReceiptNotifications sha now i d = (n, d')" by fastforce
  with queueReceiptNotifications_frame [OF this] show ?thesis by auto
qed

lemma queue_all_same_metered: "same_metered d (fold (\<lambda>i x. snd (queueReceiptNotifications sha now i x)) is d)"
  by (induction "is" arbitrary: d) (auto intro: same_metered_trans queue_same_metered)

subsection \<open>Settling keeps the accounts\<close>

lemma sorted_batch_events:
  "sum_list (map ue_amountAtomic (sort_by event_before (batch_events k es))) = held_in k es"
  "set (map ue_eventId (sort_by event_before (batch_events k es))) = set (map ue_eventId (batch_events k es))"
  "int (length (sort_by event_before (batch_events k es))) = count_in k es"
proof -
  have insert: "sum_list (map ue_amountAtomic (insert_by le x xs)) = ue_amountAtomic x + sum_list (map ue_amountAtomic xs)" for le x xs
    by (induction xs) auto
  have sort: "sum_list (map ue_amountAtomic (sort_by le xs)) = sum_list (map ue_amountAtomic xs)" for le xs
    by (induction xs) (simp_all add: insert)
  show "sum_list (map ue_amountAtomic (sort_by event_before (batch_events k es))) = held_in k es"
    by (simp only: sort batch_events_sum)
qed (simp_all add: batch_events_count)

lemma settled_grant_Inr:
  "settled_grant paid g = Inr g' \<Longrightarrow> grant_terms g' = grant_terms g \<and> mg_reservedAtomic g' = mg_reservedAtomic g - paid
    \<and> mg_spentAtomic g' = mg_spentAtomic g + paid \<and> mg_grantId g' = mg_grantId g
    \<and> mg_totalLimitAtomic g' = mg_totalLimitAtomic g \<and> mg_maxPerEventAtomic g' = mg_maxPerEventAtomic g"
  by (auto simp: settled_grant_def grant_terms_def)

lemma settled_session_Inr:
  assumes "settled_session paid s = Inr s'"
  shows "ses_publicId s' = ses_publicId s" and "sessionAtomic s' LF_reserved = sessionAtomic s LF_reserved - paid"
    and "sessionAtomic s' LF_spent = sessionAtomic s LF_spent + paid" and "sessionAtomic s' LF_limit = sessionAtomic s LF_limit"
proof -
  from assms obtain s1 s2 where 1: "setSessionAtomic s LF_reserved (sessionAtomic s LF_reserved - paid) = Inr s1"
    and 2: "setSessionAtomic s1 LF_spent (sessionAtomic s LF_spent + paid) = Inr s2"
    and s': "s' = (if sessionAtomic s LF_spent + paid \<ge> sessionAtomic s LF_limit then s2\<lparr>ses_status := S_expired\<rparr> else s2)"
    by (auto simp: settled_session_def simp del: setSessionAtomic.simps)
  have st: "sessionAtomic (s2\<lparr>ses_status := x\<rparr>) f = sessionAtomic s2 f" for x f
    by (cases f) (simp_all add: sessionAtomic_def split: option.splits)
  note a = set_sessionAtomic [OF 1] and b = set_sessionAtomic_spent [OF 2]
  show "ses_publicId s' = ses_publicId s" using a b by (simp add: s')
  show "sessionAtomic s' LF_reserved = sessionAtomic s LF_reserved - paid" using a b by (simp add: s' st)
  show "sessionAtomic s' LF_spent = sessionAtomic s LF_spent + paid" using a b by (simp add: s' st)
  show "sessionAtomic s' LF_limit = sessionAtomic s LF_limit" using a b by (simp add: s' st)
qed

lemma settle_writes_Inr:
  assumes "settle_writes sha now result b g s es d = (Inr is, d')"
  obtains g' s' n w d1 d2 d3 fees where "settled_grant (sum_list (map ue_amountAtomic es)) g = Inr g'"
    and "settled_session (sum_list (map ue_amountAtomic es)) s = Inr s'"
    and "spendFundingAllocation now (mb_sessionId b) (sum_list (map ue_amountAtomic es)) d = (Inr w, d1)"
    and "d2 = settle_events now result b (map ue_eventId es) (save_session s' (save_grant g' d1))"
    and "fee_shares result es = Inr fees"
    and "create_receipts sha now result b (zip es fees) d2 = (Inr is, d3)"
    and "d' = save_batch (succeeded_batch now result b) d3"
proof -
  define paid where "paid = sum_list (map ue_amountAtomic es)"
  define c where "c = bindE (settled_grant paid g) (\<lambda>g'. bindE (settled_session paid s) (\<lambda>s'.
           bindE (safeMeteredAtomicNumber paid) (\<lambda>n. Inr (g', s', n))))"
  note run = assms [unfolded settle_writes_def Let_def, folded paid_def, folded c_def]
  obtain g' s' n where c: "c = Inr (g', s', n)" using run by (cases c) auto
  then have gs: "settled_grant paid g = Inr g'" "settled_session paid s = Inr s'" "n = paid"
    by (auto simp: c_def safeMeteredAtomicNumber_def split: if_splits)
  note run = run [unfolded c sum.case prod.case gs(3)]
  obtain r1 d1 where sp: "spendFundingAllocation now (mb_sessionId b) paid d = (r1, d1)" by fastforce
  obtain w where w: "r1 = Inr w" using run sp by (cases r1) (simp_all add: chain_def)
  note run = run [unfolded chain_Inr [where m = "spendFundingAllocation now (mb_sessionId b) paid" and s = d, OF sp [unfolded w]]]
  define d2 where "d2 = settle_events now result b (map ue_eventId es) (save_session s' (save_grant g' d1))"
  note run = run [folded d2_def]
  obtain fees where fees: "fee_shares result es = Inr fees" using run by (cases "fee_shares result es") auto
  note run = run [unfolded fees sum.case]
  obtain r3 d3 where cr: "create_receipts sha now result b (zip es fees) d2 = (r3, d3)" by fastforce
  from run cr have "r3 = Inr is" "d' = save_batch (succeeded_batch now result b) d3"
    by (auto simp: chain_def split: sum.splits)
  with that gs sp w d2_def fees cr show thesis by (simp add: paid_def)
qed

lemma finalize_batch_body_Inr:
  assumes "finalize_batch_body sha k result now d = (Inr v, d')"
  obtains (skipped) "v = None" and "d' = d" and "\<And>b. find_batch k d = Some b \<Longrightarrow> mb_status b = B_succeeded"
    | (settled) b g s "is" where "find_batch k d = Some b" and "mb_status b \<noteq> B_succeeded"
      and "held_in k (events d) = mb_totalAtomic b" and "count_in k (events d) = mb_eventCount b"
      and "find_grant (mb_grantId b) d = Some g" and "find_session (mb_sessionId b) d = Some s"
      and "settle_writes sha now result b g s (sort_by event_before (batch_events k (events d))) d = (Inr is, d')"
      and "v = Some (b, is)"
proof (cases "find_batch k d")
  case None
  with assms skipped show thesis by (simp add: finalize_batch_body_def)
next
  case (Some b)
  show thesis
  proof (cases "mb_status b = B_succeeded")
    case True
    with assms Some skipped show thesis by (simp add: finalize_batch_body_def)
  next
    case False
    note run = assms [unfolded finalize_batch_body_def Some option.case if_not_P [OF False] Let_def sorted_batch_events]
    have sums: "held_in k (events d) = mb_totalAtomic b" "count_in k (events d) = mb_eventCount b"
      using run by (auto split: if_splits)
    obtain g where g: "find_grant (mb_grantId b) d = Some g"
      using run sums by (cases "find_grant (mb_grantId b) d") simp_all
    obtain s where s: "find_session (mb_sessionId b) d = Some s"
      using run sums g by (cases "find_session (mb_sessionId b) d") simp_all
    obtain r1 d1 where w: "settle_writes sha now result b g s (sort_by event_before (batch_events k (events d))) d = (r1, d1)"
      by fastforce
    with run sums g s obtain "is" where "r1 = Inr is" "d1 = d'" "v = Some (b, is)"
      by (cases r1) (auto simp: chain_def split: if_splits)
    with settled [OF Some False sums g s] w show thesis by simp
  qed
qed

lemma count_in_0:
  assumes "count_in k es = 0"
  shows "held_in k es = 0"
proof -
  have "\<not> in_batch k e" if "e \<in> set es" for e
    using total_ge_member [OF that, of "in_batch k" "\<lambda>_. 1"] assms by (auto simp: count_in_def)
  then have "total (in_batch k) ue_amountAtomic es = total (\<lambda>_. False) ue_amountAtomic es"
    by (intro total_cong) auto
  then show ?thesis by (simp add: held_in_def total_def)
qed

lemma settled_batch_open:
  assumes ok: "metered_ok ss gs es bs" and b: "b \<in> set bs" and "held_in (mb_batchId b) es = mb_totalAtomic b"
  shows "\<not> terminal_batch (mb_status b)"
  using metered_okD(7,8) [OF ok b] count_in_0 [of "mb_batchId b" es] assms(3)
  by (auto simp: batch_ok_def batch_sums_def)

lemma create_receipts_found:
  assumes "create_receipts sha now result b xs d = (Inr is, d')"
  shows "\<forall>x \<in> set xs. find_receipt RC_usage_event (ue_eventId (fst x)) d' \<noteq> None"
    and "find_receipt t i d \<noteq> None \<Longrightarrow> find_receipt t i d' \<noteq> None"
proof -
  have one: "find_receipt t i d2 \<noteq> None" "find_receipt (cr_sourceType inp) (cr_sourceId inp) d2 \<noteq> None"
    if "createPaymentReceipt sha now inp d1 = (Inr r, d2)" "find_receipt t i d1 \<noteq> None \<or> (t = cr_sourceType inp \<and> i = cr_sourceId inp)"
    for inp d1 d2 r t i
  proof -
    have "find_receipt (cr_sourceType inp) (cr_sourceId inp) d2 \<noteq> None \<and> (find_receipt t i d1 \<noteq> None \<longrightarrow> find_receipt t i d2 \<noteq> None)"
      using that(1)
    proof (cases rule: createPaymentReceipt_Inr)
      case (created a f r')
      have "\<exists>x. List.find p (xs @ [y]) = Some x" if "p y" for p y and xs :: "payment_receipt list"
        using that by (induction xs) auto
      moreover have "rcp_sourceType r' = cr_sourceType inp" "rcp_sourceId r' = cr_sourceId inp"
        by (simp_all add: created(4) receipt_row_def receipt_hash_of_def)
      moreover have "List.find p xs \<noteq> None \<Longrightarrow> List.find p (xs @ [y]) \<noteq> None" for p y and xs :: "payment_receipt list"
        by (induction xs) auto
      ultimately show ?thesis by (simp add: find_receipt_def created(5))
    qed auto
    with that(2) show "find_receipt t i d2 \<noteq> None" "find_receipt (cr_sourceType inp) (cr_sourceId inp) d2 \<noteq> None" by auto
  qed
  have "(\<forall>x \<in> set xs. find_receipt RC_usage_event (ue_eventId (fst x)) d' \<noteq> None)
      \<and> (\<forall>t i. find_receipt t i d \<noteq> None \<longrightarrow> find_receipt t i d' \<noteq> None)"
    using assms
  proof (induction xs arbitrary: d "is")
    case (Cons x xs)
    obtain e fee where x: "x = (e, fee)" by fastforce
    obtain r1 d1 where 1: "createPaymentReceipt sha now (usage_receipt_input now result b e fee) d = (r1, d1)" by fastforce
    obtain r2 d2 where 2: "create_receipts sha now result b xs d1 = (r2, d2)" by fastforce
    from Cons.prems x 1 2 obtain i is' where r: "r1 = Inr i" "r2 = Inr is'" "d2 = d'"
      by (auto simp: chain_def split: sum.splits)
    note IH = Cons.IH [OF 2 [unfolded r(2,3)]]
    have "find_receipt RC_usage_event (ue_eventId e) d1 \<noteq> None"
      using one(2) [OF 1 [unfolded r(1)], of RC_usage_event "ue_eventId e"] by (simp add: usage_receipt_input_def)
    moreover have "find_receipt t j d \<noteq> None \<Longrightarrow> find_receipt t j d1 \<noteq> None" for t j
      using one(1) [OF 1 [unfolded r(1)], of t j] by blast
    ultimately show ?case using IH x by auto
  qed simp
  then show "\<forall>x \<in> set xs. find_receipt RC_usage_event (ue_eventId (fst x)) d' \<noteq> None"
    and "find_receipt t i d \<noteq> None \<Longrightarrow> find_receipt t i d' \<noteq> None" by blast+
qed

lemma fee_shares_length: "fee_shares result es = Inr fees \<Longrightarrow> length fees = length es"
  by (auto simp: fee_shares_def allocateAtomicFee_def Let_def split: option.splits if_splits)

text \<open>The effect of a settlement on the metered collections.\<close>

lemma finalize_effect:
  assumes dist: "distinct (map ue_eventId (events d))" and r: "finalize_batch_body sha k result now d = (Inr v, d')"
  obtains (skipped) "v = None" and "d' = d" and "\<And>b. find_batch k d = Some b \<Longrightarrow> mb_status b = B_succeeded"
    | (settled) b g s g' s' rs where "find_batch k d = Some b" and "mb_status b \<noteq> B_succeeded"
      and "held_in k (events d) = mb_totalAtomic b" and "count_in k (events d) = mb_eventCount b"
      and "find_grant (mb_grantId b) d = Some g" and "find_session (mb_sessionId b) d = Some s"
      and "settled_grant (mb_totalAtomic b) g = Inr g'" and "settled_session (mb_totalAtomic b) s = Inr s'"
      and "batches d' = update_first (\<lambda>y. mb_batchId y = k) (\<lambda>_. succeeded_batch now result b) (batches d)"
      and "grants d' = update_first (\<lambda>y. mg_grantId y = mg_grantId g) (\<lambda>_. g') (grants d)"
      and "sessions d' = update_first (\<lambda>y. ses_publicId y = ses_publicId s) (\<lambda>_. s') (sessions d)"
      and "events d' = update_all (in_batch k) (settled_event now result b) (events d)"
      and "rate_counters d' = rate_counters d" and "v = Some (b, rs)"
      and "\<And>e. e \<in> set (events d) \<Longrightarrow> in_batch k e \<Longrightarrow> find_receipt RC_usage_event (ue_eventId e) d' \<noteq> None"
  using r
proof (cases rule: finalize_batch_body_Inr)
  case skipped
  then show thesis by (rule that(1))
next
  case (settled b g s rs)
  define es where "es = sort_by event_before (batch_events k (events d))"
  note sums = sorted_batch_events [of k "events d", folded es_def]
  have bk: "mb_batchId b = k" using find_batchD [OF settled(1)] by blast
  from settled(7) [folded es_def] show thesis
  proof (rule settle_writes_Inr)
    fix g' s' n w d1 d2 d3 fees
    assume w: "settled_grant (sum_list (map ue_amountAtomic es)) g = Inr g'"
      "settled_session (sum_list (map ue_amountAtomic es)) s = Inr s'"
      "spendFundingAllocation now (mb_sessionId b) (sum_list (map ue_amountAtomic es)) d = (Inr w, d1)"
      "d2 = settle_events now result b (map ue_eventId es) (save_session s' (save_grant g' d1))"
      "fee_shares result es = Inr fees" "create_receipts sha now result b (zip es fees) d2 = (Inr rs, d3)"
      "d' = save_batch (succeeded_batch now result b) d3"
    note gs = w(1,2) [unfolded sums(1) settled(3)]
    note f1 = spend_same_metered [OF w(3), unfolded same_metered_def]
    note f3 = create_receipts_same_metered [OF w(6), unfolded same_metered_def]
    have "batches d' = update_first (\<lambda>y. mb_batchId y = k) (\<lambda>_. succeeded_batch now result b) (batches d)"
      using f1 f3 bk by (simp add: w(4,7) save_batch_def settle_events_def succeeded_batch_def)
    moreover have "grants d' = update_first (\<lambda>y. mg_grantId y = mg_grantId g) (\<lambda>_. g') (grants d)"
      using f1 f3 settled_grant_Inr [OF gs(1)] by (simp add: w(4,7) settle_events_def) (simp add: save_grant_def)
    moreover have "sessions d' = update_first (\<lambda>y. ses_publicId y = ses_publicId s) (\<lambda>_. s') (sessions d)"
      using f1 f3 settled_session_Inr [OF gs(2)]
      by (simp add: w(4,7) settle_events_def) (simp add: save_session_def save_grant_def)
    moreover have "events d' = update_all (in_batch k) (settled_event now result b) (events d)"
      using f1 f3 update_batch_events [OF dist, where k = k and f = "settled_event now result b"]
      by (simp add: w(4,7) settle_events_def sums(2) del: set_map)
    moreover have "rate_counters d' = rate_counters d" using f1 f3 by (simp add: w(4,7) settle_events_def)
    moreover have "find_receipt RC_usage_event (ue_eventId e) d' \<noteq> None" if "e \<in> set (events d)" "in_batch k e" for e
    proof -
      have "e \<in> set es" using that by (simp add: es_def batch_events_def in_batch_def is_live_def)
      then obtain fee where "(e, fee) \<in> set (zip es fees)"
        using fee_shares_length [OF w(5)] by (metis in_set_impl_in_set_zip1)
      with create_receipts_found(1) [OF w(6)] have "find_receipt RC_usage_event (ue_eventId e) d3 \<noteq> None" by fastforce
      then show ?thesis by (simp add: w(7) find_receipt_def save_batch_def)
    qed
    ultimately show thesis by (rule that(2) [OF settled(1-6) gs _ _ _ _ _ settled(8)])
  qed
qed

lemma finalize_body_inv:
  assumes inv: "metered_inv d" and r: "finalize_batch_body sha k result now d = (Inr v, d')"
  shows "metered_inv d'"
  using metered_okD(3) [OF inv [unfolded metered_inv_def]] r
proof (cases rule: finalize_effect)
  case skipped
  with inv show ?thesis by simp
next
  case (settled b g s g' s' rs)
  note ok = inv [unfolded metered_inv_def]
  from find_batchD [OF settled(1)] find_grantD [OF settled(5)] find_sessionD [OF settled(6)]
  have b: "b \<in> set (batches d)" "mb_batchId b = k" and g: "g \<in> set (grants d)" "mg_grantId g = mb_grantId b"
    and s: "s \<in> set (sessions d)" "ses_publicId s = mb_sessionId b" by auto
  have "metered_ok (sessions d') (grants d') (events d') (batches d')"
    unfolding settled(9-12)
    by (rule close_ok [OF ok b g s, where st = U_settled and paid = "held_in k (events d)"])
      (use settled_grant_Inr [OF settled(7)] settled_session_Inr [OF settled(8)] settled(3) in
        \<open>simp_all add: settled_event_def event_ref_def live_status_def succeeded_batch_def batch_ref_def terminal_batch_def\<close>)
  then show ?thesis by (simp add: metered_inv_def)
qed

lemma finalize_cases:
  assumes "finalizeMeteredBatch sha k result now d = (r, d')"
  obtains (aborted) e where "r = Inl e" and "d' = d"
    | (committed) v d1 where "r = Inr ()" and "finalize_batch_body sha k result now d = (Inr v, d1)" and "same_metered d1 d'"
      and "v = None \<Longrightarrow> d' = d1"
proof -
  obtain r1 d1 where t: "transaction (finalize_batch_body sha k result now) d = (r1, d1)" by fastforce
  from t show thesis
  proof (cases rule: transaction_cases)
    case (aborted e)
    with assms t have "r = Inl e" "d' = d" by (simp_all add: finalizeMeteredBatch_def)
    with that(1) show thesis by blast
  next
    case (committed v)
    have "r = Inr () \<and> same_metered d1 d' \<and> (v = None \<longrightarrow> d' = d1)"
      using assms t committed(1)
      by (cases v) (auto simp: finalizeMeteredBatch_def intro: same_metered_trans [OF queue_all_same_metered same_metered_audit])
    with committed(2) that(2) show thesis by blast
  qed
qed

lemma finalize_inv:
  assumes "metered_inv d" and "finalizeMeteredBatch sha k result now d = (r, d')"
  shows "metered_inv d'"
  using assms(2)
proof (cases rule: finalize_cases)
  case (committed v d1)
  with finalize_body_inv [OF assms(1) committed(2)] show ?thesis by (simp add: same_metered_inv)
qed (use assms in simp)

definition batch_edit :: "(metered_batch \<Rightarrow> metered_batch) \<Rightarrow> metered_batch \<Rightarrow> bool" where
  "batch_edit f b \<longleftrightarrow> \<not> terminal_batch (mb_status b) \<and> batch_ref (f b) = batch_ref b
      \<and> mb_totalAtomic (f b) = mb_totalAtomic b \<and> mb_eventCount (f b) = mb_eventCount b
      \<and> \<not> terminal_batch (mb_status (f b)) \<and> \<not> mb_accepting (f b)"

lemma update_batch_inv:
  assumes "metered_inv d" and "\<And>b. b \<in> set (batches d) \<Longrightarrow> p b \<Longrightarrow> batch_edit f b"
  shows "metered_inv (update_batch p f d)"
  using batch_edit_ok [OF assms(1) [unfolded metered_inv_def], of p f] assms(2)
  by (simp add: metered_inv_def update_batch_def batch_edit_def)

subsection \<open>Any interleaving of requests and workers\<close>

text \<open>
  One statement or transaction of the service or of some worker. The worker's statements carry the
  batch document it read when it claimed, which may be stale.
\<close>

inductive metered_step :: "(string \<Rightarrow> string) \<Rightarrow> 'a metered_db_scheme \<Rightarrow> 'a metered_db_scheme \<Rightarrow> bool" for sha where
  grant: "createMeteredGrant grantId actor gi now d = (rg, d') \<Longrightarrow> metered_step sha d d'"
| submit: "submitUsageEvent sha tries actor i d = (ru, d') \<Longrightarrow> metered_step sha d d'"
| revoke: "revokeMeteredGrant actor grantId now d = (rg, d') \<Longrightarrow> metered_step sha d d'"
| claim: "claimMeteredBatch now workerId uuid d = (rb, d') \<Longrightarrow> metered_step sha d d'"
| store: "storePaymentRequest b resolved d = (rs, d') \<Longrightarrow> mb_leaseId b \<noteq> None \<Longrightarrow> metered_step sha d d'"
| settling: "d' = markEventsSettling k now d \<Longrightarrow> metered_step sha d d'"
| submitted: "d' = markBatchSubmitted b pid now d \<Longrightarrow> mb_leaseId b \<noteq> None \<Longrightarrow> metered_step sha d d'"
| retry: "d' = retryMeteredBatch b failureCode sent now d \<Longrightarrow> mb_leaseId b \<noteq> None \<Longrightarrow> metered_step sha d d'"
| release: "releaseMeteredBatchReservation k failureCode final now d = (rr, d') \<Longrightarrow> final \<in> {B_released, B_failed} \<Longrightarrow>
    metered_step sha d d'"
| finalize: "finalizeMeteredBatch sha k result now d = (rr, d') \<Longrightarrow> metered_step sha d d'"

inductive metered_history :: "(string \<Rightarrow> string) \<Rightarrow> 'a metered_db_scheme \<Rightarrow> 'a metered_db_scheme \<Rightarrow> bool" for sha d0 where
  start: "metered_history sha d0 d0"
| more: "metered_history sha d0 d \<Longrightarrow> metered_step sha d d' \<Longrightarrow> metered_history sha d0 d'"

lemma history_step: "metered_step sha d d' \<Longrightarrow> metered_history sha d d'"
  by (rule more [OF start])

lemma history_trans: "metered_history sha e f \<Longrightarrow> metered_history sha d e \<Longrightarrow> metered_history sha d f"
  by (induction rule: metered_history.induct) (auto intro: more)

lemma claim_cases:
  assumes "claimMeteredBatch now workerId uuid d = (r, d')"
  obtains (idle) "r = None" and "d' = d" and "\<forall>b \<in> set (batches d). \<not> batch_claimable now b"
    | (claimed) b where "b \<in> set (batches d)" and "batch_claimable now b" and "r = Some (claimed_batch now (workerId @ '':'' @ uuid) b)"
      and "d' = save_batch (claimed_batch now (workerId @ '':'' @ uuid) b) d"
proof (cases "sort_by batch_before (filter (batch_claimable now) (batches d))")
  case Nil
  then have "set (filter (batch_claimable now) (batches d)) = {}" by (metis set_sort_by list.set(1))
  with assms Nil idle show thesis by (auto simp: claimMeteredBatch_def)
next
  case (Cons b bs)
  then have "b \<in> set (filter (batch_claimable now) (batches d))" by (metis set_sort_by list.set_intros(1))
  with assms Cons claimed show thesis by (auto simp: claimMeteredBatch_def Let_def)
qed

lemma claim_lease: "claimMeteredBatch now workerId uuid d = (Some b, d') \<Longrightarrow> mb_leaseId b \<noteq> None"
  by (erule claim_cases) (auto simp: claimed_batch_def)

lemma claim_inv:
  assumes inv: "metered_inv d" and "claimMeteredBatch now workerId uuid d = (r, d')"
  shows "metered_inv d'"
  using assms(2)
proof (cases rule: claim_cases)
  case (claimed b)
  let ?c = "claimed_batch now (workerId @ '':'' @ uuid) b"
  have edit: "batch_edit (\<lambda>_. ?c) x" if "x \<in> set (batches d)" "mb_batchId x = mb_batchId ?c" for x
  proof -
    have "x = b"
      by (rule same_key [OF metered_okD(4) [OF inv [unfolded metered_inv_def]] that(1) claimed(1)])
        (use that(2) in \<open>simp add: claimed_batch_def\<close>)
    with claimed(2) show ?thesis
      by (auto simp: batch_edit_def claimed_batch_def batch_ref_def terminal_batch_def batch_claimable_def)
  qed
  have "d' = update_batch (\<lambda>y. mb_batchId y = mb_batchId ?c) (\<lambda>_. ?c) d"
    by (simp add: claimed(4) save_batch_def update_batch_def)
  with update_batch_inv [OF inv, of "\<lambda>y. mb_batchId y = mb_batchId ?c" "\<lambda>_. ?c"] edit show ?thesis by blast
qed (use inv in simp)

lemma lease_open:
  assumes inv: "metered_inv d" and "mb_leaseId b \<noteq> None" and "x \<in> set (batches d)" and "holds_lease b x"
  shows "\<not> terminal_batch (mb_status x)" and "\<not> mb_accepting x"
  using metered_okD(7) [OF inv [unfolded metered_inv_def] assms(3)] assms(2,4) by (auto simp: batch_ok_def holds_lease_def)

lemma lease_edit_inv:
  assumes inv: "metered_inv d" and lease: "mb_leaseId b \<noteq> None"
    and f: "\<And>x. batch_ref (f x) = batch_ref x \<and> mb_totalAtomic (f x) = mb_totalAtomic x \<and> mb_eventCount (f x) = mb_eventCount x
      \<and> mb_accepting (f x) = mb_accepting x \<and> (mb_status (f x) = mb_status x \<or> mb_status (f x) \<in> {B_uncertain, B_retrying})"
  shows "metered_inv (update_batch (holds_lease b) f d)"
proof (rule update_batch_inv [OF inv])
  fix x
  assume "x \<in> set (batches d)" "holds_lease b x"
  from lease_open [OF inv lease this] f [of x] show "batch_edit f x" unfolding batch_edit_def terminal_batch_def by fastforce
qed

lemma store_cases:
  assumes "storePaymentRequest b resolved d = (r, d')"
  obtains (refused) "r \<noteq> Inr True" and "d' = d"
    | (stored) "r = Inr True" and "d' = update_batch (holds_lease b)
        (\<lambda>x. x\<lparr>mb_paymentRequestHash := Some (rr_paymentRequestHash resolved), mb_paymentHash := rr_paymentHash resolved\<rparr>) d"
      and "\<forall>x \<in> set (batches d). mb_paymentRequestHash x = Some (rr_paymentRequestHash resolved) \<longrightarrow> mb_batchId x = mb_batchId b"
  using assms by (auto simp: storePaymentRequest_def list_ex_iff split: option.splits if_splits)

lemma settling_inv:
  assumes "metered_inv d"
  shows "metered_inv (markEventsSettling k now d)"
  using event_edit_ok [OF assms [unfolded metered_inv_def], where q = "\<lambda>e. ue_batchId e = k \<and> ue_status e = U_reserved"
      and f = "\<lambda>e. e\<lparr>ue_status := U_settling, ue_settlingAt := Some now\<rparr>"]
  by (simp add: metered_inv_def markEventsSettling_def is_live_def live_status_def event_ref_def)

lemma metered_step_inv:
  assumes "metered_step sha d d'" and inv: "metered_inv d"
  shows "metered_inv d'"
  using assms(1)
proof cases
  case grant
  with create_grant_inv [OF inv] show ?thesis by blast
next
  case (submit tries actor i ru)
  show ?thesis by (rule submit_induct [where P = metered_inv, OF _ inv submit(1)]) (rule accept_once_inv)
next
  case revoke
  with revoke_inv [OF inv] show ?thesis by blast
next
  case claim
  with claim_inv [OF inv] show ?thesis by blast
next
  case (store b resolved rs)
  from store(1) show ?thesis
  proof (cases rule: store_cases)
    case stored
    with lease_edit_inv [OF inv store(2)] show ?thesis by (simp add: batch_ref_def)
  qed (use inv in simp)
next
  case settling
  with settling_inv [OF inv] show ?thesis by simp
next
  case (submitted b pid now)
  with lease_edit_inv [OF inv submitted(2)] show ?thesis by (simp add: markBatchSubmitted_def batch_ref_def)
next
  case (retry b failureCode sent now)
  with lease_edit_inv [OF inv retry(2)] show ?thesis by (simp add: retryMeteredBatch_def batch_ref_def)
next
  case release
  with release_inv [OF inv] show ?thesis by blast
next
  case finalize
  with finalize_inv [OF inv] show ?thesis by blast
qed

lemma metered_history_inv: "metered_history sha d0 d \<Longrightarrow> metered_inv d0 \<Longrightarrow> metered_inv d"
  by (induction rule: metered_history.induct) (auto intro: metered_step_inv)

text \<open>The worker's program is such a sequence of statements.\<close>

lemma conclude_history:
  assumes "conclude sha b result sent clock d = (r, d')" and "mb_leaseId b \<noteq> None"
  shows "metered_history sha d d'"
proof (cases "er_status result")
  case ER_succeeded
  obtain r1 d1 where f: "finalizeMeteredBatch sha (mb_batchId b) result clock d = (r1, d1)" by fastforce
  with assms ER_succeeded have "d' = d1" by (cases r1) (auto simp: conclude_def chain_def)
  with history_step [OF metered_step.finalize [OF f]] show ?thesis by simp
next
  case ER_pending
  with assms show ?thesis by (auto simp: conclude_def intro: history_step metered_step.retry)
next
  case ER_failed
  obtain r1 d1 where f: "releaseMeteredBatchReservation (mb_batchId b) (result_code result) B_failed clock d = (r1, d1)" by fastforce
  with assms ER_failed have "d' = d1" by (cases r1) (auto simp: conclude_def chain_def)
  with history_step [OF metered_step.release [OF f]] show ?thesis by simp
qed

lemma execute_history:
  assumes "execute_batch sha executor b now clock d = (r, d')" and lease: "mb_leaseId b \<noteq> None"
  shows "metered_history sha d d'"
proof (cases "bindE (batch_destination b d) (\<lambda>x. ex_resolve executor b x now)")
  case (Inl e)
  with assms(1) show ?thesis by (simp add: execute_batch_def start)
next
  case (Inr resolved)
  obtain r1 d1 where st: "storePaymentRequest b resolved d = (r1, d1)" by fastforce
  have h1: "metered_history sha d d1" by (rule history_step [OF metered_step.store [OF st lease]])
  note run = assms(1) [unfolded execute_batch_def Inr sum.case st prod.case]
  show ?thesis
  proof (cases "r1 = Inr True")
    case False
    then have "r1 = Inr False \<or> (\<exists>e. r1 = Inl e)" by (cases r1) auto
    with run h1 show ?thesis by auto
  next
    case True
    obtain mark outcome where ex: "ex_execute executor b resolved = (mark, outcome)" by fastforce
    define d2 where "d2 = markEventsSettling (mb_batchId b) now d1"
    define d3 where "d3 = (case mark of None \<Rightarrow> d2 | Some pid \<Rightarrow> markBatchSubmitted b pid clock d2)"
    have h2: "metered_history sha d d2" by (rule more [OF h1]) (rule metered_step.settling [OF d2_def])
    have h3: "metered_history sha d d3"
      using h2 more [OF h2 metered_step.submitted [OF refl lease]] by (simp add: d3_def split: option.splits)
    note run = run [unfolded True sum.case bool.case Let_def, folded d2_def, unfolded ex prod.case, folded d3_def]
    show ?thesis
    proof (cases outcome)
      case (Inl e)
      with run h3 show ?thesis by simp
    next
      case (Inr result)
      with run have "conclude sha b result (mark \<noteq> None) clock d3 = (r, d')" by simp
      from history_trans [OF conclude_history [OF this lease] h3] show ?thesis .
    qed
  qed
qed

lemma settle_history:
  assumes "settle_batch sha executor b now clock d = (r, d')" and lease: "mb_leaseId b \<noteq> None"
  shows "metered_history sha d d'"
proof (cases "find_grant (mb_grantId b) d")
  case None
  with assms show ?thesis by (simp add: settle_batch_def start)
next
  case (Some g)
  note run = assms(1) [unfolded settle_batch_def Some option.case]
  show ?thesis
  proof (cases "mg_status g \<in> {GR_revoked, GR_expired} \<and> mb_submittedAt b = None")
    case True
    obtain r1 d1 where f: "releaseMeteredBatchReservation (mb_batchId b) ''METERED_GRANT_INACTIVE'' B_released clock d = (r1, d1)"
      by fastforce
    with run True have "d' = d1" by (cases r1) (auto simp: chain_def)
    with history_step [OF metered_step.release [OF f]] show ?thesis by simp
  next
    case False
    note run' = run [unfolded if_not_P [OF False]]
    show ?thesis
    proof (cases "mb_submittedAt b = None")
      case True
      with run' execute_history [OF _ lease] show ?thesis by simp
    next
      case False
      with run' show ?thesis
        by (auto intro: start execute_history [OF _ lease] conclude_history [OF _ lease] split: sum.splits option.splits)
    qed
  qed
qed

lemma recover_history:
  assumes "recover_batch b e clock d = (r, d')" and lease: "mb_leaseId b \<noteq> None"
  shows "metered_history sha d d'"
proof -
  obtain failureCode retryable where pf: "publicFailure e = (failureCode, retryable)" by fastforce
  show ?thesis
  proof (cases "retryable \<and> mb_attempts b < mb_maxAttempts b")
    case True
    with assms pf show ?thesis by (auto simp: recover_batch_def Let_def intro: history_step metered_step.retry)
  next
    case False
    obtain r1 d1 where f: "releaseMeteredBatchReservation (mb_batchId b) failureCode B_failed clock d = (r1, d1)" by fastforce
    with assms pf False have "d' = d1" by (cases r1) (auto simp: recover_batch_def Let_def chain_def)
    with history_step [OF metered_step.release [OF f]] show ?thesis by simp
  qed
qed

lemma process_history:
  assumes "process_batch sha executor b now clock d = (r, d')" and lease: "mb_leaseId b \<noteq> None"
  shows "metered_history sha d d'"
proof -
  obtain r1 d1 where s: "settle_batch sha executor b now clock d = (r1, d1)" by fastforce
  note h1 = settle_history [OF s lease]
  show ?thesis
  proof (cases r1)
    case (Inl e)
    with assms(1) s have "recover_batch b e clock d1 = (r, d')" by (simp add: process_batch_def)
    from history_trans [OF recover_history [OF this lease] h1] show ?thesis .
  next
    case (Inr x)
    with assms(1) s h1 show ?thesis by (simp add: process_batch_def)
  qed
qed

lemma worker_loop_history:
  "worker_loop sha executor now workerId ticks w d = (r, d') \<Longrightarrow> metered_history sha d d'"
proof (induction ticks arbitrary: w d)
  case (Cons t ticks)
  obtain uuid clock where t: "t = (uuid, clock)" by fastforce
  obtain rb d1 where c: "claimMeteredBatch now workerId uuid d = (rb, d1)" by fastforce
  note h1 = history_step [OF metered_step.claim [OF c]]
  show ?case
  proof (cases rb)
    case None
    with Cons.prems t c h1 show ?thesis by simp
  next
    case (Some b)
    with c claim_lease have lease: "mb_leaseId b \<noteq> None" by blast
    obtain r2 d2 where p: "process_batch sha executor b now clock d1 = (r2, d2)" by fastforce
    note h2 = history_trans [OF process_history [OF p lease] h1]
    show ?thesis
    proof (cases r2)
      case (Inl e)
      with Cons.prems t c Some p h2 show ?thesis by (simp add: chain_def)
    next
      case (Inr outcome)
      with Cons.prems t c Some p
      have "worker_loop sha executor now workerId ticks
          (count_outcome outcome (w\<lparr>wo_claimed := wo_claimed w + 1\<rparr>)) d2 = (r, d')" by (simp add: chain_def)
      from history_trans [OF Cons.IH [OF this] h2] show ?thesis .
    qed
  qed
qed (simp add: start)

subsection \<open>A sample\<close>

definition sample_pass :: session where
  "sample_pass = sample_session\<lparr>ses_appId := Some ''app'', ses_appGrantOwnerWalletId := Some ''w'',
     ses_appPermissions := [''charges:create''], ses_autoMicroCharges := True, ses_assetId := Some ''ckb:ckb'',
     ses_limitAtomic := Some 100, ses_spentAtomic := Some 0, ses_reservedAtomic := Some 0,
     ses_ownerWalletId := ''w'', ses_publicId := ''pass'', ses_limitMinor := Some 100\<rparr>"

definition sample_grant :: metered_grant where
  "sample_grant = \<lparr>mg_grantId = ''g'', mg_ownerWalletId = ''w'', mg_appId = ''app'', mg_sessionId = ''pass'',
     mg_recipientId = ''r'', mg_destinationId = ''dst'', mg_rail = R_fiber, mg_network = ''testnet'', mg_assetId = ''ckb:ckb'',
     mg_executor = ME_fiber, mg_connectionId = None, mg_status = GR_active, mg_maxPerEventAtomic = 50,
     mg_totalLimitAtomic = 90, mg_reservedAtomic = 0, mg_spentAtomic = 0, mg_rateLimitCount = 5,
     mg_rateLimitWindowSeconds = 60, mg_immediateThresholdAtomic = 60, mg_maxBatchAtomic = 80, mg_maxBatchEvents = 3,
     mg_settlementDelayMs = 1000, mg_expiresAt = 999999, mg_revokedAt = None, mg_createdAt = 0\<rparr>"

definition sample_actor :: metered_actor where
  "sample_actor = \<lparr>ma_appId = ''app'', ma_ownerWalletId = ''w'', ma_wallet = True, ma_keyId = None\<rparr>"

definition sample_usage :: "string \<Rightarrow> usage_input" where
  "sample_usage x = \<lparr>ui_grantId = ''g'', ui_externalId = x, ui_amountAtomic = ''40'', ui_type = None,
     ui_policyReference = None, ui_metadata = None\<rparr>"

definition sample_ids :: metered_ids where
  "sample_ids = \<lparr>mi_batchId = ''b'', mi_eventId = ''e'', mi_receiptId = ''u''\<rparr>"

definition sample_metered :: metered_db where
  "sample_metered = core_db.extend (empty_db\<lparr>sessions := [sample_pass]\<rparr>)
     \<lparr>apps = [\<lparr>app_appId = ''app'', app_ownerWalletId = ''w'', app_name = ''App'',
        app_serviceAddress = ''addr'',
        app_webhookUrl = None, app_webhookSigningSecret = None, app_status = AP_active\<rparr>], destinations = [],
      nwc_connections = [], btcpay_connections = [], grants = [sample_grant], events = [], batches = [], rate_counters = []\<rparr>"

lemma sample_metered_inv: "metered_inv sample_metered"
  by code_simp

end
