(* ===== verification/Metered_Limits.thy ===== *)
theory Metered_Limits
  imports Metered_Worker
begin

section \<open>What metered payments promise\<close>

text \<open>
  The rate limit and the idempotency of usage events, the lease discipline of the worker, and the
  properties of the metered part: they hold along every interleaving of requests and worker
  statements (\<open>metered_history\<close>).
\<close>

subsection \<open>What never changes\<close>

definition event_fixed :: "usage_event \<Rightarrow> usage_event" where
  "event_fixed e = e\<lparr>ue_status := U_reserved, ue_settlingAt := None, ue_settledAt := None, ue_releasedAt := None,
     ue_proofKind := None, ue_proofReference := None, ue_paymentRequestHash := None, ue_failureCode := None\<rparr>"

lemma event_fixed_simps:
  "ue_eventId (event_fixed e) = ue_eventId e" "ue_grantId (event_fixed e) = ue_grantId e"
  "ue_acceptedAt (event_fixed e) = ue_acceptedAt e" "ue_appId (event_fixed e) = ue_appId e"
  "ue_externalId (event_fixed e) = ue_externalId e" "ue_requestFingerprint (event_fixed e) = ue_requestFingerprint e"
  "ue_amountAtomic (event_fixed e) = ue_amountAtomic e" "ue_batchId (event_fixed e) = ue_batchId e"
  "ue_receiptId (event_fixed e) = ue_receiptId e"
  by (simp_all add: event_fixed_def)

definition quiet :: "'a metered_db_scheme \<Rightarrow> 'a metered_db_scheme \<Rightarrow> bool" where
  "quiet d d' \<longleftrightarrow> map event_fixed (events d') = map event_fixed (events d)
     \<and> map grant_terms (grants d') = map grant_terms (grants d) \<and> rate_counters d' = rate_counters d"

lemma quiet_refl [simp]: "quiet d d"
  by (simp add: quiet_def)

lemma quiet_trans: "quiet d e \<Longrightarrow> quiet e f \<Longrightarrow> quiet d f"
  by (simp add: quiet_def)

lemma quiet_same: "same_metered d d' \<Longrightarrow> quiet d d'"
  by (simp add: quiet_def same_metered_def)

lemma quiet_update_batch [simp]: "quiet d (update_batch p f d)"
  by (simp add: quiet_def update_batch_def)

lemma quiet_audit [simp]: "quiet d (writeAuditLog w x y z d)"
  by (simp add: quiet_same)

lemma save_grant_terms:
  assumes "distinct (map mg_grantId (grants d))" and "g \<in> set (grants d)" and "grant_terms g' = grant_terms g"
  shows "map grant_terms (grants (save_grant g' d)) = map grant_terms (grants d)"
proof -
  have id: "mg_grantId g' = mg_grantId g" using grant_terms_simps(1) [of g'] grant_terms_simps(1) [of g] assms(3) by simp
  show ?thesis
    unfolding save_grant_def id
    by (simp, rule map_update_first_in) (use same_key [OF assms(1) _ assms(2)] assms(3) in auto)
qed

lemma release_quiet:
  assumes inv: "metered_inv d" and "releaseMeteredBatchReservation k c st now d = (r, d')"
  shows "quiet d d'"
  using assms(2) unfolding releaseMeteredBatchReservation_def
proof (cases rule: transaction_cases)
  case (committed v)
  from committed(2) show ?thesis
  proof (cases rule: release_batch_body_Inr)
    case (released b g s s')
    note ok = inv [unfolded metered_inv_def]
    have "g \<in> set (grants d)" using find_grantD [OF released(3)] by blast
    from save_grant_terms [OF metered_okD(2) [OF ok] this]
    have "map grant_terms (grants (save_grant (g\<lparr>mg_reservedAtomic := mg_reservedAtomic g - held_in k (events d)\<rparr>) d))
        = map grant_terms (grants d)" by (simp add: grant_terms_def)
    moreover have "map event_fixed (update_all q (released_event now c st) es) = map event_fixed es" for q es
      by (rule map_update_all) (simp add: event_fixed_def released_event_def)
    ultimately show ?thesis by (simp add: quiet_def released(7))
  qed simp
qed simp

lemma release_all_quiet: "metered_inv d \<Longrightarrow> release_all now ks d = (r, d') \<Longrightarrow> quiet d d'"
proof (induction ks arbitrary: d)
  case (Cons k ks)
  obtain r1 d1 where r1: "releaseMeteredBatchReservation k ''METERED_GRANT_REVOKED'' B_released now d = (r1, d1)" by fastforce
  have inv1: "metered_inv d1" by (rule release_inv [OF Cons.prems(1) r1]) simp
  from release_quiet [OF Cons.prems(1) r1] Cons.IH [OF inv1] Cons.prems(2) r1 show ?case
    by (cases r1) (auto simp: chain_def intro: quiet_trans)
qed simp

lemma revoke_quiet:
  assumes inv: "metered_inv d" and "revokeMeteredGrant actor grantId now d = (r, d')"
  shows "quiet d d'"
  using assms(2)
proof (cases rule: revoke_cases)
  case (revoked gs d1 r1)
  have "map grant_terms gs = map grant_terms (grants d)"
    unfolding revoked(1) by (rule map_update_first) (simp add: grant_terms_def revoked_grant_def)
  then have q: "quiet d (d\<lparr>grants := gs\<rparr>)" by (simp add: quiet_def)
  have "metered_inv (d\<lparr>grants := gs\<rparr>)"
    using grant_edit_ok [OF inv [unfolded metered_inv_def], of "revoked_grant now"] revoked(1)
    by (simp add: metered_inv_def revoked_grant_def grant_terms_def)
  from release_all_quiet [OF this revoked(2)] q revoked(3) show ?thesis by (auto intro: quiet_trans quiet_audit)
qed simp

lemma finalize_quiet:
  assumes inv: "metered_inv d" and "finalizeMeteredBatch sha k result now d = (r, d')"
  shows "quiet d d'"
  using assms(2)
proof (cases rule: finalize_cases)
  case (committed v d0)
  note ok = inv [unfolded metered_inv_def]
  from metered_okD(3) [OF ok] committed(2) have "quiet d d0"
  proof (cases rule: finalize_effect)
    case (settled b g s g' s' rs)
    have "g \<in> set (grants d)" using find_grantD [OF settled(5)] by blast
    from save_grant_terms [OF metered_okD(2) [OF ok] this, of g'] settled_grant_Inr [OF settled(7)] settled(10)
    have "map grant_terms (grants d0) = map grant_terms (grants d)" by (simp add: save_grant_def)
    moreover have "map event_fixed (events d0) = map event_fixed (events d)"
      unfolding settled(12) by (rule map_update_all) (simp add: event_fixed_def settled_event_def)
    ultimately show ?thesis using settled(13) by (simp add: quiet_def)
  qed simp
  with committed(3) show ?thesis by (blast intro: quiet_trans quiet_same)
qed simp

lemma settling_quiet: "quiet d (markEventsSettling k now d)"
proof -
  have "map event_fixed (update_all q (\<lambda>e. e\<lparr>ue_status := U_settling, ue_settlingAt := Some now\<rparr>) es) = map event_fixed es" for q es
    by (rule map_update_all) (simp add: event_fixed_def)
  then show ?thesis by (simp add: quiet_def markEventsSettling_def)
qed

text \<open>Every step is quiet, grants, or accepts one event after another.\<close>

definition accepts :: "(string \<Rightarrow> string) \<Rightarrow> 'a metered_db_scheme \<Rightarrow> 'a metered_db_scheme \<Rightarrow> bool" where
  "accepts sha d d' \<longleftrightarrow> (\<exists>ids actor i now r. acceptUsageEventOnce sha ids actor i now d = (r, d'))"

lemma metered_step_kinds:
  assumes "metered_step sha d d'" and inv: "metered_inv d"
    and quiet: "\<And>d d'. metered_inv d \<Longrightarrow> P d \<Longrightarrow> quiet d d' \<Longrightarrow> P d'"
    and grant: "\<And>grantId actor i now r d'. createMeteredGrant grantId actor i now d = (r, d') \<Longrightarrow> P d'"
    and accept: "\<And>d d'. metered_inv d \<Longrightarrow> P d \<Longrightarrow> accepts sha d d' \<Longrightarrow> P d'"
    and P: "P d"
  shows "P d'"
  using assms(1)
proof cases
  case (grant grantId actor gi now rg)
  then show ?thesis by (rule assms(4))
next
  case (submit tries actor i ru)
  have "metered_inv d' \<and> P d'"
  proof (rule submit_induct [where P = "\<lambda>d. metered_inv d \<and> P d", OF _ _ submit(1)])
    fix ids now d r d'
    assume "metered_inv d \<and> P d" "acceptUsageEventOnce sha ids actor i now d = (r, d')"
    moreover from this have "metered_inv d'" by (blast intro: accept_once_inv)
    moreover have "accepts sha d d'" unfolding accepts_def using calculation(2) by blast
    ultimately show "metered_inv d' \<and> P d'" using accept [of d d'] by blast
  qed (use inv P in simp)
  then show ?thesis ..
next
  case revoke
  from quiet [OF inv P revoke_quiet [OF inv revoke]] show ?thesis .
next
  case (claim now workerId uuid rb)
  then have "quiet d d'" by (rule claim_cases) (simp_all add: quiet_def)
  with quiet inv P show ?thesis by blast
next
  case (store b resolved rs)
  from store(1) have "quiet d d'" by (rule store_cases) simp_all
  with quiet inv P show ?thesis by blast
next
  case settling
  with quiet inv P settling_quiet show ?thesis by blast
next
  case submitted
  with quiet [OF inv P quiet_update_batch] show ?thesis by (simp add: markBatchSubmitted_def)
next
  case retry
  with quiet [OF inv P quiet_update_batch] show ?thesis by (simp add: retryMeteredBatch_def)
next
  case (release k failureCode final now rr)
  from quiet [OF inv P release_quiet [OF inv release(1)]] show ?thesis .
next
  case finalize
  from quiet [OF inv P finalize_quiet [OF inv finalize]] show ?thesis .
qed

subsection \<open>The rate limit\<close>

definition usage_in :: "metered_grant \<Rightarrow> int \<Rightarrow> usage_event list \<Rightarrow> int" where
  "usage_in g start es =
     total (\<lambda>e. ue_grantId e = mg_grantId g \<and> fst (nextRateWindow (ue_acceptedAt e) (mg_rateLimitWindowSeconds g)) = start)
       (\<lambda>_. 1) es"

definition window_ok :: "usage_event list \<Rightarrow> rate_counter list \<Rightarrow> metered_grant \<Rightarrow> int \<Rightarrow> bool" where
  "window_ok es cs g start \<longleftrightarrow>
     (case List.find (is_window g start) cs of
        None \<Rightarrow> usage_in g start es = 0
      | Some c \<Rightarrow> mrc_count c = usage_in g start es \<and> usage_in g start es \<le> mg_rateLimitCount g)"

definition rate_ok :: "metered_grant set \<Rightarrow> usage_event list \<Rightarrow> rate_counter list \<Rightarrow> bool" where
  "rate_ok terms es cs \<longleftrightarrow> (\<forall>g \<in> terms. \<forall>start. window_ok es cs g start)
     \<and> (\<forall>c \<in> set cs. mrc_grantId c \<in> mg_grantId ` terms)"

definition rate_inv :: "'a metered_db_scheme \<Rightarrow> bool" where
  "rate_inv d \<longleftrightarrow> rate_ok (grant_terms ` set (grants d)) (events d) (rate_counters d)"

lemma usage_in_fixed: "map event_fixed es' = map event_fixed es \<Longrightarrow> usage_in g start es' = usage_in g start es"
proof (induction es' arbitrary: es)
  case (Cons e' es')
  then obtain e es0 where es: "es = e # es0" "event_fixed e' = event_fixed e" "map event_fixed es' = map event_fixed es0"
    by auto
  from es(2) have "ue_grantId e' = ue_grantId e" "ue_acceptedAt e' = ue_acceptedAt e"
    using event_fixed_simps by metis+
  with Cons.IH [OF es(3)] es(1) show ?case by (simp add: usage_in_def)
qed (simp add: usage_in_def)

lemma quiet_rate:
  assumes "quiet d d'" and "rate_inv d"
  shows "rate_inv d'"
proof -
  have "usage_in g start (events d') = usage_in g start (events d)" for g start
    by (rule usage_in_fixed) (use assms(1) in \<open>simp add: quiet_def\<close>)
  then have "window_ok (events d') cs = window_ok (events d) cs" for cs
    by (simp add: window_ok_def fun_eq_iff split: option.splits)
  moreover have "grant_terms ` set (grants d') = grant_terms ` set (grants d)" "rate_counters d' = rate_counters d"
    using assms(1) refs_of_map [of grant_terms "grants d'" "grants d"] by (simp_all add: quiet_def)
  ultimately show ?thesis using assms(2) by (simp only: rate_inv_def rate_ok_def)
qed

lemma take_rate_slot_ok:
  assumes ok: "rate_ok terms es cs" and slot: "take_rate_slot g now cs = Inr cs'"
    and g: "t \<in> terms" "t = grant_terms g" "\<And>u. u \<in> terms \<Longrightarrow> mg_grantId u = mg_grantId g \<Longrightarrow> u = t"
    and e: "ue_grantId e = mg_grantId g" "ue_acceptedAt e = now" and one: "1 \<le> mg_rateLimitCount g"
  shows "rate_ok terms (es @ [e]) cs'"
proof -
  define start where "start = fst (nextRateWindow now (mg_rateLimitWindowSeconds g))"
  have t: "mg_grantId t = mg_grantId g" "mg_rateLimitWindowSeconds t = mg_rateLimitWindowSeconds g"
    "mg_rateLimitCount t = mg_rateLimitCount g" by (simp_all add: g(2) grant_terms_def)
  have w: "is_window u s = is_window v s" if "mg_grantId u = mg_grantId v" for u v s
    using that by (simp add: is_window_def fun_eq_iff)
  have new: "is_window g start (new_window g now)"
    by (simp add: is_window_def new_window_def start_def split: prod.splits)
  have use: "usage_in u s (es @ [e]) = usage_in u s es + (if u = t \<and> s = start then 1 else 0)" if "u \<in> terms" for u s
  proof (cases "u = t")
    case True
    then show ?thesis by (auto simp: usage_in_def start_def e t)
  next
    case False
    with g(3) [OF that] have "mg_grantId u \<noteq> mg_grantId g" by blast
    with False show ?thesis by (simp add: usage_in_def e)
  qed
  have win: "window_ok es cs u s" if "u \<in> terms" for u s using ok that by (simp add: rate_ok_def)
  define cs1 where "cs1 = (if List.find (is_window g start) cs = None then cs @ [new_window g now] else cs)"
  have cs': "cs' = update_first (is_window g start) count_usage cs1"
    and room: "mrc_count (opt_or (List.find (is_window g start) cs1) (new_window g now)) < mg_rateLimitCount g"
    using slot by (auto simp: take_rate_slot_def Let_def start_def cs1_def split: if_splits)
  have other: "List.find (is_window u s) cs' = List.find (is_window u s) cs"
    if "u \<in> terms" "\<not> (u = t \<and> s = start)" for u s
  proof -
    have ne: "mg_grantId u \<noteq> mg_grantId g \<or> s \<noteq> start" using that g(3) by blast
    then have dis: "\<not> (is_window u s c \<and> is_window g start c)" for c by (auto simp: is_window_def)
    have "List.find (is_window u s) (update_first (is_window g start) count_usage xs) = List.find (is_window u s) xs" for xs
      using ne by (induction xs) (auto simp: is_window_def count_usage_def)
    moreover have "List.find (is_window u s) cs1 = List.find (is_window u s) cs"
      using dis [of "new_window g now"] new
      by (auto simp: cs1_def find_append_new split: option.splits)
        (metis find_append_new find_append_old not_None_eq)
    ultimately show ?thesis by (simp add: cs')
  qed
  have mine: "List.find (is_window t start) cs' = map_option count_usage (List.find (is_window t start) cs1)"
    unfolding cs' w [OF t(1)] by (induction cs1) (auto simp: is_window_def count_usage_def)
  have first: "List.find (is_window t start) cs1 = Some (opt_or (List.find (is_window t start) cs) (new_window g now))"
    using new by (auto simp: cs1_def w [OF t(1)] find_append_new)
  have "window_ok (es @ [e]) cs' u s" if u: "u \<in> terms" for u s
  proof (cases "u = t \<and> s = start")
    case False
    with win [OF u, of s] use [OF u, of s] other [OF u] show ?thesis by (simp add: window_ok_def split: option.splits)
  next
    case True
    have "mrc_count (opt_or (List.find (is_window t start) cs) (new_window g now)) = usage_in t start es"
      using win [OF g(1), of start] by (auto simp: window_ok_def new_window_def split: option.splits prod.splits)
    with True room use [OF u, of s] mine first w [OF t(1)] t(3) show ?thesis
      by (auto simp: window_ok_def count_usage_def)
  qed
  moreover have "mrc_grantId c \<in> mg_grantId ` terms" if "c \<in> set cs'" for c
  proof -
    from that have "c \<in> set cs1 \<or> (\<exists>x \<in> set cs1. c = count_usage x)"
      unfolding cs' using set_update_firstD by fastforce
    then obtain x where "x \<in> set cs1" "mrc_grantId c = mrc_grantId x" by (auto simp: count_usage_def)
    moreover have "mg_grantId g \<in> mg_grantId ` terms" using g(1) t(1) by (metis imageI)
    ultimately show ?thesis
      using ok by (auto simp: cs1_def rate_ok_def new_window_def split: if_splits prod.splits)
  qed
  ultimately show ?thesis by (simp add: rate_ok_def)
qed

lemma accept_effect:
  assumes inv: "metered_inv d" and acc: "accepts sha d d'"
  obtains (none) "quiet d d'"
    | (one) g e now cs where "g \<in> set (grants d)" and "take_rate_slot g now (rate_counters d) = Inr cs"
      and "events d' = events d @ [e]" and "rate_counters d' = cs"
      and "map grant_terms (grants d') = map grant_terms (grants d)"
      and "ue_grantId e = mg_grantId g" and "ue_acceptedAt e = now" and "\<forall>x \<in> set (events d). \<not> event_clash e x"
proof -
  from acc obtain ids actor i now r where "acceptUsageEventOnce sha ids actor i now d = (r, d')" by (auto simp: accepts_def)
  then show thesis
  proof (cases rule: accept_once_cases)
    case unchanged
    with none show thesis by simp
  next
    case (committed amount e)
    then obtain d1 where body: "accept_body sha ids actor i amount (usageRequestFingerprint sha actor i amount) now d = (Inr e, d1)"
      and d': "d' = d1 \<or> d' = writeAuditLog (ma_ownerWalletId actor) ''metered.usage.accepted'' ''usage_event'' (ue_eventId e) d1" by blast
    from body show thesis
    proof (cases rule: accept_body_Inr)
      case replayed
      with d' none show thesis by auto
    next
      case (accepted g s)
      from accepted(8) show thesis
      proof (rule accept_writes_Inr)
        fix cs k bs major as s'
        assume w: "take_rate_slot g now (rate_counters d) = Inr cs"
          "e = new_event ids i amount (usageRequestFingerprint sha actor i amount) k now g"
          "\<forall>x \<in> set (events d). \<not> event_clash e x"
          "d1 = save_session s' (save_grant (g\<lparr>mg_reservedAtomic := mg_reservedAtomic g + amount\<rparr>)
              (d\<lparr>rate_counters := cs, batches := bs, events := events d @ [e], attempts := as\<rparr>))"
        have "map grant_terms (grants d1) = map grant_terms (grants d)"
          using save_grant_terms [of "d\<lparr>rate_counters := cs, batches := bs, events := events d @ [e], attempts := as\<rparr>" g
              "g\<lparr>mg_reservedAtomic := mg_reservedAtomic g + amount\<rparr>"]
            metered_okD(2) [OF inv [unfolded metered_inv_def]] accepted(1)
          by (simp add: w(4) grant_terms_def)
        with w d' show thesis by (intro one [OF accepted(1) w(1)]) (auto simp: new_event_def)
      qed
    qed
  qed
qed

lemma accept_rate:
  assumes inv: "metered_inv d" and rate: "rate_inv d" and acc: "accepts sha d d'"
  shows "rate_inv d'"
  using inv acc
proof (cases rule: accept_effect)
  case none
  with quiet_rate rate show ?thesis by blast
next
  case (one g e now cs)
  note ok = inv [unfolded metered_inv_def]
  have "1 \<le> mg_rateLimitCount g"
  proof (rule ccontr)
    let ?start = "fst (nextRateWindow now (mg_rateLimitWindowSeconds g))"
    assume "\<not> 1 \<le> mg_rateLimitCount g"
    moreover have "0 \<le> mrc_count c" if "List.find (is_window g ?start) (rate_counters d) = Some c" for c
    proof -
      have "window_ok (events d) (rate_counters d) (grant_terms g) ?start" using rate one(1) by (simp add: rate_inv_def rate_ok_def)
      moreover have "is_window (grant_terms g) = is_window g" by (simp add: is_window_def fun_eq_iff)
      ultimately have "mrc_count c = usage_in (grant_terms g) ?start (events d)" using that by (simp add: window_ok_def)
      then show ?thesis by (simp add: usage_in_def total_nonneg)
    qed
    ultimately show False
      using one(2) by (auto simp: take_rate_slot_def Let_def find_append_new is_window_def new_window_def
          split: if_splits option.splits prod.splits)
  qed
  moreover have "u = grant_terms g" if "u \<in> grant_terms ` set (grants d)" "mg_grantId u = mg_grantId g" for u
  proof -
    from that(1) obtain x where x: "x \<in> set (grants d)" "u = grant_terms x" by blast
    with that(2) have "x = g" using same_key [OF metered_okD(2) [OF ok] x(1) one(1)] by simp
    with x show ?thesis by simp
  qed
  ultimately have "rate_ok (grant_terms ` set (grants d)) (events d @ [e]) cs"
    using take_rate_slot_ok [OF rate [unfolded rate_inv_def] one(2) _ refl, of e] one(1,6,7) by blast
  then show ?thesis using one(3,4) refs_of_map [OF one(5)] by (simp only: rate_inv_def)
qed

lemma grant_rate:
  assumes inv: "metered_inv d" and rate: "rate_inv d" and r: "createMeteredGrant grantId actor i now d = (r, d')"
  shows "rate_inv d'"
  using r
proof (cases rule: create_grant_cases)
  case (created g)
  have none: "usage_in (grant_terms g) start (events d) = 0" for start
  proof -
    have "ue_grantId e \<noteq> mg_grantId g" if e: "e \<in> set (events d)" for e
    proof -
      note ok = inv [unfolded metered_inv_def]
      from metered_okD(9) [OF ok e] obtain b where b: "b \<in> set (batches d)" "mb_grantId b = ue_grantId e"
        by (auto simp: event_ok_def event_ref_def batch_ref_def)
      from metered_okD(7) [OF ok b(1)] b(2) created(2) show ?thesis
        by (auto simp: batch_ok_def within_terms_def)
    qed
    then have "usage_in (grant_terms g) start (events d) = total (\<lambda>_. False) (\<lambda>_. 1) (events d)"
      unfolding usage_in_def by (intro total_cong) auto
    then show ?thesis by (simp add: total_def)
  qed
  have "List.find (is_window (grant_terms g) start) (rate_counters d) = None" for start
  proof -
    have "mrc_grantId c \<noteq> mg_grantId g" if "c \<in> set (rate_counters d)" for c
      using rate that created(2) by (auto simp: rate_inv_def rate_ok_def)
    then show ?thesis by (auto simp: find_None_iff is_window_def)
  qed
  with none have "window_ok (events d) (rate_counters d) (grant_terms g) start" for start by (simp add: window_ok_def)
  with rate have "rate_ok (grant_terms ` set (grants d @ [g])) (events d) (rate_counters d)"
    by (auto simp: rate_inv_def rate_ok_def)
  with created(1) show ?thesis by (simp add: rate_inv_def)
qed (use rate in simp)

lemma metered_step_rate: "metered_step sha d d' \<Longrightarrow> metered_inv d \<Longrightarrow> rate_inv d \<Longrightarrow> rate_inv d'"
  by (erule metered_step_kinds) (auto intro: quiet_rate accept_rate grant_rate)

lemma metered_history_rate: "metered_history sha d0 d \<Longrightarrow> metered_inv d0 \<Longrightarrow> rate_inv d0 \<Longrightarrow> rate_inv d"
proof (induction rule: metered_history.induct)
  case (more d d')
  with metered_history_inv [OF more(1)] metered_step_rate show ?case by blast
qed simp

text \<open>
  Property C16: Along any interleaving of requests and workers, a grant accepts at most
  \<open>rateLimitCount\<close> usage events in each of its aligned windows.
\<close>

theorem metered_rate_limit:
  assumes "metered_history sha d0 d" and "metered_inv d0" and "rate_inv d0" and "g \<in> set (grants d)"
    and "0 \<le> mg_rateLimitCount g"
  shows "total (\<lambda>e. ue_grantId e = mg_grantId g
      \<and> nextRateWindow (ue_acceptedAt e) (mg_rateLimitWindowSeconds g) = nextRateWindow t (mg_rateLimitWindowSeconds g))
    (\<lambda>_. 1) (events d) \<le> mg_rateLimitCount g"
proof -
  have same: "nextRateWindow a w = nextRateWindow b w \<longleftrightarrow> fst (nextRateWindow a w) = fst (nextRateWindow b w)" for a b w
    by (simp add: nextRateWindow_def Let_def)
  let ?start = "fst (nextRateWindow t (mg_rateLimitWindowSeconds g))"
  from metered_history_rate [OF assms(1-3)] assms(4)
  have "window_ok (events d) (rate_counters d) (grant_terms g) ?start" by (simp add: rate_inv_def rate_ok_def)
  moreover have "mg_rateLimitWindowSeconds (grant_terms g) = mg_rateLimitWindowSeconds g" "mg_rateLimitCount (grant_terms g) = mg_rateLimitCount g"
    by (simp_all add: grant_terms_def)
  ultimately have "usage_in (grant_terms g) ?start (events d) \<le> mg_rateLimitCount g"
    using assms(5) by (simp add: window_ok_def split: option.splits)
  then show ?thesis by (simp add: usage_in_def same grant_terms_def)
qed

definition sample_used :: metered_db where
  "sample_used = snd (submitUsageEvent (\<lambda>s. ''h'') [(sample_ids, 5)] sample_actor (sample_usage ''x'') sample_metered)"

lemma sample_used_history: "metered_history (\<lambda>s. ''h'') sample_metered sample_used"
  unfolding sample_used_def by (rule history_step [OF metered_step.submit [OF prod.collapse [symmetric]]])

lemma sample_rate: "rate_inv sample_metered"
  by (simp add: rate_inv_def rate_ok_def window_ok_def usage_in_def sample_metered_def core_db.extend_def)

theorem metered_rate_limit_witness:
  "\<exists>g. grants sample_used = [g] \<and> total (\<lambda>e. ue_grantId e = mg_grantId g
      \<and> nextRateWindow (ue_acceptedAt e) (mg_rateLimitWindowSeconds g) = nextRateWindow 7 (mg_rateLimitWindowSeconds g))
    (\<lambda>_. 1) (events sample_used) \<le> mg_rateLimitCount g"
proof -
  have g: "grants sample_used = [sample_grant\<lparr>mg_reservedAtomic := 40\<rparr>]" by code_simp
  have "0 \<le> mg_rateLimitCount (sample_grant\<lparr>mg_reservedAtomic := 40\<rparr>)" by code_simp
  from metered_rate_limit [OF sample_used_history sample_metered_inv sample_rate _ this] g show ?thesis by simp
qed

subsection \<open>One event per external id\<close>

definition recorded :: "string \<Rightarrow> string \<Rightarrow> usage_event \<Rightarrow> 'a metered_db_scheme \<Rightarrow> bool" where
  "recorded appId externalId f d \<longleftrightarrow> (\<exists>e. find_event appId externalId d = Some e \<and> event_fixed e = f)"

lemma find_fixed:
  "map event_fixed es' = map event_fixed es \<Longrightarrow>
    map_option event_fixed (List.find (\<lambda>e. ue_appId e = a \<and> ue_externalId e = x) es')
      = map_option event_fixed (List.find (\<lambda>e. ue_appId e = a \<and> ue_externalId e = x) es)"
proof (induction es' arbitrary: es)
  case (Cons e' es')
  then obtain e es0 where es: "es = e # es0" "event_fixed e' = event_fixed e" "map event_fixed es' = map event_fixed es0" by auto
  have "ue_appId e' = ue_appId e" "ue_externalId e' = ue_externalId e" using es(2) event_fixed_simps by metis+
  with Cons.IH [OF es(3)] es show ?case by simp
qed simp

lemma quiet_recorded:
  assumes "quiet d d'" and "recorded a x f d"
  shows "recorded a x f d'"
  using find_fixed [of "events d'" "events d" a x] assms by (auto simp: quiet_def recorded_def find_event_def)

lemma accept_recorded: "metered_inv d \<Longrightarrow> accepts sha d d' \<Longrightarrow> recorded a x f d \<Longrightarrow> recorded a x f d'"
proof (erule accept_effect, assumption)
  assume "quiet d d'" "recorded a x f d"
  then show "recorded a x f d'" by (rule quiet_recorded)
qed (auto simp: recorded_def find_event_def find_append_old)

lemma grant_recorded: "createMeteredGrant grantId actor i now d = (r, d') \<Longrightarrow> recorded a x f d \<Longrightarrow> recorded a x f d'"
  by (erule create_grant_cases) (auto simp: recorded_def find_event_def)

lemma metered_step_recorded: "metered_step sha d d' \<Longrightarrow> metered_inv d \<Longrightarrow> recorded a x f d \<Longrightarrow> recorded a x f d'"
  by (erule metered_step_kinds) (auto intro: quiet_recorded accept_recorded grant_recorded)

lemma metered_history_recorded: "metered_history sha d0 d \<Longrightarrow> metered_inv d0 \<Longrightarrow> recorded a x f d0 \<Longrightarrow> recorded a x f d"
proof (induction rule: metered_history.induct)
  case (more d d')
  with metered_history_inv [OF more(1)] metered_step_recorded show ?case by blast
qed

definition usage_amount :: "usage_input \<Rightarrow> error + int" where
  "usage_amount i = bindE (exactMeteredAmount (ui_amountAtomic i) True) safeMeteredAtomicNumber"

lemma usage_amount_error: "usage_amount i \<noteq> Inl DuplicateKey"
  by (auto simp: usage_amount_def bindE_def exactMeteredAmount_def safeMeteredAtomicNumber_def parseAtomicAmount_def
      checkedAtomicValue_def split: sum.splits if_splits)

lemma usage_amount_Inr: "usage_amount i = Inr n \<Longrightarrow> exactMeteredAmount (ui_amountAtomic i) True = Inr n"
  by (auto simp: usage_amount_def safeMeteredAtomicNumber_def split: if_splits)

text \<open>What a successful acceptance leaves behind.\<close>

definition booked :: "(string \<Rightarrow> string) \<Rightarrow> metered_actor \<Rightarrow> usage_input \<Rightarrow> usage_event \<Rightarrow> 'a metered_db_scheme \<Rightarrow> bool" where
  "booked sha actor i e d \<longleftrightarrow> find_event (ma_appId actor) (trim (ui_externalId i)) d = Some e
     \<and> (\<exists>amount. usage_amount i = Inr amount \<and> ue_requestFingerprint e = usageRequestFingerprint sha actor i amount)"

lemma replay_Inr: "replayUsageEvent e f = Inr dto \<longleftrightarrow> ue_requestFingerprint e = f \<and> dto = toUsageEventDto e"
  by (auto simp: replayUsageEvent_def)

lemma accept_body_finds:
  assumes "accept_body sha ids actor i amount f now d = (Inr e, d')"
  shows "find_event (ma_appId actor) (trim (ui_externalId i)) d' = Some e"
  using assms
proof (cases rule: accept_body_Inr)
  case (accepted g s)
  from accepted(8) show ?thesis
  proof (rule accept_writes_Inr)
    fix cs k bs major as s'
    assume "e = new_event ids i amount f k now g" "d' = save_session s' (save_grant (g\<lparr>mg_reservedAtomic := mg_reservedAtomic g + amount\<rparr>)
              (d\<lparr>rate_counters := cs, batches := bs, events := events d @ [e], attempts := as\<rparr>))"
    with accepted(2,7) show ?thesis
      by (simp add: find_event_def find_append_new new_event_def is_actor_grant_def)
  qed
qed simp

lemma accept_once_Inr:
  assumes "acceptUsageEventOnce sha ids actor i now d = (Inr dto, d')"
  obtains e where "booked sha actor i e d'" and "dto = toUsageEventDto e"
proof (cases "usage_amount i")
  case (Inl e)
  with assms show thesis by (simp add: acceptUsageEventOnce_def usage_amount_def)
next
  case (Inr amount)
  define f where "f = usageRequestFingerprint sha actor i amount"
  note run = assms [unfolded acceptUsageEventOnce_def, folded usage_amount_def, unfolded Inr sum.case Let_def, folded f_def]
  show thesis
  proof (cases "find_event (ma_appId actor) (trim (ui_externalId i)) d")
    case (Some x)
    with run Inr that [of x] show thesis by (auto simp: booked_def replay_Inr f_def)
  next
    case None
    note run' = run [unfolded None option.case]
    obtain r1 d1 where t: "transaction (accept_body sha ids actor i amount f now) d = (r1, d1)" by fastforce
    from t show thesis
    proof (cases rule: transaction_cases)
      case (aborted e)
      with run' t show thesis by simp
    next
      case (committed e)
      from run' [unfolded t prod.case committed(1) sum.case] obtain w where
        "replayUsageEvent e f = Inr dto" "d' = writeAuditLog (ma_ownerWalletId actor) ''metered.usage.accepted'' ''usage_event'' w d1"
        by (auto split: sum.splits)
      with accept_body_finds [OF committed(2)] Inr that [of e] show thesis
        by (auto simp: booked_def replay_Inr f_def find_event_def)
    qed
  qed
qed

lemma submit_loop_Inr:
  "submit_loop sha tries actor i err d = (Inr dto, d') \<Longrightarrow> \<exists>e. booked sha actor i e d' \<and> dto = toUsageEventDto e"
proof (induction tries arbitrary: d err)
  case (Cons t tries)
  obtain ids now where t: "t = (ids, now)" by fastforce
  obtain r1 d1 where a: "acceptUsageEventOnce sha ids actor i now d = (r1, d1)" by fastforce
  show ?case
  proof (cases r1)
    case (Inr x)
    with Cons.prems t a have "x = dto" "d1 = d'" by simp_all
    with accept_once_Inr a Inr show ?thesis by metis
  next
    case (Inl e)
    with Cons.prems t a have dup: "e = DuplicateKey" by (cases e) auto
    have "\<exists>amount. usage_amount i = Inr amount"
    proof (cases "usage_amount i")
      case (Inl x)
      with a have "r1 = Inl x" by (auto simp: acceptUsageEventOnce_def usage_amount_def)
      with \<open>r1 = Inl e\<close> dup Inl usage_amount_error [of i] show ?thesis by simp
    qed blast
    then obtain amount where amount: "usage_amount i = Inr amount" by blast
    show ?thesis
    proof (cases "find_event (ma_appId actor) (trim (ui_externalId i)) d1")
      case None
      with Cons.prems t a Inl dup have "submit_loop sha tries actor i DuplicateKey d1 = (Inr dto, d')" by simp
      from Cons.IH [OF this] show ?thesis .
    next
      case (Some x)
      with Cons.prems t a Inl dup usage_amount_Inr [OF amount] have "replayUsageEvent x (usageRequestFingerprint sha actor i amount) = Inr dto" "d' = d1"
        by simp_all
      with Some amount show ?thesis by (auto simp: booked_def replay_Inr)
    qed
  qed
qed simp

lemma submit_known:
  assumes "find_event (ma_appId actor) (trim (ui_externalId i)) d = Some e" and "usage_amount i = Inr amount"
    and "ensureMeteredActorApp actor d = Inr ()" and "tries \<noteq> []"
  shows "submitUsageEvent sha tries actor i d = (replayUsageEvent e (usageRequestFingerprint sha actor i amount), d)"
proof -
  obtain ids now ts where t: "take MAX_TRANSACTION_RETRIES tries = (ids, now) # ts"
    using assms(4) by (cases tries) (auto simp: MAX_TRANSACTION_RETRIES_def numeral_eq_Suc)
  have "acceptUsageEventOnce sha ids actor i now d = (replayUsageEvent e (usageRequestFingerprint sha actor i amount), d)"
    using assms(1) by (simp add: acceptUsageEventOnce_def assms(2) flip: usage_amount_def)
  then show ?thesis
    using assms(3) by (auto simp: submitUsageEvent_def t replayUsageEvent_def)
qed

text \<open>
  A usage event is booked at most once. After a submission succeeded, at any later point
  the same request returns the same event and changes nothing, and a request that reuses the external
  id with another fingerprint (another amount, grant, type or policy) is refused and changes nothing.
\<close>

theorem usage_event_idempotent:
  assumes "submitUsageEvent sha tries actor i d = (Inr dto, d1)" and "metered_inv d" and "metered_history sha d1 d2"
    and "ensureMeteredActorApp actor d2 = Inr ()" and "later \<noteq> []"
  shows "(\<exists>dto'. submitUsageEvent sha later actor i d2 = (Inr dto', d2) \<and> ud_id dto' = ud_id dto
      \<and> ud_batchId dto' = ud_batchId dto \<and> ud_amountAtomic dto' = ud_amountAtomic dto)
    \<and> (\<forall>j a b. trim (ui_externalId j) = trim (ui_externalId i) \<and> usage_amount i = Inr a \<and> usage_amount j = Inr b
        \<and> usageRequestFingerprint sha actor j b \<noteq> usageRequestFingerprint sha actor i a \<longrightarrow>
      submitUsageEvent sha later actor j d2 = (Inl (ApiError 409 ''USAGE_EVENT_IDEMPOTENCY_CONFLICT''), d2))"
proof -
  have inv1: "metered_inv d1"
    by (rule submit_induct [where P = metered_inv, OF _ assms(2,1)]) (rule accept_once_inv)
  from assms(1) obtain e where e: "booked sha actor i e d1" "dto = toUsageEventDto e"
    using submit_loop_Inr by (fastforce simp: submitUsageEvent_def split: sum.splits)
  then obtain amount where amount: "usage_amount i = Inr amount" "ue_requestFingerprint e = usageRequestFingerprint sha actor i amount"
      "find_event (ma_appId actor) (trim (ui_externalId i)) d1 = Some e" by (auto simp: booked_def)
  then have "recorded (ma_appId actor) (trim (ui_externalId i)) (event_fixed e) d1" by (simp add: recorded_def)
  from metered_history_recorded [OF assms(3) inv1 this] obtain e' where
    e': "find_event (ma_appId actor) (trim (ui_externalId i)) d2 = Some e'" "event_fixed e' = event_fixed e" by (auto simp: recorded_def)
  have same: "ue_requestFingerprint e' = ue_requestFingerprint e" "ue_eventId e' = ue_eventId e" "ue_batchId e' = ue_batchId e"
      "ue_amountAtomic e' = ue_amountAtomic e" using e'(2) event_fixed_simps by metis+
  have "\<exists>dto'. submitUsageEvent sha later actor i d2 = (Inr dto', d2) \<and> ud_id dto' = ud_id dto
      \<and> ud_batchId dto' = ud_batchId dto \<and> ud_amountAtomic dto' = ud_amountAtomic dto"
    using submit_known [OF e'(1) amount(1) assms(4,5)] same amount(2) e(2)
    by (auto simp: replayUsageEvent_def toUsageEventDto_def)
  moreover have "submitUsageEvent sha later actor j d2 = (Inl (ApiError 409 ''USAGE_EVENT_IDEMPOTENCY_CONFLICT''), d2)"
    if "trim (ui_externalId j) = trim (ui_externalId i)" "usage_amount i = Inr a" "usage_amount j = Inr b"
      "usageRequestFingerprint sha actor j b \<noteq> usageRequestFingerprint sha actor i a" for j a b
    using that submit_known [of actor j d2 e' b, OF _ _ assms(4,5)] e'(1) amount same
    by (auto simp: replayUsageEvent_def)
  ultimately show ?thesis by blast
qed

lemma sample_usage_accepted: "\<exists>dto. submitUsageEvent (\<lambda>s. ''h'') [(sample_ids, 5)] sample_actor (sample_usage ''x'') sample_metered = (Inr dto, sample_used)
    \<and> ud_id dto = ''e''"
proof -
  have "case fst (submitUsageEvent (\<lambda>s. ''h'') [(sample_ids, 5)] sample_actor (sample_usage ''x'') sample_metered) of
      Inr dto \<Rightarrow> ud_id dto = ''e'' | _ \<Rightarrow> False" by code_simp
  then show ?thesis by (auto simp: sample_used_def prod_eq_iff split: sum.splits)
qed

theorem usage_event_idempotent_witness:
  "\<exists>dto'. submitUsageEvent (\<lambda>s. ''h'') [(sample_ids, 77)] sample_actor (sample_usage ''x'') sample_used = (Inr dto', sample_used)
    \<and> ud_id dto' = ''e''"
proof -
  obtain dto where dto: "submitUsageEvent (\<lambda>s. ''h'') [(sample_ids, 5)] sample_actor (sample_usage ''x'') sample_metered = (Inr dto, sample_used)"
    "ud_id dto = ''e''" using sample_usage_accepted by blast
  have "ensureMeteredActorApp sample_actor sample_used = Inr ()" by code_simp
  with usage_event_idempotent [OF dto(1) sample_metered_inv metered_history.start this, of "[(sample_ids, 77)]"] dto(2)
  show ?thesis by auto
qed

end
