(* ===== verification/Metered_Settlement.thy ===== *)
theory Metered_Settlement
  imports Metered_Limits Leases
begin

section \<open>Settlement, release and leases of metered batches\<close>

text \<open>
  The properties of the metered component that concern money: the accounts balance along every
  interleaving, a batch is settled once and for exactly its total, a released batch is never settled,
  a failing submission changes nothing, the worker's leases exclude each other, and what happens to a
  submitted batch whose execution failed.
\<close>

subsection \<open>The accounts\<close>

text \<open>
  Property C14: Along any interleaving of grants, submissions, revocations and worker statements: what
  a grant holds reserved is the sum of its unsettled events, what it spent is the sum of its settled
  events, the two never exceed its total limit, and every batch that is not finished is exactly the
  sum and the number of its events, within the limits of its grant.
\<close>

theorem metered_accounts_balance:
  assumes "metered_history sha d0 d" and "metered_inv d0"
  shows "(\<forall>g \<in> set (grants d). mg_reservedAtomic g = live_of (mg_grantId g) (events d)
      \<and> mg_spentAtomic g = settled_of (mg_grantId g) (events d)
      \<and> mg_spentAtomic g + mg_reservedAtomic g \<le> mg_totalLimitAtomic g)
    \<and> (\<forall>b \<in> set (batches d). \<not> terminal_batch (mb_status b) \<longrightarrow>
        mb_totalAtomic b = held_in (mb_batchId b) (events d) \<and> mb_eventCount b = count_in (mb_batchId b) (events d)
        \<and> (\<exists>g \<in> set (grants d). mg_grantId g = mb_grantId b \<and> mb_totalAtomic b \<le> mg_maxBatchAtomic g
            \<and> mb_eventCount b \<le> mg_maxBatchEvents g))"
proof -
  note ok = metered_history_inv [OF assms, unfolded metered_inv_def]
  have "mg_reservedAtomic g = live_of (mg_grantId g) (events d) \<and> mg_spentAtomic g = settled_of (mg_grantId g) (events d)
      \<and> mg_spentAtomic g + mg_reservedAtomic g \<le> mg_totalLimitAtomic g" if "g \<in> set (grants d)" for g
    using metered_okD(6) [OF ok that] unfolding grant_ok_def by blast
  moreover have "mb_totalAtomic b = held_in (mb_batchId b) (events d) \<and> mb_eventCount b = count_in (mb_batchId b) (events d)
      \<and> (\<exists>g \<in> set (grants d). mg_grantId g = mb_grantId b \<and> mb_totalAtomic b \<le> mg_maxBatchAtomic g
          \<and> mb_eventCount b \<le> mg_maxBatchEvents g)" if "b \<in> set (batches d)" "\<not> terminal_batch (mb_status b)" for b
    using metered_okD(7) [OF ok that(1)] that(2) by (auto simp: batch_ok_def batch_sums_def within_terms_def)
  ultimately show ?thesis by blast
qed

theorem metered_accounts_balance_witness:
  "\<exists>g. g \<in> set (grants sample_used) \<and> mg_reservedAtomic g = live_of ''g'' (events sample_used) \<and> live_of ''g'' (events sample_used) = 40"
proof -
  have "live_of ''g'' (events sample_used) = 40" by code_simp
  moreover have "case grants sample_used of [g] \<Rightarrow> mg_grantId g = ''g'' | _ \<Rightarrow> False" by code_simp
  then obtain g where "g \<in> set (grants sample_used)" "mg_grantId g = ''g''" by (auto split: list.splits)
  ultimately show ?thesis using metered_accounts_balance [OF sample_used_history sample_metered_inv] by auto
qed

subsection \<open>Settling\<close>

lemma find_update_hit: "List.find p xs = Some x \<Longrightarrow> p y \<Longrightarrow> List.find p (update_first p (\<lambda>_. y) xs) = Some y"
  by (induction xs) (auto split: if_splits)

lemma finalize_committed:
  assumes inv: "metered_inv d" and r: "finalizeMeteredBatch sha k result now d = (Inr u, d')"
    and b: "find_batch k d = Some b" "mb_status b \<noteq> B_succeeded"
  obtains g s g' s' where "find_grant (mb_grantId b) d = Some g" and "find_session (mb_sessionId b) d = Some s"
      and "held_in k (events d) = mb_totalAtomic b"
      and "settled_grant (mb_totalAtomic b) g = Inr g'" and "settled_session (mb_totalAtomic b) s = Inr s'"
      and "batches d' = update_first (\<lambda>y. mb_batchId y = k) (\<lambda>_. succeeded_batch now result b) (batches d)"
      and "grants d' = update_first (\<lambda>y. mg_grantId y = mg_grantId g) (\<lambda>_. g') (grants d)"
      and "sessions d' = update_first (\<lambda>y. ses_publicId y = ses_publicId s) (\<lambda>_. s') (sessions d)"
      and "events d' = update_all (in_batch k) (settled_event now result b) (events d)"
      and "\<And>e. e \<in> set (events d) \<Longrightarrow> in_batch k e \<Longrightarrow> find_receipt RC_usage_event (ue_eventId e) d' \<noteq> None"
  using r
proof (cases rule: finalize_cases)
  case (committed v d0)
  have receipts: "receipts d' = receipts d0"
  proof -
    have queue: "receipts (fold (\<lambda>i x. snd (queueReceiptNotifications sha now i x)) is x) = receipts x" for "is" and x :: "'a metered_db_scheme"
      by (induction "is" arbitrary: x) (simp_all add: queue_receipts)
    from r committed(2) show ?thesis
      by (auto simp: finalizeMeteredBatch_def transaction_def queue split: option.splits prod.splits)
  qed
  from metered_okD(3) [OF inv [unfolded metered_inv_def]] committed(2) show thesis
  proof (cases rule: finalize_effect)
    case skipped
    with b show thesis by blast
  next
    case (settled b' g s g' s' rs)
    with b have "b' = b" by simp
    note S = settled [unfolded this]
    have "find_receipt RC_usage_event (ue_eventId e) d' \<noteq> None" if "e \<in> set (events d)" "in_batch k e" for e
      using S(15) [OF that] receipts by (simp add: find_receipt_def)
    with that S committed(3) show thesis by (simp add: same_metered_def)
  qed
qed simp

definition sample_result :: execution_result where
  "sample_result = \<lparr>er_status = ER_succeeded, er_providerPaymentId = Some ''pay'', er_paymentHash = Some ''hash'',
     er_feeAtomic = Some ''3'', er_proofKind = Some ''payment_hash'', er_proofReference = Some ''ref'', er_failureCode = None\<rparr>"

lemma sample_batch:
  obtains b where "find_batch ''b'' sample_used = Some b" and "\<not> terminal_batch (mb_status b)"
    and "mb_grantId b = ''g''" and "mb_totalAtomic b = 40"
proof -
  have "case find_batch ''b'' sample_used of None \<Rightarrow> False
    | Some b \<Rightarrow> \<not> terminal_batch (mb_status b) \<and> mb_grantId b = ''g'' \<and> mb_totalAtomic b = 40" by code_simp
  with that show thesis by (auto split: option.splits)
qed

text \<open>
  Property C15: A settlement books a batch completely or not at all, and once. When
  \<open>finalizeMeteredBatch\<close> returns, exactly the total of the batch moved from reserved to spent on its
  grant and on its pass, every unsettled event of the batch is settled and has a receipt, no other
  event changed, the batch is final, and any further settlement of it, with whatever result, returns
  without changing anything.
\<close>

theorem batch_settled_once:
  assumes "metered_inv d" and "finalizeMeteredBatch sha k result now d = (Inr (), d')"
    and "find_batch k d = Some b" and "mb_status b \<noteq> B_succeeded"
  shows "\<exists>g s g' s'. find_grant (mb_grantId b) d = Some g \<and> find_session (mb_sessionId b) d = Some s
      \<and> find_grant (mb_grantId b) d' = Some g' \<and> find_session (mb_sessionId b) d' = Some s'
      \<and> mg_reservedAtomic g' = mg_reservedAtomic g - mb_totalAtomic b \<and> mg_spentAtomic g' = mg_spentAtomic g + mb_totalAtomic b
      \<and> sessionAtomic s' LF_reserved = sessionAtomic s LF_reserved - mb_totalAtomic b
      \<and> sessionAtomic s' LF_spent = sessionAtomic s LF_spent + mb_totalAtomic b
      \<and> (\<forall>e \<in> set (events d). if in_batch k e
           then settled_event now result b e \<in> set (events d') \<and> find_receipt RC_usage_event (ue_eventId e) d' \<noteq> None
           else e \<in> set (events d'))
      \<and> find_batch k d' = Some (succeeded_batch now result b)
      \<and> (\<forall>result2 now2. finalizeMeteredBatch sha k result2 now2 d' = (Inr (), d'))"
  using assms
proof (rule finalize_committed)
  fix g s g' s'
  assume e: "find_grant (mb_grantId b) d = Some g" "find_session (mb_sessionId b) d = Some s"
    "settled_grant (mb_totalAtomic b) g = Inr g'" "settled_session (mb_totalAtomic b) s = Inr s'"
    "batches d' = update_first (\<lambda>y. mb_batchId y = k) (\<lambda>_. succeeded_batch now result b) (batches d)"
    "grants d' = update_first (\<lambda>y. mg_grantId y = mg_grantId g) (\<lambda>_. g') (grants d)"
    "sessions d' = update_first (\<lambda>y. ses_publicId y = ses_publicId s) (\<lambda>_. s') (sessions d)"
    "events d' = update_all (in_batch k) (settled_event now result b) (events d)"
    "\<And>e. e \<in> set (events d) \<Longrightarrow> in_batch k e \<Longrightarrow> find_receipt RC_usage_event (ue_eventId e) d' \<noteq> None"
  note gp = settled_grant_Inr [OF e(3)] and sp = settled_session_Inr [OF e(4)]
  have ids: "mg_grantId g = mb_grantId b" "ses_publicId s = mb_sessionId b" "mb_batchId b = k"
    using find_grantD [OF e(1)] find_sessionD [OF e(2)] find_batchD [OF assms(3)] by auto
  have "find_grant (mb_grantId b) d' = Some g'"
    using find_update_hit [OF e(1) [unfolded find_grant_def], of g'] gp ids(1) by (simp add: find_grant_def e(6))
  moreover have "find_session (mb_sessionId b) d' = Some s'"
    using find_update_hit [OF e(2) [unfolded find_session_def], of s'] sp ids(2) by (simp add: find_session_def e(7))
  moreover have fin: "find_batch k d' = Some (succeeded_batch now result b)"
    using find_update_hit [OF assms(3) [unfolded find_batch_def], of "succeeded_batch now result b"] ids(3)
    by (simp add: find_batch_def e(5) succeeded_batch_def)
  moreover have "finalizeMeteredBatch sha k result2 now2 d' = (Inr (), d')" for result2 now2
  proof -
    have "finalize_batch_body sha k result2 now2 d' = (Inr None, d')" using fin by (simp add: finalize_batch_body_def succeeded_batch_def)
    then show ?thesis by (simp add: finalizeMeteredBatch_def transaction_def)
  qed
  moreover have "if in_batch k x then settled_event now result b x \<in> set (events d') \<and> find_receipt RC_usage_event (ue_eventId x) d' \<noteq> None
      else x \<in> set (events d')" if "x \<in> set (events d)" for x
    using that e(9) [of x] by (auto simp: e(8) set_update_all)
  ultimately show ?thesis using e(1,2) gp sp by blast
qed

theorem batch_settled_once_witness:
  "\<exists>d'. finalizeMeteredBatch (\<lambda>s. ''h'') ''b'' sample_result 2000 sample_used = (Inr (), d')
    \<and> (\<exists>g. find_grant ''g'' d' = Some g \<and> mg_reservedAtomic g = 0 \<and> mg_spentAtomic g = 40)
    \<and> finalizeMeteredBatch (\<lambda>s. ''h'') ''b'' sample_result 3000 d' = (Inr (), d')"
proof -
  define d' where "d' = snd (finalizeMeteredBatch (\<lambda>s. ''h'') ''b'' sample_result 2000 sample_used)"
  have inv: "metered_inv sample_used" by (rule metered_history_inv [OF sample_used_history sample_metered_inv])
  have "case fst (finalizeMeteredBatch (\<lambda>s. ''h'') ''b'' sample_result 2000 sample_used) of Inl _ \<Rightarrow> False | Inr _ \<Rightarrow> True" by code_simp
  then have run: "finalizeMeteredBatch (\<lambda>s. ''h'') ''b'' sample_result 2000 sample_used = (Inr (), d')"
    by (simp add: d'_def prod_eq_iff split: sum.splits)
  obtain b where b: "find_batch ''b'' sample_used = Some b" "\<not> terminal_batch (mb_status b)"
    "mb_grantId b = ''g''" "mb_totalAtomic b = 40" by (rule sample_batch)
  have g: "map_option mg_reservedAtomic (find_grant ''g'' sample_used) = Some 40"
    "map_option mg_spentAtomic (find_grant ''g'' sample_used) = Some 0" by code_simp+
  from b(2) have "mb_status b \<noteq> B_succeeded" by (auto simp: terminal_batch_def)
  from batch_settled_once [OF inv run b(1) this] obtain g g' where
    "find_grant (mb_grantId b) sample_used = Some g"
    "find_grant (mb_grantId b) d' = Some g'"
    "mg_reservedAtomic g' = mg_reservedAtomic g - mb_totalAtomic b"
    "mg_spentAtomic g' = mg_spentAtomic g + mb_totalAtomic b"
    "finalizeMeteredBatch (\<lambda>s. ''h'') ''b'' sample_result 3000 d' = (Inr (), d')" by blast
  with b(3-) g run show ?thesis by simp
qed

lemma closed_batch_found:
  assumes "release_batch_body k failureCode final now d = (Inr (), d')" and "find_batch k d = Some b"
    and "\<not> terminal_batch (mb_status b)"
  shows "find_batch k d' = Some (closed_batch now failureCode final b)"
  using assms(1)
proof (cases rule: release_batch_body_Inr)
  case (released b0 g s s')
  have "mb_batchId b = k" using find_batchD [OF assms(2)] by blast
  with released(1) assms(2) find_update_hit [OF assms(2) [unfolded find_batch_def], of "closed_batch now failureCode final b"]
  show ?thesis by (simp add: released(7) find_batch_def save_batch_def closed_batch_def)
qed (use assms(2,3) in simp)

lemma terminal_batch_stays:
  assumes "metered_inv d" and "find_batch k d = Some b" and "mb_status b \<in> {B_released, B_failed}"
  shows "held_in k (events d) = 0" and "releaseMeteredBatchReservation k c f t d = (Inr (), d)"
    and "\<exists>e. finalizeMeteredBatch sha k result t d = (Inl e, d)"
proof -
  note ok = assms(1) [unfolded metered_inv_def]
  have b: "b \<in> set (batches d)" "mb_batchId b = k" using find_batchD [OF assms(2)] by auto
  have closed: "terminal_batch (mb_status b)" "mb_status b \<noteq> B_succeeded" using assms(3) by (auto simp: terminal_batch_def)
  have "count_in k (events d) = 0" using metered_okD(7) [OF ok b(1)] closed(1) b(2) by (simp add: batch_ok_def batch_sums_def)
  then show none: "held_in k (events d) = 0" by (rule count_in_0)
  show "releaseMeteredBatchReservation k c f t d = (Inr (), d)"
    using assms(2) closed(1) by (simp add: releaseMeteredBatchReservation_def transaction_def release_batch_body_def)
  have "0 < mb_totalAtomic b" by (rule metered_okD(8) [OF ok b(1)])
  with assms(2) none closed(2) have "\<exists>e. finalize_batch_body sha k result t d = (Inl e, d)"
    by (simp add: finalize_batch_body_def Let_def sorted_batch_events(1))
  then show "\<exists>e. finalizeMeteredBatch sha k result t d = (Inl e, d)"
    by (auto simp: finalizeMeteredBatch_def transaction_def)
qed

text \<open>
  Releasing a batch gives back exactly its total on the grant and on the pass and leaves
  it without unsettled events; releasing it again changes nothing, and it can never be settled
  afterwards: \<open>finalizeMeteredBatch\<close> refuses it and changes nothing.
\<close>

theorem released_batch_is_final:
  assumes "metered_inv d" and "releaseMeteredBatchReservation k failureCode final now d = (Inr (), d')"
    and "find_batch k d = Some b" and "\<not> terminal_batch (mb_status b)" and "final \<in> {B_released, B_failed}"
  shows "\<exists>g s g' s'. find_grant (mb_grantId b) d = Some g \<and> find_session (mb_sessionId b) d = Some s
      \<and> find_grant (mb_grantId b) d' = Some g' \<and> find_session (mb_sessionId b) d' = Some s'
      \<and> mg_reservedAtomic g' = mg_reservedAtomic g - mb_totalAtomic b \<and> mg_spentAtomic g' = mg_spentAtomic g
      \<and> sessionAtomic s' LF_reserved = sessionAtomic s LF_reserved - mb_totalAtomic b
      \<and> held_in k (events d') = 0
      \<and> (\<forall>c f t. releaseMeteredBatchReservation k c f t d' = (Inr (), d'))
      \<and> (\<forall>result t. \<exists>e. finalizeMeteredBatch sha k result t d' = (Inl e, d'))"
proof -
  note ok = assms(1) [unfolded metered_inv_def]
  have body: "release_batch_body k failureCode final now d = (Inr (), d')"
    using assms(2) by (simp add: releaseMeteredBatchReservation_def transaction_eq_Inr)
  have inv': "metered_inv d'" by (rule release_batch_body_inv [OF assms(1) body assms(5)])
  have bk: "b \<in> set (batches d)" "mb_batchId b = k" using find_batchD [OF assms(3)] by auto
  have total: "held_in k (events d) = mb_totalAtomic b"
    using metered_okD(7) [OF ok bk(1)] assms(4) bk(2) by (simp add: batch_ok_def batch_sums_def)
  from body show ?thesis
  proof (cases rule: release_batch_body_Inr)
    case skipped
    with assms(3,4) show ?thesis by simp
  next
    case (released b0 g s s')
    with assms(3) have b0: "b0 = b" by simp
    note R = released [unfolded b0 total]
    have ids: "mg_grantId g = mb_grantId b" "ses_publicId s = mb_sessionId b"
      using find_grantD [OF R(3)] find_sessionD [OF R(4)] by auto
    have "find_grant (mb_grantId b) d' = Some (g\<lparr>mg_reservedAtomic := mg_reservedAtomic g - mb_totalAtomic b\<rparr>)"
      using find_update_hit [OF R(3) [unfolded find_grant_def], of "g\<lparr>mg_reservedAtomic := mg_reservedAtomic g - mb_totalAtomic b\<rparr>"] ids(1)
      by (simp add: R(7) find_grant_def save_grant_def)
    moreover have "find_session (mb_sessionId b) d' = Some s'"
      using find_update_hit [OF R(4) [unfolded find_session_def], of s'] ids(2) set_sessionAtomic(4) [OF R(6)]
      by (simp add: R(7) find_session_def save_session_def)
    moreover have "mb_status (closed_batch now failureCode final b) \<in> {B_released, B_failed}"
      using assms(5) by (simp add: closed_batch_def)
    note terminal_batch_stays [OF inv' closed_batch_found [OF body assms(3,4)] this]
    ultimately show ?thesis using R(3,4) set_sessionAtomic(1) [OF R(6)] by auto
  qed
qed

theorem released_batch_is_final_witness:
  "\<exists>d'. releaseMeteredBatchReservation ''b'' ''PROVIDER_FAILED'' B_failed 2000 sample_used = (Inr (), d')
    \<and> (\<exists>g. find_grant ''g'' d' = Some g \<and> mg_reservedAtomic g = 0)
    \<and> (\<exists>e. finalizeMeteredBatch (\<lambda>s. ''h'') ''b'' sample_result 3000 d' = (Inl e, d'))"
proof -
  define d' where "d' = snd (releaseMeteredBatchReservation ''b'' ''PROVIDER_FAILED'' B_failed 2000 sample_used)"
  have inv: "metered_inv sample_used" by (rule metered_history_inv [OF sample_used_history sample_metered_inv])
  have "case fst (releaseMeteredBatchReservation ''b'' ''PROVIDER_FAILED'' B_failed 2000 sample_used) of Inl _ \<Rightarrow> False | Inr _ \<Rightarrow> True"
    by code_simp
  then have run: "releaseMeteredBatchReservation ''b'' ''PROVIDER_FAILED'' B_failed 2000 sample_used = (Inr (), d')"
    by (simp add: d'_def prod_eq_iff split: sum.splits)
  obtain b where b: "find_batch ''b'' sample_used = Some b" "\<not> terminal_batch (mb_status b)"
    "mb_grantId b = ''g''" "mb_totalAtomic b = 40" by (rule sample_batch)
  have g: "map_option mg_reservedAtomic (find_grant ''g'' sample_used) = Some 40" by code_simp
  from released_batch_is_final [OF inv run b(1,2)] obtain g g' e where
    "find_grant (mb_grantId b) sample_used = Some g"
    "find_grant (mb_grantId b) d' = Some g'"
    "mg_reservedAtomic g' = mg_reservedAtomic g - mb_totalAtomic b"
    "finalizeMeteredBatch (\<lambda>s. ''h'') ''b'' sample_result 3000 d' = (Inl e, d')" by blast
  with b(3-) g run show ?thesis by simp
qed

end
