(* ===== verification/Metered_Runs.thy ===== *)
theory Metered_Runs
  imports Metered_Settlement
begin

section \<open>Leases, failures and runs of the metered worker\<close>

text \<open>
  What the lease of a claimed batch protects, what a run of the worker does and counts, what a failing
  submission leaves behind, and the fate of a submitted batch whose last execution attempt failed.
\<close>

subsection \<open>The batch lease\<close>

interpretation batch_lease: lease batch_claimable claimed_batch BATCH_LEASE_MS
  by unfold_locales (simp_all add: batch_claimable_def claimed_batch_def BATCH_LEASE_MS_def)

lemma no_holder:
  assumes "\<And>x. x \<in> set (batches d) \<Longrightarrow> \<not> holds_lease b x"
  shows "storePaymentRequest b resolved d = (Inr False, d)" and "markBatchSubmitted b pid t d = d"
    and "retryMeteredBatch b failureCode sent t d = d"
proof -
  have "List.find (holds_lease b) (batches d) = None" using assms by (simp add: find_None_iff)
  then show "storePaymentRequest b resolved d = (Inr False, d)" by (simp add: storePaymentRequest_def)
  have "update_first (holds_lease b) f (batches d) = batches d" for f
    using assms by (simp add: update_first_none find_None_iff)
  then show "markBatchSubmitted b pid t d = d" and "retryMeteredBatch b failureCode sent t d = d"
    by (simp_all add: markBatchSubmitted_def retryMeteredBatch_def update_batch_def)
qed

text \<open>Two successful claims of one batch document are a lease apart.\<close>

lemma batch_claims_spaced:
  "sorted (map fst cs) \<Longrightarrow> sorted_wrt (\<lambda>a c. fst a + BATCH_LEASE_MS \<le> fst c) (batch_lease.claims cs x)"
  by (rule batch_lease.claims_spaced)

text \<open>
  Property C21: a claimed batch belongs to its worker. Until its lease of one minute has run out no
  other worker can claim it, and a worker that still holds an older lease of the same batch can
  neither store a payment request for it, nor mark it submitted, nor put it back for a retry.
\<close>

theorem batch_lease_exclusive:
  assumes "metered_inv d" and "claimMeteredBatch now workerId uuid d = (Some b, d1)"
  shows "(\<forall>t w u b' d2. t < now + BATCH_LEASE_MS \<and> claimMeteredBatch t w u d1 = (Some b', d2) \<longrightarrow> mb_batchId b' \<noteq> mb_batchId b)
    \<and> (\<forall>old resolved pid failureCode sent t. mb_batchId old = mb_batchId b \<and> mb_leaseId old \<noteq> mb_leaseId b \<longrightarrow>
        storePaymentRequest old resolved d1 = (Inr False, d1) \<and> markBatchSubmitted old pid t d1 = d1
        \<and> retryMeteredBatch old failureCode sent t d1 = d1)"
  using assms(2)
proof (cases rule: claim_cases)
  case (claimed b0)
  have b: "b = claimed_batch now (workerId @ '':'' @ uuid) b0" using claimed(3) by simp
  have dist: "distinct (map mb_batchId (batches d1))"
    using claim_inv [OF assms] by (simp add: metered_inv_def metered_ok_def)
  have "b \<in> set (batches d1)"
    using replace_row [OF metered_okD(4) [OF assms(1) [unfolded metered_inv_def]] claimed(1), of b] 
    by (simp add: claimed(4) save_batch_def b claimed_batch_def)
  then have only: "x = b" if "x \<in> set (batches d1)" "mb_batchId x = mb_batchId b" for x
    using same_key [OF dist that(1)] that(2) by blast
  have "mb_batchId b' \<noteq> mb_batchId b" if "t < now + BATCH_LEASE_MS" "claimMeteredBatch t w u d1 = (Some b', d2)" for t w u b' d2
    using that(2)
  proof (cases rule: claim_cases)
    case (claimed y)
    have "\<not> batch_claimable t b" unfolding b by (rule batch_lease.taken [OF that(1)])
    with claimed only show ?thesis by (auto simp: claimed_batch_def)
  qed simp
  moreover have "storePaymentRequest old resolved d1 = (Inr False, d1) \<and> markBatchSubmitted old pid t d1 = d1
      \<and> retryMeteredBatch old failureCode sent t d1 = d1"
    if "mb_batchId old = mb_batchId b" "mb_leaseId old \<noteq> mb_leaseId b" for old resolved pid failureCode sent t
  proof -
    have "\<not> holds_lease old x" if "x \<in> set (batches d1)" for x
      using only [OF that] \<open>mb_batchId old = mb_batchId b\<close> \<open>mb_leaseId old \<noteq> mb_leaseId b\<close> by (auto simp: holds_lease_def)
    with no_holder [of d1 old] show ?thesis by simp
  qed
  ultimately show ?thesis by blast
qed simp

definition sample_claimed :: metered_db where
  "sample_claimed = snd (claimMeteredBatch 2000 ''w1'' ''u1'' sample_used)"

lemma sample_used_inv: "metered_inv sample_used"
  by (rule metered_history_inv [OF sample_used_history sample_metered_inv])

lemma sample_claim: "\<exists>b. claimMeteredBatch 2000 ''w1'' ''u1'' sample_used = (Some b, sample_claimed)
    \<and> mb_batchId b = ''b'' \<and> mb_leaseId b = Some ''w1:u1''"
proof -
  have "case fst (claimMeteredBatch 2000 ''w1'' ''u1'' sample_used) of None \<Rightarrow> False
    | Some b \<Rightarrow> mb_batchId b = ''b'' \<and> mb_leaseId b = Some ''w1:u1''" by code_simp
  then show ?thesis by (auto simp: sample_claimed_def prod_eq_iff split: option.splits)
qed

theorem batch_lease_exclusive_witness:
  "\<exists>b. claimMeteredBatch 2000 ''w1'' ''u1'' sample_used = (Some b, sample_claimed)
    \<and> retryMeteredBatch (b\<lparr>mb_leaseId := Some ''w0:u0''\<rparr>) ''TIMEOUT'' True 61999 sample_claimed = sample_claimed"
proof -
  obtain b where b: "claimMeteredBatch 2000 ''w1'' ''u1'' sample_used = (Some b, sample_claimed)" "mb_leaseId b = Some ''w1:u1''"
    using sample_claim by blast
  then have "mb_batchId (b\<lparr>mb_leaseId := Some ''w0:u0''\<rparr>) = mb_batchId b" "mb_leaseId (b\<lparr>mb_leaseId := Some ''w0:u0''\<rparr>) \<noteq> mb_leaseId b"
    by simp_all
  with batch_lease_exclusive [OF sample_used_inv b(1)] b(1) show ?thesis by blast
qed

subsection \<open>A submitted batch whose execution failed\<close>

text \<open>
  Property C18: a batch that was handed to the provider is given up like one that never was. When
  processing a submitted batch ends in an error that is not retryable, or in any error at its last
  attempt, its reservation is released and it is stored as failed; a payment the provider reports
  afterwards can no longer be booked.
\<close>

theorem submitted_batch_abandoned:
  assumes "metered_inv d" and "find_batch (mb_batchId b) d = Some x" and "mb_submittedAt x \<noteq> None"
    and "\<not> terminal_batch (mb_status x)"
    and "\<not> snd (publicFailure e) \<or> mb_maxAttempts b \<le> mb_attempts b"
    and "recover_batch b e clock d = (Inr outcome, d')"
  shows "outcome = O_released
    \<and> (\<exists>y. find_batch (mb_batchId b) d' = Some y \<and> mb_status y = B_failed \<and> mb_submittedAt y = mb_submittedAt x
        \<and> mb_providerPaymentId y = mb_providerPaymentId x)
    \<and> held_in (mb_batchId b) (events d') = 0
    \<and> (\<forall>result t. \<exists>e. finalizeMeteredBatch sha (mb_batchId b) result t d' = (Inl e, d'))"
proof -
  obtain failureCode retryable where pf: "publicFailure e = (failureCode, retryable)" by fastforce
  obtain r1 d1 where r1: "releaseMeteredBatchReservation (mb_batchId b) failureCode B_failed clock d = (r1, d1)" by fastforce
  have "chain (releaseMeteredBatchReservation (mb_batchId b) failureCode B_failed clock) (\<lambda>_ d'. (Inr O_released, d')) d = (Inr outcome, d')"
    using assms(5,6) pf by (auto simp: recover_batch_def Let_def split: if_splits)
  with r1 have out: "r1 = Inr ()" "outcome = O_released" "d' = d1" by (auto simp: chain_def split: sum.splits)
  with r1 have body: "release_batch_body (mb_batchId b) failureCode B_failed clock d = (Inr (), d')"
    by (simp add: releaseMeteredBatchReservation_def transaction_eq_Inr)
  have inv': "metered_inv d'" by (rule release_batch_body_inv [OF assms(1) body]) simp
  note found = closed_batch_found [OF body assms(2,4)]
  have "mb_status (closed_batch clock failureCode B_failed x) \<in> {B_released, B_failed}" by (simp add: closed_batch_def)
  from terminal_batch_stays(1,3) [OF inv' found this] found out(2) show ?thesis
    by (auto simp: closed_batch_def)
qed

definition sample_submitted :: metered_db where
  "sample_submitted = sample_used\<lparr>batches := map (\<lambda>b. b\<lparr>mb_status := B_processing, mb_accepting := False,
     mb_leaseId := Some ''w1:u1'', mb_leaseExpiresAt := Some 62000, mb_attempts := 5, mb_submittedAt := Some 2100,
     mb_providerPaymentId := Some ''pay''\<rparr>) (batches sample_used)\<rparr>"

theorem submitted_batch_abandoned_witness:
  "\<exists>b d'. recover_batch b (ApiError 504 ''PROVIDER_TIMEOUT'') 2200 sample_submitted = (Inr O_released, d')
    \<and> mb_batchId b = ''b'' \<and> (\<forall>result t. \<exists>e. finalizeMeteredBatch (\<lambda>s. ''h'') ''b'' result t d' = (Inl e, d'))"
proof -
  let ?e = "ApiError 504 ''PROVIDER_TIMEOUT''"
  have inv: "metered_inv sample_submitted" by code_simp
  have "case batches sample_submitted of [b] \<Rightarrow> mb_batchId b = ''b'' \<and> mb_submittedAt b = Some 2100
      \<and> \<not> terminal_batch (mb_status b) \<and> mb_maxAttempts b = 5 \<and> mb_attempts b = 5
      \<and> (case fst (recover_batch b ?e 2200 sample_submitted) of Inl _ \<Rightarrow> False | Inr _ \<Rightarrow> True) | _ \<Rightarrow> False" by code_simp
  then obtain b where b: "batches sample_submitted = [b]" "mb_batchId b = ''b''" "mb_submittedAt b = Some 2100"
    "\<not> terminal_batch (mb_status b)" "mb_maxAttempts b = 5" "mb_attempts b = 5"
    "case fst (recover_batch b ?e 2200 sample_submitted) of Inl _ \<Rightarrow> False | Inr _ \<Rightarrow> True"
    by (auto split: list.splits)
  then have x: "find_batch (mb_batchId b) sample_submitted = Some b" "mb_submittedAt b \<noteq> None"
    "\<not> snd (publicFailure ?e) \<or> mb_maxAttempts b \<le> mb_attempts b" by (simp_all add: find_batch_def)
  from b(7) obtain outcome d' where run: "recover_batch b ?e 2200 sample_submitted = (Inr outcome, d')"
    by (cases "recover_batch b ?e 2200 sample_submitted") (auto split: sum.splits)
  from submitted_batch_abandoned [OF inv x(1,2) b(4) x(3) run, of "\<lambda>s. ''h''", unfolded b(2)] run b(2) show ?thesis by blast
qed

subsection \<open>Submissions that fail\<close>

lemma accept_once_fail:
  assumes "acceptUsageEventOnce sha ids actor i now d = (Inl e, d')"
  shows "d' = d"
  using assms
proof (cases rule: accept_once_cases)
  case (committed amount x)
  then obtain d1 where "accept_body sha ids actor i amount (usageRequestFingerprint sha actor i amount) now d = (Inr x, d1)" by blast
  then have "ue_requestFingerprint x = usageRequestFingerprint sha actor i amount"
  proof (cases rule: accept_body_Inr)
    case (accepted g s)
    from accepted(8) show ?thesis by (rule accept_writes_Inr) (simp add: new_event_def)
  qed (use committed(4) in simp)
  with committed(6) show ?thesis by (simp add: replayUsageEvent_def)
qed

lemma submit_loop_fail: "submit_loop sha tries actor i err d = (Inl e, d') \<Longrightarrow> d' = d"
proof (induction tries arbitrary: d err)
  case (Cons t tries)
  obtain ids now where t: "t = (ids, now)" by fastforce
  obtain r1 d1 where a: "acceptUsageEventOnce sha ids actor i now d = (r1, d1)" by fastforce
  show ?case
  proof (cases r1)
    case (Inl x)
    with a have "d1 = d" by (simp add: accept_once_fail)
    with Cons t a Inl show ?thesis by (auto split: error.splits option.splits)
  qed (use Cons.prems t a in simp)
qed simp

text \<open>
  Property C22: a submission that fails leaves no trace, whatever the error and however many times
  the transaction was retried. In particular the expiry of a grant is reported but never stored: the
  grant stays active, although the code sets its status to \<open>expired\<close> before it throws.
\<close>

theorem failed_submission_keeps_state:
  "(\<forall>e d'. submitUsageEvent sha tries actor i d = (Inl e, d') \<longrightarrow> d' = d)
    \<and> (\<forall>g ids now amount. ensureMeteredActorApp actor d = Inr () \<and> usage_amount i = Inr amount
        \<and> find_event (ma_appId actor) (trim (ui_externalId i)) d = None
        \<and> List.find (is_actor_grant actor (ui_grantId i)) (grants d) = Some g \<and> mg_status g = GR_active
        \<and> tries \<noteq> [] \<and> hd tries = (ids, now) \<and> mg_expiresAt g \<le> now
      \<longrightarrow> submitUsageEvent sha tries actor i d = (Inl (ApiError 410 ''METERED_GRANT_EXPIRED''), d))"
proof -
  have "submitUsageEvent sha tries actor i d = (Inl e, d') \<longrightarrow> d' = d" for e d'
    by (auto simp: submitUsageEvent_def dest: submit_loop_fail split: sum.splits)
  moreover have "submitUsageEvent sha tries actor i d = (Inl (ApiError 410 ''METERED_GRANT_EXPIRED''), d)"
    if h: "ensureMeteredActorApp actor d = Inr ()" "usage_amount i = Inr amount"
      "find_event (ma_appId actor) (trim (ui_externalId i)) d = None"
      "List.find (is_actor_grant actor (ui_grantId i)) (grants d) = Some g" "mg_status g = GR_active"
      "tries \<noteq> []" "hd tries = (ids, now)" "mg_expiresAt g \<le> now" for g ids now amount
  proof -
    obtain ts where t: "take MAX_TRANSACTION_RETRIES tries = (ids, now) # ts"
      using h(6,7) by (cases tries) (auto simp: MAX_TRANSACTION_RETRIES_def numeral_eq_Suc)
    have "accept_body sha ids actor i amount f now d = (Inl (ApiError 410 ''METERED_GRANT_EXPIRED''), save_grant (g\<lparr>mg_status := GR_expired\<rparr>) d)" for f
      using h(3,4,5,8) by (simp add: accept_body_def is_actor_grant_def [abs_def])
    then have "acceptUsageEventOnce sha ids actor i now d = (Inl (ApiError 410 ''METERED_GRANT_EXPIRED''), d)"
      using h(2,3) by (simp add: acceptUsageEventOnce_def transaction_def Let_def flip: usage_amount_def)
    with h(1) show ?thesis by (simp add: submitUsageEvent_def t)
  qed
  ultimately show ?thesis by blast
qed

theorem failed_submission_keeps_state_witness:
  "submitUsageEvent (\<lambda>s. ''h'') [(sample_ids, 2000000)] sample_actor (sample_usage ''x'') sample_metered
    = (Inl (ApiError 410 ''METERED_GRANT_EXPIRED''), sample_metered)"
proof -
  have "ensureMeteredActorApp sample_actor sample_metered = Inr ()" "usage_amount (sample_usage ''x'') = Inr 40"
    "find_event (ma_appId sample_actor) (trim (ui_externalId (sample_usage ''x''))) sample_metered = None" by code_simp+
  moreover have "List.find (is_actor_grant sample_actor (ui_grantId (sample_usage ''x''))) (grants sample_metered) = Some sample_grant"
    "mg_status sample_grant = GR_active" "mg_expiresAt sample_grant \<le> 2000000"
    by (simp_all add: sample_metered_def core_db.extend_def is_actor_grant_def sample_grant_def sample_actor_def sample_usage_def)
  ultimately show ?thesis
    using failed_submission_keeps_state [of "\<lambda>s. ''h''" "[(sample_ids, 2000000)]" sample_actor "sample_usage ''x''" sample_metered]
    by simp
qed

subsection \<open>Runs of the worker\<close>

definition counted :: "worker_output \<Rightarrow> nat" where
  "counted w = wo_succeeded w + wo_pending w + wo_retried w + wo_released w + wo_skipped w"

lemma count_outcome_counts: "counted (count_outcome x w) = counted w + 1" "wo_claimed (count_outcome x w) = wo_claimed w"
  by (cases x; simp add: counted_def)+

lemma worker_loop_counts:
  "worker_loop sha executor now workerId ticks w d = (Inr w', d') \<Longrightarrow> counted w = wo_claimed w \<Longrightarrow>
    counted w' = wo_claimed w' \<and> wo_claimed w' \<le> wo_claimed w + length ticks
    \<and> (wo_claimed w' = wo_claimed w + length ticks \<or> (\<forall>b \<in> set (batches d'). \<not> batch_claimable now b))"
proof (induction ticks arbitrary: w d)
  case (Cons t ticks)
  obtain uuid clock where t: "t = (uuid, clock)" by fastforce
  obtain rb d1 where c: "claimMeteredBatch now workerId uuid d = (rb, d1)" by fastforce
  show ?case
  proof (cases rb)
    case None
    from c [unfolded None] have "d1 = d" "\<forall>b \<in> set (batches d). \<not> batch_claimable now b" by (auto elim: claim_cases)
    with Cons.prems t c None show ?thesis by simp
  next
    case (Some b)
    obtain r2 d2 where p: "process_batch sha executor b now clock d1 = (r2, d2)" by fastforce
    with Cons.prems t c Some obtain outcome where r2: "r2 = Inr outcome" by (cases r2) (simp_all add: chain_def)
    define w1 where "w1 = count_outcome outcome (w\<lparr>wo_claimed := wo_claimed w + 1\<rparr>)"
    from Cons.prems(1) t c Some p r2 have "worker_loop sha executor now workerId ticks w1 d2 = (Inr w', d')"
      by (simp add: chain_def w1_def)
    moreover have "counted w1 = wo_claimed w1" "wo_claimed w1 = wo_claimed w + 1"
      using Cons.prems(2) by (simp_all add: w1_def count_outcome_counts) (simp add: counted_def)
    ultimately show ?thesis using Cons.IH [of w1 d2] by simp
  qed
qed simp

text \<open>
  Property C20: a run of the worker ends after at most \<open>limit\<close> (clamped to 1..100) batches, is nothing
  but a sequence of the atomic statements the other properties speak of, however the executor and the
  resolver answer, counts every claimed batch under exactly one outcome, and only stops before the
  limit when no batch is due.
\<close>

theorem worker_run_accounted:
  assumes "runMeteredPaymentWorker sha executor limit workerId now tick d = (r, d')"
  shows "metered_history sha d d'
    \<and> (\<forall>w. r = Inr w \<longrightarrow>
        wo_claimed w = wo_succeeded w + wo_pending w + wo_retried w + wo_released w + wo_skipped w
        \<and> int (wo_claimed w) \<le> clamp 1 100 (opt_or limit 10)
        \<and> (int (wo_claimed w) < clamp 1 100 (opt_or limit 10) \<longrightarrow> (\<forall>b \<in> set (batches d'). \<not> batch_claimable now b)))"
proof (intro conjI allI impI)
  note run = assms [unfolded runMeteredPaymentWorker_def]
  show "metered_history sha d d'" by (rule worker_loop_history [OF run])
  fix w
  assume w: "r = Inr w"
  let ?n = "clamp 1 100 (opt_or limit 10)"
  have n: "0 \<le> ?n" by (auto simp: clamp_def)
  have c: "counted w = wo_claimed w" "wo_claimed w \<le> nat ?n"
    "wo_claimed w = nat ?n \<or> (\<forall>b \<in> set (batches d'). \<not> batch_claimable now b)"
    using worker_loop_counts [OF run [unfolded w]] by (simp_all add: counted_def)
  from c(1) show "wo_claimed w = wo_succeeded w + wo_pending w + wo_retried w + wo_released w + wo_skipped w"
    by (simp add: counted_def)
  from c(2) n show "int (wo_claimed w) \<le> ?n" by linarith
  assume "int (wo_claimed w) < ?n"
  with n have "wo_claimed w \<noteq> nat ?n" by linarith
  with c(3) show "\<forall>b \<in> set (batches d'). \<not> batch_claimable now b" by blast
qed

definition sample_executor :: batch_executor where
  "sample_executor = \<lparr>ex_execute = \<lambda>b r. (Some (Some ''pay''), Inr sample_result), ex_lookup = \<lambda>b. Inr None,
     ex_resolve = \<lambda>b x now. Inr \<lparr>rr_paymentRequest = ''req'', rr_paymentRequestHash = ''h'', rr_paymentHash = None\<rparr>\<rparr>"

theorem worker_run_accounted_witness:
  "metered_history (\<lambda>s. ''h'') sample_used
     (snd (runMeteredPaymentWorker (\<lambda>s. ''h'') sample_executor (Some 3) None 2000 (\<lambda>n. (''u'', 2100)) sample_used))"
  using worker_run_accounted [OF prod.collapse [symmetric]] by blast

subsection \<open>A grant as an escrow account\<close>

definition grant_reserve :: "int \<Rightarrow> metered_grant \<Rightarrow> metered_grant option" where
  "grant_reserve n g = (if n \<le> meteredGrantRemaining g then Some (g\<lparr>mg_reservedAtomic := mg_reservedAtomic g + n\<rparr>) else None)"

definition grant_settle :: "int \<Rightarrow> metered_grant \<Rightarrow> metered_grant option" where
  "grant_settle n g = (if n \<le> mg_reservedAtomic g then (case settled_grant n g of Inl _ \<Rightarrow> None | Inr g' \<Rightarrow> Some g') else None)"

definition grant_release :: "int \<Rightarrow> metered_grant \<Rightarrow> metered_grant option" where
  "grant_release n g = (if n \<le> mg_reservedAtomic g then Some (g\<lparr>mg_reservedAtomic := mg_reservedAtomic g - n\<rparr>) else None)"

interpretation grant_ledger: escrow mg_totalLimitAtomic mg_spentAtomic mg_reservedAtomic grant_reserve grant_settle grant_release
  by unfold_locales
    (auto simp: grant_reserve_def grant_settle_def grant_release_def meteredGrantRemaining_def
      dest: settled_grant_Inr split: if_splits sum.splits)

text \<open>Revocation changes only the status.\<close>

inductive grant_moves :: "metered_grant \<Rightarrow> metered_grant \<Rightarrow> bool" where
  same: "grant_moves g g"
| reserve: "grant_moves g g1 \<Longrightarrow> grant_reserve n g1 = Some g2 \<Longrightarrow> grant_moves g g2"
| settle: "grant_moves g g1 \<Longrightarrow> grant_settle n g1 = Some g2 \<Longrightarrow> grant_moves g g2"
| release: "grant_moves g g1 \<Longrightarrow> grant_release n g1 = Some g2 \<Longrightarrow> grant_moves g g2"
| revoke: "grant_moves g g1 \<Longrightarrow> grant_moves g (revoked_grant now g1)"

lemma grant_moves_trans: "grant_moves f g \<Longrightarrow> grant_moves e f \<Longrightarrow> grant_moves e g"
  by (induction rule: grant_moves.induct) (auto intro: grant_moves.intros)

lemma grant_moves_limit:
  "grant_moves g g' \<Longrightarrow> mg_totalLimitAtomic g' = mg_totalLimitAtomic g \<and> mg_grantId g' = mg_grantId g"
proof (induction rule: grant_moves.induct)
  case (settle g g1 n g2)
  from settle(2) have "\<exists>y. settled_grant n g1 = Inr y \<and> y = g2" by (auto simp: grant_settle_def split: if_splits sum.splits)
  with settle(3) show ?case using settled_grant_Inr by fastforce
qed (auto simp: grant_reserve_def grant_release_def revoked_grant_def split: if_splits)

definition grants_move :: "metered_grant list \<Rightarrow> metered_grant list \<Rightarrow> bool" where
  "grants_move gs gs' \<longleftrightarrow> (\<forall>g \<in> set gs. \<exists>g' \<in> set gs'. grant_moves g g')"

lemma grants_move_refl [simp]: "grants_move gs gs"
  by (auto simp: grants_move_def intro: grant_moves.same)

lemma grants_move_trans: "grants_move gs gs1 \<Longrightarrow> grants_move gs1 gs2 \<Longrightarrow> grants_move gs gs2"
  unfolding grants_move_def by (blast intro: grant_moves_trans)

lemma replace_moves:
  assumes "distinct (map mg_grantId gs)" and "g \<in> set gs" and "grant_moves g g'"
  shows "grants_move gs (update_first (\<lambda>y. mg_grantId y = mg_grantId g) (\<lambda>_. g') gs)"
  using replace_row(1) [OF assms(1,2), of g'] grant_moves_limit [OF assms(3)] assms(3)
  by (auto simp: grants_move_def intro: grant_moves.same)

lemma save_grant_moves:
  assumes "distinct (map mg_grantId (grants d))" and "g \<in> set (grants d)" and "grant_moves g g'"
  shows "grants_move (grants d) (grants (save_grant g' d))"
  using replace_moves [OF assms] grant_moves_limit [OF assms(3)] by (simp add: save_grant_def)

lemma revoke_row_moves: "grants_move gs (update_first p (revoked_grant now) gs)"
  by (induction gs) (auto simp: grants_move_def intro: grant_moves.same grant_moves.revoke)

lemma release_moves:
  assumes inv: "metered_inv d" and "releaseMeteredBatchReservation k c st now d = (r, d')"
  shows "grants_move (grants d) (grants d')"
  using assms(2) unfolding releaseMeteredBatchReservation_def
proof (cases rule: transaction_cases)
  case (committed v)
  from committed(2) show ?thesis
  proof (cases rule: release_batch_body_Inr)
    case (released b g s s')
    let ?g = "g\<lparr>mg_reservedAtomic := mg_reservedAtomic g - held_in k (events d)\<rparr>"
    have "g \<in> set (grants d)" using find_grantD [OF released(3)] by blast
    moreover have "grant_moves g ?g"
      by (rule grant_moves.release [OF grant_moves.same, where n = "held_in k (events d)"]) (use released(5) in \<open>simp add: grant_release_def\<close>)
    ultimately show ?thesis
      using save_grant_moves [OF metered_okD(2) [OF inv [unfolded metered_inv_def]]] by (simp add: released(7))
  qed simp
qed simp

lemma release_all_moves: "metered_inv d \<Longrightarrow> release_all now ks d = (r, d') \<Longrightarrow> grants_move (grants d) (grants d')"
proof (induction ks arbitrary: d)
  case (Cons k ks)
  obtain r1 d1 where r1: "releaseMeteredBatchReservation k ''METERED_GRANT_REVOKED'' B_released now d = (r1, d1)" by fastforce
  have inv1: "metered_inv d1" by (rule release_inv [OF Cons.prems(1) r1]) simp
  from release_moves [OF Cons.prems(1) r1] Cons.IH [OF inv1] Cons.prems(2) r1 show ?case
    by (cases r1) (auto simp: chain_def intro: grants_move_trans)
qed simp

lemma accept_moves:
  assumes inv: "metered_inv d" and "acceptUsageEventOnce sha ids actor i now d = (r, d')"
  shows "grants_move (grants d) (grants d')"
  using assms(2)
proof (cases rule: accept_once_cases)
  case (committed amount e)
  then obtain d1 where body: "accept_body sha ids actor i amount (usageRequestFingerprint sha actor i amount) now d = (Inr e, d1)"
    and d': "grants d' = grants d1" by (auto simp: writeAuditLog_def)
  from body show ?thesis unfolding d'
  proof (cases rule: accept_body_Inr)
    case (accepted g s)
    let ?g = "g\<lparr>mg_reservedAtomic := mg_reservedAtomic g + amount\<rparr>"
    have "grant_moves g ?g"
      by (rule grant_moves.reserve [OF grant_moves.same, where n = amount])
        (use accepted(5) in \<open>simp add: grant_admits_Inr grant_reserve_def\<close>)
    note m = replace_moves [OF metered_okD(2) [OF inv [unfolded metered_inv_def]] accepted(1) this]
    from accepted(8) show "grants_move (grants d) (grants d1)"
      by (rule accept_writes_Inr) (use m in \<open>simp add: save_grant_def\<close>)
  qed simp
qed simp

lemma revoke_moves:
  assumes inv: "metered_inv d" and "revokeMeteredGrant actor grantId now d = (r, d')"
  shows "grants_move (grants d) (grants d')"
  using assms(2)
proof (cases rule: revoke_cases)
  case (revoked gs d1 r1)
  have "metered_inv (d\<lparr>grants := gs\<rparr>)"
    using grant_edit_ok [OF inv [unfolded metered_inv_def], of "revoked_grant now"] revoked(1)
    by (simp add: metered_inv_def revoked_grant_def grant_terms_def)
  from release_all_moves [OF this revoked(2)] have "grants_move gs (grants d1)" by simp
  moreover have "grants_move (grants d) gs" unfolding revoked(1) by (rule revoke_row_moves)
  moreover have "grants d' = grants d1" using revoked(3) by (auto simp: writeAuditLog_def)
  ultimately show ?thesis using grants_move_trans by metis
qed simp

lemma finalize_moves:
  assumes inv: "metered_inv d" and "finalizeMeteredBatch sha k result now d = (r, d')"
  shows "grants_move (grants d) (grants d')"
  using assms(2)
proof (cases rule: finalize_cases)
  case (committed v d0)
  note ok = inv [unfolded metered_inv_def]
  from metered_okD(3) [OF ok] committed(2) have "grants_move (grants d) (grants d0)"
  proof (cases rule: finalize_effect)
    case (settled b g s g' s' rs)
    have g: "g \<in> set (grants d)" using find_grantD [OF settled(5)] by blast
    have "mb_totalAtomic b \<le> mg_reservedAtomic g"
      using settled(7) by (auto simp: settled_grant_def atomic_range_def)
    with settled(7) have "grant_settle (mb_totalAtomic b) g = Some g'" by (simp add: grant_settle_def)
    from replace_moves [OF metered_okD(2) [OF ok] g grant_moves.settle [OF grant_moves.same this]] show ?thesis
      by (simp add: settled(10))
  qed simp
  with committed(3) show ?thesis by (simp add: same_metered_def)
qed simp

text \<open>
  Property C19: the service implements the escrow account. Any step of a request or a worker moves
  every grant by escrow operations (reserve, settle, release, each with its guard) and revocations
  only; its total limit never changes, and spent plus reserved stays within it.
\<close>

theorem metered_refines_escrow:
  assumes "metered_step sha d d'" and "metered_inv d" and "g \<in> set (grants d)"
  shows "\<exists>g' \<in> set (grants d'). grant_moves g g' \<and> mg_grantId g' = mg_grantId g
    \<and> mg_totalLimitAtomic g' = mg_totalLimitAtomic g \<and> mg_spentAtomic g' + mg_reservedAtomic g' \<le> mg_totalLimitAtomic g"
proof -
  have "grants_move (grants d) (grants d')"
    using assms(1)
  proof cases
    case grant
    then show ?thesis
      by (rule create_grant_cases) (auto simp: writeAuditLog_def grants_move_def intro: grant_moves.same)
  next
    case (submit tries actor i ru)
    have "metered_inv d' \<and> grants_move (grants d) (grants d')"
      by (rule submit_induct [where P = "\<lambda>x. metered_inv x \<and> grants_move (grants d) (grants x)", OF _ _ submit])
        (use assms(2) in \<open>auto intro: accept_once_inv grants_move_trans accept_moves\<close>)
    then show ?thesis ..
  next
    case revoke
    with revoke_moves [OF assms(2)] show ?thesis by blast
  next
    case claim
    then show ?thesis by (rule claim_cases) simp_all
  next
    case store
    from store(1) show ?thesis by (rule store_cases) (simp_all add: update_batch_def)
  next
    case release
    with release_moves [OF assms(2)] show ?thesis by blast
  next
    case finalize
    with finalize_moves [OF assms(2)] show ?thesis by blast
  qed (simp_all add: markEventsSettling_def markBatchSubmitted_def retryMeteredBatch_def update_batch_def)
  with assms(3) obtain g' where g': "g' \<in> set (grants d')" "grant_moves g g'" unfolding grants_move_def by blast
  have "grant_ok (events d') g'"
    using metered_step_inv [OF assms(1,2)] g'(1) by (simp add: metered_inv_def metered_ok_def)
  with g' grant_moves_limit [OF g'(2)] show ?thesis by (auto simp: grant_ok_def)
qed

theorem metered_refines_escrow_witness:
  "\<exists>g' \<in> set (grants sample_used). grant_moves sample_grant g' \<and> mg_totalLimitAtomic g' = 90"
proof -
  have "metered_step (\<lambda>s. ''h'') sample_metered sample_used"
    unfolding sample_used_def by (rule metered_step.submit [OF prod.collapse [symmetric]])
  from metered_refines_escrow [OF this sample_metered_inv, of sample_grant] show ?thesis
    by (auto simp: sample_metered_def core_db.extend_def) (auto simp: sample_grant_def)
qed

end
