(* ===== verification/Ledger_Drift.thy ===== *)
theory Ledger_Drift
  imports Metered_Settlement
begin

section \<open>Two ledgers on one pass\<close>

text \<open>
  Direct charges keep the reservations of a pass in \<open>reservedMinor\<close> (\<open>$inc\<close>), metered usage in
  \<open>reservedAtomic\<close>, from which it rewrites \<open>reservedMinor\<close>. On a pass that has both fields the two
  services do not see each other's reservations.
\<close>

lemma session_update:
  assumes "find_and_update p f (sessions d) = Some (s1, ss)" and "find_session k d = Some s"
    and "\<And>x. p x \<Longrightarrow> ses_publicId x = k" and "distinct (map ses_publicId (sessions d))"
    and "\<And>x. ses_publicId (f x) = ses_publicId x"
  shows "List.find (\<lambda>x. ses_publicId x = k) ss = Some (f s)" and "map ses_publicId ss = map ses_publicId (sessions d)"
proof -
  from assms(1) obtain x where x: "List.find p (sessions d) = Some x" "ss = update_first p f (sessions d)"
    by (auto simp: find_and_update_def split: option.splits)
  from find_SomeD [OF x(1)] find_sessionD [OF assms(2)] assms(3) have "x = s"
    using same_key [OF assms(4)] by blast
  with find_update_find [OF assms(4) x(1), of k f k] assms(3,5) x(2)
  show "List.find (\<lambda>x. ses_publicId x = k) ss = Some (f s)" by simp
  show "map ses_publicId ss = map ses_publicId (sessions d)" using assms(5) by (simp add: x(2) map_update_first)
qed

text \<open>
  Property C17: a metered usage event drops the reservation of a direct charge. On a pass that keeps
  \<open>reservedAtomic\<close>, let a direct charge of \<open>n\<close> be reserved and then a usage event be accepted: the
  charge is still pending with its amount held, but both reservation counters of the pass are the old
  \<open>reservedAtomic\<close> plus the usage amount, as if the charge did not exist, and the usage event was
  admitted against the limit without it.
\<close>

theorem usage_drops_charge_reservation:
  assumes "metered_inv d" and "find_session (ri_sessionId i) d = Some s" and "ses_reservedAtomic s = Some r"
    and "reserveChargeAttempt now i d = (Inr (a, True), d1)"
    and "g \<in> set (grants d)" and "mg_grantId g = ui_grantId u" and "mg_sessionId g = ri_sessionId i"
    and "find_event (ma_appId actor) (trim (ui_externalId u)) d1 = None"
    and "acceptUsageEventOnce sha ids actor u t d1 = (Inr dto, d2)"
  shows "\<exists>s2 amount. find_session (ri_sessionId i) d2 = Some s2 \<and> usage_amount u = Inr amount
    \<and> a \<in> set (attempts d2) \<and> is_held a \<and> att_minor a = ri_amountMinor i
    \<and> ses_reservedOf s2 = r + amount \<and> sessionAtomic s2 LF_reserved = r + amount
    \<and> sessionAtomic s LF_spent + r + amount \<le> sessionAtomic s LF_limit"
proof -
  note ok = assms(1) [unfolded metered_inv_def]
  from assms(4) have body: "reserve_body now i d = (Inr (a, True), d1)"
    by (auto simp: reserveChargeAttempt_def transaction_def split: prod.splits sum.splits error.splits option.splits)
  then show ?thesis
  proof (cases rule: reserve_body_Inr)
    case (new assetId s0 ss c cs)
    note up = session_update [OF new(5) assms(2) _ metered_okD(1) [OF ok]]
    have s1: "find_session (ri_sessionId i) d1 = Some (inc_session_reserved (ri_amountMinor i) s)"
      and dist: "distinct (map ses_publicId (sessions d1))"
      using up metered_okD(1) [OF ok] by (auto simp: new(8) find_session_def reservable_session_iff inc_session_reserved_def)
    have grants: "grants d1 = grants d" and att: "a \<in> set (attempts d1)" by (simp_all add: new(8) upsert_counter_def Let_def)
    have held: "is_held a" "att_minor a = ri_amountMinor i" by (simp_all add: new(3) new_attempt_def is_held_def att_minor_def)
    from assms(9) show ?thesis
    proof (cases rule: accept_once_cases)
      case unchanged
      with assms(8) show ?thesis by simp
    next
      case (committed amount e)
      then obtain d3 where b: "accept_body sha ids actor u amount (usageRequestFingerprint sha actor u amount) t d1 = (Inr e, d3)"
        and d2: "sessions d2 = sessions d3" "attempts d2 = attempts d3" by (auto simp: writeAuditLog_def)
      have amount: "usage_amount u = Inr amount"
        using committed(1-3) by (simp add: usage_amount_def safeMeteredAtomicNumber_def isSafeInteger_def)
      from b show ?thesis
      proof (cases rule: accept_body_Inr)
        case replayed
        with assms(8) show ?thesis by simp
      next
        case (accepted g1 s1')
        have "g1 = g"
          using same_key [OF metered_okD(2) [OF ok] _ assms(5), of g1] accepted(1,2) assms(6) grants by (simp add: is_actor_grant_def)
        then have "s1' = inc_session_reserved (ri_amountMinor i) s"
          using same_key [OF dist session_admits_Inr(1) [OF accepted(6)]] find_sessionD [OF s1] session_admits_Inr(2) [OF accepted(6)] assms(7)
          by simp
        note s1' = this
        have atomic: "sessionAtomic s1' f = sessionAtomic s f" if "f \<noteq> LF_reserved" for f
          using that by (cases f) (simp_all add: s1' sessionAtomic_def inc_session_reserved_def split: option.splits)
        have reserved: "sessionAtomic s1' LF_reserved = r" using assms(3) by (simp add: s1' sessionAtomic_def inc_session_reserved_def)
        have fits: "sessionAtomic s LF_spent + r + amount \<le> sessionAtomic s LF_limit"
          using session_admits_Inr(5) [OF accepted(6)] atomic [of LF_spent] atomic [of LF_limit] reserved by simp
        from accepted(8) show ?thesis
        proof (rule accept_writes_Inr)
          fix ct k bs major as s2
          assume w: "setSessionAtomic s1' LF_reserved (sessionAtomic s1' LF_reserved + amount) = Inr s2"
            "as = attempts d1 @ [usage_attempt actor e major (ses_currency s1') t]"
            "d3 = save_session s2 (save_grant (g1\<lparr>mg_reservedAtomic := mg_reservedAtomic g1 + amount\<rparr>)
              (d1\<lparr>rate_counters := ct, batches := bs, events := events d1 @ [e], attempts := as\<rparr>))"
          note w1 = w(1) [unfolded reserved]
          have s2: "ses_publicId s2 = ses_publicId s1'" "sessionAtomic s2 LF_reserved = r + amount"
            using set_sessionAtomic(1,4) [OF w1] by simp_all
          have minor: "ses_reservedOf s2 = r + amount"
            using w1 by (auto simp: ses_reservedOf_def safeMeteredAtomicNumber_def split: if_splits)
          have "ses_publicId s1' = ri_sessionId i" using find_sessionD [OF s1] by (simp add: s1')
          with s2(1) find_update_hit [OF s1 [unfolded find_session_def], of s2] have "find_session (ri_sessionId i) d2 = Some s2"
            by (simp add: find_session_def d2) (simp add: w(3) save_session_def save_grant_def)
          moreover have "a \<in> set (attempts d2)" using att by (simp add: d2 w(2,3)) 
          ultimately show ?thesis using amount held s2 minor fits by blast
        qed
      qed
    qed
  qed simp
qed

definition sample_charge :: reserve_input where
  "sample_charge = sample_reserve\<lparr>ri_amountMinor := 70, ri_dailyLimitMinor := 1000\<rparr>"

definition sample_charged :: metered_db where
  "sample_charged = snd (reserveChargeAttempt 1 sample_charge sample_metered)"

definition sample_drifted :: metered_db where
  "sample_drifted = snd (acceptUsageEventOnce (\<lambda>s. ''h'') sample_ids sample_actor (sample_usage ''x'') 5 sample_charged)"

text \<open>On a pass with a limit of 100, a charge of 70 and a usage event of 40 are held together.\<close>

theorem usage_drops_charge_reservation_witness:
  "\<exists>a s2. a \<in> set (attempts sample_drifted) \<and> is_held a \<and> att_minor a = 70
    \<and> find_session ''pass'' sample_drifted = Some s2 \<and> ses_reservedOf s2 = 40"
proof -
  have "case fst (reserveChargeAttempt 1 sample_charge sample_metered) of Inl _ \<Rightarrow> False | Inr x \<Rightarrow> snd x" by code_simp
  then obtain a where a: "reserveChargeAttempt 1 sample_charge sample_metered = (Inr (a, True), sample_charged)"
    by (auto simp: sample_charged_def prod_eq_iff split: sum.splits)
  have "case fst (acceptUsageEventOnce (\<lambda>s. ''h'') sample_ids sample_actor (sample_usage ''x'') 5 sample_charged) of
    Inl _ \<Rightarrow> False | Inr _ \<Rightarrow> True" by code_simp
  then obtain dto where dto: "acceptUsageEventOnce (\<lambda>s. ''h'') sample_ids sample_actor (sample_usage ''x'') 5 sample_charged
      = (Inr dto, sample_drifted)"
    by (auto simp: sample_drifted_def prod_eq_iff split: sum.splits)
  have s: "find_session (ri_sessionId sample_charge) sample_metered = Some sample_pass" "ses_reservedAtomic sample_pass = Some 0"
    and g: "sample_grant \<in> set (grants sample_metered)" "mg_grantId sample_grant = ui_grantId (sample_usage ''x'')"
      "mg_sessionId sample_grant = ri_sessionId sample_charge" and k: "ri_sessionId sample_charge = ''pass''" "ri_amountMinor sample_charge = 70"
    by (simp_all add: find_session_def sample_metered_def core_db.extend_def empty_db_def sample_charge_def sample_reserve_def
        sample_pass_def sample_session_def sample_grant_def sample_usage_def)
  have e: "find_event (ma_appId sample_actor) (trim (ui_externalId (sample_usage ''x''))) sample_charged = None" by code_simp
  have u: "usage_amount (sample_usage ''x'') = Inr 40" by code_simp
  from usage_drops_charge_reservation [OF sample_metered_inv s a g e dto] u k show ?thesis by auto
qed

end
