(* ===== verification/Schedules.thy ===== *)
theory Schedules
  imports Metered
begin

section \<open>Payment schedules (domain/schedule.ts, models/schedule.model.ts, services/paymentSchedule.service.ts)\<close>

text \<open>
  A schedule pays a fixed amount from a pass to a recipient at calendar times. Each due time is one
  occurrence document; the worker claims it under a lease, reserves its amount on the pass, resolves a
  fresh payment request, executes it and books the result. This theory holds the domain rules, the
  documents, and the operations of the API and of the bookkeeping; the worker follows in
  Schedule_Worker.
\<close>

subsection \<open>Calendar\<close>

datatype schedule_cadence = CD_once | CD_daily | CD_weekly | CD_monthly | CD_custom
datatype schedule_status = SS_active | SS_paused | SS_completed | SS_revoked | SS_depleted | SS_expired
datatype occurrence_status =
  OS_resolving | OS_executing | OS_uncertain | OS_retrying | OS_succeeded | OS_failed | OS_blocked
datatype reservation_state = RV_none | RV_reserved | RV_released | RV_spent

definition cadence_text :: "schedule_cadence \<Rightarrow> string" where
  "cadence_text c = (case c of CD_once \<Rightarrow> ''once'' | CD_daily \<Rightarrow> ''daily'' | CD_weekly \<Rightarrow> ''weekly''
     | CD_monthly \<Rightarrow> ''monthly'' | CD_custom \<Rightarrow> ''custom'')"

definition schedule_status_text :: "schedule_status \<Rightarrow> string" where
  "schedule_status_text s = (case s of SS_active \<Rightarrow> ''active'' | SS_paused \<Rightarrow> ''paused'' | SS_completed \<Rightarrow> ''completed''
     | SS_revoked \<Rightarrow> ''revoked'' | SS_depleted \<Rightarrow> ''depleted'' | SS_expired \<Rightarrow> ''expired'')"

definition occurrence_status_text :: "occurrence_status \<Rightarrow> string" where
  "occurrence_status_text s = (case s of OS_resolving \<Rightarrow> ''resolving'' | OS_executing \<Rightarrow> ''executing''
     | OS_uncertain \<Rightarrow> ''uncertain'' | OS_retrying \<Rightarrow> ''retrying'' | OS_succeeded \<Rightarrow> ''succeeded''
     | OS_failed \<Rightarrow> ''failed'' | OS_blocked \<Rightarrow> ''blocked'')"

text \<open>
  Time zones come from the Temporal polyfill: whether an identifier is known, the local date and time
  of an instant, and the instant of a local date and time under the \<open>compatible\<close> disambiguation.
  \<open>lt_ms\<close> is the time of day in milliseconds.
\<close>

record local_time =
  lt_year :: int
  lt_month :: int
  lt_day :: int
  lt_ms :: int

record time_zones =
  tz_valid :: "string \<Rightarrow> bool"
  tz_local :: "string \<Rightarrow> int \<Rightarrow> local_time"
  tz_instant :: "string \<Rightarrow> local_time \<Rightarrow> int"

text \<open>The day number of a date of the proleptic Gregorian calendar (\<open>PlainDateTime.add({ days })\<close>).\<close>

definition day_of_civil :: "int \<Rightarrow> int \<Rightarrow> int \<Rightarrow> int" where
  "day_of_civil y m d =
     (let y' = (if m \<le> 2 then y - 1 else y); era = y' div 400; yoe = y' mod 400;
          doy = (153 * ((m + 9) mod 12) + 2) div 5 + d - 1
      in era * 146097 + (yoe * 365 + yoe div 4 - yoe div 100 + doy) - 719468)"

definition add_days :: "int \<Rightarrow> local_time \<Rightarrow> local_time" where
  "add_days n l = (case civil_of_day (day_of_civil (lt_year l) (lt_month l) (lt_day l) + n) of
     (y, m, d) \<Rightarrow> l\<lparr>lt_year := y, lt_month := m, lt_day := d\<rparr>)"

definition leap_year :: "int \<Rightarrow> bool" where
  "leap_year y \<longleftrightarrow> y mod 4 = 0 \<and> (y mod 100 \<noteq> 0 \<or> y mod 400 = 0)"

definition days_in_month :: "int \<Rightarrow> int \<Rightarrow> int" where
  "days_in_month y m = (if m = 2 then if leap_year y then 29 else 28 else if m \<in> {4, 6, 9, 11} then 30 else 31)"

definition next_month :: "int \<Rightarrow> local_time \<Rightarrow> local_time" where
  "next_month anchorDay l =
     (let y = (if lt_month l = 12 then lt_year l + 1 else lt_year l); m = (if lt_month l = 12 then 1 else lt_month l + 1)
      in l\<lparr>lt_year := y, lt_month := m, lt_day := min anchorDay (days_in_month y m)\<rparr>)"

definition assertTimeZone :: "time_zones \<Rightarrow> string \<Rightarrow> error + string" where
  "assertTimeZone zones timeZone =
     (if tz_valid zones (trim timeZone) then Inr (trim timeZone)
      else Inl (PlainError ''Schedule time zone must be a valid IANA time-zone identifier.''))"

record calendar_schedule =
  cal_cadence :: schedule_cadence
  cal_timeZone :: string
  cal_anchorDay :: "int option"
  cal_customIntervalSeconds :: "int option"

definition nextOccurrenceAfter :: "time_zones \<Rightarrow> int \<Rightarrow> calendar_schedule \<Rightarrow> error + int option" where
  "nextOccurrenceAfter zones current schedule =
     (case cal_cadence schedule of
        CD_once \<Rightarrow> Inr None
      | CD_custom \<Rightarrow>
          (case cal_customIntervalSeconds schedule of
             None \<Rightarrow> Inl (PlainError ''Custom schedule interval must be between 1 second and 365 days.'')
           | Some interval \<Rightarrow>
               if interval < 1 \<or> interval > 31536000
               then Inl (PlainError ''Custom schedule interval must be between 1 second and 365 days.'')
               else Inr (Some (current + interval * 1000)))
      | cadence \<Rightarrow>
          bindE (assertTimeZone zones (cal_timeZone schedule)) (\<lambda>timeZone.
            let l = tz_local zones timeZone current in
            (case cadence of
               CD_monthly \<Rightarrow>
                 let anchorDay = opt_or (cal_anchorDay schedule) (lt_day l) in
                 if anchorDay < 1 \<or> anchorDay > 31
                 then Inl (PlainError ''Monthly schedule anchor day must be between 1 and 31.'')
                 else Inr (Some (tz_instant zones timeZone (next_month anchorDay l)))
             | CD_weekly \<Rightarrow> Inr (Some (tz_instant zones timeZone (add_days 7 l)))
             | _ \<Rightarrow> Inr (Some (tz_instant zones timeZone (add_days 1 l))))))"

definition occurrenceLocalDay :: "time_zones \<Rightarrow> int \<Rightarrow> string \<Rightarrow> error + int" where
  "occurrenceLocalDay zones occurrence timeZone =
     bindE (assertTimeZone zones timeZone) (\<lambda>tz. Inr (lt_day (tz_local zones tz occurrence)))"

definition stableOccurrenceId :: "(string \<Rightarrow> string) \<Rightarrow> string \<Rightarrow> int \<Rightarrow> error + string" where
  "stableOccurrenceId sha scheduleId dueAt =
     (if trim scheduleId = [] then Inl (PlainError ''Occurrence identity requires a schedule and valid due time.'')
      else Inr (''occ_'' @ sha (scheduleId @ ''|'' @ toISOString dueAt)))"

definition paymentRequestHash :: "(string \<Rightarrow> string) \<Rightarrow> string \<Rightarrow> error + string" where
  "paymentRequestHash sha paymentRequest =
     (if trim paymentRequest = [] then Inl (PlainError ''Payment request cannot be empty.'')
      else Inr (sha (trim paymentRequest)))"

subsection \<open>Documents\<close>

type_synonym schedule_executor = metered_executor

record payment_schedule =
  sch_scheduleId :: string
  sch_sessionId :: string
  sch_ownerWalletId :: string
  sch_idempotencyKey :: string
  sch_requestFingerprint :: string
  sch_recipientId :: string
  sch_destinationId :: string
  sch_rail :: payment_rail
  sch_network :: string
  sch_assetId :: string
  sch_amountAtomic :: int
  sch_maxFeeAtomic :: int
  sch_spentAtomic :: int
  sch_executor :: schedule_executor
  sch_connectionId :: "string option"
  sch_cadence :: schedule_cadence
  sch_timeZone :: string
  sch_anchorDay :: "int option"
  sch_customIntervalSeconds :: "int option"
  sch_status :: schedule_status
  sch_nextOccurrenceAt :: int
  sch_lastOccurrenceAt :: "int option"
  sch_occurrenceLimit :: "int option"
  sch_occurrenceCount :: int
  sch_completedAt :: "int option"
  sch_pausedAt :: "int option"
  sch_revokedAt :: "int option"
  sch_failureCode :: "string option"
  sch_createdAt :: int

record scheduled_occurrence =
  occ_occurrenceId :: string
  occ_scheduleId :: string
  occ_sessionId :: string
  occ_ownerWalletId :: string
  occ_recipientId :: string
  occ_destinationId :: string
  occ_dueAt :: int
  occ_rail :: payment_rail
  occ_network :: string
  occ_assetId :: string
  occ_amountAtomic :: int
  occ_status :: occurrence_status
  occ_reservationState :: reservation_state
  occ_reservedAt :: "int option"
  occ_paymentRequestHash :: "string option"
  occ_paymentHash :: "string option"
  occ_requestExpiresAt :: "int option"
  occ_executorPaymentId :: "string option"
  occ_proofKind :: "string option"
  occ_proofReference :: "string option"
  occ_executionLeaseId :: "string option"
  occ_executionLeaseExpiresAt :: "int option"
  occ_retryCount :: int
  occ_nextAttemptAt :: "int option"
  occ_resolvedAt :: "int option"
  occ_submittedAt :: "int option"
  occ_reconciledAt :: "int option"
  occ_completedAt :: "int option"
  occ_failureCode :: "string option"

record recipient_identity =
  rid_recipientId :: string
  rid_ownerWalletId :: string
  rid_sessionId :: "string option"

record schedule_db = metered_db +
  schedules :: "payment_schedule list"
  occurrences :: "scheduled_occurrence list"
  recipients :: "recipient_identity list"

interpretation schedules: table schedules "\<lambda>xs d. d\<lparr>schedules := xs\<rparr>" sch_scheduleId
  by unfold_locales simp_all

interpretation occurrences: table occurrences "\<lambda>xs d. d\<lparr>occurrences := xs\<rparr>" occ_occurrenceId
  by unfold_locales simp_all

definition find_schedule :: "string \<Rightarrow> 'a schedule_db_scheme \<Rightarrow> payment_schedule option" where
  "find_schedule i d = List.find (\<lambda>s. sch_scheduleId s = i) (schedules d)"

definition find_occurrence :: "string \<Rightarrow> 'a schedule_db_scheme \<Rightarrow> scheduled_occurrence option" where
  "find_occurrence i d = List.find (\<lambda>x. occ_occurrenceId x = i) (occurrences d)"

definition save_schedule :: "payment_schedule \<Rightarrow> 'a schedule_db_scheme \<Rightarrow> 'a schedule_db_scheme" where
  "save_schedule x d = d\<lparr>schedules := update_first (\<lambda>y. sch_scheduleId y = sch_scheduleId x) (\<lambda>_. x) (schedules d)\<rparr>"

definition save_occurrence :: "scheduled_occurrence \<Rightarrow> 'a schedule_db_scheme \<Rightarrow> 'a schedule_db_scheme" where
  "save_occurrence x d =
     d\<lparr>occurrences := update_first (\<lambda>y. occ_occurrenceId y = occ_occurrenceId x) (\<lambda>_. x) (occurrences d)\<rparr>"

definition update_schedule ::
  "(payment_schedule \<Rightarrow> bool) \<Rightarrow> (payment_schedule \<Rightarrow> payment_schedule) \<Rightarrow> 'a schedule_db_scheme \<Rightarrow> 'a schedule_db_scheme" where
  "update_schedule p f d = d\<lparr>schedules := update_first p f (schedules d)\<rparr>"

definition update_occurrence ::
  "(scheduled_occurrence \<Rightarrow> bool) \<Rightarrow> (scheduled_occurrence \<Rightarrow> scheduled_occurrence) \<Rightarrow> 'a schedule_db_scheme
    \<Rightarrow> 'a schedule_db_scheme" where
  "update_occurrence p f d = d\<lparr>occurrences := update_first p f (occurrences d)\<rparr>"

text \<open>The unique indexes of the two collections.\<close>

definition schedule_clash :: "payment_schedule \<Rightarrow> payment_schedule \<Rightarrow> bool" where
  "schedule_clash s x \<longleftrightarrow> sch_scheduleId x = sch_scheduleId s
     \<or> (sch_ownerWalletId x = sch_ownerWalletId s \<and> sch_sessionId x = sch_sessionId s
        \<and> sch_idempotencyKey x = sch_idempotencyKey s)"

definition occurrence_clash :: "scheduled_occurrence \<Rightarrow> scheduled_occurrence \<Rightarrow> bool" where
  "occurrence_clash a x \<longleftrightarrow> occ_occurrenceId x = occ_occurrenceId a
     \<or> (occ_scheduleId x = occ_scheduleId a \<and> occ_dueAt x = occ_dueAt a)"

subsection \<open>What the API returns\<close>

record schedule_dto =
  sd_id :: string
  sd_sessionId :: string
  sd_recipientId :: string
  sd_destinationId :: string
  sd_rail :: string
  sd_network :: string
  sd_assetId :: string
  sd_amountAtomic :: string
  sd_maxFeeAtomic :: string
  sd_spentAtomic :: string
  sd_executor :: string
  sd_connectionId :: "string option"
  sd_cadence :: string
  sd_timeZone :: string
  sd_anchorDay :: "int option"
  sd_customIntervalSeconds :: "int option"
  sd_status :: string
  sd_nextOccurrenceAt :: string
  sd_lastOccurrenceAt :: "string option"
  sd_occurrenceLimit :: "int option"
  sd_occurrenceCount :: int
  sd_failure :: "string option"
  sd_createdAt :: string

definition scheduleDto :: "payment_schedule \<Rightarrow> schedule_dto" where
  "scheduleDto s =
     \<lparr>sd_id = sch_scheduleId s, sd_sessionId = sch_sessionId s, sd_recipientId = sch_recipientId s,
      sd_destinationId = sch_destinationId s, sd_rail = rail_text (sch_rail s), sd_network = sch_network s,
      sd_assetId = sch_assetId s, sd_amountAtomic = atomic_text (sch_amountAtomic s),
      sd_maxFeeAtomic = atomic_text (sch_maxFeeAtomic s), sd_spentAtomic = atomic_text (sch_spentAtomic s),
      sd_executor = executor_text (sch_executor s), sd_connectionId = sch_connectionId s,
      sd_cadence = cadence_text (sch_cadence s), sd_timeZone = sch_timeZone s, sd_anchorDay = sch_anchorDay s,
      sd_customIntervalSeconds = sch_customIntervalSeconds s, sd_status = schedule_status_text (sch_status s),
      sd_nextOccurrenceAt = toISOString (sch_nextOccurrenceAt s),
      sd_lastOccurrenceAt = map_option toISOString (sch_lastOccurrenceAt s),
      sd_occurrenceLimit = sch_occurrenceLimit s, sd_occurrenceCount = sch_occurrenceCount s,
      sd_failure = nonempty (sch_failureCode s), sd_createdAt = toISOString (sch_createdAt s)\<rparr>"

record occurrence_dto =
  od_id :: string
  od_scheduleId :: string
  od_dueAt :: string
  od_status :: string
  od_amountAtomic :: string
  od_paymentRequestHash :: "string option"
  od_paymentHash :: "string option"
  od_executorPaymentId :: "string option"
  od_proof :: "(string \<times> string) option"
  od_failure :: "string option"
  od_completedAt :: "string option"

definition occurrenceDto :: "scheduled_occurrence \<Rightarrow> occurrence_dto" where
  "occurrenceDto x =
     \<lparr>od_id = occ_occurrenceId x, od_scheduleId = occ_scheduleId x, od_dueAt = toISOString (occ_dueAt x),
      od_status = occurrence_status_text (occ_status x), od_amountAtomic = atomic_text (occ_amountAtomic x),
      od_paymentRequestHash = occ_paymentRequestHash x, od_paymentHash = occ_paymentHash x,
      od_executorPaymentId = occ_executorPaymentId x,
      od_proof = (case (nonempty (occ_proofKind x), nonempty (occ_proofReference x)) of
        (Some k, Some r) \<Rightarrow> Some (k, r) | _ \<Rightarrow> None),
      od_failure = nonempty (occ_failureCode x), od_completedAt = map_option toISOString (occ_completedAt x)\<rparr>"

definition session_known :: "string \<Rightarrow> string \<Rightarrow> 'a schedule_db_scheme \<Rightarrow> session option" where
  "session_known sessionId ownerWalletId d =
     List.find (\<lambda>s. ses_publicId s = sessionId \<and> ses_ownerWalletId s = ownerWalletId) (sessions d)"

definition listPaymentSchedules ::
  "string \<Rightarrow> string \<Rightarrow> 'a schedule_db_scheme \<Rightarrow> error + schedule_dto list \<times> occurrence_dto list" where
  "listPaymentSchedules sessionId ownerWalletId d =
     (if session_known sessionId ownerWalletId d = None then Inl (ApiError 404 ''SESSION_NOT_FOUND'')
      else
        let ss = sort_by (\<lambda>a b. sch_createdAt a \<le> sch_createdAt b)
              (filter (\<lambda>s. sch_sessionId s = sessionId \<and> sch_ownerWalletId s = ownerWalletId) (schedules d));
            os = (if ss = [] then [] else take 100 (sort_by (\<lambda>a b. occ_dueAt b \<le> occ_dueAt a)
              (filter (\<lambda>x. occ_scheduleId x \<in> set (map sch_scheduleId ss)) (occurrences d))))
        in Inr (map scheduleDto ss, map occurrenceDto os))"

subsection \<open>Creating\<close>

record schedule_input =
  si_destinationId :: string
  si_rail :: payment_rail
  si_network :: string
  si_assetId :: string
  si_amountAtomic :: string
  si_maxFeeAtomic :: "string option"
  si_executor :: schedule_executor
  si_connectionId :: "string option"
  si_cadence :: schedule_cadence
  si_timeZone :: string
  si_firstOccurrenceAt :: "int option"
  si_customIntervalSeconds :: "int option"
  si_occurrenceLimit :: "int option"
  si_idempotencyKey :: string

text \<open>
  The exact ledger of a pass: the canonical amount where it is stored, the legacy one otherwise.
\<close>

record pass_money =
  pm_limit :: int
  pm_spent :: int
  pm_reserved :: int

definition legacy_atomic :: "int \<Rightarrow> error + int" where
  "legacy_atomic n = bindE (legacyMinorToAtomicAmount n) parseAtomicAmount"

definition sessionAtomicFields :: "session \<Rightarrow> error + pass_money" where
  "sessionAtomicFields s =
     bindE (case ses_limitAtomic s of Some v \<Rightarrow> Inr v
       | None \<Rightarrow> bindE (fallbackMinorUnits (ses_limitMinor s) (Some (ses_limit s)) (ses_currency s)) legacy_atomic) (\<lambda>limit.
     bindE (case ses_spentAtomic s of Some v \<Rightarrow> Inr v
       | None \<Rightarrow> bindE (fallbackMinorUnits (ses_spentMinor s) (Some (ses_spent s)) (ses_currency s)) legacy_atomic) (\<lambda>spent.
     bindE (case ses_reservedAtomic s of Some v \<Rightarrow> Inr v | None \<Rightarrow> legacy_atomic (opt_or (ses_reservedMinor s) 0)) (\<lambda>reserved.
     Inr \<lparr>pm_limit = limit, pm_spent = spent, pm_reserved = reserved\<rparr>)))"

definition scope_covers_pass :: "scope_type \<Rightarrow> string \<Rightarrow> string \<Rightarrow> string \<Rightarrow> bool" where
  "scope_covers_pass scopeType scopeId ownerWalletId sessionId \<longleftrightarrow>
     (scopeType = SC_wallet \<and> scopeId = ownerWalletId) \<or> (scopeType = SC_pass \<and> scopeId = sessionId)"

definition validateExecutor ::
  "schedule_input \<Rightarrow> int \<Rightarrow> string \<Rightarrow> string \<Rightarrow> 'a schedule_db_scheme \<Rightarrow> error + unit" where
  "validateExecutor i amount ownerWalletId sessionId d =
     (if si_rail i = R_lightning \<and> si_executor i = ME_nwc then
        (case List.find (\<lambda>c. Some (nwc_connectionId c) = si_connectionId i \<and> nwc_ownerWalletId c = ownerWalletId
                 \<and> nwc_status c = CN_active) (nwc_connections d) of
           None \<Rightarrow> Inl (ApiError 404 ''NWC_CONNECTION_NOT_FOUND'')
         | Some c \<Rightarrow>
             if nwc_network c \<noteq> si_network i \<or> \<not> scope_covers_pass (nwc_scopeType c) (nwc_scopeId c) ownerWalletId sessionId
             then Inl (ApiError 404 ''NWC_CONNECTION_NOT_FOUND'')
             else if nwc_executionMode c \<noteq> EM_unattended \<or> \<not> nwc_allowanceEnforced c \<or> ''pay_invoice'' \<notin> set (nwc_methods c)
               \<or> ''lookup_invoice'' \<notin> set (nwc_methods c)
             then Inl (ApiError 409 ''NWC_UNATTENDED_POLICY_REQUIRED'')
             else if nwc_allowanceAtomic c - nwc_allowanceUsedAtomic c < amount
             then Inl (ApiError 409 ''NWC_ALLOWANCE_INSUFFICIENT'')
             else Inr ())
      else if si_rail i = R_lightning \<and> si_executor i = ME_btcpay then
        (case List.find (\<lambda>c. Some (btc_connectionId c) = si_connectionId i \<and> btc_ownerWalletId c = ownerWalletId
                 \<and> btc_status c = CN_active) (btcpay_connections d) of
           None \<Rightarrow> Inl (ApiError 404 ''BTCPAY_CONNECTION_NOT_FOUND'')
         | Some c \<Rightarrow>
             if btc_network c \<noteq> si_network i \<or> \<not> scope_covers_pass (btc_scopeType c) (btc_scopeId c) ownerWalletId sessionId
             then Inl (ApiError 404 ''BTCPAY_CONNECTION_NOT_FOUND'')
             else Inr ())
      else if si_rail i = R_fiber \<and> si_executor i = ME_fiber \<and> nonempty (si_connectionId i) = None then Inr ()
      else Inl (ApiError 400 ''SCHEDULE_EXECUTOR_MISMATCH''))"

text \<open>\<open>JSON.stringify\<close> leaves members that are \<open>undefined\<close> out.\<close>

definition opt_member :: "string \<Rightarrow> json option \<Rightarrow> (string \<times> json) list" where
  "opt_member k v = (case v of None \<Rightarrow> [] | Some j \<Rightarrow> [(k, j)])"

definition effective_limit :: "schedule_input \<Rightarrow> int option" where
  "effective_limit i = (if si_cadence i = CD_once then Some 1 else si_occurrenceLimit i)"

definition scheduleFingerprint :: "(string \<Rightarrow> string) \<Rightarrow> schedule_input \<Rightarrow> int \<Rightarrow> int \<Rightarrow> string \<Rightarrow> int \<Rightarrow> string" where
  "scheduleFingerprint sha i amount maxFee timeZone firstAt =
     sha (stringify (JObj
       ([(''destinationId'', JStr (si_destinationId i)), (''rail'', JStr (rail_text (si_rail i))),
         (''network'', JStr (si_network i)), (''assetId'', JStr (si_assetId i)),
         (''amountAtomic'', JStr (atomic_text amount)), (''maxFeeAtomic'', JStr (atomic_text maxFee)),
         (''executor'', JStr (executor_text (si_executor i)))]
        @ opt_member ''connectionId'' (map_option JStr (si_connectionId i))
        @ [(''cadence'', JStr (cadence_text (si_cadence i))), (''timeZone'', JStr timeZone),
           (''firstOccurrenceAt'', JStr (toISOString firstAt))]
        @ opt_member ''customIntervalSeconds'' (map_option JNum (si_customIntervalSeconds i))
        @ opt_member ''occurrenceLimit'' (map_option JNum (effective_limit i)))))"

definition schedule_amounts :: "time_zones \<Rightarrow> schedule_input \<Rightarrow> error + int \<times> int \<times> string \<times> int" where
  "schedule_amounts zones i =
     bindE (bindE (asAtomicAmount (si_amountAtomic i)) parseAtomicAmount) (\<lambda>amount.
     bindE (bindE (asAtomicAmount (opt_or (si_maxFeeAtomic i) ''0'')) parseAtomicAmount) (\<lambda>maxFee.
     bindE (require (\<not> amount \<le> 0) (ApiError 400 ''SCHEDULE_AMOUNT_INVALID'')) (\<lambda>_.
     bindE (assertTimeZone zones (si_timeZone i)) (\<lambda>timeZone.
     bindE (case si_firstOccurrenceAt i of None \<Rightarrow> Inl (ApiError 400 ''SCHEDULE_START_INVALID'') | Some t \<Rightarrow> Inr t) (\<lambda>firstAt.
     bindE (require (\<not> (si_cadence i = CD_custom \<and> \<not> (case si_customIntervalSeconds i of
              None \<Rightarrow> False | Some n \<Rightarrow> isSafeInteger n \<and> \<not> n < 1))) (ApiError 400 ''SCHEDULE_INTERVAL_INVALID'')) (\<lambda>_.
     bindE (require (\<not> (si_cadence i \<noteq> CD_custom \<and> si_customIntervalSeconds i \<noteq> None))
              (ApiError 400 ''SCHEDULE_INTERVAL_UNEXPECTED'')) (\<lambda>_.
     bindE (require (\<not> (si_cadence i = CD_once \<and> si_occurrenceLimit i \<noteq> None \<and> si_occurrenceLimit i \<noteq> Some 1))
              (ApiError 400 ''SCHEDULE_OCCURRENCE_LIMIT_INVALID'')) (\<lambda>_.
     Inr (amount, maxFee, timeZone, firstAt)))))))))"

definition schedule_checks ::
  "schedule_input \<Rightarrow> int \<Rightarrow> int \<Rightarrow> int \<Rightarrow> string \<Rightarrow> string \<Rightarrow> 'a schedule_db_scheme \<Rightarrow> error + payment_destination" where
  "schedule_checks i amount maxFee firstAt sessionId ownerWalletId d =
     bindE (case session_known sessionId ownerWalletId d of
              None \<Rightarrow> Inl (ApiError 404 ''SESSION_NOT_FOUND'') | Some s \<Rightarrow> Inr s) (\<lambda>s.
     bindE (require (ses_status s = S_active) (ApiError 409 ''SESSION_INACTIVE'')) (\<lambda>_.
     bindE (require (\<not> (si_rail i = R_lightning
              \<and> (ses_fundingMode s \<noteq> Some M_connected_wallet \<or> ses_fundingExecutionReady s \<noteq> Some True)))
              (ApiError 409 ''SCHEDULE_CONNECTED_WALLET_REQUIRED'')) (\<lambda>_.
     bindE (require (\<not> (si_executor i \<noteq> ME_btcpay \<and> maxFee > 0)) (ApiError 400 ''SCHEDULE_FEE_CAP_UNSUPPORTED'')) (\<lambda>_.
     bindE (require (\<not> (case ses_expiryAt s of None \<Rightarrow> False | Some t \<Rightarrow> t \<le> firstAt))
              (ApiError 400 ''SCHEDULE_AFTER_PASS_EXPIRY'')) (\<lambda>_.
     bindE (case List.find (\<lambda>x. dst_destinationId x = si_destinationId i \<and> dst_ownerWalletId x = ownerWalletId
                  \<and> dst_status x = DS_active) (destinations d) of
              None \<Rightarrow> Inl (ApiError 404 ''REUSABLE_DESTINATION_NOT_FOUND'')
            | Some x \<Rightarrow> if dst_reusable x then Inr x else Inl (ApiError 404 ''REUSABLE_DESTINATION_NOT_FOUND'')) (\<lambda>x.
     bindE (require (list_ex (\<lambda>r. rid_recipientId r = dst_recipientId x \<and> rid_ownerWalletId r = ownerWalletId
                  \<and> rid_sessionId r = Some sessionId) (recipients d)) (ApiError 400 ''SCHEDULE_RECIPIENT_MISMATCH'')) (\<lambda>_.
     bindE (require (\<not> (dst_rail x \<noteq> si_rail i \<or> toLowerCase (dst_network x) \<noteq> toLowerCase (si_network i)
                  \<or> dst_assetId x \<noteq> si_assetId i)) (ApiError 400 ''SCHEDULE_DESTINATION_MISMATCH'')) (\<lambda>_.
     bindE (case ses_assetId s of Some a \<Rightarrow> Inr a | None \<Rightarrow> assetIdForLegacyCurrency (ses_currency s)) (\<lambda>sessionAsset.
     bindE (require (sessionAsset = si_assetId i) (ApiError 400 ''SCHEDULE_ASSET_MISMATCH'')) (\<lambda>_.
     bindE (sessionAtomicFields s) (\<lambda>money.
     bindE (require (\<not> amount > pm_limit money - pm_spent money - pm_reserved money)
              (ApiError 409 ''SCHEDULE_PASS_DEPLETED'')) (\<lambda>_.
     bindE (validateExecutor i amount ownerWalletId sessionId d) (\<lambda>_. Inr x)))))))))))))"

definition new_schedule ::
  "string \<Rightarrow> string \<Rightarrow> schedule_input \<Rightarrow> int \<Rightarrow> int \<Rightarrow> string \<Rightarrow> int \<Rightarrow> int option \<Rightarrow> string \<Rightarrow> string \<Rightarrow> payment_destination
    \<Rightarrow> int \<Rightarrow> payment_schedule" where
  "new_schedule scheduleId fingerprint i amount maxFee timeZone firstAt anchorDay sessionId ownerWalletId x now =
     \<lparr>sch_scheduleId = scheduleId, sch_sessionId = sessionId, sch_ownerWalletId = ownerWalletId,
      sch_idempotencyKey = si_idempotencyKey i, sch_requestFingerprint = fingerprint,
      sch_recipientId = dst_recipientId x, sch_destinationId = dst_destinationId x, sch_rail = si_rail i,
      sch_network = si_network i, sch_assetId = si_assetId i, sch_amountAtomic = amount,
      sch_maxFeeAtomic = maxFee, sch_spentAtomic = 0, sch_executor = si_executor i,
      sch_connectionId = si_connectionId i, sch_cadence = si_cadence i, sch_timeZone = timeZone,
      sch_anchorDay = anchorDay, sch_customIntervalSeconds = si_customIntervalSeconds i, sch_status = SS_active,
      sch_nextOccurrenceAt = firstAt, sch_lastOccurrenceAt = None, sch_occurrenceLimit = effective_limit i,
      sch_occurrenceCount = 0, sch_completedAt = None, sch_pausedAt = None, sch_revokedAt = None,
      sch_failureCode = None, sch_createdAt = now\<rparr>"

text \<open>What the schema checks when a schedule is created.\<close>

definition schedule_schema_ok :: "payment_schedule \<Rightarrow> bool" where
  "schedule_schema_ok s \<longleftrightarrow> trim (sch_idempotencyKey s) \<noteq> []
     \<and> (case sch_customIntervalSeconds s of None \<Rightarrow> True | Some n \<Rightarrow> 1 \<le> n \<and> n \<le> 31536000)
     \<and> (case sch_occurrenceLimit s of None \<Rightarrow> True | Some n \<Rightarrow> 1 \<le> n \<and> n \<le> 1000000)"

definition find_replay :: "string \<Rightarrow> string \<Rightarrow> string \<Rightarrow> 'a schedule_db_scheme \<Rightarrow> payment_schedule option" where
  "find_replay ownerWalletId sessionId key d =
     List.find (\<lambda>s. sch_ownerWalletId s = ownerWalletId \<and> sch_sessionId s = sessionId \<and> sch_idempotencyKey s = key) (schedules d)"

definition replay_schedule :: "payment_schedule \<Rightarrow> string \<Rightarrow> error + schedule_dto" where
  "replay_schedule s fingerprint =
     (if sch_requestFingerprint s \<noteq> fingerprint then Inl (ApiError 409 ''SCHEDULE_IDEMPOTENCY_CONFLICT'')
      else Inr (scheduleDto s))"

text \<open>The document to create: the checks against the stored pass, destination and connection come first.\<close>

definition planned_schedule ::
  "time_zones \<Rightarrow> string \<Rightarrow> string \<Rightarrow> string \<Rightarrow> schedule_input \<Rightarrow> string \<Rightarrow> int \<Rightarrow> int \<Rightarrow> int \<Rightarrow> string \<Rightarrow> int
    \<Rightarrow> 'a schedule_db_scheme \<Rightarrow> error + payment_schedule" where
  "planned_schedule zones scheduleId fingerprint sessionId i ownerWalletId now amount maxFee timeZone firstAt d =
     bindE (schedule_checks i amount maxFee firstAt sessionId ownerWalletId d) (\<lambda>x.
     bindE (if si_cadence i = CD_monthly then bindE (occurrenceLocalDay zones firstAt timeZone) (\<lambda>n. Inr (Some n))
            else Inr None) (\<lambda>anchorDay.
       let s = new_schedule scheduleId fingerprint i amount maxFee timeZone firstAt anchorDay sessionId ownerWalletId x now
       in bindE (require (schedule_schema_ok s) (ModelError ''ValidationError'')) (\<lambda>_. Inr s)))"

text \<open>\<open>scheduleId\<close> is the fresh \<open>'sch_' + randomUUID()\<close>.\<close>

definition createPaymentSchedule ::
  "(string \<Rightarrow> string) \<Rightarrow> time_zones \<Rightarrow> string \<Rightarrow> string \<Rightarrow> schedule_input \<Rightarrow> string \<Rightarrow> int
    \<Rightarrow> ('a schedule_db_scheme, schedule_dto) op" where
  "createPaymentSchedule sha zones scheduleId sessionId i ownerWalletId now d =
     (case schedule_amounts zones i of
        Inl e \<Rightarrow> (Inl e, d)
      | Inr (amount, maxFee, timeZone, firstAt) \<Rightarrow>
         let fingerprint = scheduleFingerprint sha i amount maxFee timeZone firstAt in
         (case find_replay ownerWalletId sessionId (si_idempotencyKey i) d of
            Some replay \<Rightarrow> (replay_schedule replay fingerprint, d)
          | None \<Rightarrow>
             (case planned_schedule zones scheduleId fingerprint sessionId i ownerWalletId now amount maxFee timeZone firstAt d of
                Inl e \<Rightarrow> (Inl e, d)
              | Inr s \<Rightarrow>
                 (case insert_row (schedule_clash s) s (schedules d) of
                    None \<Rightarrow>
                      (case find_replay ownerWalletId sessionId (si_idempotencyKey i) d of
                         None \<Rightarrow> (Inl (ApiError 409 ''SCHEDULE_IDEMPOTENCY_CONFLICT''), d)
                       | Some raced \<Rightarrow> (replay_schedule raced fingerprint, d))
                  | Some ss \<Rightarrow>
                      (Inr (scheduleDto s),
                       writeAuditLog ownerWalletId ''schedule.created'' ''payment_schedule'' scheduleId (d\<lparr>schedules := ss\<rparr>))))))"

end
