(* ===== verification/Schedule_Books.thy ===== *)
theory Schedule_Books
  imports Schedules Leases
begin

section \<open>The books of a schedule (services/paymentSchedule.service.ts, lines 545 to 898)\<close>

text \<open>
  The statements and transactions by which the owner and the worker change schedules, occurrences and
  the pass: pause, resume and revoke; reserving an occurrence on the pass and giving the reservation
  back; claiming under a lease; retry and block; and the transaction that books a paid occurrence.
\<close>

definition OCCURRENCE_LEASE_MS :: int where
  "OCCURRENCE_LEASE_MS = 90000"

definition RETRY_BASE_MS :: int where
  "RETRY_BASE_MS = 30000"

subsection \<open>The pass\<close>

text \<open>
  \<open>setAtomicCompatibility\<close> writes the canonical amount, and the legacy number only where it is safe.
\<close>

fun write_atomic :: "session \<Rightarrow> ledger_field \<Rightarrow> int \<Rightarrow> session" where
  "write_atomic s LF_limit v = s\<lparr>ses_limitAtomic := Some v\<rparr>"
| "write_atomic s LF_spent v = s\<lparr>ses_spentAtomic := Some v\<rparr>"
| "write_atomic s LF_reserved v = s\<lparr>ses_reservedAtomic := Some v\<rparr>"

fun write_minor :: "session \<Rightarrow> ledger_field \<Rightarrow> int \<Rightarrow> session" where
  "write_minor s LF_limit v = s\<lparr>ses_limitMinor := Some v\<rparr>"
| "write_minor s LF_spent v = s\<lparr>ses_spentMinor := Some v\<rparr>"
| "write_minor s LF_reserved v = s\<lparr>ses_reservedMinor := Some v\<rparr>"

definition setAtomicCompatibility :: "session \<Rightarrow> ledger_field \<Rightarrow> int \<Rightarrow> error + session" where
  "setAtomicCompatibility s field value =
     bindE (checkedAtomicValue value) (\<lambda>v.
       Inr (if v \<le> MAX_SAFE_INTEGER then write_minor (write_atomic s field v) field v else write_atomic s field v))"

datatype reserve_result = RR_reserved | RR_depleted | RR_inactive

definition pass_expired :: "int \<Rightarrow> session \<Rightarrow> bool" where
  "pass_expired now s = (case ses_expiryAt s of None \<Rightarrow> False | Some t \<Rightarrow> t \<le> now)"

text \<open>The pass with the amount reserved, or \<open>None\<close> when the pass cannot fund it.\<close>

definition reserved_pass :: "int \<Rightarrow> session \<Rightarrow> error + session option" where
  "reserved_pass amount s =
     bindE (sessionAtomicFields s) (\<lambda>m.
       if pm_spent m + pm_reserved m + amount > pm_limit m then Inr None
       else bindE (setAtomicCompatibility s LF_limit (pm_limit m)) (\<lambda>s1.
            bindE (setAtomicCompatibility s1 LF_spent (pm_spent m)) (\<lambda>s2.
            bindE (setAtomicCompatibility s2 LF_reserved (pm_reserved m + amount)) (\<lambda>s3. Inr (Some s3)))))"

definition reserve_occurrence_body :: "string \<Rightarrow> int \<Rightarrow> ('a schedule_db_scheme, reserve_result) op" where
  "reserve_occurrence_body occurrenceId now d =
     (case find_occurrence occurrenceId d of
        None \<Rightarrow> (Inr RR_inactive, d)
      | Some x \<Rightarrow>
         if occ_reservationState x \<in> {RV_reserved, RV_spent} then (Inr RR_reserved, d)
         else (case find_session (occ_sessionId x) d of
            None \<Rightarrow> (Inr RR_inactive, d)
          | Some s \<Rightarrow>
             if ses_status s \<noteq> S_active \<or> pass_expired now s then (Inr RR_inactive, d)
             else (case reserved_pass (occ_amountAtomic x) s of
                Inl e \<Rightarrow> (Inl e, d)
              | Inr None \<Rightarrow> (Inr RR_depleted, d)
              | Inr (Some s') \<Rightarrow>
                 (Inr RR_reserved,
                  save_occurrence (x\<lparr>occ_reservationState := RV_reserved, occ_reservedAt := Some now\<rparr>)
                    (save_session s' d)))))"

definition reserveOccurrenceBudget :: "string \<Rightarrow> int \<Rightarrow> ('a schedule_db_scheme, reserve_result) op" where
  "reserveOccurrenceBudget occurrenceId now = transaction (reserve_occurrence_body occurrenceId now)"

definition released_pass :: "int \<Rightarrow> session \<Rightarrow> error + session" where
  "released_pass amount s =
     bindE (sessionAtomicFields s) (\<lambda>m.
       setAtomicCompatibility s LF_reserved (if pm_reserved m \<ge> amount then pm_reserved m - amount else 0))"

definition releaseOccurrenceBudget :: "string \<Rightarrow> ('a schedule_db_scheme, unit) op" where
  "releaseOccurrenceBudget occurrenceId d =
     (case find_occurrence occurrenceId d of
        None \<Rightarrow> (Inr (), d)
      | Some x \<Rightarrow>
         if occ_reservationState x \<noteq> RV_reserved then (Inr (), d)
         else (case (case find_session (occ_sessionId x) d of
                  None \<Rightarrow> Inr d
                | Some s \<Rightarrow> bindE (released_pass (occ_amountAtomic x) s) (\<lambda>s'. Inr (save_session s' d))) of
            Inl e \<Rightarrow> (Inl e, d)
          | Inr d' \<Rightarrow> (Inr (), save_occurrence (x\<lparr>occ_reservationState := RV_released\<rparr>) d')))"

subsection \<open>Claiming\<close>

definition new_occurrence :: "string \<Rightarrow> string \<Rightarrow> int \<Rightarrow> payment_schedule \<Rightarrow> scheduled_occurrence" where
  "new_occurrence occurrenceId leaseId now s =
     \<lparr>occ_occurrenceId = occurrenceId, occ_scheduleId = sch_scheduleId s, occ_sessionId = sch_sessionId s,
      occ_ownerWalletId = sch_ownerWalletId s, occ_recipientId = sch_recipientId s,
      occ_destinationId = sch_destinationId s, occ_dueAt = sch_nextOccurrenceAt s, occ_rail = sch_rail s,
      occ_network = sch_network s, occ_assetId = sch_assetId s, occ_amountAtomic = sch_amountAtomic s,
      occ_status = OS_resolving, occ_reservationState = RV_none, occ_reservedAt = None,
      occ_paymentRequestHash = None, occ_paymentHash = None, occ_requestExpiresAt = None,
      occ_executorPaymentId = None, occ_proofKind = None, occ_proofReference = None,
      occ_executionLeaseId = Some leaseId, occ_executionLeaseExpiresAt = Some (now + OCCURRENCE_LEASE_MS),
      occ_retryCount = 0, occ_nextAttemptAt = None, occ_resolvedAt = None, occ_submittedAt = None,
      occ_reconciledAt = None, occ_completedAt = None, occ_failureCode = None\<rparr>"

definition passed :: "int \<Rightarrow> int option \<Rightarrow> bool" where
  "passed now t = (case t of None \<Rightarrow> True | Some u \<Rightarrow> u \<le> now)"

definition claimable_in :: "occurrence_status set \<Rightarrow> int \<Rightarrow> scheduled_occurrence \<Rightarrow> bool" where
  "claimable_in states now x \<longleftrightarrow> occ_status x \<in> states \<and> passed now (occ_executionLeaseExpiresAt x)
     \<and> passed now (occ_nextAttemptAt x)"

definition open_states :: "occurrence_status set" where
  "open_states = {OS_resolving, OS_executing, OS_uncertain, OS_retrying}"

definition in_flight_states :: "occurrence_status set" where
  "in_flight_states = {OS_executing, OS_uncertain}"

definition leased_occurrence :: "int \<Rightarrow> string \<Rightarrow> scheduled_occurrence \<Rightarrow> scheduled_occurrence" where
  "leased_occurrence now leaseId x =
     x\<lparr>occ_executionLeaseId := Some leaseId, occ_executionLeaseExpiresAt := Some (now + OCCURRENCE_LEASE_MS)\<rparr>"

definition take_occurrence ::
  "occurrence_status set \<Rightarrow> string \<Rightarrow> int \<Rightarrow> string \<Rightarrow> 'a schedule_db_scheme \<Rightarrow> scheduled_occurrence option \<times> 'a schedule_db_scheme" where
  "take_occurrence states occurrenceId now leaseId d =
     (case find_and_update (\<lambda>x. occ_occurrenceId x = occurrenceId \<and> claimable_in states now x)
             (leased_occurrence now leaseId) (occurrences d) of
        None \<Rightarrow> (None, d)
      | Some (x, xs) \<Rightarrow> (Some x, d\<lparr>occurrences := xs\<rparr>))"

text \<open>\<open>uuid\<close> is the \<open>randomUUID()\<close> of the lease.\<close>

definition claimOccurrence ::
  "(string \<Rightarrow> string) \<Rightarrow> payment_schedule \<Rightarrow> int \<Rightarrow> string \<Rightarrow> string \<Rightarrow> ('a schedule_db_scheme, scheduled_occurrence option) op" where
  "claimOccurrence sha s now workerId uuid d =
     (case stableOccurrenceId sha (sch_scheduleId s) (sch_nextOccurrenceAt s) of
        Inl e \<Rightarrow> (Inl e, d)
      | Inr occurrenceId \<Rightarrow>
         let leaseId = workerId @ '':'' @ uuid; x = new_occurrence occurrenceId leaseId now s in
         (case insert_row (occurrence_clash x) x (occurrences d) of
            Some xs \<Rightarrow> (Inr (Some x), d\<lparr>occurrences := xs\<rparr>)
          | None \<Rightarrow> (case take_occurrence open_states occurrenceId now leaseId d of (r, d') \<Rightarrow> (Inr r, d'))))"

definition claimInFlightOccurrence ::
  "string \<Rightarrow> int \<Rightarrow> string \<Rightarrow> string \<Rightarrow> 'a schedule_db_scheme \<Rightarrow> scheduled_occurrence option \<times> 'a schedule_db_scheme" where
  "claimInFlightOccurrence occurrenceId now workerId uuid =
     take_occurrence in_flight_states occurrenceId now (workerId @ '':'' @ uuid)"

definition holds_occurrence :: "scheduled_occurrence \<Rightarrow> scheduled_occurrence \<Rightarrow> bool" where
  "holds_occurrence x y \<longleftrightarrow> occ_occurrenceId y = occ_occurrenceId x \<and> occ_executionLeaseId y = occ_executionLeaseId x"

subsection \<open>Retry and block\<close>

definition occurrence_delay :: "int \<Rightarrow> int" where
  "occurrence_delay retryCount = min (RETRY_BASE_MS * 2 ^ nat (min (retryCount - 1) 7)) (60 * 60 * 1000)"

definition error_code_or :: "string \<Rightarrow> error \<Rightarrow> string" where
  "error_code_or other e = (case e of ApiError _ c \<Rightarrow> c | _ \<Rightarrow> other)"

definition markOccurrenceRetry ::
  "scheduled_occurrence \<Rightarrow> error \<Rightarrow> int \<Rightarrow> occurrence_status \<Rightarrow> 'a schedule_db_scheme \<Rightarrow> 'a schedule_db_scheme" where
  "markOccurrenceRetry x e now status =
     update_occurrence (holds_occurrence x)
       (\<lambda>y. y\<lparr>occ_status := status, occ_retryCount := occ_retryCount x + 1,
              occ_nextAttemptAt := Some (now + occurrence_delay (occ_retryCount x + 1)),
              occ_failureCode := Some (error_code_or ''DESTINATION_RESOLVER_FAILED'' e),
              occ_executionLeaseExpiresAt := Some now, occ_executionLeaseId := None\<rparr>)"

definition blocked_occurrence :: "string \<Rightarrow> int \<Rightarrow> scheduled_occurrence \<Rightarrow> scheduled_occurrence" where
  "blocked_occurrence c now y =
     y\<lparr>occ_status := OS_blocked, occ_failureCode := Some c, occ_completedAt := Some now,
       occ_executionLeaseExpiresAt := Some now, occ_executionLeaseId := None\<rparr>"

definition block_body :: "scheduled_occurrence \<Rightarrow> error \<Rightarrow> int \<Rightarrow> ('a schedule_db_scheme, unit) op" where
  "block_body x e now =
     (let c = error_code_or ''SCHEDULE_EXECUTION_BLOCKED'' e in
      chain (releaseOccurrenceBudget (occ_occurrenceId x)) (\<lambda>_ d.
        (Inr (), update_schedule (\<lambda>s. sch_scheduleId s = occ_scheduleId x \<and> sch_status s = SS_active)
                   (\<lambda>s. s\<lparr>sch_status := SS_paused, sch_pausedAt := Some now, sch_failureCode := Some c\<rparr>)
                   (update_occurrence (\<lambda>y. occ_occurrenceId y = occ_occurrenceId x) (blocked_occurrence c now) d))))"

definition blockOccurrence :: "scheduled_occurrence \<Rightarrow> error \<Rightarrow> int \<Rightarrow> ('a schedule_db_scheme, unit) op" where
  "blockOccurrence x e now = transaction (block_body x e now)"

definition unsubmitted :: "scheduled_occurrence \<Rightarrow> bool" where
  "unsubmitted x \<longleftrightarrow> occ_status x \<in> {OS_resolving, OS_retrying} \<and> occ_submittedAt x = None"

definition endSchedule ::
  "string \<Rightarrow> schedule_status \<Rightarrow> int \<Rightarrow> string \<Rightarrow> 'a schedule_db_scheme \<Rightarrow> 'a schedule_db_scheme" where
  "endSchedule scheduleId status now c =
     update_schedule (\<lambda>y. sch_scheduleId y = scheduleId \<and> sch_status y \<in> {SS_active, SS_paused})
       (\<lambda>y. y\<lparr>sch_status := status, sch_completedAt := Some now, sch_failureCode := Some c\<rparr>)"

definition closeScheduleForPassState ::
  "(string \<Rightarrow> string) \<Rightarrow> payment_schedule \<Rightarrow> schedule_status \<Rightarrow> int \<Rightarrow> string \<Rightarrow> ('a schedule_db_scheme, unit) op" where
  "closeScheduleForPassState sha s status now c d =
     (case stableOccurrenceId sha (sch_scheduleId s) (sch_nextOccurrenceAt s) of
        Inl e \<Rightarrow> (Inl e, d)
      | Inr occurrenceId \<Rightarrow>
         chain (case List.find (\<lambda>x. occ_occurrenceId x = occurrenceId \<and> unsubmitted x) (occurrences d) of
                  None \<Rightarrow> Pair (Inr ())
                | Some x \<Rightarrow> blockOccurrence x (ApiError 409 c) now) (\<lambda>_ d'.
           (Inr (), endSchedule (sch_scheduleId s) status now c d')) d)"

definition retryableError :: "error \<Rightarrow> bool" where
  "retryableError e =
     (case e of
        ApiError statusCode c \<Rightarrow> statusCode \<ge> 500 \<or> endsWith c ''_EXPIRED'' \<or> c = ''PAYMENT_REQUEST_REUSED''
          \<or> contains ''UNAVAILABLE'' c \<or> contains ''TIMEOUT'' c
      | _ \<Rightarrow> False)"

subsection \<open>Booking a paid occurrence\<close>

record occurrence_payment =
  op_executorPaymentId :: string
  op_paymentHash :: "string option"
  op_proofKind :: "string option"
  op_proofReference :: "string option"
  op_feeAtomic :: "string option"
  op_sessionAlreadyDebited :: bool

definition succeeded_occurrence :: "occurrence_payment \<Rightarrow> int \<Rightarrow> scheduled_occurrence \<Rightarrow> scheduled_occurrence" where
  "succeeded_occurrence p now x =
     x\<lparr>occ_status := OS_succeeded,
       occ_reservationState := (if op_sessionAlreadyDebited p then occ_reservationState x else RV_spent),
       occ_executorPaymentId := Some (op_executorPaymentId p), occ_paymentHash := op_paymentHash p,
       occ_proofKind := op_proofKind p, occ_proofReference := op_proofReference p, occ_completedAt := Some now,
       occ_executionLeaseExpiresAt := Some now, occ_executionLeaseId := None, occ_failureCode := None\<rparr>"

text \<open>The pass after the payment: the reservation becomes spent, unless the charge service debited it.\<close>

definition paid_pass :: "occurrence_payment \<Rightarrow> scheduled_occurrence \<Rightarrow> session \<Rightarrow> error + session" where
  "paid_pass p x s =
     bindE (sessionAtomicFields s) (\<lambda>m.
       if op_sessionAlreadyDebited p then Inr s
       else bindE (require (\<not> (occ_reservationState x \<noteq> RV_reserved \<or> pm_reserved m < occ_amountAtomic x))
                    (ApiError 503 ''SCHEDULE_RESERVATION_MISSING'')) (\<lambda>_.
            bindE (setAtomicCompatibility s LF_reserved (pm_reserved m - occ_amountAtomic x)) (\<lambda>s1.
            setAtomicCompatibility s1 LF_spent (pm_spent m + occ_amountAtomic x))))"

definition schedule_calendar :: "payment_schedule \<Rightarrow> calendar_schedule" where
  "schedule_calendar s =
     \<lparr>cal_cadence = sch_cadence s, cal_timeZone = sch_timeZone s, cal_anchorDay = sch_anchorDay s,
      cal_customIntervalSeconds = sch_customIntervalSeconds s\<rparr>"

definition terminal_schedule :: "schedule_status \<Rightarrow> bool" where
  "terminal_schedule st \<longleftrightarrow> st \<in> {SS_completed, SS_revoked, SS_depleted, SS_expired}"

text \<open>The schedule after one more paid occurrence: what is counted, and what becomes of it.\<close>

definition counted_schedule :: "int \<Rightarrow> scheduled_occurrence \<Rightarrow> payment_schedule \<Rightarrow> payment_schedule" where
  "counted_schedule spent x sc =
     sc\<lparr>sch_occurrenceCount := sch_occurrenceCount sc + 1, sch_spentAtomic := spent, sch_lastOccurrenceAt := Some (occ_dueAt x),
        sch_failureCode := None\<rparr>"

definition moved_schedule :: "bool \<Rightarrow> int option \<Rightarrow> int option \<Rightarrow> payment_schedule \<Rightarrow> payment_schedule" where
  "moved_schedule depleted next passExpiry sc =
     (if depleted then sc\<lparr>sch_status := SS_depleted\<rparr>
      else (case next of
         None \<Rightarrow> sc\<lparr>sch_status := SS_completed\<rparr>
       | Some t \<Rightarrow>
          if (case sch_occurrenceLimit sc of None \<Rightarrow> False | Some n \<Rightarrow> sch_occurrenceCount sc \<ge> n)
          then sc\<lparr>sch_status := SS_completed\<rparr>
          else if (case passExpiry of None \<Rightarrow> False | Some u \<Rightarrow> t \<ge> u) then sc\<lparr>sch_status := SS_expired\<rparr>
          else sc\<lparr>sch_nextOccurrenceAt := t\<rparr>))"

definition closed_if_terminal :: "int \<Rightarrow> payment_schedule \<Rightarrow> payment_schedule" where
  "closed_if_terminal now sc = (if terminal_schedule (sch_status sc) then sc\<lparr>sch_completedAt := Some now\<rparr> else sc)"

text \<open>\<open>s'\<close> is the pass after the payment.\<close>

definition advanced_schedule ::
  "time_zones \<Rightarrow> int \<Rightarrow> scheduled_occurrence \<Rightarrow> session \<Rightarrow> payment_schedule \<Rightarrow> error + payment_schedule" where
  "advanced_schedule zones now x s' sc =
     bindE (checkedAtomicValue (sch_spentAtomic sc + occ_amountAtomic x)) (\<lambda>spent.
     bindE (nextOccurrenceAfter zones (occ_dueAt x) (schedule_calendar sc)) (\<lambda>next.
     bindE (sessionAtomicFields s') (\<lambda>m.
       let depleted = (pm_spent m + pm_reserved m + occ_amountAtomic x > pm_limit m)
       in Inr (closed_if_terminal now (moved_schedule depleted next (ses_expiryAt s') (counted_schedule spent x sc))))))"

definition occurrence_receipt :: "occurrence_payment \<Rightarrow> int \<Rightarrow> scheduled_occurrence \<Rightarrow> receipt_input" where
  "occurrence_receipt p now x =
     \<lparr>cr_ownerWalletId = occ_ownerWalletId x, cr_recipientId = Some (occ_recipientId x),
      cr_sourceType = RC_scheduled_occurrence, cr_sourceId = occ_occurrenceId x,
      cr_settlementId = op_executorPaymentId p, cr_rail = occ_rail x, cr_network = occ_network x,
      cr_assetId = occ_assetId x, cr_amountAtomic = atomic_text (occ_amountAtomic x), cr_feeAtomic = op_feeAtomic p,
      cr_status = RT_succeeded, cr_paymentHash = op_paymentHash p, cr_proofKind = op_proofKind p,
      cr_proofReference = op_proofReference p, cr_settledAt = now\<rparr>"

definition finalize_occurrence_body ::
  "(string \<Rightarrow> string) \<Rightarrow> time_zones \<Rightarrow> string \<Rightarrow> occurrence_payment \<Rightarrow> int \<Rightarrow> ('a schedule_db_scheme, string option) op" where
  "finalize_occurrence_body sha zones occurrenceId p now d =
     (case find_occurrence occurrenceId d of
        None \<Rightarrow> (Inr None, d)
      | Some x \<Rightarrow>
         if occ_status x = OS_succeeded then (Inr None, d)
         else (case (find_schedule (occ_scheduleId x) d, find_session (occ_sessionId x) d) of
            (Some sc, Some s) \<Rightarrow>
              (case bindE (paid_pass p x s) (\<lambda>s'. bindE (advanced_schedule zones now x s' sc) (\<lambda>sc'. Inr (s', sc'))) of
                 Inl e \<Rightarrow> (Inl e, d)
               | Inr (s', sc') \<Rightarrow>
                  chain (createPaymentReceipt sha now (occurrence_receipt p now x)) (\<lambda>i d'. (Inr (Some i), d'))
                    (save_schedule sc' (save_occurrence (succeeded_occurrence p now x)
                      (if op_sessionAlreadyDebited p then d else save_session s' d))))
          | _ \<Rightarrow> (Inl (ApiError 503 ''SCHEDULE_STATE_MISSING''), d)))"

definition finalizeOccurrenceSuccess ::
  "(string \<Rightarrow> string) \<Rightarrow> time_zones \<Rightarrow> scheduled_occurrence \<Rightarrow> occurrence_payment \<Rightarrow> int \<Rightarrow> ('a schedule_db_scheme, unit) op" where
  "finalizeOccurrenceSuccess sha zones occ p now d =
     (case transaction (finalize_occurrence_body sha zones (occ_occurrenceId occ) p now) d of
        (Inl e, d') \<Rightarrow> (Inl e, d')
      | (Inr receiptId, d') \<Rightarrow>
         (Inr (), writeAuditLog (occ_ownerWalletId occ) ''schedule.occurrence.succeeded'' ''scheduled_occurrence''
            (occ_occurrenceId occ)
            (case receiptId of None \<Rightarrow> d' | Some i \<Rightarrow> snd (queueReceiptNotifications sha now i d'))))"

subsection \<open>The owner\<close>

datatype schedule_action = AC_pause | AC_resume | AC_revoke

definition schedule_action_text :: "schedule_action \<Rightarrow> string" where
  "schedule_action_text a = (case a of AC_pause \<Rightarrow> ''pause'' | AC_resume \<Rightarrow> ''resume'' | AC_revoke \<Rightarrow> ''revoke'')"

text \<open>
  The edit of each action. \<open>save()\<close> of mongoose writes only the paths that were modified, so a
  concurrent change of the other fields survives.
\<close>

definition control_edit :: "schedule_action \<Rightarrow> int \<Rightarrow> payment_schedule \<Rightarrow> payment_schedule" where
  "control_edit action now s =
     (case action of
        AC_pause \<Rightarrow> s\<lparr>sch_status := SS_paused, sch_pausedAt := Some now\<rparr>
      | AC_resume \<Rightarrow> s\<lparr>sch_status := SS_active, sch_pausedAt := None, sch_failureCode := None\<rparr>
      | AC_revoke \<Rightarrow> s\<lparr>sch_status := SS_revoked, sch_revokedAt := Some now\<rparr>)"

text \<open>Whether the action changes the schedule that was read.\<close>

definition control_applies :: "schedule_action \<Rightarrow> int \<Rightarrow> session option \<Rightarrow> payment_schedule \<Rightarrow> error + bool" where
  "control_applies action now pass s =
     (case action of
        AC_pause \<Rightarrow>
          if sch_status s = SS_paused then Inr False
          else if sch_status s \<noteq> SS_active then Inl (ApiError 409 ''SCHEDULE_NOT_ACTIVE'')
          else Inr True
      | AC_resume \<Rightarrow>
          if sch_status s = SS_active then Inr False
          else if sch_status s \<noteq> SS_paused then Inl (ApiError 409 ''SCHEDULE_NOT_PAUSED'')
          else (case pass of
             None \<Rightarrow> Inl (ApiError 409 ''SESSION_INACTIVE'')
           | Some p \<Rightarrow>
              if ses_status p \<noteq> S_active \<or> pass_expired now p then Inl (ApiError 409 ''SESSION_INACTIVE'') else Inr True)
      | AC_revoke \<Rightarrow>
          if sch_status s = SS_revoked then Inr False
          else if terminal_schedule (sch_status s) then Inl (ApiError 409 ''SCHEDULE_TERMINAL'')
          else Inr True)"

definition save_control :: "schedule_action \<Rightarrow> int \<Rightarrow> string \<Rightarrow> 'a schedule_db_scheme \<Rightarrow> 'a schedule_db_scheme" where
  "save_control action now scheduleId =
     update_schedule (\<lambda>y. sch_scheduleId y = scheduleId) (control_edit action now)"

fun block_all :: "scheduled_occurrence list \<Rightarrow> error \<Rightarrow> int \<Rightarrow> ('a schedule_db_scheme, unit) op" where
  "block_all [] e now d = (Inr (), d)"
| "block_all (x # xs) e now d = chain (blockOccurrence x e now) (\<lambda>_. block_all xs e now) d"

definition revoked_occurrences :: "string \<Rightarrow> 'a schedule_db_scheme \<Rightarrow> scheduled_occurrence list" where
  "revoked_occurrences scheduleId d = filter (\<lambda>x. occ_scheduleId x = scheduleId \<and> unsubmitted x) (occurrences d)"

definition controlPaymentSchedule ::
  "string \<Rightarrow> string \<Rightarrow> schedule_action \<Rightarrow> int \<Rightarrow> ('a schedule_db_scheme, schedule_dto) op" where
  "controlPaymentSchedule scheduleId ownerWalletId action now d =
     (case List.find (\<lambda>s. sch_scheduleId s = scheduleId \<and> sch_ownerWalletId s = ownerWalletId) (schedules d) of
        None \<Rightarrow> (Inl (ApiError 404 ''SCHEDULE_NOT_FOUND''), d)
      | Some s \<Rightarrow>
         (case control_applies action now (session_known (sch_sessionId s) ownerWalletId d) s of
            Inl e \<Rightarrow> (Inl e, d)
          | Inr False \<Rightarrow> (Inr (scheduleDto s), d)
          | Inr True \<Rightarrow>
             (let d1 = save_control action now scheduleId d in
              chain (if action = AC_revoke then block_all (revoked_occurrences scheduleId d1) (ApiError 409 ''SCHEDULE_REVOKED'') now
                     else Pair (Inr ()))
                (\<lambda>_ d2. (Inr (scheduleDto (control_edit action now s)),
                  writeAuditLog ownerWalletId (''schedule.'' @ schedule_action_text action) ''payment_schedule'' scheduleId d2)) d1)))"

text \<open>
  What \<open>configureReusablePaymentDestination\<close> does to schedules: the compatible ones follow the new
  destination, active incompatible ones are paused.
\<close>

definition retarget_schedules ::
  "string \<Rightarrow> string \<Rightarrow> string \<Rightarrow> payment_rail \<Rightarrow> string \<Rightarrow> string \<Rightarrow> string \<Rightarrow> int \<Rightarrow> 'a schedule_db_scheme \<Rightarrow> 'a schedule_db_scheme" where
  "retarget_schedules ownerWalletId sessionId recipientId rail network assetId destinationId now d =
     (let mine = (\<lambda>s. sch_ownerWalletId s = ownerWalletId \<and> sch_sessionId s = sessionId \<and> sch_recipientId s = recipientId);
          same = (\<lambda>s. sch_rail s = rail \<and> sch_network s = network \<and> sch_assetId s = assetId)
      in d\<lparr>schedules :=
           update_all (\<lambda>s. mine s \<and> sch_status s = SS_active \<and> \<not> same s)
             (\<lambda>s. s\<lparr>sch_status := SS_paused, sch_pausedAt := Some now,
                    sch_failureCode := Some ''DESTINATION_REPLACED_INCOMPATIBLE''\<rparr>)
             (update_all (\<lambda>s. mine s \<and> sch_status s \<in> {SS_active, SS_paused} \<and> same s)
               (\<lambda>s. s\<lparr>sch_destinationId := destinationId\<rparr>) (schedules d))\<rparr>)"

subsection \<open>The single statements of the worker\<close>

record fresh_request =
  fq_paymentRequest :: string
  fq_paymentRequestHash :: string
  fq_paymentHash :: "string option"
  fq_expiresAt :: int

definition stored_request :: "fresh_request \<Rightarrow> int \<Rightarrow> scheduled_occurrence \<Rightarrow> scheduled_occurrence" where
  "stored_request r now y =
     y\<lparr>occ_paymentRequestHash := Some (fq_paymentRequestHash r),
       occ_paymentHash := opt_else (fq_paymentHash r) (occ_paymentHash y),
       occ_requestExpiresAt := Some (fq_expiresAt r), occ_resolvedAt := Some now, occ_status := OS_executing,
       occ_failureCode := None, occ_nextAttemptAt := None\<rparr>"

definition storeOccurrenceRequest ::
  "scheduled_occurrence \<Rightarrow> fresh_request \<Rightarrow> int \<Rightarrow> ('a schedule_db_scheme, bool) op" where
  "storeOccurrenceRequest x r now d =
     (case List.find (holds_occurrence x) (occurrences d) of
        None \<Rightarrow> (Inr False, d)
      | Some _ \<Rightarrow>
         if list_ex (\<lambda>y. occ_occurrenceId y \<noteq> occ_occurrenceId x
              \<and> occ_paymentRequestHash y = Some (fq_paymentRequestHash r)) (occurrences d)
         then (Inl DuplicateKey, d)
         else (Inr True, update_occurrence (holds_occurrence x) (stored_request r now) d))"

definition markOccurrenceSubmitted :: "scheduled_occurrence \<Rightarrow> int \<Rightarrow> 'a schedule_db_scheme \<Rightarrow> 'a schedule_db_scheme" where
  "markOccurrenceSubmitted x now =
     update_occurrence (holds_occurrence x) (\<lambda>y. y\<lparr>occ_status := OS_executing, occ_submittedAt := Some now\<rparr>)"

definition markOccurrenceUncertain ::
  "string \<Rightarrow> string option \<Rightarrow> string option \<Rightarrow> int option \<Rightarrow> int \<Rightarrow> 'a schedule_db_scheme \<Rightarrow> 'a schedule_db_scheme" where
  "markOccurrenceUncertain occurrenceId executorPaymentId paymentHash reconciledAt now =
     update_occurrence (\<lambda>y. occ_occurrenceId y = occurrenceId)
       (\<lambda>y. y\<lparr>occ_status := OS_uncertain, occ_executorPaymentId := opt_else executorPaymentId (occ_executorPaymentId y),
              occ_paymentHash := opt_else paymentHash (occ_paymentHash y),
              occ_reconciledAt := opt_else reconciledAt (occ_reconciledAt y),
              occ_executionLeaseExpiresAt := Some now, occ_executionLeaseId := None\<rparr>)"

definition closeActiveSchedule :: "string \<Rightarrow> schedule_status \<Rightarrow> int \<Rightarrow> 'a schedule_db_scheme \<Rightarrow> 'a schedule_db_scheme" where
  "closeActiveSchedule scheduleId status now =
     update_schedule (\<lambda>y. sch_scheduleId y = scheduleId \<and> sch_status y = SS_active)
       (\<lambda>y. y\<lparr>sch_status := status, sch_completedAt := Some now\<rparr>)"

definition blockDepletedOccurrence :: "string \<Rightarrow> int \<Rightarrow> 'a schedule_db_scheme \<Rightarrow> 'a schedule_db_scheme" where
  "blockDepletedOccurrence occurrenceId now =
     update_occurrence (\<lambda>y. occ_occurrenceId y = occurrenceId)
       (\<lambda>y. y\<lparr>occ_status := OS_blocked, occ_failureCode := Some ''SCHEDULE_PASS_DEPLETED'', occ_completedAt := Some now\<rparr>)"

end
