(* ===== verification/Schedule_Accounts.thy ===== *)
theory Schedule_Accounts
  imports Schedule_Books Ledger
begin

section \<open>Accounts of schedules\<close>

text \<open>
  Any interleaving of owners, workers and other services. \<open>schedule_step\<close> is one statement or
  transaction of the schedule service; the documents a worker holds are arguments and may be stale.
  \<open>schedule_history\<close> keeps the set of schedule documents that were read so far, because the claim of an
  occurrence is made from such a document, and lets any other service change its own collections.

  The number of payments is tied to the occurrences for schedules paid by a connected wallet (executors
  nwc and btcpay), where the occurrence itself carries the reservation.
\<close>

inductive schedule_step ::
  "(string \<Rightarrow> string) \<Rightarrow> time_zones \<Rightarrow> payment_schedule set \<Rightarrow> 'a schedule_db_scheme \<Rightarrow> 'a schedule_db_scheme \<Rightarrow> bool"
  for sha zones R d d' where
  create: "createPaymentSchedule sha zones scheduleId sessionId i ownerWalletId now d = (rc, d') \<Longrightarrow> schedule_step sha zones R d d'"
| control: "d' = save_control action now scheduleId d \<Longrightarrow> schedule_step sha zones R d d'"
| retarget: "d' = retarget_schedules ownerWalletId sessionId recipientId rail network assetId destinationId now d \<Longrightarrow>
    schedule_step sha zones R d d'"
| close: "d' = closeActiveSchedule scheduleId status now d \<Longrightarrow> schedule_step sha zones R d d'"
| finish: "d' = endSchedule scheduleId status now c d \<Longrightarrow> schedule_step sha zones R d d'"
| claim: "claimOccurrence sha s now workerId uuid d = (ro, d') \<Longrightarrow> s \<in> R \<Longrightarrow>
    (case sch_occurrenceLimit s of None \<Rightarrow> True | Some n \<Rightarrow> sch_occurrenceCount s < n) \<Longrightarrow> schedule_step sha zones R d d'"
| in_flight: "claimInFlightOccurrence k now workerId uuid d = (rx, d') \<Longrightarrow> schedule_step sha zones R d d'"
| reserve: "reserveOccurrenceBudget k now d = (rr, d') \<Longrightarrow> schedule_step sha zones R d d'"
| store: "storeOccurrenceRequest x fresh now d = (rb, d') \<Longrightarrow> schedule_step sha zones R d d'"
| submitted: "d' = markOccurrenceSubmitted x now d \<Longrightarrow> schedule_step sha zones R d d'"
| uncertain: "d' = markOccurrenceUncertain k pid hash rec now d \<Longrightarrow> schedule_step sha zones R d d'"
| retry: "d' = markOccurrenceRetry x e now st d \<Longrightarrow> schedule_step sha zones R d d'"
| block: "blockOccurrence x e now d = (ru, d') \<Longrightarrow> schedule_step sha zones R d d'"
| deplete: "d' = blockDepletedOccurrence k now d \<Longrightarrow> schedule_step sha zones R d d'"
| finalize: "finalizeOccurrenceSuccess sha zones x p now d = (ru, d') \<Longrightarrow>
    (\<And>y sc. find_occurrence (occ_occurrenceId x) d = Some y \<Longrightarrow> find_schedule (occ_scheduleId y) d = Some sc \<Longrightarrow>
      op_sessionAlreadyDebited p = (sch_executor sc = ME_fiber)) \<Longrightarrow> schedule_step sha zones R d d'"

definition schedule_frame :: "'a schedule_db_scheme \<Rightarrow> 'a schedule_db_scheme \<Rightarrow> bool" where
  "schedule_frame d d' \<longleftrightarrow> schedules d' = schedules d \<and> occurrences d' = occurrences d"

inductive schedule_history ::
  "(string \<Rightarrow> string) \<Rightarrow> time_zones \<Rightarrow> payment_schedule set \<Rightarrow> 'a schedule_db_scheme \<Rightarrow> payment_schedule set
    \<Rightarrow> 'a schedule_db_scheme \<Rightarrow> bool"
  for sha zones R0 d0 where
  start: "schedule_history sha zones R0 d0 R0 d0"
| read: "schedule_history sha zones R0 d0 R d \<Longrightarrow> s \<in> set (schedules d) \<Longrightarrow> schedule_history sha zones R0 d0 (insert s R) d"
| step: "schedule_history sha zones R0 d0 R d \<Longrightarrow> schedule_step sha zones R d d' \<Longrightarrow> schedule_history sha zones R0 d0 R d'"
| other: "schedule_history sha zones R0 d0 R d \<Longrightarrow> schedule_frame d d' \<Longrightarrow> schedule_history sha zones R0 d0 R d'"

subsection \<open>The books\<close>

definition by_wallet :: "payment_schedule \<Rightarrow> bool" where
  "by_wallet s \<longleftrightarrow> sch_executor s \<noteq> ME_fiber"

definition occ_slot :: "scheduled_occurrence \<Rightarrow> string \<times> int" where
  "occ_slot x = (occ_scheduleId x, occ_dueAt x)"

definition spent_for :: "string \<Rightarrow> scheduled_occurrence \<Rightarrow> bool" where
  "spent_for i x \<longleftrightarrow> occ_scheduleId x = i \<and> occ_reservationState x = RV_spent"

definition within_limit :: "payment_schedule \<Rightarrow> int \<Rightarrow> bool" where
  "within_limit s n \<longleftrightarrow> (case sch_occurrenceLimit s of None \<Rightarrow> True | Some m \<Rightarrow> n \<le> m)"

text \<open>An occurrence belongs to its schedule; until it is spent it is the next one and the limit leaves room for it.\<close>

definition fits :: "scheduled_occurrence \<Rightarrow> payment_schedule \<Rightarrow> bool" where
  "fits x s \<longleftrightarrow> occ_scheduleId x = sch_scheduleId s \<and> occ_sessionId x = sch_sessionId s \<and> occ_amountAtomic x = sch_amountAtomic s
     \<and> (by_wallet s \<and> occ_reservationState x \<noteq> RV_spent \<longrightarrow>
          occ_dueAt x = sch_nextOccurrenceAt s \<and> within_limit s (sch_occurrenceCount s + 1))"

definition balanced :: "scheduled_occurrence list \<Rightarrow> payment_schedule \<Rightarrow> bool" where
  "balanced xs s \<longleftrightarrow> 0 < sch_amountAtomic s \<and> sch_spentAtomic s = sch_occurrenceCount s * sch_amountAtomic s \<and>
     (by_wallet s \<longrightarrow>
        sch_occurrenceCount s = total (spent_for (sch_scheduleId s)) (\<lambda>_. 1) xs
      \<and> within_limit s (sch_occurrenceCount s))"

definition schedule_books :: "'a schedule_db_scheme \<Rightarrow> bool" where
  "schedule_books d \<longleftrightarrow> distinct (map sch_scheduleId (schedules d)) \<and> distinct (map occ_occurrenceId (occurrences d))
     \<and> distinct (map occ_slot (occurrences d)) \<and> list_all (balanced (occurrences d)) (schedules d)
     \<and> list_all (\<lambda>x. list_ex (fits x) (schedules d)) (occurrences d)"

text \<open>What is still true of a schedule document that was read earlier.\<close>

definition same_terms :: "payment_schedule \<Rightarrow> payment_schedule \<Rightarrow> bool" where
  "same_terms s c \<longleftrightarrow> sch_scheduleId s = sch_scheduleId c \<and> sch_sessionId s = sch_sessionId c
     \<and> sch_amountAtomic s = sch_amountAtomic c \<and> sch_executor s = sch_executor c
     \<and> sch_occurrenceLimit s = sch_occurrenceLimit c"

definition read_ok :: "'a schedule_db_scheme \<Rightarrow> payment_schedule \<Rightarrow> bool" where
  "read_ok d s \<longleftrightarrow> (\<exists>c \<in> set (schedules d). same_terms s c
     \<and> (by_wallet s \<longrightarrow> sch_nextOccurrenceAt s = sch_nextOccurrenceAt c \<and> sch_occurrenceCount s = sch_occurrenceCount c
        \<or> (sch_scheduleId s, sch_nextOccurrenceAt s) \<in> set (map occ_slot (occurrences d))))"

subsection \<open>Edits that keep the books\<close>

definition same_entry :: "payment_schedule \<Rightarrow> payment_schedule \<Rightarrow> bool" where
  "same_entry c s \<longleftrightarrow> same_terms c s \<and> sch_spentAtomic c = sch_spentAtomic s
     \<and> sch_nextOccurrenceAt c = sch_nextOccurrenceAt s \<and> sch_occurrenceCount c = sch_occurrenceCount s"

definition same_item :: "scheduled_occurrence \<Rightarrow> scheduled_occurrence \<Rightarrow> bool" where
  "same_item y x \<longleftrightarrow> occ_occurrenceId y = occ_occurrenceId x \<and> occ_slot y = occ_slot x
     \<and> occ_sessionId y = occ_sessionId x \<and> occ_amountAtomic y = occ_amountAtomic x
     \<and> (occ_reservationState y = RV_spent \<longleftrightarrow> occ_reservationState x = RV_spent)"

lemma same_refl [simp]: "same_entry s s" "same_item x x" "same_terms s s"
  by (simp_all add: same_entry_def same_item_def same_terms_def)

lemma edited_update_first: "(\<And>x. p x \<Longrightarrow> P (f x) x) \<Longrightarrow> (\<And>x. P x x) \<Longrightarrow> list_all2 P (update_first p f xs) xs"
  by (induction xs) (simp_all add: list.rel_refl)

lemma edited_update_all: "(\<And>x. p x \<Longrightarrow> P (f x) x) \<Longrightarrow> (\<And>x. P x x) \<Longrightarrow> list_all2 P (update_all p f xs) xs"
  by (induction xs) (auto simp: update_all_def)

lemma list_all2_same_map: "list_all2 P ys xs \<Longrightarrow> (\<And>y x. P y x \<Longrightarrow> g y = g x) \<Longrightarrow> map g ys = map g xs"
  by (induction rule: list_all2_induct) auto

lemma list_all2_same_total:
  "list_all2 P ys xs \<Longrightarrow> (\<And>y x. P y x \<Longrightarrow> p y = p x \<and> g y = g x) \<Longrightarrow> total p g ys = total p g xs"
  by (induction rule: list_all2_induct) auto

lemma list_all2_member: "list_all2 P ys xs \<Longrightarrow> y \<in> set ys \<Longrightarrow> \<exists>x \<in> set xs. P y x"
  by (induction rule: list_all2_induct) auto

lemma list_all2_member2: "list_all2 P ys xs \<Longrightarrow> x \<in> set xs \<Longrightarrow> \<exists>y \<in> set ys. P y x"
  by (induction rule: list_all2_induct) auto

lemma books_edit:
  assumes b: "schedule_books d" and ss: "list_all2 same_entry (schedules d') (schedules d)"
    and os: "list_all2 same_item (occurrences d') (occurrences d)"
  shows "schedule_books d'"
proof -
  have ids: "map sch_scheduleId (schedules d') = map sch_scheduleId (schedules d)"
    by (rule list_all2_same_map [OF ss]) (simp add: same_entry_def same_terms_def)
  have keys: "map occ_occurrenceId (occurrences d') = map occ_occurrenceId (occurrences d)"
    by (rule list_all2_same_map [OF os]) (simp add: same_item_def)
  have slots: "map occ_slot (occurrences d') = map occ_slot (occurrences d)"
    by (rule list_all2_same_map [OF os]) (simp add: same_item_def)
  have sums: "total (spent_for i) g (occurrences d') = total (spent_for i) g (occurrences d)"
    if "\<And>y x. same_item y x \<Longrightarrow> g y = g x" for i and g :: "scheduled_occurrence \<Rightarrow> int"
    by (rule list_all2_same_total [OF os], frule that) (auto simp: same_item_def spent_for_def occ_slot_def)
  have bal: "balanced (occurrences d') c" if "c \<in> set (schedules d')" for c
  proof -
    from list_all2_member [OF ss that] obtain s where s: "s \<in> set (schedules d)" "same_entry c s" by blast
    with b have "balanced (occurrences d) s" by (simp add: schedule_books_def list_all_iff)
    moreover have "within_limit c = within_limit s"
      using s(2) by (simp add: within_limit_def fun_eq_iff same_entry_def same_terms_def)
    ultimately show ?thesis
      using s(2) sums [of "\<lambda>_. 1"]
      by (auto simp: balanced_def same_entry_def same_terms_def by_wallet_def same_item_def)
  qed
  have fit: "\<exists>c \<in> set (schedules d'). fits y c" if "y \<in> set (occurrences d')" for y
  proof -
    from list_all2_member [OF os that] obtain x where x: "x \<in> set (occurrences d)" "same_item y x" by blast
    with b obtain s where s: "s \<in> set (schedules d)" "fits x s" by (auto simp: schedule_books_def list_all_iff list_ex_iff)
    with list_all2_member2 [OF ss s(1)] obtain c where c: "c \<in> set (schedules d')" "same_entry c s" by blast
    have "within_limit c = within_limit s"
      using c(2) by (simp add: within_limit_def fun_eq_iff same_entry_def same_terms_def)
    with s(2) x(2) c(2) have "fits y c"
      by (auto simp: fits_def same_item_def same_entry_def same_terms_def by_wallet_def occ_slot_def)
    with c(1) show ?thesis by blast
  qed
  from b bal fit show ?thesis by (simp add: schedule_books_def ids keys slots list_all_iff list_ex_iff)
qed

lemma read_edit:
  assumes "read_ok d s" and ss: "list_all2 same_entry (schedules d') (schedules d)"
    and os: "list_all2 same_item (occurrences d') (occurrences d)"
  shows "read_ok d' s"
proof -
  have slots: "map occ_slot (occurrences d') = map occ_slot (occurrences d)"
    by (rule list_all2_same_map [OF os]) (simp add: same_item_def)
  from assms(1) obtain c where c: "c \<in> set (schedules d)" "same_terms s c"
    "by_wallet s \<longrightarrow> sch_nextOccurrenceAt s = sch_nextOccurrenceAt c \<and> sch_occurrenceCount s = sch_occurrenceCount c
      \<or> (sch_scheduleId s, sch_nextOccurrenceAt s) \<in> set (map occ_slot (occurrences d))"
    by (auto simp: read_ok_def)
  from list_all2_member2 [OF ss c(1)] obtain c' where "c' \<in> set (schedules d')" "same_entry c' c" by blast
  with c slots show ?thesis unfolding read_ok_def same_entry_def same_terms_def by metis
qed

definition same_books :: "'a schedule_db_scheme \<Rightarrow> 'a schedule_db_scheme \<Rightarrow> bool" where
  "same_books d d' \<longleftrightarrow> list_all2 same_entry (schedules d') (schedules d) \<and> list_all2 same_item (occurrences d') (occurrences d)"

lemma same_books_frame [simp]: "schedule_frame d d' \<Longrightarrow> same_books d d'"
  by (simp add: same_books_def schedule_frame_def list.rel_refl)

lemma same_entry_trans: "same_entry a b \<Longrightarrow> same_entry b c \<Longrightarrow> same_entry a c"
  by (simp add: same_entry_def same_terms_def)

lemma same_item_trans: "same_item a b \<Longrightarrow> same_item b c \<Longrightarrow> same_item a c"
  by (simp add: same_item_def)

lemma same_entries_trans:
  "list_all2 same_entry xs ys \<Longrightarrow> list_all2 same_entry ys zs \<Longrightarrow> list_all2 same_entry xs zs"
  using list_all2_trans [of same_entry same_entry same_entry] same_entry_trans by blast

lemma same_items_trans:
  "list_all2 same_item xs ys \<Longrightarrow> list_all2 same_item ys zs \<Longrightarrow> list_all2 same_item xs zs"
  using list_all2_trans [of same_item same_item same_item] same_item_trans by blast

lemma same_books_trans: "same_books d e \<Longrightarrow> same_books e f \<Longrightarrow> same_books d f"
  by (auto simp: same_books_def intro: same_entries_trans same_items_trans)

lemma update_occurrence_books: "(\<And>x. p x \<Longrightarrow> same_item (f x) x) \<Longrightarrow> same_books d (update_occurrence p f d)"
  by (simp add: same_books_def update_occurrence_def list.rel_refl edited_update_first)

lemma update_schedule_books: "(\<And>x. p x \<Longrightarrow> same_entry (f x) x) \<Longrightarrow> same_books d (update_schedule p f d)"
  by (simp add: same_books_def update_schedule_def list.rel_refl edited_update_first)

lemma status_edits_keep_books:
  "same_books d (save_control action now i d)"
  "same_books d (closeActiveSchedule i status now d)"
  "same_books d (endSchedule i status now c d)"
  "same_books d (markOccurrenceSubmitted x now d)"
  "same_books d (markOccurrenceUncertain i pid hash rec now d)"
  "same_books d (markOccurrenceRetry x e now st d)"
  "same_books d (blockDepletedOccurrence i now d)"
  unfolding save_control_def closeActiveSchedule_def endSchedule_def markOccurrenceSubmitted_def
    markOccurrenceUncertain_def markOccurrenceRetry_def blockDepletedOccurrence_def
  by (rule update_schedule_books update_occurrence_books,
      simp add: same_entry_def same_terms_def same_item_def occ_slot_def control_edit_def split: schedule_action.split)+

lemma retarget_keeps_books: "same_books d (retarget_schedules w i r rail network asset dest now d)"
proof -
  have "list_all2 same_entry (update_all p (\<lambda>s. s\<lparr>sch_status := a, sch_pausedAt := b, sch_failureCode := c\<rparr>)
      (update_all q (\<lambda>s. s\<lparr>sch_destinationId := dest\<rparr>) xs)) xs" for p q a b c and xs :: "payment_schedule list"
    by (rule same_entries_trans; rule edited_update_all) (simp_all add: same_entry_def same_terms_def)
  then show ?thesis by (simp add: same_books_def retarget_schedules_def Let_def list.rel_refl)
qed

lemma take_occurrence_keeps_books: "take_occurrence states k now leaseId d = (r, d') \<Longrightarrow> same_books d d'"
  by (auto simp: take_occurrence_def find_and_update_Some same_books_def list.rel_refl leased_occurrence_def
      same_item_def occ_slot_def split: option.splits intro!: edited_update_first)

lemma store_keeps_books: "storeOccurrenceRequest x fresh now d = (r, d') \<Longrightarrow> same_books d d'"
  by (auto simp: storeOccurrenceRequest_def stored_request_def same_item_def occ_slot_def schedule_frame_def
      split: option.splits if_splits intro: update_occurrence_books same_books_frame)

lemma find_occurrenceD: "find_occurrence k d = Some x \<Longrightarrow> x \<in> set (occurrences d) \<and> occ_occurrenceId x = k"
  using find_SomeD by (fastforce simp: find_occurrence_def)

lemma find_scheduleD: "find_schedule k d = Some s \<Longrightarrow> s \<in> set (schedules d) \<and> sch_scheduleId s = k"
  using find_SomeD by (fastforce simp: find_schedule_def)

text \<open>Saving an edited document under a unique key.\<close>

lemma save_occurrence_items:
  assumes dist: "distinct (map occ_occurrenceId (occurrences d))" and x: "x \<in> set (occurrences d)"
    and y: "same_item y x" and frame: "occurrences e = occurrences d" "schedules e = schedules d"
  shows "same_books d (save_occurrence y e)"
proof -
  have "list_all2 same_item (update_first (\<lambda>z. occ_occurrenceId z = occ_occurrenceId y) (\<lambda>_. y) xs) xs"
    if "distinct (map occ_occurrenceId xs)" "x \<in> set xs" for xs
    using that y by (induction xs) (auto simp: list.rel_refl same_item_def intro!: list_all2_refl)
  with dist x frame show ?thesis by (simp add: same_books_def save_occurrence_def list.rel_refl)
qed

lemma reserve_keeps_books:
  assumes b: "schedule_books d" and r: "reserveOccurrenceBudget k now d = (r, d')"
  shows "same_books d d'"
  using r unfolding reserveOccurrenceBudget_def
proof (cases rule: transaction_cases)
  case (committed v)
  show ?thesis
  proof (cases "find_occurrence k d")
    case (Some x)
    have "distinct (map occ_occurrenceId (occurrences d))" "x \<in> set (occurrences d)"
      using b find_occurrenceD [OF Some] by (simp_all add: schedule_books_def)
    note save = save_occurrence_items [OF this]
    from committed(2) Some show ?thesis
      by (auto simp: reserve_occurrence_body_def save_session_def same_item_def occ_slot_def schedule_frame_def
          split: option.splits if_splits sum.splits intro!: save)
  qed (use committed(2) in \<open>auto simp: reserve_occurrence_body_def schedule_frame_def\<close>)
qed (simp add: schedule_frame_def)

lemma release_keeps_books:
  assumes b: "schedule_books d" and r: "releaseOccurrenceBudget k d = (r, d')"
  shows "same_books d d'"
proof (cases "find_occurrence k d")
  case (Some x)
  have "distinct (map occ_occurrenceId (occurrences d))" "x \<in> set (occurrences d)"
    using b find_occurrenceD [OF Some] by (simp_all add: schedule_books_def)
  note save = save_occurrence_items [OF this]
  from r Some show ?thesis
    by (auto simp: releaseOccurrenceBudget_def save_session_def same_item_def occ_slot_def schedule_frame_def bindE_def
        split: option.splits if_splits sum.splits intro!: save)
qed (use r in \<open>auto simp: releaseOccurrenceBudget_def schedule_frame_def\<close>)

lemma block_keeps_books:
  assumes b: "schedule_books d" and r: "blockOccurrence x e now d = (r, d')"
  shows "same_books d d'"
  using r unfolding blockOccurrence_def
proof (cases rule: transaction_cases)
  case (committed v)
  then obtain u d1 where rel: "releaseOccurrenceBudget (occ_occurrenceId x) d = (Inr u, d1)"
    and d': "d' = update_schedule (\<lambda>s. sch_scheduleId s = occ_scheduleId x \<and> sch_status s = SS_active)
        (\<lambda>s. s\<lparr>sch_status := SS_paused, sch_pausedAt := Some now, sch_failureCode := Some (error_code_or ''SCHEDULE_EXECUTION_BLOCKED'' e)\<rparr>)
        (update_occurrence (\<lambda>y. occ_occurrenceId y = occ_occurrenceId x) (blocked_occurrence (error_code_or ''SCHEDULE_EXECUTION_BLOCKED'' e) now) d1)"
    by (auto simp: block_body_def Let_def chain_eq_Inr)
  have "same_books d1 d'" unfolding d'
    by (rule same_books_trans [OF update_occurrence_books update_schedule_books])
      (simp_all add: same_item_def blocked_occurrence_def occ_slot_def same_entry_def same_terms_def)
  with release_keeps_books [OF b rel] show ?thesis by (rule same_books_trans)
qed (simp add: schedule_frame_def)

subsection \<open>A new schedule, a new occurrence\<close>

lemma total_none: "(\<And>x. x \<in> set xs \<Longrightarrow> \<not> p x) \<Longrightarrow> total p f xs = 0"
  by (induction xs) auto

lemma booksD:
  assumes "schedule_books d"
  shows "distinct (map sch_scheduleId (schedules d))" and "distinct (map occ_occurrenceId (occurrences d))"
    and "distinct (map occ_slot (occurrences d))" and "\<And>s. s \<in> set (schedules d) \<Longrightarrow> balanced (occurrences d) s"
    and "\<And>x. x \<in> set (occurrences d) \<Longrightarrow> \<exists>s \<in> set (schedules d). fits x s"
  using assms by (auto simp: schedule_books_def list_all_iff list_ex_iff)

lemma create_cases:
  assumes "createPaymentSchedule sha zones scheduleId sessionId i ownerWalletId now d = (r, d')"
  obtains (same) "d' = d"
    | (stored) s amount maxFee timeZone firstAt fingerprint where "schedules d' = schedules d @ [s]" and "occurrences d' = occurrences d"
      and "\<forall>x \<in> set (schedules d). \<not> schedule_clash s x" and "sessions d' = sessions d"
      and "schedule_amounts zones i = Inr (amount, maxFee, timeZone, firstAt)"
      and "planned_schedule zones scheduleId fingerprint sessionId i ownerWalletId now amount maxFee timeZone firstAt d = Inr s"
proof (cases "schedule_amounts zones i")
  case (Inl e)
  with assms same show thesis by (simp add: createPaymentSchedule_def)
next
  case (Inr v)
  obtain amount maxFee timeZone firstAt where v: "v = (amount, maxFee, timeZone, firstAt)" by (cases v)
  define fingerprint where "fingerprint = scheduleFingerprint sha i amount maxFee timeZone firstAt"
  show thesis
  proof (cases "find_replay ownerWalletId sessionId (si_idempotencyKey i) d")
    case (Some x)
    with assms Inr v same show thesis by (simp add: createPaymentSchedule_def Let_def)
  next
    case None
    show thesis
    proof (cases "planned_schedule zones scheduleId fingerprint sessionId i ownerWalletId now amount maxFee timeZone firstAt d")
      case (Inl e)
      with assms Inr v None same show thesis
        by (simp add: createPaymentSchedule_def Let_def fingerprint_def)
    next
      case plan: (Inr s)
      show thesis
      proof (cases "insert_row (schedule_clash s) s (schedules d)")
        case clash: None
        with assms Inr v None plan same show thesis
          by (simp add: createPaymentSchedule_def Let_def fingerprint_def)
      next
        case (Some ss)
        with assms Inr v None plan have "d' = writeAuditLog ownerWalletId ''schedule.created'' ''payment_schedule'' scheduleId (d\<lparr>schedules := ss\<rparr>)"
          by (simp add: createPaymentSchedule_def Let_def fingerprint_def)
        with Some [unfolded insert_row_Some] show thesis
          by (intro stored [OF _ _ _ _ Inr [unfolded v] plan]) (auto simp: writeAuditLog_def)
      qed
    qed
  qed
qed

lemma planned_scheduleD:
  assumes "planned_schedule zones scheduleId fingerprint sessionId i ownerWalletId now amount maxFee timeZone firstAt d = Inr s"
  obtains x anchorDay where "schedule_schema_ok s" and "schedule_checks i amount maxFee firstAt sessionId ownerWalletId d = Inr x"
    and "s = new_schedule scheduleId fingerprint i amount maxFee timeZone firstAt anchorDay sessionId ownerWalletId x now"
    and "(if si_cadence i = CD_monthly then bindE (occurrenceLocalDay zones firstAt timeZone) (\<lambda>n. Inr (Some n)) else Inr None)
      = Inr anchorDay"
proof -
  from assms obtain x where x: "schedule_checks i amount maxFee firstAt sessionId ownerWalletId d = Inr x"
    by (auto simp: planned_schedule_def)
  from assms x obtain anchorDay where a: "(if si_cadence i = CD_monthly then bindE (occurrenceLocalDay zones firstAt timeZone)
      (\<lambda>n. Inr (Some n)) else Inr None) = Inr anchorDay"
    by (cases "if si_cadence i = CD_monthly then bindE (occurrenceLocalDay zones firstAt timeZone) (\<lambda>n. Inr (Some n)) else Inr None")
      (simp_all add: planned_schedule_def)
  show thesis
    using assms by (intro that [OF _ x _ a]) (auto simp: planned_schedule_def x a Let_def)
qed

lemma schedule_amounts_pos: "schedule_amounts zones i = Inr (amount, maxFee, timeZone, firstAt) \<Longrightarrow> 0 < amount"
  by (auto simp: schedule_amounts_def)

lemma create_books:
  assumes b: "schedule_books d" and r: "createPaymentSchedule sha zones scheduleId sessionId i ownerWalletId now d = (rc, d')"
  shows "schedule_books d'" and "read_ok d s \<Longrightarrow> read_ok d' s"
proof -
  have "schedule_books d' \<and> (read_ok d s \<longrightarrow> read_ok d' s)"
    using r
  proof (cases rule: create_cases)
    case same
    with b show ?thesis by simp
  next
    case (stored n amount maxFee timeZone firstAt fingerprint)
    have new: "sch_scheduleId n \<notin> sch_scheduleId ` set (schedules d)"
      using stored(3) by (auto simp: schedule_clash_def)
    have zero: "total (spent_for (sch_scheduleId n)) f (occurrences d) = 0" for f
      by (rule total_none) (use booksD(5) [OF b] new in \<open>fastforce simp: spent_for_def fits_def\<close>)
    obtain x anchorDay where "schedule_schema_ok n" and
      "n = new_schedule scheduleId fingerprint i amount maxFee timeZone firstAt anchorDay sessionId ownerWalletId x now"
      by (rule planned_scheduleD [OF stored(6)])
    then have n: "schedule_schema_ok n" "sch_amountAtomic n = amount" "sch_occurrenceCount n = 0" "sch_spentAtomic n = 0"
      by (simp_all add: new_schedule_def)
    have "within_limit n 0" using n(1) by (auto simp: schedule_schema_ok_def within_limit_def split: option.splits)
    with zero n(2-4) schedule_amounts_pos [OF stored(5)] have "balanced (occurrences d) n" by (simp add: balanced_def)
    with b new stored(1,2) show ?thesis by (auto simp: schedule_books_def list_all_iff read_ok_def)
  qed
  then show "schedule_books d'" and "read_ok d s \<Longrightarrow> read_ok d' s" by blast+
qed

lemma claim_occurrence_cases:
  assumes "claimOccurrence sha s now workerId uuid d = (r, d')"
  obtains (same) "d' = d"
    | (taken) k rx where "take_occurrence open_states k now (workerId @ '':'' @ uuid) d = (rx, d')" and "r = Inr rx"
    | (inserted) k where "stableOccurrenceId sha (sch_scheduleId s) (sch_nextOccurrenceAt s) = Inr k"
      and "occurrences d' = occurrences d @ [new_occurrence k (workerId @ '':'' @ uuid) now s]"
      and "\<forall>x \<in> set (occurrences d). \<not> occurrence_clash (new_occurrence k (workerId @ '':'' @ uuid) now s) x"
      and "schedules d' = schedules d" and "sessions d' = sessions d"
proof (cases "stableOccurrenceId sha (sch_scheduleId s) (sch_nextOccurrenceAt s)")
  case (Inl e)
  with assms same show thesis by (simp add: claimOccurrence_def)
next
  case (Inr k)
  let ?x = "new_occurrence k (workerId @ '':'' @ uuid) now s"
  show thesis
  proof (cases "insert_row (occurrence_clash ?x) ?x (occurrences d)")
    case None
    with assms Inr show thesis by (auto simp: claimOccurrence_def Let_def split: prod.splits intro: taken)
  next
    case (Some xs)
    with assms Inr have "d' = d\<lparr>occurrences := xs\<rparr>" by (simp add: claimOccurrence_def Let_def)
    with Some [unfolded insert_row_Some] show thesis by (intro inserted [OF Inr]) auto
  qed
qed

lemma claim_books:
  assumes b: "schedule_books d" and r: "claimOccurrence sha s now workerId uuid d = (ro, d')" and read: "read_ok d s"
    and room: "case sch_occurrenceLimit s of None \<Rightarrow> True | Some n \<Rightarrow> sch_occurrenceCount s < n"
  shows "schedule_books d'" and "read_ok d t \<Longrightarrow> read_ok d' t"
proof -
  have "schedule_books d' \<and> (read_ok d t \<longrightarrow> read_ok d' t)"
    using r
  proof (cases rule: claim_occurrence_cases)
    case same
    with b show ?thesis by simp
  next
    case (taken k rx)
    from take_occurrence_keeps_books [OF taken(1)] b books_edit read_edit show ?thesis unfolding same_books_def by blast
  next
    case (inserted k)
    define x where "x = new_occurrence k (workerId @ '':'' @ uuid) now s"
    note ins = inserted(2,3) [folded x_def]
    have x: "occ_occurrenceId x = k" "occ_slot x = (sch_scheduleId s, sch_nextOccurrenceAt s)" "occ_reservationState x \<noteq> RV_spent"
      "occ_sessionId x = sch_sessionId s" "occ_amountAtomic x = sch_amountAtomic s"
      by (simp_all add: x_def new_occurrence_def occ_slot_def)
    have fresh: "occ_occurrenceId x \<notin> occ_occurrenceId ` set (occurrences d)" "occ_slot x \<notin> occ_slot ` set (occurrences d)"
      using ins(2) by (auto simp: occurrence_clash_def occ_slot_def)
    from read fresh(2) x(2) obtain c where c: "c \<in> set (schedules d)" "same_terms s c"
      "by_wallet s \<longrightarrow> sch_nextOccurrenceAt s = sch_nextOccurrenceAt c \<and> sch_occurrenceCount s = sch_occurrenceCount c"
      by (auto simp: read_ok_def)
    with x room have "fits x c"
      by (auto simp: fits_def same_terms_def occ_slot_def within_limit_def by_wallet_def split: option.splits)
    moreover have "balanced (occurrences d') t = balanced (occurrences d) t" for t
      using x(3) by (simp add: ins(1) balanced_def spent_for_def)
    moreover have "read_ok d t \<Longrightarrow> read_ok d' t" for t
      by (auto simp: read_ok_def ins(1) inserted(4))
    ultimately show ?thesis using b fresh c(1)
      by (auto simp: schedule_books_def inserted(4) list_all_iff list_ex_iff) (auto simp: ins(1))
  qed
  then show "schedule_books d'" and "read_ok d t \<Longrightarrow> read_ok d' t" by blast+
qed

subsection \<open>A paid occurrence\<close>

lemma paid_pass_reserved:
  "paid_pass p x s = Inr s' \<Longrightarrow> \<not> op_sessionAlreadyDebited p \<Longrightarrow> occ_reservationState x = RV_reserved"
  by (auto simp: paid_pass_def)

lemma moved_schedule_frame:
  "same_terms (moved_schedule b n u sc) sc" "sch_occurrenceCount (moved_schedule b n u sc) = sch_occurrenceCount sc"
  "sch_spentAtomic (moved_schedule b n u sc) = sch_spentAtomic sc"
  by (cases n; simp add: moved_schedule_def same_terms_def)+

lemma closed_if_terminal_frame [simp]: "same_entry (closed_if_terminal now sc) sc"
  by (simp add: closed_if_terminal_def same_entry_def same_terms_def)

lemma advanced_scheduleD:
  assumes "advanced_schedule zones now x s' sc = Inr sc'"
  shows "same_terms sc' sc" and "sch_occurrenceCount sc' = sch_occurrenceCount sc + 1"
    and "sch_spentAtomic sc' = sch_spentAtomic sc + occ_amountAtomic x"
proof -
  from assms obtain b n where sc': "sc' = closed_if_terminal now (moved_schedule b n (ses_expiryAt s')
      (counted_schedule (sch_spentAtomic sc + occ_amountAtomic x) x sc))"
    by (auto simp: advanced_schedule_def checkedAtomicValue_def Let_def split: if_splits)
  let ?c = "counted_schedule (sch_spentAtomic sc + occ_amountAtomic x) x sc"
  have "same_entry sc' (moved_schedule b n (ses_expiryAt s') ?c)" by (simp add: sc')
  then show "same_terms sc' sc" and "sch_occurrenceCount sc' = sch_occurrenceCount sc + 1"
    and "sch_spentAtomic sc' = sch_spentAtomic sc + occ_amountAtomic x"
    using moved_schedule_frame [of b n "ses_expiryAt s'" ?c]
    by (simp_all add: same_entry_def same_terms_def counted_schedule_def)
qed

text \<open>What a committed finalization does to the three collections.\<close>

lemma finalize_occurrence_cases:
  assumes "finalizeOccurrenceSuccess sha zones occ p now d = (r, d')"
  obtains (same) "schedule_frame d d'" and "sessions d' = sessions d"
        and "\<And>x. r = Inr () \<Longrightarrow> find_occurrence (occ_occurrenceId occ) d = Some x \<Longrightarrow> occ_status x = OS_succeeded"
    | (booked) x sc s s' sc' where "find_occurrence (occ_occurrenceId occ) d = Some x" and "occ_status x \<noteq> OS_succeeded"
      and "find_schedule (occ_scheduleId x) d = Some sc" and "find_session (occ_sessionId x) d = Some s"
      and "paid_pass p x s = Inr s'" and "advanced_schedule zones now x s' sc = Inr sc'"
      and "schedules d' = update_first (\<lambda>y. sch_scheduleId y = sch_scheduleId sc') (\<lambda>_. sc') (schedules d)"
      and "occurrences d' = update_first (\<lambda>y. occ_occurrenceId y = occ_occurrenceId x) (\<lambda>_. succeeded_occurrence p now x) (occurrences d)"
      and "sessions d' = (if op_sessionAlreadyDebited p then sessions d
            else update_first (\<lambda>y. ses_publicId y = ses_publicId s') (\<lambda>_. s') (sessions d))"
      and "r = Inr ()"
proof -
  obtain r1 d1 where t: "transaction (finalize_occurrence_body sha zones (occ_occurrenceId occ) p now) d = (r1, d1)" by fastforce
  have after: "schedule_frame d1 d' \<and> sessions d' = sessions d1 \<and> (\<forall>v. r1 = Inr v \<longrightarrow> r = Inr ())" if "r1 = Inr v \<or> d' = d1" for v
    using assms t by (cases r1) (auto simp: finalizeOccurrenceSuccess_def schedule_frame_def queueReceiptNotifications_def
        Let_def writeAuditLog_def split: option.splits)
  from t show thesis
  proof (cases rule: transaction_cases)
    case (aborted e)
    with assms t have "d' = d" "r = Inl e" by (simp_all add: finalizeOccurrenceSuccess_def)
    then show thesis by (intro same) (simp_all add: schedule_frame_def)
  next
    case (committed v)
    note fr = after [OF disjI1, OF committed(1)]
    show thesis
    proof (cases v)
      case None
      have "d1 = d \<and> (\<forall>x. find_occurrence (occ_occurrenceId occ) d = Some x \<longrightarrow> occ_status x = OS_succeeded)"
        using committed(2) None
        by (auto simp: finalize_occurrence_body_def chain_eq_Inr split: option.splits if_splits sum.splits)
      with fr show thesis by (intro same) (simp_all add: schedule_frame_def)
    next
      case (Some i)
      from committed(2) obtain x where x: "find_occurrence (occ_occurrenceId occ) d = Some x" "occ_status x \<noteq> OS_succeeded"
        unfolding Some finalize_occurrence_body_def by (auto split: option.splits if_splits)
      note body = committed(2) [unfolded Some finalize_occurrence_body_def x(1) option.case if_not_P [OF x(2)]]
      from body obtain sc s where m: "find_schedule (occ_scheduleId x) d = Some sc" "find_session (occ_sessionId x) d = Some s"
        by (auto split: option.splits)
      note body1 = body [unfolded m option.case prod.case]
      then obtain s' sc' where n: "paid_pass p x s = Inr s'" "advanced_schedule zones now x s' sc = Inr sc'"
        by (cases "paid_pass p x s"; simp) (auto simp: bindE_def split: sum.splits)
      from body1 have c: "createPaymentReceipt sha now (occurrence_receipt p now x) (save_schedule sc' (save_occurrence (succeeded_occurrence p now x)
              (if op_sessionAlreadyDebited p then d else save_session s' d))) = (Inr i, d1)"
        by (simp add: n chain_eq_Inr)
      have "schedules d1 = schedules (save_schedule sc' (save_occurrence (succeeded_occurrence p now x)
              (if op_sessionAlreadyDebited p then d else save_session s' d)))
          \<and> occurrences d1 = occurrences (save_schedule sc' (save_occurrence (succeeded_occurrence p now x)
              (if op_sessionAlreadyDebited p then d else save_session s' d)))
          \<and> sessions d1 = sessions (save_schedule sc' (save_occurrence (succeeded_occurrence p now x)
              (if op_sessionAlreadyDebited p then d else save_session s' d)))"
        using c by (auto elim!: createPaymentReceipt_Inr)
      with fr Some committed(1) show thesis
        by (intro booked [OF x m n])
          (auto simp: schedule_frame_def save_schedule_def save_occurrence_def save_session_def succeeded_occurrence_def)
    qed
  qed
qed

lemma succeeded_occurrence_frame:
  "occ_occurrenceId (succeeded_occurrence p now x) = occ_occurrenceId x" "occ_slot (succeeded_occurrence p now x) = occ_slot x"
  "occ_sessionId (succeeded_occurrence p now x) = occ_sessionId x" "occ_amountAtomic (succeeded_occurrence p now x) = occ_amountAtomic x"
  "occ_scheduleId (succeeded_occurrence p now x) = occ_scheduleId x"
  "occ_reservationState (succeeded_occurrence p now x) = (if op_sessionAlreadyDebited p then occ_reservationState x else RV_spent)"
  by (simp_all add: succeeded_occurrence_def occ_slot_def)

text \<open>Two documents under one key are one document.\<close>

lemma one_document: "distinct (map key xs) \<Longrightarrow> x \<in> set xs \<Longrightarrow> y \<in> set xs \<Longrightarrow> key x = key y \<Longrightarrow> x = y"
  by (metis distinct_map inj_on_def)

lemma map_update_first_member:
  "(\<And>z. z \<in> set xs \<Longrightarrow> q z \<Longrightarrow> g (f z) = g z) \<Longrightarrow> map g (update_first q f xs) = map g xs"
  by (induction xs) auto

lemma replaced_set:
  assumes "distinct (map key xs)" and "x \<in> set xs" and "key y = key x"
  shows "set (update_first (\<lambda>z. key z = key y) (\<lambda>_. y) xs) = insert y (set xs - {x})"
  using set_update_find [OF assms(1) find_unique_key [OF assms(1,2)], of "key x" "\<lambda>_. y"] assms(3) by simp

lemma booked_books:
  assumes b: "schedule_books d" and x: "x \<in> set (occurrences d)" and sc: "sc \<in> set (schedules d)" "sch_scheduleId sc = occ_scheduleId x"
    and sc': "same_terms sc' sc" "sch_occurrenceCount sc' = sch_occurrenceCount sc + 1" "sch_spentAtomic sc' = sch_spentAtomic sc + occ_amountAtomic x"
    and held: "by_wallet sc \<Longrightarrow> \<not> op_sessionAlreadyDebited p \<and> occ_reservationState x = RV_reserved"
    and fiber: "\<not> by_wallet sc \<Longrightarrow> op_sessionAlreadyDebited p"
    and ss: "schedules d' = update_first (\<lambda>y. sch_scheduleId y = sch_scheduleId sc') (\<lambda>_. sc') (schedules d)"
    and os: "occurrences d' = update_first (\<lambda>y. occ_occurrenceId y = occ_occurrenceId x) (\<lambda>_. succeeded_occurrence p now x) (occurrences d)"
  shows "schedule_books d'" and "read_ok d t \<Longrightarrow> read_ok d' t"
proof -
  note B = booksD [OF b]
  let ?y = "succeeded_occurrence p now x"
  note y = succeeded_occurrence_frame [of p now x]
  have id: "sch_scheduleId sc' = sch_scheduleId sc" and wallet: "by_wallet sc' = by_wallet sc" and wl: "within_limit sc' = within_limit sc"
    using sc'(1) by (simp_all add: same_terms_def by_wallet_def within_limit_def fun_eq_iff)
  have found: "List.find (\<lambda>z. occ_occurrenceId z = occ_occurrenceId x) (occurrences d) = Some x"
    by (rule find_unique_key [OF B(2) x])
  have x_id: "z = x" if "z \<in> set (occurrences d)" "occ_occurrenceId z = occ_occurrenceId x" for z
    by (rule one_document [OF B(2) that(1) x that(2)])
  have S: "set (schedules d') = insert sc' (set (schedules d) - {sc})"
    unfolding ss by (rule replaced_set [OF B(1) sc(1) id])
  have O: "set (occurrences d') = insert ?y (set (occurrences d) - {x})"
    unfolding os using replaced_set [OF B(2) x y(1)] by (simp add: y(1))
  have slots: "map occ_slot (occurrences d') = map occ_slot (occurrences d)"
    unfolding os by (rule map_update_first_member) (use x_id y(2) in auto)
  have keys: "map occ_occurrenceId (occurrences d') = map occ_occurrenceId (occurrences d)"
    unfolding os by (rule map_update_first) (simp add: y)
  have ids: "map sch_scheduleId (schedules d') = map sch_scheduleId (schedules d)"
    unfolding ss by (rule map_update_first) simp
  obtain c where "c \<in> set (schedules d)" "fits x c" using B(5) [OF x] by blast
  with one_document [OF B(1) _ sc(1), of c] sc(2) have fit: "fits x sc" by (auto simp: fits_def)
  have sums: "total (spent_for i) f (occurrences d') = total (spent_for i) f (occurrences d)
      + (if by_wallet sc \<and> i = occ_scheduleId x then f x else 0)" if "f ?y = f x" for i f
    using held fiber that unfolding os total_update_first [OF found] by (auto simp: spent_for_def y)
  have bal: "balanced (occurrences d') s" if s: "s \<in> set (schedules d')" for s
  proof (cases "s = sc'")
    case True
    then show ?thesis
      using B(4) [OF sc(1)] sc' fit sums [of "\<lambda>_. 1"] held y wl wallet id sc(2)
      by (auto simp: balanced_def fits_def same_terms_def distrib_right)
  next
    case False
    with s S have s: "s \<in> set (schedules d)" "s \<noteq> sc" by auto
    then have "sch_scheduleId s \<noteq> occ_scheduleId x" using one_document [OF B(1) _ sc(1)] sc(2) by metis
    with B(4) [OF s(1)] show ?thesis
      using sums [of "\<lambda>_. 1"] y(4) by (auto simp: balanced_def)
  qed
  have fits': "\<exists>s \<in> set (schedules d'). fits z s" if z: "z \<in> set (occurrences d')" for z
  proof (cases "z = ?y")
    case True
    then have "fits z sc'" using fit held sc'(1) id wallet y
      by (auto simp: fits_def same_terms_def occ_slot_def)
    with S show ?thesis by blast
  next
    case False
    with z O have z: "z \<in> set (occurrences d)" "z \<noteq> x" by auto
    from B(5) [OF z(1)] obtain s where s: "s \<in> set (schedules d)" "fits z s" by blast
    show ?thesis
    proof (cases "s = sc")
      case True
      have "occ_reservationState z = RV_spent" if "by_wallet sc"
      proof (rule ccontr)
        assume "occ_reservationState z \<noteq> RV_spent"
        with s(2) True that fit held have "occ_slot z = occ_slot x" by (auto simp: fits_def occ_slot_def)
        with one_document [OF B(3) z(1) x] z(2) show False by blast
      qed
      with s(2) True sc'(1) id wallet have "fits z sc'" by (auto simp: fits_def same_terms_def)
      with S show ?thesis by blast
    qed (use s S in auto)
  qed
  show "schedule_books d'"
    using B bal fits' by (simp add: schedule_books_def slots keys ids list_all_iff list_ex_iff)
  assume "read_ok d t"
  then obtain c where c: "c \<in> set (schedules d)" "same_terms t c"
    "by_wallet t \<longrightarrow> sch_nextOccurrenceAt t = sch_nextOccurrenceAt c \<and> sch_occurrenceCount t = sch_occurrenceCount c
      \<or> (sch_scheduleId t, sch_nextOccurrenceAt t) \<in> set (map occ_slot (occurrences d))" by (auto simp: read_ok_def)
  show "read_ok d' t"
  proof (cases "c = sc")
    case True
    have "by_wallet t \<Longrightarrow> (sch_scheduleId t, sch_nextOccurrenceAt t) \<in> set (map occ_slot (occurrences d))"
      using c True fit held x sc(2) by (force simp: same_terms_def by_wallet_def fits_def occ_slot_def)
    moreover have "same_terms t sc'" using c(2) True sc'(1) by (simp add: same_terms_def)
    ultimately show ?thesis using S by (auto simp: read_ok_def slots)
  qed (use c S slots in \<open>auto simp: read_ok_def\<close>)
qed

lemma finalize_books:
  assumes b: "schedule_books d" and r: "finalizeOccurrenceSuccess sha zones occ p now d = (ru, d')"
    and exec: "\<And>y sc. find_occurrence (occ_occurrenceId occ) d = Some y \<Longrightarrow> find_schedule (occ_scheduleId y) d = Some sc \<Longrightarrow>
      op_sessionAlreadyDebited p = (sch_executor sc = ME_fiber)"
  shows "schedule_books d'" and "read_ok d t \<Longrightarrow> read_ok d' t"
proof -
  have "schedule_books d' \<and> (read_ok d t \<longrightarrow> read_ok d' t)"
    using r
  proof (cases rule: finalize_occurrence_cases)
    case same
    with b show ?thesis by (simp add: schedule_books_def read_ok_def schedule_frame_def)
  next
    case (booked x sc s s' sc')
    have "op_sessionAlreadyDebited p = (\<not> by_wallet sc)" using exec [OF booked(1,3)] by (simp add: by_wallet_def)
    then show ?thesis
      using booked_books [OF b _ _ _ advanced_scheduleD [OF booked(6)] _ _ booked(7,8)]
        paid_pass_reserved [OF booked(5)] find_occurrenceD [OF booked(1)] find_scheduleD [OF booked(3)] by blast
  qed
  then show "schedule_books d'" and "read_ok d t \<Longrightarrow> read_ok d' t" by blast+
qed

subsection \<open>Any interleaving\<close>

lemma same_books_keep:
  assumes "schedule_books d" and "same_books d d'"
  shows "schedule_books d'" and "read_ok d s \<Longrightarrow> read_ok d' s"
  using assms books_edit read_edit unfolding same_books_def by blast+

lemma schedule_step_books:
  assumes "schedule_step sha zones R d d'" and b: "schedule_books d" and R: "\<forall>s \<in> R. read_ok d s"
  shows "schedule_books d' \<and> (\<forall>s \<in> R. read_ok d' s)"
proof -
  have keep: "schedule_books d' \<and> (\<forall>s \<in> R. read_ok d' s)" if "same_books d d'"
    using same_books_keep [OF b that] R by blast
  from assms(1) show ?thesis
  proof cases
    case create
    with create_books [OF b create] R show ?thesis by blast
  next
    case (claim s)
    with claim_books [OF b claim(1) _ claim(3)] R show ?thesis by blast
  next
    case (finalize x p now ru)
    have "schedule_books d'" by (rule finalize_books(1) [OF b finalize(1)]) (rule finalize(2))
    moreover have "read_ok d' t" if "read_ok d t" for t by (rule finalize_books(2) [OF b finalize(1) _ that]) (rule finalize(2))
    ultimately show ?thesis using R by blast
  next
    case in_flight
    then show ?thesis unfolding claimInFlightOccurrence_def by (rule keep [OF take_occurrence_keeps_books])
  next
    case reserve
    then show ?thesis by (rule keep [OF reserve_keeps_books [OF b]])
  next
    case store
    then show ?thesis by (rule keep [OF store_keeps_books])
  next
    case block
    then show ?thesis by (rule keep [OF block_keeps_books [OF b]])
  qed (rule keep, simp add: status_edits_keep_books retarget_keeps_books)+
qed

lemma schedule_history_books:
  assumes "schedule_history sha zones R0 d0 R d" and "schedule_books d0" and "\<forall>s \<in> R0. read_ok d0 s"
  shows "schedule_books d \<and> (\<forall>s \<in> R. read_ok d s)"
  using assms
proof (induction rule: schedule_history.induct)
  case (read R d s)
  then have "read_ok d s" unfolding read_ok_def by (intro bexI [of _ s]) simp_all
  with read show ?case by blast
next
  case (step R d d')
  with schedule_step_books show ?case by blast
next
  case (other R d d')
  with same_books_keep [OF _ same_books_frame [OF other(2)]] show ?case by blast
qed simp

definition open_occurrences :: "payment_schedule \<Rightarrow> 'a schedule_db_scheme \<Rightarrow> scheduled_occurrence list" where
  "open_occurrences s d =
     filter (\<lambda>x. occ_scheduleId x = sch_scheduleId s \<and> occ_reservationState x \<noteq> RV_spent) (occurrences d)"

lemma at_most_one:
  assumes "distinct (map key xs)" and "\<And>x. x \<in> set xs \<Longrightarrow> P x \<Longrightarrow> key x = k"
  shows "length (filter P xs) \<le> 1"
proof -
  have "distinct (map key (filter P xs))" using assms(1) by (simp add: distinct_map_filter)
  then have "length (filter P xs) = card (set (map key (filter P xs)))" using distinct_card by fastforce
  also have "\<dots> \<le> card {k}" by (rule card_mono) (use assms(2) in auto)
  finally show ?thesis by simp
qed

lemma fits_own:
  assumes "schedule_books d" and "s \<in> set (schedules d)" and "x \<in> set (occurrences d)" and "occ_scheduleId x = sch_scheduleId s"
  shows "fits x s"
proof -
  obtain c where c: "c \<in> set (schedules d)" "fits x c" using booksD(5) [OF assms(1,3)] by blast
  from c(2) assms(4) have "sch_scheduleId c = sch_scheduleId s" by (simp add: fits_def)
  with one_document [OF booksD(1) [OF assms(1)] c(1) assms(2)] c(2) show ?thesis by simp
qed

lemma due_times_distinct:
  assumes "schedule_books d"
  shows "distinct (map occ_dueAt (filter (\<lambda>x. occ_scheduleId x = i) (occurrences d)))"
proof -
  have "distinct (map occ_slot (filter (\<lambda>x. occ_scheduleId x = i) (occurrences d)))"
    using booksD(3) [OF assms] by (simp add: distinct_map_filter)
  then show ?thesis by (auto simp: distinct_map inj_on_def occ_slot_def)
qed

text \<open>
  Property C23: the accounts of a schedule. Whatever the interleaving of owners, workers holding stale
  documents and other services, the amount any schedule counts as spent is the number of payments it
  counts times its fixed amount, and no two of its occurrences have the same due time. For a schedule
  paid by a connected wallet (executors nwc and btcpay) the number it counts is the number of its
  occurrences whose reservation was spent, the occurrence limit is never exceeded, and at most one
  occurrence is not paid, the one at the next due time. Schedules paid over Fiber are left out of the
  second part: their occurrences carry no reservation, since the charge service debits the pass.
\<close>

theorem schedule_accounts:
  assumes "schedule_history sha zones {} d0 R d" and "schedule_books d0" and "s \<in> set (schedules d)"
  shows "sch_spentAtomic s = sch_occurrenceCount s * sch_amountAtomic s
    \<and> distinct (map occ_dueAt (filter (\<lambda>x. occ_scheduleId x = sch_scheduleId s) (occurrences d)))
    \<and> (sch_executor s \<noteq> ME_fiber \<longrightarrow>
        sch_occurrenceCount s = total (spent_for (sch_scheduleId s)) (\<lambda>_. 1) (occurrences d)
      \<and> within_limit s (sch_occurrenceCount s)
      \<and> length (open_occurrences s d) \<le> 1
      \<and> (\<forall>x \<in> set (open_occurrences s d). occ_dueAt x = sch_nextOccurrenceAt s))"
proof -
  have b: "schedule_books d" using schedule_history_books [OF assms(1,2)] by simp
  have bal: "balanced (occurrences d) s" by (rule booksD(4) [OF b assms(3)])
  have due: "occ_dueAt x = sch_nextOccurrenceAt s" if "sch_executor s \<noteq> ME_fiber" "x \<in> set (open_occurrences s d)" for x
    using that fits_own [OF b assms(3), of x] by (auto simp: open_occurrences_def fits_def by_wallet_def)
  have "length (open_occurrences s d) \<le> 1" if "sch_executor s \<noteq> ME_fiber" unfolding open_occurrences_def
    by (rule at_most_one [OF booksD(3) [OF b], of _ "(sch_scheduleId s, sch_nextOccurrenceAt s)"])
      (use due [OF that] in \<open>auto simp: occ_slot_def open_occurrences_def\<close>)
  with bal due due_times_distinct [OF b] show ?thesis by (auto simp: balanced_def by_wallet_def)
qed

subsection \<open>A sample\<close>

text \<open>Time zones without offsets, and a daily schedule of two payments of 30 on a pass with a limit of 100.\<close>

definition utc :: time_zones where
  "utc = \<lparr>tz_valid = (\<lambda>z. z = ''UTC''),
     tz_local = (\<lambda>_ t. case civil_of_day (t div MS_PER_DAY) of (y, m, d) \<Rightarrow>
       \<lparr>lt_year = y, lt_month = m, lt_day = d, lt_ms = t mod MS_PER_DAY\<rparr>),
     tz_instant = (\<lambda>_ l. day_of_civil (lt_year l) (lt_month l) (lt_day l) * MS_PER_DAY + lt_ms l)\<rparr>"

definition sample_schedule :: payment_schedule where
  "sample_schedule = \<lparr>sch_scheduleId = ''sch'', sch_sessionId = ''pass'', sch_ownerWalletId = ''w'', sch_idempotencyKey = ''key'',
     sch_requestFingerprint = ''f'', sch_recipientId = ''r'', sch_destinationId = ''dst'', sch_rail = R_lightning,
     sch_network = ''regtest'', sch_assetId = ''bitcoin:btc'', sch_amountAtomic = 30, sch_maxFeeAtomic = 0, sch_spentAtomic = 0,
     sch_executor = ME_nwc, sch_connectionId = Some ''c'', sch_cadence = CD_daily, sch_timeZone = ''UTC'', sch_anchorDay = None,
     sch_customIntervalSeconds = None, sch_status = SS_active, sch_nextOccurrenceAt = 1000, sch_lastOccurrenceAt = None,
     sch_occurrenceLimit = Some 2, sch_occurrenceCount = 0, sch_completedAt = None, sch_pausedAt = None, sch_revokedAt = None,
     sch_failureCode = None, sch_createdAt = 0\<rparr>"

definition sample_occurrence :: scheduled_occurrence where
  "sample_occurrence = (new_occurrence ''occ_h'' ''w:u'' 2000 sample_schedule)\<lparr>occ_status := OS_executing,
     occ_reservationState := RV_reserved, occ_reservedAt := Some 2000, occ_submittedAt := Some 2000\<rparr>"

definition sample_wallet_pass :: session where
  "sample_wallet_pass = sample_session\<lparr>ses_publicId := ''pass'', ses_ownerWalletId := ''w'', ses_limitAtomic := Some 100,
     ses_spentAtomic := Some 0, ses_reservedAtomic := Some 0\<rparr>"

definition sample_sdb :: schedule_db where
  "sample_sdb = metered_db.extend (core_db.extend (empty_db\<lparr>sessions := [sample_wallet_pass]\<rparr>)
       \<lparr>apps = [], destinations = [], nwc_connections = [], btcpay_connections = [], grants = [], events = [], batches = [],
        rate_counters = []\<rparr>)
     \<lparr>schedules = [sample_schedule], occurrences = [], recipients = []\<rparr>"

definition sample_reserved_sdb :: schedule_db where
  "sample_reserved_sdb = sample_sdb\<lparr>sessions := [sample_wallet_pass\<lparr>ses_reservedAtomic := Some 30\<rparr>], occurrences := [sample_occurrence]\<rparr>"

lemmas sample_sdb_defs = sample_sdb_def empty_db_def metered_db.defs core_db.defs

lemma sample_books: "schedule_books sample_sdb" "schedule_books sample_reserved_sdb"
  by (simp_all add: sample_reserved_sdb_def sample_sdb_defs schedule_books_def balanced_def fits_def within_limit_def sample_schedule_def
      sample_occurrence_def new_occurrence_def spent_for_def by_wallet_def)

lemma sample_claimed:
  "claimOccurrence (\<lambda>_. ''h'') sample_schedule 2000 ''w'' ''u'' sample_sdb
    = (Inr (Some (new_occurrence ''occ_h'' ''w:u'' 2000 sample_schedule)),
       sample_sdb\<lparr>occurrences := [new_occurrence ''occ_h'' ''w:u'' 2000 sample_schedule]\<rparr>)"
  by (simp add: claimOccurrence_def stableOccurrenceId_def sample_schedule_def trim_def is_space_def insert_row_def Let_def sample_sdb_defs)

lemma sample_read: "schedule_history sha zones {} sample_sdb {sample_schedule} sample_sdb"
  by (rule read [OF start]) (simp add: sample_sdb_defs)

theorem schedule_accounts_witness:
  "\<exists>d. schedule_history (\<lambda>_. ''h'') utc {} sample_sdb {sample_schedule} d \<and> length (occurrences d) = 1
    \<and> length (open_occurrences sample_schedule d) \<le> 1"
proof -
  let ?d = "sample_sdb\<lparr>occurrences := [new_occurrence ''occ_h'' ''w:u'' 2000 sample_schedule]\<rparr>"
  have h: "schedule_history (\<lambda>_. ''h'') utc {} sample_sdb {sample_schedule} ?d"
    by (rule step [OF sample_read], rule claim [OF sample_claimed]) (simp_all add: sample_schedule_def)
  have s: "sample_schedule \<in> set (schedules ?d)" "sch_executor sample_schedule \<noteq> ME_fiber"
    by (simp add: sample_sdb_defs) (simp add: sample_schedule_def)
  from h s(2) schedule_accounts [OF h sample_books(1) s(1)] show ?thesis by (intro exI [of _ ?d]) simp
qed

end
