(* ===== verification/Schedule_Passes.thy ===== *)
theory Schedule_Passes
  imports Schedule_Accounts
begin

section \<open>Schedules and the pass\<close>

text \<open>
  The pass as an escrow account of the schedule service: a reserved occurrence holds its amount, a paid
  one moves it from reserved to spent, a blocked one gives it back. The locale \<open>escrow\<close> of theory
  Ledger is interpreted on the money of a pass, and every statement of the service is one of its calls
  or leaves the account alone.
\<close>

subsection \<open>The account\<close>

definition pm_reserve :: "int \<Rightarrow> pass_money \<Rightarrow> pass_money option" where
  "pm_reserve n m = (if pm_spent m + pm_reserved m + n > pm_limit m then None else Some (m\<lparr>pm_reserved := pm_reserved m + n\<rparr>))"

definition pm_settle :: "int \<Rightarrow> pass_money \<Rightarrow> pass_money option" where
  "pm_settle n m = (if pm_reserved m < n then None else Some (m\<lparr>pm_reserved := pm_reserved m - n, pm_spent := pm_spent m + n\<rparr>))"

definition pm_release :: "int \<Rightarrow> pass_money \<Rightarrow> pass_money option" where
  "pm_release n m = (if pm_reserved m < n then None else Some (m\<lparr>pm_reserved := pm_reserved m - n\<rparr>))"

interpretation schedule_pass: escrow pm_limit pm_spent pm_reserved pm_reserve pm_settle pm_release
  by unfold_locales (auto simp: pm_reserve_def pm_settle_def pm_release_def split: if_splits)

lemma sessionAtomicFields_simps:
  assumes "ses_limitAtomic s = Some l" and "ses_spentAtomic s = Some p" and "ses_reservedAtomic s = Some r"
  shows "sessionAtomicFields s = Inr \<lparr>pm_limit = l, pm_spent = p, pm_reserved = r\<rparr>"
  using assms by (simp add: sessionAtomicFields_def)

lemma setAtomicCompatibilityD:
  assumes "setAtomicCompatibility s f v = Inr s'"
  shows "s' = write_atomic s f v \<or> s' = write_minor (write_atomic s f v) f v"
  using assms by (auto simp: setAtomicCompatibility_def checkedAtomicValue_def split: if_splits)

lemma atomic_field_written:
  assumes "setAtomicCompatibility s f v = Inr s'"
  shows "atomic_field f s' = Some v" and "g \<noteq> f \<Longrightarrow> atomic_field g s' = atomic_field g s"
    and "g \<noteq> f \<Longrightarrow> minor_field g s' = minor_field g s" and "ses_publicId s' = ses_publicId s"
    and "ses_limit s' = ses_limit s" and "ses_spent s' = ses_spent s" and "ses_currency s' = ses_currency s"
    and "ses_status s' = ses_status s" and "ses_expiryAt s' = ses_expiryAt s"
  using setAtomicCompatibilityD [OF assms] by (cases f; cases g; auto)+

text \<open>Writing the reserved amount changes nothing else of the account, and likewise the spent amount.\<close>

lemma write_reserved:
  assumes "sessionAtomicFields s = Inr m" and "setAtomicCompatibility s LF_reserved v = Inr s'"
  shows "sessionAtomicFields s' = Inr (m\<lparr>pm_reserved := v\<rparr>)"
  using assms(1) atomic_field_written(2,3) [OF assms(2), of LF_limit] atomic_field_written(2,3) [OF assms(2), of LF_spent]
    atomic_field_written(1,5-7) [OF assms(2)]
  by (auto simp: sessionAtomicFields_def cong: option.case_cong)

lemma write_spent:
  assumes "sessionAtomicFields s = Inr m" and "setAtomicCompatibility s LF_spent v = Inr s'"
  shows "sessionAtomicFields s' = Inr (m\<lparr>pm_spent := v\<rparr>)"
  using assms(1) atomic_field_written(2,3) [OF assms(2), of LF_limit] atomic_field_written(2,3) [OF assms(2), of LF_reserved]
    atomic_field_written(1,5-7) [OF assms(2)]
  by (auto simp: sessionAtomicFields_def cong: option.case_cong)

lemma write_limit:
  assumes "sessionAtomicFields s = Inr m" and "setAtomicCompatibility s LF_limit v = Inr s'"
  shows "sessionAtomicFields s' = Inr (m\<lparr>pm_limit := v\<rparr>)"
  using assms(1) atomic_field_written(2,3) [OF assms(2), of LF_spent] atomic_field_written(2,3) [OF assms(2), of LF_reserved]
    atomic_field_written(1,5-7) [OF assms(2)]
  by (auto simp: sessionAtomicFields_def cong: option.case_cong)

lemma reserved_pass_call:
  assumes "reserved_pass n s = Inr (Some s')"
  obtains m m' where "sessionAtomicFields s = Inr m" and "sessionAtomicFields s' = Inr m'" and "pm_reserve n m = Some m'"
    and "ses_publicId s' = ses_publicId s"
proof -
  from assms obtain m s1 s2 where m: "sessionAtomicFields s = Inr m" "\<not> pm_spent m + pm_reserved m + n > pm_limit m"
    and w: "setAtomicCompatibility s LF_limit (pm_limit m) = Inr s1" "setAtomicCompatibility s1 LF_spent (pm_spent m) = Inr s2"
      "setAtomicCompatibility s2 LF_reserved (pm_reserved m + n) = Inr s'"
    by (auto simp: reserved_pass_def split: if_splits)
  show thesis
    by (rule that [OF m(1) write_reserved [OF write_spent [OF write_limit [OF m(1) w(1)] w(2)] w(3)]])
      (use m(2) w [THEN atomic_field_written(4)] in \<open>auto simp: pm_reserve_def\<close>)
qed

lemma released_pass_call:
  assumes "released_pass n s = Inr s'"
  obtains m where "sessionAtomicFields s = Inr m" and "ses_publicId s' = ses_publicId s"
    and "sessionAtomicFields s' = Inr (m\<lparr>pm_reserved := (if pm_reserved m \<ge> n then pm_reserved m - n else 0)\<rparr>)"
proof -
  from assms obtain m where m: "sessionAtomicFields s = Inr m"
    and w: "setAtomicCompatibility s LF_reserved (if pm_reserved m \<ge> n then pm_reserved m - n else 0) = Inr s'"
    by (auto simp: released_pass_def)
  show thesis by (rule that [OF m atomic_field_written(4) [OF w] write_reserved [OF m w]])
qed

lemma paid_pass_call:
  assumes "paid_pass p x s = Inr s'" and "\<not> op_sessionAlreadyDebited p"
  obtains m m' where "sessionAtomicFields s = Inr m" and "sessionAtomicFields s' = Inr m'"
    and "pm_settle (occ_amountAtomic x) m = Some m'" and "ses_publicId s' = ses_publicId s"
proof -
  from assms obtain m s1 where m: "sessionAtomicFields s = Inr m" "\<not> pm_reserved m < occ_amountAtomic x"
    and w: "setAtomicCompatibility s LF_reserved (pm_reserved m - occ_amountAtomic x) = Inr s1"
      "setAtomicCompatibility s1 LF_spent (pm_spent m + occ_amountAtomic x) = Inr s'"
    by (auto simp: paid_pass_def)
  show thesis
    by (rule that [OF m(1) write_spent [OF write_reserved [OF m(1) w(1)] w(2)]])
      (use m(2) w [THEN atomic_field_written(4)] in \<open>auto simp: pm_settle_def\<close>)
qed

subsection \<open>What occurrences hold on a pass\<close>

definition holds_on :: "string \<Rightarrow> scheduled_occurrence \<Rightarrow> bool" where
  "holds_on j x \<longleftrightarrow> occ_sessionId x = j \<and> occ_reservationState x = RV_reserved"

definition held_on :: "string \<Rightarrow> 'a schedule_db_scheme \<Rightarrow> int" where
  "held_on j d = total (holds_on j) occ_amountAtomic (occurrences d)"

definition pass_covers :: "'a schedule_db_scheme \<Rightarrow> bool" where
  "pass_covers d \<longleftrightarrow> distinct (map ses_publicId (sessions d))
     \<and> list_all (\<lambda>s. case sessionAtomicFields s of Inl _ \<Rightarrow> True | Inr m \<Rightarrow> held_on (ses_publicId s) d \<le> pm_reserved m) (sessions d)"

definition escrow_move :: "session \<Rightarrow> session \<Rightarrow> bool" where
  "escrow_move s s' \<longleftrightarrow> (\<exists>m m' c. sessionAtomicFields s = Inr m \<and> sessionAtomicFields s' = Inr m' \<and> schedule_pass.call c m = Some m'
     \<and> 0 < ledger_amount c)"

definition pass_moves :: "'a schedule_db_scheme \<Rightarrow> 'a schedule_db_scheme \<Rightarrow> bool" where
  "pass_moves d d' \<longleftrightarrow> (\<forall>s \<in> set (sessions d). \<exists>s' \<in> set (sessions d'). ses_publicId s' = ses_publicId s \<and> (s' = s \<or> escrow_move s s'))"

definition pass_step :: "'a schedule_db_scheme \<Rightarrow> 'a schedule_db_scheme \<Rightarrow> bool" where
  "pass_step d d' \<longleftrightarrow> pass_covers d' \<and> pass_moves d d'"

lemma pass_coversD: "pass_covers d \<Longrightarrow> s \<in> set (sessions d) \<Longrightarrow> sessionAtomicFields s = Inr m \<Longrightarrow> held_on (ses_publicId s) d \<le> pm_reserved m"
  by (auto simp: pass_covers_def list_all_iff split: sum.splits)

text \<open>A statement that leaves the passes alone and holds no more than before.\<close>

definition pass_quiet :: "'a schedule_db_scheme \<Rightarrow> 'a schedule_db_scheme \<Rightarrow> bool" where
  "pass_quiet d d' \<longleftrightarrow> sessions d' = sessions d \<and> (\<forall>j. held_on j d' \<le> held_on j d)"

lemma quiet_step: "pass_covers d \<Longrightarrow> pass_quiet d d' \<Longrightarrow> pass_step d d'"
  by (auto simp: pass_covers_def pass_quiet_def pass_step_def pass_moves_def list_all_iff split: sum.splits intro: order_trans)

lemma step_then_quiet: "pass_step d e \<Longrightarrow> pass_quiet e d' \<Longrightarrow> pass_step d d'"
  using quiet_step [of e d'] by (auto simp: pass_step_def pass_quiet_def pass_moves_def)

lemma one_pass_step:
  assumes "pass_covers d" and s: "s \<in> set (sessions d)" "ses_publicId s' = ses_publicId s"
    and ss: "sessions d' = update_first (\<lambda>y. ses_publicId y = ses_publicId s') (\<lambda>_. s') (sessions d)"
    and m: "sessionAtomicFields s = Inr m" "sessionAtomicFields s' = Inr m'" "schedule_pass.call c m = Some m'" "0 < ledger_amount c"
    and held: "\<And>j. held_on j d' = held_on j d + (if j = ses_publicId s then held_change c else 0)"
  shows "pass_step d d'"
proof -
  have dist: "distinct (map ses_publicId (sessions d))" using assms(1) by (simp add: pass_covers_def)
  have S: "set (sessions d') = insert s' (set (sessions d) - {s})"
    unfolding ss by (rule replaced_set [OF dist s])
  have ids: "map ses_publicId (sessions d') = map ses_publicId (sessions d)"
    unfolding ss by (rule map_update_first) simp
  have "held_on (ses_publicId t) d' \<le> pm_reserved n" if "t \<in> set (sessions d')" "sessionAtomicFields t = Inr n" for t n
  proof (cases "t = s'")
    case True
    with that(2) m pass_coversD [OF assms(1) s(1) m(1)] schedule_pass.call_laws(3) [OF m(3)] s(2) held show ?thesis by simp
  next
    case False
    with that(1) S have t: "t \<in> set (sessions d)" "t \<noteq> s" by auto
    with one_document [OF dist t(1) s(1)] pass_coversD [OF assms(1) t(1) that(2)] held show ?thesis by auto
  qed
  then have "pass_covers d'" using dist by (simp add: pass_covers_def ids list_all_iff split: sum.splits)
  moreover have "escrow_move s s'" using m by (auto simp: escrow_move_def)
  ultimately show ?thesis using S s(2) by (auto simp: pass_step_def pass_moves_def)
qed

subsection \<open>Quiet statements\<close>

lemma quiet_occurrences:
  assumes "sessions d' = sessions d" and "list_all2 (\<lambda>y x. occ_sessionId y = occ_sessionId x \<and> occ_amountAtomic y = occ_amountAtomic x
      \<and> (occ_reservationState y = RV_reserved \<longleftrightarrow> occ_reservationState x = RV_reserved)) (occurrences d') (occurrences d)"
  shows "pass_quiet d d'"
proof -
  have "held_on j d' = held_on j d" for j
    unfolding held_on_def by (rule list_all2_same_total [OF assms(2)]) (simp add: holds_on_def)
  with assms(1) show ?thesis by (simp add: pass_quiet_def)
qed

lemma quiet_update_occurrence:
  "(\<And>x. p x \<Longrightarrow> occ_sessionId (f x) = occ_sessionId x \<and> occ_amountAtomic (f x) = occ_amountAtomic x
      \<and> occ_reservationState (f x) = occ_reservationState x) \<Longrightarrow> pass_quiet d (update_occurrence p f d)"
  by (rule quiet_occurrences) (simp_all add: update_occurrence_def edited_update_first)

lemma quiet_schedules: "occurrences d' = occurrences d \<Longrightarrow> sessions d' = sessions d \<Longrightarrow> pass_quiet d d'"
  by (simp add: pass_quiet_def held_on_def)

lemma pass_quiet_refl [simp]: "pass_quiet d d"
  by (simp add: quiet_schedules)

lemma quiet_statements:
  "pass_quiet d (save_control action now i d)"
  "pass_quiet d (retarget_schedules w i r rail network asset dest now d)"
  "pass_quiet d (closeActiveSchedule i status now d)"
  "pass_quiet d (endSchedule i status now c d)"
  "pass_quiet d (markOccurrenceSubmitted x now d)"
  "pass_quiet d (markOccurrenceUncertain i pid hash rec now d)"
  "pass_quiet d (markOccurrenceRetry x e now st d)"
  "pass_quiet d (blockDepletedOccurrence i now d)"
         apply (simp_all add: quiet_schedules save_control_def retarget_schedules_def closeActiveSchedule_def endSchedule_def
      update_schedule_def Let_def)
  by (simp_all add: quiet_update_occurrence markOccurrenceSubmitted_def markOccurrenceUncertain_def markOccurrenceRetry_def
      blockDepletedOccurrence_def)

lemma quiet_take: "take_occurrence states k now leaseId d = (r, d') \<Longrightarrow> pass_quiet d d'"
  by (auto simp: take_occurrence_def find_and_update_Some leased_occurrence_def
      split: option.splits intro!: quiet_occurrences edited_update_first)

lemma quiet_store: "storeOccurrenceRequest x fresh now d = (r, d') \<Longrightarrow> pass_quiet d d'"
  by (auto simp: storeOccurrenceRequest_def stored_request_def split: option.splits if_splits intro: quiet_update_occurrence)

lemma quiet_create: "createPaymentSchedule sha zones scheduleId sessionId i ownerWalletId now d = (rc, d') \<Longrightarrow> pass_quiet d d'"
  by (erule create_cases) (simp_all add: quiet_schedules)

lemma quiet_claim: "claimOccurrence sha s now workerId uuid d = (r, d') \<Longrightarrow> pass_quiet d d'"
  by (erule claim_occurrence_cases, simp, erule quiet_take)
    (simp add: pass_quiet_def held_on_def holds_on_def new_occurrence_def)

subsection \<open>Reserving, paying, giving back\<close>

lemma replaced_held:
  assumes dist: "distinct (map occ_occurrenceId (occurrences d))" and x: "x \<in> set (occurrences d)"
    and y: "occ_occurrenceId y = occ_occurrenceId x" "occ_sessionId y = occ_sessionId x" "occ_amountAtomic y = occ_amountAtomic x"
    and os: "occurrences d' = update_first (\<lambda>z. occ_occurrenceId z = occ_occurrenceId x) (\<lambda>_. y) (occurrences d)"
  shows "held_on j d' = held_on j d + (if j = occ_sessionId x then
      (if occ_reservationState y = RV_reserved then occ_amountAtomic x else 0)
        - (if occ_reservationState x = RV_reserved then occ_amountAtomic x else 0) else 0)"
  using total_update_first [OF find_unique_key [OF dist x], of "holds_on j" occ_amountAtomic "\<lambda>_. y"] y
  by (auto simp: held_on_def os holds_on_def)

lemma held_positive:
  assumes "schedule_books d" and "x \<in> set (occurrences d)"
  shows "0 < occ_amountAtomic x"
  using booksD(4,5) [OF assms(1)] assms(2) by (force simp: fits_def balanced_def)

lemma held_member:
  assumes "schedule_books d" and "x \<in> set (occurrences d)" and "occ_reservationState x = RV_reserved"
  shows "occ_amountAtomic x \<le> held_on (occ_sessionId x) d"
  unfolding held_on_def
  by (rule total_ge_member [OF assms(2)]) (use assms(3) held_positive [OF assms(1)] in \<open>auto simp: holds_on_def less_imp_le\<close>)

lemma find_sessionD': "find_session k d = Some s \<Longrightarrow> s \<in> set (sessions d) \<and> ses_publicId s = k"
  using find_SomeD by (fastforce simp: find_session_def)

lemma reserve_pass_step:
  assumes b: "schedule_books d" and c: "pass_covers d" and r: "reserveOccurrenceBudget k now d = (r, d')"
  shows "pass_step d d'"
  using r unfolding reserveOccurrenceBudget_def
proof (cases rule: transaction_cases)
  case (committed v)
  show ?thesis
  proof (cases "d' = d")
    case False
    with committed(2) obtain x s s' where x: "find_occurrence k d = Some x" and held: "occ_reservationState x \<noteq> RV_reserved"
      and s: "find_session (occ_sessionId x) d = Some s" and s': "reserved_pass (occ_amountAtomic x) s = Inr (Some s')"
      and d': "d' = save_occurrence (x\<lparr>occ_reservationState := RV_reserved, occ_reservedAt := Some now\<rparr>) (save_session s' d)"
      by (auto simp: reserve_occurrence_body_def split: option.splits if_splits sum.splits)
    note x = find_occurrenceD [OF x] and s = find_sessionD' [OF s]
    from s' obtain m m' where m: "sessionAtomicFields s = Inr m" "sessionAtomicFields s' = Inr m'" "pm_reserve (occ_amountAtomic x) m = Some m'"
      and id: "ses_publicId s' = ses_publicId s" by (rule reserved_pass_call)
    show ?thesis
    proof (rule one_pass_step [OF c conjunct1 [OF s] id _ m(1,2), of _ "Reserve (occ_amountAtomic x)"])
      show "held_on j d' = held_on j d + (if j = ses_publicId s then held_change (Reserve (occ_amountAtomic x)) else 0)" for j
        using replaced_held [OF booksD(2) [OF b] conjunct1 [OF x], of "x\<lparr>occ_reservationState := RV_reserved, occ_reservedAt := Some now\<rparr>" d' j]
          held s by (simp add: d' save_occurrence_def save_session_def)
    qed (use m(3) held_positive [OF b conjunct1 [OF x]] in \<open>simp_all add: d' save_occurrence_def save_session_def\<close>)
  qed (simp add: quiet_step [OF c])
qed (simp add: quiet_step [OF c])

lemma finalize_pass_step:
  assumes b: "schedule_books d" and c: "pass_covers d" and r: "finalizeOccurrenceSuccess sha zones occ p now d = (ru, d')"
  shows "pass_step d d'"
  using r
proof (cases rule: finalize_occurrence_cases)
  case same
  then show ?thesis by (intro quiet_step [OF c] quiet_schedules) (simp_all add: schedule_frame_def)
next
  case (booked x sc s s' sc')
  note x = find_occurrenceD [OF booked(1)] and s = find_sessionD' [OF booked(4)]
  note held = replaced_held [OF booksD(2) [OF b] conjunct1 [OF x] _ _ _ booked(8), simplified succeeded_occurrence_frame]
  show ?thesis
  proof (cases "op_sessionAlreadyDebited p")
    case True
    with held booked(9) show ?thesis by (intro quiet_step [OF c]) (auto simp: pass_quiet_def)
  next
    case False
    from booked(5) False obtain m m' where m: "sessionAtomicFields s = Inr m" "sessionAtomicFields s' = Inr m'"
      "pm_settle (occ_amountAtomic x) m = Some m'" and id: "ses_publicId s' = ses_publicId s" by (rule paid_pass_call)
    show ?thesis
      by (rule one_pass_step [OF c conjunct1 [OF s] id _ m(1,2), of _ "Settle (occ_amountAtomic x)"])
        (use False booked(9) m(3) held paid_pass_reserved [OF booked(5) False] s held_positive [OF b conjunct1 [OF x]] in simp_all)
  qed
qed

lemma release_pass_step:
  assumes b: "schedule_books d" and c: "pass_covers d" and r: "releaseOccurrenceBudget k d = (r, d')"
  shows "pass_step d d'"
proof (cases "d' = d")
  case False
  with r obtain x where x: "find_occurrence k d = Some x" and held: "occ_reservationState x = RV_reserved"
    by (auto simp: releaseOccurrenceBudget_def split: option.splits if_splits)
  note X = find_occurrenceD [OF x]
  let ?y = "x\<lparr>occ_reservationState := RV_released\<rparr>"
  have change: "held_on j d' = held_on j d + (if j = occ_sessionId x then - occ_amountAtomic x else 0)"
    if "occurrences d' = update_first (\<lambda>z. occ_occurrenceId z = occ_occurrenceId x) (\<lambda>_. ?y) (occurrences d)" for j
    using replaced_held [OF booksD(2) [OF b] conjunct1 [OF X] _ _ _ that] held by simp
  show ?thesis
  proof (cases "find_session (occ_sessionId x) d")
    case None
    with r x held have d': "d' = save_occurrence ?y d" by (simp add: releaseOccurrenceBudget_def)
    with change held_positive [OF b conjunct1 [OF X]] show ?thesis
      by (intro quiet_step [OF c]) (simp add: pass_quiet_def save_occurrence_def)
  next
    case (Some s)
    note s = find_sessionD' [OF Some]
    from r x held Some False obtain s' where s': "released_pass (occ_amountAtomic x) s = Inr s'"
      and d': "d' = save_occurrence ?y (save_session s' d)"
      by (auto simp: releaseOccurrenceBudget_def bindE_def split: sum.splits)
    from s' obtain m where m: "sessionAtomicFields s = Inr m" and id: "ses_publicId s' = ses_publicId s"
      and m': "sessionAtomicFields s' = Inr (m\<lparr>pm_reserved := (if pm_reserved m \<ge> occ_amountAtomic x then pm_reserved m - occ_amountAtomic x else 0)\<rparr>)"
      by (rule released_pass_call)
    have "occ_amountAtomic x \<le> pm_reserved m"
      using held_member [OF b conjunct1 [OF X] held] pass_coversD [OF c conjunct1 [OF s] m] s by simp
    then show ?thesis
      by (intro one_pass_step [OF c conjunct1 [OF s] id _ m m', of _ "Release (occ_amountAtomic x)"])
        (use change s held_positive [OF b conjunct1 [OF X]] in \<open>auto simp: d' save_occurrence_def save_session_def pm_release_def\<close>)
  qed
qed (simp add: quiet_step [OF c])

lemma block_cases:
  assumes "blockOccurrence x e now d = (r, d')"
  obtains (aborted) "d' = d"
    | (blocked) u d1 c where "releaseOccurrenceBudget (occ_occurrenceId x) d = (Inr u, d1)"
      and "d' = update_schedule (\<lambda>s. sch_scheduleId s = occ_scheduleId x \<and> sch_status s = SS_active)
            (\<lambda>s. s\<lparr>sch_status := SS_paused, sch_pausedAt := Some now, sch_failureCode := Some c\<rparr>)
            (update_occurrence (\<lambda>y. occ_occurrenceId y = occ_occurrenceId x) (blocked_occurrence c now) d1)"
  using assms unfolding blockOccurrence_def
  by (cases rule: transaction_cases) (auto simp: block_body_def Let_def chain_eq_Inr)

lemma block_pass_step:
  assumes b: "schedule_books d" and c: "pass_covers d" and r: "blockOccurrence x e now d = (r, d')"
  shows "pass_step d d'"
  using r
proof (cases rule: block_cases)
  case (blocked u d1 c0)
  have "pass_quiet d1 d'" unfolding blocked(2) update_schedule_def update_occurrence_def
    by (rule quiet_occurrences) (simp_all add: blocked_occurrence_def edited_update_first)
  with release_pass_step [OF b c blocked(1)] show ?thesis by (rule step_then_quiet)
qed (simp add: quiet_step [OF c])

lemma schedule_step_pass:
  assumes "schedule_step sha zones R d d'" and b: "schedule_books d" and c: "pass_covers d"
  shows "pass_step d d'"
  using assms(1)
proof cases
  case reserve
  then show ?thesis by (rule reserve_pass_step [OF b c])
next
  case block
  then show ?thesis by (rule block_pass_step [OF b c])
next
  case finalize
  show ?thesis by (rule finalize_pass_step [OF b c finalize(1)])
next
  case claim
  show ?thesis by (rule quiet_step [OF c quiet_claim [OF claim(1)]])
next
  case in_flight
  then show ?thesis unfolding claimInFlightOccurrence_def by (rule quiet_step [OF c quiet_take])
next
  case store
  then show ?thesis by (rule quiet_step [OF c quiet_store])
next
  case create
  then show ?thesis by (rule quiet_step [OF c quiet_create])
qed (simp add: quiet_step [OF c] quiet_statements)+

text \<open>
  Property C24: schedules treat the pass as an escrow account. When the reservations of the occurrences
  are covered by the reserved amount of their pass, every statement of the schedule service moves each
  pass by exactly one operation of the escrow specification (hold an amount within the limit, turn a
  held amount into spent, give a held amount back) or not at all, and the reservations stay covered.
  In particular the service never clamps a release to zero and never lets spent plus reserved pass
  the limit.
\<close>

theorem schedule_refines_escrow:
  assumes "schedule_history sha zones {} d0 R d" and "schedule_books d0" and "pass_covers d" and "schedule_step sha zones R d d'"
  shows "pass_covers d' \<and> (\<forall>s \<in> set (sessions d). \<exists>s' \<in> set (sessions d'). ses_publicId s' = ses_publicId s
      \<and> (s' = s \<or> (\<exists>m m' c. sessionAtomicFields s = Inr m \<and> sessionAtomicFields s' = Inr m' \<and> schedule_pass.call c m = Some m'
          \<and> 0 < ledger_amount c \<and> pm_limit m' = pm_limit m \<and> (pm_spent m + pm_reserved m \<le> pm_limit m \<longrightarrow> pm_spent m' + pm_reserved m' \<le> pm_limit m'))))"
proof -
  have within: "pm_limit m' = pm_limit m \<and> (pm_spent m + pm_reserved m \<le> pm_limit m \<longrightarrow> pm_spent m' + pm_reserved m' \<le> pm_limit m')"
    if "schedule_pass.call c m = Some m'" "0 < ledger_amount c" for c m m'
    using that by (cases c) (auto simp: pm_reserve_def pm_settle_def pm_release_def split: if_splits)
  have "schedule_books d" using schedule_history_books [OF assms(1,2)] by simp
  then have "pass_step d d'" by (rule schedule_step_pass [OF assms(4) _ assms(3)])
  then show ?thesis using within unfolding pass_step_def pass_moves_def escrow_move_def by meson
qed

lemma sample_pass_covers: "pass_covers sample_reserved_sdb"
  by (simp add: sample_reserved_sdb_def sample_sdb_defs pass_covers_def held_on_def holds_on_def sessionAtomicFields_def
      sample_wallet_pass_def sample_occurrence_def new_occurrence_def sample_schedule_def)

theorem schedule_refines_escrow_witness:
  "\<exists>d'. schedule_step (\<lambda>_. ''h'') utc {} sample_reserved_sdb d' \<and> pass_covers d'"
proof -
  obtain r d' where "blockOccurrence sample_occurrence DuplicateKey 3000 sample_reserved_sdb = (r, d')" by fastforce
  then have "schedule_step (\<lambda>_. ''h'') utc {} sample_reserved_sdb d'" by (rule block)
  with schedule_refines_escrow [OF start sample_books(2) sample_pass_covers this] show ?thesis by blast
qed

end
