(* ===== verification/Schedule_Receipts.thy ===== *)
theory Schedule_Receipts
  imports Schedule_Passes
begin

section \<open>Receipts of schedules\<close>

text \<open>
  What the statements of the schedule service do to the receipts: they only add them, so the receipt of
  a booked occurrence stays whatever follows, and a booking of the same occurrence with other data is refused.
\<close>

subsection \<open>Receipts are only added\<close>

definition receipts_grow :: "'a core_db_scheme \<Rightarrow> 'a core_db_scheme \<Rightarrow> bool" where
  "receipts_grow d d' \<longleftrightarrow> take (length (receipts d)) (receipts d') = receipts d"

lemma receipts_grow_same [simp]: "receipts d' = receipts d \<Longrightarrow> receipts_grow d d'"
  by (simp add: receipts_grow_def)

lemma receipts_grow_found:
  assumes "receipts_grow d d'" and "find_receipt t k d = Some r"
  shows "find_receipt t k d' = Some r"
proof -
  have "List.find p xs = Some r \<Longrightarrow> List.find p (xs @ ys) = Some r" for p and xs ys :: "payment_receipt list"
    by (induction xs) auto
  moreover have "receipts d' = receipts d @ drop (length (receipts d)) (receipts d')"
    using assms(1) unfolding receipts_grow_def by (metis append_take_drop_id)
  ultimately show ?thesis using assms(2) unfolding find_receipt_def by metis
qed

lemma schedule_receipts:
  "receipts (update_occurrence p f d) = receipts d" "receipts (update_schedule q g d) = receipts d"
  "receipts (save_occurrence x d) = receipts d" "receipts (save_schedule c d) = receipts d" "receipts (save_session s d) = receipts d"
  "receipts (writeAuditLog w a t i d) = receipts d"
  by (simp_all add: update_occurrence_def update_schedule_def save_occurrence_def save_schedule_def save_session_def writeAuditLog_def)

lemma take_receipts: "take_occurrence states k now leaseId d = (r, d') \<Longrightarrow> receipts d' = receipts d"
  by (auto simp: take_occurrence_def split: option.splits)

lemma claim_receipts: "claimOccurrence sha s now workerId uuid d = (r, d') \<Longrightarrow> receipts d' = receipts d"
  by (auto simp: claimOccurrence_def Let_def split: sum.splits option.splits prod.splits dest: take_receipts)

lemma create_receipts: "createPaymentSchedule sha zones scheduleId sessionId i w now d = (r, d') \<Longrightarrow> receipts d' = receipts d"
  by (auto simp: createPaymentSchedule_def Let_def schedule_receipts split: sum.splits option.splits)

lemma reserve_receipts: "reserveOccurrenceBudget k now d = (r, d') \<Longrightarrow> receipts d' = receipts d"
  unfolding reserveOccurrenceBudget_def
  by (erule transaction_cases)
    (auto simp: reserve_occurrence_body_def schedule_receipts split: option.splits if_splits sum.splits)

lemma store_receipts: "storeOccurrenceRequest x fresh now d = (r, d') \<Longrightarrow> receipts d' = receipts d"
  by (auto simp: storeOccurrenceRequest_def schedule_receipts split: option.splits if_splits)

lemma block_receipts: "blockOccurrence x e now d = (r, d') \<Longrightarrow> receipts d' = receipts d"
  by (erule block_cases)
    (auto simp: releaseOccurrenceBudget_def bindE_def schedule_receipts split: option.splits if_splits sum.splits)

lemma finalize_seen:
  "find_occurrence (occ_occurrenceId occ) d = Some x \<Longrightarrow> occ_status x = OS_succeeded \<Longrightarrow>
    finalizeOccurrenceSuccess sha zones occ p now d = (Inr (), writeAuditLog (occ_ownerWalletId occ) ''schedule.occurrence.succeeded''
      ''scheduled_occurrence'' (occ_occurrenceId occ) d)"
  by (simp add: finalizeOccurrenceSuccess_def transaction_def finalize_occurrence_body_def)

lemma finalize_refused: "finalizeOccurrenceSuccess sha zones occ p now d = (Inl e, d') \<Longrightarrow> d' = d"
  by (auto simp: finalizeOccurrenceSuccess_def transaction_def split: prod.splits sum.splits)

text \<open>A booking that commits has stored the receipt of the payment, or found the same one.\<close>

lemma finalize_receipt:
  fixes d d' :: "'a schedule_db_scheme"
  assumes r: "finalizeOccurrenceSuccess sha zones occ p now d = (Inr (), d')"
    and x: "find_occurrence (occ_occurrenceId occ) d = Some x" "occ_status x \<noteq> OS_succeeded"
  obtains i and e d1 :: "'a schedule_db_scheme" where "receipts e = receipts d" and "createPaymentReceipt sha now (occurrence_receipt p now x) e = (Inr i, d1)"
    and "receipts d' = receipts d1"
proof -
  obtain v d1 where t: "transaction (finalize_occurrence_body sha zones (occ_occurrenceId occ) p now) d = (Inr v, d1)"
    using r by (auto simp: finalizeOccurrenceSuccess_def split: prod.splits sum.splits)
  then have "finalize_occurrence_body sha zones (occ_occurrenceId occ) p now d = (Inr v, d1)" by (simp add: transaction_eq_Inr)
  then obtain i c s where c: "createPaymentReceipt sha now (occurrence_receipt p now x) (save_schedule c
      (save_occurrence (succeeded_occurrence p now x) (if op_sessionAlreadyDebited p then d else save_session s d))) = (Inr i, d1)"
    using x by (auto simp: finalize_occurrence_body_def chain_eq_Inr split: option.splits sum.splits if_split_asm)
  have "receipts (snd (queueReceiptNotifications sha now k d1)) = receipts d1" for k
    by (simp add: queueReceiptNotifications_def Let_def split: option.splits)
  then have "receipts d' = receipts d1" using r t by (auto simp: finalizeOccurrenceSuccess_def schedule_receipts split: option.splits)
  with c show thesis by (intro that [OF _ c]) (simp_all add: schedule_receipts)
qed

lemma finalize_receipts:
  fixes d d' :: "'a schedule_db_scheme"
  assumes "finalizeOccurrenceSuccess sha zones occ p now d = (r, d')"
  shows "receipts_grow d d'"
proof (cases r)
  case (Inl e)
  with assms finalize_refused show ?thesis by fastforce
next
  case (Inr u)
  show ?thesis
  proof (cases "\<exists>x. find_occurrence (occ_occurrenceId occ) d = Some x \<and> occ_status x \<noteq> OS_succeeded")
    case True
    then obtain x where x: "find_occurrence (occ_occurrenceId occ) d = Some x" "occ_status x \<noteq> OS_succeeded" by blast
    obtain i and e d1 :: "'a schedule_db_scheme" where "receipts e = receipts d" "createPaymentReceipt sha now (occurrence_receipt p now x) e = (Inr i, d1)"
      "receipts d' = receipts d1"
      by (rule finalize_receipt [of sha zones occ p now d d' x]) (use assms Inr x in simp_all)
    with createPaymentReceipt_frame show ?thesis by (fastforce simp: receipts_grow_def)
  next
    case False
    then have "transaction (finalize_occurrence_body sha zones (occ_occurrenceId occ) p now) d = (Inr None, d)"
      by (auto simp: transaction_def finalize_occurrence_body_def split: option.splits)
    with assms show ?thesis by (auto simp: finalizeOccurrenceSuccess_def schedule_receipts)
  qed
qed

lemma schedule_step_receipts:
  assumes "schedule_step sha zones R d d'"
  shows "receipts_grow d d'"
  using assms
proof cases
  case finalize
  show ?thesis by (rule finalize_receipts [OF finalize(1)])
next
  case in_flight
  then show ?thesis unfolding claimInFlightOccurrence_def by (rule receipts_grow_same [OF take_receipts])
qed (intro receipts_grow_same, auto simp: save_control_def retarget_schedules_def closeActiveSchedule_def endSchedule_def
    markOccurrenceSubmitted_def markOccurrenceUncertain_def markOccurrenceRetry_def blockDepletedOccurrence_def schedule_receipts Let_def
    dest: create_receipts claim_receipts reserve_receipts store_receipts block_receipts)+

text \<open>Histories in which the other services, too, only add receipts.\<close>

inductive receipt_history ::
  "(string \<Rightarrow> string) \<Rightarrow> time_zones \<Rightarrow> payment_schedule set \<Rightarrow> 'a schedule_db_scheme \<Rightarrow> payment_schedule set
    \<Rightarrow> 'a schedule_db_scheme \<Rightarrow> bool"
  for sha zones R0 d0 where
  start: "receipt_history sha zones R0 d0 R0 d0"
| read: "receipt_history sha zones R0 d0 R d \<Longrightarrow> s \<in> set (schedules d) \<Longrightarrow> receipt_history sha zones R0 d0 (insert s R) d"
| step: "receipt_history sha zones R0 d0 R d \<Longrightarrow> schedule_step sha zones R d d' \<Longrightarrow> receipt_history sha zones R0 d0 R d'"
| other: "receipt_history sha zones R0 d0 R d \<Longrightarrow> schedule_frame d d' \<Longrightarrow> receipts_grow d d' \<Longrightarrow> receipt_history sha zones R0 d0 R d'"

lemma receipt_history_schedules: "receipt_history sha zones R0 d0 R d \<Longrightarrow> schedule_history sha zones R0 d0 R d"
  by (induction rule: receipt_history.induct) (auto intro: schedule_history.intros)

lemma receipt_history_found:
  "receipt_history sha zones R0 d0 R d \<Longrightarrow> find_receipt t k d0 = Some r \<Longrightarrow> find_receipt t k d = Some r"
  by (induction rule: receipt_history.induct) (auto intro: receipts_grow_found schedule_step_receipts)

lemma receipt_refused:
  assumes "find_receipt (cr_sourceType j) (cr_sourceId j) e = Some r" and "rcp_receiptHash r \<noteq> sha (receipt_preimage sha j)"
  shows "createPaymentReceipt sha now j e \<noteq> (Inr i, d)"
proof
  assume "createPaymentReceipt sha now j e = (Inr i, d)"
  then show False by (cases rule: createPaymentReceipt_Inr) (use assms in \<open>auto simp: createPaymentReceipt_hash\<close>)
qed

end
