(* ===== verification/Schedule_Safety.thy ===== *)
theory Schedule_Safety
  imports Schedule_Receipts
begin

section \<open>Occurrences: one owner, one payment, and two that are left behind\<close>

text \<open>
  The lease of an occurrence as an interpretation of the locale \<open>lease\<close>; a paid occurrence is booked
  once, whatever follows and whoever pays; and two states the service does not come back from: a blocked
  occurrence (over the histories \<open>settled_history\<close>, which leave out late answers about it) and a revoked
  schedule with a submitted occurrence that waits for a retry.
\<close>

subsection \<open>The lease\<close>

interpretation occurrence_lease: lease "claimable_in states" leased_occurrence OCCURRENCE_LEASE_MS for states
  by unfold_locales (simp_all add: claimable_in_def leased_occurrence_def passed_def OCCURRENCE_LEASE_MS_def)

lemma take_occurrence_None:
  "(\<And>x. x \<in> set (occurrences d) \<Longrightarrow> occ_occurrenceId x = k \<Longrightarrow> \<not> claimable_in states t x) \<Longrightarrow>
    take_occurrence states k t who d = (None, d)"
  by (auto simp: take_occurrence_def find_and_update_def find_None_iff split: option.splits dest: find_SomeD)

lemma no_occurrence_holder:
  assumes "\<And>x. x \<in> set (occurrences d) \<Longrightarrow> \<not> holds_occurrence y x"
  shows "storeOccurrenceRequest y fresh t d = (Inr False, d)" and "markOccurrenceSubmitted y t d = d"
    and "markOccurrenceRetry y e t st d = d"
proof -
  have none: "List.find (holds_occurrence y) (occurrences d) = None" using assms by (simp add: find_None_iff)
  then show "storeOccurrenceRequest y fresh t d = (Inr False, d)" by (simp add: storeOccurrenceRequest_def)
  show "markOccurrenceSubmitted y t d = d" and "markOccurrenceRetry y e t st d = d"
    using update_first_none [OF none] by (simp_all add: markOccurrenceSubmitted_def markOccurrenceRetry_def update_occurrence_def)
qed

text \<open>What a successful claim returns is the document it left in the collection.\<close>

lemma claimed_stored:
  assumes b: "schedule_books d" and r: "claimOccurrence sha s now workerId uuid d = (Inr (Some x), d')"
  shows "x \<in> set (occurrences d')" and "occ_executionLeaseId x = Some (workerId @ '':'' @ uuid)"
    and "occ_executionLeaseExpiresAt x = Some (now + OCCURRENCE_LEASE_MS)"
    and "stableOccurrenceId sha (sch_scheduleId s) (sch_nextOccurrenceAt s) = Inr (occ_occurrenceId x)"
proof -
  obtain k where k: "stableOccurrenceId sha (sch_scheduleId s) (sch_nextOccurrenceAt s) = Inr k"
    using r by (cases "stableOccurrenceId sha (sch_scheduleId s) (sch_nextOccurrenceAt s)") (simp_all add: claimOccurrence_def)
  let ?n = "new_occurrence k (workerId @ '':'' @ uuid) now s"
  have "x \<in> set (occurrences d') \<and> occ_executionLeaseId x = Some (workerId @ '':'' @ uuid)
      \<and> occ_executionLeaseExpiresAt x = Some (now + OCCURRENCE_LEASE_MS) \<and> occ_occurrenceId x = k"
  proof (cases "insert_row (occurrence_clash ?n) ?n (occurrences d)")
    case (Some xs)
    with r k have "x = ?n" "d' = d\<lparr>occurrences := xs\<rparr>" by (simp_all add: claimOccurrence_def Let_def)
    with Some [unfolded insert_row_Some] show ?thesis by (simp add: new_occurrence_def)
  next
    case None
    with r k have t: "take_occurrence open_states k now (workerId @ '':'' @ uuid) d = (Some x, d')"
      by (simp add: claimOccurrence_def Let_def split: prod.splits)
    then obtain xs where u: "find_and_update (\<lambda>y. occ_occurrenceId y = k \<and> claimable_in open_states now y)
        (leased_occurrence now (workerId @ '':'' @ uuid)) (occurrences d) = Some (x, xs)" and d': "d' = d\<lparr>occurrences := xs\<rparr>"
      by (auto simp: take_occurrence_def split: option.splits)
    show ?thesis
      by (rule find_and_update_keys [OF booksD(2) [OF b] u, of k]) (auto simp: leased_occurrence_def d')
  qed
  with k show "x \<in> set (occurrences d')" and "occ_executionLeaseId x = Some (workerId @ '':'' @ uuid)"
    and "occ_executionLeaseExpiresAt x = Some (now + OCCURRENCE_LEASE_MS)"
    and "stableOccurrenceId sha (sch_scheduleId s) (sch_nextOccurrenceAt s) = Inr (occ_occurrenceId x)" by auto
qed

text \<open>
  An occurrence belongs to the worker that claimed it. For ninety seconds no other
  worker can claim it, neither as due nor as in flight, and a worker that still holds an older lease of
  it can neither store a payment request, nor mark it submitted, nor put it back for a retry.
\<close>

theorem occurrence_lease_exclusive:
  assumes "schedule_history sha zones {} d0 R d" and "schedule_books d0" and "s \<in> R"
    and "case sch_occurrenceLimit s of None \<Rightarrow> True | Some n \<Rightarrow> sch_occurrenceCount s < n"
    and "claimOccurrence sha s now workerId uuid d = (Inr (Some x), d')"
  shows "(\<forall>t w u. t < now + OCCURRENCE_LEASE_MS \<longrightarrow>
        claimInFlightOccurrence (occ_occurrenceId x) t w u d' = (None, d') \<and> claimOccurrence sha s t w u d' = (Inr None, d'))
    \<and> (\<forall>old fresh t e st. occ_occurrenceId old = occ_occurrenceId x \<and> occ_executionLeaseId old \<noteq> occ_executionLeaseId x \<longrightarrow>
        storeOccurrenceRequest old fresh t d' = (Inr False, d') \<and> markOccurrenceSubmitted old t d' = d'
        \<and> markOccurrenceRetry old e t st d' = d')"
proof -
  have H: "schedule_books d" "\<forall>s \<in> R. read_ok d s" using schedule_history_books [OF assms(1,2)] by simp_all
  have b: "schedule_books d'"
    by (rule claim_books(1) [OF H(1) assms(5) _ assms(4)]) (use H(2) assms(3) in blast)
  note x = claimed_stored [OF H(1) assms(5)]
  have only: "y = x" if "y \<in> set (occurrences d')" "occ_occurrenceId y = occ_occurrenceId x" for y
    by (rule one_document [OF booksD(2) [OF b] that(1) x(1) that(2)])
  have none: "take_occurrence states (occ_occurrenceId x) t who d' = (None, d')" if "t < now + OCCURRENCE_LEASE_MS" for states t who
    by (rule take_occurrence_None) (use only that x(3) in \<open>fastforce simp: claimable_in_def passed_def\<close>)
  have claim: "claimOccurrence sha s t w u d' = (Inr None, d')" if t: "t < now + OCCURRENCE_LEASE_MS" for t w u
  proof -
    let ?n = "new_occurrence (occ_occurrenceId x) (w @ '':'' @ u) t s"
    have "insert_row (occurrence_clash ?n) ?n (occurrences d') = None"
      using x(1) by (auto simp: insert_row_None occurrence_clash_def new_occurrence_def)
    with none [OF t] show ?thesis by (simp add: claimOccurrence_def x(4) Let_def)
  qed
  have "\<not> holds_occurrence old y" if "occ_occurrenceId old = occ_occurrenceId x" "occ_executionLeaseId old \<noteq> occ_executionLeaseId x"
    "y \<in> set (occurrences d')" for old y
    using only [OF that(3)] that by (auto simp: holds_occurrence_def)
  with none claim no_occurrence_holder [of d'] show ?thesis by (simp add: claimInFlightOccurrence_def)
qed

subsection \<open>A payment is booked once\<close>

definition paid_in :: "string \<Rightarrow> 'a schedule_db_scheme \<Rightarrow> bool" where
  "paid_in k d \<longleftrightarrow> list_ex (\<lambda>x. occ_occurrenceId x = k \<and> occ_reservationState x = RV_spent) (occurrences d)"

lemma paid_same_items: "list_all2 same_item (occurrences d') (occurrences d) \<Longrightarrow> paid_in k d \<Longrightarrow> paid_in k d'"
  by (auto simp: paid_in_def list_ex_iff same_item_def dest!: list_all2_member2)

lemma paid_same_books: "same_books d d' \<Longrightarrow> paid_in k d \<Longrightarrow> paid_in k d'"
  by (auto simp: same_books_def intro: paid_same_items)

lemma booked_paid:
  assumes b: "schedule_books d" and x: "x \<in> set (occurrences d)" and p: "paid_in k d"
    and os: "occurrences d' = update_first (\<lambda>y. occ_occurrenceId y = occ_occurrenceId x) (\<lambda>_. succeeded_occurrence p' now x) (occurrences d)"
  shows "paid_in k d'"
proof -
  have "set (occurrences d') = insert (succeeded_occurrence p' now x) (set (occurrences d) - {x})"
    unfolding os using replaced_set [OF booksD(2) [OF b] x, of "succeeded_occurrence p' now x"]
    by (simp add: succeeded_occurrence_frame)
  with p show ?thesis by (auto simp: paid_in_def list_ex_iff succeeded_occurrence_frame)
qed

lemma schedule_step_paid:
  assumes "schedule_step sha zones R d d'" and b: "schedule_books d" and p: "paid_in k d"
  shows "paid_in k d'"
proof -
  have keep: "paid_in k d'" if "same_books d d'" by (rule paid_same_books [OF that p])
  from assms(1) show ?thesis
  proof cases
    case create
    with p show ?thesis by (auto elim: create_cases simp: paid_in_def)
  next
    case (claim s now workerId uuid ro)
    from claim(1) show ?thesis
    proof (cases rule: claim_occurrence_cases)
      case (taken k' rx)
      from taken(1) show ?thesis by (rule keep [OF take_occurrence_keeps_books])
    qed (use p in \<open>simp_all add: paid_in_def\<close>)
  next
    case (finalize x q now ru)
    from finalize(1) show ?thesis
    proof (cases rule: finalize_occurrence_cases)
      case same
      with p show ?thesis by (simp add: paid_in_def schedule_frame_def)
    next
      case (booked y sc s s' sc')
      then show ?thesis using booked_paid [OF b conjunct1 [OF find_occurrenceD [OF booked(1)]] p] by blast
    qed
  next
    case in_flight
    then show ?thesis unfolding claimInFlightOccurrence_def by (rule keep [OF take_occurrence_keeps_books])
  next
    case reserve
    then show ?thesis by (rule keep [OF reserve_keeps_books [OF b]])
  next
    case store
    then show ?thesis by (rule keep [OF store_keeps_books])
  next
    case block
    then show ?thesis by (rule keep [OF block_keeps_books [OF b]])
  qed (rule keep, simp add: status_edits_keep_books retarget_keeps_books)+
qed

lemma history_paid:
  assumes "schedule_history sha zones R0 d0 R d" and "schedule_books d0" and "\<forall>s \<in> R0. read_ok d0 s" and "paid_in k d0"
  shows "paid_in k d"
  using assms
proof (induction rule: schedule_history.induct)
  case (step R d d')
  with schedule_history_books [OF step(1)] schedule_step_paid [OF step(2)] show ?case by blast
next
  case (other R d d')
  then show ?case by (simp add: paid_in_def schedule_frame_def)
qed simp_all

lemma finalize_paid:
  assumes b: "schedule_books d" and r: "finalizeOccurrenceSuccess sha zones occ p now d = (Inr (), d')"
    and x: "find_occurrence (occ_occurrenceId occ) d = Some x" "occ_status x \<noteq> OS_succeeded" and p: "\<not> op_sessionAlreadyDebited p"
  shows "paid_in (occ_occurrenceId occ) d'"
  using r
proof (cases rule: finalize_occurrence_cases)
  case same
  from same(3) [OF refl x(1)] x(2) show ?thesis by simp
next
  case (booked y sc s s' sc')
  have y: "y \<in> set (occurrences d)" "occ_occurrenceId y = occ_occurrenceId occ" using find_occurrenceD [OF booked(1)] by auto
  have "set (occurrences d') = insert (succeeded_occurrence p now y) (set (occurrences d) - {y})"
    unfolding booked(8) using replaced_set [OF booksD(2) [OF b] y(1), of "succeeded_occurrence p now y"]
    by (simp add: succeeded_occurrence_frame)
  then show ?thesis using p y(2) by (simp add: paid_in_def list_ex_iff succeeded_occurrence_frame)
qed

lemma paid_document:
  assumes "schedule_books d" and "paid_in k d" and "find_occurrence k d = Some y"
  shows "occ_reservationState y = RV_spent"
proof -
  obtain z where z: "z \<in> set (occurrences d)" "occ_occurrenceId z = k" "occ_reservationState z = RV_spent"
    using assms(2) by (auto simp: paid_in_def list_ex_iff)
  have "z = y"
    by (rule one_document [OF booksD(2) [OF assms(1)] z(1)]) (use find_occurrenceD [OF assms(3)] z(2) in auto)
  with z show ?thesis by simp
qed

text \<open>What stops a second booking: the reservation is spent, or the receipt is there with other data.\<close>

lemma spent_blocks_booking:
  assumes "finalizeOccurrenceSuccess sha zones occ p now d = (Inr (), d')" and "find_occurrence (occ_occurrenceId occ) d = Some y"
    and "occ_reservationState y = RV_spent" and "\<not> op_sessionAlreadyDebited p"
  shows "occ_status y = OS_succeeded"
  using assms(1)
proof (cases rule: finalize_occurrence_cases)
  case same
  from same(3) [OF refl assms(2)] show ?thesis .
next
  case (booked z sc s s' sc')
  with assms paid_pass_reserved [OF booked(5)] show ?thesis by simp
qed

lemma receipt_blocks_booking:
  fixes d d' :: "'a schedule_db_scheme"
  assumes r: "finalizeOccurrenceSuccess sha zones occ p now d = (Inr (), d')" and y: "find_occurrence (occ_occurrenceId occ) d = Some y"
    and "find_receipt RC_scheduled_occurrence (occ_occurrenceId occ) d = Some rc"
    and "rcp_receiptHash rc \<noteq> sha (receipt_preimage sha (occurrence_receipt p now y))"
  shows "occ_status y = OS_succeeded"
proof (rule ccontr)
  assume "occ_status y \<noteq> OS_succeeded"
  then obtain i and e d1 :: "'a schedule_db_scheme" where e: "receipts e = receipts d"
      "createPaymentReceipt sha now (occurrence_receipt p now y) e = (Inr i, d1)"
    by (rule finalize_receipt [OF r y])
  have "find_receipt (cr_sourceType (occurrence_receipt p now y)) (cr_sourceId (occurrence_receipt p now y)) e = Some rc"
    using assms(3) find_occurrenceD [OF y] by (simp add: occurrence_receipt_def find_receipt_def e(1))
  from receipt_refused [where sha = sha, OF this assms(4)] e(2) show False by blast
qed

text \<open>
  Property C25: a payment is booked once. After the transaction that books an occurrence, and after
  anything owners, workers and other services may do since, another report of the payment of the same
  occurrence is answered without an effect but its audit entry while the occurrence is still stored as
  succeeded, and is refused without any effect if a late update has overwritten that status; the
  receipt of the first booking stays, and a wallet payment stays spent. For a schedule paid over Fiber the
  second report must not carry the very time of the first one, as the immutable receipt is what refuses
  it (and the two receipts must not collide under the hash): such an occurrence is refused every time a
  worker tries to book it again.
\<close>

theorem occurrence_booked_once:
  fixes d d2 :: "'a schedule_db_scheme"
  assumes "schedule_history sha zones {} d0 R d" and "schedule_books d0"
    and "find_occurrence (occ_occurrenceId occ) d = Some x" and "occ_status x \<noteq> OS_succeeded"
    and "find_schedule (occ_scheduleId x) d = Some sc" and "op_sessionAlreadyDebited p = (sch_executor sc = ME_fiber)"
    and "finalizeOccurrenceSuccess sha zones occ p now d = (Inr (), d1)"
    and "receipt_history sha zones R d1 R' d2"
    and "occ_occurrenceId again = occ_occurrenceId occ" and "find_occurrence (occ_occurrenceId again) d2 = Some y"
    and "op_sessionAlreadyDebited p' = (sch_executor sc = ME_fiber)"
    and "sch_executor sc = ME_fiber \<Longrightarrow> toISOString now' \<noteq> toISOString now"
    and "sch_executor sc = ME_fiber \<Longrightarrow>
      sha (receipt_preimage sha (occurrence_receipt p now x)) = sha (receipt_preimage sha (occurrence_receipt p' now' y)) \<Longrightarrow>
      receipt_preimage sha (occurrence_receipt p now x) = receipt_preimage sha (occurrence_receipt p' now' y)"
    and "finalizeOccurrenceSuccess sha zones again p' now' d2 = (r, d3)"
  shows "(occ_status y = OS_succeeded \<longrightarrow> r = Inr () \<and> d3 = writeAuditLog (occ_ownerWalletId again)
      ''schedule.occurrence.succeeded'' ''scheduled_occurrence'' (occ_occurrenceId again) d2)
    \<and> (occ_status y \<noteq> OS_succeeded \<longrightarrow> (\<exists>e. r = Inl e) \<and> d3 = d2)
    \<and> (sch_executor sc \<noteq> ME_fiber \<longrightarrow> occ_reservationState y = RV_spent)
    \<and> (\<exists>rc. find_receipt RC_scheduled_occurrence (occ_occurrenceId occ) d2 = Some rc
        \<and> rcp_receiptHash rc = sha (receipt_preimage sha (occurrence_receipt p now x)))"
proof -
  let ?k = "occ_occurrenceId occ" and ?hash = "\<lambda>p t z. sha (receipt_preimage sha (occurrence_receipt p t z))"
  have H: "schedule_books d" "\<forall>s \<in> R. read_ok d s" using schedule_history_books [OF assms(1,2)] by simp_all
  have exec: "op_sessionAlreadyDebited p = (sch_executor c = ME_fiber)"
    if "find_occurrence ?k d = Some z" "find_schedule (occ_scheduleId z) d = Some c" for z c
    using that assms(3,5,6) by simp
  have b1: "schedule_books d1" by (rule finalize_books(1) [OF H(1) assms(7) exec])
  have "read_ok d1 t" if "read_ok d t" for t by (rule finalize_books(2) [OF H(1) assms(7) exec that])
  with H(2) have R1: "\<forall>s \<in> R. read_ok d1 s" by blast
  note hist = receipt_history_schedules [OF assms(8)]
  have b2: "schedule_books d2" using schedule_history_books [OF hist b1 R1] by simp
  obtain i and e d1' :: "'a schedule_db_scheme" where "receipts e = receipts d" "createPaymentReceipt sha now (occurrence_receipt p now x) e = (Inr i, d1')"
    "receipts d1 = receipts d1'" by (rule finalize_receipt [OF assms(7,3,4)])
  with createPaymentReceipt_stored [OF this(2)] obtain rc where "find_receipt RC_scheduled_occurrence ?k d1 = Some rc"
      "rcp_receiptHash rc = ?hash p now x"
    using find_occurrenceD [OF assms(3)] by (auto simp: occurrence_receipt_def find_receipt_def createPaymentReceipt_hash)
  with receipt_history_found [OF assms(8)] have rc: "find_receipt RC_scheduled_occurrence ?k d2 = Some rc" "rcp_receiptHash rc = ?hash p now x"
    by blast+
  have paid: "paid_in ?k d2" if "sch_executor sc \<noteq> ME_fiber"
    using history_paid [OF hist b1 R1 finalize_paid [OF H(1) assms(7,3,4)]] assms(6) that by simp
  then have spent: "occ_reservationState y = RV_spent" if "sch_executor sc \<noteq> ME_fiber"
    using paid_document [OF b2 paid [OF that]] assms(9,10) by simp
  have "occ_status y = OS_succeeded" if "r = Inr ()"
  proof (cases "sch_executor sc = ME_fiber")
    case True
    with assms(12,13) have "rcp_receiptHash rc \<noteq> ?hash p' now' y"
      by (auto simp: rc(2) receipt_preimage_eq same_receipt_def occurrence_receipt_def)
    with receipt_blocks_booking [OF _ assms(10)] rc(1) assms(9,14) that show ?thesis by simp
  next
    case False
    with spent_blocks_booking [OF _ assms(10)] spent assms(11,14) that show ?thesis by simp
  qed
  then have refused: "(\<exists>e. r = Inl e) \<and> d3 = d2" if "occ_status y \<noteq> OS_succeeded"
    using that assms(14) finalize_refused [of sha zones again p' now' d2 _ d3] by (cases r) auto
  have "r = Inr () \<and> d3 = writeAuditLog (occ_ownerWalletId again) ''schedule.occurrence.succeeded'' ''scheduled_occurrence'' (occ_occurrenceId again) d2"
    if "occ_status y = OS_succeeded"
    using finalize_seen [OF assms(10) that] assms(14) by simp
  with refused spent rc show ?thesis by blast
qed

subsection \<open>Two states without a way out\<close>

lemma find_filtered_key:
  "distinct (map key xs) \<Longrightarrow> x \<in> set xs \<Longrightarrow> P x \<Longrightarrow> List.find (\<lambda>y. key y = key x \<and> P y) xs = Some x"
  by (induction xs) (auto simp: image_iff)

text \<open>
  What can still happen after an occurrence was blocked: every statement of the service, and of the
  workers that hold a lease, but no answer about that occurrence from a worker that had submitted it before
  (\<open>markOccurrenceUncertain\<close> and \<open>finalizeOccurrenceSuccess\<close> do not look at the status).
\<close>

inductive settled_step ::
  "string \<Rightarrow> (string \<Rightarrow> string) \<Rightarrow> time_zones \<Rightarrow> payment_schedule set \<Rightarrow> 'a schedule_db_scheme \<Rightarrow> 'a schedule_db_scheme \<Rightarrow> bool"
  for k sha zones R d d' where
  create: "createPaymentSchedule sha zones scheduleId sessionId i ownerWalletId now d = (rc, d') \<Longrightarrow> settled_step k sha zones R d d'"
| control: "d' = save_control action now scheduleId d \<Longrightarrow> settled_step k sha zones R d d'"
| retarget: "d' = retarget_schedules ownerWalletId sessionId recipientId rail network assetId destinationId now d \<Longrightarrow>
    settled_step k sha zones R d d'"
| close: "d' = closeActiveSchedule scheduleId status now d \<Longrightarrow> settled_step k sha zones R d d'"
| finish: "d' = endSchedule scheduleId status now c d \<Longrightarrow> settled_step k sha zones R d d'"
| claim: "claimOccurrence sha s now workerId uuid d = (ro, d') \<Longrightarrow> s \<in> R \<Longrightarrow>
    (case sch_occurrenceLimit s of None \<Rightarrow> True | Some n \<Rightarrow> sch_occurrenceCount s < n) \<Longrightarrow> settled_step k sha zones R d d'"
| in_flight: "claimInFlightOccurrence j now workerId uuid d = (rx, d') \<Longrightarrow> settled_step k sha zones R d d'"
| reserve: "reserveOccurrenceBudget j now d = (rr, d') \<Longrightarrow> settled_step k sha zones R d d'"
| store: "storeOccurrenceRequest x fresh now d = (rb, d') \<Longrightarrow> occ_executionLeaseId x \<noteq> None \<Longrightarrow> settled_step k sha zones R d d'"
| submitted: "d' = markOccurrenceSubmitted x now d \<Longrightarrow> occ_executionLeaseId x \<noteq> None \<Longrightarrow> settled_step k sha zones R d d'"
| uncertain: "d' = markOccurrenceUncertain j pid hash rec now d \<Longrightarrow> j \<noteq> k \<Longrightarrow> settled_step k sha zones R d d'"
| retry: "d' = markOccurrenceRetry x e now st d \<Longrightarrow> occ_executionLeaseId x \<noteq> None \<Longrightarrow> settled_step k sha zones R d d'"
| block: "blockOccurrence x e now d = (ru, d') \<Longrightarrow> settled_step k sha zones R d d'"
| deplete: "d' = blockDepletedOccurrence j now d \<Longrightarrow> settled_step k sha zones R d d'"
| finalize: "finalizeOccurrenceSuccess sha zones x p now d = (ru, d') \<Longrightarrow> occ_occurrenceId x \<noteq> k \<Longrightarrow>
    (\<And>y sc. find_occurrence (occ_occurrenceId x) d = Some y \<Longrightarrow> find_schedule (occ_scheduleId y) d = Some sc \<Longrightarrow>
      op_sessionAlreadyDebited p = (sch_executor sc = ME_fiber)) \<Longrightarrow> settled_step k sha zones R d d'"

lemma settled_schedule_step: "settled_step k sha zones R d d' \<Longrightarrow> schedule_step sha zones R d d'"
  by (erule settled_step.cases) (rule schedule_step.intros; assumption)+

inductive settled_history ::
  "string \<Rightarrow> (string \<Rightarrow> string) \<Rightarrow> time_zones \<Rightarrow> payment_schedule set \<Rightarrow> 'a schedule_db_scheme \<Rightarrow> payment_schedule set
    \<Rightarrow> 'a schedule_db_scheme \<Rightarrow> bool"
  for k sha zones R0 d0 where
  start: "settled_history k sha zones R0 d0 R0 d0"
| read: "settled_history k sha zones R0 d0 R d \<Longrightarrow> s \<in> set (schedules d) \<Longrightarrow> settled_history k sha zones R0 d0 (insert s R) d"
| step: "settled_history k sha zones R0 d0 R d \<Longrightarrow> settled_step k sha zones R d d' \<Longrightarrow> settled_history k sha zones R0 d0 R d'"
| other: "settled_history k sha zones R0 d0 R d \<Longrightarrow> schedule_frame d d' \<Longrightarrow> settled_history k sha zones R0 d0 R d'"

lemma settled_schedule_history: "settled_history k sha zones R0 d0 R d \<Longrightarrow> schedule_history sha zones R0 d0 R d"
  by (induction rule: settled_history.induct) (auto intro: schedule_history.intros settled_schedule_step)

text \<open>An occurrence of schedule \<open>i\<close> that is blocked, held by no worker and not paid.\<close>

definition dead :: "string \<Rightarrow> scheduled_occurrence \<Rightarrow> bool" where
  "dead i x \<longleftrightarrow> occ_scheduleId x = i \<and> occ_status x = OS_blocked \<and> occ_executionLeaseId x = None \<and> occ_reservationState x \<noteq> RV_spent"

definition keeps_dead :: "string \<Rightarrow> string \<Rightarrow> scheduled_occurrence \<Rightarrow> scheduled_occurrence \<Rightarrow> bool" where
  "keeps_dead i k y x \<longleftrightarrow> occ_occurrenceId y = occ_occurrenceId x \<and> (occ_occurrenceId x = k \<and> dead i x \<longrightarrow> dead i y)"

definition dead_in :: "string \<Rightarrow> string \<Rightarrow> 'a schedule_db_scheme \<Rightarrow> bool" where
  "dead_in i k d \<longleftrightarrow> list_ex (\<lambda>x. occ_occurrenceId x = k \<and> dead i x) (occurrences d)"

lemma keeps_dead_refl [simp]: "keeps_dead i k x x"
  by (simp add: keeps_dead_def)

lemma dead_kept: "list_all2 (keeps_dead i k) (occurrences d') (occurrences d) \<Longrightarrow> dead_in i k d \<Longrightarrow> dead_in i k d'"
  unfolding dead_in_def list_ex_iff by (metis keeps_dead_def list_all2_member2)

lemma dead_update: "(\<And>x. p x \<Longrightarrow> keeps_dead i k (f x) x) \<Longrightarrow> dead_in i k d \<Longrightarrow> dead_in i k (update_occurrence p f d)"
  by (rule dead_kept [of i k _ d]) (simp_all add: update_occurrence_def edited_update_first)

lemma dead_update_schedule [simp]: "dead_in i k (update_schedule p f d) = dead_in i k d"
  by (simp add: dead_in_def update_schedule_def)

lemma dead_save:
  assumes "distinct (map occ_occurrenceId (occurrences d))" and "x \<in> set (occurrences d)" and "keeps_dead i k y x"
    and "occurrences e = occurrences d" and "dead_in i k d"
  shows "dead_in i k (save_occurrence y e)"
proof -
  have edited: "list_all2 (keeps_dead i k) (update_first (\<lambda>z. occ_occurrenceId z = occ_occurrenceId y) (\<lambda>_. y) xs) xs"
    if "distinct (map occ_occurrenceId xs)" "x \<in> set xs" for xs
    using that
  proof (induction xs)
    case (Cons z zs)
    have key: "occ_occurrenceId y = occ_occurrenceId x" using assms(3) by (simp add: keeps_dead_def)
    show ?case
    proof (cases "z = x")
      case False
      with Cons.prems have "x \<in> set zs" "occ_occurrenceId z \<noteq> occ_occurrenceId x" by (auto simp: image_iff)
      with Cons key show ?thesis by simp
    qed (use assms(3) key in \<open>simp add: list.rel_refl\<close>)
  qed simp
  show ?thesis
    by (rule dead_kept [OF _ assms(5)]) (use edited [OF assms(1,2)] in \<open>simp add: save_occurrence_def assms(4)\<close>)
qed

lemma dead_take:
  assumes "take_occurrence states k' now leaseId d = (r, d')" and "OS_blocked \<notin> states" and "dead_in i k d"
  shows "dead_in i k d'"
proof -
  have "list_all2 (keeps_dead i k) (occurrences d') (occurrences d)"
    using assms(1,2) by (auto simp: take_occurrence_def find_and_update_Some list.rel_refl leased_occurrence_def claimable_in_def
        keeps_dead_def dead_def split: option.splits intro!: edited_update_first)
  then show ?thesis by (rule dead_kept [OF _ assms(3)])
qed

lemma dead_release:
  assumes b: "schedule_books d" and r: "releaseOccurrenceBudget j d = (r, d')" and x: "dead_in i k d"
  shows "dead_in i k d'"
proof (cases "find_occurrence j d")
  case (Some y)
  note save = dead_save [OF booksD(2) [OF b] conjunct1 [OF find_occurrenceD [OF Some]] _ _ x]
  from r Some x show ?thesis
    by (auto simp: releaseOccurrenceBudget_def bindE_def keeps_dead_def dead_def save_session_def
        split: option.splits if_splits sum.splits intro!: save)
qed (use r x in \<open>auto simp: releaseOccurrenceBudget_def\<close>)

lemma dead_reserve:
  assumes b: "schedule_books d" and r: "reserveOccurrenceBudget j now d = (r, d')" and x: "dead_in i k d"
  shows "dead_in i k d'"
  using r unfolding reserveOccurrenceBudget_def
proof (cases rule: transaction_cases)
  case (committed v)
  show ?thesis
  proof (cases "find_occurrence j d")
    case (Some y)
    note save = dead_save [OF booksD(2) [OF b] conjunct1 [OF find_occurrenceD [OF Some]] _ _ x]
    from committed(2) Some x show ?thesis
      by (auto simp: reserve_occurrence_body_def keeps_dead_def dead_def save_session_def
          split: option.splits if_splits sum.splits intro!: save)
  qed (use committed(2) x in \<open>auto simp: reserve_occurrence_body_def\<close>)
qed (use x in simp)

lemma dead_block:
  assumes b: "schedule_books d" and r: "blockOccurrence x e now d = (r, d')" and k: "dead_in i k d"
  shows "dead_in i k d'"
  using r
proof (cases rule: block_cases)
  case (blocked u d1 c)
  show ?thesis unfolding blocked(2) dead_update_schedule
    by (rule dead_update [OF _ dead_release [OF b blocked(1) k]]) (simp add: keeps_dead_def dead_def blocked_occurrence_def)
qed (use k in simp)

lemma blocked_dead:
  assumes b: "schedule_books d" and r: "blockOccurrence x e now d = (Inr (), d')"
    and y: "find_occurrence (occ_occurrenceId x) d = Some y" "occ_reservationState y \<noteq> RV_spent" "occ_scheduleId y = i"
  shows "dead_in i (occ_occurrenceId x) d'"
proof -
  let ?k = "occ_occurrenceId x"
  from r obtain u d1 where rel: "releaseOccurrenceBudget ?k d = (Inr u, d1)"
    and d': "d' = update_schedule (\<lambda>s. sch_scheduleId s = occ_scheduleId x \<and> sch_status s = SS_active)
        (\<lambda>s. s\<lparr>sch_status := SS_paused, sch_pausedAt := Some now, sch_failureCode := Some (error_code_or ''SCHEDULE_EXECUTION_BLOCKED'' e)\<rparr>)
        (update_occurrence (\<lambda>y. occ_occurrenceId y = ?k) (blocked_occurrence (error_code_or ''SCHEDULE_EXECUTION_BLOCKED'' e) now) d1)"
    by (auto simp: blockOccurrence_def transaction_eq_Inr block_body_def Let_def chain_eq_Inr)
  have os: "list_all2 same_item (occurrences d1) (occurrences d)" using release_keeps_books [OF b rel] by (simp add: same_books_def)
  from list_all2_member2 [OF os conjunct1 [OF find_occurrenceD [OF y(1)]]]
  obtain z where z: "z \<in> set (occurrences d1)" "same_item z y" by blast
  then have zk: "occ_occurrenceId z = ?k" "occ_scheduleId z = i" "occ_reservationState z \<noteq> RV_spent"
    using find_occurrenceD [OF y(1)] y(2,3) by (simp_all add: same_item_def occ_slot_def)
  have dist: "distinct (map occ_occurrenceId (occurrences d1))"
    by (rule booksD(2) [OF same_books_keep(1) [OF b release_keeps_books [OF b rel]]])
  have found: "List.find (\<lambda>v. occ_occurrenceId v = ?k) (occurrences d1) = Some z"
    using find_unique_key [OF dist z(1)] zk(1) by simp
  let ?c = "error_code_or ''SCHEDULE_EXECUTION_BLOCKED'' e"
  have "set (occurrences d') = insert (blocked_occurrence ?c now z) (set (occurrences d1) - {z})"
    unfolding d' update_schedule_def update_occurrence_def
    using set_update_find [OF dist found, of ?k "blocked_occurrence ?c now"] by simp
  moreover have "occ_occurrenceId (blocked_occurrence ?c now z) = ?k" "dead i (blocked_occurrence ?c now z)"
    using zk by (simp_all add: blocked_occurrence_def dead_def)
  ultimately show ?thesis by (auto simp: dead_in_def list_ex_iff)
qed

lemma settled_step_dead:
  assumes "settled_step k sha zones R d d'" and b: "schedule_books d" and x: "dead_in i k d"
  shows "dead_in i k d'"
proof -
  note edits = save_control_def closeActiveSchedule_def endSchedule_def markOccurrenceSubmitted_def markOccurrenceUncertain_def
    markOccurrenceRetry_def blockDepletedOccurrence_def
  from assms(1) show ?thesis
  proof cases
    case create
    with x show ?thesis by (auto elim: create_cases simp: dead_in_def)
  next
    case (claim s now workerId uuid ro)
    from claim(1) show ?thesis
    proof (cases rule: claim_occurrence_cases)
      case (taken k' rx)
      from taken(1) show ?thesis by (rule dead_take [OF _ _ x]) (simp add: open_states_def)
    qed (use x in \<open>simp_all add: dead_in_def\<close>)
  next
    case in_flight
    then show ?thesis unfolding claimInFlightOccurrence_def by (rule dead_take [OF _ _ x]) (simp add: in_flight_states_def)
  next
    case reserve
    then show ?thesis by (rule dead_reserve [OF b _ x])
  next
    case block
    then show ?thesis by (rule dead_block [OF b _ x])
  next
    case (store y fresh now rb)
    then have "d' = d \<or> d' = update_occurrence (holds_occurrence y) (stored_request fresh now) d"
      by (auto simp: storeOccurrenceRequest_def split: option.splits if_splits)
    moreover have "dead_in i k (update_occurrence (holds_occurrence y) (stored_request fresh now) d)"
      by (rule dead_update [OF _ x]) (use store(2) in \<open>auto simp: keeps_dead_def dead_def holds_occurrence_def stored_request_def\<close>)
    ultimately show ?thesis using x by auto
  next
    case (finalize y p now ru)
    from finalize(1) show ?thesis
    proof (cases rule: finalize_occurrence_cases)
      case same
      with x show ?thesis by (simp add: dead_in_def schedule_frame_def)
    next
      case (booked z sc s s' sc')
      have "occ_occurrenceId z \<noteq> k" using find_occurrenceD [OF booked(1)] finalize(2) by simp
      then show ?thesis
        by (intro dead_kept [OF _ x]) (auto simp: booked(8) keeps_dead_def succeeded_occurrence_frame intro!: edited_update_first)
    qed
  next
    case retarget
    with x show ?thesis by (simp add: dead_in_def retarget_schedules_def Let_def)
  qed (simp_all only: edits dead_update_schedule x,
      (rule dead_update [OF _ x], auto simp: keeps_dead_def dead_def holds_occurrence_def)+)
qed

text \<open>The schedule has not moved: its next due time, count and spent amount are those of \<open>s\<close>.\<close>

definition stands_at :: "payment_schedule \<Rightarrow> 'a schedule_db_scheme \<Rightarrow> bool" where
  "stands_at s d \<longleftrightarrow> list_ex (\<lambda>c. same_entry c s) (schedules d)"

lemma stands_books: "same_books d d' \<Longrightarrow> stands_at s d \<Longrightarrow> stands_at s d'"
  unfolding same_books_def stands_at_def list_ex_iff by (metis list_all2_member2 same_entry_trans)

lemma dead_occurrence_blocks:
  assumes b: "schedule_books d" and dead: "dead_in (sch_scheduleId c) k d" and c: "c \<in> set (schedules d)" "by_wallet c"
    and z: "z \<in> set (occurrences d)" "occ_scheduleId z = sch_scheduleId c" "occ_reservationState z \<noteq> RV_spent"
  shows "occ_occurrenceId z = k"
proof -
  obtain x where x: "x \<in> set (occurrences d)" "occ_occurrenceId x = k" "dead (sch_scheduleId c) x"
    using dead by (auto simp: dead_in_def list_ex_iff)
  have "occ_slot x = occ_slot z"
    using fits_own [OF b c(1) x(1)] fits_own [OF b c(1) z(1)] x(3) z(2,3) c(2) by (simp add: dead_def fits_def occ_slot_def)
  with one_document [OF booksD(3) [OF b] x(1) z(1)] x(2) show ?thesis by simp
qed

lemma settled_step_stands:
  assumes "settled_step k sha zones R d d'" and b: "schedule_books d"
    and dead: "dead_in (sch_scheduleId s) k d" and s: "stands_at s d" "by_wallet s"
  shows "stands_at s d'"
proof -
  note keep = stands_books [OF _ s(1)]
  from assms(1) show ?thesis
  proof cases
    case create
    with s(1) show ?thesis by (auto elim: create_cases simp: stands_at_def)
  next
    case (claim c now workerId uuid ro)
    from claim(1) show ?thesis
    proof (cases rule: claim_occurrence_cases)
      case (taken k' rx)
      from taken(1) show ?thesis by (rule keep [OF take_occurrence_keeps_books])
    qed (use s(1) in \<open>simp_all add: stands_at_def\<close>)
  next
    case in_flight
    then show ?thesis unfolding claimInFlightOccurrence_def by (rule keep [OF take_occurrence_keeps_books])
  next
    case reserve
    then show ?thesis by (rule keep [OF reserve_keeps_books [OF b]])
  next
    case store
    show ?thesis by (rule keep [OF store_keeps_books [OF store(1)]])
  next
    case block
    then show ?thesis by (rule keep [OF block_keeps_books [OF b]])
  next
    case (finalize y p now ru)
    from finalize(1) show ?thesis
    proof (cases rule: finalize_occurrence_cases)
      case same
      with s(1) show ?thesis by (simp add: stands_at_def schedule_frame_def)
    next
      case (booked z sc ps ps' sc')
      obtain c where c: "c \<in> set (schedules d)" "same_entry c s" using s(1) by (auto simp: stands_at_def list_ex_iff)
      have keys: "sch_scheduleId c = sch_scheduleId s" "by_wallet c"
        using c(2) s(2) by (simp_all add: same_entry_def same_terms_def by_wallet_def)
      note z = find_occurrenceD [OF booked(1)] and sc = find_scheduleD [OF booked(3)]
      have "sc \<noteq> c"
      proof
        assume same: "sc = c"
        with finalize(3) [OF booked(1,3)] keys(2) have "\<not> op_sessionAlreadyDebited p" by (simp add: by_wallet_def)
        with paid_pass_reserved [OF booked(5)] have "occ_reservationState z \<noteq> RV_spent" by simp
        with dead_occurrence_blocks [OF b _ c(1) keys(2), of k z] dead keys(1) z sc same finalize(2) show False by simp
      qed
      moreover have "set (schedules d') = insert sc' (set (schedules d) - {sc})" unfolding booked(7)
        by (rule replaced_set [OF booksD(1) [OF b] conjunct1 [OF sc]]) (use advanced_scheduleD(1) [OF booked(6)] in \<open>simp add: same_terms_def\<close>)
      ultimately show ?thesis using c by (auto simp: stands_at_def list_ex_iff)
    qed
  qed (rule keep, simp add: status_edits_keep_books retarget_keeps_books)+
qed

lemma settled_history_stuck:
  assumes "settled_history k sha zones R0 d0 R d" and "schedule_books d0" and "\<forall>c \<in> R0. read_ok d0 c"
    and "dead_in (sch_scheduleId s) k d0" and "stands_at s d0" and "by_wallet s"
  shows "dead_in (sch_scheduleId s) k d \<and> stands_at s d"
  using assms
proof (induction rule: settled_history.induct)
  case (step R d d')
  with schedule_history_books [OF settled_schedule_history [OF step(1)]] settled_step_dead [OF step(2)] settled_step_stands [OF step(2)]
  show ?case by blast
next
  case (other R d d')
  then show ?case by (simp add: dead_in_def stands_at_def schedule_frame_def)
qed simp_all

lemma dead_unclaimable:
  assumes b: "schedule_books d" and dead: "dead_in i k d" and c: "stableOccurrenceId sha (sch_scheduleId c) (sch_nextOccurrenceAt c) = Inr k"
  shows "claimOccurrence sha c t w u d = (Inr None, d)" and "claimInFlightOccurrence k t w u d = (None, d)"
proof -
  obtain x where x: "x \<in> set (occurrences d)" "occ_occurrenceId x = k" "dead i x" using dead by (auto simp: dead_in_def list_ex_iff)
  have only: "occ_status y = OS_blocked" if "y \<in> set (occurrences d)" "occ_occurrenceId y = k" for y
    using one_document [OF booksD(2) [OF b] that(1) x(1)] that(2) x(2,3) by (simp add: dead_def)
  have none: "take_occurrence states k t who d = (None, d)" if "OS_blocked \<notin> states" for states who
    by (rule take_occurrence_None) (use only that in \<open>auto simp: claimable_in_def\<close>)
  let ?n = "new_occurrence k (w @ '':'' @ u) t c"
  have "insert_row (occurrence_clash ?n) ?n (occurrences d) = None"
    using x(1,2) by (auto simp: insert_row_None occurrence_clash_def new_occurrence_def)
  then show "claimOccurrence sha c t w u d = (Inr None, d)" by (simp add: claimOccurrence_def c Let_def none open_states_def)
  show "claimInFlightOccurrence k t w u d = (None, d)" by (simp add: claimInFlightOccurrence_def none in_flight_states_def)
qed

lemma resume_accepted:
  assumes b: "schedule_books d" and s: "s \<in> set (schedules d)" "sch_status s = SS_paused"
    and pass: "session_known (sch_sessionId s) (sch_ownerWalletId s) d = Some pass" "ses_status pass = S_active" "\<not> pass_expired now pass"
  shows "\<exists>d' s'. controlPaymentSchedule (sch_scheduleId s) (sch_ownerWalletId s) AC_resume now d = (Inr (scheduleDto s'), d')
    \<and> find_schedule (sch_scheduleId s) d' = Some s' \<and> sch_status s' = SS_active"
proof -
  let ?s = "control_edit AC_resume now s" and ?d = "save_control AC_resume now (sch_scheduleId s) d"
  have "List.find (\<lambda>c. sch_scheduleId c = sch_scheduleId s \<and> sch_ownerWalletId c = sch_ownerWalletId s) (schedules d) = Some s"
    by (rule find_filtered_key [OF booksD(1) [OF b] s(1)]) simp
  then have r: "controlPaymentSchedule (sch_scheduleId s) (sch_ownerWalletId s) AC_resume now d
      = (Inr (scheduleDto ?s), writeAuditLog (sch_ownerWalletId s) (''schedule.'' @ schedule_action_text AC_resume) ''payment_schedule''
          (sch_scheduleId s) ?d)"
    using s(2) pass by (simp add: controlPaymentSchedule_def control_applies_def chain_def Let_def)
  have "List.find (\<lambda>c. sch_scheduleId c = sch_scheduleId s) (schedules d) = Some s" by (rule find_unique_key [OF booksD(1) [OF b] s(1)])
  then have "find_schedule (sch_scheduleId s) (writeAuditLog w a t i ?d) = Some ?s" for w a t i
    using find_update_first_key [where key = sch_scheduleId and k = "sch_scheduleId s" and f = "control_edit AC_resume now" and xs = "schedules d"]
    by (simp add: find_schedule_def writeAuditLog_def save_control_def update_schedule_def control_edit_def)
  moreover have "sch_status ?s = SS_active" by (simp add: control_edit_def)
  ultimately show ?thesis using r by blast
qed

text \<open>
  Property C26: a blocked occurrence stops its schedule for good. When \<open>blockOccurrence\<close> blocks the unpaid
  occurrence at the next due time of a schedule paid by a connected wallet, then whatever owners and workers do
  afterwards, resuming the schedule included, as long as no late answer about that very occurrence comes in:
  no worker ever claims the occurrence again, neither as due nor as in flight, the schedule never advances
  (its next due time, its count and its spent amount stay), and yet resuming it is accepted whenever
  its pass is active and makes it active again.
\<close>

theorem blocked_schedule_never_resumes:
  assumes "schedule_history sha zones {} d0 R d" and "schedule_books d0"
    and "find_occurrence (occ_occurrenceId x) d = Some y" and "occ_reservationState y \<noteq> RV_spent"
    and "find_schedule (occ_scheduleId y) d = Some s" and "sch_executor s \<noteq> ME_fiber"
    and "stableOccurrenceId sha (sch_scheduleId s) (sch_nextOccurrenceAt s) = Inr (occ_occurrenceId x)"
    and "blockOccurrence x e now d = (Inr (), d1)"
    and "settled_history (occ_occurrenceId x) sha zones R d1 R' d2"
  shows "\<exists>s2. find_schedule (sch_scheduleId s) d2 = Some s2 \<and> sch_nextOccurrenceAt s2 = sch_nextOccurrenceAt s
    \<and> sch_occurrenceCount s2 = sch_occurrenceCount s \<and> sch_spentAtomic s2 = sch_spentAtomic s
    \<and> (\<forall>t w u. claimOccurrence sha s2 t w u d2 = (Inr None, d2) \<and> claimInFlightOccurrence (occ_occurrenceId x) t w u d2 = (None, d2))
    \<and> (\<forall>t pass. sch_status s2 = SS_paused \<and> session_known (sch_sessionId s2) (sch_ownerWalletId s2) d2 = Some pass
        \<and> ses_status pass = S_active \<and> \<not> pass_expired t pass \<longrightarrow>
        (\<exists>d3 s3. controlPaymentSchedule (sch_scheduleId s2) (sch_ownerWalletId s2) AC_resume t d2 = (Inr (scheduleDto s3), d3)
          \<and> find_schedule (sch_scheduleId s2) d3 = Some s3 \<and> sch_status s3 = SS_active))"
proof -
  let ?k = "occ_occurrenceId x" and ?i = "sch_scheduleId s"
  have H: "schedule_books d" "\<forall>c \<in> R. read_ok d c" using schedule_history_books [OF assms(1,2)] by simp_all
  have same: "same_books d d1" by (rule block_keeps_books [OF H(1) assms(8)])
  have b1: "schedule_books d1" and R1: "\<forall>c \<in> R. read_ok d1 c" using same_books_keep [OF H(1) same] H(2) by blast+
  have "stands_at s d" using find_scheduleD [OF assms(5)] by (auto simp: stands_at_def list_ex_iff intro!: bexI [of _ s])
  then have stands: "stands_at s d1" by (rule stands_books [OF same])
  have dead: "dead_in ?i ?k d1" by (rule blocked_dead [OF H(1) assms(8,3,4)]) (use find_scheduleD [OF assms(5)] in simp)
  have wallet: "by_wallet s" using assms(6) by (simp add: by_wallet_def)
  note stuck = settled_history_stuck [OF assms(9) b1 R1 dead stands wallet]
  have b2: "schedule_books d2" using schedule_history_books [OF settled_schedule_history [OF assms(9)] b1 R1] by simp
  from stuck obtain s2 where s2: "s2 \<in> set (schedules d2)" "same_entry s2 s" by (auto simp: stands_at_def list_ex_iff)
  then have fields: "sch_scheduleId s2 = ?i" "sch_nextOccurrenceAt s2 = sch_nextOccurrenceAt s"
    "sch_occurrenceCount s2 = sch_occurrenceCount s" "sch_spentAtomic s2 = sch_spentAtomic s"
    by (simp_all add: same_entry_def same_terms_def)
  have "find_schedule ?i d2 = Some s2" using find_unique_key [OF booksD(1) [OF b2] s2(1)] fields(1) by (simp add: find_schedule_def)
  moreover have "claimOccurrence sha s2 t w u d2 = (Inr None, d2) \<and> claimInFlightOccurrence ?k t w u d2 = (None, d2)" for t w u
    using dead_unclaimable [OF b2 conjunct1 [OF stuck], of sha s2] assms(7) fields(1,2) by simp
  ultimately show ?thesis using fields resume_accepted [OF b2 s2(1)] by blast
qed

text \<open>
  Property C27: revoking can leave a reservation behind. An occurrence that had been marked submitted and was
  put back for a retry is not released when its schedule is revoked: it stays reserved, the pass is not
  touched, no worker can take it as in flight from the state the revocation leaves, and revoking again changes
  nothing.
\<close>

theorem revoked_reservation_kept:
  assumes "List.find (\<lambda>s. sch_scheduleId s = i \<and> sch_ownerWalletId s = w) (schedules d) = Some s"
    and "sch_status s \<in> {SS_active, SS_paused}" and "distinct (map sch_scheduleId (schedules d))"
    and "x \<in> set (occurrences d)" and "distinct (map occ_occurrenceId (occurrences d))"
    and "\<forall>y \<in> set (occurrences d). occ_scheduleId y = i \<longrightarrow> y = x \<or> occ_status y = OS_succeeded"
    and "occ_scheduleId x = i" and "occ_status x = OS_retrying"
    and "occ_submittedAt x \<noteq> None" and "occ_reservationState x = RV_reserved"
    and "controlPaymentSchedule i w AC_revoke now d = (r, d')"
  shows "occurrences d' = occurrences d \<and> sessions d' = sessions d
    \<and> (\<exists>s'. r = Inr (scheduleDto s') \<and> find_schedule i d' = Some s' \<and> sch_status s' = SS_revoked
        \<and> (\<forall>later. controlPaymentSchedule i w AC_revoke later d' = (Inr (scheduleDto s'), d')))
    \<and> (\<forall>t worker uuid. claimInFlightOccurrence (occ_occurrenceId x) t worker uuid d' = (None, d'))"
proof -
  let ?s = "control_edit AC_revoke now s"
  have i: "sch_scheduleId s = i" "sch_ownerWalletId s = w" "s \<in> set (schedules d)" using find_SomeD [OF assms(1)] by auto
  have free: "revoked_occurrences i (save_control AC_revoke now i d) = []"
    using assms(6,8,9) by (auto simp: revoked_occurrences_def save_control_def update_schedule_def unsubmitted_def filter_empty_conv)
  have r: "r = Inr (scheduleDto ?s)"
    and d': "d' = writeAuditLog w (''schedule.'' @ schedule_action_text AC_revoke) ''payment_schedule'' i (save_control AC_revoke now i d)"
    using assms(1,2,11) free by (auto simp: controlPaymentSchedule_def control_applies_def terminal_schedule_def chain_def Let_def)
  have all: "set (schedules d') = insert ?s (set (schedules d) - {s})"
    using set_update_find [OF assms(3) find_unique_key [OF assms(3) i(3)], of i "control_edit AC_revoke now"] i(1)
    by (simp add: d' writeAuditLog_def save_control_def update_schedule_def)
  have dist: "distinct (map sch_scheduleId (schedules d'))"
    using assms(3) map_update_first [where key = sch_scheduleId and f = "control_edit AC_revoke now"]
    by (simp add: d' writeAuditLog_def save_control_def update_schedule_def control_edit_def)
  have s': "?s \<in> set (schedules d')" "sch_scheduleId ?s = i" "sch_ownerWalletId ?s = w" "sch_status ?s = SS_revoked"
    using all i by (simp_all add: control_edit_def)
  have f: "find_schedule i d' = Some ?s" unfolding find_schedule_def
    using find_unique_key [OF dist s'(1)] s'(2) by simp
  have "List.find (\<lambda>s. sch_scheduleId s = i \<and> sch_ownerWalletId s = w) (schedules d') = Some ?s"
    using find_filtered_key [OF dist s'(1), of "\<lambda>s. sch_ownerWalletId s = w"] s'(2,3) by simp
  then have "controlPaymentSchedule i w AC_revoke later d' = (Inr (scheduleDto ?s), d')" for later
    using s'(4) by (simp add: controlPaymentSchedule_def control_applies_def)
  moreover have os: "occurrences d' = occurrences d" "sessions d' = sessions d"
    by (simp_all add: d' writeAuditLog_def save_control_def update_schedule_def)
  moreover have "claimInFlightOccurrence (occ_occurrenceId x) t worker uuid d' = (None, d')" for t worker uuid
    unfolding claimInFlightOccurrence_def
    by (rule take_occurrence_None)
      (use one_document [OF assms(5) _ assms(4)] assms(8) in \<open>force simp: os claimable_in_def in_flight_states_def\<close>)
  ultimately show ?thesis using r f s'(4) by auto
qed

subsection \<open>Witnesses\<close>

theorem occurrence_lease_exclusive_witness:
  "\<exists>d'. claimOccurrence (\<lambda>_. ''h'') sample_schedule 2000 ''w'' ''u'' sample_sdb
      = (Inr (Some (new_occurrence ''occ_h'' ''w:u'' 2000 sample_schedule)), d')
    \<and> claimInFlightOccurrence ''occ_h'' 91999 ''v'' ''v'' d' = (None, d')"
proof -
  have "sample_schedule \<in> {sample_schedule}" and
    "case sch_occurrenceLimit sample_schedule of None \<Rightarrow> True | Some n \<Rightarrow> sch_occurrenceCount sample_schedule < n"
    by (simp_all add: sample_schedule_def)
  note occurrence_lease_exclusive [OF sample_read sample_books(1) this sample_claimed]
  moreover have "91999 < 2000 + OCCURRENCE_LEASE_MS" "occ_occurrenceId (new_occurrence ''occ_h'' ''w:u'' 2000 sample_schedule) = ''occ_h''"
    by (simp_all add: OCCURRENCE_LEASE_MS_def new_occurrence_def)
  ultimately show ?thesis using sample_claimed by metis
qed

definition sample_payment :: occurrence_payment where
  "sample_payment = \<lparr>op_executorPaymentId = ''pay'', op_paymentHash = None, op_proofKind = None, op_proofReference = None,
     op_feeAtomic = None, op_sessionAlreadyDebited = False\<rparr>"

lemma sample_booking: "fst (finalizeOccurrenceSuccess (\<lambda>_. ''h'') utc sample_occurrence sample_payment 3000 sample_reserved_sdb) = Inr ()"
  by code_simp

theorem occurrence_booked_once_witness:
  "\<exists>d1. finalizeOccurrenceSuccess (\<lambda>_. ''h'') utc sample_occurrence sample_payment 3000 sample_reserved_sdb = (Inr (), d1)
    \<and> finalizeOccurrenceSuccess (\<lambda>_. ''h'') utc sample_occurrence sample_payment 4000 d1
        = (Inr (), writeAuditLog ''w'' ''schedule.occurrence.succeeded'' ''scheduled_occurrence'' ''occ_h'' d1)"
proof -
  obtain d1 where d1: "finalizeOccurrenceSuccess (\<lambda>_. ''h'') utc sample_occurrence sample_payment 3000 sample_reserved_sdb = (Inr (), d1)"
    using sample_booking by (metis prod.collapse)
  have "\<exists>y. find_occurrence ''occ_h'' d1 = Some y \<and> occ_status y = OS_succeeded"
    using d1
  proof (cases rule: finalize_occurrence_cases)
    case same
    from same(3) [of sample_occurrence] show ?thesis
      by (simp add: find_occurrence_def sample_reserved_sdb_def sample_occurrence_def new_occurrence_def)
  next
    case (booked x sc s s' sc')
    then show ?thesis
      by (auto simp: find_occurrence_def sample_reserved_sdb_def sample_occurrence_def new_occurrence_def succeeded_occurrence_def)
  qed
  then obtain y where y: "find_occurrence ''occ_h'' d1 = Some y" "occ_status y = OS_succeeded" by blast
  obtain r d3 where d3: "finalizeOccurrenceSuccess (\<lambda>_. ''h'') utc sample_occurrence sample_payment 4000 d1 = (r, d3)" by fastforce
  have x: "find_occurrence (occ_occurrenceId sample_occurrence) sample_reserved_sdb = Some sample_occurrence"
    "occ_status sample_occurrence \<noteq> OS_succeeded"
    "find_schedule (occ_scheduleId sample_occurrence) sample_reserved_sdb = Some sample_schedule"
    "op_sessionAlreadyDebited sample_payment = (sch_executor sample_schedule = ME_fiber)"
    "occ_occurrenceId sample_occurrence = ''occ_h''" "occ_ownerWalletId sample_occurrence = ''w''"
    "sch_executor sample_schedule \<noteq> ME_fiber"
    by (simp_all add: find_occurrence_def find_schedule_def sample_reserved_sdb_def sample_sdb_defs sample_occurrence_def
        new_occurrence_def sample_schedule_def sample_payment_def)
  have "find_occurrence (occ_occurrenceId sample_occurrence) d1 = Some y" using y(1) x(5) by simp
  from occurrence_booked_once [OF schedule_history.start sample_books(2) x(1-4) d1 receipt_history.start refl this x(4) _ _ d3] x(5-7) y(2) d1 d3
  show ?thesis by simp
qed

theorem blocked_schedule_never_resumes_witness:
  "\<exists>d1 s2. blockOccurrence sample_occurrence DuplicateKey 3000 sample_reserved_sdb = (Inr (), d1)
    \<and> find_schedule ''sch'' (save_control AC_resume 5000 ''sch'' d1) = Some s2
    \<and> claimOccurrence (\<lambda>_. ''h'') s2 999999 ''w'' ''u'' (save_control AC_resume 5000 ''sch'' d1)
        = (Inr None, save_control AC_resume 5000 ''sch'' d1)"
proof -
  have "fst (blockOccurrence sample_occurrence DuplicateKey 3000 sample_reserved_sdb) = Inr ()" by code_simp
  then obtain d1 where d1: "blockOccurrence sample_occurrence DuplicateKey 3000 sample_reserved_sdb = (Inr (), d1)"
    by (metis prod.collapse)
  have h: "settled_history (occ_occurrenceId sample_occurrence) (\<lambda>_. ''h'') utc {} d1 {} (save_control AC_resume 5000 ''sch'' d1)"
    by (rule settled_history.step [OF settled_history.start settled_step.control]) (rule refl)
  have x: "find_occurrence (occ_occurrenceId sample_occurrence) sample_reserved_sdb = Some sample_occurrence"
    "occ_reservationState sample_occurrence \<noteq> RV_spent"
    "find_schedule (occ_scheduleId sample_occurrence) sample_reserved_sdb = Some sample_schedule" "sch_executor sample_schedule \<noteq> ME_fiber"
    "stableOccurrenceId (\<lambda>_. ''h'') (sch_scheduleId sample_schedule) (sch_nextOccurrenceAt sample_schedule)
      = Inr (occ_occurrenceId sample_occurrence)"
    by (simp_all add: find_occurrence_def find_schedule_def sample_reserved_sdb_def sample_sdb_defs sample_occurrence_def
        new_occurrence_def sample_schedule_def stableOccurrenceId_def trim_def is_space_def)
  have "sch_scheduleId sample_schedule = ''sch''" by (simp add: sample_schedule_def)
  with blocked_schedule_never_resumes [OF schedule_history.start sample_books(2) x d1 h] d1 show ?thesis by metis
qed

theorem revoked_reservation_kept_witness:
  "\<exists>(d' :: schedule_db) x. occurrences d' = [x] \<and> occ_reservationState x = RV_reserved
    \<and> claimInFlightOccurrence ''occ_h'' 999999 ''w'' ''u'' d' = (None, d')"
proof -
  let ?x = "sample_occurrence\<lparr>occ_status := OS_retrying\<rparr>"
  let ?d = "sample_reserved_sdb\<lparr>occurrences := [?x]\<rparr>"
  obtain r d' where r: "controlPaymentSchedule ''sch'' ''w'' AC_revoke 5000 ?d = (r, d')" by fastforce
  have x: "occ_occurrenceId ?x = ''occ_h''" "occurrences ?d = [?x]" by (simp_all add: sample_occurrence_def new_occurrence_def)
  have "List.find (\<lambda>s. sch_scheduleId s = ''sch'' \<and> sch_ownerWalletId s = ''w'') (schedules ?d) = Some sample_schedule"
    "sch_status sample_schedule \<in> {SS_active, SS_paused}" "distinct (map sch_scheduleId (schedules ?d))" "?x \<in> set (occurrences ?d)"
    "distinct (map occ_occurrenceId (occurrences ?d))"
    "\<forall>y \<in> set (occurrences ?d). occ_scheduleId y = ''sch'' \<longrightarrow> y = ?x \<or> occ_status y = OS_succeeded"
    "occ_scheduleId ?x = ''sch''" "occ_status ?x = OS_retrying" "occ_submittedAt ?x \<noteq> None" "occ_reservationState ?x = RV_reserved"
    by (simp_all add: sample_reserved_sdb_def sample_sdb_defs sample_schedule_def sample_occurrence_def new_occurrence_def)
  from revoked_reservation_kept [OF this r, unfolded x] this(10) show ?thesis by blast
qed

end
