(* ===== verification/Schedule_Calendar.thy ===== *)
theory Schedule_Calendar
  imports Schedule_Accounts
begin

section \<open>The calendar of schedules\<close>

text \<open>
  Dates and day numbers are inverse to each other, which makes calendar steps exact: a monthly schedule
  keeps its anchor day through short months. A daily schedule keeps the local time of its last
  occurrence, and with it the shift a gap in local time once caused.
\<close>

subsection \<open>Dates and day numbers\<close>

definition valid_date :: "int \<Rightarrow> int \<Rightarrow> int \<Rightarrow> bool" where
  "valid_date y m d \<longleftrightarrow> 1 \<le> m \<and> m \<le> 12 \<and> 1 \<le> d \<and> d \<le> days_in_month y m"

definition year_days :: "int \<Rightarrow> int" where
  "year_days yoe = yoe * 365 + yoe div 4 - yoe div 100"

text \<open>The year of an era from the day of the era.\<close>

lemma year_of_era:
  assumes y: "0 \<le> y" "y < 400" and d: "0 \<le> d" "d \<le> (if (y + 1) mod 4 = 0 \<and> ((y + 1) mod 100 \<noteq> 0 \<or> y = 399) then 365 else 364)"
  defines "doe \<equiv> year_days y + d"
  shows "(doe - doe div 1460 + doe div 36524 - doe div 146096) div 365 = y" and "0 \<le> doe" and "doe < 146097"
proof -
  define a where "a = y div 100"
  define q where "q = y mod 100 div 4"
  define r where "r = y mod 100 mod 4"
  have ya: "y = 100 * a + 4 * q + r" unfolding a_def q_def r_def by (simp add: algebra_simps)
  have bounds: "0 \<le> a" "a \<le> 3" "0 \<le> q" "q \<le> 24" "0 \<le> r" "r \<le> 3"
    using y unfolding a_def q_def r_def by auto
  have "y div 4 = 25 * a + q" by (rule int_div_pos_eq [of _ _ _ r]) (use ya bounds in simp_all)
  then have doe: "doe = 36524 * a + 1461 * q + 365 * r + d"
    using ya unfolding doe_def year_days_def a_def [symmetric] by simp
  have r: "r = 0 \<or> r = 1 \<or> r = 2 \<or> r = 3" using bounds(5,6) by linarith
  have "y + 1 = 4 * (25 * a + q) + (r + 1)" using ya by simp
  then have "(y + 1) mod 4 = (r + 1) mod 4" by (metis mod_mult_self4)
  then have leap4: "(y + 1) mod 4 = 0 \<longleftrightarrow> r = 3" using r by auto
  have "y + 1 = 100 * a + (4 * q + r + 1)" using ya by simp
  then have "(y + 1) mod 100 = (4 * q + r + 1) mod 100" by (metis mod_mult_self4)
  moreover have "(4 * q + r + 1) mod 100 = 0 \<longleftrightarrow> q = 24 \<and> r = 3"
  proof (cases "4 * q + r + 1 < 100")
    case True
    then have "(4 * q + r + 1) mod 100 = 4 * q + r + 1" using bounds by (intro mod_pos_pos_trivial) simp_all
    with True bounds show ?thesis by linarith
  next
    case False
    then have "q = 24 \<and> r = 3" using bounds by linarith
    then show ?thesis by simp
  qed
  ultimately have leap100: "(y + 1) mod 100 = 0 \<longleftrightarrow> q = 24 \<and> r = 3" by simp
  have y399: "y = 399 \<longleftrightarrow> a = 3 \<and> q = 24 \<and> r = 3" using ya bounds by linarith
  have d365: "d \<le> 365" "d = 365 \<Longrightarrow> r = 3 \<and> (q = 24 \<longrightarrow> a = 3)"
    using d leap4 leap100 y399 by (auto split: if_splits)
  show "0 \<le> doe" and "doe < 146097" using doe bounds d365 d(1) by linarith+
  define over where "over = (if 24 * a + q + 365 * r + d \<ge> 1460 then 1 else (0 :: int))"
  have 1: "doe div 1460 = 25 * a + q + over"
    by (rule int_div_pos_eq [of _ _ _ "24 * a + q + 365 * r + d - 1460 * over"])
      (use doe bounds d365(1) d(1) in \<open>simp_all add: over_def\<close>)
  show "(doe - doe div 1460 + doe div 36524 - doe div 146096) div 365 = y"
  proof (cases "a = 3 \<and> q = 24 \<and> r = 3 \<and> d = 365")
    case True
    then show ?thesis using doe ya by simp
  next
    case False
    have small: "1461 * q + 365 * r + d < 36524" using False bounds d365 by (cases "q = 24 \<and> r = 3 \<and> d = 365") linarith+
    have 2: "doe div 36524 = a" by (rule int_div_pos_eq [of _ _ _ "1461 * q + 365 * r + d"]) (use doe small bounds d(1) in simp_all)
    have 3: "doe div 146096 = 0" using doe small bounds d(1) by simp
    have "doe - doe div 1460 + doe div 36524 - doe div 146096 = 365 * y + (d - over)"
      using 1 2 3 doe ya by simp
    moreover have "0 \<le> d - over" using d(1) bounds by (auto simp: over_def)
    moreover have "d - over < 365"
    proof (cases "d = 365")
      case True
      with d365(2) bounds show ?thesis by (simp add: over_def)
    qed (use d365(1) in \<open>simp add: over_def\<close>)
    ultimately show ?thesis by (intro int_div_pos_eq [of _ _ _ "d - over"]) simp_all
  qed
qed

text \<open>The month and the day from the day of a year that begins in March.\<close>

definition month_start :: "int \<Rightarrow> int" where
  "month_start m = (153 * ((m + 9) mod 12) + 2) div 5"

lemma month_cases:
  assumes "1 \<le> m" and "m \<le> (12 :: int)"
  shows "m = 1 \<or> m = 2 \<or> m = 3 \<or> m = 4 \<or> m = 5 \<or> m = 6 \<or> m = 7 \<or> m = 8 \<or> m = 9 \<or> m = 10 \<or> m = 11 \<or> m = 12"
proof -
  have "m \<in> set [1..12]" using assms by simp
  then show ?thesis by (simp add: upto.simps del: set_upto)
qed

lemma month_of_year:
  assumes "valid_date y m d"
  shows "(5 * (month_start m + d - 1) + 2) div 153 = (m + 9) mod 12" and "0 \<le> month_start m + d - 1"
    and "month_start m + d - 1 \<le> (if m = 2 \<and> d = 29 then 365 else 364)"
proof -
  have m: "1 \<le> m" "m \<le> 12" and d: "1 \<le> d" "d \<le> days_in_month y m" using assms by (simp_all add: valid_date_def)
  let ?n = "month_start m + d - 1"
  have "153 * ((m + 9) mod 12) \<le> 5 * ?n + 2 \<and> 5 * ?n + 2 < 153 * ((m + 9) mod 12) + 153 \<and> 0 \<le> ?n
      \<and> ?n \<le> (if m = 2 \<and> d = 29 then 365 else 364)"
    using month_cases [OF m] d
    by (elim disjE) (auto simp: month_start_def days_in_month_def split: if_splits)
  then show "(5 * ?n + 2) div 153 = (m + 9) mod 12" and "0 \<le> ?n" and "?n \<le> (if m = 2 \<and> d = 29 then 365 else 364)"
    using int_div_pos_eq [of "5 * ?n + 2" 153 "(m + 9) mod 12" "5 * ?n + 2 - 153 * ((m + 9) mod 12)"] by auto
qed

lemma leap_in_era: "leap_year (y + 1) \<longleftrightarrow> (y mod 400 + 1) mod 4 = 0 \<and> ((y mod 400 + 1) mod 100 \<noteq> 0 \<or> y mod 400 = 399)"
proof -
  have "y + 1 = 4 * (100 * (y div 400)) + (y mod 400 + 1)" "y + 1 = 100 * (4 * (y div 400)) + (y mod 400 + 1)"
    "y + 1 = 400 * (y div 400) + (y mod 400 + 1)" by simp_all
  then have "(y mod 400 + 1) mod 4 = (y + 1) mod 4" "(y mod 400 + 1) mod 100 = (y + 1) mod 100"
    and 400: "(y + 1) mod 400 = (y mod 400 + 1) mod 400" by (metis mod_mult_self4)+
  moreover have "(y mod 400 + 1) mod 400 = 0 \<longleftrightarrow> y mod 400 = 399"
  proof (cases "y mod 400 = 399")
    case False
    then have "y mod 400 + 1 < 400" "0 < y mod 400 + 1" using pos_mod_bound [of 400 y] pos_mod_sign [of 400 y] by simp_all
    with False show ?thesis by simp
  qed simp
  ultimately show ?thesis by (simp only: leap_year_def 400)
qed

text \<open>A valid date is the date of its day number.\<close>

lemma civil_day_roundtrip:
  assumes "valid_date y m d"
  shows "civil_of_day (day_of_civil y m d) = (y, m, d)"
proof -
  define y' where "y' = (if m \<le> 2 then y - 1 else y)"
  define doy where "doy = month_start m + d - 1"
  define doe where "doe = year_days (y' mod 400) + doy"
  note month = month_of_year [OF assms, folded doy_def]
  have m12: "1 \<le> m" "m \<le> 12" and d: "1 \<le> d" "d \<le> days_in_month y m" using assms by (auto simp: valid_date_def)
  have "leap_year y" if "m = 2 \<and> d = 29" using that d by (auto simp: days_in_month_def split: if_splits)
  then have leap: "leap_year (y' + 1)" if "m = 2 \<and> d = 29" using that by (simp add: y'_def)
  have doy_le: "doy \<le> (if (y' mod 400 + 1) mod 4 = 0 \<and> ((y' mod 400 + 1) mod 100 \<noteq> 0 \<or> y' mod 400 = 399) then 365 else 364)"
    using month(3) leap leap_in_era [of y'] by (auto split: if_splits)
  note era = year_of_era [OF _ _ month(2) doy_le, folded doe_def]
  have era: "(doe - doe div 1460 + doe div 36524 - doe div 146096) div 365 = y' mod 400" "0 \<le> doe" "doe < 146097"
    using era by simp_all
  have z: "day_of_civil y m d + 719468 = y' div 400 * 146097 + doe"
    by (simp add: day_of_civil_def y'_def [symmetric] doe_def doy_def month_start_def year_days_def Let_def)
  have "(day_of_civil y m d + 719468) div 146097 = y' div 400" "(day_of_civil y m d + 719468) mod 146097 = doe"
    unfolding z using era(2,3) by simp_all
  moreover have "doe - (365 * (y' mod 400) + y' mod 400 div 4 - y' mod 400 div 100) = doy"
    by (simp add: doe_def year_days_def)
  moreover have "doy - (153 * ((m + 9) mod 12) + 2) div 5 + 1 = d" by (simp add: doy_def month_start_def)
  moreover have "(if (m + 9) mod 12 < 10 then (m + 9) mod 12 + 3 else (m + 9) mod 12 - 9) = m"
    using month_cases [OF m12] by (elim disjE) simp_all
  moreover have "y' mod 400 + y' div 400 * 400 + (if m \<le> 2 then 1 else 0) = y"
    by (simp add: y'_def)
  ultimately show ?thesis
    unfolding civil_of_day_def Let_def using month(1) era(1) by (simp only: split: prod.splits)
qed

text \<open>The day number without eras, and the length of a year.\<close>

definition year_start :: "int \<Rightarrow> int" where
  "year_start y = 365 * y + y div 4 - y div 100 + y div 400"

lemma era_year_start: "y div 400 * 146097 + year_days (y mod 400) = year_start y"
proof -
  have y: "y = 4 * (100 * (y div 400)) + y mod 400" "y = 100 * (4 * (y div 400)) + y mod 400" by simp_all
  have "y div 4 = 100 * (y div 400) + y mod 400 div 4" "y div 100 = 4 * (y div 400) + y mod 400 div 100"
    using div_mult_self4 [of 4 "100 * (y div 400)" "y mod 400"] div_mult_self4 [of 100 "4 * (y div 400)" "y mod 400"]
    by (simp_all only: y [symmetric])
  moreover have "k * 146097 + (e * 365 + p - q) = 365 * y + (100 * k + p) - (4 * k + q) + k" if "y = 400 * k + e" for k e p q
    using that by simp
  from this [of "y div 400" "y mod 400"] have "y div 400 * 146097 + (y mod 400 * 365 + p - q)
      = 365 * y + (100 * (y div 400) + p) - (4 * (y div 400) + q) + y div 400" for p q by simp
  ultimately show ?thesis by (simp only: year_start_def year_days_def)
qed

lemma day_of_civil_start:
  "day_of_civil y m d = year_start (if m \<le> 2 then y - 1 else y) + month_start m + d - 719469"
proof -
  have sum: "a + (b + (x + d - 1)) - 719468 = c + x + d - 719469" if "a + b = c" for a b c x :: int
    using that by simp
  show ?thesis unfolding day_of_civil_def Let_def month_start_def
    by (rule sum) (rule era_year_start [unfolded year_days_def])
qed

lemma div_Suc: "0 < n \<Longrightarrow> (y + 1) div n = y div n + (if (y + 1) mod n = 0 then 1 else (0 :: int))"
proof -
  assume n: "0 < n"
  have y: "y = n * (y div n) + y mod n" by simp
  have b: "0 \<le> y mod n" "y mod n < n" using n by simp_all
  show ?thesis
  proof (cases "y mod n = n - 1")
    case True
    then have "y + 1 = n * (y div n) + n" using y by linarith
    then have "y + 1 = n * (y div n + 1)" by (simp add: distrib_left)
    then show ?thesis using n by simp
  next
    case False
    have e: "y + 1 = n * (y div n) + (y mod n + 1)" using y by simp
    have "(y + 1) div n = y div n" by (rule int_div_pos_eq [OF e]) (use b False in simp_all)
    moreover have "(y + 1) mod n = y mod n + 1" by (rule int_mod_pos_eq [OF e]) (use b False in simp_all)
    ultimately show ?thesis using b by simp
  qed
qed

lemma year_length: "year_start (y + 1) = year_start y + (if leap_year (y + 1) then 366 else 365)"
proof -
  define A B C where "A = ((y + 1) mod 4 = 0)" and "B = ((y + 1) mod 100 = 0)" and "C = ((y + 1) mod 400 = 0)"
  have "C \<Longrightarrow> B" "B \<Longrightarrow> A" unfolding A_def B_def C_def
    using dvd_trans [of 100 400 "y + 1"] dvd_trans [of 4 100 "y + 1"] by (simp_all add: mod_eq_0_iff_dvd)
  moreover have "(y + 1) div 4 = y div 4 + (if A then 1 else 0)" "(y + 1) div 100 = y div 100 + (if B then 1 else 0)"
    "(y + 1) div 400 = y div 400 + (if C then 1 else 0)"
    unfolding A_def B_def C_def by (rule div_Suc, simp)+
  moreover have "leap_year (y + 1) \<longleftrightarrow> A \<and> (\<not> B \<or> C)" by (simp only: leap_year_def A_def B_def C_def)
  moreover have "365 * (y + 1) + (p + (if A then 1 else 0)) - (q + (if B then 1 else 0)) + (r + (if C then 1 else 0))
      = 365 * y + p - q + r + (if A \<and> (\<not> B \<or> C) then 366 else 365)" if "C \<Longrightarrow> B" "B \<Longrightarrow> A" for p q r :: int
    using that by (cases A; cases B; cases C) simp_all
  ultimately show ?thesis by (simp only: year_start_def)
qed

text \<open>The day after a date, and every day as a date.\<close>

definition next_date :: "int \<times> int \<times> int \<Rightarrow> int \<times> int \<times> int" where
  "next_date = (\<lambda>(y, m, d). if d < days_in_month y m then (y, m, d + 1) else if m < 12 then (y, m + 1, 1) else (y + 1, 1, 1))"

lemma next_date_valid:
  assumes "valid_date y m d" and "next_date (y, m, d) = (y', m', d')"
  shows "valid_date y' m' d'" and "day_of_civil y' m' d' = day_of_civil y m d + 1"
proof -
  have m: "1 \<le> m" "m \<le> 12" and d: "1 \<le> d" "d \<le> days_in_month y m" using assms(1) by (simp_all add: valid_date_def)
  show "valid_date y' m' d'"
    using assms(2) m d by (auto simp: next_date_def valid_date_def days_in_month_def split: if_splits)
  show "day_of_civil y' m' d' = day_of_civil y m d + 1"
  proof (cases "d < days_in_month y m")
    case True
    with assms(2) show ?thesis by (simp add: next_date_def day_of_civil_start split: if_splits)
  next
    case False
    then have d: "d = days_in_month y m" using d(2) by simp
    with False assms(2) have n: "(y', m', d') = (if m < 12 then (y, m + 1, 1) else (y + 1, 1, 1))" by (simp add: next_date_def)
    show ?thesis
    proof (cases "m = 2")
      case True
      with n d year_length [of "y - 1"] show ?thesis
        by (simp add: day_of_civil_start month_start_def days_in_month_def split: if_splits)
    next
      case False
      with n d month_cases [OF m] show ?thesis
        by (elim disjE) (simp_all add: day_of_civil_start month_start_def days_in_month_def)
    qed
  qed
qed

lemma shift_era: "day_of_civil (y + 400 * k) m d = day_of_civil y m d + 146097 * k" "days_in_month (y + 400 * k) m = days_in_month y m"
proof -
  have "(y + 4 * (100 * k)) mod 4 = y mod 4" "(y + 100 * (4 * k)) mod 100 = y mod 100" "(y + 400 * k) mod 400 = y mod 400"
    by (rule mod_mult_self2)+
  moreover have "4 * (100 * k) = 400 * k" "100 * (4 * k) = 400 * k" by simp_all
  ultimately have "(y + 400 * k) mod 4 = y mod 4" "(y + 400 * k) mod 100 = y mod 100" "(y + 400 * k) mod 400 = y mod 400"
    by (simp_all only:)
  then show "days_in_month (y + 400 * k) m = days_in_month y m" by (simp add: days_in_month_def leap_year_def)
  have "(x + 400 * k) div 400 = x div 400 + k" "(x + 400 * k) mod 400 = x mod 400" for x by simp_all
  moreover have "(if m \<le> 2 then y + 400 * k - 1 else y + 400 * k) = (if m \<le> 2 then y - 1 else y) + 400 * k" by simp
  moreover have "(a + k) * 146097 + b - 719468 = a * 146097 + b - 719468 + 146097 * k" for a b :: int by simp
  ultimately show "day_of_civil (y + 400 * k) m d = day_of_civil y m d + 146097 * k"
    by (simp only: day_of_civil_def Let_def)
qed

lemma every_day:
  obtains y m d where "valid_date y m d" and "day_of_civil y m d = z"
proof -
  have up: "\<exists>y m d. valid_date y m d \<and> day_of_civil y m d = int n" for n
  proof (induction n)
    case 0
    have "valid_date 1970 1 1" "day_of_civil 1970 1 1 = 0" by code_simp+
    then show ?case by auto
  next
    case (Suc n)
    then obtain y m d where *: "valid_date y m d" "day_of_civil y m d = int n" by blast
    obtain y' m' d' where "next_date (y, m, d) = (y', m', d')" by (cases "next_date (y, m, d)")
    from next_date_valid [OF *(1) this] *(2) show ?case by (intro exI [of _ y'] exI [of _ m'] exI [of _ d']) simp
  qed
  obtain y m d where "valid_date y m d" "day_of_civil y m d = int (nat (z mod 146097))" using up by blast
  then have "valid_date (y + 400 * (z div 146097)) m d" "day_of_civil (y + 400 * (z div 146097)) m d = z"
    by (simp_all add: valid_date_def shift_era)
  with that show thesis by blast
qed

lemma civil_of_day_valid:
  assumes "civil_of_day z = (y, m, d)"
  shows "valid_date y m d" and "day_of_civil y m d = z"
proof -
  obtain y' m' d' where *: "valid_date y' m' d'" "day_of_civil y' m' d' = z" by (rule every_day)
  with civil_day_roundtrip [OF *(1)] assms show "valid_date y m d" and "day_of_civil y m d = z" by auto
qed

subsection \<open>Following a schedule\<close>

definition valid_local :: "local_time \<Rightarrow> bool" where
  "valid_local l \<longleftrightarrow> valid_date (lt_year l) (lt_month l) (lt_day l) \<and> 0 \<le> lt_ms l \<and> lt_ms l < MS_PER_DAY"

definition local_day :: "local_time \<Rightarrow> int" where
  "local_day l = day_of_civil (lt_year l) (lt_month l) (lt_day l)"

definition month_index :: "local_time \<Rightarrow> int" where
  "month_index l = 12 * lt_year l + lt_month l - 1"

text \<open>A local time that exists in the zone: the instant chosen for it shows that local time.\<close>

definition exists_in :: "time_zones \<Rightarrow> string \<Rightarrow> local_time \<Rightarrow> bool" where
  "exists_in zones z l \<longleftrightarrow> tz_local zones z (tz_instant zones z l) = l"

primrec later_occurrence :: "time_zones \<Rightarrow> calendar_schedule \<Rightarrow> nat \<Rightarrow> int \<Rightarrow> error + int option" where
  "later_occurrence zones c 0 t = Inr (Some t)"
| "later_occurrence zones c (Suc k) t =
     bindE (later_occurrence zones c k t) (\<lambda>u. case u of None \<Rightarrow> Inr None | Some v \<Rightarrow> nextOccurrenceAfter zones v c)"

lemma add_days_exact:
  assumes "valid_local l"
  shows "valid_local (add_days n l)" and "local_day (add_days n l) = local_day l + n" and "lt_ms (add_days n l) = lt_ms l"
proof -
  obtain y m d where c: "civil_of_day (day_of_civil (lt_year l) (lt_month l) (lt_day l) + n) = (y, m, d)" by (metis prod_cases3)
  note v = civil_of_day_valid [OF c]
  show "valid_local (add_days n l)" and "local_day (add_days n l) = local_day l + n" and "lt_ms (add_days n l) = lt_ms l"
    using v assms by (simp_all add: add_days_def c valid_local_def local_day_def)
qed

lemma next_month_exact:
  assumes "valid_local l" and "1 \<le> a"
  shows "valid_local (next_month a l)" and "month_index (next_month a l) = month_index l + 1" and "lt_ms (next_month a l) = lt_ms l"
    and "lt_day (next_month a l) = min a (days_in_month (lt_year (next_month a l)) (lt_month (next_month a l)))"
proof -
  have pos: "1 \<le> days_in_month y m" for y m by (simp add: days_in_month_def)
  show "valid_local (next_month a l)" and "month_index (next_month a l) = month_index l + 1" and "lt_ms (next_month a l) = lt_ms l"
    and "lt_day (next_month a l) = min a (days_in_month (lt_year (next_month a l)) (lt_month (next_month a l)))"
    using assms pos by (simp_all add: next_month_def Let_def month_index_def valid_local_def valid_date_def)
qed

lemma next_monthly:
  assumes "assertTimeZone zones (cal_timeZone c) = Inr z" and "cal_cadence c = CD_monthly" and "cal_anchorDay c = Some a"
    and "1 \<le> a" and "a \<le> 31"
  shows "nextOccurrenceAfter zones t c = Inr (Some (tz_instant zones z (next_month a (tz_local zones z t))))"
  using assms by (simp add: nextOccurrenceAfter_def Let_def opt_or_def)

lemma next_daily:
  assumes "assertTimeZone zones (cal_timeZone c) = Inr z" and "cal_cadence c = CD_daily"
  shows "nextOccurrenceAfter zones t c = Inr (Some (tz_instant zones z (add_days 1 (tz_local zones z t))))"
  using assms by (simp add: nextOccurrenceAfter_def Let_def)

text \<open>
  Monthly schedules do not drift. In a zone whose local times exist, the occurrence k
  months later is in the k-th following month, at the same time of day, on the anchor day or on the
  last day of a month that is too short; a short month does not change the day of later ones.
\<close>

theorem monthly_keeps_anchor:
  assumes "assertTimeZone zones (cal_timeZone c) = Inr z" and "cal_cadence c = CD_monthly" and "cal_anchorDay c = Some a"
    and "1 \<le> a" and "a \<le> 31" and "valid_local (tz_local zones z t)" and "\<And>l. valid_local l \<Longrightarrow> exists_in zones z l"
  shows "\<exists>u. later_occurrence zones c (Suc k) t = Inr (Some u) \<and> month_index (tz_local zones z u) = month_index (tz_local zones z t) + int k + 1
    \<and> lt_ms (tz_local zones z u) = lt_ms (tz_local zones z t)
    \<and> lt_day (tz_local zones z u) = min a (days_in_month (lt_year (tz_local zones z u)) (lt_month (tz_local zones z u)))"
proof -
  have one: "\<exists>u. nextOccurrenceAfter zones v c = Inr (Some u) \<and> tz_local zones z u = next_month a (tz_local zones z v)
      \<and> valid_local (tz_local zones z u)" if "valid_local (tz_local zones z v)" for v
    using next_monthly [OF assms(1-5), of v] assms(7) [OF next_month_exact(1) [OF that assms(4)]] next_month_exact(1) [OF that assms(4)]
    by (auto simp: exists_in_def)
  have "\<exists>u. later_occurrence zones c (Suc k) t = Inr (Some u) \<and> valid_local (tz_local zones z u)
      \<and> month_index (tz_local zones z u) = month_index (tz_local zones z t) + int k + 1 \<and> lt_ms (tz_local zones z u) = lt_ms (tz_local zones z t)
      \<and> lt_day (tz_local zones z u) = min a (days_in_month (lt_year (tz_local zones z u)) (lt_month (tz_local zones z u)))"
  proof (induction k)
    case 0
    from one [OF assms(6)] next_month_exact [OF assms(6,4)] show ?case by auto
  next
    case (Suc k)
    then obtain v where v: "later_occurrence zones c (Suc k) t = Inr (Some v)" "valid_local (tz_local zones z v)"
      "month_index (tz_local zones z v) = month_index (tz_local zones z t) + int k + 1" "lt_ms (tz_local zones z v) = lt_ms (tz_local zones z t)"
      by blast
    have "later_occurrence zones c (Suc (Suc k)) t = nextOccurrenceAfter zones v c" by (subst later_occurrence.simps, subst v(1)) simp
    with one [OF v(2)] next_month_exact [OF v(2) assms(4)] v(3,4) show ?case by auto
  qed
  then show ?thesis by blast
qed

text \<open>
  A daily schedule never recovers from a gap in local time. When the clock change moves one
  occurrence to another time of day, all later occurrences keep that other time, although the
  original one exists again: each occurrence is computed from the previous instant and not from
  the time of day the schedule was given.
\<close>

theorem gap_shift_is_permanent:
  assumes "assertTimeZone zones (cal_timeZone c) = Inr z" and "cal_cadence c = CD_daily"
    and "nextOccurrenceAfter zones t c = Inr (Some t1)" and "valid_local (tz_local zones z t1)"
    and "lt_ms (tz_local zones z t1) \<noteq> lt_ms (tz_local zones z t)"
    and "\<And>l. valid_local l \<Longrightarrow> lt_ms l = lt_ms (tz_local zones z t1) \<Longrightarrow> exists_in zones z l"
  shows "\<exists>u. later_occurrence zones c k t1 = Inr (Some u) \<and> local_day (tz_local zones z u) = local_day (tz_local zones z t1) + int k
    \<and> lt_ms (tz_local zones z u) = lt_ms (tz_local zones z t1) \<and> lt_ms (tz_local zones z u) \<noteq> lt_ms (tz_local zones z t)"
proof -
  have "\<exists>u. later_occurrence zones c k t1 = Inr (Some u) \<and> valid_local (tz_local zones z u)
      \<and> local_day (tz_local zones z u) = local_day (tz_local zones z t1) + int k \<and> lt_ms (tz_local zones z u) = lt_ms (tz_local zones z t1)"
  proof (induction k)
    case (Suc k)
    then obtain v where v: "later_occurrence zones c k t1 = Inr (Some v)" "valid_local (tz_local zones z v)"
      "local_day (tz_local zones z v) = local_day (tz_local zones z t1) + int k" "lt_ms (tz_local zones z v) = lt_ms (tz_local zones z t1)"
      by blast
    note day = add_days_exact [OF v(2), of 1]
    have "later_occurrence zones c (Suc k) t1 = Inr (Some (tz_instant zones z (add_days 1 (tz_local zones z v))))"
      using v(1) next_daily [OF assms(1,2)] by simp
    with assms(6) [OF day(1)] day v(3,4) show ?case by (simp add: exists_in_def del: later_occurrence.simps)
  qed (use assms(4) in simp)
  with assms(5) show ?thesis by auto
qed

lemma utc_exact: "valid_local l \<Longrightarrow> exists_in utc z l"
  using civil_day_roundtrip [of "lt_year l" "lt_month l" "lt_day l"]
  by (simp add: exists_in_def utc_def valid_local_def MS_PER_DAY_def)

lemma utc_valid: "valid_local (tz_local utc z t)"
proof -
  obtain y m d where c: "civil_of_day (t div MS_PER_DAY) = (y, m, d)" by (metis prod_cases3)
  with civil_of_day_valid(1) [OF c] show ?thesis by (simp add: utc_def valid_local_def MS_PER_DAY_def)
qed

text \<open>From 31 January 2026, anchored to the 31st: the second occurrence after it is on 31 March.\<close>

theorem monthly_keeps_anchor_witness:
  "\<exists>u. later_occurrence utc \<lparr>cal_cadence = CD_monthly, cal_timeZone = ''UTC'', cal_anchorDay = Some 31, cal_customIntervalSeconds = None\<rparr>
      2 1769846400000 = Inr (Some u) \<and> lt_day (tz_local utc ''UTC'' u) = 31 \<and> lt_month (tz_local utc ''UTC'' u) = 3"
proof -
  let ?c = "\<lparr>cal_cadence = CD_monthly, cal_timeZone = ''UTC'', cal_anchorDay = Some 31, cal_customIntervalSeconds = None\<rparr>"
  have z: "assertTimeZone utc (cal_timeZone ?c) = Inr ''UTC''" by (simp add: assertTimeZone_def utc_def trim_def is_space_def)
  have t: "month_index (tz_local utc ''UTC'' 1769846400000) = 12 * 2026" by code_simp
  from monthly_keeps_anchor [OF z _ _ _ _ utc_valid utc_exact, where a = 31 and t = 1769846400000 and k = 1] obtain u where
    u: "later_occurrence utc ?c 2 1769846400000 = Inr (Some u)" "month_index (tz_local utc ''UTC'' u) = 12 * 2026 + 2"
      "lt_day (tz_local utc ''UTC'' u) = min 31 (days_in_month (lt_year (tz_local utc ''UTC'' u)) (lt_month (tz_local utc ''UTC'' u)))"
    by (auto simp: t numeral_2_eq_2 simp del: later_occurrence.simps)
  have "valid_local (tz_local utc ''UTC'' u)" by (rule utc_valid)
  with u(2) have "lt_month (tz_local utc ''UTC'' u) = 3"
    by (simp add: month_index_def valid_local_def valid_date_def) presburger
  with u show ?thesis by (intro exI [of _ u]) (simp add: days_in_month_def)
qed

text \<open>A zone that moves its clocks one hour forward at 02:00 of 29 March 2026 (day 20541).\<close>

definition summer_start :: int where
  "summer_start = 20541 * MS_PER_DAY + 7200000"

definition summer_zone :: time_zones where
  "summer_zone = \<lparr>tz_valid = (\<lambda>z. z = ''UTC''),
     tz_local = (\<lambda>z t. tz_local utc z (if t \<ge> summer_start then t + 3600000 else t)),
     tz_instant = (\<lambda>z l. let u = tz_instant utc z l in if u \<ge> summer_start + 3600000 then u - 3600000 else u)\<rparr>"

lemma summer_exact:
  assumes "tz_instant utc z l = u" "tz_local utc z u = l" "u < summer_start \<or> summer_start + 3600000 \<le> u"
  shows "exists_in summer_zone z l"
  using assms by (auto simp: exists_in_def summer_zone_def Let_def)

theorem gap_shift_is_permanent_witness:
  "\<exists>t1 u. nextOccurrenceAfter summer_zone (20540 * MS_PER_DAY + 9000000)
        \<lparr>cal_cadence = CD_daily, cal_timeZone = ''UTC'', cal_anchorDay = None, cal_customIntervalSeconds = None\<rparr> = Inr (Some t1)
    \<and> later_occurrence summer_zone \<lparr>cal_cadence = CD_daily, cal_timeZone = ''UTC'', cal_anchorDay = None, cal_customIntervalSeconds = None\<rparr>
        100 t1 = Inr (Some u)
    \<and> lt_ms (tz_local summer_zone ''UTC'' (20540 * MS_PER_DAY + 9000000)) = 9000000 \<and> lt_ms (tz_local summer_zone ''UTC'' u) = 12600000"
proof -
  let ?c = "\<lparr>cal_cadence = CD_daily, cal_timeZone = ''UTC'', cal_anchorDay = None, cal_customIntervalSeconds = None\<rparr>"
  let ?t = "20540 * MS_PER_DAY + 9000000" and ?t1 = "20541 * MS_PER_DAY + 9000000"
  have z: "assertTimeZone summer_zone (cal_timeZone ?c) = Inr ''UTC''" by (simp add: assertTimeZone_def summer_zone_def trim_def is_space_def)
  have n: "nextOccurrenceAfter summer_zone ?t ?c = Inr (Some ?t1)" by code_simp
  have ms: "lt_ms (tz_local summer_zone ''UTC'' ?t) = 9000000" "lt_ms (tz_local summer_zone ''UTC'' ?t1) = 12600000" by code_simp+
  have v: "valid_local (tz_local summer_zone ''UTC'' ?t1)" by (simp add: summer_zone_def utc_valid)
  have exact: "exists_in summer_zone ''UTC'' l" if "valid_local l" "lt_ms l = 12600000" for l
  proof -
    let ?d = "local_day l"
    have u: "tz_instant utc ''UTC'' l = ?d * MS_PER_DAY + 12600000" using that(2) by (simp add: utc_def local_day_def)
    have l: "tz_local utc ''UTC'' (?d * MS_PER_DAY + 12600000) = l" using utc_exact [OF that(1), of "''UTC''"] by (simp add: exists_in_def u)
    have "e * 86400000 + 12600000 < 1774749600000 \<or> 1774753200000 \<le> e * 86400000 + 12600000" for e :: int
    proof (cases "e \<le> 20540")
      case True
      hence "e * 86400000 \<le> 20540 * 86400000" by (rule mult_right_mono) simp
      thus ?thesis by linarith
    next
      case False
      hence "20541 * 86400000 \<le> e * 86400000" by (intro mult_right_mono) simp_all
      thus ?thesis by linarith
    qed
    hence "?d * MS_PER_DAY + 12600000 < summer_start \<or> summer_start + 3600000 \<le> ?d * MS_PER_DAY + 12600000"
      by (simp only: MS_PER_DAY_def summer_start_def) simp
    from summer_exact [OF u l this] show ?thesis .
  qed
  have d: "cal_cadence ?c = CD_daily" by simp
  have ne: "lt_ms (tz_local summer_zone ''UTC'' ?t1) \<noteq> lt_ms (tz_local summer_zone ''UTC'' ?t)" by (simp only: ms)
  obtain u where u: "later_occurrence summer_zone ?c 100 ?t1 = Inr (Some u)"
      "lt_ms (tz_local summer_zone ''UTC'' u) = lt_ms (tz_local summer_zone ''UTC'' ?t1)"
    using gap_shift_is_permanent [OF z d n v ne exact [unfolded ms(2) [symmetric]], of 100] by blast
  show ?thesis by (rule exI [of _ ?t1], rule exI [of _ u]) (intro conjI n u(1) ms(1) u(2) [unfolded ms(2)])
qed

end
