(* ===== verification/Nwc.thy ===== *)
theory Nwc
  imports Schedules
begin

section \<open>Nostr Wallet Connect (domain/nwc.ts, models/nwc.model.ts, connectors/nwcProtocol.ts, connectors/nwcConnector.ts, services/nwc.service.ts)\<close>

text \<open>
  A connection lets the backend ask the owner's Lightning wallet to pay invoices. Pairing verifies what
  the wallet advertises, a payment is stored before its one request is sent, and later reads ask the
  wallet for the outcome.

  Code outside the repository is the record \<open>nwc_world\<close>: the BOLT11 decoder, SHA-256 of a text and of
  bytes, the URL parser, the Nostr keys and signatures, and the AES-GCM sealing of the secret. What the
  wallet answers to a request is an argument of the operation that sends it. Every request handed to
  the relay is appended to \<open>wire\<close>, together with its answer, so that statements about what was sent are
  statements about the state.

  JSON numbers of the wallet are integers here: a fractional number is refused by every check of the
  code, as is any value that is neither an integer nor a string.
\<close>

subsection \<open>Domain\<close>

datatype nwc_payment_status = NS_pending | NS_uncertain | NS_succeeded | NS_failed

datatype intent_status =
  IN_created | IN_quoted | IN_pending | IN_uncertain | IN_succeeded | IN_failed | IN_cancelled | IN_refunded

definition NWC_METHODS :: "string list" where
  "NWC_METHODS = [''get_info'', ''get_balance'', ''pay_invoice'', ''lookup_invoice'', ''list_transactions'']"

definition NWC_NETWORKS :: "string list" where
  "NWC_NETWORKS = [''mainnet'', ''testnet'', ''signet'', ''regtest'']"

definition NWC_INFO_KIND :: int where
  "NWC_INFO_KIND = 13194"

definition isNwcMethod :: "string \<Rightarrow> bool" where
  "isNwcMethod v \<longleftrightarrow> v \<in> set NWC_METHODS"

definition BTC_ASSET_ID :: string where
  "BTC_ASSET_ID = ''bitcoin:btc''"

definition BALANCE_FRESHNESS_MS :: int where
  "BALANCE_FRESHNESS_MS = 5 * 60 * 1000"

definition PAYMENT_LEASE_MS :: int where
  "PAYMENT_LEASE_MS = 60000"

definition nwc_status_text :: "nwc_payment_status \<Rightarrow> string" where
  "nwc_status_text s = (case s of NS_pending \<Rightarrow> ''pending'' | NS_uncertain \<Rightarrow> ''uncertain''
     | NS_succeeded \<Rightarrow> ''succeeded'' | NS_failed \<Rightarrow> ''failed'')"

definition connection_status_text :: "connection_status \<Rightarrow> string" where
  "connection_status_text s = (case s of CN_active \<Rightarrow> ''active'' | CN_revoked \<Rightarrow> ''revoked'' | CN_failed \<Rightarrow> ''failed'')"

definition scope_text :: "scope_type \<Rightarrow> string" where
  "scope_text s = (case s of SC_wallet \<Rightarrow> ''wallet'' | SC_pass \<Rightarrow> ''pass'' | SC_app \<Rightarrow> ''app'')"

definition execution_mode_text :: "execution_mode \<Rightarrow> string" where
  "execution_mode_text m = (case m of EM_interactive \<Rightarrow> ''interactive'' | EM_unattended \<Rightarrow> ''unattended'')"

subsection \<open>The outside world\<close>

record bolt11_invoice =
  b11_complete :: bool
  b11_signature :: "string option"
  b11_payeeNodeKey :: "string option"
  b11_millisatoshis :: "string option"
  b11_payment_hash :: "string option"
  b11_timestamp :: "int option"
  b11_timeExpireDate :: "int option"

record url_parts =
  url_protocol :: string
  url_username :: string
  url_password :: string
  url_hostname :: string
  url_search :: string
  url_hash :: string
  url_params :: "(string \<times> string) list"
  url_text :: string

record nostr_event =
  ev_id :: string
  ev_kind :: int
  ev_pubkey :: string
  ev_content :: string
  ev_tags :: "string list list"

record nwc_world =
  nw_bolt11 :: "string \<Rightarrow> string \<Rightarrow> bolt11_invoice option"
  nw_sha :: "string \<Rightarrow> string"
  nw_sha_bytes :: "string \<Rightarrow> string"
  nw_url :: "string \<Rightarrow> url_parts option"
  nw_public_key :: "string \<Rightarrow> string option"
  nw_verify :: "nostr_event \<Rightarrow> bool"
  nw_seal :: "string \<Rightarrow> error + string"
  nw_unseal :: "string option \<Rightarrow> error + string"

type_synonym members = "(string \<times> json) list"

record wallet_response =
  wr_requestEventId :: string
  wr_responseEventId :: string
  wr_error :: "string option"
  wr_result :: "members option"

text \<open>The relay transport returns a response, times out, or fails before that.\<close>

datatype wallet_reply = WR_response wallet_response | WR_timeout string | WR_failure error

text \<open>The exceptions of this component: \<open>NwcRequestTimeoutError\<close>, \<open>NwcRemoteError\<close> and the others.\<close>

datatype nwc_exn = X_timeout string | X_remote string | X_error error

type_synonym ('s, 'a) nwc_op = "'s \<Rightarrow> (nwc_exn + 'a) \<times> 's"

definition lift_error :: "error + 'a \<Rightarrow> nwc_exn + 'a" where
  "lift_error r = (case r of Inl e \<Rightarrow> Inl (X_error e) | Inr v \<Rightarrow> Inr v)"

definition json_field :: "string \<Rightarrow> members \<Rightarrow> json option" where
  "json_field k obj = map_of obj k"

definition present :: "json option \<Rightarrow> json option" where
  "present v = (if v = Some JNull then None else v)"

subsection \<open>The protocol\<close>

definition is_hex64 :: "string \<Rightarrow> bool" where
  "is_hex64 s \<longleftrightarrow> length s = 64 \<and> list_all (\<lambda>c. is_digit c \<or> (97 \<le> code c \<and> code c \<le> 102)) s"

definition is_positive_decimal :: "string \<Rightarrow> bool" where
  "is_positive_decimal s \<longleftrightarrow> s \<noteq> [] \<and> list_all is_digit s \<and> hd s \<noteq> CHR ''0''"

definition MAX_CONNECTION_URI_LENGTH :: nat where
  "MAX_CONNECTION_URI_LENGTH = 4096"

definition MAX_INVOICE_LENGTH :: nat where
  "MAX_INVOICE_LENGTH = 8192"

definition bolt11_prefix :: "string \<Rightarrow> string" where
  "bolt11_prefix network = (if network = ''mainnet'' then ''bc'' else if network = ''testnet'' then ''tb''
     else if network = ''signet'' then ''tbs'' else ''bcrt'')"

record decoded_invoice =
  di_invoice :: string
  di_invoiceHash :: string
  di_paymentHash :: string
  di_network :: string
  di_amountAtomic :: int
  di_createdAt :: int
  di_expiresAt :: int
  di_payeeNodeKey :: string

definition invoice_amount :: "bolt11_invoice \<Rightarrow> error + int" where
  "invoice_amount b =
     (case b11_millisatoshis b of
        None \<Rightarrow> Inl (ApiError 400 ''LIGHTNING_INVOICE_AMOUNT_REQUIRED'')
      | Some m \<Rightarrow> if \<not> is_positive_decimal m then Inl (ApiError 400 ''LIGHTNING_INVOICE_AMOUNT_REQUIRED'')
                  else bindE (asAtomicAmount m) parseAtomicAmount)"

definition decodeLightningInvoice :: "nwc_world \<Rightarrow> string \<Rightarrow> string \<Rightarrow> int option \<Rightarrow> int \<Rightarrow> error + decoded_invoice" where
  "decodeLightningInvoice w raw network expectedAmount now =
     (let invoice = toLowerCase (trim raw) in
      if invoice = [] \<or> length invoice > MAX_INVOICE_LENGTH \<or> list_ex is_space invoice
      then Inl (ApiError 400 ''LIGHTNING_INVOICE_INVALID'')
      else (case nw_bolt11 w (bolt11_prefix network) invoice of
         None \<Rightarrow> Inl (ApiError 400 ''LIGHTNING_INVOICE_INVALID'')
       | Some b \<Rightarrow>
          if \<not> b11_complete b \<or> nonempty (b11_signature b) = None \<or> nonempty (b11_payeeNodeKey b) = None
          then Inl (ApiError 400 ''LIGHTNING_INVOICE_UNSIGNED'')
          else bindE (invoice_amount b) (\<lambda>amount.
            bindE (require (\<not> (case expectedAmount of None \<Rightarrow> False | Some a \<Rightarrow> amount \<noteq> a))
                     (ApiError 400 ''LIGHTNING_INVOICE_AMOUNT_MISMATCH'')) (\<lambda>_.
            let paymentHash = toLowerCase (opt_or (b11_payment_hash b) []);
                createdAt = opt_or (b11_timestamp b) 0;
                expiresAt = opt_or (b11_timeExpireDate b) (createdAt + 3600)
            in if \<not> is_hex64 paymentHash then Inl (ApiError 400 ''LIGHTNING_INVOICE_PAYMENT_HASH_INVALID'')
               else if createdAt \<le> 0 \<or> expiresAt \<le> now div 1000 then Inl (ApiError 410 ''LIGHTNING_INVOICE_EXPIRED'')
               else Inr \<lparr>di_invoice = invoice, di_invoiceHash = nw_sha w invoice, di_paymentHash = paymentHash,
                      di_network = network, di_amountAtomic = amount, di_createdAt = createdAt * 1000,
                      di_expiresAt = expiresAt * 1000, di_payeeNodeKey = opt_or (b11_payeeNodeKey b) []\<rparr>))))"

definition verifyLightningPreimage :: "nwc_world \<Rightarrow> string \<Rightarrow> string \<Rightarrow> bool" where
  "verifyLightningPreimage w preimage paymentHash \<longleftrightarrow>
     (let normalized = toLowerCase (trim preimage) in
      is_hex64 normalized \<and> nw_sha_bytes w normalized = toLowerCase paymentHash)"

text \<open>\<open>split(/\s+/)\<close> without its empty parts, and \<open>[...new Set(xs)]\<close>, which keeps first occurrences.\<close>

function ws_words :: "string \<Rightarrow> string list" where
  "ws_words s = (case dropWhile is_space s of [] \<Rightarrow> []
     | c # cs \<Rightarrow> takeWhile (\<lambda>x. \<not> is_space x) (c # cs) # ws_words (dropWhile (\<lambda>x. \<not> is_space x) (c # cs)))"
  by pat_completeness auto
termination
proof (relation "measure length")
  fix s c cs assume "dropWhile is_space s = c # cs"
  hence "\<not> is_space c" "length (c # cs) \<le> length s"
    by (metis hd_dropWhile list.distinct(1) list.sel(1)) (metis \<open>dropWhile is_space s = c # cs\<close> length_dropWhile_le)
  thus "(dropWhile (\<lambda>x. \<not> is_space x) (c # cs), s) \<in> measure length"
    using length_dropWhile_le [of "\<lambda>x. \<not> is_space x" cs] by simp
qed simp

definition dedupe :: "'a list \<Rightarrow> 'a list" where
  "dedupe xs = rev (remdups (rev xs))"

record parsed_uri =
  pu_walletPubkey :: string
  pu_secret :: string
  pu_clientPubkey :: string
  pu_relays :: "string list"
  pu_lud16 :: "string option"

definition parseRelay :: "nwc_world \<Rightarrow> string \<Rightarrow> error + string" where
  "parseRelay w v =
     (case nw_url w v of
        None \<Rightarrow> Inl (ApiError 400 ''NWC_RELAY_INVALID'')
      | Some u \<Rightarrow>
         if url_protocol u \<notin> {''wss:'', ''ws:''} \<or> url_username u \<noteq> [] \<or> url_password u \<noteq> [] \<or> url_search u \<noteq> []
           \<or> url_hash u \<noteq> []
         then Inl (ApiError 400 ''NWC_RELAY_INVALID'') else Inr (url_text u))"

fun mapE :: "('a \<Rightarrow> error + 'b) \<Rightarrow> 'a list \<Rightarrow> error + 'b list" where
  "mapE f [] = Inr []"
| "mapE f (x # xs) = bindE (f x) (\<lambda>y. bindE (mapE f xs) (\<lambda>ys. Inr (y # ys)))"

definition getAll :: "string \<Rightarrow> (string \<times> string) list \<Rightarrow> string list" where
  "getAll k ps = map snd (filter (\<lambda>p. fst p = k) ps)"

definition parseNwcConnectionUri :: "nwc_world \<Rightarrow> string \<Rightarrow> error + parsed_uri" where
  "parseNwcConnectionUri w raw =
     (let v = trim raw in
      if v = [] \<or> length v > MAX_CONNECTION_URI_LENGTH then Inl (ApiError 400 ''NWC_CONNECTION_URI_INVALID'')
      else (case nw_url w v of
         None \<Rightarrow> Inl (ApiError 400 ''NWC_CONNECTION_URI_INVALID'')
       | Some u \<Rightarrow>
          if url_protocol u \<noteq> ''nostr+walletconnect:'' \<or> url_username u \<noteq> [] \<or> url_password u \<noteq> [] \<or> url_hash u \<noteq> []
          then Inl (ApiError 400 ''NWC_CONNECTION_URI_INVALID'')
          else
            let walletPubkey = toLowerCase (url_hostname u); secrets = getAll ''secret'' (url_params u);
                relayValues = getAll ''relay'' (url_params u)
            in if \<not> is_hex64 walletPubkey \<or> length secrets \<noteq> 1 \<or> \<not> is_hex64 (toLowerCase (hd secrets))
               then Inl (ApiError 400 ''NWC_CONNECTION_URI_INVALID'')
               else if relayValues = [] \<or> length relayValues > 5 then Inl (ApiError 400 ''NWC_RELAY_REQUIRED'')
               else bindE (mapE (parseRelay w) relayValues) (\<lambda>relays.
                 case nw_public_key w (toLowerCase (hd secrets)) of
                   None \<Rightarrow> Inl (ApiError 400 ''NWC_CONNECTION_URI_INVALID'')
                 | Some clientPubkey \<Rightarrow>
                    let lud16 = (case getAll ''lud16'' (url_params u) of [] \<Rightarrow> [] | l # _ \<Rightarrow> trim l) in
                    Inr \<lparr>pu_walletPubkey = walletPubkey, pu_secret = toLowerCase (hd secrets),
                      pu_clientPubkey = clientPubkey, pu_relays = dedupe relays,
                      pu_lud16 = (if lud16 \<noteq> [] \<and> length lud16 \<le> 254 then Some lud16 else None)\<rparr>)))"

definition valuesFromTag :: "nostr_event \<Rightarrow> string \<Rightarrow> string list" where
  "valuesFromTag e name =
     concat (map (\<lambda>tag. ws_words (tag ! 1)) (filter (\<lambda>tag. length tag > 1 \<and> tag ! 0 = name) (ev_tags e)))"

definition is_method_name :: "string \<Rightarrow> bool" where
  "is_method_name s \<longleftrightarrow> s \<noteq> [] \<and> length s \<le> 64 \<and> 97 \<le> code (hd s) \<and> code (hd s) \<le> 122
     \<and> list_all (\<lambda>c. is_digit c \<or> (97 \<le> code c \<and> code c \<le> 122) \<or> c = CHR ''_'') s"

record nwc_info =
  ni_eventId :: string
  ni_methods :: "string list"
  ni_advertisedMethods :: "string list"
  ni_encryption :: string
  ni_notifications :: "string list"

definition parseNwcInfoEvent :: "nwc_world \<Rightarrow> nostr_event \<Rightarrow> string \<Rightarrow> error + nwc_info" where
  "parseNwcInfoEvent w e walletPubkey =
     (if ev_kind e \<noteq> NWC_INFO_KIND \<or> toLowerCase (ev_pubkey e) \<noteq> toLowerCase walletPubkey \<or> \<not> nw_verify w e
      then Inl (ApiError 502 ''NWC_INFO_EVENT_INVALID'')
      else
        let advertised = dedupe (ws_words (ev_content e)); tags = valuesFromTag e ''encryption'';
            supported = (if tags = [] then [''nip04''] else filter (\<lambda>v. v = ''nip44_v2'' \<or> v = ''nip04'') tags)
        in if advertised = [] \<or> list_ex (\<lambda>m. \<not> is_method_name m) advertised
           then Inl (ApiError 502 ''NWC_INFO_EVENT_INVALID'')
           else if supported = [] then Inl (ApiError 409 ''NWC_ENCRYPTION_UNSUPPORTED'')
           else Inr \<lparr>ni_eventId = ev_id e, ni_methods = filter isNwcMethod advertised, ni_advertisedMethods = advertised,
                  ni_encryption = (if ''nip44_v2'' \<in> set supported then ''nip44_v2'' else ''nip04''),
                  ni_notifications = dedupe (valuesFromTag e ''notifications'')\<rparr>)"

end
