(* ===== verification/Nwc_Service.thy ===== *)
theory Nwc_Service
  imports Nwc
begin

section \<open>The NWC connector and service (connectors/nwcConnector.ts, services/nwc.service.ts)\<close>

text \<open>
  The documents, the three requests of the connector (pay, look up, balance) and the operations of the
  service. \<open>payNwcInvoice\<close> is composed of what the code does before the request (\<open>begin_payment\<close>), the
  request (\<open>execute_payment\<close>) and what it stores afterwards (\<open>conclude_payment\<close>), so that other calls can
  be put between them.
\<close>

subsection \<open>Documents\<close>

record nwc_payment =
  np_paymentId :: string
  np_ownerWalletId :: string
  np_connectionId :: string
  np_idempotencyKey :: string
  np_requestFingerprint :: string
  np_paymentHash :: string
  np_invoiceHash :: string
  np_network :: string
  np_amountAtomic :: int
  np_feeAtomic :: int
  np_status :: nwc_payment_status
  np_executionMode :: execution_mode
  np_requestEventId :: "string option"
  np_responseEventId :: "string option"
  np_preimageVerified :: bool
  np_executionLeaseId :: "string option"
  np_executionLeaseExpiresAt :: "int option"
  np_submittedAt :: "int option"
  np_reconciledAt :: "int option"
  np_succeededAt :: "int option"
  np_failedAt :: "int option"
  np_failureCode :: "string option"

record nwc_request =
  rq_connection :: nwc_connection
  rq_method :: string
  rq_params :: members
  rq_reply :: wallet_reply

record nwc_db = schedule_db +
  nwc_payments :: "nwc_payment list"
  wire :: "nwc_request list"

interpretation nwc_payments: table nwc_payments "\<lambda>xs d. d\<lparr>nwc_payments := xs\<rparr>" np_paymentId
  by unfold_locales simp_all

text \<open>The unique indexes.\<close>

definition nwc_payment_clash :: "nwc_payment \<Rightarrow> nwc_payment \<Rightarrow> bool" where
  "nwc_payment_clash p x \<longleftrightarrow> np_paymentId x = np_paymentId p
     \<or> (np_ownerWalletId x = np_ownerWalletId p \<and> np_connectionId x = np_connectionId p
        \<and> np_idempotencyKey x = np_idempotencyKey p)
     \<or> (np_ownerWalletId x = np_ownerWalletId p \<and> np_paymentHash x = np_paymentHash p)"

definition nwc_connection_clash :: "nwc_connection \<Rightarrow> nwc_connection \<Rightarrow> bool" where
  "nwc_connection_clash c x \<longleftrightarrow> nwc_connectionId x = nwc_connectionId c \<or> nwc_clientPubkey x = nwc_clientPubkey c"

definition active_connection :: "string \<Rightarrow> string \<Rightarrow> nwc_connection \<Rightarrow> bool" where
  "active_connection connectionId ownerWalletId c \<longleftrightarrow> nwc_connectionId c = connectionId
     \<and> nwc_ownerWalletId c = ownerWalletId \<and> nwc_status c = CN_active"

definition update_connection ::
  "(nwc_connection \<Rightarrow> bool) \<Rightarrow> (nwc_connection \<Rightarrow> nwc_connection) \<Rightarrow> 'a nwc_db_scheme \<Rightarrow> 'a nwc_db_scheme" where
  "update_connection p f d = d\<lparr>nwc_connections := update_first p f (nwc_connections d)\<rparr>"

subsection \<open>Amounts and strings of the wallet\<close>

definition exact_service_atomic :: "json option \<Rightarrow> int option" where
  "exact_service_atomic v =
     (case v of
        Some (JNum n) \<Rightarrow> if isSafeInteger n \<and> n \<ge> 0 then Some n else None
      | Some (JStr s) \<Rightarrow> (case bindE (asAtomicAmount s) parseAtomicAmount of Inl _ \<Rightarrow> None | Inr n \<Rightarrow> Some n)
      | _ \<Rightarrow> None)"

definition exactAtomic :: "json option \<Rightarrow> error + int" where
  "exactAtomic v = (case exact_service_atomic v of None \<Rightarrow> Inl (ApiError 502 ''NWC_RESPONSE_INVALID'') | Some n \<Rightarrow> Inr n)"

definition requiredString :: "members \<Rightarrow> string \<Rightarrow> error + string" where
  "requiredString result field =
     (case json_field field result of
        Some (JStr v) \<Rightarrow> if trim v = [] then Inl (ApiError 502 ''NWC_RESPONSE_INVALID'') else Inr (toLowerCase (trim v))
      | _ \<Rightarrow> Inl (ApiError 502 ''NWC_RESPONSE_INVALID''))"

definition ensureRemoteSuccess :: "wallet_response \<Rightarrow> nwc_exn + members" where
  "ensureRemoteSuccess r =
     (case wr_error r of
        Some c \<Rightarrow> Inl (X_remote c)
      | None \<Rightarrow> (case wr_result r of None \<Rightarrow> Inl (X_error (ApiError 502 ''NWC_RESPONSE_INVALID'')) | Some m \<Rightarrow> Inr m))"

subsection \<open>The connector\<close>

record payment_intent =
  pi_intentId :: string
  pi_idempotencyKey :: string
  pi_rail :: payment_rail
  pi_network :: string
  pi_assetId :: string
  pi_amountAtomic :: int
  pi_destinationKind :: string
  pi_value :: string
  pi_expiresAt :: int

record payment_quote =
  qt_quoteId :: string
  qt_connectorId :: string
  qt_paymentHash :: string
  qt_invoiceHash :: string
  qt_expiresAt :: int

record nwc_proof =
  pf_reference :: string
  pf_requestEventId :: string
  pf_responseEventId :: string
  pf_preimageVerified :: bool
  pf_feeAtomic :: int

record payment_result =
  pr_intentId :: string
  pr_status :: intent_status
  pr_amountAtomic :: int
  pr_proof :: "nwc_proof option"
  pr_failureCode :: "string option"

definition quoteId :: "nwc_world \<Rightarrow> string \<Rightarrow> string \<Rightarrow> string" where
  "quoteId w intentId invoiceHash = ''quote_nwc_'' @ take 24 (nw_sha w (intentId @ '':'' @ invoiceHash))"

definition validateDestination :: "nwc_world \<Rightarrow> payment_intent \<Rightarrow> int \<Rightarrow> error + decoded_invoice" where
  "validateDestination w i now =
     (if pi_rail i \<noteq> R_lightning \<or> pi_destinationKind i \<noteq> ''invoice'' \<or> pi_assetId i \<noteq> BTC_ASSET_ID
      then Inl (ApiError 400 ''NWC_PAYMENT_INTENT_UNSUPPORTED'')
      else decodeLightningInvoice w (pi_value i) (pi_network i) (Some (pi_amountAtomic i)) now)"

definition quote_payment :: "nwc_world \<Rightarrow> payment_intent \<Rightarrow> int \<Rightarrow> error + payment_quote" where
  "quote_payment w i now =
     bindE (validateDestination w i now) (\<lambda>decoded.
       Inr \<lparr>qt_quoteId = quoteId w (pi_intentId i) (di_invoiceHash decoded), qt_connectorId = ''nwc-nip47'',
         qt_paymentHash = di_paymentHash decoded, qt_invoiceHash = di_invoiceHash decoded, qt_expiresAt = di_expiresAt decoded\<rparr>)"

definition loadConnection ::
  "nwc_world \<Rightarrow> string \<Rightarrow> string option \<Rightarrow> execution_mode \<Rightarrow> string \<Rightarrow> 'a nwc_db_scheme \<Rightarrow> error + nwc_connection" where
  "loadConnection w connectionId ownerWalletId mode method d =
     (case List.find (\<lambda>c. nwc_connectionId c = connectionId
             \<and> (case nonempty ownerWalletId of None \<Rightarrow> True | Some o' \<Rightarrow> nwc_ownerWalletId c = o') \<and> nwc_status c = CN_active)
             (nwc_connections d) of
        None \<Rightarrow> Inl (ApiError 404 ''NWC_CONNECTION_NOT_FOUND'')
      | Some c \<Rightarrow>
         if method \<notin> set (nwc_methods c) then Inl (ApiError 409 ''NWC_CAPABILITY_NOT_ADVERTISED'')
         else if mode = EM_unattended \<and> (nwc_executionMode c \<noteq> EM_unattended \<or> \<not> nwc_allowanceEnforced c
           \<or> nwc_allowanceAtomic c \<le> nwc_allowanceUsedAtomic c \<or> nonempty (nwc_allowanceProofEventId c) = None)
         then Inl (ApiError 409 ''NWC_UNATTENDED_ALLOWANCE_REQUIRED'')
         else bindE (nw_unseal w (nwc_secretCiphertext c)) (\<lambda>_. Inr c))"

text \<open>One request to the wallet, answered by \<open>reply\<close>.\<close>

definition connector_request ::
  "nwc_world \<Rightarrow> string \<Rightarrow> string option \<Rightarrow> execution_mode \<Rightarrow> string \<Rightarrow> members \<Rightarrow> int \<Rightarrow> wallet_reply
    \<Rightarrow> ('a nwc_db_scheme, wallet_response) nwc_op" where
  "connector_request w connectionId ownerWalletId mode method params now reply d =
     (case loadConnection w connectionId ownerWalletId mode method d of
        Inl e \<Rightarrow> (Inl (X_error e), d)
      | Inr c \<Rightarrow>
         let d1 = d\<lparr>wire := wire d @ [\<lparr>rq_connection = c, rq_method = method, rq_params = params, rq_reply = reply\<rparr>]\<rparr>;
             this = (\<lambda>x. nwc_connectionId x = nwc_connectionId c)
         in (case reply of
               WR_response r \<Rightarrow> (Inr r, update_connection this
                 (\<lambda>x. x\<lparr>nwc_lastUsedAt := Some now, nwc_lastFailureCode := None\<rparr>) d1)
             | WR_timeout i \<Rightarrow> (Inl (X_timeout i), d1)
             | WR_failure e \<Rightarrow> (Inl (X_error e), update_connection this
                 (\<lambda>x. x\<lparr>nwc_lastFailureCode := Some ''NWC_REQUEST_FAILED''\<rparr>) d1)))"

definition fees_paid :: "members \<Rightarrow> int \<Rightarrow> error + int" where
  "fees_paid result other = (case present (json_field ''fees_paid'' result) of None \<Rightarrow> Inr other | v \<Rightarrow> exactAtomic v)"

text \<open>What the connector makes of the wallet's answer to a payment request.\<close>

definition paid_result :: "nwc_world \<Rightarrow> string \<Rightarrow> int \<Rightarrow> string \<Rightarrow> int \<Rightarrow> wallet_response \<Rightarrow> members \<Rightarrow> error + payment_result" where
  "paid_result w intentId amount paymentHash fee r result =
     bindE (requiredString result ''preimage'') (\<lambda>preimage.
     bindE (require (verifyLightningPreimage w preimage paymentHash) (ApiError 502 ''NWC_PAYMENT_PROOF_INVALID'')) (\<lambda>_.
     bindE (fees_paid result fee) (\<lambda>paid.
       Inr \<lparr>pr_intentId = intentId, pr_status = IN_succeeded, pr_amountAtomic = amount,
         pr_proof = Some \<lparr>pf_reference = paymentHash, pf_requestEventId = wr_requestEventId r,
           pf_responseEventId = wr_responseEventId r, pf_preimageVerified = True, pf_feeAtomic = paid\<rparr>,
         pr_failureCode = None\<rparr>)))"

definition execute_payment ::
  "nwc_world \<Rightarrow> payment_intent \<Rightarrow> payment_quote \<Rightarrow> string \<Rightarrow> execution_mode \<Rightarrow> string option \<Rightarrow> int \<Rightarrow> wallet_reply
    \<Rightarrow> ('a nwc_db_scheme, payment_result) nwc_op" where
  "execute_payment w i q connectionId mode ownerWalletId now reply d =
     (if trim connectionId = [] then (Inl (X_error (ApiError 400 ''NWC_EXECUTION_CONTEXT_REQUIRED'')), d)
      else (case decodeLightningInvoice w (pi_value i) (pi_network i) (Some (pi_amountAtomic i)) now of
         Inl e \<Rightarrow> (Inl (X_error e), d)
       | Inr decoded \<Rightarrow>
          if qt_connectorId q \<noteq> ''nwc-nip47'' \<or> qt_quoteId q \<noteq> quoteId w (pi_intentId i) (di_invoiceHash decoded)
            \<or> qt_paymentHash q \<noteq> di_paymentHash decoded \<or> qt_expiresAt q \<le> now
          then (Inl (X_error (ApiError 409 ''NWC_QUOTE_INVALID'')), d)
          else (case connector_request w (trim connectionId) ownerWalletId mode ''pay_invoice''
                  [(''invoice'', JStr (di_invoice decoded))] now reply d of
             (Inl e, d') \<Rightarrow> (Inl e, d')
           | (Inr r, d') \<Rightarrow>
              ((case ensureRemoteSuccess r of Inl e \<Rightarrow> Inl e
                | Inr result \<Rightarrow> lift_error (paid_result w (pi_intentId i) (pi_amountAtomic i) (di_paymentHash decoded) 0 r result)),
               d'))))"

definition unpaid_result :: "nwc_payment \<Rightarrow> intent_status \<Rightarrow> string option \<Rightarrow> payment_result" where
  "unpaid_result p status failureCode =
     \<lparr>pr_intentId = np_paymentId p, pr_status = status, pr_amountAtomic = np_amountAtomic p, pr_proof = None,
      pr_failureCode = failureCode\<rparr>"

text \<open>What the connector makes of the wallet's answer to a lookup.\<close>

definition lookup_result :: "nwc_world \<Rightarrow> nwc_payment \<Rightarrow> wallet_response \<Rightarrow> nwc_exn + payment_result" where
  "lookup_result w p r =
     (case wr_error r of
        Some c \<Rightarrow> Inr (unpaid_result p (if c = ''NOT_FOUND'' then IN_uncertain else IN_failed) (Some (''NWC_'' @ c)))
      | None \<Rightarrow>
         (case ensureRemoteSuccess r of
            Inl e \<Rightarrow> Inl e
          | Inr result \<Rightarrow>
             lift_error (bindE (requiredString result ''payment_hash'') (\<lambda>responseHash.
               bindE (exactAtomic (json_field ''amount'' result)) (\<lambda>responseAmount.
               if responseHash \<noteq> np_paymentHash p \<or> responseAmount \<noteq> np_amountAtomic p
               then Inl (ApiError 502 ''NWC_LOOKUP_PROOF_MISMATCH'')
               else
                 let state = (case json_field ''state'' result of Some (JStr s) \<Rightarrow> toLowerCase s | _ \<Rightarrow> ''pending'')
                 in if state \<noteq> ''settled'' then
                      (if state = ''failed'' \<or> state = ''expired'' then Inr (unpaid_result p IN_failed (Some ''NWC_PAYMENT_FAILED''))
                       else Inr (unpaid_result p IN_pending None))
                    else paid_result w (np_paymentId p) (np_amountAtomic p) (np_paymentHash p) (np_feeAtomic p) r result)))))"

definition connector_lookup ::
  "nwc_world \<Rightarrow> string \<Rightarrow> string \<Rightarrow> string \<Rightarrow> string \<Rightarrow> int \<Rightarrow> wallet_reply \<Rightarrow> ('a nwc_db_scheme, payment_result) nwc_op" where
  "connector_lookup w ownerWalletId connectionId reference network now reply d =
     (if ownerWalletId = [] \<or> connectionId = [] then (Inl (X_error (ApiError 400 ''NWC_LOOKUP_CONTEXT_REQUIRED'')), d)
      else (case List.find (\<lambda>p. np_ownerWalletId p = ownerWalletId \<and> np_connectionId p = connectionId
                 \<and> np_paymentHash p = toLowerCase reference \<and> np_network p = network) (nwc_payments d) of
         None \<Rightarrow> (Inl (X_error (ApiError 404 ''NWC_PAYMENT_NOT_FOUND'')), d)
       | Some p \<Rightarrow>
          (case connector_request w (np_connectionId p) (Some (np_ownerWalletId p)) (np_executionMode p) ''lookup_invoice''
                  [(''payment_hash'', JStr (np_paymentHash p))] now reply d of
             (Inl e, d') \<Rightarrow> (Inl e, d')
           | (Inr r, d') \<Rightarrow> (lookup_result w p r, d'))))"

definition getBalance ::
  "nwc_world \<Rightarrow> string \<Rightarrow> string \<Rightarrow> int \<Rightarrow> wallet_reply \<Rightarrow> ('a nwc_db_scheme, int) nwc_op" where
  "getBalance w connectionId ownerWalletId now reply d =
     (case connector_request w connectionId (Some ownerWalletId) EM_interactive ''get_balance'' [] now reply d of
        (Inl e, d') \<Rightarrow> (Inl e, d')
      | (Inr r, d') \<Rightarrow>
         ((case ensureRemoteSuccess r of Inl e \<Rightarrow> Inl e
           | Inr result \<Rightarrow> lift_error (exactAtomic (json_field ''balance'' result))), d'))"

definition nwcFeeAtomic :: "payment_result \<Rightarrow> int" where
  "nwcFeeAtomic r = (case pr_proof r of None \<Rightarrow> 0 | Some p \<Rightarrow> pf_feeAtomic p)"

end
