(* ===== verification/Nwc_Payments.thy ===== *)
theory Nwc_Payments
  imports Nwc_Service
begin

section \<open>The operations of the NWC service (services/nwc.service.ts)\<close>

text \<open>Pairing, balance, disconnecting, paying and reconciling, with what the API returns.\<close>

subsection \<open>What the API returns\<close>

record nwc_payment_dto =
  nd_id :: string
  nd_connectionId :: string
  nd_status :: string
  nd_network :: string
  nd_amountAtomic :: string
  nd_feeAtomic :: string
  nd_paymentHash :: string
  nd_proof :: "(string \<times> string option) option"
  nd_failure :: "string option"
  nd_submittedAt :: "string option"
  nd_reconciledAt :: "string option"
  nd_succeededAt :: "string option"
  nd_failedAt :: "string option"

definition toPaymentDto :: "nwc_payment \<Rightarrow> nwc_payment_dto" where
  "toPaymentDto p =
     \<lparr>nd_id = np_paymentId p, nd_connectionId = np_connectionId p, nd_status = nwc_status_text (np_status p),
      nd_network = np_network p, nd_amountAtomic = atomic_text (np_amountAtomic p),
      nd_feeAtomic = atomic_text (np_feeAtomic p), nd_paymentHash = np_paymentHash p,
      nd_proof = (if np_status p = NS_succeeded \<and> np_preimageVerified p
        then Some (np_paymentHash p, np_responseEventId p) else None),
      nd_failure = nonempty (np_failureCode p), nd_submittedAt = map_option toISOString (np_submittedAt p),
      nd_reconciledAt = map_option toISOString (np_reconciledAt p),
      nd_succeededAt = map_option toISOString (np_succeededAt p), nd_failedAt = map_option toISOString (np_failedAt p)\<rparr>"

record nwc_allowance_dto =
  na_amountAtomic :: string
  na_usedAtomic :: string
  na_remainingAtomic :: string
  na_resetsAt :: "string option"
  na_proofEventId :: string

record nwc_connection_dto =
  nc_id :: string
  nc_status :: string
  nc_scope :: "string \<times> string"
  nc_network :: string
  nc_encryption :: string
  nc_methods :: "string list"
  nc_notifications :: "string list"
  nc_relayCount :: nat
  nc_walletKeyFingerprint :: string
  nc_clientKeyFingerprint :: string
  nc_executionMode :: string
  nc_unattendedEligible :: bool
  nc_allowance :: "nwc_allowance_dto option"
  nc_limitation :: "string option"
  nc_balanceAtomic :: string
  nc_guarantee :: string
  nc_observedAt :: "string option"
  nc_staleAt :: "string option"
  nc_stale :: bool
  nc_lastFailure :: "string option"
  nc_createdAt :: string
  nc_revokedAt :: "string option"
  nc_walletRevocationRequired :: bool

definition keyFingerprint :: "nwc_world \<Rightarrow> string \<Rightarrow> string" where
  "keyFingerprint w v = take 16 (nw_sha w v)"

definition allowance_remaining :: "nwc_connection \<Rightarrow> int" where
  "allowance_remaining c = (if nwc_allowanceEnforced c then nwc_allowanceAtomic c - nwc_allowanceUsedAtomic c else 0)"

text \<open>\<open>parseAtomicAmount(allowanceRemaining)\<close> throws when the wallet reports more used than granted.\<close>

definition unattended_eligible :: "nwc_connection \<Rightarrow> error + bool" where
  "unattended_eligible c =
     (if \<not> (nwc_executionMode c = EM_unattended \<and> nwc_allowanceEnforced c
          \<and> nonempty (nwc_allowanceProofEventId c) \<noteq> None) then Inr False
      else bindE (parseAtomicAmount (dec_of_int (allowance_remaining c))) (\<lambda>remaining.
        Inr (remaining > 0 \<and> ''lookup_invoice'' \<in> set (nwc_methods c))))"

definition toConnectionDto :: "nwc_world \<Rightarrow> int \<Rightarrow> nwc_connection \<Rightarrow> error + nwc_connection_dto" where
  "toConnectionDto w now c =
     bindE (unattended_eligible c) (\<lambda>eligible.
       Inr \<lparr>nc_id = nwc_connectionId c, nc_status = connection_status_text (nwc_status c),
        nc_scope = (scope_text (nwc_scopeType c), nwc_scopeId c), nc_network = nwc_network c,
        nc_encryption = nwc_encryption c, nc_methods = nwc_methods c, nc_notifications = nwc_notifications c,
        nc_relayCount = length (nwc_relayUrls c), nc_walletKeyFingerprint = keyFingerprint w (nwc_walletPubkey c),
        nc_clientKeyFingerprint = nwc_clientKeyFingerprint c,
        nc_executionMode = execution_mode_text (nwc_executionMode c), nc_unattendedEligible = eligible,
        nc_allowance = (case nonempty (nwc_allowanceProofEventId c) of
            Some proof \<Rightarrow> if nwc_allowanceEnforced c
              then Some \<lparr>na_amountAtomic = atomic_text (nwc_allowanceAtomic c),
                na_usedAtomic = atomic_text (nwc_allowanceUsedAtomic c),
                na_remainingAtomic = dec_of_int (allowance_remaining c),
                na_resetsAt = map_option toISOString (nwc_allowanceResetsAt c), na_proofEventId = proof\<rparr>
              else None
          | None \<Rightarrow> None),
        nc_limitation = (if eligible then None else Some ''NWC_UNATTENDED_ALLOWANCE_REQUIRED''),
        nc_balanceAtomic = atomic_text (nwc_balanceAtomic c),
        nc_guarantee = (if nwc_balanceObservedAt c = None then ''authorization_only'' else ''balance_observed''),
        nc_observedAt = map_option toISOString (nwc_balanceObservedAt c),
        nc_staleAt = map_option toISOString (nwc_balanceStaleAt c),
        nc_stale = (case nwc_balanceStaleAt c of None \<Rightarrow> False | Some t \<Rightarrow> t \<le> now),
        nc_lastFailure = nonempty (nwc_lastFailureCode c), nc_createdAt = toISOString (nwc_createdAt c),
        nc_revokedAt = map_option toISOString (nwc_revokedAt c),
        nc_walletRevocationRequired = (nwc_status c = CN_revoked)\<rparr>)"

subsection \<open>Pairing\<close>

record pair_input =
  pn_connectionUri :: string
  pn_network :: string
  pn_scopeType :: scope_type
  pn_scopeId :: "string option"
  pn_executionMode :: execution_mode

definition assertScopeOwnership :: "string \<Rightarrow> scope_type \<Rightarrow> string option \<Rightarrow> 'a nwc_db_scheme \<Rightarrow> error + string" where
  "assertScopeOwnership ownerWalletId scopeType requestedScopeId d =
     (if scopeType = SC_wallet then Inr ownerWalletId
      else let scopeId = trim (opt_or requestedScopeId []) in
        if scopeId = [] then Inl (ApiError 400 ''NWC_SCOPE_ID_REQUIRED'')
        else if (if scopeType = SC_pass
                 then list_ex (\<lambda>s. ses_publicId s = scopeId \<and> ses_ownerWalletId s = ownerWalletId) (sessions d)
                 else list_ex (\<lambda>a. app_appId a = scopeId \<and> app_ownerWalletId a = ownerWalletId
                        \<and> app_status a = AP_active) (apps d))
        then Inr scopeId else Inl (ApiError 404 ''NWC_SCOPE_NOT_FOUND''))"

record wallet_allowance =
  wa_enforced :: bool
  wa_amountAtomic :: int
  wa_usedAtomic :: int
  wa_resetsAt :: "int option"
  wa_proofEventId :: "string option"

definition no_allowance :: wallet_allowance where
  "no_allowance = \<lparr>wa_enforced = False, wa_amountAtomic = 0, wa_usedAtomic = 0, wa_resetsAt = None, wa_proofEventId = None\<rparr>"

definition first_present :: "string \<Rightarrow> string \<Rightarrow> members \<Rightarrow> json option" where
  "first_present k k' m = (case present (json_field k m) of None \<Rightarrow> json_field k' m | v \<Rightarrow> v)"

definition valid_date_ms :: "int \<Rightarrow> bool" where
  "valid_date_ms t \<longleftrightarrow> \<bar>t\<bar> \<le> 8640000000000000"

definition parseAllowance :: "members \<Rightarrow> string \<Rightarrow> wallet_allowance" where
  "parseAllowance result responseEventId =
     (case json_field ''budget'' result of
        Some (JObj value) \<Rightarrow>
          let amount = exact_service_atomic (first_present ''total_budget'' ''amount'' value);
              used = opt_or (exact_service_atomic (first_present ''used_budget'' ''used'' value)) 0;
              enforced = (json_field ''enforced'' value = Some (JBool True)
                \<and> json_field ''unit'' value \<in> {Some (JStr ''msat''), Some (JStr ''millisatoshi'')}
                \<and> (case amount of None \<Rightarrow> False | Some a \<Rightarrow> a > used))
          in \<lparr>wa_enforced = enforced, wa_amountAtomic = opt_or amount 0, wa_usedAtomic = used,
               wa_resetsAt = (case json_field ''renews_at'' value of
                   Some (JNum n) \<Rightarrow> if isSafeInteger n \<and> valid_date_ms (n * 1000) then Some (n * 1000) else None
                 | _ \<Rightarrow> None),
               wa_proofEventId = (if enforced then Some responseEventId else None)\<rparr>
      | _ \<Rightarrow> no_allowance)"

definition effectiveMethods :: "string list \<Rightarrow> members option \<Rightarrow> string list" where
  "effectiveMethods infoMethods result =
     (case Option.bind result (json_field ''methods'') of
        Some (JArr xs) \<Rightarrow> filter (\<lambda>m. JStr m \<in> set xs) infoMethods
      | _ \<Rightarrow> infoMethods)"

text \<open>The answer to \<open>get_info\<close>; the error of the transport is passed on.\<close>

definition requestWalletInfo :: "wallet_reply \<Rightarrow> nwc_exn + members \<times> wallet_response" where
  "requestWalletInfo reply =
     (case reply of
        WR_timeout i \<Rightarrow> Inl (X_timeout i)
      | WR_failure e \<Rightarrow> Inl (X_error e)
      | WR_response r \<Rightarrow>
         if wr_error r \<noteq> None then Inl (X_error (ApiError 409 ''NWC_GET_INFO_FAILED''))
         else (case wr_result r of None \<Rightarrow> Inl (X_error (ApiError 502 ''NWC_RESPONSE_INVALID'')) | Some m \<Rightarrow> Inr (m, r)))"

definition network_mismatch :: "string \<Rightarrow> members \<Rightarrow> bool" where
  "network_mismatch network result =
     (case json_field ''network'' result of
        Some (JStr s) \<Rightarrow> s \<noteq> [] \<and> (toLowerCase s \<notin> set NWC_NETWORKS \<or> toLowerCase s \<noteq> network)
      | _ \<Rightarrow> False)"

definition confirmed_info ::
  "pair_input \<Rightarrow> nwc_info \<Rightarrow> wallet_reply \<Rightarrow> nwc_exn + string list \<times> wallet_allowance \<times> wallet_response option" where
  "confirmed_info i info reply =
     (case (if ''get_info'' \<in> set (ni_methods info)
            then (case requestWalletInfo reply of
                Inl e \<Rightarrow> Inl e
              | Inr (m, r) \<Rightarrow> if network_mismatch (pn_network i) m then Inl (X_error (ApiError 409 ''NWC_NETWORK_MISMATCH''))
                             else Inr (Some (m, r)))
            else Inr None) of
        Inl e \<Rightarrow> Inl e
      | Inr verified \<Rightarrow>
         let methods = effectiveMethods (ni_methods info) (map_option fst verified);
             allowance = (case verified of None \<Rightarrow> no_allowance | Some (m, r) \<Rightarrow> parseAllowance m (wr_responseEventId r))
         in if ''pay_invoice'' \<notin> set methods then Inl (X_error (ApiError 409 ''NWC_PAY_INVOICE_REQUIRED''))
            else if pn_executionMode i = EM_unattended
              \<and> (\<not> wa_enforced allowance \<or> nonempty (wa_proofEventId allowance) = None \<or> ''lookup_invoice'' \<notin> set methods)
            then Inl (X_error (ApiError 409 ''NWC_UNATTENDED_ALLOWANCE_REQUIRED''))
            else Inr (methods, allowance, map_option snd verified))"

definition new_connection ::
  "nwc_world \<Rightarrow> string \<Rightarrow> pair_input \<Rightarrow> string \<Rightarrow> string \<Rightarrow> parsed_uri \<Rightarrow> string \<Rightarrow> nwc_info \<Rightarrow> string list \<Rightarrow> wallet_allowance
    \<Rightarrow> wallet_response option \<Rightarrow> string \<Rightarrow> int \<Rightarrow> nwc_connection" where
  "new_connection w connectionId i ownerWalletId scopeId parsed relay info methods allowance response sealed now =
     \<lparr>nwc_connectionId = connectionId, nwc_ownerWalletId = ownerWalletId, nwc_scopeType = pn_scopeType i,
      nwc_scopeId = scopeId, nwc_status = CN_active, nwc_executionMode = pn_executionMode i, nwc_methods = methods,
      nwc_network = pn_network i, nwc_assetId = BTC_ASSET_ID, nwc_allowanceEnforced = wa_enforced allowance,
      nwc_allowanceAtomic = wa_amountAtomic allowance, nwc_allowanceUsedAtomic = wa_usedAtomic allowance,
      nwc_allowanceProofEventId = wa_proofEventId allowance, nwc_allowanceResetsAt = wa_resetsAt allowance,
      nwc_walletPubkey = pu_walletPubkey parsed, nwc_clientPubkey = pu_clientPubkey parsed,
      nwc_clientKeyFingerprint = keyFingerprint w (pu_clientPubkey parsed), nwc_relayUrls = pu_relays parsed,
      nwc_selectedRelay = relay, nwc_secretCiphertext = Some sealed, nwc_encryption = ni_encryption info,
      nwc_advertisedMethods = ni_advertisedMethods info, nwc_notifications = ni_notifications info,
      nwc_infoEventId = ni_eventId info, nwc_infoResponseEventId = map_option wr_responseEventId response,
      nwc_lud16 = pu_lud16 parsed, nwc_balanceAtomic = 0, nwc_balanceObservedAt = None, nwc_balanceStaleAt = None,
      nwc_lastUsedAt = (if response = None then None else Some now), nwc_lastFailureCode = None,
      nwc_createdAt = now, nwc_revokedAt = None, nwc_revokeReason = None\<rparr>"

text \<open>
  \<open>found\<close> is the wallet's information event with the relay that had it, or the error of
  \<open>fetchInfo\<close>; \<open>reply\<close> answers \<open>get_info\<close>.
\<close>

definition pairNwcConnection ::
  "nwc_world \<Rightarrow> string \<Rightarrow> pair_input \<Rightarrow> string \<Rightarrow> error + nostr_event \<times> string \<Rightarrow> wallet_reply \<Rightarrow> int
    \<Rightarrow> ('a nwc_db_scheme, nwc_connection_dto) nwc_op" where
  "pairNwcConnection w connectionId i ownerWalletId found reply now d =
     (case bindE (assertScopeOwnership ownerWalletId (pn_scopeType i) (pn_scopeId i) d) (\<lambda>scopeId.
             bindE (parseNwcConnectionUri w (pn_connectionUri i)) (\<lambda>parsed.
             bindE (require (\<not> list_ex (\<lambda>c. nwc_clientPubkey c = pu_clientPubkey parsed) (nwc_connections d))
                      (ApiError 409 ''NWC_CONNECTION_KEY_REUSED'')) (\<lambda>_.
             bindE found (\<lambda>(event, relay).
             bindE (parseNwcInfoEvent w event (pu_walletPubkey parsed)) (\<lambda>info.
             bindE (require (''pay_invoice'' \<in> set (ni_methods info)) (ApiError 409 ''NWC_PAY_INVOICE_REQUIRED'')) (\<lambda>_.
               Inr (scopeId, parsed, relay, info))))))) of
        Inl e \<Rightarrow> (Inl (X_error e), d)
      | Inr (scopeId, parsed, relay, info) \<Rightarrow>
         (case confirmed_info i info reply of
            Inl e \<Rightarrow> (Inl e, d)
          | Inr (methods, allowance, response) \<Rightarrow>
             (case nw_seal w (pu_secret parsed) of
                Inl e \<Rightarrow> (Inl (X_error e), d)
              | Inr sealed \<Rightarrow>
                 let c = new_connection w connectionId i ownerWalletId scopeId parsed relay info methods allowance
                           response sealed now
                 in (case insert_row (nwc_connection_clash c) c (nwc_connections d) of
                       None \<Rightarrow> (Inl (X_error (ApiError 409 ''NWC_CONNECTION_KEY_REUSED'')), d)
                     | Some cs \<Rightarrow>
                        (lift_error (toConnectionDto w now c),
                         writeAuditLog ownerWalletId ''nwc.connection.paired'' ''nwc_connection'' connectionId
                           (d\<lparr>nwc_connections := cs\<rparr>))))))"

definition listNwcConnections :: "nwc_world \<Rightarrow> int \<Rightarrow> string \<Rightarrow> 'a nwc_db_scheme \<Rightarrow> error + nwc_connection_dto list" where
  "listNwcConnections w now ownerWalletId d =
     mapE (toConnectionDto w now) (sort_by (\<lambda>a b. nwc_createdAt b \<le> nwc_createdAt a)
       (filter (\<lambda>c. nwc_ownerWalletId c = ownerWalletId) (nwc_connections d)))"

definition syncNwcBalance ::
  "nwc_world \<Rightarrow> string \<Rightarrow> string \<Rightarrow> int \<Rightarrow> wallet_reply \<Rightarrow> ('a nwc_db_scheme, nwc_connection_dto) nwc_op" where
  "syncNwcBalance w connectionId ownerWalletId now reply d =
     (case getBalance w connectionId ownerWalletId now reply d of
        (Inl e, d1) \<Rightarrow> (Inl e, d1)
      | (Inr balance, d1) \<Rightarrow>
         (case find_and_update (active_connection connectionId ownerWalletId)
                 (\<lambda>c. c\<lparr>nwc_balanceAtomic := balance, nwc_balanceObservedAt := Some now,
                        nwc_balanceStaleAt := Some (now + BALANCE_FRESHNESS_MS), nwc_lastUsedAt := Some now,
                        nwc_lastFailureCode := None\<rparr>) (nwc_connections d1) of
            None \<Rightarrow> (Inl (X_error (ApiError 404 ''NWC_CONNECTION_NOT_FOUND'')), d1)
          | Some (c, cs) \<Rightarrow>
             (lift_error (toConnectionDto w now c),
              writeAuditLog ownerWalletId ''nwc.balance.observed'' ''nwc_connection'' connectionId
                (d1\<lparr>nwc_connections := cs\<rparr>))))"

definition disconnectNwcConnection ::
  "string \<Rightarrow> string \<Rightarrow> string option \<Rightarrow> int \<Rightarrow> ('a nwc_db_scheme, unit) op" where
  "disconnectNwcConnection connectionId ownerWalletId reason now d =
     (case find_and_update (active_connection connectionId ownerWalletId)
             (\<lambda>c. c\<lparr>nwc_status := CN_revoked, nwc_revokedAt := Some now,
                    nwc_revokeReason := Some (let r = take 160 (trim (opt_or reason [])) in
                      if r = [] then ''Disconnected by owner'' else r),
                    nwc_relayUrls := [], nwc_selectedRelay := [], nwc_secretCiphertext := None\<rparr>) (nwc_connections d) of
        None \<Rightarrow> (Inl (ApiError 404 ''NWC_CONNECTION_NOT_FOUND''), d)
      | Some (_, cs) \<Rightarrow>
         (Inr (), writeAuditLog ownerWalletId ''nwc.connection.disconnected'' ''nwc_connection'' connectionId
            (d\<lparr>nwc_connections := cs\<rparr>)))"

end
