(* ===== verification/Nwc_Execution.thy ===== *)
theory Nwc_Execution
  imports Nwc_Payments
begin

section \<open>Paying and reconciling over NWC (services/nwc.service.ts)\<close>

text \<open>
  A payment document is created before the wallet is asked, under a unique index on the owner and the
  payment hash; the three persisting updates only touch a payment that is pending or uncertain.
\<close>

definition paymentFingerprint ::
  "nwc_world \<Rightarrow> string \<Rightarrow> string \<Rightarrow> string \<Rightarrow> string \<Rightarrow> string \<Rightarrow> int \<Rightarrow> string \<Rightarrow> string" where
  "paymentFingerprint w ownerWalletId connectionId idempotencyKey paymentHash invoiceHash amount network =
     nw_sha w (stringify (JObj
       [(''ownerWalletId'', JStr ownerWalletId), (''connectionId'', JStr connectionId),
        (''idempotencyKey'', JStr idempotencyKey), (''paymentHash'', JStr paymentHash),
        (''invoiceHash'', JStr invoiceHash), (''amountAtomic'', JStr (atomic_text amount)), (''network'', JStr network)]))"

definition paymentIntent :: "string \<Rightarrow> string \<Rightarrow> decoded_invoice \<Rightarrow> payment_intent" where
  "paymentIntent paymentId idempotencyKey decoded =
     \<lparr>pi_intentId = paymentId, pi_idempotencyKey = idempotencyKey, pi_rail = R_lightning, pi_network = di_network decoded,
      pi_assetId = BTC_ASSET_ID, pi_amountAtomic = di_amountAtomic decoded, pi_destinationKind = ''invoice'',
      pi_value = di_invoice decoded, pi_expiresAt = di_expiresAt decoded\<rparr>"

definition paymentExecutionInFlight :: "int \<Rightarrow> nwc_payment \<Rightarrow> bool" where
  "paymentExecutionInFlight now p \<longleftrightarrow> np_status p = NS_pending \<and> nonempty (np_executionLeaseId p) \<noteq> None
     \<and> (case np_executionLeaseExpiresAt p of None \<Rightarrow> False | Some t \<Rightarrow> t > now)"

definition unsettled :: "nwc_payment \<Rightarrow> bool" where
  "unsettled p \<longleftrightarrow> np_status p \<in> {NS_pending, NS_uncertain}"

text \<open>\<open>findOneAndUpdate\<close> on one payment, returning the new document.\<close>

definition edit_payment ::
  "(nwc_payment \<Rightarrow> bool) \<Rightarrow> (nwc_payment \<Rightarrow> nwc_payment) \<Rightarrow> 'a nwc_db_scheme \<Rightarrow> nwc_payment option \<times> 'a nwc_db_scheme" where
  "edit_payment p f d =
     (case find_and_update p f (nwc_payments d) of
        None \<Rightarrow> (None, d)
      | Some (x, xs) \<Rightarrow> (Some x, d\<lparr>nwc_payments := xs\<rparr>))"

definition find_payment :: "string \<Rightarrow> 'a nwc_db_scheme \<Rightarrow> nwc_payment option" where
  "find_payment paymentId d = List.find (\<lambda>p. np_paymentId p = paymentId) (nwc_payments d)"

definition succeeded_payment :: "payment_result \<Rightarrow> bool \<Rightarrow> int \<Rightarrow> nwc_payment \<Rightarrow> nwc_payment" where
  "succeeded_payment r reconciled now p =
     p\<lparr>np_status := NS_succeeded, np_feeAtomic := nwcFeeAtomic r,
       np_requestEventId := opt_else (map_option pf_requestEventId (pr_proof r)) (np_requestEventId p),
       np_responseEventId := opt_else (map_option pf_responseEventId (pr_proof r)) (np_responseEventId p),
       np_preimageVerified := (case pr_proof r of None \<Rightarrow> False | Some q \<Rightarrow> pf_preimageVerified q),
       np_succeededAt := Some now, np_reconciledAt := (if reconciled then Some now else np_reconciledAt p),
       np_executionLeaseExpiresAt := Some now, np_failureCode := None, np_executionLeaseId := None\<rparr>"

definition persistNwcSuccess ::
  "string \<Rightarrow> payment_result \<Rightarrow> bool \<Rightarrow> int \<Rightarrow> ('a nwc_db_scheme, nwc_payment) op" where
  "persistNwcSuccess paymentId r reconciled now d =
     (case edit_payment (\<lambda>p. np_paymentId p = paymentId \<and> unsettled p) (succeeded_payment r reconciled now) d of
        (Some p, d') \<Rightarrow> (Inr p, d')
      | (None, d') \<Rightarrow>
         (case find_payment paymentId d' of
            Some p \<Rightarrow> if np_status p = NS_succeeded then (Inr p, d')
                      else (Inl (ApiError 503 ''NWC_PAYMENT_FINALIZATION_FAILED''), d')
          | None \<Rightarrow> (Inl (ApiError 503 ''NWC_PAYMENT_FINALIZATION_FAILED''), d')))"

definition timeout_event :: "nwc_exn \<Rightarrow> string option" where
  "timeout_event e = (case e of X_timeout i \<Rightarrow> Some i | _ \<Rightarrow> None)"

definition uncertain_payment :: "nwc_exn \<Rightarrow> int \<Rightarrow> nwc_payment \<Rightarrow> nwc_payment" where
  "uncertain_payment e now p =
     p\<lparr>np_status := NS_uncertain, np_requestEventId := opt_else (timeout_event e) (np_requestEventId p),
       np_failureCode := Some ''NWC_PAYMENT_OUTCOME_UNCERTAIN'', np_executionLeaseExpiresAt := Some now,
       np_executionLeaseId := None\<rparr>"

definition markNwcUncertain :: "string \<Rightarrow> nwc_exn \<Rightarrow> int \<Rightarrow> ('a nwc_db_scheme, nwc_payment) op" where
  "markNwcUncertain paymentId e now d =
     (case edit_payment (\<lambda>p. np_paymentId p = paymentId \<and> unsettled p) (uncertain_payment e now) d of
        (Some p, d') \<Rightarrow> (Inr p, d')
      | (None, d') \<Rightarrow> (Inl (ApiError 503 ''NWC_PAYMENT_STATE_FAILED''), d'))"

definition failed_payment :: "string \<Rightarrow> int \<Rightarrow> nwc_payment \<Rightarrow> nwc_payment" where
  "failed_payment c now p =
     p\<lparr>np_status := NS_failed, np_failureCode := Some c, np_failedAt := Some now,
       np_executionLeaseExpiresAt := Some now, np_executionLeaseId := None\<rparr>"

definition markNwcFailed :: "string \<Rightarrow> string \<Rightarrow> int \<Rightarrow> ('a nwc_db_scheme, nwc_payment) op" where
  "markNwcFailed paymentId c now d =
     (case edit_payment (\<lambda>p. np_paymentId p = paymentId \<and> unsettled p) (failed_payment c now) d of
        (Some p, d') \<Rightarrow> (Inr p, d')
      | (None, d') \<Rightarrow> (Inl (ApiError 503 ''NWC_PAYMENT_STATE_FAILED''), d'))"

definition as_dto :: "(error + nwc_payment) \<times> 'd \<Rightarrow> (nwc_exn + nwc_payment_dto) \<times> 'd" where
  "as_dto r = (case r of (Inl e, d) \<Rightarrow> (Inl (X_error e), d) | (Inr p, d) \<Rightarrow> (Inr (toPaymentDto p), d))"

subsection \<open>Reconciling\<close>

definition pending_payment :: "int \<Rightarrow> nwc_payment \<Rightarrow> nwc_payment" where
  "pending_payment now p =
     p\<lparr>np_status := NS_uncertain, np_reconciledAt := Some now, np_executionLeaseExpiresAt := Some now\<rparr>"

text \<open>
  What is stored after the lookup. The last case filters on the payment identifier only, whatever the
  status has become in the meantime.
\<close>

definition apply_lookup ::
  "string \<Rightarrow> nwc_exn + payment_result \<Rightarrow> int \<Rightarrow> ('a nwc_db_scheme, nwc_payment_dto) nwc_op" where
  "apply_lookup paymentId looked now d =
     (case looked of
        Inl e \<Rightarrow> as_dto (markNwcUncertain paymentId e now d)
      | Inr r \<Rightarrow>
         (case pr_status r of
            IN_succeeded \<Rightarrow> as_dto (persistNwcSuccess paymentId r True now d)
          | IN_failed \<Rightarrow> as_dto (markNwcFailed paymentId (opt_or (pr_failureCode r) ''NWC_PAYMENT_FAILED'') now d)
          | _ \<Rightarrow>
             (case edit_payment (\<lambda>p. np_paymentId p = paymentId) (pending_payment now) d of
                (Some p, d') \<Rightarrow> (Inr (toPaymentDto p), d')
              | (None, d') \<Rightarrow> (Inl (X_error (ApiError 404 ''NWC_PAYMENT_NOT_FOUND'')), d'))))"

definition reconcile_connection :: "nwc_payment \<Rightarrow> 'a nwc_db_scheme \<Rightarrow> error + unit" where
  "reconcile_connection p d =
     (case List.find (active_connection (np_connectionId p) (np_ownerWalletId p)) (nwc_connections d) of
        None \<Rightarrow> Inl (ApiError 404 ''NWC_CONNECTION_NOT_FOUND'')
      | Some c \<Rightarrow> if ''lookup_invoice'' \<in> set (nwc_methods c) then Inr ()
                  else Inl (ApiError 409 ''NWC_RECONCILIATION_UNAVAILABLE''))"

text \<open>\<open>now\<close> is the time of the request, \<open>later\<close> the time of its answer.\<close>

definition lookup_payment ::
  "nwc_world \<Rightarrow> nwc_payment \<Rightarrow> int \<Rightarrow> wallet_reply \<Rightarrow> ('a nwc_db_scheme, payment_result) nwc_op" where
  "lookup_payment w p now reply =
     connector_lookup w (np_ownerWalletId p) (np_connectionId p) (np_paymentHash p) (np_network p) now reply"

definition reconcilePayment ::
  "nwc_world \<Rightarrow> nwc_payment \<Rightarrow> int \<Rightarrow> int \<Rightarrow> wallet_reply \<Rightarrow> ('a nwc_db_scheme, nwc_payment_dto) nwc_op" where
  "reconcilePayment w p now later reply d =
     (case reconcile_connection p d of
        Inl e \<Rightarrow> (Inl (X_error e), d)
      | Inr _ \<Rightarrow> (case lookup_payment w p now reply d of (looked, d') \<Rightarrow> apply_lookup (np_paymentId p) looked later d'))"

subsection \<open>Paying\<close>

record pay_input =
  py_connectionId :: string
  py_ownerWalletId :: string
  py_invoice :: string
  py_idempotencyKey :: string
  py_executionMode :: "execution_mode option"

definition pay_mode :: "pay_input \<Rightarrow> execution_mode" where
  "pay_mode i = opt_or (py_executionMode i) EM_interactive"

definition pay_checks ::
  "nwc_world \<Rightarrow> pay_input \<Rightarrow> int \<Rightarrow> 'a nwc_db_scheme \<Rightarrow> error + nwc_connection \<times> decoded_invoice" where
  "pay_checks w i now d =
     bindE (case List.find (active_connection (py_connectionId i) (py_ownerWalletId i)) (nwc_connections d) of
              None \<Rightarrow> Inl (ApiError 404 ''NWC_CONNECTION_NOT_FOUND'') | Some c \<Rightarrow> Inr c) (\<lambda>c.
     bindE (require (''pay_invoice'' \<in> set (nwc_methods c)) (ApiError 409 ''NWC_CAPABILITY_NOT_ADVERTISED'')) (\<lambda>_.
     bindE (require (\<not> (pay_mode i = EM_unattended \<and> (nwc_executionMode c \<noteq> EM_unattended
                \<or> \<not> nwc_allowanceEnforced c \<or> nonempty (nwc_allowanceProofEventId c) = None)))
              (ApiError 409 ''NWC_UNATTENDED_ALLOWANCE_REQUIRED'')) (\<lambda>_.
     bindE (decodeLightningInvoice w (py_invoice i) (nwc_network c) None now) (\<lambda>decoded.
     bindE (require (\<not> (pay_mode i = EM_unattended
                \<and> nwc_allowanceAtomic c - nwc_allowanceUsedAtomic c < di_amountAtomic decoded))
              (ApiError 409 ''NWC_UNATTENDED_ALLOWANCE_INSUFFICIENT'')) (\<lambda>_. Inr (c, decoded))))))"

definition pay_fingerprint :: "nwc_world \<Rightarrow> pay_input \<Rightarrow> decoded_invoice \<Rightarrow> string" where
  "pay_fingerprint w i decoded =
     paymentFingerprint w (py_ownerWalletId i) (py_connectionId i) (py_idempotencyKey i) (di_paymentHash decoded)
       (di_invoiceHash decoded) (di_amountAtomic decoded) (di_network decoded)"

definition new_payment :: "nwc_world \<Rightarrow> string \<Rightarrow> string \<Rightarrow> pay_input \<Rightarrow> decoded_invoice \<Rightarrow> int \<Rightarrow> nwc_payment" where
  "new_payment w paymentId leaseId i decoded now =
     \<lparr>np_paymentId = paymentId, np_ownerWalletId = py_ownerWalletId i, np_connectionId = py_connectionId i,
      np_idempotencyKey = py_idempotencyKey i, np_requestFingerprint = pay_fingerprint w i decoded,
      np_paymentHash = di_paymentHash decoded, np_invoiceHash = di_invoiceHash decoded, np_network = di_network decoded,
      np_amountAtomic = di_amountAtomic decoded, np_feeAtomic = 0, np_status = NS_pending,
      np_executionMode = pay_mode i, np_requestEventId = None, np_responseEventId = None, np_preimageVerified = False,
      np_executionLeaseId = Some leaseId, np_executionLeaseExpiresAt = Some (now + PAYMENT_LEASE_MS),
      np_submittedAt = None, np_reconciledAt = None, np_succeededAt = None, np_failedAt = None, np_failureCode = None\<rparr>"

text \<open>What \<open>payNwcInvoice\<close> has decided before it sends anything: an answer, a payment to reconcile, or a
  payment that was just created.\<close>

datatype pay_start = PY_answer "nwc_exn + nwc_payment_dto" | PY_reconcile nwc_payment | PY_created nwc_connection decoded_invoice

text \<open>The replay of a stored payment. \<open>raced\<close> is the branch after a duplicate key, which does not look at
  the failed state.\<close>

definition replay_payment :: "bool \<Rightarrow> string \<Rightarrow> execution_mode \<Rightarrow> int \<Rightarrow> nwc_payment \<Rightarrow> pay_start" where
  "replay_payment raced fingerprint mode now p =
     (if np_requestFingerprint p \<noteq> fingerprint then PY_answer (Inl (X_error (ApiError 409 ''NWC_IDEMPOTENCY_CONFLICT'')))
      else if np_executionMode p \<noteq> mode then PY_answer (Inl (X_error (ApiError 409 ''NWC_EXECUTION_MODE_CONFLICT'')))
      else if np_status p = NS_succeeded then PY_answer (Inr (toPaymentDto p))
      else if \<not> raced \<and> np_status p = NS_failed
      then PY_answer (Inl (X_error (ApiError 409 (opt_or (np_failureCode p) ''NWC_PAYMENT_FAILED''))))
      else if paymentExecutionInFlight now p then PY_answer (Inr (toPaymentDto p))
      else PY_reconcile p)"

definition create_payment :: "nwc_world \<Rightarrow> string \<Rightarrow> string \<Rightarrow> pay_input \<Rightarrow> nwc_connection \<Rightarrow> decoded_invoice \<Rightarrow> int
    \<Rightarrow> 'a nwc_db_scheme \<Rightarrow> pay_start \<times> 'a nwc_db_scheme" where
  "create_payment w paymentId leaseId i c decoded now d =
     (let p = new_payment w paymentId leaseId i decoded now in
      case insert_row (nwc_payment_clash p) p (nwc_payments d) of
        Some ps \<Rightarrow> (PY_created c decoded, d\<lparr>nwc_payments := ps\<rparr>)
      | None \<Rightarrow>
         ((case List.find (\<lambda>x. np_ownerWalletId x = py_ownerWalletId i \<and> np_paymentHash x = di_paymentHash decoded)
                  (nwc_payments d) of
             None \<Rightarrow> PY_answer (Inl (X_error (ApiError 409 ''NWC_PAYMENT_DUPLICATE'')))
           | Some x \<Rightarrow> replay_payment True (pay_fingerprint w i decoded) (pay_mode i) now x), d))"

definition begin_payment :: "nwc_world \<Rightarrow> string \<Rightarrow> string \<Rightarrow> pay_input \<Rightarrow> int \<Rightarrow> 'a nwc_db_scheme
    \<Rightarrow> pay_start \<times> 'a nwc_db_scheme" where
  "begin_payment w paymentId leaseId i now d =
     (case pay_checks w i now d of
        Inl e \<Rightarrow> (PY_answer (Inl (X_error e)), d)
      | Inr (c, decoded) \<Rightarrow>
         (case List.find (\<lambda>x. np_ownerWalletId x = py_ownerWalletId i
                 \<and> ((np_connectionId x = py_connectionId i \<and> np_idempotencyKey x = py_idempotencyKey i)
                    \<or> np_paymentHash x = di_paymentHash decoded)) (nwc_payments d) of
            Some x \<Rightarrow> (replay_payment False (pay_fingerprint w i decoded) (pay_mode i) now x, d)
          | None \<Rightarrow> create_payment w paymentId leaseId i c decoded now d))"

definition mark_submitted :: "string \<Rightarrow> string \<Rightarrow> int \<Rightarrow> 'a nwc_db_scheme \<Rightarrow> 'a nwc_db_scheme" where
  "mark_submitted paymentId leaseId now d =
     snd (edit_payment (\<lambda>p. np_paymentId p = paymentId \<and> np_executionLeaseId p = Some leaseId)
            (\<lambda>p. p\<lparr>np_submittedAt := Some now\<rparr>) d)"

text \<open>Whether the outcome of a failed request may be a payment.\<close>

definition outcome_unknown :: "nwc_connection \<Rightarrow> nwc_exn \<Rightarrow> bool" where
  "outcome_unknown c e \<longleftrightarrow>
     (case e of
        X_timeout _ \<Rightarrow> True
      | X_remote r \<Rightarrow> ''lookup_invoice'' \<in> set (nwc_methods c) \<and> (r = ''PAYMENT_FAILED'' \<or> r = ''INTERNAL'')
      | X_error _ \<Rightarrow> ''lookup_invoice'' \<in> set (nwc_methods c))"

definition exn_code :: "nwc_exn \<Rightarrow> string" where
  "exn_code e = (case e of X_remote r \<Rightarrow> ''NWC_'' @ r | X_error (ApiError _ c) \<Rightarrow> c | _ \<Rightarrow> ''NWC_PAYMENT_FAILED'')"

definition payment_refused :: "string \<Rightarrow> nwc_connection \<Rightarrow> string \<Rightarrow> nwc_exn \<Rightarrow> int
    \<Rightarrow> ('a nwc_db_scheme, nwc_payment_dto) nwc_op" where
  "payment_refused paymentId c ownerWalletId e now d =
     (if outcome_unknown c e
      then (case markNwcUncertain paymentId e now d of
         (Inl e', d') \<Rightarrow> (Inl (X_error e'), d')
       | (Inr p, d') \<Rightarrow> (Inr (toPaymentDto p), writeAuditLog ownerWalletId ''nwc.payment.uncertain'' ''nwc_payment'' paymentId d'))
      else (case markNwcFailed paymentId (exn_code e) now d of
         (Inl e', d') \<Rightarrow> (Inl (X_error e'), d')
       | (Inr _, d') \<Rightarrow> (Inl (X_error (ApiError 502 (exn_code e))), d')))"

definition conclude_payment :: "string \<Rightarrow> nwc_connection \<Rightarrow> string \<Rightarrow> nwc_exn + payment_result \<Rightarrow> int
    \<Rightarrow> ('a nwc_db_scheme, nwc_payment_dto) nwc_op" where
  "conclude_payment paymentId c ownerWalletId executed now d =
     (case executed of
        Inl e \<Rightarrow> payment_refused paymentId c ownerWalletId e now d
      | Inr r \<Rightarrow>
         (case persistNwcSuccess paymentId r False now d of
            (Inl e, d') \<Rightarrow> payment_refused paymentId c ownerWalletId (X_error e) now d'
          | (Inr p, d') \<Rightarrow>
             (Inr (toPaymentDto p),
              writeAuditLog ownerWalletId ''nwc.payment.succeeded'' ''nwc_payment'' paymentId d')))"

definition send_payment :: "nwc_world \<Rightarrow> string \<Rightarrow> pay_input \<Rightarrow> decoded_invoice \<Rightarrow> payment_quote \<Rightarrow> int \<Rightarrow> wallet_reply
    \<Rightarrow> ('a nwc_db_scheme, payment_result) nwc_op" where
  "send_payment w paymentId i decoded q now reply =
     execute_payment w (paymentIntent paymentId (py_idempotencyKey i) decoded) q (py_connectionId i) (pay_mode i)
       (Some (py_ownerWalletId i)) now reply"

definition payNwcInvoice :: "nwc_world \<Rightarrow> string \<Rightarrow> string \<Rightarrow> pay_input \<Rightarrow> int \<Rightarrow> int \<Rightarrow> wallet_reply
    \<Rightarrow> ('a nwc_db_scheme, nwc_payment_dto) nwc_op" where
  "payNwcInvoice w paymentId leaseId i now later reply d =
     (case begin_payment w paymentId leaseId i now d of
        (PY_answer r, d1) \<Rightarrow> (r, d1)
      | (PY_reconcile p, d1) \<Rightarrow> reconcilePayment w p now later reply d1
      | (PY_created c decoded, d1) \<Rightarrow>
         (let d2 = mark_submitted paymentId leaseId now d1 in
          case quote_payment w (paymentIntent paymentId (py_idempotencyKey i) decoded) now of
            Inl e \<Rightarrow> (Inl (X_error e), d2)
          | Inr q \<Rightarrow>
             (case send_payment w paymentId i decoded q now reply d2 of
                (executed, d3) \<Rightarrow> conclude_payment paymentId c (py_ownerWalletId i) executed later d3)))"

definition getNwcPaymentStatus :: "nwc_world \<Rightarrow> string \<Rightarrow> string \<Rightarrow> string \<Rightarrow> int \<Rightarrow> int \<Rightarrow> wallet_reply
    \<Rightarrow> ('a nwc_db_scheme, nwc_payment_dto) nwc_op" where
  "getNwcPaymentStatus w connectionId ownerWalletId paymentHash now later reply d =
     (case List.find (\<lambda>p. np_connectionId p = connectionId \<and> np_ownerWalletId p = ownerWalletId
             \<and> np_paymentHash p = toLowerCase paymentHash) (nwc_payments d) of
        None \<Rightarrow> (Inl (X_error (ApiError 404 ''NWC_PAYMENT_NOT_FOUND'')), d)
      | Some p \<Rightarrow> if unsettled p then reconcilePayment w p now later reply d else (Inr (toPaymentDto p), d))"

end
