(* ===== verification/Nwc_Safety.thy ===== *)
theory Nwc_Safety
  imports Nwc_Execution
begin

section \<open>What the NWC service never does\<close>

text \<open>
  Calls of the service run concurrently: between the statements of one call any others may happen, and
  a process may stop for ever. \<open>nwc_step\<close> is one statement; what a process has in hand between two
  statements is a task. The results are about any sequence of such steps: a Lightning invoice is sent
  to the wallet at most once, and a payment only becomes succeeded with a preimage of its hash.
\<close>

definition pay_key :: "nwc_payment \<Rightarrow> string \<times> string \<times> string" where
  "pay_key p = (np_paymentId p, np_ownerWalletId p, np_paymentHash p)"

definition conn_key :: "nwc_connection \<Rightarrow> string \<times> string \<times> string" where
  "conn_key c = (nwc_connectionId c, nwc_ownerWalletId c, nwc_network c)"

text \<open>
  A request and its answer are one step. \<open>start\<close> and \<open>unquoted\<close> hold everything \<open>payNwcInvoice\<close> does up to
  the request; a lookup may start from a document that was read at any earlier time.
\<close>

datatype nwc_task =
    TK_send string pay_input decoded_invoice payment_quote nwc_connection
  | TK_conclude string nwc_connection string "nwc_exn + payment_result"
  | TK_apply string "nwc_exn + payment_result"

inductive nwc_step ::
  "nwc_world \<Rightarrow> 'a nwc_db_scheme \<times> nwc_task list \<Rightarrow> 'a nwc_db_scheme \<times> nwc_task list \<Rightarrow> bool" for w where
  pair: "pairNwcConnection w connectionId i owner found reply now d = (r, d') \<Longrightarrow> trim connectionId = connectionId
    \<Longrightarrow> nwc_step w (d, T) (d', T)"
| sync: "syncNwcBalance w connectionId owner now reply d = (r, d') \<Longrightarrow> nwc_step w (d, T) (d', T)"
| disconnect: "disconnectNwcConnection connectionId owner reason now d = (r', d') \<Longrightarrow> nwc_step w (d, T) (d', T)"
| start: "begin_payment w paymentId leaseId i now d = (PY_created c decoded, d1)
    \<Longrightarrow> quote_payment w (paymentIntent paymentId (py_idempotencyKey i) decoded) now = Inr q
    \<Longrightarrow> nwc_step w (d, T) (mark_submitted paymentId leaseId now d1, TK_send paymentId i decoded q c # T)"
| unquoted: "begin_payment w paymentId leaseId i now d = (PY_created c decoded, d1)
    \<Longrightarrow> nwc_step w (d, T) (mark_submitted paymentId leaseId now d1, T)"
| send: "TK_send paymentId i decoded q c \<in> set T \<Longrightarrow> send_payment w paymentId i decoded q now reply d = (x, d')
    \<Longrightarrow> nwc_step w (d, T) (d', TK_conclude paymentId c (py_ownerWalletId i) x # remove1 (TK_send paymentId i decoded q c) T)"
| conclude: "TK_conclude paymentId c owner x \<in> set T \<Longrightarrow> conclude_payment paymentId c owner x now d = (r'', d')
    \<Longrightarrow> nwc_step w (d, T) (d', remove1 (TK_conclude paymentId c owner x) T)"
| look_up: "pay_key p \<in> pay_key ` set (nwc_payments d)
    \<Longrightarrow> lookup_payment w p now reply d = (x, d') \<Longrightarrow> nwc_step w (d, T) (d', TK_apply (np_paymentId p) x # T)"
| store: "TK_apply paymentId x \<in> set T \<Longrightarrow> apply_lookup paymentId x now d = (r'', d')
    \<Longrightarrow> nwc_step w (d, T) (d', remove1 (TK_apply paymentId x) T)"
| stop: "t \<in> set T \<Longrightarrow> nwc_step w (d, T) (d, remove1 t T)"
| others: "nwc_payments d' = nwc_payments d \<Longrightarrow> wire d' = wire d \<Longrightarrow> nwc_connections d' = nwc_connections d
    \<Longrightarrow> nwc_step w (d, T) (d', T)"

subsection \<open>Requests\<close>

text \<open>The payment hash a request on the wire asks to pay.\<close>

definition request_hash :: "nwc_world \<Rightarrow> nwc_request \<Rightarrow> string option" where
  "request_hash w r =
     (if rq_method r \<noteq> ''pay_invoice'' then None
      else (case rq_params r of
         [(_, JStr v)] \<Rightarrow> map_option (\<lambda>b. toLowerCase (opt_or (b11_payment_hash b) []))
                           (nw_bolt11 w (bolt11_prefix (nwc_network (rq_connection r))) v)
       | _ \<Rightarrow> None))"

definition pays :: "nwc_world \<Rightarrow> string \<Rightarrow> string \<Rightarrow> nwc_request \<Rightarrow> bool" where
  "pays w owner h r \<longleftrightarrow> nwc_ownerWalletId (rq_connection r) = owner \<and> request_hash w r = Some h"

text \<open>The normal form of an invoice, which decodes to itself.\<close>

definition decodes :: "nwc_world \<Rightarrow> decoded_invoice \<Rightarrow> bool" where
  "decodes w v \<longleftrightarrow> di_invoice v \<noteq> [] \<and> \<not> list_ex is_space (di_invoice v) \<and> toLowerCase (di_invoice v) = di_invoice v
     \<and> (\<exists>b. nw_bolt11 w (bolt11_prefix (di_network v)) (di_invoice v) = Some b
           \<and> di_paymentHash v = toLowerCase (opt_or (b11_payment_hash b) []))"

lemma lower_lower [simp]: "lower_char (lower_char c) = lower_char c"
  by (simp add: lower_char_def)

lemma trim_no_space: "\<not> list_ex is_space s \<Longrightarrow> trim s = s"
proof -
  have none: "\<forall>c\<in>set s. \<not> P c \<Longrightarrow> dropWhile P s = s" for P and s :: string by (induction s) auto
  assume "\<not> list_ex is_space s"
  thus ?thesis by (simp add: trim_def list_ex_iff none)
qed

lemma decodeD:
  assumes "decodeLightningInvoice w raw network e now = Inr v"
  shows "decodes w v" and "di_network v = network"
  using assms
  by (auto simp: decodeLightningInvoice_def decodes_def Let_def toLowerCase_def split: if_splits option.splits)

lemma decode_again:
  assumes "decodes w v" and "decodeLightningInvoice w (di_invoice v) (di_network v) e now = Inr v'"
  shows "di_invoice v' = di_invoice v" and "di_paymentHash v' = di_paymentHash v" and "di_network v' = di_network v"
  using assms by (auto simp: decodeLightningInvoice_def decodes_def Let_def trim_no_space split: if_splits option.splits)

text \<open>What the connector leaves alone, and what it appends.\<close>

definition same_documents :: "'a nwc_db_scheme \<Rightarrow> 'a nwc_db_scheme \<Rightarrow> bool" where
  "same_documents d' d \<longleftrightarrow> map pay_key (nwc_payments d') = map pay_key (nwc_payments d)
     \<and> map conn_key (nwc_connections d') = map conn_key (nwc_connections d)"

lemma update_connection_simps [simp]:
  "nwc_payments (update_connection p f d) = nwc_payments d" "wire (update_connection p f d) = wire d"
  by (simp_all add: update_connection_def)

lemma update_connection_keys:
  "(\<And>c. conn_key (f c) = conn_key c) \<Longrightarrow> map conn_key (nwc_connections (update_connection p f d)) = map conn_key (nwc_connections d)"
  by (simp add: update_connection_def map_update_first)

lemma loadConnectionD:
  assumes "loadConnection w connectionId owner mode method d = Inr c"
  shows "c \<in> set (nwc_connections d)" and "nwc_connectionId c = connectionId"
    and "nonempty owner = Some o' \<Longrightarrow> nwc_ownerWalletId c = o'"
  using assms by (auto simp: loadConnection_def find_Some_iff split: option.splits if_splits)

lemma connector_request_cases:
  assumes "connector_request w connectionId owner mode method params now reply d = (x, d')"
  obtains (silent) "d' = d" and "\<exists>e. x = Inl e"
    | (sent) c where "loadConnection w connectionId owner mode method d = Inr c"
        and "nwc_payments d' = nwc_payments d" and "map conn_key (nwc_connections d') = map conn_key (nwc_connections d)"
        and "wire d' = wire d @ [\<lparr>rq_connection = c, rq_method = method, rq_params = params, rq_reply = reply\<rparr>]"
        and "\<And>r. x = Inr r \<Longrightarrow> reply = WR_response r"
  using assms
  by (fastforce simp: connector_request_def Let_def conn_key_def update_connection_keys split: sum.splits wallet_reply.splits)

text \<open>The statements that only edit payments.\<close>

definition only_edits :: "'a nwc_db_scheme \<Rightarrow> 'a nwc_db_scheme \<Rightarrow> bool" where
  "only_edits d' d \<longleftrightarrow> map pay_key (nwc_payments d') = map pay_key (nwc_payments d) \<and> wire d' = wire d
     \<and> nwc_connections d' = nwc_connections d"

lemma only_edits_refl [simp]: "only_edits d d"
  by (simp add: only_edits_def)

lemma only_edits_trans: "only_edits d2 d1 \<Longrightarrow> only_edits d1 d \<Longrightarrow> only_edits d2 d"
  by (simp add: only_edits_def)

lemma only_edits_audit [simp]: "only_edits (writeAuditLog a b c e d') d \<longleftrightarrow> only_edits d' d"
  by (simp add: only_edits_def writeAuditLog_def)

lemma edit_payment_only:
  "edit_payment p f d = (r, d') \<Longrightarrow> (\<And>x. pay_key (f x) = pay_key x) \<Longrightarrow> only_edits d' d"
  by (auto simp: edit_payment_def find_and_update_def only_edits_def map_update_first split: option.splits)

lemma edit_keys [simp]:
  "pay_key (succeeded_payment r b now p) = pay_key p" "pay_key (uncertain_payment e now p) = pay_key p"
  "pay_key (failed_payment c now p) = pay_key p" "pay_key (pending_payment now p) = pay_key p"
  by (simp_all add: pay_key_def succeeded_payment_def uncertain_payment_def failed_payment_def pending_payment_def)

lemma persist_only: "persistNwcSuccess i r b now d = (x, d') \<Longrightarrow> only_edits d' d"
  by (auto simp: persistNwcSuccess_def split: prod.splits option.splits if_splits dest: edit_payment_only)

lemma uncertain_only: "markNwcUncertain i e now d = (x, d') \<Longrightarrow> only_edits d' d"
  by (auto simp: markNwcUncertain_def split: prod.splits option.splits dest: edit_payment_only)

lemma failed_only: "markNwcFailed i c now d = (x, d') \<Longrightarrow> only_edits d' d"
  by (auto simp: markNwcFailed_def split: prod.splits option.splits dest: edit_payment_only)

lemma apply_lookup_only: "apply_lookup i x now d = (r, d') \<Longrightarrow> only_edits d' d"
  by (auto simp: apply_lookup_def as_dto_def
      split: prod.splits sum.splits intent_status.splits option.splits
      dest: persist_only uncertain_only failed_only edit_payment_only)

lemma refused_only: "payment_refused i c owner e now d = (r, d') \<Longrightarrow> only_edits d' d"
  by (auto simp: payment_refused_def split: prod.splits sum.splits if_splits dest: uncertain_only failed_only)

lemma conclude_only: "conclude_payment i c owner x now d = (r, d') \<Longrightarrow> only_edits d' d"
  by (auto simp: conclude_payment_def split: prod.splits sum.splits
      dest!: persist_only refused_only intro: only_edits_trans)

lemma submitted_only: "only_edits (mark_submitted i leaseId now d) d"
  unfolding mark_submitted_def
  by (cases "edit_payment (\<lambda>p. np_paymentId p = i \<and> np_executionLeaseId p = Some leaseId) (\<lambda>p. p\<lparr>np_submittedAt := Some now\<rparr>) d")
    (auto dest: edit_payment_only simp: pay_key_def)

text \<open>The requests.\<close>

lemma lookup_effect:
  assumes "lookup_payment w p now reply d = (x, d')"
  shows "nwc_payments d' = nwc_payments d" and "map conn_key (nwc_connections d') = map conn_key (nwc_connections d)"
    and "wire d' = wire d \<or> (\<exists>r. wire d' = wire d @ [r] \<and> rq_method r = ''lookup_invoice'')"
  using assms
  by (auto simp: lookup_payment_def connector_lookup_def split: if_splits option.splits prod.splits sum.splits
      elim!: connector_request_cases)

lemma send_effect:
  assumes "send_payment w paymentId i v q now reply d = (x, d')" and "decodes w v"
  obtains (silent) "d' = d" and "\<exists>e. x = Inl e"
    | (sent) c where "c \<in> set (nwc_connections d)" and "nwc_connectionId c = trim (py_connectionId i)"
        and "nwc_payments d' = nwc_payments d" and "map conn_key (nwc_connections d') = map conn_key (nwc_connections d)"
        and "wire d' = wire d @ [\<lparr>rq_connection = c, rq_method = ''pay_invoice'',
               rq_params = [(''invoice'', JStr (di_invoice v))], rq_reply = reply\<rparr>]"
  using assms(1)
proof (cases "trim (py_connectionId i) = []")
  case False
  let ?i = "paymentIntent paymentId (py_idempotencyKey i) v"
  show ?thesis
  proof (cases "decodeLightningInvoice w (di_invoice v) (di_network v) (Some (di_amountAtomic v)) now")
    case (Inl e)
    with assms(1) False show ?thesis by (intro silent) (auto simp: send_payment_def execute_payment_def paymentIntent_def)
  next
    case (Inr v')
    note again = decode_again [OF assms(2) Inr]
    from assms(1) False Inr again consider
        "d' = d" "\<exists>e. x = Inl e"
      | y where "connector_request w (trim (py_connectionId i)) (Some (py_ownerWalletId i)) (pay_mode i) ''pay_invoice''
                  [(''invoice'', JStr (di_invoice v))] now reply d = (y, d')" "\<forall>e. y = Inl e \<longrightarrow> x = Inl e"
      by (auto simp: send_payment_def execute_payment_def paymentIntent_def split: if_splits prod.splits sum.splits)
    thus ?thesis
    proof cases
      case 2
      from 2(1) show ?thesis
        by (cases rule: connector_request_cases) (use 2(2) in \<open>auto dest: loadConnectionD intro: silent sent\<close>)
    qed (rule silent)
  qed
qed (auto simp: send_payment_def execute_payment_def intro: silent)

subsection \<open>An invoice is sent once\<close>

definition pay_keys :: "'a nwc_db_scheme \<Rightarrow> (string \<times> string \<times> string) list" where
  "pay_keys d = map pay_key (nwc_payments d)"

definition conn_keys :: "'a nwc_db_scheme \<Rightarrow> (string \<times> string \<times> string) list" where
  "conn_keys d = map conn_key (nwc_connections d)"

lemma only_editsD:
  assumes "only_edits d' d"
  shows "pay_keys d' = pay_keys d" and "conn_keys d' = conn_keys d" and "wire d' = wire d"
  using assms by (simp_all add: only_edits_def pay_keys_def conn_keys_def)

fun task_ready :: "nwc_world \<Rightarrow> 'a nwc_db_scheme \<Rightarrow> nwc_task \<Rightarrow> bool" where
  "task_ready w d (TK_send paymentId i v q c) \<longleftrightarrow> decodes w v
     \<and> (paymentId, py_ownerWalletId i, di_paymentHash v) \<in> set (pay_keys d)
     \<and> (py_connectionId i, py_ownerWalletId i, di_network v) \<in> set (conn_keys d)
     \<and> (\<forall>r\<in>set (wire d). \<not> pays w (py_ownerWalletId i) (di_paymentHash v) r)"
| "task_ready w d t \<longleftrightarrow> True"

fun sends :: "nwc_task list \<Rightarrow> string list" where
  "sends [] = []"
| "sends (TK_send paymentId i v q c # T) = paymentId # sends T"
| "sends (t # T) = sends T"

definition pay_once :: "nwc_world \<Rightarrow> 'a nwc_db_scheme \<times> nwc_task list \<Rightarrow> bool" where
  "pay_once w s = (case s of (d, T) \<Rightarrow>
     distinct (map fst (pay_keys d)) \<and> distinct (map snd (pay_keys d)) \<and> distinct (map fst (conn_keys d))
     \<and> (\<forall>k\<in>set (conn_keys d). trim (fst k) = fst k) \<and> (\<forall>t\<in>set T. task_ready w d t) \<and> distinct (sends T)
     \<and> (\<forall>r\<in>set (wire d). \<forall>h. request_hash w r = Some h
          \<longrightarrow> (nwc_ownerWalletId (rq_connection r), h) \<in> snd ` set (pay_keys d))
     \<and> (\<forall>owner h. length (filter (pays w owner h) (wire d)) \<le> 1))"

lemma sends_iff: "i \<in> set (sends T) \<longleftrightarrow> (\<exists>x v q c. TK_send i x v q c \<in> set T)"
  by (induction T rule: sends.induct) auto

lemma sends_remove: "set (sends (remove1 t T)) \<subseteq> set (sends T)" "distinct (sends T) \<Longrightarrow> distinct (sends (remove1 t T))"
proof -
  show *: "set (sends (remove1 t T)) \<subseteq> set (sends T)" for T by (induction T rule: sends.induct) auto
  show "distinct (sends T) \<Longrightarrow> distinct (sends (remove1 t T))"
    by (induction T rule: sends.induct) (use * in auto)
qed

lemma sends_removed: "distinct (sends T) \<Longrightarrow> TK_send i x v q c \<in> set T \<Longrightarrow> i \<notin> set (sends (remove1 (TK_send i x v q c) T))"
  by (induction T rule: sends.induct) (auto simp: sends_iff)

lemma pay_once_remove: "pay_once w (d, T) \<Longrightarrow> pay_once w (d, remove1 t T)"
  using set_remove1_subset [of t T] by (fastforce simp: pay_once_def sends_remove)

lemma pay_once_cons: "pay_once w (d, T) \<Longrightarrow> sends [t] = [] \<Longrightarrow> pay_once w (d, t # T)"
  by (cases t) (auto simp: pay_once_def)

lemma ready_frame:
  assumes "task_ready w d t" and "set (pay_keys d) \<subseteq> set (pay_keys d')" and "set (conn_keys d) \<subseteq> set (conn_keys d')"
    and "wire d' = wire d @ rs" and "\<forall>r\<in>set rs. request_hash w r = None"
  shows "task_ready w d' t"
  using assms by (cases t) (auto simp: pays_def)

lemma pay_once_frame:
  assumes "pay_once w (d, T)" and "pay_keys d' = pay_keys d" and "conn_keys d' = conn_keys d"
    and "wire d' = wire d @ rs" and "\<forall>r\<in>set rs. request_hash w r = None"
  shows "pay_once w (d', T)"
proof -
  have "filter (pays w owner h) rs = []" for owner h using assms(5) by (auto simp: filter_empty_conv pays_def)
  moreover have "\<forall>t\<in>set T. task_ready w d' t" using assms ready_frame [OF _ _ _ assms(4,5)] by (auto simp: pay_once_def)
  ultimately show ?thesis using assms by (auto simp: pay_once_def)
qed

lemma pay_once_edits: "pay_once w (d, T) \<Longrightarrow> only_edits d' d \<Longrightarrow> pay_once w (d', T)"
  by (rule pay_once_frame [where rs = "[]"]) (simp_all add: only_editsD)

lemma silent_methods: "rq_method r \<noteq> ''pay_invoice'' \<Longrightarrow> request_hash w r = None"
  by (simp add: request_hash_def)

lemma pay_once_connection:
  assumes "pay_once w (d, T)" and "pay_keys d' = pay_keys d" and "conn_keys d' = conn_keys d @ [k]" and "wire d' = wire d"
    and "fst k \<notin> fst ` set (conn_keys d)" and "trim (fst k) = fst k"
  shows "pay_once w (d', T)"
proof -
  have "\<forall>t\<in>set T. task_ready w d' t" using assms ready_frame [of w d _ d' "[]"] by (auto simp: pay_once_def)
  thus ?thesis using assms by (auto simp: pay_once_def)
qed

lemma pay_once_payment:
  assumes "pay_once w (d, T)" and "pay_keys d' = pay_keys d @ [k]" and "conn_keys d' = conn_keys d" and "wire d' = wire d"
    and "fst k \<notin> fst ` set (pay_keys d)" and "snd k \<notin> snd ` set (pay_keys d)"
  shows "pay_once w (d', T)" and "fst k \<notin> set (sends T)"
    and "\<forall>r\<in>set (wire d'). \<not> pays w (fst (snd k)) (snd (snd k)) r"
proof -
  have ready: "\<forall>t\<in>set T. task_ready w d' t"
    using assms ready_frame [of w d _ d' "[]"] subset_insertI [of "set (pay_keys d)" k] by (simp add: pay_once_def)
  thus "pay_once w (d', T)" using assms by (auto simp: pay_once_def)
  have "\<forall>t\<in>set T. task_ready w d t" using assms(1) by (simp add: pay_once_def)
  hence "(fst k, py_ownerWalletId x, di_paymentHash v) \<in> set (pay_keys d)" if "TK_send (fst k) x v q c \<in> set T" for x v q c
    using that by (metis task_ready.simps(1))
  hence "fst k \<in> fst ` set (pay_keys d)" if "TK_send (fst k) x v q c \<in> set T" for x v q c
    using that by (metis fst_conv image_eqI)
  thus "fst k \<notin> set (sends T)" using assms(5) by (auto simp: sends_iff)
  have "(nwc_ownerWalletId (rq_connection r), h) \<in> snd ` set (pay_keys d)"
    if "r \<in> set (wire d)" "request_hash w r = Some h" for r h using assms(1) that by (simp add: pay_once_def)
  thus "\<forall>r\<in>set (wire d'). \<not> pays w (fst (snd k)) (snd (snd k)) r"
    using assms(4,6) by (metis pays_def prod.collapse)
qed

lemma send_keeps_pay_once:
  assumes ok: "pay_once w (d, T)" and t: "TK_send paymentId i v q c \<in> set T"
    and sent: "send_payment w paymentId i v q now reply d = (x, d')"
  shows "pay_once w (d', remove1 (TK_send paymentId i v q c) T)" (is "pay_once w (d', ?T)")
proof -
  have all: "\<forall>s\<in>set T. task_ready w d s" using ok by (simp add: pay_once_def)
  note ready = bspec [OF all t]
  hence dec: "decodes w v" by simp
  note rest = pay_once_remove [OF ok, of "TK_send paymentId i v q c"]
  from sent dec show ?thesis
  proof (cases rule: send_effect)
    case silent
    with rest show ?thesis by simp
  next
    case (sent c')
    have "conn_key c' = (py_connectionId i, py_ownerWalletId i, di_network v)"
    proof (rule ccontr)
      assume ne: "conn_key c' \<noteq> (py_connectionId i, py_ownerWalletId i, di_network v)"
      have k: "(py_connectionId i, py_ownerWalletId i, di_network v) \<in> set (conn_keys d)" using ready by simp
      have "trim (py_connectionId i) = py_connectionId i" using ok k by (force simp: pay_once_def)
      hence "fst (conn_key c') = py_connectionId i" using sent(2) by (simp add: conn_key_def)
      moreover have "conn_key c' \<in> set (conn_keys d)" using sent(1) by (simp add: conn_keys_def)
      ultimately show False using ok k ne by (force simp: pay_once_def distinct_map inj_on_def)
    qed
    hence key: "nwc_ownerWalletId c' = py_ownerWalletId i" "nwc_network c' = di_network v" by (simp_all add: conn_key_def)
    let ?r = "\<lparr>rq_connection = c', rq_method = ''pay_invoice'', rq_params = [(''invoice'', JStr (di_invoice v))], rq_reply = reply\<rparr>"
    have hash: "request_hash w ?r = Some (di_paymentHash v)" using dec key(2) by (auto simp: request_hash_def decodes_def)
    have keys: "pay_keys d' = pay_keys d" "conn_keys d' = conn_keys d" using sent(3,4) by (simp_all add: pay_keys_def conn_keys_def)
    have own: "(paymentId, py_ownerWalletId i, di_paymentHash v) \<in> set (pay_keys d)" using ready by simp
    have "task_ready w d' s" if "s \<in> set ?T" for s
    proof (cases s)
      case (TK_send p' i' v' q' c'')
      have s: "task_ready w d s" using that all notin_set_remove1 [of s T] by blast
      have "p' \<noteq> paymentId" using that ok t sends_removed [of T paymentId i v q c] unfolding TK_send
        by (auto simp: pay_once_def sends_iff)
      moreover have "(p', py_ownerWalletId i', di_paymentHash v') \<in> set (pay_keys d)" using s TK_send by simp
      ultimately have "(py_ownerWalletId i', di_paymentHash v') \<noteq> (py_ownerWalletId i, di_paymentHash v)"
        using ok own by (force simp: pay_once_def distinct_map inj_on_def)
      thus ?thesis using s TK_send keys sent(5) hash key by (auto simp: pays_def)
    qed simp_all
    moreover have "length (filter (pays w owner h) (wire d')) \<le> 1" for owner h
    proof (cases "pays w owner h ?r")
      case True
      hence "owner = py_ownerWalletId i" "h = di_paymentHash v" using hash key by (simp_all add: pays_def)
      hence "filter (pays w owner h) (wire d) = []" using ready by (simp add: filter_empty_conv)
      with True sent(5) show ?thesis by simp
    next
      case False
      with ok sent(5) show ?thesis by (simp add: pay_once_def)
    qed
    moreover have "(nwc_ownerWalletId (rq_connection r), h) \<in> snd ` set (pay_keys d)"
      if "r \<in> set (wire d')" "request_hash w r = Some h" for r h
    proof (cases "r = ?r")
      case True
      with that(2) hash key(1) own show ?thesis by (force intro: rev_image_eqI)
    next
      case False
      with that sent(5) ok show ?thesis by (auto simp: pay_once_def)
    qed
    ultimately show ?thesis using rest keys unfolding pay_once_def by simp
  qed
qed

lemma pair_effect:
  assumes "pairNwcConnection w connectionId i owner found reply now d = (r, d')"
  obtains "d' = d"
    | k where "pay_keys d' = pay_keys d" and "wire d' = wire d" and "conn_keys d' = conn_keys d @ [k]"
        and "fst k = connectionId" and "fst k \<notin> fst ` set (conn_keys d)"
  using assms
  by (fastforce simp: pairNwcConnection_def Let_def insert_row_Some nwc_connection_clash_def new_connection_def pay_keys_def
      conn_keys_def conn_key_def writeAuditLog_def list_ex_iff split: sum.splits prod.splits option.splits)

lemma balance_effect:
  assumes "getBalance w connectionId owner now reply d = (x, d')"
  shows "pay_keys d' = pay_keys d" and "conn_keys d' = conn_keys d"
    and "\<exists>rs. wire d' = wire d @ rs \<and> (\<forall>r\<in>set rs. request_hash w r = None)"
  using assms
  by (auto simp: getBalance_def pay_keys_def conn_keys_def request_hash_def
      split: prod.splits sum.splits elim!: connector_request_cases)

lemma connection_edit_keys:
  "find_and_update p f (nwc_connections d) = Some (c, cs) \<Longrightarrow> (\<And>x. conn_key (f x) = conn_key x)
    \<Longrightarrow> map conn_key cs = map conn_key (nwc_connections d)"
  by (auto simp: find_and_update_def map_update_first split: option.splits)

lemma sync_effect:
  assumes "syncNwcBalance w connectionId owner now reply d = (x, d')"
  shows "pay_keys d' = pay_keys d" and "conn_keys d' = conn_keys d"
    and "\<exists>rs. wire d' = wire d @ rs \<and> (\<forall>r\<in>set rs. request_hash w r = None)"
proof -
  obtain b d1 where b: "getBalance w connectionId owner now reply d = (b, d1)" by fastforce
  have "pay_keys d' = pay_keys d1 \<and> conn_keys d' = conn_keys d1 \<and> wire d' = wire d1"
    using assms b
    by (auto simp: syncNwcBalance_def pay_keys_def conn_keys_def conn_key_def writeAuditLog_def
        split: sum.splits option.splits dest!: connection_edit_keys)
  thus "pay_keys d' = pay_keys d" "conn_keys d' = conn_keys d"
    "\<exists>rs. wire d' = wire d @ rs \<and> (\<forall>r\<in>set rs. request_hash w r = None)"
    using balance_effect [OF b] by simp_all
qed

lemma disconnect_effect:
  assumes "disconnectNwcConnection connectionId owner reason now d = (x, d')"
  shows "only_edits d' d \<or> pay_keys d' = pay_keys d \<and> conn_keys d' = conn_keys d \<and> wire d' = wire d"
  using assms
  by (auto simp: disconnectNwcConnection_def pay_keys_def conn_keys_def conn_key_def writeAuditLog_def
      split: option.splits dest!: connection_edit_keys)

lemma begin_created:
  assumes "begin_payment w paymentId leaseId i now d = (PY_created c v, d1)"
  shows "pay_keys d1 = pay_keys d @ [(paymentId, py_ownerWalletId i, di_paymentHash v)]" and "conn_keys d1 = conn_keys d"
    and "wire d1 = wire d" and "paymentId \<notin> fst ` set (pay_keys d)"
    and "(py_ownerWalletId i, di_paymentHash v) \<notin> snd ` set (pay_keys d)" and "decodes w v"
    and "(py_connectionId i, py_ownerWalletId i, di_network v) \<in> set (conn_keys d)"
    and "nwc_payments d1 = nwc_payments d @ [new_payment w paymentId leaseId i v now]"
proof -
  have never: "replay_payment b f m now x \<noteq> PY_created c' v'" for b f m x c' v' by (simp add: replay_payment_def)
  obtain c' v' where checks: "pay_checks w i now d = Inr (c', v')" and made: "create_payment w paymentId leaseId i c' v' now d = (PY_created c v, d1)"
    using assms by (auto simp: begin_payment_def never split: sum.splits option.splits)
  from made have eq: "c' = c" "v' = v" and ins: "insert_row (nwc_payment_clash (new_payment w paymentId leaseId i v now))
      (new_payment w paymentId leaseId i v now) (nwc_payments d) = Some (nwc_payments d1)"
    and d1: "d1 = d\<lparr>nwc_payments := nwc_payments d1\<rparr>"
    by (auto simp: create_payment_def Let_def never split: option.splits)
  show "pay_keys d1 = pay_keys d @ [(paymentId, py_ownerWalletId i, di_paymentHash v)]"
    using ins by (simp add: insert_row_Some pay_keys_def pay_key_def new_payment_def)
  show "nwc_payments d1 = nwc_payments d @ [new_payment w paymentId leaseId i v now]"
    using ins by (simp add: insert_row_Some)
  show "paymentId \<notin> fst ` set (pay_keys d)" "(py_ownerWalletId i, di_paymentHash v) \<notin> snd ` set (pay_keys d)"
    using ins by (auto simp: insert_row_Some pay_keys_def pay_key_def new_payment_def nwc_payment_clash_def list_ex_iff)
  show "conn_keys d1 = conn_keys d" "wire d1 = wire d" by (subst d1, simp add: conn_keys_def)+
  have c: "List.find (active_connection (py_connectionId i) (py_ownerWalletId i)) (nwc_connections d) = Some c"
    and v: "decodeLightningInvoice w (py_invoice i) (nwc_network c) None now = Inr v"
    using checks eq by (auto simp: pay_checks_def split: option.splits)
  show "decodes w v" using decodeD [OF v] by simp
  have "c \<in> set (nwc_connections d)" "active_connection (py_connectionId i) (py_ownerWalletId i) c"
    using c by (auto simp: find_Some_iff)
  thus "(py_connectionId i, py_ownerWalletId i, di_network v) \<in> set (conn_keys d)"
    using decodeD(2) [OF v] by (force simp: active_connection_def conn_keys_def conn_key_def)
qed

lemma begin_keeps_pay_once:
  assumes "pay_once w (d, T)" and "begin_payment w paymentId leaseId i now d = (PY_created c v, d1)"
  shows "pay_once w (mark_submitted paymentId leaseId now d1, TK_send paymentId i v q c # T)"
proof -
  note b = begin_created [OF assms(2)]
  note new = pay_once_payment [OF assms(1) b(1-3), simplified, OF b(4,5)]
  have "task_ready w d1 (TK_send paymentId i v q c)" using b new(3) by simp
  hence "pay_once w (d1, TK_send paymentId i v q c # T)" using new(1,2) by (simp add: pay_once_def)
  thus ?thesis by (rule pay_once_edits) (rule submitted_only)
qed

lemma nwc_step_pay_once:
  assumes "nwc_step w s s'" and "pay_once w s"
  shows "pay_once w s'"
  using assms
proof cases
  case (pair connectionId i owner found reply now d r d' T)
  from pair(3) show ?thesis
  proof (cases rule: pair_effect)
    case (2 k)
    with pair assms(2) show ?thesis by (auto intro: pay_once_connection)
  qed (use pair assms(2) in simp)
next
  case (sync connectionId owner now reply d r d' T)
  with assms(2) sync_effect [OF sync(3)] show ?thesis by (auto intro: pay_once_frame)
next
  case (disconnect connectionId owner reason now d r' d' T)
  with assms(2) disconnect_effect [OF disconnect(3)] show ?thesis
    by (auto intro: pay_once_edits pay_once_frame [where rs = "[]"])
next
  case (start paymentId leaseId i now d c v d1 q T)
  with assms(2) show ?thesis by (auto intro: begin_keeps_pay_once)
next
  case (unquoted paymentId leaseId i now d c v d1 T)
  hence "pay_once w (mark_submitted paymentId leaseId now d1,
      remove1 (TK_send paymentId i v undefined c) (TK_send paymentId i v undefined c # T))"
    using assms(2) by (intro pay_once_remove begin_keeps_pay_once) simp_all
  with unquoted show ?thesis by simp
next
  case (send paymentId i v q c T now reply d x d')
  with assms(2) show ?thesis by (auto intro!: pay_once_cons send_keeps_pay_once)
next
  case (conclude paymentId c owner x T now d r'' d')
  with assms(2) conclude_only [OF conclude(4)] show ?thesis by (auto intro!: pay_once_remove intro: pay_once_edits)
next
  case (look_up p d now reply x d' T)
  have "pay_once w (d', T)"
    using assms(2) look_up lookup_effect [OF look_up(4)]
    by (auto simp: pay_keys_def conn_keys_def silent_methods intro: pay_once_frame [where rs = "[]"]
        intro: pay_once_frame [where rs = "[r]" for r])
  with look_up show ?thesis by (simp add: pay_once_cons)
next
  case (store paymentId x T now d r'' d')
  with assms(2) apply_lookup_only [OF store(4)] show ?thesis by (auto intro!: pay_once_remove intro: pay_once_edits)
next
  case (stop t T d)
  with assms(2) show ?thesis by (simp add: pay_once_remove)
next
  case (others d' d T)
  with assms(2) show ?thesis by (auto simp: pay_keys_def conn_keys_def intro!: pay_once_frame [where rs = "[]" and d = d])
qed

lemma nwc_run_pay_once: "(nwc_step w)\<^sup>*\<^sup>* s s' \<Longrightarrow> pay_once w s \<Longrightarrow> pay_once w s'"
  by (induction rule: rtranclp_induct) (blast intro: nwc_step_pay_once)+

text \<open>
  Property C28: however the calls of the NWC service interleave, and whatever the wallet answers or leaves
  unanswered, at most one payment request is ever sent for an owner and a payment hash, and it belongs
  to a stored payment of that owner and hash.
\<close>

theorem nwc_pays_once:
  assumes "(nwc_step w)\<^sup>*\<^sup>* (d, []) (d', T)" and "nwc_payments d = []" and "wire d = []"
    and "distinct (map nwc_connectionId (nwc_connections d))"
    and "\<And>c. c \<in> set (nwc_connections d) \<Longrightarrow> trim (nwc_connectionId c) = nwc_connectionId c"
  shows "length (filter (pays w owner h) (wire d')) \<le> 1
    \<and> ((\<exists>r\<in>set (wire d'). pays w owner h r) \<longrightarrow>
        (\<exists>p\<in>set (nwc_payments d'). np_ownerWalletId p = owner \<and> np_paymentHash p = h))"
proof -
  have "distinct (map fst (conn_keys d))" using assms(4) by (simp add: conn_keys_def conn_key_def comp_def)
  hence "pay_once w (d, [])" using assms(2,3,5) by (auto simp: pay_once_def pay_keys_def conn_keys_def conn_key_def)
  from nwc_run_pay_once [OF assms(1) this] have ok: "pay_once w (d', T)" .
  have "\<exists>p\<in>set (nwc_payments d'). np_ownerWalletId p = owner \<and> np_paymentHash p = h"
    if "r \<in> set (wire d')" "pays w owner h r" for r
    using that ok by (fastforce simp: pay_once_def pays_def pay_keys_def pay_key_def)
  with ok show ?thesis by (auto simp: pay_once_def)
qed

end
