(* ===== verification/Nwc_Proofs.thy ===== *)
theory Nwc_Proofs
  imports Nwc_Safety
begin

section \<open>Succeeded payments, and how an outcome can get lost\<close>

text \<open>
  A payment document only becomes succeeded when the wallet has answered with a preimage that hashes to
  the payment hash. Two behaviours of reconciliation are recorded at the end: an error answer to a
  lookup is stored as a failed payment, and a late answer overwrites a success.
\<close>

definition proves :: "nwc_world \<Rightarrow> string \<Rightarrow> nwc_request \<Rightarrow> bool" where
  "proves w h r =
     (case rq_reply r of
        WR_response x \<Rightarrow>
          (case wr_result x of
             Some m \<Rightarrow> (case json_field ''preimage'' m of
                 Some (JStr v) \<Rightarrow> verifyLightningPreimage w (toLowerCase (trim v)) h | _ \<Rightarrow> False)
           | None \<Rightarrow> False)
      | _ \<Rightarrow> False)"

definition proved :: "nwc_world \<Rightarrow> 'a nwc_db_scheme \<Rightarrow> string \<Rightarrow> bool" where
  "proved w d h \<longleftrightarrow> (\<exists>r\<in>set (wire d). proves w h r)"

definition verified :: "payment_result \<Rightarrow> bool" where
  "verified r \<longleftrightarrow> (case pr_proof r of None \<Rightarrow> False | Some q \<Rightarrow> pf_preimageVerified q)"

definition names_proved :: "nwc_world \<Rightarrow> 'a nwc_db_scheme \<Rightarrow> string \<Rightarrow> payment_result \<Rightarrow> bool" where
  "names_proved w d paymentId r \<longleftrightarrow> verified r \<and> (\<exists>owner h. (paymentId, owner, h) \<in> set (pay_keys d) \<and> proved w d h)"

fun task_proved :: "nwc_world \<Rightarrow> 'a nwc_db_scheme \<Rightarrow> nwc_task \<Rightarrow> bool" where
  "task_proved w d (TK_send paymentId i v q c) \<longleftrightarrow> decodes w v \<and> (paymentId, py_ownerWalletId i, di_paymentHash v) \<in> set (pay_keys d)"
| "task_proved w d (TK_conclude paymentId c owner x) \<longleftrightarrow> (case x of Inl e \<Rightarrow> True | Inr r \<Rightarrow> names_proved w d paymentId r)"
| "task_proved w d (TK_apply paymentId x) \<longleftrightarrow>
     (case x of Inl e \<Rightarrow> True | Inr r \<Rightarrow> pr_status r = IN_succeeded \<longrightarrow> names_proved w d paymentId r)"

definition payment_proved :: "nwc_world \<Rightarrow> 'a nwc_db_scheme \<Rightarrow> nwc_payment \<Rightarrow> bool" where
  "payment_proved w d p \<longleftrightarrow> toLowerCase (np_paymentHash p) = np_paymentHash p
     \<and> (np_status p = NS_succeeded \<longrightarrow> np_preimageVerified p \<and> proved w d (np_paymentHash p))"

definition all_proved :: "nwc_world \<Rightarrow> 'a nwc_db_scheme \<times> nwc_task list \<Rightarrow> bool" where
  "all_proved w s = (case s of (d, T) \<Rightarrow>
     (\<forall>p\<in>set (nwc_payments d). payment_proved w d p) \<and> (\<forall>t\<in>set T. task_proved w d t))"

subsection \<open>Answers of the wallet\<close>

lemma paid_result_proof:
  assumes "paid_result w i amount h fee r m = Inr res" and "wr_result r = Some m"
  shows "pr_status res = IN_succeeded" and "verified res"
    and "proves w h \<lparr>rq_connection = c, rq_method = method, rq_params = params, rq_reply = WR_response r\<rparr>"
  using assms
  by (auto simp: paid_result_def verified_def proves_def requiredString_def split: option.splits json.splits if_splits)

lemma remote_success: "ensureRemoteSuccess r = Inr m \<Longrightarrow> wr_result r = Some m"
  by (simp add: ensureRemoteSuccess_def split: option.splits)

lemma lift_error_Inr [simp]: "lift_error x = Inr v \<longleftrightarrow> x = Inr v"
  by (simp add: lift_error_def split: sum.splits)

lemma send_proved:
  assumes "send_payment w paymentId i v q now reply d = (Inr r, d')" and "decodes w v"
  shows "verified r" and "proved w d' (di_paymentHash v)"
proof -
  obtain v' y where v': "decodeLightningInvoice w (di_invoice v) (di_network v) (Some (di_amountAtomic v)) now = Inr v'"
    and req: "connector_request w (trim (py_connectionId i)) (Some (py_ownerWalletId i)) (pay_mode i) ''pay_invoice''
          [(''invoice'', JStr (di_invoice v'))] now reply d = (Inr y, d')"
    and res: "(case ensureRemoteSuccess y of Inl e \<Rightarrow> Inl e | Inr m \<Rightarrow>
          lift_error (paid_result w paymentId (di_amountAtomic v) (di_paymentHash v') 0 y m)) = Inr r"
    using assms(1) by (auto simp: send_payment_def execute_payment_def paymentIntent_def split: if_splits sum.splits prod.splits)
  obtain m where m: "ensureRemoteSuccess y = Inr m" "paid_result w paymentId (di_amountAtomic v) (di_paymentHash v') 0 y m = Inr r"
    using res by (auto split: sum.splits)
  note hash = decode_again(2) [OF assms(2) v']
  from paid_result_proof [OF m(2) remote_success [OF m(1)]] show "verified r" by simp
  from req show "proved w d' (di_paymentHash v)"
    by (cases rule: connector_request_cases)
      (use paid_result_proof(3) [OF m(2) remote_success [OF m(1)]] hash in \<open>auto simp: proved_def\<close>)
qed

lemma lookup_proved:
  assumes "lookup_payment w p now reply d = (Inr r, d')" and "pr_status r = IN_succeeded"
  obtains x where "x \<in> set (nwc_payments d)" and "np_ownerWalletId x = np_ownerWalletId p"
    and "np_paymentHash x = toLowerCase (np_paymentHash p)" and "verified r" and "proved w d' (np_paymentHash x)"
proof -
  obtain x y where x: "List.find (\<lambda>x. np_ownerWalletId x = np_ownerWalletId p \<and> np_connectionId x = np_connectionId p
        \<and> np_paymentHash x = toLowerCase (np_paymentHash p) \<and> np_network x = np_network p) (nwc_payments d) = Some x"
    and req: "connector_request w (np_connectionId x) (Some (np_ownerWalletId x)) (np_executionMode x) ''lookup_invoice''
          [(''payment_hash'', JStr (np_paymentHash x))] now reply d = (Inr y, d')"
    and res: "lookup_result w x y = Inr r"
    using assms(1) by (auto simp: lookup_payment_def connector_lookup_def split: if_splits option.splits prod.splits sum.splits)
  obtain m where m: "ensureRemoteSuccess y = Inr m"
      "paid_result w (np_paymentId x) (np_amountAtomic x) (np_paymentHash x) (np_feeAtomic x) y m = Inr r"
    using res assms(2)
    by (auto simp: lookup_result_def unpaid_result_def Let_def lift_error_def bindE_def
        split: option.splits sum.splits if_splits)
  note shown = paid_result_proof [OF m(2) remote_success [OF m(1)]]
  from req have "proved w d' (np_paymentHash x)"
    by (cases rule: connector_request_cases) (use shown(3) in \<open>auto simp: proved_def\<close>)
  with x shown(2) show ?thesis by (intro that [of x]) (auto simp: find_Some_iff)
qed

subsection \<open>The invariant\<close>

lemma proved_mono: "proved w d h \<Longrightarrow> set (wire d) \<subseteq> set (wire d') \<Longrightarrow> proved w d' h"
  by (auto simp: proved_def)

lemma task_proved_mono:
  assumes "task_proved w d t" and "set (pay_keys d) \<subseteq> set (pay_keys d')" and "set (wire d) \<subseteq> set (wire d')"
  shows "task_proved w d' t"
  using assms by (cases t) (auto simp: names_proved_def split: sum.splits intro: proved_mono)

lemma payment_proved_mono: "payment_proved w d p \<Longrightarrow> set (wire d) \<subseteq> set (wire d') \<Longrightarrow> payment_proved w d' p"
  by (auto simp: payment_proved_def intro: proved_mono)

lemma all_proved_frame:
  assumes "all_proved w (d, T)" and "nwc_payments d' = nwc_payments d" and "set (wire d) \<subseteq> set (wire d')"
  shows "all_proved w (d', T)"
  using assms by (auto simp: all_proved_def pay_keys_def intro: task_proved_mono payment_proved_mono)

lemma all_proved_audit [simp]: "all_proved w (writeAuditLog a b c e d, T) \<longleftrightarrow> all_proved w (d, T)"
  using all_proved_frame [of w d T "writeAuditLog a b c e d"] all_proved_frame [of w "writeAuditLog a b c e d" T d]
  by (auto simp: writeAuditLog_def)

lemma all_proved_remove: "all_proved w (d, T) \<Longrightarrow> all_proved w (d, remove1 t T)"
  using set_remove1_subset [of t T] by (auto simp: all_proved_def)

text \<open>Edits of one payment that keep it honest.\<close>

lemma all_proved_edit:
  assumes "all_proved w (d, T)" and "edit_payment P f d = (r, d')" and "\<And>p. pay_key (f p) = pay_key p"
    and "\<And>p. p \<in> set (nwc_payments d) \<Longrightarrow> P p \<Longrightarrow> payment_proved w d (f p)"
  shows "all_proved w (d', T)"
proof -
  have only: "only_edits d' d" by (rule edit_payment_only [OF assms(2,3)])
  have "payment_proved w d' p" if "p \<in> set (nwc_payments d')" for p
  proof -
    have "p \<in> set (nwc_payments d) \<or> (\<exists>x\<in>set (nwc_payments d). P x \<and> p = f x)"
      using that assms(2) by (auto simp: edit_payment_def find_and_update_def split: option.splits dest!: set_update_firstD)
    hence "payment_proved w d p" using assms(1,4) by (auto simp: all_proved_def)
    thus ?thesis by (rule payment_proved_mono) (simp add: only_editsD [OF only])
  qed
  moreover have "task_proved w d' t" if "t \<in> set T" for t
    using assms(1) that only_editsD [OF only] by (auto simp: all_proved_def intro: task_proved_mono)
  ultimately show ?thesis by (simp add: all_proved_def)
qed

lemma honest_edits:
  assumes "payment_proved w d p"
  shows "payment_proved w d (uncertain_payment e now p)" and "payment_proved w d (failed_payment c now p)"
    and "payment_proved w d (pending_payment now p)"
  using assms by (simp_all add: payment_proved_def uncertain_payment_def failed_payment_def pending_payment_def)

text \<open>Which edit each statement makes.\<close>

lemma edit_of_statement:
  shows "markNwcUncertain i e now d = (x, d') \<Longrightarrow> \<exists>r. edit_payment (\<lambda>p. np_paymentId p = i \<and> unsettled p) (uncertain_payment e now) d = (r, d')"
    and "markNwcFailed i c now d = (x, d') \<Longrightarrow> \<exists>r. edit_payment (\<lambda>p. np_paymentId p = i \<and> unsettled p) (failed_payment c now) d = (r, d')"
    and "persistNwcSuccess i q b now d = (x, d') \<Longrightarrow>
      \<exists>r. edit_payment (\<lambda>p. np_paymentId p = i \<and> unsettled p) (succeeded_payment q b now) d = (r, d')"
  by (auto simp: markNwcUncertain_def markNwcFailed_def persistNwcSuccess_def split: prod.splits option.splits if_splits)

lemma uncertain_proved:
  assumes "all_proved w (d, T)" and "markNwcUncertain i e now d = (x, d')"
  shows "all_proved w (d', T)"
proof -
  obtain r where "edit_payment (\<lambda>p. np_paymentId p = i \<and> unsettled p) (uncertain_payment e now) d = (r, d')"
    using edit_of_statement(1) [OF assms(2)] by blast
  with assms(1) show ?thesis by (rule all_proved_edit) (use assms(1) in \<open>auto simp: all_proved_def intro: honest_edits\<close>)
qed

lemma failed_proved:
  assumes "all_proved w (d, T)" and "markNwcFailed i c now d = (x, d')"
  shows "all_proved w (d', T)"
proof -
  obtain r where "edit_payment (\<lambda>p. np_paymentId p = i \<and> unsettled p) (failed_payment c now) d = (r, d')"
    using edit_of_statement(2) [OF assms(2)] by blast
  with assms(1) show ?thesis by (rule all_proved_edit) (use assms(1) in \<open>auto simp: all_proved_def intro: honest_edits\<close>)
qed

lemma persist_proved:
  assumes "all_proved w (d, T)" and "persistNwcSuccess i q b now d = (x, d')" and "names_proved w d i q"
    and "distinct (map fst (pay_keys d))"
  shows "all_proved w (d', T)"
proof -
  obtain r where "edit_payment (\<lambda>p. np_paymentId p = i \<and> unsettled p) (succeeded_payment q b now) d = (r, d')"
    using edit_of_statement(3) [OF assms(2)] by blast
  with assms(1) show ?thesis
  proof (rule all_proved_edit)
    fix p assume p: "p \<in> set (nwc_payments d)" "np_paymentId p = i \<and> unsettled p"
    obtain owner h where h: "(i, owner, h) \<in> set (pay_keys d)" "proved w d h" using assms(3) by (auto simp: names_proved_def)
    have "pay_key p \<in> set (pay_keys d)" "fst (pay_key p) = i" using p by (auto simp: pay_keys_def pay_key_def)
    hence "pay_key p = (i, owner, h)" using assms(4) h(1) by (force simp: distinct_map inj_on_def)
    hence "proved w d (np_paymentHash p)" using h(2) by (simp add: pay_key_def)
    thus "payment_proved w d (succeeded_payment q b now p)"
      using assms(1,3) p(1)
      by (auto simp: payment_proved_def succeeded_payment_def names_proved_def verified_def all_proved_def split: option.splits)
  qed simp
qed

lemma refused_proved: "all_proved w (d, T) \<Longrightarrow> payment_refused i c owner e now d = (x, d') \<Longrightarrow> all_proved w (d', T)"
  by (auto simp: payment_refused_def split: if_splits prod.splits sum.splits dest: uncertain_proved failed_proved
      intro: all_proved_frame)

lemma conclude_proved:
  assumes "all_proved w (d, T)" and "conclude_payment i c owner y now d = (x, d')" and "distinct (map fst (pay_keys d))"
    and "case y of Inl e \<Rightarrow> True | Inr r \<Rightarrow> names_proved w d i r"
  shows "all_proved w (d', T)"
  using assms
  by (auto simp: conclude_payment_def split: sum.splits prod.splits dest: refused_proved persist_proved intro: all_proved_frame)

lemma apply_proved:
  assumes "all_proved w (d, T)" and "apply_lookup i y now d = (x, d')" and "distinct (map fst (pay_keys d))"
    and "task_proved w d (TK_apply i y)"
  shows "all_proved w (d', T)"
proof (cases y)
  case (Inl e)
  with assms show ?thesis by (auto simp: apply_lookup_def as_dto_def split: prod.splits sum.splits dest: uncertain_proved)
next
  case (Inr r)
  have quiet: "all_proved w (d', T)" if "edit_payment (\<lambda>p. np_paymentId p = i) (pending_payment now) d = (s, d')" for s
    using assms(1) that by (rule all_proved_edit) (use assms(1) in \<open>auto simp: all_proved_def intro: honest_edits\<close>)
  show ?thesis
    using assms Inr quiet
    by (cases "pr_status r") (auto simp: apply_lookup_def as_dto_def split: prod.splits sum.splits option.splits
        dest: persist_proved failed_proved)
qed

lemma begin_proved:
  assumes "all_proved w (d, T)" and "begin_payment w paymentId leaseId i now d = (PY_created c v, d1)"
  shows "all_proved w (mark_submitted paymentId leaseId now d1, T)"
proof -
  note b = begin_created [OF assms(2)]
  have "toLowerCase (di_paymentHash v) = di_paymentHash v"
    using b(6) by (auto simp: decodes_def toLowerCase_def)
  hence "payment_proved w d1 (new_payment w paymentId leaseId i v now)" by (simp add: payment_proved_def new_payment_def)
  hence "all_proved w (d1, T)"
    using assms(1) b(1,3,8) by (auto simp: all_proved_def intro: task_proved_mono payment_proved_mono)
  moreover let ?P = "\<lambda>p. np_paymentId p = paymentId \<and> np_executionLeaseId p = Some leaseId"
  let ?f = "\<lambda>p. p\<lparr>np_submittedAt := Some now\<rparr> :: nwc_payment"
  have "edit_payment ?P ?f d1 = (fst (edit_payment ?P ?f d1), mark_submitted paymentId leaseId now d1)"
    by (simp add: mark_submitted_def)
  ultimately show ?thesis
    by (rule all_proved_edit) (use \<open>all_proved w (d1, T)\<close> in \<open>auto simp: pay_key_def all_proved_def payment_proved_def\<close>)
qed

lemma nwc_step_proved:
  assumes "nwc_step w s s'" and "pay_once w s" and "all_proved w s"
  shows "all_proved w s'"
proof -
  have ids: "distinct (map fst (pay_keys (fst s)))" "distinct (map snd (pay_keys (fst s)))"
    using assms(2) by (auto simp: pay_once_def split: prod.splits)
  from assms(1,3) ids show ?thesis
  proof cases
    case (pair connectionId i owner found reply now d r d' T)
    hence "nwc_payments d' = nwc_payments d \<and> wire d' = wire d"
      by (auto simp: pairNwcConnection_def Let_def writeAuditLog_def split: sum.splits prod.splits option.splits)
    with pair assms(3) show ?thesis by (auto intro: all_proved_frame)
  next
    case (sync connectionId owner now reply d r d' T)
    hence "nwc_payments d' = nwc_payments d \<and> set (wire d) \<subseteq> set (wire d')"
      by (auto simp: syncNwcBalance_def getBalance_def writeAuditLog_def split: prod.splits sum.splits option.splits
          elim!: connector_request_cases)
    with sync assms(3) show ?thesis by (auto intro: all_proved_frame)
  next
    case (disconnect connectionId owner reason now d r' d' T)
    hence "nwc_payments d' = nwc_payments d \<and> wire d' = wire d"
      by (auto simp: disconnectNwcConnection_def writeAuditLog_def split: option.splits)
    with disconnect assms(3) show ?thesis by (auto intro: all_proved_frame)
  next
    case (look_up p d now reply x d' T)
    note effect = lookup_effect [OF look_up(4)]
    have d': "all_proved w (d', T)" using assms(3) look_up effect by (auto intro: all_proved_frame)
    obtain p0 where p0: "p0 \<in> set (nwc_payments d)" "pay_key p0 = pay_key p" using look_up(3) by auto
    have "task_proved w d' (TK_apply (np_paymentId p) x)"
    proof (cases x)
      case (Inr r)
      show ?thesis
      proof (cases "pr_status r = IN_succeeded")
        case True
        from look_up(4) [unfolded Inr] True obtain y where y: "y \<in> set (nwc_payments d)" "np_ownerWalletId y = np_ownerWalletId p"
          "np_paymentHash y = toLowerCase (np_paymentHash p)" "verified r" "proved w d' (np_paymentHash y)" by (rule lookup_proved)
        have "toLowerCase (np_paymentHash p) = np_paymentHash p"
          using p0 assms(3) look_up(1) by (auto simp: all_proved_def payment_proved_def pay_key_def)
        with y p0 have "pay_key p0 \<in> set (pay_keys d')" "np_paymentHash y = np_paymentHash p"
          using effect(1) imageI [OF p0(1), of pay_key] by (simp_all add: pay_keys_def)
        with p0 y show ?thesis by (auto simp: Inr names_proved_def pay_key_def)
      qed (simp add: Inr)
    qed simp
    with d' look_up show ?thesis by (simp add: all_proved_def)
  next
    case (start paymentId leaseId i now d c v d1 q T)
    note b = begin_created [OF start(3)]
    have "all_proved w (mark_submitted paymentId leaseId now d1, T)" using assms(3) start by (auto intro: begin_proved)
    moreover have "task_proved w (mark_submitted paymentId leaseId now d1) (TK_send paymentId i v q c)"
      using b only_editsD(1) [OF submitted_only [of paymentId leaseId now d1]] by simp
    ultimately show ?thesis using start by (simp add: all_proved_def)
  next
    case (unquoted paymentId leaseId i now d c v d1 T)
    with assms(3) show ?thesis by (auto intro: begin_proved)
  next
    case (send paymentId i v q c T now reply d x d')
    have t: "decodes w v" "(paymentId, py_ownerWalletId i, di_paymentHash v) \<in> set (pay_keys d)"
      using assms(3) send(1,3) by (auto simp: all_proved_def)
    have same: "nwc_payments d' = nwc_payments d" "set (wire d) \<subseteq> set (wire d')"
      using t(1) by (auto elim!: send_effect [OF send(4)])
    have "all_proved w (d', remove1 (TK_send paymentId i v q c) T)"
      using assms(3) send same by (auto intro: all_proved_frame all_proved_remove)
    moreover have "task_proved w d' (TK_conclude paymentId c (py_ownerWalletId i) x)"
      using send_proved [of w paymentId i v q now reply d _ d'] send(4) t same(1)
      by (auto simp: names_proved_def pay_keys_def split: sum.splits)
    ultimately show ?thesis using send by (simp add: all_proved_def)
  next
    case (conclude paymentId c owner x T now d r'' d')
    hence "task_proved w d (TK_conclude paymentId c owner x)" using assms(3) by (auto simp: all_proved_def)
    with conclude assms(3) ids show ?thesis by (auto intro!: all_proved_remove elim: conclude_proved [rotated])
  next
    case (store paymentId x T now d r'' d')
    hence "task_proved w d (TK_apply paymentId x)" using assms(3) by (auto simp: all_proved_def)
    with store assms(3) ids show ?thesis by (auto intro!: all_proved_remove elim: apply_proved [rotated])
  next
    case (stop t T d)
    with assms(3) show ?thesis by (simp add: all_proved_remove)
  next
    case (others d' d T)
    with assms(3) show ?thesis by (auto intro: all_proved_frame)
  qed
qed

lemma nwc_run_proved:
  "(nwc_step w)\<^sup>*\<^sup>* s s' \<Longrightarrow> pay_once w s \<Longrightarrow> all_proved w s \<Longrightarrow> all_proved w s'"
  by (induction rule: rtranclp_induct) (blast intro: nwc_step_proved nwc_run_pay_once)+

text \<open>
  Property C29: however the calls of the NWC service interleave, a payment that is stored as succeeded
  carries the mark of a verified preimage, and some answer of the wallet held a preimage that hashes to
  its payment hash.
\<close>

theorem nwc_success_has_preimage:
  assumes "(nwc_step w)\<^sup>*\<^sup>* (d, []) (d', T)" and "nwc_payments d = []" and "wire d = []"
    and "distinct (map nwc_connectionId (nwc_connections d))"
    and "\<And>c. c \<in> set (nwc_connections d) \<Longrightarrow> trim (nwc_connectionId c) = nwc_connectionId c"
    and "p \<in> set (nwc_payments d')" and "np_status p = NS_succeeded"
  shows "np_preimageVerified p \<and> (\<exists>r\<in>set (wire d'). proves w (np_paymentHash p) r)"
proof -
  have "distinct (map fst (conn_keys d))" using assms(4) by (simp add: conn_keys_def conn_key_def comp_def)
  hence "pay_once w (d, [])" using assms(2,3,5) by (auto simp: pay_once_def pay_keys_def conn_keys_def conn_key_def)
  moreover have "all_proved w (d, [])" using assms(2) by (simp add: all_proved_def)
  ultimately have "all_proved w (d', T)" using nwc_run_proved [OF assms(1)] by blast
  with assms(6,7) show ?thesis by (simp add: all_proved_def payment_proved_def proved_def)
qed

subsection \<open>Outcomes that get lost\<close>

lemma find_refined:
  assumes "List.find p xs = Some x" and "\<And>y. q y \<Longrightarrow> p y" and "q x"
  shows "List.find q xs = Some x"
  using assms by (induction xs) (auto split: if_splits)

lemma edit_unique:
  assumes "x \<in> set (nwc_payments d)" and "distinct (map np_paymentId (nwc_payments d))" and "unsettled x"
  shows "edit_payment (\<lambda>p. np_paymentId p = np_paymentId x \<and> unsettled p) f d =
     (Some (f x), d\<lparr>nwc_payments := update_first (\<lambda>p. np_paymentId p = np_paymentId x \<and> unsettled p) f (nwc_payments d)\<rparr>)"
proof -
  have "List.find (\<lambda>p. np_paymentId p = np_paymentId x \<and> unsettled p) (nwc_payments d) = Some x"
    by (rule find_refined [OF find_unique_key [OF assms(2,1)]]) (use assms(3) in auto)
  thus ?thesis by (simp add: edit_payment_def find_and_update_def)
qed

text \<open>The first document of a selection, after an edit that keeps it selected.\<close>

lemma find_edited:
  assumes "List.find q xs = Some x" and "distinct (map np_paymentId xs)" and "\<And>y. q (f y) = q y" and "P x"
  shows "List.find q (update_first (\<lambda>y. np_paymentId y = np_paymentId x \<and> P y) f xs) = Some (f x)"
  using assms
proof (induction xs)
  case (Cons y ys)
  show ?case
  proof (cases "q y")
    case False
    with Cons.prems(1,2) have "np_paymentId y \<noteq> np_paymentId x" by (auto simp: find_Some_iff)
    with Cons False show ?thesis by simp
  qed (use Cons.prems in auto)
qed simp

lemma lookup_error:
  assumes "List.find (\<lambda>x. np_connectionId x = connectionId \<and> np_ownerWalletId x = owner \<and> np_paymentHash x = toLowerCase h)
      (nwc_payments d) = Some p"
    and "toLowerCase (np_paymentHash p) = np_paymentHash p" and "owner \<noteq> []" and "connectionId \<noteq> []"
    and "loadConnection w connectionId (Some owner) (np_executionMode p) ''lookup_invoice'' d = Inr c"
    and "wr_error r = Some e" and "e \<noteq> ''NOT_FOUND''"
  obtains d1 where "lookup_payment w p now (WR_response r) d = (Inr (unpaid_result p IN_failed (Some (''NWC_'' @ e))), d1)"
    and "nwc_payments d1 = nwc_payments d"
proof -
  have p: "np_connectionId p = connectionId" "np_ownerWalletId p = owner" "np_paymentHash p = toLowerCase h"
    using assms(1) by (auto simp: find_Some_iff)
  have "List.find (\<lambda>x. np_ownerWalletId x = owner \<and> np_connectionId x = connectionId \<and> np_paymentHash x = np_paymentHash p
      \<and> np_network x = np_network p) (nwc_payments d) = Some p"
    by (rule find_refined [OF assms(1)]) (use p in auto)
  with assms p that show ?thesis
    by (simp add: lookup_payment_def connector_lookup_def connector_request_def Let_def lookup_result_def)
qed

text \<open>
  Property C30: when the wallet answers the lookup of an open payment with any error but NOT_FOUND, for
  example because it limits the rate of requests, the payment is stored as failed although nothing is
  known about it. From then on every read of its status answers failed without asking the wallet, and
  leaves the database as it is.
\<close>

theorem lookup_error_is_final:
  assumes "List.find (\<lambda>x. np_connectionId x = connectionId \<and> np_ownerWalletId x = owner \<and> np_paymentHash x = toLowerCase h)
      (nwc_payments d) = Some p"
    and "unsettled p" and "distinct (map np_paymentId (nwc_payments d))"
    and "toLowerCase (np_paymentHash p) = np_paymentHash p" and "owner \<noteq> []" and "connectionId \<noteq> []"
    and "reconcile_connection p d = Inr ()"
    and "loadConnection w connectionId (Some owner) (np_executionMode p) ''lookup_invoice'' d = Inr c"
    and "wr_error r = Some e" and "e \<noteq> ''NOT_FOUND''"
  shows "\<exists>dto d'. getNwcPaymentStatus w connectionId owner h now later (WR_response r) d = (Inr dto, d') \<and> nd_status dto = ''failed''
    \<and> (\<forall>now' later' reply'. \<exists>dto'. getNwcPaymentStatus w connectionId owner h now' later' reply' d' = (Inr dto', d')
          \<and> nd_status dto' = ''failed'')"
proof -
  obtain d1 where d1: "lookup_payment w p now (WR_response r) d = (Inr (unpaid_result p IN_failed (Some (''NWC_'' @ e))), d1)"
    and same: "nwc_payments d1 = nwc_payments d"
    using lookup_error [OF assms(1,4-6,8-10)] by blast
  have p: "p \<in> set (nwc_payments d1)" using assms(1) same by (auto simp: find_Some_iff)
  let ?f = "failed_payment (''NWC_'' @ e) later"
  let ?d' = "d1\<lparr>nwc_payments := update_first (\<lambda>x. np_paymentId x = np_paymentId p \<and> unsettled x) ?f (nwc_payments d1)\<rparr>"
  have first: "getNwcPaymentStatus w connectionId owner h now later (WR_response r) d = (Inr (toPaymentDto (?f p)), ?d')"
    using assms(1,2,7) d1 edit_unique [OF p, of ?f] assms(2,3) same
    by (simp add: getNwcPaymentStatus_def reconcilePayment_def apply_lookup_def unpaid_result_def markNwcFailed_def as_dto_def)
  have stored: "List.find (\<lambda>x. np_connectionId x = connectionId \<and> np_ownerWalletId x = owner \<and> np_paymentHash x = toLowerCase h)
      (nwc_payments ?d') = Some (?f p)"
    using find_edited [OF assms(1,3), of ?f unsettled] assms(2) same by (simp add: failed_payment_def)
  have closed: "\<not> unsettled (?f p)" by (simp add: unsettled_def failed_payment_def)
  have again: "getNwcPaymentStatus w connectionId owner h now' later' reply' ?d' = (Inr (toPaymentDto (?f p)), ?d')"
    for now' later' reply' unfolding getNwcPaymentStatus_def stored using closed by simp
  have "nd_status (toPaymentDto (?f p)) = ''failed''" by (simp add: toPaymentDto_def failed_payment_def nwc_status_text_def)
  with first again show ?thesis by blast
qed

lemma persist_stored:
  assumes "persistNwcSuccess i r b t d = (Inr p, d')"
  shows "np_status p = NS_succeeded" and "p \<in> set (nwc_payments d')" and "np_paymentId p = i"
proof -
  let ?P = "\<lambda>x. np_paymentId x = i \<and> unsettled x"
  consider x where "List.find ?P (nwc_payments d) = Some x" "p = succeeded_payment r b t x"
      "nwc_payments d' = update_first ?P (succeeded_payment r b t) (nwc_payments d)"
    | "find_payment i d = Some p" "np_status p = NS_succeeded" "d' = d"
    using assms by (auto simp: persistNwcSuccess_def edit_payment_def find_and_update_def split: option.splits if_splits)
  hence "np_status p = NS_succeeded \<and> p \<in> set (nwc_payments d') \<and> np_paymentId p = i"
  proof cases
    case (1 x)
    thus ?thesis using update_first_found [OF 1(1), of "succeeded_payment r b t"] find_SomeD [OF 1(1)]
      by (simp add: succeeded_payment_def)
  qed (auto simp: find_payment_def find_Some_iff)
  thus "np_status p = NS_succeeded" "p \<in> set (nwc_payments d')" "np_paymentId p = i" by simp_all
qed

text \<open>
  Property C31: a lookup that was answered before the wallet settled the payment, and is stored after the
  success was, turns the succeeded payment back into an uncertain one: that update does not look at the
  status.
\<close>

theorem late_lookup_hides_success:
  assumes "lookup_payment w p now reply d = (Inr looked, d1)" and "pr_status looked = IN_pending"
    and "persistNwcSuccess (np_paymentId p) r False t d1 = (Inr paid, d2)"
  shows "np_status paid = NS_succeeded
    \<and> (\<exists>dto d3 q. apply_lookup (np_paymentId p) (Inr looked) t' d2 = (Inr dto, d3) \<and> nd_status dto = ''uncertain''
          \<and> find_payment (np_paymentId p) d3 = Some q \<and> np_status q = NS_uncertain)"
proof
  note paid = persist_stored [OF assms(3)]
  show "np_status paid = NS_succeeded" by (rule paid(1))
  obtain x where x: "List.find (\<lambda>p'. np_paymentId p' = np_paymentId p) (nwc_payments d2) = Some x"
    using paid(2,3) by (cases "List.find (\<lambda>p'. np_paymentId p' = np_paymentId p) (nwc_payments d2)") (auto simp: find_None_iff)
  let ?d3 = "d2\<lparr>nwc_payments := update_first (\<lambda>p'. np_paymentId p' = np_paymentId p) (pending_payment t') (nwc_payments d2)\<rparr>"
  have "apply_lookup (np_paymentId p) (Inr looked) t' d2 = (Inr (toPaymentDto (pending_payment t' x)), ?d3)"
    using assms(2) x by (simp add: apply_lookup_def edit_payment_def find_and_update_def)
  moreover have "find_payment (np_paymentId p) ?d3 = Some (pending_payment t' x)"
    using x unfolding find_payment_def
    by (simp add: find_update_first_key [where key = np_paymentId] pending_payment_def)
  ultimately show "\<exists>dto d3 q. apply_lookup (np_paymentId p) (Inr looked) t' d2 = (Inr dto, d3) \<and> nd_status dto = ''uncertain''
      \<and> find_payment (np_paymentId p) d3 = Some q \<and> np_status q = NS_uncertain"
    by (intro exI conjI) (assumption | simp add: toPaymentDto_def pending_payment_def nwc_status_text_def)+
qed

subsection \<open>A sample run\<close>

definition sample_world :: nwc_world where
  "sample_world =
     \<lparr>nw_bolt11 = (\<lambda>n i. if i = ''lnbcrt1'' then Some \<lparr>b11_complete = True, b11_signature = Some ''s'', b11_payeeNodeKey = Some ''k'',
          b11_millisatoshis = Some ''1000'', b11_payment_hash = Some (replicate 64 (CHR ''a'')), b11_timestamp = Some 1,
          b11_timeExpireDate = Some 3600\<rparr> else None),
      nw_sha = (\<lambda>s. replicate 64 (CHR ''b'')), nw_sha_bytes = (\<lambda>s. replicate 64 (CHR ''a'')), nw_url = (\<lambda>s. None),
      nw_public_key = (\<lambda>s. None), nw_verify = (\<lambda>e. False), nw_seal = (\<lambda>s. Inr s), nw_unseal = (\<lambda>s. Inr [])\<rparr>"

definition sample_nwc_connection :: nwc_connection where
  "sample_nwc_connection =
     \<lparr>nwc_connectionId = ''nwc_1'', nwc_ownerWalletId = ''owner'', nwc_scopeType = SC_wallet, nwc_scopeId = ''owner'',
      nwc_status = CN_active, nwc_executionMode = EM_interactive, nwc_methods = [''pay_invoice'', ''lookup_invoice''],
      nwc_network = ''regtest'', nwc_assetId = ''bitcoin:btc'', nwc_allowanceEnforced = False, nwc_allowanceAtomic = 0,
      nwc_allowanceUsedAtomic = 0, nwc_allowanceProofEventId = None, nwc_allowanceResetsAt = None, nwc_walletPubkey = [],
      nwc_clientPubkey = [], nwc_clientKeyFingerprint = [], nwc_relayUrls = [''wss://relay''], nwc_selectedRelay = ''wss://relay'',
      nwc_secretCiphertext = None, nwc_encryption = ''nip44_v2'', nwc_advertisedMethods = [], nwc_notifications = [],
      nwc_infoEventId = [], nwc_infoResponseEventId = None, nwc_lud16 = None, nwc_balanceAtomic = 0,
      nwc_balanceObservedAt = None, nwc_balanceStaleAt = None, nwc_lastUsedAt = None, nwc_lastFailureCode = None,
      nwc_createdAt = 0, nwc_revokedAt = None, nwc_revokeReason = None\<rparr>"

definition sample_nwc_db :: nwc_db where
  "sample_nwc_db = schedule_db.extend (metered_db.extend (core_db.extend empty_db
       \<lparr>apps = [], destinations = [], nwc_connections = [sample_nwc_connection], btcpay_connections = [], grants = [],
        events = [], batches = [], rate_counters = []\<rparr>) \<lparr>schedules = [], occurrences = [], recipients = []\<rparr>)
     \<lparr>nwc_payments = [], wire = []\<rparr>"

definition sample_pay :: pay_input where
  "sample_pay = \<lparr>py_connectionId = ''nwc_1'', py_ownerWalletId = ''owner'', py_invoice = '' LNBCRT1 '', py_idempotencyKey = ''key'',
     py_executionMode = None\<rparr>"

definition sample_decoded :: decoded_invoice where
  "sample_decoded = \<lparr>di_invoice = ''lnbcrt1'', di_invoiceHash = replicate 64 (CHR ''b''), di_paymentHash = replicate 64 (CHR ''a''),
     di_network = ''regtest'', di_amountAtomic = 1000, di_createdAt = 1000, di_expiresAt = 3600000, di_payeeNodeKey = ''k''\<rparr>"

definition sample_quote :: payment_quote where
  "sample_quote = \<lparr>qt_quoteId = ''quote_nwc_'' @ replicate 24 (CHR ''b''), qt_connectorId = ''nwc-nip47'',
     qt_paymentHash = replicate 64 (CHR ''a''), qt_invoiceHash = replicate 64 (CHR ''b''), qt_expiresAt = 3600000\<rparr>"

definition sample_reply :: wallet_reply where
  "sample_reply = WR_response \<lparr>wr_requestEventId = ''req'', wr_responseEventId = ''res'', wr_error = None,
     wr_result = Some [(''preimage'', JStr (replicate 64 (CHR ''c'')))]\<rparr>"

definition sample_started :: nwc_db where
  "sample_started = mark_submitted ''nwcpay_1'' ''lease'' 2000
     (snd (begin_payment sample_world ''nwcpay_1'' ''lease'' sample_pay 2000 sample_nwc_db))"

definition sample_request :: nwc_request where
  "sample_request = \<lparr>rq_connection = sample_nwc_connection, rq_method = ''pay_invoice'',
     rq_params = [(''invoice'', JStr ''lnbcrt1'')], rq_reply = sample_reply\<rparr>"

definition sample_paid :: payment_result where
  "sample_paid = \<lparr>pr_intentId = ''nwcpay_1'', pr_status = IN_succeeded, pr_amountAtomic = 1000,
     pr_proof = Some \<lparr>pf_reference = replicate 64 (CHR ''a''), pf_requestEventId = ''req'', pf_responseEventId = ''res'',
       pf_preimageVerified = True, pf_feeAtomic = 0\<rparr>, pr_failureCode = None\<rparr>"

definition sample_sent :: "(nwc_exn + payment_result) \<times> nwc_db" where
  "sample_sent = send_payment sample_world ''nwcpay_1'' sample_pay sample_decoded sample_quote 3000 sample_reply sample_started"

lemma sample_chars:
  "toLowerCase (replicate n c) = replicate n (lower_char c)" "is_space (CHR ''a'') = False" "is_space (CHR ''c'') = False"
  "lower_char (CHR ''a'') = CHR ''a''" "lower_char (CHR ''c'') = CHR ''c''"
  "is_hex64 (replicate 64 (CHR ''a''))" "is_hex64 (replicate 64 (CHR ''c''))"
  by (simp_all add: toLowerCase_def is_space_def lower_char_def is_hex64_def list_all_iff is_digit_def)

lemma trim_replicate: "is_space c = False \<Longrightarrow> trim (replicate n c) = replicate n c"
  by (rule trim_no_space) (simp add: list_ex_iff)

lemma sample_hashes:
  "nw_sha sample_world s = replicate 64 (CHR ''b'')" "nw_unseal sample_world u = Inr []"
  "verifyLightningPreimage sample_world (replicate 64 (CHR ''c'')) (replicate 64 (CHR ''a''))"
  by (simp_all add: verifyLightningPreimage_def sample_chars trim_replicate sample_world_def)

lemma sample_decode:
  "n < 3000000 \<Longrightarrow> decodeLightningInvoice sample_world '' LNBCRT1 '' ''regtest'' None n = Inr sample_decoded"
  "n < 3000000 \<Longrightarrow> decodeLightningInvoice sample_world ''lnbcrt1'' ''regtest'' (Some 1000) n = Inr sample_decoded"
proof -
  have raw: "toLowerCase (trim '' LNBCRT1 '') = ''lnbcrt1''" "toLowerCase (trim ''lnbcrt1'') = ''lnbcrt1''"
    "is_space (CHR ''l'') = False" "is_space (CHR ''n'') = False" "is_space (CHR ''b'') = False" "is_space (CHR ''r'') = False"
    "is_space (CHR ''t'') = False" "is_space (CHR ''1'') = False" by code_simp+
  have expiry: "n < 3000000 \<Longrightarrow> \<not> 3600 \<le> n div 1000" by linarith
  have ms: "is_positive_decimal ''1000''" "bindE (asAtomicAmount ''1000'') parseAtomicAmount = Inr 1000" by code_simp+
  show "n < 3000000 \<Longrightarrow> decodeLightningInvoice sample_world '' LNBCRT1 '' ''regtest'' None n = Inr sample_decoded"
    "n < 3000000 \<Longrightarrow> decodeLightningInvoice sample_world ''lnbcrt1'' ''regtest'' (Some 1000) n = Inr sample_decoded"
    by (simp_all add: decodeLightningInvoice_def raw ms expiry invoice_amount_def sample_world_def sample_decoded_def sample_chars
        bolt11_prefix_def MAX_INVOICE_LENGTH_def nonempty_def Let_def del: bindE_simps)
qed

lemma sample_db_docs:
  "nwc_connections sample_nwc_db = [sample_nwc_connection]" "nwc_payments sample_nwc_db = []" "wire sample_nwc_db = []"
  by (simp_all add: sample_nwc_db_def schedule_db.defs metered_db.defs core_db.defs)

lemma sample_checks: "pay_checks sample_world sample_pay 2000 sample_nwc_db = Inr (sample_nwc_connection, sample_decoded)"
  using sample_decode(1) [of 2000]
  by (simp add: pay_checks_def sample_db_docs sample_pay_def pay_mode_def sample_nwc_connection_def active_connection_def)

lemma sample_begin:
  "fst (begin_payment sample_world ''nwcpay_1'' ''lease'' sample_pay 2000 sample_nwc_db) = PY_created sample_nwc_connection sample_decoded"
  "quote_payment sample_world (paymentIntent ''nwcpay_1'' (py_idempotencyKey sample_pay) sample_decoded) 2000 = Inr sample_quote"
proof -
  show "fst (begin_payment sample_world ''nwcpay_1'' ''lease'' sample_pay 2000 sample_nwc_db) = PY_created sample_nwc_connection sample_decoded"
    by (simp add: begin_payment_def create_payment_def Let_def insert_row_def sample_db_docs sample_checks)
  show "quote_payment sample_world (paymentIntent ''nwcpay_1'' (py_idempotencyKey sample_pay) sample_decoded) 2000 = Inr sample_quote"
    using sample_decode(2) [of 2000]
    by (simp add: quote_payment_def validateDestination_def paymentIntent_def sample_decoded_def sample_quote_def quoteId_def
        sample_hashes BTC_ASSET_ID_def)
qed

lemma sample_nwc_run:
  "(nwc_step sample_world)\<^sup>*\<^sup>* (sample_nwc_db, []) (snd sample_sent, [TK_conclude ''nwcpay_1'' sample_nwc_connection ''owner'' (fst sample_sent)])"
proof -
  let ?t = "TK_send ''nwcpay_1'' sample_pay sample_decoded sample_quote sample_nwc_connection"
  have "nwc_step sample_world (sample_nwc_db, []) (sample_started, [?t])"
    unfolding sample_started_def
    by (rule nwc_step.start) (use sample_begin in \<open>auto simp: prod_eq_iff\<close>)
  moreover have "nwc_step sample_world (sample_started, [?t])
      (snd sample_sent, TK_conclude ''nwcpay_1'' sample_nwc_connection (py_ownerWalletId sample_pay) (fst sample_sent) # remove1 ?t [?t])"
    by (rule nwc_step.send [where reply = sample_reply and now = 3000]) (simp_all add: sample_sent_def)
  ultimately show ?thesis by (simp add: sample_pay_def)
qed

lemma sample_started_docs: "wire sample_started = []" "nwc_connections sample_started = [sample_nwc_connection]"
proof -
  let ?b = "begin_payment sample_world ''nwcpay_1'' ''lease'' sample_pay 2000 sample_nwc_db"
  have "wire (snd ?b) = wire sample_nwc_db" "nwc_connections (snd ?b) = nwc_connections sample_nwc_db"
    by (auto simp: begin_payment_def create_payment_def Let_def split: sum.splits option.splits)
  moreover have "only_edits sample_started (snd ?b)" unfolding sample_started_def by (rule submitted_only)
  ultimately show "wire sample_started = []" "nwc_connections sample_started = [sample_nwc_connection]"
    by (simp_all add: only_edits_def sample_nwc_db_def schedule_db.defs metered_db.defs core_db.defs)
qed

lemma sample_load:
  "loadConnection sample_world ''nwc_1'' (Some ''owner'') EM_interactive ''pay_invoice'' sample_started = Inr sample_nwc_connection"
  by (simp add: loadConnection_def sample_started_docs sample_nwc_connection_def sample_hashes nonempty_def)

lemma sample_wire:
  "wire (snd sample_sent) = [sample_request]" "fst sample_sent = Inr sample_paid"
  "nwc_payments (snd sample_sent) = nwc_payments sample_started"
  "pays sample_world ''owner'' (replicate 64 (CHR ''a'')) sample_request"
proof -
  have "trim ''nwc_1'' = ''nwc_1''" by code_simp
  moreover have "trim (replicate 64 (CHR ''c'')) = replicate 64 (CHR ''c'')" by (rule trim_replicate) (simp add: sample_chars)
  ultimately show "wire (snd sample_sent) = [sample_request]" "fst sample_sent = Inr sample_paid"
    "nwc_payments (snd sample_sent) = nwc_payments sample_started"
    unfolding sample_sent_def send_payment_def execute_payment_def connector_request_def
    using sample_load sample_decode(2) [of 3000]
    by (simp_all add: sample_pay_def paymentIntent_def sample_decoded_def pay_mode_def sample_quote_def quoteId_def sample_hashes
       sample_reply_def Let_def sample_request_def sample_started_docs paid_result_def ensureRemoteSuccess_def requiredString_def
       fees_paid_def present_def json_field_def sample_chars lift_error_def sample_paid_def)
  show "pays sample_world ''owner'' (replicate 64 (CHR ''a'')) sample_request"
    by (simp add: pays_def request_hash_def sample_request_def sample_nwc_connection_def sample_world_def sample_chars bolt11_prefix_def)
qed

text \<open>The success is stored, in the document of the payment.\<close>

definition sample_concluded :: "(nwc_exn + nwc_payment_dto) \<times> nwc_db" where
  "sample_concluded = conclude_payment ''nwcpay_1'' sample_nwc_connection ''owner'' (Inr sample_paid) 4000 (snd sample_sent)"

lemma sample_payment:
  "nwc_payments sample_started =
     [(new_payment sample_world ''nwcpay_1'' ''lease'' sample_pay sample_decoded 2000)\<lparr>np_submittedAt := Some 2000\<rparr>]"
  by (simp add: sample_started_def begin_payment_def create_payment_def Let_def insert_row_def sample_db_docs sample_checks
      mark_submitted_def edit_payment_def find_and_update_def new_payment_def)

definition sample_payment_row :: nwc_payment where
  "sample_payment_row = (new_payment sample_world ''nwcpay_1'' ''lease'' sample_pay sample_decoded 2000)\<lparr>np_submittedAt := Some 2000\<rparr>"

lemma sample_row:
  "np_paymentId sample_payment_row = ''nwcpay_1''" "np_ownerWalletId sample_payment_row = ''owner''"
  "np_connectionId sample_payment_row = ''nwc_1''" "np_paymentHash sample_payment_row = replicate 64 (CHR ''a'')"
  "np_network sample_payment_row = ''regtest''" "np_status sample_payment_row = NS_pending"
  "np_amountAtomic sample_payment_row = 1000" "np_executionMode sample_payment_row = EM_interactive"
  "nwc_payments sample_started = [sample_payment_row]"
  by (simp_all add: sample_payment_row_def new_payment_def sample_pay_def sample_decoded_def pay_mode_def sample_payment)

lemma sample_conclusion:
  "nwc_payments (snd sample_concluded) = [succeeded_payment sample_paid False 4000 sample_payment_row]"
  "wire (snd sample_concluded) = [sample_request]"
  by (simp_all add: sample_concluded_def conclude_payment_def persistNwcSuccess_def edit_payment_def find_and_update_def
      sample_wire sample_row unsettled_def writeAuditLog_def)

lemma sample_full_run:
  "(nwc_step sample_world)\<^sup>*\<^sup>* (sample_nwc_db, []) (snd sample_concluded, [])"
proof -
  let ?t = "TK_conclude ''nwcpay_1'' sample_nwc_connection ''owner'' (fst sample_sent)"
  have "nwc_step sample_world (snd sample_sent, [?t]) (snd sample_concluded, remove1 ?t [?t])"
    by (rule nwc_step.conclude [where now = 4000 and r'' = "fst sample_concluded"]) (simp_all add: sample_concluded_def sample_wire)
  with sample_nwc_run show ?thesis by simp
qed

lemma sample_fresh:
  "distinct (map nwc_connectionId (nwc_connections sample_nwc_db))"
  "c \<in> set (nwc_connections sample_nwc_db) \<Longrightarrow> trim (nwc_connectionId c) = nwc_connectionId c"
proof -
  have "trim ''nwc_1'' = ''nwc_1''" by code_simp
  thus "distinct (map nwc_connectionId (nwc_connections sample_nwc_db))"
    "c \<in> set (nwc_connections sample_nwc_db) \<Longrightarrow> trim (nwc_connectionId c) = nwc_connectionId c"
    by (simp_all add: sample_db_docs sample_nwc_connection_def)
qed

theorem nwc_pays_once_witness:
  "wire (snd sample_concluded) = [sample_request] \<and> pays sample_world ''owner'' (replicate 64 (CHR ''a'')) sample_request
    \<and> length (filter (pays sample_world ''owner'' (replicate 64 (CHR ''a''))) (wire (snd sample_concluded))) \<le> 1"
  using nwc_pays_once [OF sample_full_run sample_db_docs(2,3) sample_fresh] sample_conclusion(2) sample_wire(4) by blast

theorem nwc_success_has_preimage_witness:
  "\<exists>p. nwc_payments (snd sample_concluded) = [p] \<and> np_status p = NS_succeeded \<and> np_preimageVerified p
    \<and> (\<exists>r\<in>set (wire (snd sample_concluded)). proves sample_world (np_paymentHash p) r)"
proof -
  let ?p = "succeeded_payment sample_paid False 4000 sample_payment_row"
  have "?p \<in> set (nwc_payments (snd sample_concluded))" "np_status ?p = NS_succeeded"
    by (simp_all add: sample_conclusion) (simp add: succeeded_payment_def)
  with nwc_success_has_preimage [OF sample_full_run sample_db_docs(2,3) sample_fresh, of ?p] sample_conclusion(1)
  show ?thesis by blast
qed

lemma sample_look_up:
  "loadConnection sample_world ''nwc_1'' (Some ''owner'') EM_interactive ''lookup_invoice'' sample_started = Inr sample_nwc_connection"
  "reconcile_connection sample_payment_row sample_started = Inr ()"
  by (simp_all add: loadConnection_def reconcile_connection_def sample_started_docs sample_nwc_connection_def sample_hashes
      nonempty_def sample_row active_connection_def)

theorem lookup_error_is_final_witness:
  "\<exists>dto d'. getNwcPaymentStatus sample_world ''nwc_1'' ''owner'' (replicate 64 (CHR ''a'')) 5000 6000
       (WR_response \<lparr>wr_requestEventId = ''req'', wr_responseEventId = ''res'', wr_error = Some ''RATE_LIMITED'', wr_result = None\<rparr>)
       sample_started = (Inr dto, d') \<and> nd_status dto = ''failed''"
proof -
  let ?r = "\<lparr>wr_requestEventId = ''req'', wr_responseEventId = ''res'', wr_error = Some ''RATE_LIMITED'', wr_result = None\<rparr>"
  have found: "List.find (\<lambda>x. np_connectionId x = ''nwc_1'' \<and> np_ownerWalletId x = ''owner''
      \<and> np_paymentHash x = toLowerCase (replicate 64 (CHR ''a''))) (nwc_payments sample_started) = Some sample_payment_row"
    by (simp add: sample_row sample_chars)
  have "unsettled sample_payment_row" "distinct (map np_paymentId (nwc_payments sample_started))"
    "toLowerCase (np_paymentHash sample_payment_row) = np_paymentHash sample_payment_row"
    by (simp_all add: sample_row sample_chars unsettled_def)
  from lookup_error_is_final [OF found this, of sample_world sample_nwc_connection ?r "''RATE_LIMITED''" 5000 6000]
    sample_look_up show ?thesis by (simp add: sample_row) blast
qed

definition sample_unsettled :: wallet_reply where
  "sample_unsettled = WR_response \<lparr>wr_requestEventId = ''req'', wr_responseEventId = ''res'', wr_error = None,
     wr_result = Some [(''payment_hash'', JStr (replicate 64 (CHR ''a''))), (''amount'', JNum 1000), (''state'', JStr ''pending'')]\<rparr>"

lemma sample_lookup:
  "\<exists>d1. lookup_payment sample_world sample_payment_row 2500 sample_unsettled sample_started
      = (Inr (unpaid_result sample_payment_row IN_pending None), d1) \<and> nwc_payments d1 = [sample_payment_row]"
proof -
  have "exactAtomic (Some (JNum 1000)) = Inr 1000" "toLowerCase ''pending'' = ''pending''" by code_simp+
  moreover have "trim (replicate 64 (CHR ''a'')) = replicate 64 (CHR ''a'')" by (rule trim_replicate) (simp add: sample_chars)
  ultimately show ?thesis
    by (simp add: lookup_payment_def connector_lookup_def connector_request_def sample_row sample_chars sample_look_up Let_def
        sample_unsettled_def lookup_result_def ensureRemoteSuccess_def requiredString_def json_field_def lift_error_def)
qed

theorem late_lookup_hides_success_witness:
  "\<exists>d1 paid d2 dto d3. lookup_payment sample_world sample_payment_row 2500 sample_unsettled sample_started
      = (Inr (unpaid_result sample_payment_row IN_pending None), d1)
    \<and> persistNwcSuccess ''nwcpay_1'' sample_paid False 4000 d1 = (Inr paid, d2) \<and> np_status paid = NS_succeeded
    \<and> apply_lookup ''nwcpay_1'' (Inr (unpaid_result sample_payment_row IN_pending None)) 5000 d2 = (Inr dto, d3)
    \<and> nd_status dto = ''uncertain''"
proof -
  obtain d1 where looked: "lookup_payment sample_world sample_payment_row 2500 sample_unsettled sample_started
      = (Inr (unpaid_result sample_payment_row IN_pending None), d1)" and d1: "nwc_payments d1 = [sample_payment_row]"
    using sample_lookup by blast
  obtain paid d2 where paid: "persistNwcSuccess (np_paymentId sample_payment_row) sample_paid False 4000 d1 = (Inr paid, d2)"
    by (simp add: persistNwcSuccess_def edit_payment_def find_and_update_def d1 sample_row unsettled_def)
  have "pr_status (unpaid_result sample_payment_row IN_pending None) = IN_pending" by (simp add: unpaid_result_def)
  from late_lookup_hides_success [OF looked this paid, of 5000] looked paid sample_row(1) show ?thesis by metis
qed

end
