(* ===== verification/Session_Rules.thy ===== *)
theory Session_Rules
  imports Charges Nwc_Service
begin

section \<open>The rules of a pass (services/session.service.ts)\<close>

text \<open>
  The validation and normalization of a pass and the checks a charge has to meet, all without side
  effects. A request that is parsed JSON is a record here. \<open>dates\<close> is \<open>Date.parse\<close>: the milliseconds of a
  date text, or \<open>None\<close> where JavaScript gives an invalid date.
\<close>

subsection \<open>Policy\<close>

definition POLICY_CURRENCY :: string where
  "POLICY_CURRENCY = ''CKB''"

definition POLICY_MIN_LIMIT :: major where
  "POLICY_MIN_LIMIT = 1000000000"

definition POLICY_MAX_LIMIT :: major where
  "POLICY_MAX_LIMIT = 10000000000000000"

definition POLICY_MIN_EXPIRY_MINUTES :: int where
  "POLICY_MIN_EXPIRY_MINUTES = 1"

definition POLICY_MAX_EXPIRY_DAYS :: int where
  "POLICY_MAX_EXPIRY_DAYS = 30"

definition MIN_FIBER_PAYMENT_REQUEST_LENGTH :: nat where
  "MIN_FIBER_PAYMENT_REQUEST_LENGTH = 16"

definition open_status :: "session_status \<Rightarrow> bool" where
  "open_status s \<longleftrightarrow> s \<in> {S_active, S_paused}"

definition history_status :: "session_status \<Rightarrow> bool" where
  "history_status s \<longleftrightarrow> s \<in> {S_settled, S_revoked, S_expired}"

definition cleanOptionalString :: "string option \<Rightarrow> string option" where
  "cleanOptionalString v = nonempty (Some (trim (opt_or v [])))"

definition policy_minor :: "major \<Rightarrow> error + int" where
  "policy_minor n = toMinorUnits (number_text n) POLICY_CURRENCY"

definition validateCreateLimit :: "int \<Rightarrow> error + unit" where
  "validateCreateLimit limitMinor =
     bindE (policy_minor POLICY_MIN_LIMIT) (\<lambda>minMinor.
     bindE (policy_minor POLICY_MAX_LIMIT) (\<lambda>maxMinor.
       require (\<not> (limitMinor < minMinor \<or> limitMinor > maxMinor)) (ApiError 400 ''SESSION_LIMIT_OUT_OF_RANGE'')))"

definition validateExpiryAt :: "(string \<Rightarrow> int option) \<Rightarrow> string option \<Rightarrow> int \<Rightarrow> error + int option" where
  "validateExpiryAt dates expiryAt now =
     (case nonempty expiryAt of
        None \<Rightarrow> Inr None
      | Some v \<Rightarrow>
         (case dates v of
            None \<Rightarrow> Inl (ApiError 400 ''INVALID_EXPIRY_TIME'')
          | Some t \<Rightarrow>
             if t < now + POLICY_MIN_EXPIRY_MINUTES * 60 * 1000 \<or> t > now + POLICY_MAX_EXPIRY_DAYS * 24 * 60 * 60 * 1000
             then Inl (ApiError 400 ''EXPIRY_OUT_OF_RANGE'') else Inr (Some t)))"

definition normalizeSessionAppPermissions :: "string list \<Rightarrow> bool \<Rightarrow> string list" where
  "normalizeSessionAppPermissions permissions defaultChargePermission =
     (let unique = dedupe (filter (\<lambda>p. p = ''charges:create'') (map trim permissions))
      in if unique \<noteq> [] \<or> \<not> defaultChargePermission then unique else [''charges:create''])"

definition validateFiberPaymentRequest :: "string option \<Rightarrow> error + string option" where
  "validateFiberPaymentRequest v =
     (case cleanOptionalString v of
        None \<Rightarrow> Inr None
      | Some request \<Rightarrow>
         if length request < MIN_FIBER_PAYMENT_REQUEST_LENGTH \<or> list_ex is_space request
         then Inl (ApiError 400 ''INVALID_FIBER_PAYMENT_REQUEST'') else Inr (Some request))"

definition paymentPurposeRepeats :: "payment_purpose \<Rightarrow> bool" where
  "paymentPurposeRepeats p \<longleftrightarrow> p = PP_subscription \<or> p = PP_recurring_release"

definition scheduled_purpose :: "payment_purpose \<Rightarrow> bool" where
  "scheduled_purpose p \<longleftrightarrow> p = PP_subscription \<or> p = PP_scheduled_release \<or> p = PP_recurring_release"

definition normalizePaymentPurpose :: "payment_purpose option \<Rightarrow> payment_purpose" where
  "normalizePaymentPurpose v = opt_or v PP_app_session"

definition defaultReleaseCadence :: "payment_purpose \<Rightarrow> release_cadence" where
  "defaultReleaseCadence p =
     (if p = PP_subscription then RL_monthly else if p = PP_recurring_release then RL_monthly else RL_none)"

definition normalizeReleaseCadence :: "release_cadence option \<Rightarrow> payment_purpose \<Rightarrow> release_cadence" where
  "normalizeReleaseCadence v p =
     (case v of
        None \<Rightarrow> defaultReleaseCadence p
      | Some c \<Rightarrow>
         if p = PP_app_session \<or> p = PP_scheduled_release then RL_none
         else if c = RL_none then defaultReleaseCadence p else c)"

definition validateNextReleaseAt ::
  "(string \<Rightarrow> int option) \<Rightarrow> string option \<Rightarrow> payment_purpose \<Rightarrow> int option \<Rightarrow> int \<Rightarrow> error + int option" where
  "validateNextReleaseAt dates v purpose expiryAt now =
     (case cleanOptionalString v of
        None \<Rightarrow> if scheduled_purpose purpose then Inl (ApiError 400 ''RELEASE_DATE_REQUIRED'') else Inr None
      | Some cleaned \<Rightarrow>
         (case dates cleaned of
            None \<Rightarrow> Inl (ApiError 400 ''INVALID_RELEASE_DATE'')
          | Some t \<Rightarrow>
             if t \<le> now then Inl (ApiError 400 ''RELEASE_DATE_IN_PAST'')
             else if (case expiryAt of None \<Rightarrow> False | Some e \<Rightarrow> t > e) then Inl (ApiError 400 ''RELEASE_AFTER_EXPIRY'')
             else Inr (Some t)))"

subsection \<open>Recipients\<close>

text \<open>The pattern \<open>^[^\s@]+@[^\s@]+\.[^\s@]+$\<close>: one at sign, and a dot inside the part after it.\<close>

definition email_format :: "string \<Rightarrow> bool" where
  "email_format s \<longleftrightarrow> \<not> list_ex is_space s
     \<and> (case split_on (CHR ''@'') s of
          [local, domain] \<Rightarrow> local \<noteq> [] \<and> domain \<noteq> [] \<and> CHR ''.'' \<in> set (butlast (tl domain))
        | _ \<Rightarrow> False)"

definition normalizeEmail :: "string option \<Rightarrow> error + string option" where
  "normalizeEmail v =
     (case cleanOptionalString v of
        None \<Rightarrow> Inr None
      | Some e \<Rightarrow> if email_format (toLowerCase e) then Inr (Some (toLowerCase e))
                  else Inl (ApiError 400 ''INVALID_RECIPIENT_EMAIL''))"

definition isFiberCkbAddress :: "string \<Rightarrow> bool" where
  "isFiberCkbAddress value =
     (let a = toLowerCase (trim value); rest = drop 4 a
      in (take 4 a = ''ckb1'' \<or> take 4 a = ''ckt1'') \<and> 38 \<le> length rest \<and> length rest \<le> 180
         \<and> list_all (\<lambda>c. c \<in> set ''qpzry9x8gf2tvdw0s3jn54khce6mua7l'') rest)"

record recipient_input =
  rn_name :: "string option"
  rn_address :: "string option"
  rn_email :: "string option"
  rn_amount :: "major option"
  rn_amountMinor :: "int option"
  rn_fiberInvoice :: "string option"

record recipient_candidate =
  rc_name :: string
  rc_address :: string
  rc_email :: "string option"
  rc_amount :: "major option"
  rc_amountMinor :: "int option"
  rc_fiberInvoice :: "string option"

definition recipient_candidate_of :: "recipient_input \<Rightarrow> error + recipient_candidate" where
  "recipient_candidate_of i =
     bindE (normalizeEmail (rn_email i)) (\<lambda>email.
     bindE (validateFiberPaymentRequest (rn_fiberInvoice i)) (\<lambda>invoice.
       Inr \<lparr>rc_name = opt_or (cleanOptionalString (rn_name i)) [], rc_address = opt_or (cleanOptionalString (rn_address i)) [],
         rc_email = email, rc_amount = rn_amount i, rc_amountMinor = rn_amountMinor i, rc_fiberInvoice = invoice\<rparr>))"

definition filled_candidate :: "recipient_candidate \<Rightarrow> bool" where
  "filled_candidate c \<longleftrightarrow> rc_name c \<noteq> [] \<or> rc_address c \<noteq> [] \<or> rc_email c \<noteq> None \<or> rc_amount c \<noteq> None
     \<or> rc_fiberInvoice c \<noteq> None"

definition blank_recipient :: recipient_wallet where
  "blank_recipient =
     \<lparr>rw_recipientId = None, rw_destinationId = None, rw_destinationReusable = None, rw_claimId = None,
      rw_claimChannelId = None, rw_name = [], rw_address = None, rw_email = None, rw_recipientTimeZone = None,
      rw_amount = None, rw_amountMinor = None, rw_fiberInvoice = None, rw_status = None, rw_inviteStatus = None,
      rw_inviteTokenHash = None, rw_inviteTokenExpiresAt = None, rw_inviteSentAt = None, rw_inviteClaimedAt = None,
      rw_chargeAttemptId = None, rw_paidAt = None, rw_lastAttemptAt = None, rw_lastFailureCode = None,
      rw_lastFailureMessage = None, rw_payoutProofId = None, rw_notificationStatus = None, rw_notifiedAt = None,
      rw_bridgeTxHash = None, rw_channelOpenProofId = None, rw_exitInvoice = None, rw_exitInvoiceHash = None,
      rw_exitPaymentProofId = None, rw_exitPaymentAttemptId = None, rw_exitSettlementTxHash = None,
      rw_exitSettledAt = None\<rparr>"

definition recipient_minor :: "recipient_candidate \<Rightarrow> error + int option" where
  "recipient_minor c =
     (case rc_amountMinor c of
        Some m \<Rightarrow> Inr (Some m)
      | None \<Rightarrow> (case rc_amount c of
          None \<Rightarrow> Inr None
        | Some a \<Rightarrow> bindE (toMinorUnits (number_text a) POLICY_CURRENCY) (\<lambda>m. Inr (Some m))))"

definition checked_recipient :: "recipient_candidate \<Rightarrow> int option \<Rightarrow> error + recipient_wallet" where
  "checked_recipient c amountMinor =
     bindE (case amountMinor of None \<Rightarrow> Inr None | Some m \<Rightarrow> bindE (fromMinorUnits (Some m) POLICY_CURRENCY) (\<lambda>v. Inr (Some v)))
       (\<lambda>amount.
        let known = rc_address c \<noteq> [] \<or> rc_fiberInvoice c \<noteq> None
        in Inr (blank_recipient
          \<lparr>rw_name := rc_name c, rw_address := Some (rc_address c), rw_email := rc_email c, rw_amount := amount,
           rw_amountMinor := amountMinor, rw_fiberInvoice := rc_fiberInvoice c,
           rw_status := Some (if known then RW_pending else RW_awaiting_details),
           rw_inviteStatus := Some (if rc_email c \<noteq> None \<and> \<not> known then IV_pending else IV_not_required),
           rw_notificationStatus := Some (if rc_email c \<noteq> None then NT_pending else NT_not_required)\<rparr>))"

text \<open>The loop over the candidates, with the sets of addresses, emails and invoices seen so far.\<close>

fun check_recipients ::
  "bool \<Rightarrow> string list \<Rightarrow> string list \<Rightarrow> string list \<Rightarrow> recipient_candidate list \<Rightarrow> error + recipient_wallet list" where
  "check_recipients requiresRecipient addresses emails invoices [] = Inr []"
| "check_recipients requiresRecipient addresses emails invoices (c # cs) =
     (let address = toLowerCase (rc_address c); email = opt_or (rc_email c) []; invoice = opt_or (rc_fiberInvoice c) [] in
      if rc_name c = [] then Inl (ApiError 400 ''RECIPIENT_NAME_REQUIRED'')
      else if rc_address c = [] \<and> rc_email c = None \<and> rc_fiberInvoice c = None
      then Inl (ApiError 400 ''RECIPIENT_DESTINATION_REQUIRED'')
      else if rc_address c \<noteq> [] \<and> \<not> isFiberCkbAddress (rc_address c) then Inl (ApiError 400 ''INVALID_RECIPIENT_ADDRESS'')
      else bindE (recipient_minor c) (\<lambda>amountMinor.
        if requiresRecipient \<and> (case amountMinor of None \<Rightarrow> True | Some m \<Rightarrow> m \<le> 0)
        then Inl (ApiError 400 ''RECIPIENT_AMOUNT_REQUIRED'')
        else if rc_address c \<noteq> [] \<and> address \<in> set addresses then Inl (ApiError 400 ''DUPLICATE_RECIPIENT_WALLET'')
        else if rc_email c \<noteq> None \<and> email \<in> set emails then Inl (ApiError 400 ''DUPLICATE_RECIPIENT_EMAIL'')
        else if rc_fiberInvoice c \<noteq> None \<and> invoice \<in> set invoices
        then Inl (ApiError 400 ''DUPLICATE_RECIPIENT_FIBER_INVOICE'')
        else bindE (checked_recipient c amountMinor) (\<lambda>w.
          bindE (check_recipients requiresRecipient
                  (if rc_address c \<noteq> [] then address # addresses else addresses)
                  (if rc_email c \<noteq> None then email # emails else emails)
                  (if rc_fiberInvoice c \<noteq> None then invoice # invoices else invoices) cs)
            (\<lambda>ws. Inr (w # ws)))))"

definition normalizeRecipientWallets ::
  "payment_purpose \<Rightarrow> string option \<Rightarrow> string option \<Rightarrow> recipient_input list \<Rightarrow> error + recipient_wallet list" where
  "normalizeRecipientWallets purpose recipientName recipientAddress inputs =
     bindE (mapE recipient_candidate_of inputs) (\<lambda>all.
       let filled = filter filled_candidate all;
           legacyName = cleanOptionalString recipientName; legacyAddress = cleanOptionalString recipientAddress;
           candidates = (if filled = [] \<and> (legacyName \<noteq> None \<or> legacyAddress \<noteq> None)
             then [\<lparr>rc_name = opt_or legacyName ''Recipient'', rc_address = opt_or legacyAddress [], rc_email = None,
                    rc_amount = None, rc_amountMinor = None, rc_fiberInvoice = None\<rparr>]
             else filled)
       in if scheduled_purpose purpose \<and> candidates = [] then Inl (ApiError 400 ''RECIPIENT_WALLETS_REQUIRED'')
          else if length candidates > 25 then Inl (ApiError 400 ''TOO_MANY_RECIPIENT_WALLETS'')
          else check_recipients (scheduled_purpose purpose) [] [] [] candidates)"

definition resolveMaxChargeAmountMinor :: "major option \<Rightarrow> string \<Rightarrow> payment_purpose \<Rightarrow> int \<Rightarrow> error + int option" where
  "resolveMaxChargeAmountMinor maxChargeAmount currency purpose limitMinor =
     (case maxChargeAmount of
        None \<Rightarrow> Inr (if purpose = PP_app_session then None else Some limitMinor)
      | Some a \<Rightarrow>
         bindE (toMinorUnits (number_text a) currency) (\<lambda>m.
           if m \<le> 0 then Inl (ApiError 400 ''INVALID_MAX_CHARGE_AMOUNT'')
           else if m > limitMinor then Inl (ApiError 400 ''MAX_CHARGE_EXCEEDS_LIMIT'') else Inr (Some m)))"

subsection \<open>Charge requests\<close>

datatype charge_origin = CO_app_api_key | CO_system

record charge_input =
  ci_sessionId :: string
  ci_amount :: major
  ci_type :: string
  ci_appId :: "string option"
  ci_apiKeyId :: "string option"
  ci_appOwnerWalletId :: "string option"
  ci_appServiceAddress :: "string option"
  ci_chargeOrigin :: "charge_origin option"
  ci_idempotencyKey :: "string option"
  ci_serviceReference :: "string option"
  ci_paymentRequest :: "string option"
  ci_deferSingleUseSettlement :: bool
  ci_metadata :: members

fun metadataString :: "members \<Rightarrow> string list \<Rightarrow> string option" where
  "metadataString m [] = None"
| "metadataString m (k # ks) =
     (case map_of m k of
        Some (JStr v) \<Rightarrow> if trim v \<noteq> [] then Some (trim v) else metadataString m ks
      | _ \<Rightarrow> metadataString m ks)"

definition APP_RESTRICTED_CHARGE_METADATA :: "string list" where
  "APP_RESTRICTED_CHARGE_METADATA =
     [''scheduledPayout'', ''directVaultPayout'', ''payoutRail'', ''fiberKeysendTargetPubkey'', ''fiberAllowSelfPayment'',
      ''fiberPaymentTimeoutSeconds'', ''fiberMaxFeeAmountMinor'', ''fiberPaymentChunkIndex'',
      ''fiberPaymentTotalAmountMinor'', ''fiberExitInvoice'']"

definition sanitizeChargeMetadata :: "charge_input \<Rightarrow> members" where
  "sanitizeChargeMetadata i =
     (if ci_chargeOrigin i = Some CO_app_api_key
      then filter (\<lambda>kv. fst kv \<notin> set APP_RESTRICTED_CHARGE_METADATA) (ci_metadata i) else ci_metadata i)"

definition chargeIdempotencyKey :: "charge_input \<Rightarrow> string option" where
  "chargeIdempotencyKey i =
     opt_else (cleanOptionalString (ci_idempotencyKey i))
       (metadataString (ci_metadata i)
         [''idempotencyKey'', ''idempotency_key'', ''externalId'', ''invoiceId'', ''jobId'', ''paymentJobId''])"

definition chargeServiceReference :: "charge_input \<Rightarrow> string option" where
  "chargeServiceReference i =
     opt_else (cleanOptionalString (ci_serviceReference i))
       (metadataString (ci_metadata i)
         [''serviceReference'', ''paymentReference'', ''subscriptionId'', ''externalReference'', ''invoiceReference''])"

definition chargePaymentRequest :: "charge_input \<Rightarrow> string option" where
  "chargePaymentRequest i =
     opt_else (cleanOptionalString (ci_paymentRequest i))
       (metadataString (ci_metadata i) [''fiberInvoice'', ''paymentRequest'', ''invoice''])"

definition recipient_keys :: "string list" where
  "recipient_keys = [''recipientAddress'', ''recipientServiceAddress'', ''payeeAddress'']"

definition safeFiberPaymentRequestHash :: "(string \<Rightarrow> string) \<Rightarrow> string option \<Rightarrow> string option" where
  "safeFiberPaymentRequestHash sha v =
     (case nonempty v of None \<Rightarrow> None
      | Some r \<Rightarrow> if trim r \<noteq> [] then Some (sha (trim r)) else None)"

definition layer_text :: "execution_layer \<Rightarrow> string" where
  "layer_text l = (case l of X_fiber \<Rightarrow> ''fiber'' | X_lightning \<Rightarrow> ''lightning'' | X_ckb_vault \<Rightarrow> ''ckb-vault'')"

definition chargeRequestFingerprint ::
  "(string \<Rightarrow> string) \<Rightarrow> string \<Rightarrow> int \<Rightarrow> string \<Rightarrow> string option \<Rightarrow> string option \<Rightarrow> string option \<Rightarrow> execution_layer
    \<Rightarrow> string option \<Rightarrow> string option \<Rightarrow> string" where
  "chargeRequestFingerprint sha sessionId amountMinor currency appId serviceReference requestHash layer
      recipientAddress providerTarget =
     sha (stringify (JObj
       [(''sessionId'', JStr sessionId), (''amountMinor'', JNum amountMinor), (''currency'', JStr currency),
        (''appId'', json_opt appId), (''serviceReference'', json_opt serviceReference),
        (''paymentRequestHash'', json_opt requestHash), (''executionLayer'', JStr (layer_text layer)),
        (''recipientAddress'', json_opt (map_option (\<lambda>a. toLowerCase (trim a)) recipientAddress)),
        (''providerTarget'', json_opt (map_option (\<lambda>a. toLowerCase (trim a)) providerTarget))]))"

definition assertIdempotentChargeReplay ::
  "charge_attempt \<Rightarrow> string \<Rightarrow> int \<Rightarrow> string \<Rightarrow> string \<Rightarrow> error + unit" where
  "assertIdempotentChargeReplay a sessionId amountMinor currency fingerprint =
     bindE (fallbackMinorUnits (att_amountMinor a) (Some (att_amount a)) (att_currency a)) (\<lambda>existingAmountMinor.
       require (\<not> (att_sessionId a \<noteq> sessionId \<or> existingAmountMinor \<noteq> amountMinor \<or> att_currency a \<noteq> currency
           \<or> (case nonempty (att_requestFingerprint a) of None \<Rightarrow> False | Some f \<Rightarrow> f \<noteq> fingerprint)))
         (ApiError 409 ''IDEMPOTENCY_CONFLICT''))"

subsection \<open>May this charge be made\<close>

definition normalizedAddress :: "string option \<Rightarrow> string" where
  "normalizedAddress v = toLowerCase (trim (opt_or v []))"

definition addressesMatch :: "string \<Rightarrow> string \<Rightarrow> bool" where
  "addressesMatch l r \<longleftrightarrow> l \<noteq> [] \<and> r \<noteq> [] \<and> toLowerCase (trim l) = toLowerCase (trim r)"

definition ruleMaxChargeMinor :: "session \<Rightarrow> error + int option" where
  "ruleMaxChargeMinor s =
     (case det_maxChargeAmountMinor (ses_detail s) of
        Some m \<Rightarrow> Inr (Some m)
      | None \<Rightarrow> (case det_maxChargeAmount (ses_detail s) of
          None \<Rightarrow> Inr None
        | Some a \<Rightarrow> bindE (fallbackMinorUnits None (Some a) (ses_currency s)) (\<lambda>m. Inr (Some m))))"

definition allowed_recipients :: "session \<Rightarrow> string list" where
  "allowed_recipients s =
     (let own = List.map_filter (\<lambda>w. cleanOptionalString (rw_address w)) (det_recipientWallets (ses_detail s))
      in if own = [] then (case cleanOptionalString (det_recipientAddress (ses_detail s)) of None \<Rightarrow> [] | Some a \<Rightarrow> [a]) else own)"

definition reference_rule :: "session \<Rightarrow> charge_input \<Rightarrow> error + unit" where
  "reference_rule s i =
     (case cleanOptionalString (det_paymentReference (ses_detail s)) of
        None \<Rightarrow> Inr ()
      | Some reference \<Rightarrow>
         (case chargeServiceReference i of
            None \<Rightarrow> Inl (ApiError 403 ''PAYMENT_REFERENCE_REQUIRED'')
          | Some r \<Rightarrow> require (r = reference) (ApiError 403 ''PAYMENT_REFERENCE_MISMATCH'')))"

definition recipient_rule :: "session \<Rightarrow> charge_input \<Rightarrow> error + unit" where
  "recipient_rule s i =
     (if allowed_recipients s = [] then Inr ()
      else (case metadataString (ci_metadata i) recipient_keys of
         None \<Rightarrow> Inl (ApiError 403 ''RECIPIENT_MISMATCH'')
       | Some r \<Rightarrow> require (list_ex (\<lambda>a. addressesMatch a r) (allowed_recipients s)) (ApiError 403 ''RECIPIENT_MISMATCH'')))"

definition release_rule :: "session \<Rightarrow> int \<Rightarrow> error + unit" where
  "release_rule s now =
     require (\<not> (scheduled_purpose (det_paymentPurpose (ses_detail s))
         \<and> (case det_nextReleaseAt (ses_detail s) of None \<Rightarrow> False | Some t \<Rightarrow> t > now)))
       (ApiError 409 ''RELEASE_NOT_DUE'')"

definition assertChargeAllowedBySessionRules :: "session \<Rightarrow> charge_input \<Rightarrow> int \<Rightarrow> int \<Rightarrow> error + unit" where
  "assertChargeAllowedBySessionRules s i amountMinor now =
     bindE (ruleMaxChargeMinor s) (\<lambda>maxChargeMinor.
     bindE (require (\<not> (case maxChargeMinor of None \<Rightarrow> False | Some m \<Rightarrow> amountMinor > m))
              (ApiError 402 ''PAYMENT_RULE_AMOUNT_EXCEEDED'')) (\<lambda>_.
     bindE (reference_rule s i) (\<lambda>_.
     bindE (recipient_rule s i) (\<lambda>_. release_rule s now))))"

definition assertDirectAppChargeAuthorized :: "session \<Rightarrow> charge_input \<Rightarrow> error + unit" where
  "assertDirectAppChargeAuthorized s i =
     (if ci_chargeOrigin i \<noteq> Some CO_app_api_key then Inr ()
      else if nonempty (ci_appId i) = None \<or> nonempty (ci_appOwnerWalletId i) = None
      then Inl (ApiError 403 ''APP_AUTH_CONTEXT_REQUIRED'')
      else if Some (ses_ownerWalletId s) \<noteq> ci_appOwnerWalletId i then Inl (ApiError 403 ''APP_OWNER_MISMATCH'')
      else if nonempty (ses_appGrantOwnerWalletId s) = None \<or> det_appGrantCreatedAt (ses_detail s) = None
        \<or> nonempty (ses_appId s) = None \<or> ses_appId s = Some ''manual''
      then Inl (ApiError 403 ''APP_SESSION_GRANT_REQUIRED'')
      else if ses_appGrantOwnerWalletId s \<noteq> ci_appOwnerWalletId i then Inl (ApiError 403 ''APP_GRANT_OWNER_MISMATCH'')
      else if ses_appId s \<noteq> ci_appId i then Inl (ApiError 403 ''APP_SESSION_MISMATCH'')
      else if normalizedAddress (Some (det_serviceAddress (ses_detail s))) \<noteq> normalizedAddress (ci_appServiceAddress i)
      then Inl (ApiError 403 ''APP_SERVICE_ADDRESS_MISMATCH'')
      else if \<not> ses_autoMicroCharges s then Inl (ApiError 403 ''APP_CHARGES_DISABLED'')
      else require (''charges:create'' \<in> set (normalizeSessionAppPermissions (ses_appPermissions s) False))
             (ApiError 403 ''APP_SESSION_PERMISSION_REQUIRED''))"

definition lifecycle_idle :: "session \<Rightarrow> bool" where
  "lifecycle_idle s \<longleftrightarrow> ses_lifecycleState s = None \<or> ses_lifecycleState s = Some L_idle"

definition assertChargePreflight :: "session \<Rightarrow> charge_input \<Rightarrow> int \<Rightarrow> int \<Rightarrow> error + unit" where
  "assertChargePreflight s i amountMinor now =
     bindE (assertDirectAppChargeAuthorized s i) (\<lambda>_.
     bindE (require (lifecycle_idle s) (ApiError 409 ''SESSION_TRANSITION_PENDING'')) (\<lambda>_.
     bindE (require (ses_status s = S_active) (ApiError 409 ''SESSION_NOT_CHARGEABLE'')) (\<lambda>_.
       assertChargeAllowedBySessionRules s i amountMinor now)))"

subsection \<open>The next release date\<close>

text \<open>\<open>setUTCMonth(month + 1)\<close> keeps the day number, and a day the month does not have runs over into the
  month after it. \<open>day_of_date\<close> is the day number of a date, with such an overflow.\<close>

definition day_of_date :: "int \<Rightarrow> int \<Rightarrow> int \<Rightarrow> int" where
  "day_of_date y m d =
     (let y' = (if m \<le> 2 then y - 1 else y); era = y' div 400; yoe = y' mod 400;
          mp = (if m > 2 then m - 3 else m + 9); doy = (153 * mp + 2) div 5 + d - 1
      in era * 146097 + yoe * 365 + yoe div 4 - yoe div 100 + doy - 719468)"

definition add_utc_month :: "int \<Rightarrow> int" where
  "add_utc_month t =
     (case civil_of_day (t div MS_PER_DAY) of (y, m, d) \<Rightarrow>
        day_of_date (if m = 12 then y + 1 else y) (if m = 12 then 1 else m + 1) d * MS_PER_DAY + t mod MS_PER_DAY)"

definition advanceReleaseDate :: "int option \<Rightarrow> release_cadence \<Rightarrow> int \<Rightarrow> int option" where
  "advanceReleaseDate current cadence now =
     (let t = opt_or current now in
      case cadence of
        RL_daily \<Rightarrow> Some (t + MS_PER_DAY)
      | RL_weekly \<Rightarrow> Some (t + 7 * MS_PER_DAY)
      | RL_monthly \<Rightarrow> Some (add_utc_month t)
      | _ \<Rightarrow> None)"

end
