(* ===== verification/Session_Wallets.thy ===== *)
theory Session_Wallets
  imports Session_Rules
begin

section \<open>Wallets and their available balance (services/session.service.ts)\<close>

text \<open>
  The balance of a wallet is recomputed from its confirmed deposits, from what its passes spent and hold,
  and from the cells the vault has on the network. The derivation of the vault script from a wallet (a hash
  of the CKB SDK) and the cell indexer are parameters: \<open>sw_vault\<close> gives the script hash, if vaults are
  configured, and \<open>sw_cells\<close> the capacities of the live cells, or \<open>None\<close> when the indexer fails.
\<close>

record wallet_doc =
  wal_walletId :: string
  wal_connected :: bool
  wal_address :: string
  wal_balance :: major
  wal_balanceMinor :: "int option"
  wal_balanceAtomic :: "int option"
  wal_currency :: string
  wal_assetId :: "string option"
  wal_moneyContractVersion :: int

datatype deposit_status = WF_pending | WF_confirmed

datatype deposit_mode = DM_treasury | DM_vault

record wallet_funding =
  wf_fundingId :: string
  wf_walletId :: string
  wf_amount :: major
  wf_amountMinor :: int
  wf_currency :: string
  wf_depositMode :: deposit_mode
  wf_vaultScriptHash :: "string option"
  wf_status :: deposit_status

datatype claim_status = CL_pending | CL_claimed | CL_expired | CL_revoked

record recipient_claim =
  cl_claimId :: string
  cl_recipientId :: string
  cl_ownerWalletId :: string
  cl_sessionId :: string
  cl_sessionRecipientIndex :: nat
  cl_channelId :: "string option"
  cl_tokenHash :: string
  cl_status :: claim_status
  cl_expiresAt :: int
  cl_claimedAt :: "int option"
  cl_revokedAt :: "int option"
  cl_destinationId :: "string option"
  cl_contactVerifiedAt :: "int option"

datatype channel_status = CS_active | CS_deleted

record claim_channel =
  ch_channelId :: string
  ch_recipientId :: string
  ch_ownerWalletId :: string
  ch_value :: "string option"
  ch_status :: channel_status
  ch_deliveryVerifiedAt :: "int option"

record session_db = nwc_db +
  wallets :: "wallet_doc list"
  wallet_fundings :: "wallet_funding list"
  claims :: "recipient_claim list"
  channels :: "claim_channel list"

interpretation claims: table claims "\<lambda>xs d. d\<lparr>claims := xs\<rparr>" cl_claimId
  by unfold_locales simp_all

record session_world =
  sw_vault :: "string \<Rightarrow> string \<Rightarrow> string option"
  sw_cells :: "string \<Rightarrow> int list option"
  sw_network :: string
  sw_sha :: "string \<Rightarrow> string"

definition LEGACY_PLACEHOLDER_BALANCE :: major where
  "LEGACY_PLACEHOLDER_BALANCE = 124050000000000"

definition legacy_placeholder_minor :: "error + int" where
  "legacy_placeholder_minor = toMinorUnits (number_text LEGACY_PLACEHOLDER_BALANCE) ''USDC''"

subsection \<open>Reading amounts\<close>

definition sessionSpentMinor :: "session \<Rightarrow> error + int" where
  "sessionSpentMinor s = fallbackMinorUnits (ses_spentMinor s) (Some (ses_spent s)) (ses_currency s)"

definition sessionLimitMinor :: "session \<Rightarrow> error + int" where
  "sessionLimitMinor s = fallbackMinorUnits (ses_limitMinor s) (Some (ses_limit s)) (ses_currency s)"

definition walletBalanceMinor :: "wallet_doc \<Rightarrow> error + int" where
  "walletBalanceMinor w = fallbackMinorUnits (wal_balanceMinor w) (Some (wal_balance w)) (wal_currency w)"

fun sumE :: "('a \<Rightarrow> error + int) \<Rightarrow> 'a list \<Rightarrow> error + int" where
  "sumE f [] = Inr 0"
| "sumE f (x # xs) = bindE (f x) (\<lambda>n. bindE (sumE f xs) (\<lambda>m. Inr (n + m)))"

definition find_wallet :: "string \<Rightarrow> 'a session_db_scheme \<Rightarrow> wallet_doc option" where
  "find_wallet i d = List.find (\<lambda>w. wal_walletId w = i) (wallets d)"

definition save_wallet :: "wallet_doc \<Rightarrow> 'a session_db_scheme \<Rightarrow> 'a session_db_scheme" where
  "save_wallet w d = d\<lparr>wallets := update_first (\<lambda>x. wal_walletId x = wal_walletId w) (\<lambda>_. w) (wallets d)\<rparr>"

definition with_balance :: "int \<Rightarrow> major \<Rightarrow> wallet_doc \<Rightarrow> wallet_doc" where
  "with_balance minor major w = w\<lparr>wal_balanceMinor := Some minor, wal_balance := major, wal_balanceAtomic := Some minor\<rparr>"

definition ensureWalletMoneyFields :: "string \<Rightarrow> ('a session_db_scheme, unit) op" where
  "ensureWalletMoneyFields walletId d =
     (case find_wallet walletId d of
        None \<Rightarrow> (Inr (), d)
      | Some w \<Rightarrow>
         (case bindE (walletBalanceMinor w) (\<lambda>b. bindE (fromMinorUnits (Some b) (wal_currency w)) (\<lambda>v. Inr (b, v))) of
            Inl e \<Rightarrow> (Inl e, d)
          | Inr (b, v) \<Rightarrow>
             if wal_balanceMinor w \<noteq> Some b \<or> wal_balance w \<noteq> v then (Inr (), save_wallet (with_balance b v w) d)
             else (Inr (), d)))"

subsection \<open>The available balance\<close>

definition fundedMinor :: "string \<Rightarrow> string \<Rightarrow> 'a session_db_scheme \<Rightarrow> error + int" where
  "fundedMinor walletId scriptHash d =
     sumE (\<lambda>f. fallbackMinorUnits (Some (wf_amountMinor f)) (Some (wf_amount f)) (wf_currency f))
       (filter (\<lambda>f. wf_walletId f = walletId \<and> wf_status f = WF_confirmed \<and> wf_depositMode f = DM_vault
          \<and> wf_vaultScriptHash f = Some scriptHash) (wallet_fundings d))"

definition reserved_part :: "session \<Rightarrow> error + int" where
  "reserved_part s =
     (if \<not> open_status (ses_status s) \<or> ses_fundingMode s = Some M_connected_wallet then Inr 0
      else bindE (sessionLimitMinor s) (\<lambda>limitMinor.
           bindE (sessionSpentMinor s) (\<lambda>spentMinor. clampMinorUnits (limitMinor - spentMinor))))"

definition ledger_balance :: "wallet_doc \<Rightarrow> string \<Rightarrow> 'a session_db_scheme \<Rightarrow> error + int \<times> int \<times> int" where
  "ledger_balance w scriptHash d =
     (let own = filter (\<lambda>s. ses_ownerWalletId s = wal_walletId w) (sessions d) in
      bindE (fundedMinor (wal_walletId w) scriptHash d) (\<lambda>funded.
      bindE (sumE sessionSpentMinor own) (\<lambda>spent.
      bindE (sumE reserved_part own) (\<lambda>reserved.
      bindE (if funded > 0 then clampMinorUnits (funded - spent - reserved) else walletBalanceMinor w) (\<lambda>available.
        Inr (funded, reserved, available))))))"

text \<open>The \<open>try\<close> around the indexer: the balance keeps its ledger value when any part of it fails.\<close>

definition live_balance ::
  "session_world \<Rightarrow> int \<Rightarrow> wallet_doc \<Rightarrow> string \<Rightarrow> int \<Rightarrow> int \<Rightarrow> int \<Rightarrow> 'a session_db_scheme \<Rightarrow> int \<times> 'a session_db_scheme" where
  "live_balance w now wallet scriptHash funded reserved available d =
     (case sw_cells w scriptHash of
        None \<Rightarrow> (available, d)
      | Some cells \<Rightarrow>
         (let live = sum_list cells in
          case recordSecuredFundingBalance now (wal_walletId wallet) scriptHash live now d of
            (Inl e, d1) \<Rightarrow> (available, d1)
          | (Inr _, d1) \<Rightarrow>
             (case clampMinorUnits (live - reserved) of
                Inl e \<Rightarrow> (available, d1)
              | Inr liveAvailable \<Rightarrow>
                 (if funded > 0 then min available liveAvailable
                  else if live > 0 then liveAvailable else available, d1))))"

definition reconcileWalletBalanceWithCurrentVault ::
  "session_world \<Rightarrow> int \<Rightarrow> string \<Rightarrow> ('a session_db_scheme, unit) op" where
  "reconcileWalletBalanceWithCurrentVault w now walletId d =
     (case find_wallet walletId d of
        None \<Rightarrow> (Inr (), d)
      | Some wallet \<Rightarrow>
         (case sw_vault w walletId (wal_address wallet) of
            None \<Rightarrow> ensureWalletMoneyFields walletId d
          | Some scriptHash \<Rightarrow>
             (case ledger_balance wallet scriptHash d of
                Inl e \<Rightarrow> (Inl e, d)
              | Inr (funded, reserved, available0) \<Rightarrow>
                 (case live_balance w now wallet scriptHash funded reserved available0 d of (available, d1) \<Rightarrow>
                    (case bindE (legacyMinorToAtomicAmount available) (\<lambda>_.
                          bindE (assetIdForLegacyCurrency POLICY_CURRENCY) (\<lambda>assetId.
                          bindE (fromMinorUnits (Some available) POLICY_CURRENCY) (\<lambda>v. Inr (assetId, v)))) of
                       Inl e \<Rightarrow> (Inl e, d1)
                     | Inr (assetId, v) \<Rightarrow>
                        (Inr (), d1\<lparr>wallets := update_first (\<lambda>x. wal_walletId x = walletId)
                           (\<lambda>x. (with_balance available v x)\<lparr>wal_currency := POLICY_CURRENCY,
                              wal_assetId := Some assetId, wal_moneyContractVersion := 2\<rparr>) (wallets d1)\<rparr>))))))"

subsection \<open>Connecting\<close>

definition resetUntouchedLegacyPlaceholderBalance :: "string \<Rightarrow> ('a session_db_scheme, unit) op" where
  "resetUntouchedLegacyPlaceholderBalance walletId d =
     (case find_wallet walletId d of
        None \<Rightarrow> (Inr (), d)
      | Some w \<Rightarrow>
         (case bindE (walletBalanceMinor w) (\<lambda>b. bindE legacy_placeholder_minor (\<lambda>p. Inr (b = p))) of
            Inl e \<Rightarrow> (Inl e, d)
          | Inr False \<Rightarrow> (Inr (), d)
          | Inr True \<Rightarrow>
             if list_ex (\<lambda>s. ses_ownerWalletId s = walletId) (sessions d)
                \<or> list_ex (\<lambda>f. wf_walletId f = walletId) (wallet_fundings d)
             then (Inr (), d) else (Inr (), save_wallet (with_balance 0 0 w) d)))"

definition walletIdFromAddress :: "string \<Rightarrow> string" where
  "walletIdFromAddress address = toLowerCase address"

definition upsert_wallet :: "string \<Rightarrow> string \<Rightarrow> 'a session_db_scheme \<Rightarrow> 'a session_db_scheme" where
  "upsert_wallet walletId address d =
     (if find_wallet walletId d = None
      then d\<lparr>wallets := wallets d @
        [\<lparr>wal_walletId = walletId, wal_connected = True, wal_address = address, wal_balance = 0,
          wal_balanceMinor = Some 0, wal_balanceAtomic = Some 0, wal_currency = POLICY_CURRENCY,
          wal_assetId = Some ''ckb:ckb'', wal_moneyContractVersion = 2\<rparr>]\<rparr>
      else d\<lparr>wallets := update_first (\<lambda>x. wal_walletId x = walletId)
        (\<lambda>x. x\<lparr>wal_connected := True, wal_address := address\<rparr>) (wallets d)\<rparr>)"

definition wallet_or_404 :: "string \<Rightarrow> ('a session_db_scheme, wallet_doc) op" where
  "wallet_or_404 walletId d =
     (case find_wallet walletId d of None \<Rightarrow> (Inl (ApiError 404 ''WALLET_NOT_FOUND''), d) | Some w \<Rightarrow> (Inr w, d))"

definition ensureWalletForAddress :: "session_world \<Rightarrow> int \<Rightarrow> string \<Rightarrow> ('a session_db_scheme, wallet_doc) op" where
  "ensureWalletForAddress w now address d =
     (let walletId = walletIdFromAddress address in
      chain (resetUntouchedLegacyPlaceholderBalance walletId) (\<lambda>_.
      chain (wallet_or_404 walletId) (\<lambda>_.
      chain (reconcileWalletBalanceWithCurrentVault w now walletId) (\<lambda>_.
        wallet_or_404 walletId))) (upsert_wallet walletId address d))"

definition getWalletDocument :: "session_world \<Rightarrow> int \<Rightarrow> string \<Rightarrow> ('a session_db_scheme, wallet_doc) op" where
  "getWalletDocument w now walletId =
     chain (reconcileWalletBalanceWithCurrentVault w now walletId) (\<lambda>_.
     chain (resetUntouchedLegacyPlaceholderBalance walletId) (\<lambda>_. wallet_or_404 walletId))"

subsection \<open>What reconciling leaves alone\<close>

text \<open>Reconciling a wallet only writes the wallet and the observed balance of its secured source.\<close>

definition only_wallets :: "'a session_db_scheme \<Rightarrow> 'a session_db_scheme \<Rightarrow> bool" where
  "only_wallets d d' \<longleftrightarrow> sessions d' = sessions d \<and> attempts d' = attempts d \<and> day_counters d' = day_counters d
     \<and> allocations d' = allocations d"

lemma only_wallets_refl [simp]: "only_wallets d d"
  by (simp add: only_wallets_def)

lemma only_wallets_trans: "only_wallets d e \<Longrightarrow> only_wallets e f \<Longrightarrow> only_wallets d f"
  by (simp add: only_wallets_def)

lemma save_wallet_only [simp]: "only_wallets d (save_wallet w d)"
  by (simp add: only_wallets_def save_wallet_def)

lemma record_balance_only:
  "recordSecuredFundingBalance now w r n t d = (x, d') \<Longrightarrow> only_wallets d d'"
  by (auto simp: recordSecuredFundingBalance_def only_wallets_def save_source_def split: option.splits sum.splits)

lemma ensureWalletMoneyFields_only: "ensureWalletMoneyFields walletId d = (r, d') \<Longrightarrow> only_wallets d d'"
  by (auto simp: ensureWalletMoneyFields_def split: option.splits sum.splits if_splits)

lemma live_balance_only: "live_balance w now wallet h f r a d = (x, d') \<Longrightarrow> only_wallets d d'"
  by (auto simp: live_balance_def Let_def dest!: record_balance_only split: option.splits sum.splits prod.splits)

lemma reconcile_only:
  "reconcileWalletBalanceWithCurrentVault w now walletId d = (r, d') \<Longrightarrow> only_wallets d d'"
  unfolding reconcileWalletBalanceWithCurrentVault_def
  by (auto dest!: ensureWalletMoneyFields_only live_balance_only simp: only_wallets_def
      split: option.splits sum.splits prod.splits)

lemma reset_only: "resetUntouchedLegacyPlaceholderBalance walletId d = (r, d') \<Longrightarrow> only_wallets d d'"
  by (auto simp: resetUntouchedLegacyPlaceholderBalance_def split: option.splits sum.splits if_splits bool.splits)

lemma wallet_or_404_only: "wallet_or_404 walletId d = (r, d') \<Longrightarrow> d' = d"
  by (auto simp: wallet_or_404_def split: option.splits)

lemma getWalletDocument_only: "getWalletDocument w now walletId d = (r, d') \<Longrightarrow> only_wallets d d'"
  by (auto simp: getWalletDocument_def chain_def split: sum.splits prod.splits
      dest!: reconcile_only reset_only wallet_or_404_only intro: only_wallets_trans)

end
