(* ===== verification/Session_Lifecycle.thy ===== *)
theory Session_Lifecycle
  imports Session_Wallets
begin

section \<open>Pausing, topping up and closing a pass (services/session.service.ts)\<close>

text \<open>
  A top-up or a close is a sequence of database statements around one call of the Fiber node: a transaction
  that claims the pass, a statement that records the submission, the call, a statement that records its
  outcome and a transaction that completes the operation. Each statement is an operation here, so that
  other requests and workers can run between any two of them; \<open>topUpSession\<close> and \<open>closeSession\<close> compose
  them for a request that runs alone. The answer of the Fiber node is a parameter. The log entries of a pass
  and the overview published to the owner are not kept.
\<close>

record fiber_result =
  fr_provider :: string
  fr_network :: string
  fr_proofId :: string

definition getSessionOrThrow :: "string \<Rightarrow> string option \<Rightarrow> ('a core_db_scheme, session) op" where
  "getSessionOrThrow publicId walletId d =
     (case List.find (\<lambda>s. ses_publicId s = publicId
             \<and> (case nonempty walletId of None \<Rightarrow> True | Some w \<Rightarrow> ses_ownerWalletId s = w)) (sessions d) of
        None \<Rightarrow> (Inl (ApiError 404 ''SESSION_NOT_FOUND''), d)
      | Some s \<Rightarrow> (Inr s, d))"

definition sessionTransitionPending :: error where
  "sessionTransitionPending = ApiError 409 ''SESSION_TRANSITION_PENDING''"

definition require_open :: "session \<Rightarrow> error + unit" where
  "require_open s = require (open_status (ses_status s)) (ApiError 409 ''SESSION_CLOSED'')"

definition require_idle :: "session \<Rightarrow> error + unit" where
  "require_idle s = require (lifecycle_idle s) sessionTransitionPending"

definition edit_detail :: "(session_detail \<Rightarrow> session_detail) \<Rightarrow> session \<Rightarrow> session" where
  "edit_detail f s = s\<lparr>ses_detail := f (ses_detail s)\<rparr>"

text \<open>The fields a claimed operation writes into the pass.\<close>

record operation =
  lo_id :: string
  lo_key :: string
  lo_at :: int

definition begin_lifecycle :: "lifecycle_state \<Rightarrow> operation \<Rightarrow> int \<Rightarrow> session \<Rightarrow> session" where
  "begin_lifecycle st lo amountMinor s =
     edit_detail (\<lambda>x. x\<lparr>det_lifecycleOperationId := Some (lo_id lo), det_lifecycleIdempotencyKey := Some (lo_key lo),
         det_lifecycleAmountMinor := Some amountMinor, det_lifecycleProviderStatus := Some LP_not_started,
         det_lifecycleStartedAt := Some (lo_at lo), det_lifecycleCompletedAt := None,
         det_lifecycleFailureCode := None\<rparr>)
       (s\<lparr>ses_lifecycleState := Some st\<rparr>)"

definition end_lifecycle :: "int \<Rightarrow> session \<Rightarrow> session" where
  "end_lifecycle now s =
     edit_detail (\<lambda>x. x\<lparr>det_fiberProofId := det_lifecycleProofId x, det_lifecycleCompletedAt := Some now,
         det_lifecycleFailureCode := None\<rparr>)
       (s\<lparr>ses_fiberProvider := det_lifecycleProvider (ses_detail s), ses_fiberNetwork := det_lifecycleNetwork (ses_detail s),
          ses_lifecycleState := Some L_idle\<rparr>)"

subsection \<open>The statements between the two transactions\<close>

definition update_session :: "(session \<Rightarrow> bool) \<Rightarrow> (session \<Rightarrow> session) \<Rightarrow> 'a core_db_scheme \<Rightarrow> bool \<times> 'a core_db_scheme" where
  "update_session p f d = (list_ex p (sessions d), d\<lparr>sessions := update_first p f (sessions d)\<rparr>)"

definition of_operation :: "string \<Rightarrow> string \<Rightarrow> string \<Rightarrow> session \<Rightarrow> bool" where
  "of_operation publicId walletId operationId s \<longleftrightarrow> ses_publicId s = publicId \<and> ses_ownerWalletId s = walletId
     \<and> det_lifecycleOperationId (ses_detail s) = Some operationId"

definition mark_lifecycle_submitted :: "string \<Rightarrow> string \<Rightarrow> string \<Rightarrow> 'a core_db_scheme \<Rightarrow> bool \<times> 'a core_db_scheme" where
  "mark_lifecycle_submitted publicId walletId operationId =
     update_session (\<lambda>s. of_operation publicId walletId operationId s
         \<and> det_lifecycleProviderStatus (ses_detail s) = Some LP_not_started)
       (edit_detail (\<lambda>x. x\<lparr>det_lifecycleProviderStatus := Some LP_submitted\<rparr>))"

definition mark_lifecycle_uncertain ::
  "string \<Rightarrow> string \<Rightarrow> string \<Rightarrow> lifecycle_state \<Rightarrow> string \<Rightarrow> 'a core_db_scheme \<Rightarrow> bool \<times> 'a core_db_scheme" where
  "mark_lifecycle_uncertain publicId walletId operationId st failureCode =
     update_session (\<lambda>s. of_operation publicId walletId operationId s \<and> ses_lifecycleState s = Some st)
       (edit_detail (\<lambda>x. x\<lparr>det_lifecycleProviderStatus := Some LP_uncertain, det_lifecycleFailureCode := Some failureCode\<rparr>))"

definition mark_lifecycle_succeeded ::
  "string \<Rightarrow> string \<Rightarrow> string \<Rightarrow> lifecycle_state \<Rightarrow> fiber_result \<Rightarrow> 'a core_db_scheme \<Rightarrow> bool \<times> 'a core_db_scheme" where
  "mark_lifecycle_succeeded publicId walletId operationId st r =
     update_session (\<lambda>s. of_operation publicId walletId operationId s \<and> ses_lifecycleState s = Some st)
       (edit_detail (\<lambda>x. x\<lparr>det_lifecycleProviderStatus := Some LP_succeeded, det_lifecycleProvider := Some (fr_provider r),
          det_lifecycleNetwork := Some (fr_network r), det_lifecycleProofId := Some (fr_proofId r)\<rparr>))"

definition ready_to_complete :: "string \<Rightarrow> string \<Rightarrow> string \<Rightarrow> lifecycle_state \<Rightarrow> session \<Rightarrow> bool" where
  "ready_to_complete publicId walletId operationId st s \<longleftrightarrow> of_operation publicId walletId operationId s
     \<and> ses_lifecycleState s = Some st \<and> det_lifecycleProviderStatus (ses_detail s) = Some LP_succeeded"

subsection \<open>Topping up\<close>

definition claim_top_up_body :: "operation \<Rightarrow> string \<Rightarrow> string \<Rightarrow> int \<Rightarrow> ('a core_db_scheme, session option) op" where
  "claim_top_up_body lo publicId walletId topUpMinor =
     chain (getSessionOrThrow publicId (Some walletId)) (\<lambda>s d.
       case require_open s of
         Inl e \<Rightarrow> (Inl e, d)
       | Inr _ \<Rightarrow>
          if det_lifecycleIdempotencyKey (ses_detail s) = Some (lo_key lo) \<and> ses_lifecycleState s = Some L_idle
             \<and> det_lifecycleCompletedAt (ses_detail s) \<noteq> None
          then (Inr None, d)
          else (case require_idle s of
            Inl e \<Rightarrow> (Inl e, d)
          | Inr _ \<Rightarrow>
             chain (topUpFundingAllocation (lo_at lo) publicId topUpMinor) (\<lambda>_ d1.
               let s' = begin_lifecycle L_top_up_pending lo topUpMinor s
               in (Inr (Some s'), save_session s' d1)) d))"

definition claim_top_up :: "operation \<Rightarrow> string \<Rightarrow> string \<Rightarrow> int \<Rightarrow> ('a core_db_scheme, session option) op" where
  "claim_top_up lo publicId walletId topUpMinor = transaction (claim_top_up_body lo publicId walletId topUpMinor)"

definition topped_up :: "int \<Rightarrow> int \<Rightarrow> major \<Rightarrow> session \<Rightarrow> session" where
  "topped_up now nextLimitMinor limit s = end_lifecycle now (s\<lparr>ses_limitMinor := Some nextLimitMinor, ses_limit := limit\<rparr>)"

definition complete_top_up_body :: "int \<Rightarrow> string \<Rightarrow> string \<Rightarrow> string \<Rightarrow> ('a core_db_scheme, bool) op" where
  "complete_top_up_body now publicId walletId operationId d =
     (case List.find (ready_to_complete publicId walletId operationId L_top_up_pending) (sessions d) of
        None \<Rightarrow> (Inr False, d)
      | Some s \<Rightarrow>
         let amountMinor = opt_or (det_lifecycleAmountMinor (ses_detail s)) 0 in
         (case bindE (sessionLimitMinor s) (\<lambda>limitMinor.
               bindE (fromMinorUnits (Some (limitMinor + amountMinor)) (ses_currency s)) (\<lambda>limit.
               bindE (fromMinorUnits (Some amountMinor) (ses_currency s)) (\<lambda>_. Inr (limitMinor + amountMinor, limit)))) of
            Inl e \<Rightarrow> (Inl e, d)
          | Inr (nextLimitMinor, limit) \<Rightarrow> (Inr True, save_session (topped_up now nextLimitMinor limit s) d)))"

definition completeTopUpLifecycle :: "int \<Rightarrow> string \<Rightarrow> string \<Rightarrow> string \<Rightarrow> ('a core_db_scheme, bool) op" where
  "completeTopUpLifecycle now publicId walletId operationId = transaction (complete_top_up_body now publicId walletId operationId)"

text \<open>
  A pass without a Fiber session needs no call. \<open>answer\<close> is what the node gives, and an error that is not an
  \<open>ApiError\<close> already is wrapped as one.
\<close>

definition fiberProviderFailure :: "string \<Rightarrow> error \<Rightarrow> error" where
  "fiberProviderFailure failure e = (case e of ApiError s c \<Rightarrow> ApiError s c | _ \<Rightarrow> ApiError 502 failure)"

definition fiber_if_open :: "string \<Rightarrow> session_world \<Rightarrow> session \<Rightarrow> error + fiber_result \<Rightarrow> error + fiber_result" where
  "fiber_if_open failure w s answer =
     (if nonempty (det_fiberSessionId (ses_detail s)) = None
      then Inr \<lparr>fr_provider = ''rpc'', fr_network = sw_network w, fr_proofId = []\<rparr>
      else (case answer of Inl e \<Rightarrow> Inl (fiberProviderFailure failure e) | Inr r \<Rightarrow> Inr r))"

definition topUpFiberSessionIfOpen :: "session_world \<Rightarrow> session \<Rightarrow> error + fiber_result \<Rightarrow> error + fiber_result" where
  "topUpFiberSessionIfOpen = fiber_if_open ''FIBER_TOP_UP_FAILED''"

definition settleFiberSessionIfOpen :: "session_world \<Rightarrow> session \<Rightarrow> error + fiber_result \<Rightarrow> error + fiber_result" where
  "settleFiberSessionIfOpen = fiber_if_open ''FIBER_SETTLEMENT_FAILED''"

definition failureFromError :: "error \<Rightarrow> string" where
  "failureFromError e = (case e of ApiError _ c \<Rightarrow> c | _ \<Rightarrow> ''CHARGE_FAILED'')"

datatype retry = Replayed | Resume string | Proceed

definition top_up_retry :: "session \<Rightarrow> string \<Rightarrow> error + retry" where
  "top_up_retry initial operationKey =
     (let x = ses_detail initial; same = (det_lifecycleIdempotencyKey x = Some operationKey) in
      if same \<and> ses_lifecycleState initial = Some L_idle \<and> det_lifecycleCompletedAt x \<noteq> None then Inr Replayed
      else (case (same \<and> ses_lifecycleState initial = Some L_top_up_pending
                    \<and> det_lifecycleProviderStatus x = Some LP_succeeded, nonempty (det_lifecycleOperationId x)) of
              (True, Some i) \<Rightarrow> Inr (Resume i)
            | _ \<Rightarrow> bindE (require_idle initial) (\<lambda>_. Inr Proceed)))"

definition run_top_up ::
  "session_world \<Rightarrow> operation \<Rightarrow> string \<Rightarrow> string \<Rightarrow> int \<Rightarrow> error + fiber_result \<Rightarrow> ('a core_db_scheme, unit) op" where
  "run_top_up w lo publicId walletId topUpMinor answer =
     chain (claim_top_up lo publicId walletId topUpMinor) (\<lambda>claimed d1.
       case claimed of
         None \<Rightarrow> (Inr (), d1)
       | Some s \<Rightarrow>
          let d2 = snd (mark_lifecycle_submitted publicId walletId (lo_id lo) d1) in
          (case topUpFiberSessionIfOpen w s answer of
             Inl e \<Rightarrow> (Inl (ApiError 503 ''SESSION_TOP_UP_OUTCOME_UNCERTAIN''),
                snd (mark_lifecycle_uncertain publicId walletId (lo_id lo) L_top_up_pending (failureFromError e) d2))
           | Inr r \<Rightarrow>
              (case mark_lifecycle_succeeded publicId walletId (lo_id lo) L_top_up_pending r d2 of (marked, d3) \<Rightarrow>
                 if \<not> marked then (Inl (ApiError 503 ''SESSION_TOP_UP_FINALIZATION_PENDING''), d3)
                 else chain (completeTopUpLifecycle (lo_at lo) publicId walletId (lo_id lo)) (\<lambda>_ d4.
                        (Inr (), writeAuditLog walletId ''session.top_up'' ''session'' publicId d4)) d3)))"

definition topUpSession ::
  "session_world \<Rightarrow> operation \<Rightarrow> string \<Rightarrow> string \<Rightarrow> major \<Rightarrow> error + fiber_result \<Rightarrow> ('a session_db_scheme, wallet_doc) op" where
  "topUpSession w lo publicId walletId amount answer =
     chain (getSessionOrThrow publicId (Some walletId)) (\<lambda>initial d.
       case bindE (toMinorUnits (number_text amount) (ses_currency initial)) (\<lambda>topUpMinor.
            bindE (require (topUpMinor > 0) (ApiError 400 ''INVALID_TOP_UP_AMOUNT'')) (\<lambda>_.
            bindE (require_open initial) (\<lambda>_.
            bindE (top_up_retry initial (lo_key lo)) (\<lambda>r. Inr (topUpMinor, r))))) of
         Inl e \<Rightarrow> (Inl e, d)
       | Inr (topUpMinor, r) \<Rightarrow>
          chain (case r of
                   Replayed \<Rightarrow> (\<lambda>d. (Inr (), d))
                 | Resume i \<Rightarrow> chain (completeTopUpLifecycle (lo_at lo) publicId walletId i) (\<lambda>_ d. (Inr (), d))
                 | Proceed \<Rightarrow> chain (reconcileWalletBalanceWithCurrentVault w (lo_at lo) walletId) (\<lambda>_.
                     run_top_up w lo publicId walletId topUpMinor answer))
            (\<lambda>_. getWalletDocument w (lo_at lo) walletId) d)"

subsection \<open>Pausing\<close>

text \<open>The request reads the pass, decides, and saves the changed fields with a filter on the identifier only.\<close>

definition plan_toggle :: "session \<Rightarrow> error + session_status" where
  "plan_toggle s =
     bindE (require_open s) (\<lambda>_. bindE (require_idle s) (\<lambda>_.
       Inr (if ses_status s = S_paused then S_active else S_paused)))"

definition toggled_session :: "session_status \<Rightarrow> session \<Rightarrow> session" where
  "toggled_session st s =
     edit_detail (\<lambda>x. x\<lparr>det_fiberStatus := Some (if st = S_paused then ''paused'' else ''active'')\<rparr>) (s\<lparr>ses_status := st\<rparr>)"

definition write_toggle :: "string \<Rightarrow> session_status \<Rightarrow> 'a core_db_scheme \<Rightarrow> 'a core_db_scheme" where
  "write_toggle publicId st d = snd (update_session (\<lambda>s. ses_publicId s = publicId) (toggled_session st) d)"

definition togglePauseSession ::
  "session_world \<Rightarrow> int \<Rightarrow> string \<Rightarrow> string \<Rightarrow> ('a session_db_scheme, wallet_doc) op" where
  "togglePauseSession w now publicId walletId =
     chain (getSessionOrThrow publicId (Some walletId)) (\<lambda>s d.
       case plan_toggle s of
         Inl e \<Rightarrow> (Inl e, d)
       | Inr st \<Rightarrow>
          getWalletDocument w now walletId
            (writeAuditLog walletId (if st = S_active then ''session.resumed'' else ''session.paused'') ''session'' publicId
              (write_toggle publicId st d)))"

subsection \<open>Closing\<close>

datatype close_reason = CR_revoked | CR_settled

definition close_status :: "close_reason \<Rightarrow> session_status" where
  "close_status r = (case r of CR_revoked \<Rightarrow> S_revoked | CR_settled \<Rightarrow> S_settled)"

definition close_state :: "close_reason \<Rightarrow> lifecycle_state" where
  "close_state r = (case r of CR_revoked \<Rightarrow> L_revoke_pending | CR_settled \<Rightarrow> L_settle_pending)"

definition close_text :: "close_reason \<Rightarrow> string" where
  "close_text r = (case r of CR_revoked \<Rightarrow> ''revoked'' | CR_settled \<Rightarrow> ''settled'')"

definition refund_of :: "session \<Rightarrow> error + int" where
  "refund_of s = bindE (sessionLimitMinor s) (\<lambda>l. bindE (sessionSpentMinor s) (\<lambda>p. clampMinorUnits (l - p)))"

definition claim_close_body :: "operation \<Rightarrow> string \<Rightarrow> string \<Rightarrow> close_reason \<Rightarrow> ('a core_db_scheme, session option) op" where
  "claim_close_body lo publicId walletId reason =
     chain (getSessionOrThrow publicId (Some walletId)) (\<lambda>s d.
       if ses_status s = close_status reason then (Inr None, d)
       else (case bindE (require_open s) (\<lambda>_. bindE (require_idle s) (\<lambda>_.
                  bindE (require (\<not> ses_reservedOf s > 0) (ApiError 409 ''SESSION_CHARGES_PENDING'')) (\<lambda>_. refund_of s))) of
               Inl e \<Rightarrow> (Inl e, d)
             | Inr refundMinor \<Rightarrow>
                let s' = begin_lifecycle (close_state reason) lo refundMinor s in (Inr (Some s'), save_session s' d)))"

definition claim_close :: "operation \<Rightarrow> string \<Rightarrow> string \<Rightarrow> close_reason \<Rightarrow> ('a core_db_scheme, session option) op" where
  "claim_close lo publicId walletId reason = transaction (claim_close_body lo publicId walletId reason)"

definition closed_session :: "int \<Rightarrow> close_reason \<Rightarrow> session \<Rightarrow> session" where
  "closed_session now reason s =
     edit_detail (\<lambda>x. x\<lparr>det_fiberStatus := Some (close_text reason)\<rparr>) ((end_lifecycle now s)\<lparr>ses_status := close_status reason\<rparr>)"

definition REFUND_MISMATCH :: error where
  "REFUND_MISMATCH = PlainError ''Pass refund and funding allocation release do not match.''"

definition complete_close_body :: "int \<Rightarrow> string \<Rightarrow> string \<Rightarrow> string \<Rightarrow> close_reason \<Rightarrow> ('a core_db_scheme, bool) op" where
  "complete_close_body now publicId walletId operationId reason d =
     (case List.find (ready_to_complete publicId walletId operationId (close_state reason)) (sessions d) of
        None \<Rightarrow> (Inr False, d)
      | Some s \<Rightarrow>
         let refundMinor = opt_or (det_lifecycleAmountMinor (ses_detail s)) 0 in
         (case fromMinorUnits (Some refundMinor) (ses_currency s) of
            Inl e \<Rightarrow> (Inl e, d)
          | Inr _ \<Rightarrow>
             chain (releaseFundingAllocation now publicId) (\<lambda>releasedMinor d1.
               if releasedMinor \<noteq> 0 \<and> releasedMinor \<noteq> refundMinor then (Inl REFUND_MISMATCH, d1)
               else (Inr True, d1)) (save_session (closed_session now reason s) d)))"

definition completeCloseLifecycle :: "int \<Rightarrow> string \<Rightarrow> string \<Rightarrow> string \<Rightarrow> close_reason \<Rightarrow> ('a core_db_scheme, bool) op" where
  "completeCloseLifecycle now publicId walletId operationId reason =
     transaction (complete_close_body now publicId walletId operationId reason)"

definition close_retry :: "session \<Rightarrow> string \<Rightarrow> close_reason \<Rightarrow> error + retry" where
  "close_retry initial operationKey reason =
     (let x = ses_detail initial in
      if ses_status initial = close_status reason then Inr Replayed
      else bindE (require_open initial) (\<lambda>_.
        case (det_lifecycleIdempotencyKey x = Some operationKey \<and> ses_lifecycleState initial = Some (close_state reason)
                \<and> det_lifecycleProviderStatus x = Some LP_succeeded, nonempty (det_lifecycleOperationId x)) of
          (True, Some i) \<Rightarrow> Inr (Resume i)
        | _ \<Rightarrow> bindE (require_idle initial) (\<lambda>_. Inr Proceed)))"

definition run_close ::
  "session_world \<Rightarrow> operation \<Rightarrow> string \<Rightarrow> string \<Rightarrow> close_reason \<Rightarrow> error + fiber_result \<Rightarrow> ('a core_db_scheme, unit) op" where
  "run_close w lo publicId walletId reason answer =
     chain (claim_close lo publicId walletId reason) (\<lambda>claimed d1.
       case claimed of
         None \<Rightarrow> (Inr (), d1)
       | Some s \<Rightarrow>
          let d2 = snd (mark_lifecycle_submitted publicId walletId (lo_id lo) d1) in
          (case settleFiberSessionIfOpen w s answer of
             Inl e \<Rightarrow> (Inl (ApiError 503 ''SESSION_CLOSE_OUTCOME_UNCERTAIN''),
                snd (mark_lifecycle_uncertain publicId walletId (lo_id lo) (close_state reason) (failureFromError e) d2))
           | Inr r \<Rightarrow>
              (case mark_lifecycle_succeeded publicId walletId (lo_id lo) (close_state reason) r d2 of (marked, d3) \<Rightarrow>
                 if \<not> marked then (Inl (ApiError 503 ''SESSION_CLOSE_FINALIZATION_PENDING''), d3)
                 else chain (completeCloseLifecycle (lo_at lo) publicId walletId (lo_id lo) reason) (\<lambda>_ d4.
                        (Inr (), writeAuditLog walletId ((''session.'' @ close_text reason)) ''session'' publicId d4)) d3)))"

definition closeSession ::
  "session_world \<Rightarrow> operation \<Rightarrow> string \<Rightarrow> string \<Rightarrow> close_reason \<Rightarrow> error + fiber_result \<Rightarrow> ('a session_db_scheme, wallet_doc) op" where
  "closeSession w lo publicId walletId reason answer =
     chain (getSessionOrThrow publicId (Some walletId)) (\<lambda>initial d.
       case close_retry initial (lo_key lo) reason of
         Inl e \<Rightarrow> (Inl e, d)
       | Inr r \<Rightarrow>
          chain (case r of
                   Replayed \<Rightarrow> (\<lambda>d. (Inr (), d))
                 | Resume i \<Rightarrow> chain (completeCloseLifecycle (lo_at lo) publicId walletId i reason) (\<lambda>_ d. (Inr (), d))
                 | Proceed \<Rightarrow> run_close w lo publicId walletId reason answer)
            (\<lambda>_. getWalletDocument w (lo_at lo) walletId) d)"

definition revokeSession ::
  "session_world \<Rightarrow> operation \<Rightarrow> string \<Rightarrow> string \<Rightarrow> error + fiber_result \<Rightarrow> ('a session_db_scheme, wallet_doc) op" where
  "revokeSession w lo publicId walletId = closeSession w lo publicId walletId CR_revoked"

definition settleSession ::
  "session_world \<Rightarrow> operation \<Rightarrow> string \<Rightarrow> string \<Rightarrow> error + fiber_result \<Rightarrow> ('a session_db_scheme, wallet_doc) op" where
  "settleSession w lo publicId walletId = closeSession w lo publicId walletId CR_settled"

subsection \<open>Granting an application access\<close>

definition granted_session :: "app_record \<Rightarrow> string \<Rightarrow> int \<Rightarrow> string list \<Rightarrow> session \<Rightarrow> session" where
  "granted_session a walletId now permissions s =
     edit_detail (\<lambda>x. x\<lparr>det_serviceAddress := app_serviceAddress a, det_appGrantCreatedAt := Some now\<rparr>)
       (s\<lparr>ses_appId := Some (app_appId a), ses_appPermissions := permissions, ses_appGrantOwnerWalletId := Some walletId\<rparr>)"

definition write_grant ::
  "string \<Rightarrow> app_record \<Rightarrow> string \<Rightarrow> int \<Rightarrow> string list \<Rightarrow> 'a core_db_scheme \<Rightarrow> 'a core_db_scheme" where
  "write_grant publicId a walletId now permissions d =
     snd (update_session (\<lambda>s. ses_publicId s = publicId) (granted_session a walletId now permissions) d)"

definition own_active_app :: "string \<Rightarrow> string \<Rightarrow> 'a metered_db_scheme \<Rightarrow> app_record option" where
  "own_active_app appId walletId d =
     List.find (\<lambda>a. app_appId a = appId \<and> app_ownerWalletId a = walletId \<and> app_status a = AP_active) (apps d)"

definition grantAppAccessToSession ::
  "session_world \<Rightarrow> int \<Rightarrow> string \<Rightarrow> string \<Rightarrow> string \<Rightarrow> string list \<Rightarrow> ('a session_db_scheme, wallet_doc) op" where
  "grantAppAccessToSession w now publicId walletId appId permissions =
     chain (getSessionOrThrow publicId (Some walletId)) (\<lambda>s d.
       case own_active_app appId walletId d of
         None \<Rightarrow> (Inl (ApiError 403 ''APP_GRANT_NOT_ALLOWED''), d)
       | Some a \<Rightarrow>
          (case require_open s of
             Inl e \<Rightarrow> (Inl e, d)
           | Inr _ \<Rightarrow>
              getWalletDocument w now walletId
                (writeAuditLog walletId ''session.app_grant.created'' ''session'' publicId
                  (write_grant publicId a walletId now (normalizeSessionAppPermissions permissions True) d))))"

subsection \<open>Expiry\<close>

text \<open>
  \<open>expireDueSessions\<close> of the reconciliation worker: the open passes past their expiry, at most \<open>limit\<close> of
  them, oldest first. Reading the remaining amount can throw, which ends the loop.
\<close>

definition due_session :: "int \<Rightarrow> session \<Rightarrow> bool" where
  "due_session now s \<longleftrightarrow> open_status (ses_status s) \<and> (case ses_expiryAt s of None \<Rightarrow> False | Some t \<Rightarrow> t \<le> now)"

definition expired_session :: "session \<Rightarrow> session" where
  "expired_session s = edit_detail (\<lambda>x. x\<lparr>det_fiberStatus := Some ''expired''\<rparr>) (s\<lparr>ses_status := S_expired\<rparr>)"

definition write_expired :: "string \<Rightarrow> 'a core_db_scheme \<Rightarrow> 'a core_db_scheme" where
  "write_expired publicId d = snd (update_session (\<lambda>s. ses_publicId s = publicId) expired_session d)"

definition expire_one :: "session_world \<Rightarrow> int \<Rightarrow> session \<Rightarrow> ('a session_db_scheme, unit) op" where
  "expire_one w now s d =
     (case bindE (refund_of s) (\<lambda>r. fromMinorUnits (Some r) (ses_currency s)) of
        Inl e \<Rightarrow> (Inl e, d)
      | Inr _ \<Rightarrow>
         chain (reconcileWalletBalanceWithCurrentVault w now (ses_ownerWalletId s)) (\<lambda>_ d1.
           (Inr (), writeAuditLog (ses_ownerWalletId s) ''reconciliation.session_expired'' ''session'' (ses_publicId s) d1))
           (write_expired (ses_publicId s) d))"

fun expire_all :: "session_world \<Rightarrow> int \<Rightarrow> session list \<Rightarrow> ('a session_db_scheme, int) op" where
  "expire_all w now [] d = (Inr 0, d)"
| "expire_all w now (s # ss) d =
     chain (expire_one w now s) (\<lambda>_. chain (expire_all w now ss) (\<lambda>n d'. (Inr (n + 1), d'))) d"

definition expireDueSessions :: "session_world \<Rightarrow> int \<Rightarrow> nat \<Rightarrow> ('a session_db_scheme, int) op" where
  "expireDueSessions w now limit d =
     expire_all w now (take limit (sort_by (\<lambda>a b. opt_or (ses_expiryAt a) 0 \<le> opt_or (ses_expiryAt b) 0)
       (filter (due_session now) (sessions d)))) d"

text \<open>The block of \<open>chargeSession\<close> that expires a pass at its first charge after the expiry.\<close>

definition expire_at_charge :: "int \<Rightarrow> bool \<Rightarrow> session \<Rightarrow> ('a core_db_scheme, unit) op" where
  "expire_at_charge now isScheduledPayout s d =
     (if (case ses_expiryAt s of None \<Rightarrow> False | Some t \<Rightarrow> t \<le> now) \<and> \<not> isScheduledPayout
      then (Inl (ApiError 410 ''SESSION_EXPIRED''), write_expired (ses_publicId s) d) else (Inr (), d))"

end
