(* ===== verification/Session_Create.thy ===== *)
theory Session_Create
  imports Session_Lifecycle
begin

section \<open>Creating a pass (services/session.service.ts, services/recipientIdentity.service.ts)\<close>

text \<open>
  The request is validated, the funding source chosen, and one transaction takes the allocation and creates
  the pass with its recipients. Fresh identifiers and claim tokens come from \<open>supply\<close>, a function of a prefix
  and an index; the payment connector that quotes a destination is \<open>ce_quote\<close>. The texts shown to the owner
  (policy summary, log entries, fee estimates) and the invitation emails are not kept.
\<close>

record create_input =
  in_name :: string
  in_appId :: "string option"
  in_appPermissions :: "string list"
  in_paymentPurpose :: "payment_purpose option"
  in_recipientName :: "string option"
  in_recipientAddress :: "string option"
  in_recipientWallets :: "recipient_input list"
  in_paymentReference :: "string option"
  in_releaseCadence :: "release_cadence option"
  in_nextReleaseAt :: "string option"
  in_maxChargeAmount :: "major option"
  in_expiryAt :: "string option"
  in_limit :: major
  in_currency :: string
  in_autoMicroCharges :: bool
  in_singleUse :: bool
  in_fundingMode :: "funding_mode option"
  in_fundingSourceId :: "string option"

record create_env =
  ce_supply :: "string \<Rightarrow> nat \<Rightarrow> string"
  ce_quote :: "payment_rail \<Rightarrow> string \<Rightarrow> int \<Rightarrow> error + unit"
  ce_dates :: "string \<Rightarrow> int option"
  ce_emailConfigured :: bool
  ce_inviteTtl :: int
  ce_now :: int

subsection \<open>Destinations\<close>

definition validateRecipientDestination ::
  "(payment_rail \<Rightarrow> string \<Rightarrow> int \<Rightarrow> error + unit) \<Rightarrow> major \<Rightarrow> string \<Rightarrow> string option \<Rightarrow> string option \<Rightarrow> error + int" where
  "validateRecipientDestination quoted amount currency address0 fiberInvoice0 =
     (let address = cleanOptionalString address0; fiberInvoice = cleanOptionalString fiberInvoice0 in
      bindE (require (toUpperCase currency = POLICY_CURRENCY) (ApiError 400 ''UNSUPPORTED_CURRENCY'')) (\<lambda>_.
      bindE (toMinorUnits (number_text amount) currency) (\<lambda>amountMinor.
      bindE (require (\<not> amountMinor \<le> 0) (ApiError 400 ''INVALID_RECIPIENT_AMOUNT'')) (\<lambda>_.
      bindE (require ((address \<noteq> None) \<noteq> (fiberInvoice \<noteq> None))
        (ApiError 400 (if address \<noteq> None then ''RECIPIENT_DESTINATION_CONFLICT'' else ''RECIPIENT_DESTINATION_REQUIRED''))) (\<lambda>_.
      bindE (quoted (if address \<noteq> None then R_ckb_onchain else R_fiber) (opt_or (opt_else address fiberInvoice) []) amountMinor) (\<lambda>_.
        Inr amountMinor))))))"

definition isReusableDestinationKind :: "destination_kind \<Rightarrow> bool" where
  "isReusableDestinationKind k \<longleftrightarrow> k \<noteq> DK_invoice"

record destination_projection =
  dp_rail :: payment_rail
  dp_kind :: destination_kind
  dp_value :: string
  dp_reusable :: bool

definition destinationProjection :: "string option \<Rightarrow> string option \<Rightarrow> destination_projection option" where
  "destinationProjection address fiberInvoice =
     (case nonempty address of
        Some a \<Rightarrow> Some \<lparr>dp_rail = R_ckb_onchain, dp_kind = DK_address, dp_value = a, dp_reusable = True\<rparr>
      | None \<Rightarrow> map_option (\<lambda>i. \<lparr>dp_rail = R_fiber, dp_kind = DK_invoice, dp_value = i, dp_reusable = False\<rparr>)
                  (nonempty fiberInvoice))"

definition withRecipientIdentityIds :: "(string \<Rightarrow> nat \<Rightarrow> string) \<Rightarrow> nat \<Rightarrow> recipient_wallet \<Rightarrow> recipient_wallet" where
  "withRecipientIdentityIds supply n r =
     (let r1 = r\<lparr>rw_recipientId := Some (supply ''rcp'' n)\<rparr>;
          r2 = (case destinationProjection (rw_address r) (rw_fiberInvoice r) of
                  None \<Rightarrow> r1
                | Some p \<Rightarrow> r1\<lparr>rw_destinationId := Some (supply ''dst'' n),
                              rw_destinationReusable := Some (isReusableDestinationKind (dp_kind p))\<rparr>)
      in if nonempty (rw_email r) \<noteq> None then r2\<lparr>rw_claimChannelId := Some (supply ''chn'' n)\<rparr> else r2)"

definition needs_invite :: "recipient_wallet \<Rightarrow> bool" where
  "needs_invite r \<longleftrightarrow> \<not> (nonempty (rw_email r) = None \<or> nonempty (rw_address r) \<noteq> None \<or> nonempty (rw_fiberInvoice r) \<noteq> None)"

definition prepare_invite ::
  "(string \<Rightarrow> string) \<Rightarrow> (string \<Rightarrow> nat \<Rightarrow> string) \<Rightarrow> int \<Rightarrow> nat \<Rightarrow> recipient_wallet \<Rightarrow> recipient_wallet" where
  "prepare_invite sha supply expiresAt n r =
     (if \<not> needs_invite r then r
      else r\<lparr>rw_claimId := Some (supply ''clm'' n), rw_status := Some RW_awaiting_details,
             rw_inviteStatus := Some IV_pending, rw_inviteTokenHash := Some (sha (supply ''token'' n)),
             rw_inviteTokenExpiresAt := Some expiresAt, rw_notificationStatus := Some NT_pending\<rparr>)"

definition indexed :: "(nat \<Rightarrow> 'a \<Rightarrow> 'b) \<Rightarrow> 'a list \<Rightarrow> 'b list" where
  "indexed f xs = map2 f [0..<length xs] xs"

subsection \<open>The identity documents of the recipients\<close>

definition recipient_destination :: "session_world \<Rightarrow> string \<Rightarrow> recipient_wallet \<Rightarrow> payment_destination option" where
  "recipient_destination w ownerWalletId r =
     (case (destinationProjection (rw_address r) (rw_fiberInvoice r), nonempty (rw_destinationId r)) of
        (Some p, Some i) \<Rightarrow>
          Some \<lparr>dst_destinationId = i, dst_recipientId = opt_or (rw_recipientId r) [], dst_ownerWalletId = ownerWalletId,
                dst_rail = dp_rail p, dst_network = sw_network w, dst_assetId = ''ckb:ckb'', dst_kind = dp_kind p,
                dst_value = dp_value p, dst_resolverEndpoint = None, dst_reusable = dp_reusable p, dst_status = DS_active\<rparr>
      | _ \<Rightarrow> None)"

definition recipient_channel :: "string \<Rightarrow> recipient_wallet \<Rightarrow> claim_channel option" where
  "recipient_channel ownerWalletId r =
     (case (nonempty (rw_email r), nonempty (rw_claimChannelId r)) of
        (Some e, Some i) \<Rightarrow> Some \<lparr>ch_channelId = i, ch_recipientId = opt_or (rw_recipientId r) [], ch_ownerWalletId = ownerWalletId,
           ch_value = Some e, ch_status = CS_active, ch_deliveryVerifiedAt = None\<rparr>
      | _ \<Rightarrow> None)"

definition recipient_endpoint :: "(string \<Rightarrow> nat \<Rightarrow> string) \<Rightarrow> string \<Rightarrow> nat \<Rightarrow> recipient_wallet \<Rightarrow> notification_endpoint option" where
  "recipient_endpoint supply ownerWalletId n r =
     (if nonempty (rw_email r) = None then None
      else Some \<lparr>nep_endpointId = supply ''ntf'' n, nep_ownerWalletId = ownerWalletId,
             nep_recipientId = opt_or (rw_recipientId r) [], nep_type = CH_email, nep_purpose = ''receipt'', nep_status = E_active\<rparr>)"

definition recipient_claim_doc :: "string \<Rightarrow> string \<Rightarrow> nat \<Rightarrow> recipient_wallet \<Rightarrow> recipient_claim option" where
  "recipient_claim_doc ownerWalletId sessionId n r =
     (case (nonempty (rw_claimId r), nonempty (rw_inviteTokenHash r), rw_inviteTokenExpiresAt r) of
        (Some i, Some h, Some t) \<Rightarrow>
          Some \<lparr>cl_claimId = i, cl_recipientId = opt_or (rw_recipientId r) [], cl_ownerWalletId = ownerWalletId,
                cl_sessionId = sessionId, cl_sessionRecipientIndex = n, cl_channelId = rw_claimChannelId r,
                cl_tokenHash = h, cl_status = CL_pending, cl_expiresAt = t, cl_claimedAt = None, cl_revokedAt = None,
                cl_destinationId = None, cl_contactVerifiedAt = None\<rparr>
      | _ \<Rightarrow> None)"

fun insert_rows :: "('a \<Rightarrow> 'a \<Rightarrow> bool) \<Rightarrow> 'a list \<Rightarrow> 'a list \<Rightarrow> 'a list option" where
  "insert_rows clash [] rows = Some rows"
| "insert_rows clash (x # xs) rows =
     (case insert_row (clash x) x rows of None \<Rightarrow> None | Some rows' \<Rightarrow> insert_rows clash xs rows')"

definition claim_clash :: "recipient_claim \<Rightarrow> recipient_claim \<Rightarrow> bool" where
  "claim_clash c x \<longleftrightarrow> cl_claimId x = cl_claimId c \<or> cl_tokenHash x = cl_tokenHash c"

definition someOf :: "'a option list \<Rightarrow> 'a list" where
  "someOf xs = List.map_filter id xs"

definition persistSessionRecipientIdentities ::
  "session_world \<Rightarrow> (string \<Rightarrow> nat \<Rightarrow> string) \<Rightarrow> string \<Rightarrow> string \<Rightarrow> recipient_wallet list \<Rightarrow> ('a session_db_scheme, unit) op" where
  "persistSessionRecipientIdentities w supply ownerWalletId sessionId ws d =
     (case (insert_rows (\<lambda>x y. rid_recipientId y = rid_recipientId x)
              (map (\<lambda>r. \<lparr>rid_recipientId = opt_or (rw_recipientId r) [], rid_ownerWalletId = ownerWalletId, rid_sessionId = Some sessionId\<rparr>) ws)
              (recipients d),
            insert_rows (\<lambda>x y. dst_destinationId y = dst_destinationId x) (someOf (map (recipient_destination w ownerWalletId) ws)) (destinations d),
            insert_rows (\<lambda>x y. ch_channelId y = ch_channelId x) (someOf (map (recipient_channel ownerWalletId) ws)) (channels d),
            insert_rows (\<lambda>x y. nep_endpointId y = nep_endpointId x) (someOf (indexed (recipient_endpoint supply ownerWalletId) ws)) (endpoints d),
            insert_rows claim_clash (someOf (indexed (recipient_claim_doc ownerWalletId sessionId) ws)) (claims d)) of
        (Some rs, Some ds, Some cs, Some es, Some ks) \<Rightarrow>
          (Inr (), d\<lparr>recipients := rs, destinations := ds, channels := cs, endpoints := es, claims := ks\<rparr>)
      | _ \<Rightarrow> (Inl DuplicateKey, d))"

subsection \<open>The pass\<close>

record pass_plan =
  pp_limitMinor :: int
  pp_limit :: major
  pp_expiryAt :: "int option"
  pp_purpose :: payment_purpose
  pp_recipients :: "recipient_wallet list"
  pp_cadence :: release_cadence
  pp_nextReleaseAt :: "int option"
  pp_maxChargeMinor :: "int option"
  pp_maxCharge :: "major option"

definition known_destination :: "recipient_wallet \<Rightarrow> bool" where
  "known_destination r \<longleftrightarrow> (nonempty (rw_address r) \<noteq> None \<or> nonempty (rw_fiberInvoice r) \<noteq> None) \<and> rw_amountMinor r \<noteq> None"

text \<open>The part of \<open>createSession\<close> between choosing the funding source and the transaction.\<close>

definition plan_recipients :: "session_world \<Rightarrow> create_env \<Rightarrow> create_input \<Rightarrow> payment_purpose \<Rightarrow> error + recipient_wallet list" where
  "plan_recipients w ce i purpose =
     bindE (normalizeRecipientWallets purpose (in_recipientName i) (in_recipientAddress i) (in_recipientWallets i)) (\<lambda>normalized.
       let ws = indexed (withRecipientIdentityIds (ce_supply ce)) normalized in
       bindE (require (\<not> (paymentPurposeRepeats purpose \<and> list_ex (\<lambda>r. nonempty (rw_fiberInvoice r) \<noteq> None) ws))
                (ApiError 400 ''RECIPIENT_REUSABLE_DESTINATION_REQUIRED'')) (\<lambda>_.
       bindE (mapE (\<lambda>r. bindE (fromMinorUnits (rw_amountMinor r) (in_currency i)) (\<lambda>amount.
                validateRecipientDestination (ce_quote ce) amount (in_currency i) (rw_address r) (rw_fiberInvoice r)))
              (filter known_destination ws)) (\<lambda>_.
       bindE (require (ce_emailConfigured ce \<or> \<not> list_ex needs_invite ws) (ApiError 503 ''EMAIL_NOT_CONFIGURED'')) (\<lambda>_.
         Inr (indexed (prepare_invite (sw_sha w) (ce_supply ce) (ce_now ce + ce_inviteTtl ce)) ws)))))"

definition plan_pass :: "session_world \<Rightarrow> create_env \<Rightarrow> create_input \<Rightarrow> int \<Rightarrow> error + pass_plan" where
  "plan_pass w ce i limitMinor =
     (let purpose = normalizePaymentPurpose (in_paymentPurpose i) in
      bindE (validateExpiryAt (ce_dates ce) (in_expiryAt i) (ce_now ce)) (\<lambda>expiryAt.
      bindE (plan_recipients w ce i purpose) (\<lambda>ws.
      let cadence = normalizeReleaseCadence (in_releaseCadence i) purpose in
      bindE (validateNextReleaseAt (ce_dates ce) (in_nextReleaseAt i) purpose expiryAt (ce_now ce)) (\<lambda>nextReleaseAt.
      bindE (resolveMaxChargeAmountMinor (in_maxChargeAmount i) (in_currency i) purpose limitMinor) (\<lambda>maxChargeMinor.
      bindE (case maxChargeMinor of None \<Rightarrow> Inr None
             | Some m \<Rightarrow> bindE (fromMinorUnits (Some m) (in_currency i)) (\<lambda>v. Inr (Some v))) (\<lambda>maxCharge.
      bindE (fromMinorUnits (Some limitMinor) (in_currency i)) (\<lambda>limit.
        Inr \<lparr>pp_limitMinor = limitMinor, pp_limit = limit, pp_expiryAt = expiryAt, pp_purpose = purpose, pp_recipients = ws,
             pp_cadence = cadence, pp_nextReleaseAt = nextReleaseAt, pp_maxChargeMinor = maxChargeMinor,
             pp_maxCharge = maxCharge\<rparr>)))))))"

definition new_session ::
  "create_env \<Rightarrow> create_input \<Rightarrow> string \<Rightarrow> app_record option \<Rightarrow> funding_selection \<Rightarrow> pass_plan \<Rightarrow> session" where
  "new_session ce i walletId app sel p =
     (let ws = pp_recipients p; appSession = (pp_purpose p = PP_app_session) in
      \<lparr>ses_publicId = ce_supply ce ''fp_pass'' 0, ses_ownerWalletId = walletId, ses_status = S_active,
       ses_lifecycleState = Some L_idle,
       ses_singleUse = (if pp_purpose p = PP_scheduled_release \<and> length ws \<le> 1 then True
                        else if appSession then in_singleUse i else False),
       ses_appId = Some (case app of None \<Rightarrow> ''manual'' | Some a \<Rightarrow> app_appId a),
       ses_appGrantOwnerWalletId = (if app = None then None else Some walletId),
       ses_appPermissions = (if app = None then [] else normalizeSessionAppPermissions (in_appPermissions i) True),
       ses_autoMicroCharges = (if appSession then in_autoMicroCharges i else True),
       ses_expiryAt = pp_expiryAt p, ses_currency = in_currency i, ses_assetId = Some ''ckb:ckb'',
       ses_limit = pp_limit p, ses_limitMinor = Some (pp_limitMinor p), ses_limitAtomic = Some (pp_limitMinor p),
       ses_spent = 0, ses_spentMinor = Some 0, ses_spentAtomic = Some 0,
       ses_reservedMinor = Some 0, ses_reservedAtomic = Some 0,
       ses_fundingMode = Some (sel_mode sel), ses_fundingExecutionReady = Some (sel_executionReady sel),
       ses_lastChargeProofId = None, ses_fiberProvider = Some ''rpc'', ses_fiberNetwork = None,
       ses_detail = blank_detail
         \<lparr>det_name := (case app of None \<Rightarrow> in_name i | Some a \<Rightarrow> app_name a),
          det_serviceAddress := (case app of None \<Rightarrow> walletId | Some a \<Rightarrow> app_serviceAddress a),
          det_appGrantCreatedAt := (if app = None then None else Some (ce_now ce)),
          det_paymentPurpose := pp_purpose p,
          det_recipientName := (case ws of [] \<Rightarrow> cleanOptionalString (in_recipientName i) | r # _ \<Rightarrow> Some (rw_name r)),
          det_recipientAddress := (case ws of [] \<Rightarrow> cleanOptionalString (in_recipientAddress i)
             | r # _ \<Rightarrow> opt_else (rw_address r) (cleanOptionalString (in_recipientAddress i))),
          det_recipientWallets := ws, det_paymentReference := cleanOptionalString (in_paymentReference i),
          det_releaseCadence := pp_cadence p, det_nextReleaseAt := pp_nextReleaseAt p,
          det_maxChargeAmount := pp_maxCharge p, det_maxChargeAmountMinor := pp_maxChargeMinor p,
          det_fundingSourceId := Some (sel_sourceId sel), det_fiberStatus := Some ''active'',
          det_createdAt := ce_now ce\<rparr>\<rparr>)"

definition create_pass_body ::
  "session_world \<Rightarrow> create_env \<Rightarrow> create_input \<Rightarrow> string \<Rightarrow> app_record option \<Rightarrow> funding_selection \<Rightarrow> pass_plan
    \<Rightarrow> ('a session_db_scheme, session) op" where
  "create_pass_body w ce i walletId app sel p =
     chain (\<lambda>d. case find_wallet walletId d of
              None \<Rightarrow> (Inl (ApiError 404 ''WALLET_NOT_FOUND''), d) | Some _ \<Rightarrow> (Inr (), d)) (\<lambda>_.
     chain (allocateFundingForSession (ce_supply ce ''falloc'' 0) (ce_now ce) sel walletId (ce_supply ce ''fp_pass'' 0) (pp_limitMinor p)) (\<lambda>_ d.
       let s = (new_session ce i walletId app sel p)\<lparr>ses_fiberNetwork := Some (sw_network w)\<rparr> in
       case insert_row (\<lambda>x. ses_publicId x = ses_publicId s) s (sessions d) of
         None \<Rightarrow> (Inl DuplicateKey, d)
       | Some ss \<Rightarrow>
          chain (persistSessionRecipientIdentities w (ce_supply ce) walletId (ses_publicId s) (pp_recipients p)) (\<lambda>_ d'. (Inr s, d'))
            (d\<lparr>sessions := ss\<rparr>)))"

definition create_pass ::
  "session_world \<Rightarrow> create_env \<Rightarrow> create_input \<Rightarrow> string \<Rightarrow> app_record option \<Rightarrow> funding_selection \<Rightarrow> pass_plan
    \<Rightarrow> ('a session_db_scheme, session) op" where
  "create_pass w ce i walletId app sel p = transaction (create_pass_body w ce i walletId app sel p)"

definition requested_app :: "create_input \<Rightarrow> string \<Rightarrow> 'a session_db_scheme \<Rightarrow> error + app_record option" where
  "requested_app i walletId d =
     (case cleanOptionalString (in_appId i) of
        None \<Rightarrow> Inr None
      | Some a \<Rightarrow>
         if a = ''manual'' then Inr None
         else (case own_active_app a walletId d of
            None \<Rightarrow> Inl (ApiError 403 ''APP_GRANT_NOT_ALLOWED'') | Some app \<Rightarrow> Inr (Some app)))"

definition createSession ::
  "session_world \<Rightarrow> create_env \<Rightarrow> create_input \<Rightarrow> string \<Rightarrow> ('a session_db_scheme, wallet_doc) op" where
  "createSession w ce i walletId d =
     (case bindE (toMinorUnits (number_text (in_limit i)) (in_currency i)) (\<lambda>limitMinor.
           bindE (validateCreateLimit limitMinor) (\<lambda>_.
           bindE (require (in_currency i = POLICY_CURRENCY) (ApiError 400 ''UNSUPPORTED_CURRENCY'')) (\<lambda>_.
           bindE (requested_app i walletId d) (\<lambda>app. Inr (limitMinor, app))))) of
        Inl e \<Rightarrow> (Inl e, d)
      | Inr (limitMinor, app) \<Rightarrow>
         chain (reconcileWalletBalanceWithCurrentVault w (ce_now ce) walletId) (\<lambda>_.
         chain (wallet_or_404 walletId) (\<lambda>wallet.
         chain (resolveFundingSelection (sw_sha w) (sw_network w) (ce_now ce) walletId (wal_address wallet) limitMinor
                  (in_fundingMode i) (in_fundingSourceId i)) (\<lambda>sel d1.
           case plan_pass w ce i limitMinor of
             Inl e \<Rightarrow> (Inl e, d1)
           | Inr p \<Rightarrow>
              chain (create_pass w ce i walletId app sel p) (\<lambda>s d2.
                getWalletDocument w (ce_now ce) walletId
                  (writeAuditLog walletId ''session.created'' ''session'' (ses_publicId s) d2)) d1))) d)"

end
