(* ===== verification/Session_Safety.thy ===== *)
theory Session_Safety
  imports Session_Create
begin

section \<open>A pass and its funding stay in step\<close>

text \<open>
  The statements of the requests and workers that touch a pass, interleaved in any order: charges, top-ups,
  closes, pauses, application grants, expiry and creation. The invariant links the balance of a pass with the
  funding allocated to it; with it the refund of a close is exactly what its allocation releases.
\<close>

subsection \<open>Histories\<close>

text \<open>
  A pause reads the pass, decides and writes in separate statements. With \<open>late\<close> the write may come at any
  time; without it only right after the decision. \<open>elsewhere\<close> stands for the operations on other
  collections, such as the observed balances of wallets and funding sources.
\<close>

inductive pass_step :: "bool \<Rightarrow> (string \<Rightarrow> string) \<Rightarrow> 'a session_db_scheme \<Rightarrow> 'a session_db_scheme \<Rightarrow> bool" for late sha where
    charge: "charge_step sha d d' \<Longrightarrow> pass_step late sha d d'"
  | create: "plan_pass w ce i limitMinor = Inr p \<Longrightarrow> 0 < limitMinor \<Longrightarrow> create_pass w ce i walletId app sel p d = (r, d')
      \<Longrightarrow> pass_step late sha d d'"
  | claim_top_up: "claim_top_up lo publicId walletId n d = (r, d') \<Longrightarrow> 0 < n \<Longrightarrow> pass_step late sha d d'"
  | complete_top_up: "completeTopUpLifecycle now publicId walletId i d = (r, d') \<Longrightarrow> pass_step late sha d d'"
  | claim_close: "claim_close lo publicId walletId reason d = (r, d') \<Longrightarrow> pass_step late sha d d'"
  | complete_close: "completeCloseLifecycle now publicId walletId i reason d = (r, d') \<Longrightarrow> pass_step late sha d d'"
  | submitted: "pass_step late sha d (snd (mark_lifecycle_submitted publicId walletId i d))"
  | uncertain: "pass_step late sha d (snd (mark_lifecycle_uncertain publicId walletId i st failure d))"
  | succeeded: "pass_step late sha d (snd (mark_lifecycle_succeeded publicId walletId i st answer d))"
  | toggle: "late \<or> (\<exists>s. find_session publicId d = Some s \<and> plan_toggle s = Inr st) \<Longrightarrow>
      pass_step late sha d (write_toggle publicId st d)"
  | grant: "pass_step late sha d (write_grant publicId a walletId now permissions d)"
  | expire: "pass_step late sha d (write_expired publicId d)"
  | elsewhere: "only_wallets d d' \<Longrightarrow> pass_step late sha d d'"

inductive pass_history :: "bool \<Rightarrow> (string \<Rightarrow> string) \<Rightarrow> 'a session_db_scheme \<Rightarrow> 'a session_db_scheme \<Rightarrow> bool" for late sha d0 where
    begin_pass: "pass_history late sha d0 d0"
  | next_pass: "pass_history late sha d0 d \<Longrightarrow> pass_step late sha d d' \<Longrightarrow> pass_history late sha d0 d'"

subsection \<open>The invariant\<close>

definition alc_left :: "funding_allocation \<Rightarrow> int" where
  "alc_left a = alc_authorizedMinor a - alc_spentMinor a - alc_releasedMinor a"

definition lifecycle_amount :: "session \<Rightarrow> int" where
  "lifecycle_amount s = opt_or (det_lifecycleAmountMinor (ses_detail s)) 0"

definition topping_up :: "session \<Rightarrow> int" where
  "topping_up s = (if ses_lifecycleState s = Some L_top_up_pending then lifecycle_amount s else 0)"

definition closing :: "session \<Rightarrow> bool" where
  "closing s \<longleftrightarrow> ses_lifecycleState s = Some L_revoke_pending \<or> ses_lifecycleState s = Some L_settle_pending"

definition money_fields :: "session \<Rightarrow> bool" where
  "money_fields s \<longleftrightarrow> ses_limitMinor s \<noteq> None \<and> ses_spentMinor s \<noteq> None \<and> 0 \<le> ses_spentOf s
     \<and> isSafeInteger (ses_limitOf s) \<and> 0 \<le> topping_up s"

definition funded_by :: "session \<Rightarrow> funding_allocation \<Rightarrow> bool" where
  "funded_by s a \<longleftrightarrow> (alc_sessionId a = ses_publicId s \<and> alc_state a = AL_active
      \<longrightarrow> alc_left a = ses_limitOf s - ses_spentOf s + topping_up s)"

definition close_ready :: "session \<Rightarrow> bool" where
  "close_ready s \<longleftrightarrow> (closing s \<longrightarrow> ses_reservedOf s = 0 \<and> lifecycle_amount s = ses_limitOf s - ses_spentOf s)"

definition pass_ok :: "funding_allocation list \<Rightarrow> session \<Rightarrow> bool" where
  "pass_ok as s \<longleftrightarrow> money_fields s \<and> close_ready s \<and> (\<forall>a \<in> set as. funded_by s a)"

definition pass_inv :: "'a core_db_scheme \<Rightarrow> bool" where
  "pass_inv d \<longleftrightarrow> charge_inv d \<and> distinct (map alc_sessionId (allocations d))
     \<and> (\<forall>s \<in> set (sessions d). pass_ok (allocations d) s)"

lemma charge_inv_distinct: "charge_inv d \<Longrightarrow> distinct (map ses_publicId (sessions d))"
  by (simp add: charge_inv_def ledger_inv_def)

lemma charge_inv_session:
  "charge_inv d \<Longrightarrow> s \<in> set (sessions d) \<Longrightarrow> session_ok (attempts d) s \<and> 0 \<le> ses_reservedOf s"
  unfolding charge_inv_def ledger_inv_def session_ok_def held_for_def held_attempt_ok_def
  by (auto intro!: total_nonneg)

lemma limit_read:
  assumes "money_fields s" and "charge_inv d" and "s \<in> set (sessions d)"
  shows "sessionLimitMinor s = Inr (ses_limitOf s)" and "sessionSpentMinor s = Inr (ses_spentOf s)"
    and "refund_of s = Inr (ses_limitOf s - ses_spentOf s)" and "0 \<le> ses_limitOf s - ses_spentOf s"
proof -
  obtain l p where lp: "ses_limitMinor s = Some l" "ses_spentMinor s = Some p" "0 \<le> p" "isSafeInteger l"
    using assms(1) by (auto simp: money_fields_def ses_spentOf_def ses_limitOf_def)
  have "p \<le> l" using charge_inv_session [OF assms(2,3)] lp by (simp add: session_ok_def ses_spentOf_def ses_limitOf_def)
  with lp have safe: "isSafeInteger p" "isSafeInteger (l - p)" "0 \<le> l" by (auto simp: isSafeInteger_def)
  show "sessionLimitMinor s = Inr (ses_limitOf s)" "sessionSpentMinor s = Inr (ses_spentOf s)"
    using lp safe by (simp_all add: sessionLimitMinor_def sessionSpentMinor_def fallbackMinorUnits_def ses_limitOf_def ses_spentOf_def)
  then show "refund_of s = Inr (ses_limitOf s - ses_spentOf s)" "0 \<le> ses_limitOf s - ses_spentOf s"
    using lp safe \<open>p \<le> l\<close> by (simp_all add: refund_of_def clampMinorUnits_def ses_limitOf_def ses_spentOf_def)
qed

subsection \<open>Writes that leave the money alone\<close>

definition same_money :: "session \<Rightarrow> session \<Rightarrow> bool" where
  "same_money s t \<longleftrightarrow> ses_publicId t = ses_publicId s \<and> ses_limitMinor t = ses_limitMinor s
     \<and> ses_spentMinor t = ses_spentMinor s \<and> ses_reservedMinor t = ses_reservedMinor s
     \<and> ses_lifecycleState t = ses_lifecycleState s
     \<and> det_lifecycleAmountMinor (ses_detail t) = det_lifecycleAmountMinor (ses_detail s)"

lemma same_money_refl [simp]: "same_money s s"
  by (simp add: same_money_def)

lemma same_money_views:
  assumes "same_money s t"
  shows "ses_publicId t = ses_publicId s" "ses_limitOf t = ses_limitOf s" "ses_spentOf t = ses_spentOf s"
    "ses_reservedOf t = ses_reservedOf s" "topping_up t = topping_up s" "closing t = closing s"
    "lifecycle_amount t = lifecycle_amount s" "pass_ok as t = pass_ok as s"
proof -
  show *: "ses_publicId t = ses_publicId s" "ses_limitOf t = ses_limitOf s" "ses_spentOf t = ses_spentOf s"
    "ses_reservedOf t = ses_reservedOf s" "topping_up t = topping_up s" "closing t = closing s"
    "lifecycle_amount t = lifecycle_amount s"
    using assms by (simp_all add: same_money_def ses_limitOf_def ses_spentOf_def ses_reservedOf_def topping_up_def
        closing_def lifecycle_amount_def)
  show "pass_ok as t = pass_ok as s"
    using assms * by (simp add: pass_ok_def money_fields_def close_ready_def funded_by_def same_money_def)
qed

lemma map_update_first_on:
  "(\<And>x. x \<in> set xs \<Longrightarrow> p x \<Longrightarrow> key (f x) = key x) \<Longrightarrow> map key (update_first p f xs) = map key xs"
  by (induction xs) auto

text \<open>
  A write to one pass: the ledger invariant holds when the reserved amount stays and the limit still covers
  what is spent and reserved.
\<close>

lemma charge_inv_update:
  assumes inv: "charge_inv d"
    and f: "\<And>s. s \<in> set (sessions d) \<Longrightarrow> p s \<Longrightarrow> ses_publicId (f s) = ses_publicId s
      \<and> ses_reservedOf (f s) = ses_reservedOf s \<and> ses_spentOf (f s) + ses_reservedOf (f s) \<le> ses_limitOf (f s)"
  shows "charge_inv (d\<lparr>sessions := update_first p f (sessions d)\<rparr>)"
proof -
  have ids: "map ses_publicId (update_first p f (sessions d)) = map ses_publicId (sessions d)"
    by (rule map_update_first_on) (use f in simp)
  have "session_ok (attempts d) t" if "t \<in> set (update_first p f (sessions d))" for t
    using set_update_firstD [OF that] f inv by (auto simp: charge_inv_def ledger_inv_def session_ok_def)
  moreover have "ses_publicId ` set (update_first p f (sessions d)) = ses_publicId ` set (sessions d)"
    using ids by (metis list.set_map)
  ultimately show ?thesis
    using inv ids by (auto simp: charge_inv_def ledger_inv_def held_attempt_ok_def)
qed

lemma pass_inv_update:
  assumes inv: "pass_inv d"
    and f: "\<And>s. s \<in> set (sessions d) \<Longrightarrow> p s \<Longrightarrow> ses_publicId (f s) = ses_publicId s
      \<and> ses_reservedOf (f s) = ses_reservedOf s \<and> ses_spentOf (f s) + ses_reservedOf (f s) \<le> ses_limitOf (f s)
      \<and> pass_ok (allocations d) (f s)"
  shows "pass_inv (d\<lparr>sessions := update_first p f (sessions d)\<rparr>)"
proof -
  have "charge_inv (d\<lparr>sessions := update_first p f (sessions d)\<rparr>)"
  proof (rule charge_inv_update)
    show "charge_inv d" using inv by (simp add: pass_inv_def)
    fix s assume "s \<in> set (sessions d)" "p s"
    from f [OF this] show "ses_publicId (f s) = ses_publicId s
      \<and> ses_reservedOf (f s) = ses_reservedOf s \<and> ses_spentOf (f s) + ses_reservedOf (f s) \<le> ses_limitOf (f s)"
      by blast
  qed
  moreover have "pass_ok (allocations d) t" if "t \<in> set (update_first p f (sessions d))" for t
    using set_update_firstD [OF that] f inv by (auto simp: pass_inv_def)
  ultimately show ?thesis using inv by (simp add: pass_inv_def)
qed

lemma pass_inv_same_money:
  assumes "pass_inv d" and "\<And>s. p s \<Longrightarrow> same_money s (f s)"
  shows "pass_inv (snd (update_session p f d))"
proof -
  have "pass_inv (d\<lparr>sessions := update_first p f (sessions d)\<rparr>)"
  proof (rule pass_inv_update [OF assms(1)])
    fix s assume s: "s \<in> set (sessions d)" "p s"
    have "session_ok (attempts d) s" "pass_ok (allocations d) s"
      using assms(1) s(1) charge_inv_session by (auto simp: pass_inv_def)
    then show "ses_publicId (f s) = ses_publicId s
      \<and> ses_reservedOf (f s) = ses_reservedOf s \<and> ses_spentOf (f s) + ses_reservedOf (f s) \<le> ses_limitOf (f s)
      \<and> pass_ok (allocations d) (f s)"
      using same_money_views [OF assms(2) [OF s(2)]] by (simp add: session_ok_def)
  qed
  then show ?thesis by (simp add: update_session_def)
qed

lemma plain_writes_same_money:
  "same_money s (edit_detail (\<lambda>x. x\<lparr>det_lifecycleProviderStatus := a\<rparr>) s)"
  "same_money s (edit_detail (\<lambda>x. x\<lparr>det_lifecycleProviderStatus := a, det_lifecycleFailureCode := b\<rparr>) s)"
  "same_money s (edit_detail (\<lambda>x. x\<lparr>det_lifecycleProviderStatus := a, det_lifecycleProvider := b,
      det_lifecycleNetwork := c, det_lifecycleProofId := e\<rparr>) s)"
  "same_money s (toggled_session st s)"
  "same_money s (granted_session app w now ps s)" "same_money s (expired_session s)"
  by (simp_all add: same_money_def edit_detail_def granted_session_def expired_session_def toggled_session_def)

lemma plain_writes_inv:
  assumes "pass_inv d"
  shows "pass_inv (snd (mark_lifecycle_submitted publicId walletId i d))"
    "pass_inv (snd (mark_lifecycle_uncertain publicId walletId i st failure d))"
    "pass_inv (snd (mark_lifecycle_succeeded publicId walletId i st answer d))"
    "pass_inv (write_toggle publicId status d)" "pass_inv (write_grant publicId a walletId now ps d)"
    "pass_inv (write_expired publicId d)"
  unfolding mark_lifecycle_submitted_def mark_lifecycle_uncertain_def mark_lifecycle_succeeded_def
    write_toggle_def write_grant_def write_expired_def
  by (rule pass_inv_same_money [OF assms], rule plain_writes_same_money)+

lemma only_wallets_inv: "only_wallets d d' \<Longrightarrow> pass_inv d \<Longrightarrow> pass_inv d'"
  by (simp add: only_wallets_def pass_inv_def charge_inv_def)

subsection \<open>Charges\<close>

text \<open>A charge step that keeps the allocations and only moves the reserved amount of an idle pass, or lowers it.\<close>

lemma attempt_edit_ledger:
  assumes "attempt_edit d d'" and "allocations d' = allocations d" and "charge_inv d'" and "pass_inv d"
  shows "pass_inv d'"
proof -
  have "sessions d' = sessions d" using assms(1) by (auto simp: attempt_edit_def same_ledger_def)
  with assms show ?thesis by (simp add: pass_inv_def)
qed

lemma sessions_pass_inv:
  assumes inv: "pass_inv d" and c: "charge_inv d'" and al: "allocations d' = allocations d"
    and ss: "sessions d' = update_first p f (sessions d)"
    and f: "\<And>s. s \<in> set (sessions d) \<Longrightarrow> p s \<Longrightarrow> pass_ok (allocations d) s \<Longrightarrow> pass_ok (allocations d) (f s)"
  shows "pass_inv d'"
proof -
  have "pass_ok (allocations d) t" if "t \<in> set (sessions d')" for t
    using set_update_firstD [OF that [unfolded ss]] f inv by (auto simp: pass_inv_def)
  with inv c al show ?thesis by (simp add: pass_inv_def)
qed

lemma attempt_update_frame:
  "update_attempt p f d = (r, d') \<Longrightarrow> sessions d' = sessions d \<and> allocations d' = allocations d"
  by (auto dest: update_attempt_snd)

lemma same_passes_inv:
  "sessions d' = sessions d \<and> allocations d' = allocations d \<Longrightarrow> charge_inv d' \<Longrightarrow> pass_inv d \<Longrightarrow> pass_inv d'"
  by (simp add: pass_inv_def)

lemma upsert_frame: "sessions (upsert_counter i now d) = sessions d" "allocations (upsert_counter i now d) = allocations d"
  by (simp_all add: upsert_counter_def Let_def)

lemma inc_reserved_ok:
  assumes "pass_ok as s" and "closing s \<Longrightarrow> ses_reservedOf s + n = 0"
  shows "pass_ok as (inc_session_reserved n s)"
proof -
  have "topping_up (inc_session_reserved n s) = topping_up s" "closing (inc_session_reserved n s) = closing s"
    "lifecycle_amount (inc_session_reserved n s) = lifecycle_amount s" "ses_limitMinor (inc_session_reserved n s) = ses_limitMinor s"
    "ses_spentMinor (inc_session_reserved n s) = ses_spentMinor s"
    by (simp_all add: inc_session_reserved_def topping_up_def closing_def lifecycle_amount_def)
  with assms show ?thesis by (auto simp: pass_ok_def money_fields_def close_ready_def funded_by_def)
qed

lemma reserve_pass_inv:
  assumes "reserveChargeAttempt now i d = (r, d')" and inv: "pass_inv d"
  shows "pass_inv d'"
  using reserve_step_cases [OF assms(1)]
proof (elim disjE exE)
  fix a assume body: "reserve_body now i d = (Inr (a, True), d')"
  have c: "charge_inv d'" using reserve_body_inv [OF body] inv by (simp add: pass_inv_def)
  from body show ?thesis
  proof (cases rule: reserve_body_Inr)
    case (new assetId s ss c1 cs)
    from new(5) have ss: "sessions d' = update_first (reservable_session i) (inc_session_reserved (ri_amountMinor i)) (sessions d)"
      using new(8) by (auto simp: find_and_update_def split: option.splits)
    show ?thesis
    proof (rule sessions_pass_inv [OF inv c _ ss])
      show "allocations d' = allocations d" by (simp add: new(8) upsert_frame)
      fix x assume "reservable_session i x" "pass_ok (allocations d) x"
      then show "pass_ok (allocations d) (inc_session_reserved (ri_amountMinor i) x)"
        by (intro inc_reserved_ok) (auto simp: reservable_session_iff closing_def)
    qed
  qed simp
qed (use inv in simp)

lemma release_pass_inv:
  assumes "releaseChargeReservation now i failure d = (r, d')" and inv: "pass_inv d" and c: "charge_inv d'"
  shows "pass_inv d'"
  using assms(1) unfolding releaseChargeReservation_def
proof (cases rule: transaction_cases)
  case (committed v)
  from committed(2) show ?thesis
  proof (cases rule: release_body_Inr)
    case unchanged
    with inv show ?thesis by simp
  next
    case (released a s ss c1 cs)
    have "0 \<le> att_minor a"
      using find_charge_id [OF released(1)] released(2) inv
      by (auto simp: pass_inv_def charge_inv_def ledger_inv_def held_attempt_ok_def)
    from released(4) have ss: "sessions d' = update_first (\<lambda>s. ses_publicId s = att_sessionId a \<and> holds_reserved (att_minor a) s)
        (inc_session_reserved (- att_minor a)) (sessions d)"
      using released(6) by (auto simp: find_and_update_def split: option.splits)
    show ?thesis
    proof (rule sessions_pass_inv [OF inv c _ ss])
      show "allocations d' = allocations d" by (simp add: released(6))
      fix x assume x: "ses_publicId x = att_sessionId a \<and> holds_reserved (att_minor a) x" "pass_ok (allocations d) x"
      then have "closing x \<Longrightarrow> ses_reservedOf x = 0" by (auto simp: pass_ok_def close_ready_def)
      with x(1) \<open>0 \<le> att_minor a\<close> show "pass_ok (allocations d) (inc_session_reserved (- att_minor a) x)"
        by (intro inc_reserved_ok [OF x(2)]) (fastforce simp: holds_reserved_def ses_reservedOf_def split: option.splits)
    qed
  qed
qed (use inv in simp)

lemma update_first_again:
  assumes "\<And>x. k (f x)"
  shows "update_first k g (update_first k f xs) = update_first k (\<lambda>x. g (f x)) xs"
  using assms by (induction xs) auto

definition allocation_moves :: "string \<Rightarrow> int \<Rightarrow> funding_allocation list \<Rightarrow> funding_allocation list \<Rightarrow> bool" where
  "allocation_moves j n as as' \<longleftrightarrow> (\<exists>al al'. List.find (\<lambda>a. alc_sessionId a = j) as = Some al \<and> alc_state al = AL_active
     \<and> as' = update_first (\<lambda>a. alc_sessionId a = j) (\<lambda>_. al') as \<and> alc_sessionId al' = j
     \<and> (alc_state al' = AL_active \<longrightarrow> alc_left al' = alc_left al - n))"

lemma find_allocation_frames [simp]:
  "find_allocation j (save_source x d) = find_allocation j d" "allocations (save_source x d) = allocations d"
  by (simp_all add: find_allocation_def)

lemma spend_moves:
  assumes "spendFundingAllocation now j n d = (Inr w, d')"
  shows "(find_allocation j d = None \<and> allocations d' = allocations d) \<or> allocation_moves j n (allocations d) (allocations d')"
  using assms
proof (cases rule: spend_Inr)
  case none
  then show ?thesis by simp
next
  case (spent a s a1 s1 s2)
  have al: "alc_sessionId a = j" using spent(1) by (auto simp: find_allocation_def dest: find_SomeD)
  define a' where "a' = exhaust_if_empty now a1"
  have a': "alc_sessionId a' = j" "alc_left a' = alc_left a - n"
    using refreshAllocation_fields [OF spent(7)] al by (simp_all add: a'_def exhaust_if_empty_def alc_left_def)
  have "allocations d' = update_first (\<lambda>y. alc_sessionId y = j) (\<lambda>_. a') (allocations d)"
    by (simp add: spent(8) save_allocation_def a'(1) flip: a'_def)
  with spent(1,3) a' show ?thesis unfolding allocation_moves_def find_allocation_def by blast
qed

lemma release_moves_allocation:
  assumes "releaseFundingAllocation now j d = (Inr w, d')"
  shows "(allocations d' = allocations d \<and> w = 0) \<or> (\<exists>al al'. find_allocation j d = Some al \<and> alc_state al = AL_active
    \<and> allocations d' = update_first (\<lambda>a. alc_sessionId a = j) (\<lambda>_. al') (allocations d) \<and> alc_sessionId al' = j
    \<and> alc_state al' = AL_released \<and> w = alc_left al \<and> alc_releasedMinor al' = alc_releasedMinor al + w
    \<and> alc_remainingMinor al' = 0)"
  using assms
proof (cases rule: release_Inr)
  case no_change
  then show ?thesis by simp
next
  case (released a s s1 a1 s2)
  have al: "alc_sessionId a = j" using released(1) by (auto simp: find_allocation_def dest: find_SomeD)
  note fields = refreshAllocation_fields [OF released(7)]
  have "allocations d' = update_first (\<lambda>y. alc_sessionId y = j) (\<lambda>_. a1) (allocations d)"
    using fields(1) al by (simp add: released(8) save_allocation_def)
  with released(1,3,4) fields al show ?thesis
    by (intro disjI2 exI [of _ a] exI [of _ a1]) (simp add: alc_left_def)
qed

lemma moves_then_release:
  assumes "allocation_moves j n as (allocations d)" and "releaseFundingAllocation now j d = (Inr w, d')"
  shows "allocation_moves j n as (allocations d')"
proof -
  from assms(1) obtain al al' where m: "List.find (\<lambda>a. alc_sessionId a = j) as = Some al" "alc_state al = AL_active"
      "allocations d = update_first (\<lambda>a. alc_sessionId a = j) (\<lambda>_. al') as" "alc_sessionId al' = j"
    unfolding allocation_moves_def by blast
  from release_moves_allocation [OF assms(2)] show ?thesis
  proof (elim disjE exE conjE)
    assume "allocations d' = allocations d"
    with assms(1) show ?thesis by simp
  next
    fix b b' assume b: "allocations d' = update_first (\<lambda>a. alc_sessionId a = j) (\<lambda>_. b') (allocations d)"
      "alc_sessionId b' = j" "alc_state b' = AL_released"
    have "allocations d' = update_first (\<lambda>a. alc_sessionId a = j) (\<lambda>_. b') as"
      unfolding b(1) m(3) by (rule update_first_again) (rule m(4))
    with m(1,2) b(2,3) show ?thesis unfolding allocation_moves_def by (intro exI [of _ al] exI [of _ b']) simp
  qed
qed

text \<open>What a finalization does to the pass and to its allocation.\<close>

lemma finalize_body_allocations:
  assumes "finalize_body sha now i d = (Inr (b, rid), d')"
  shows "(sessions d' = sessions d \<and> allocations d' = allocations d)
    \<or> (\<exists>a s. find_charge i d = Some a \<and> is_held a
        \<and> find_and_update (\<lambda>s. ses_publicId s = att_sessionId a \<and> holds_reserved (att_minor a) s)
            (settle_session a (att_minor a)) (sessions d) = Some (s, sessions d')
        \<and> ((find_allocation (att_sessionId a) d = None \<and> allocations d' = allocations d)
           \<or> allocation_moves (att_sessionId a) (att_minor a) (allocations d) (allocations d')))"
  using assms
proof (cases rule: finalize_body_Inr)
  case (again w)
  from direct_receipt_frame [OF again(5)] show ?thesis by auto
next
  case (settled a s ss c cs d1 d2 n1 n2)
  let ?e = "d\<lparr>sessions := ss, day_counters := cs\<rparr>"
  have e: "find_allocation j ?e = find_allocation j d" "allocations ?e = allocations d" for j
    by (simp_all add: find_allocation_def)
  have d2: "(find_allocation (att_sessionId a) d = None \<and> allocations d2 = allocations d)
      \<or> allocation_moves (att_sessionId a) (att_minor a) (allocations d) (allocations d2)"
  proof (cases "ses_singleUse s")
    case False
    with settled(8) spend_moves [OF settled(7)] show ?thesis unfolding e by simp
  next
    case True
    with settled(8) have rel: "releaseFundingAllocation now (att_sessionId a) d1 = (Inr n2, d2)" by simp
    from spend_moves [OF settled(7)] show ?thesis
    proof (elim disjE conjE)
      assume n: "find_allocation (att_sessionId a) ?e = None" "allocations d1 = allocations ?e"
      then have "find_allocation (att_sessionId a) d1 = None" by (simp add: find_allocation_def)
      with release_moves_allocation [OF rel] n show ?thesis unfolding e by simp
    next
      assume "allocation_moves (att_sessionId a) (att_minor a) (allocations ?e) (allocations d1)"
      from moves_then_release [OF this rel] show ?thesis unfolding e by blast
    qed
  qed
  have "sessions d2 = ss"
    using spend_frame [OF settled(7)] settled(8) release_frame [of now "att_sessionId a" d1 n2 d2]
    by (auto simp: same_ledger_def split: if_splits)
  moreover obtain rs where "d' = (save_attempt b d2)\<lparr>receipts := rs\<rparr>" using direct_receipt_frame [OF settled(10)] by blast
  ultimately have "sessions d' = ss" "allocations d' = allocations d2" by simp_all
  with d2 settled(1,2,5) show ?thesis by auto
qed

text \<open>Replacing the allocation of one pass.\<close>

lemma replaced_allocation:
  assumes "distinct (map alc_sessionId as)" and "List.find (\<lambda>a. alc_sessionId a = j) as = Some al" and "alc_sessionId al' = j"
    and "x \<in> set (update_first (\<lambda>a. alc_sessionId a = j) (\<lambda>_. al') as)"
  shows "x = al' \<or> (x \<in> set as \<and> alc_sessionId x \<noteq> j)"
  using assms
proof (induction as)
  case (Cons y ys)
  show ?case
  proof (cases "alc_sessionId y = j")
    case True
    then have "j \<notin> alc_sessionId ` set ys" using Cons.prems(1) by auto
    moreover have "x = al' \<or> x \<in> set ys" using True Cons.prems(4) by auto
    ultimately show ?thesis by (cases "x = al'") (simp, metis image_eqI list.set_intros(2))
  next
    case False
    with Cons show ?thesis by auto
  qed
qed simp

lemma pass_ok_other_allocation:
  assumes "pass_ok as s" and "distinct (map alc_sessionId as)" and "List.find (\<lambda>a. alc_sessionId a = j) as = Some al"
    and "alc_sessionId al' = j" and "ses_publicId s \<noteq> j"
  shows "pass_ok (update_first (\<lambda>a. alc_sessionId a = j) (\<lambda>_. al') as) s"
proof -
  have "funded_by s x" if "x \<in> set (update_first (\<lambda>a. alc_sessionId a = j) (\<lambda>_. al') as)" for x
    using replaced_allocation [OF assms(2-4) that] assms(1,4,5) by (auto simp: pass_ok_def funded_by_def)
  with assms(1) show ?thesis by (simp add: pass_ok_def)
qed

lemma settle_ok:
  assumes ok: "pass_ok as s" and n: "0 \<le> n" "n \<le> ses_reservedOf s"
    and as': "\<And>a. a \<in> set as' \<Longrightarrow> alc_sessionId a = ses_publicId s \<Longrightarrow> alc_state a = AL_active
      \<Longrightarrow> alc_left a = ses_limitOf s - ses_spentOf s + topping_up s - n"
  shows "pass_ok as' (settle_session c n s)"
proof -
  have v: "topping_up (settle_session c n s) = topping_up s" "closing (settle_session c n s) = closing s"
    "lifecycle_amount (settle_session c n s) = lifecycle_amount s" "ses_limitMinor (settle_session c n s) = ses_limitMinor s"
    "ses_spentMinor (settle_session c n s) \<noteq> None"
    by (simp_all add: settle_session_def inc_session_reserved_def topping_up_def closing_def lifecycle_amount_def)
  have "closing s \<Longrightarrow> n = 0" using ok n by (auto simp: pass_ok_def close_ready_def)
  with ok n v as' show ?thesis by (auto simp: pass_ok_def money_fields_def close_ready_def funded_by_def)
qed

lemma finalize_pass_body_inv:
  assumes body: "finalize_body sha now i d = (Inr (b, rid), d')" and inv: "pass_inv d" and c: "charge_inv d'"
  shows "pass_inv d'"
  using finalize_body_allocations [OF body]
proof
  assume "sessions d' = sessions d \<and> allocations d' = allocations d"
  with inv c show ?thesis by (simp add: pass_inv_def)
next
  assume "\<exists>a s. find_charge i d = Some a \<and> is_held a
        \<and> find_and_update (\<lambda>s. ses_publicId s = att_sessionId a \<and> holds_reserved (att_minor a) s)
            (settle_session a (att_minor a)) (sessions d) = Some (s, sessions d')
        \<and> ((find_allocation (att_sessionId a) d = None \<and> allocations d' = allocations d)
           \<or> allocation_moves (att_sessionId a) (att_minor a) (allocations d) (allocations d'))"
  then obtain a t where a: "find_charge i d = Some a" "is_held a"
    and up: "find_and_update (\<lambda>s. ses_publicId s = att_sessionId a \<and> holds_reserved (att_minor a) s)
      (settle_session a (att_minor a)) (sessions d) = Some (t, sessions d')"
    and al: "find_allocation (att_sessionId a) d = None \<and> allocations d' = allocations d
      \<or> allocation_moves (att_sessionId a) (att_minor a) (allocations d) (allocations d')"
    by blast
  let ?j = "att_sessionId a"
  let ?n = "att_minor a"
  have n: "0 \<le> ?n"
    using find_charge_id [OF a(1)] a(2) inv by (auto simp: pass_inv_def charge_inv_def ledger_inv_def held_attempt_ok_def)
  have dis: "distinct (map ses_publicId (sessions d))" "distinct (map alc_sessionId (allocations d))"
    using inv charge_inv_distinct by (auto simp: pass_inv_def)
  obtain s where s: "s \<in> set (sessions d)" "ses_publicId s = ?j" "holds_reserved ?n s"
      "set (sessions d') = insert (settle_session a ?n s) (set (sessions d) - {s})"
    by (rule find_and_update_keys [OF dis(1) up, of ?j]) auto
  have ok: "\<And>x. x \<in> set (sessions d) \<Longrightarrow> pass_ok (allocations d) x" using inv by (simp add: pass_inv_def)
  have others: "ses_publicId x \<noteq> ?j" if "x \<in> set (sessions d)" "x \<noteq> s" for x
    using that s(1,2) dis(1) by (metis find_unique_key option.inject)
  from al show ?thesis
  proof (elim disjE conjE)
    assume none: "find_allocation ?j d = None" "allocations d' = allocations d"
    have "pass_ok (allocations d') (settle_session a ?n s)"
      by (rule settle_ok [OF ok [OF s(1)] n holds_reserved_le [OF s(3)]])
        (use none s(2) in \<open>auto simp: find_allocation_def find_None_iff\<close>)
    with s(4) ok none(2) inv c show ?thesis by (auto simp: pass_inv_def)
  next
    assume "allocation_moves ?j ?n (allocations d) (allocations d')"
    then obtain al al' where m: "List.find (\<lambda>a. alc_sessionId a = ?j) (allocations d) = Some al" "alc_state al = AL_active"
        "allocations d' = update_first (\<lambda>a. alc_sessionId a = ?j) (\<lambda>_. al') (allocations d)" "alc_sessionId al' = ?j"
        "alc_state al' = AL_active \<Longrightarrow> alc_left al' = alc_left al - ?n"
      unfolding allocation_moves_def by blast
    have "alc_left al = ses_limitOf s - ses_spentOf s + topping_up s"
      using ok [OF s(1)] find_SomeD [OF m(1)] m(2) s(2) by (auto simp: pass_ok_def funded_by_def)
    then have "pass_ok (allocations d') (settle_session a ?n s)"
      using replaced_allocation [OF dis(2) m(1,4)] m(3,5) s(2)
      by (intro settle_ok [OF ok [OF s(1)] n holds_reserved_le [OF s(3)]]) fastforce
    moreover have "pass_ok (allocations d') x" if "x \<in> set (sessions d)" "x \<noteq> s" for x
      unfolding m(3) by (rule pass_ok_other_allocation [OF ok [OF that(1)] dis(2) m(1,4) others [OF that]])
    moreover have "distinct (map alc_sessionId (allocations d'))"
      unfolding m(3) by (subst map_update_first) (use m(4) dis(2) in auto)
    ultimately show ?thesis using s(4) c by (auto simp: pass_inv_def)
  qed
qed

lemma finalize_pass_inv:
  assumes "finalizeChargeReservation sha now i d = (r, d')" and inv: "pass_inv d" and c: "charge_inv d'"
  shows "pass_inv d'"
proof (cases "transaction (finalize_body sha now i) d")
  case (Pair r1 d1)
  have same: "sessions d' = sessions d1 \<and> allocations d' = allocations d1 \<and> same_ledger d1 d'"
  proof -
    have "d' = d1 \<or> (\<exists>rid. d' = snd (queueReceiptNotifications sha now rid d1))"
      using assms(1) Pair by (auto simp: finalizeChargeReservation_def split: sum.splits option.splits prod.splits)
    moreover have "allocations (snd (queueReceiptNotifications sha now rid d1)) = allocations d1" for rid
      using queueReceiptNotifications_frame [of sha now rid d1]
      by (cases "queueReceiptNotifications sha now rid d1") auto
    ultimately show ?thesis using queue_frame [of d1 sha now] by (auto simp: same_ledger_def)
  qed
  then have c1: "charge_inv d1" using c by (simp add: charge_inv_def same_ledger_def)
  from Pair have "pass_inv d1"
  proof (cases rule: transaction_cases)
    case (committed v)
    then show ?thesis using finalize_pass_body_inv inv c1 by (cases v) blast
  qed (use inv in simp)
  with same show ?thesis using same_passes_inv c by blast
qed

lemma charge_pass_inv:
  assumes step: "charge_step sha d d'" and inv: "pass_inv d"
  shows "pass_inv d'"
proof -
  have c: "charge_inv d'" using charge_step_inv [OF step] inv by (simp add: pass_inv_def)
  from step show ?thesis
  proof cases
    case (reserve now i r)
    then show ?thesis using reserve_pass_inv inv by blast
  next
    case (release now i failure u)
    then show ?thesis using release_pass_inv inv c by blast
  next
    case (finalize now i a)
    then show ?thesis using finalize_pass_inv inv c by blast
  next
    case (claim i l now r)
    then show ?thesis unfolding claimChargeExecution_def using attempt_update_frame same_passes_inv inv c by blast
  next
    case (submit i l now r)
    then show ?thesis unfolding markChargeProviderSubmitted_def using attempt_update_frame same_passes_inv inv c by blast
  next
    case (correlate i l e h r)
    then show ?thesis unfolding setChargeProviderCorrelation_def using attempt_update_frame same_passes_inv inv c by blast
  next
    case (succeed i result now r)
    then show ?thesis unfolding markChargeProviderSucceeded_def using attempt_update_frame same_passes_inv inv c by blast
  next
    case (uncertain i failure)
    then have "sessions d' = sessions d \<and> allocations d' = allocations d"
      unfolding markChargeOutcomeUncertain_def by (metis attempt_update_frame prod.collapse)
    then show ?thesis using same_passes_inv inv c by blast
  qed
qed

subsection \<open>Creating, topping up and closing\<close>

lemma getSessionOrThrow_Inr:
  assumes "getSessionOrThrow i (Some w) d = (r, d')"
  shows "d' = d" and "r = Inr s \<Longrightarrow> w \<noteq> [] \<Longrightarrow> ses_ownerWalletId s = w"
    and "r = Inr s \<Longrightarrow> s \<in> set (sessions d) \<and> ses_publicId s = i"
  using assms by (auto simp: getSessionOrThrow_def nonempty_def split: option.splits list.splits dest!: find_SomeD)

lemma session_found:
  "charge_inv d \<Longrightarrow> s \<in> set (sessions d) \<Longrightarrow> find_session (ses_publicId s) d = Some s"
  unfolding find_session_def by (rule find_unique_key [OF charge_inv_distinct])

definition allocation_replaced :: "string \<Rightarrow> funding_allocation list \<Rightarrow> funding_allocation list \<Rightarrow> bool" where
  "allocation_replaced j as as' \<longleftrightarrow> as' = as \<or> (\<exists>al al'. List.find (\<lambda>a. alc_sessionId a = j) as = Some al
     \<and> as' = update_first (\<lambda>a. alc_sessionId a = j) (\<lambda>_. al') as \<and> alc_sessionId al' = j)"

lemma pass_inv_replace:
  assumes inv: "pass_inv d" and s: "s \<in> set (sessions d)" "ses_publicId s = j"
    and t: "ses_publicId t = j" "ses_reservedOf t = ses_reservedOf s" "ses_spentOf t + ses_reservedOf t \<le> ses_limitOf t"
    and d': "sessions d' = update_first (\<lambda>x. ses_publicId x = j) (\<lambda>_. t) (sessions d)" "attempts d' = attempts d"
      "day_counters d' = day_counters d"
    and al: "allocation_replaced j (allocations d) (allocations d')" and ok: "pass_ok (allocations d') t"
  shows "pass_inv d'"
proof -
  have c: "charge_inv d" and dis: "distinct (map alc_sessionId (allocations d))"
    using inv by (auto simp: pass_inv_def)
  have only: "x = s" if "x \<in> set (sessions d)" "ses_publicId x = j" for x
    using session_found [OF c that(1)] session_found [OF c s(1)] that(2) s(2) by simp
  have "charge_inv (d\<lparr>sessions := update_first (\<lambda>x. ses_publicId x = j) (\<lambda>_. t) (sessions d)\<rparr>)"
    by (rule charge_inv_update [OF c]) (use only t in auto)
  with d' have c': "charge_inv d'" by (simp add: charge_inv_def)
  have "pass_ok (allocations d') x" if "x \<in> set (sessions d)" "ses_publicId x \<noteq> j" for x
    using al inv that pass_ok_other_allocation [OF _ dis] by (auto simp: allocation_replaced_def pass_inv_def)
  moreover have "x = t \<or> (x \<in> set (sessions d) \<and> ses_publicId x \<noteq> j)" if "x \<in> set (sessions d')" for x
  proof -
    have "map ses_publicId (sessions d') = map ses_publicId (sessions d)"
      unfolding d'(1) by (rule map_update_first) (simp add: t(1))
    then have "distinct (map ses_publicId (sessions d'))" using charge_inv_distinct [OF c] by simp
    moreover have "t \<in> set (sessions d')"
      unfolding d'(1) using session_found [OF c s(1)] s(2) by (intro update_first_found) (simp add: find_session_def)
    ultimately have "ses_publicId x = j \<Longrightarrow> x = t"
      using that t(1) by (metis find_unique_key option.inject)
    with set_update_firstD [OF that [unfolded d'(1)]] show ?thesis by blast
  qed
  ultimately have "\<forall>x \<in> set (sessions d'). pass_ok (allocations d') x" using ok by blast
  moreover have "distinct (map alc_sessionId (allocations d'))"
    using al dis by (auto simp: allocation_replaced_def) (subst map_update_first, auto)
  ultimately show ?thesis using c' by (simp add: pass_inv_def)
qed

lemma begin_lifecycle_views [simp]:
  "ses_publicId (begin_lifecycle st lo n s) = ses_publicId s" "ses_limitOf (begin_lifecycle st lo n s) = ses_limitOf s"
  "ses_spentOf (begin_lifecycle st lo n s) = ses_spentOf s" "ses_reservedOf (begin_lifecycle st lo n s) = ses_reservedOf s"
  "ses_limitMinor (begin_lifecycle st lo n s) = ses_limitMinor s" "ses_spentMinor (begin_lifecycle st lo n s) = ses_spentMinor s"
  "lifecycle_amount (begin_lifecycle st lo n s) = n" "ses_lifecycleState (begin_lifecycle st lo n s) = Some st"
  by (simp_all add: begin_lifecycle_def edit_detail_def ses_limitOf_def ses_spentOf_def ses_reservedOf_def lifecycle_amount_def)

lemma end_lifecycle_views [simp]:
  "ses_publicId (end_lifecycle now s) = ses_publicId s" "ses_limitOf (end_lifecycle now s) = ses_limitOf s"
  "ses_spentOf (end_lifecycle now s) = ses_spentOf s" "ses_reservedOf (end_lifecycle now s) = ses_reservedOf s"
  "ses_limitMinor (end_lifecycle now s) = ses_limitMinor s" "ses_spentMinor (end_lifecycle now s) = ses_spentMinor s"
  "ses_lifecycleState (end_lifecycle now s) = Some L_idle" "ses_status (end_lifecycle now s) = ses_status s"
  by (simp_all add: end_lifecycle_def edit_detail_def ses_limitOf_def ses_spentOf_def ses_reservedOf_def)

lemma idle_views: "lifecycle_idle s \<Longrightarrow> topping_up s = 0 \<and> \<not> closing s"
  by (auto simp: lifecycle_idle_def topping_up_def closing_def)

lemma top_up_allocation:
  assumes "topUpFundingAllocation now j n d = (Inr w, d')" and "distinct (map alc_sessionId (allocations d))"
  shows "sessions d' = sessions d" and "attempts d' = attempts d" and "day_counters d' = day_counters d"
    and "allocation_replaced j (allocations d) (allocations d')"
    and "a \<in> set (allocations d') \<Longrightarrow> alc_sessionId a = j \<Longrightarrow> alc_state a = AL_active
      \<Longrightarrow> \<exists>b \<in> set (allocations d). alc_sessionId b = j \<and> alc_state b = AL_active \<and> alc_left a = alc_left b + n"
proof -
  have "sessions d' = sessions d \<and> attempts d' = attempts d \<and> day_counters d' = day_counters d
    \<and> allocation_replaced j (allocations d) (allocations d')
    \<and> (a \<in> set (allocations d') \<longrightarrow> alc_sessionId a = j \<longrightarrow> alc_state a = AL_active
      \<longrightarrow> (\<exists>b \<in> set (allocations d). alc_sessionId b = j \<and> alc_state b = AL_active \<and> alc_left a = alc_left b + n))"
    using assms(1)
  proof (cases rule: topUp_Inr)
    case none
    then show ?thesis by (auto simp: allocation_replaced_def find_None_iff)
  next
    case (topped b s s1 a2 s3)
    have b: "b \<in> set (allocations d)" "alc_sessionId b = j" "alc_state b = AL_active"
      using find_SomeD [OF topped(1)] by auto
    note fields = refreshAllocation_fields [OF topped(4)]
    have up: "allocations d' = update_first (\<lambda>y. alc_sessionId y = j) (\<lambda>_. a2) (allocations d)"
      using fields(1) b(2) by (simp add: topped(6) save_allocation_def)
    have f: "List.find (\<lambda>y. alc_sessionId y = j) (allocations d) = Some b"
      using find_unique_key [OF assms(2) b(1)] b(2) by simp
    have "a = a2" if "a \<in> set (allocations d')" "alc_sessionId a = j"
      using replaced_allocation [OF assms(2) f _ that(1) [unfolded up]] fields(1) b(2) that(2) by simp
    moreover have "alc_left a2 = alc_left b + n" "alc_sessionId a2 = j" using fields b(2) by (simp_all add: alc_left_def)
    moreover have "sessions d' = sessions d \<and> attempts d' = attempts d \<and> day_counters d' = day_counters d"
      by (simp add: topped(6))
    ultimately show ?thesis using up f b by (auto simp: allocation_replaced_def)
  qed
  then show "sessions d' = sessions d" "attempts d' = attempts d" "day_counters d' = day_counters d"
    "allocation_replaced j (allocations d) (allocations d')"
    "a \<in> set (allocations d') \<Longrightarrow> alc_sessionId a = j \<Longrightarrow> alc_state a = AL_active
      \<Longrightarrow> \<exists>b \<in> set (allocations d). alc_sessionId b = j \<and> alc_state b = AL_active \<and> alc_left a = alc_left b + n"
    by blast+
qed

lemma claim_top_up_inv:
  assumes "claim_top_up lo i w n d = (r, d')" and inv: "pass_inv d" and n: "0 < n"
  shows "pass_inv d'"
  using assms(1) unfolding claim_top_up_def
proof (cases rule: transaction_cases)
  case (committed v)
  from committed(2) obtain s where s: "getSessionOrThrow i (Some w) d = (Inr s, d)"
    by (auto simp: claim_top_up_body_def chain_eq_Inr dest: getSessionOrThrow_Inr(1))
  note mem = getSessionOrThrow_Inr(3) [OF s refl]
  show ?thesis
  proof (cases v)
    case None
    with committed(2) s have "d' = d"
      by (auto simp: claim_top_up_body_def chain_def Let_def split: sum.splits if_splits prod.splits)
    with inv show ?thesis by simp
  next
    case (Some t)
    with committed(2) s obtain d1 where idle: "lifecycle_idle s"
        and top: "topUpFundingAllocation (lo_at lo) i n d = (Inr (), d1)"
        and d': "d' = save_session (begin_lifecycle L_top_up_pending lo n s) d1"
      by (auto simp: claim_top_up_body_def chain_def Let_def require_idle_def require_def
          split: sum.splits if_splits prod.splits)
    have dis: "distinct (map alc_sessionId (allocations d))" and ok: "pass_ok (allocations d) s"
      using inv mem by (auto simp: pass_inv_def)
    note t = top_up_allocation [OF top dis]
    let ?t = "begin_lifecycle L_top_up_pending lo n s"
    have "topping_up ?t = n" "\<not> closing ?t" by (simp_all add: topping_up_def closing_def)
    moreover have "alc_left a = ses_limitOf s - ses_spentOf s + n"
      if "a \<in> set (allocations d1)" "alc_sessionId a = i" "alc_state a = AL_active" for a
      using t(5) [OF that] ok mem idle_views [OF idle] by (auto simp: pass_ok_def funded_by_def)
    ultimately have "pass_ok (allocations d1) ?t"
      using ok n mem by (auto simp: pass_ok_def money_fields_def close_ready_def funded_by_def)
    moreover have "session_ok (attempts d) s" using inv charge_inv_session mem by (auto simp: pass_inv_def)
    ultimately show ?thesis
      using mem t(1-4) by (intro pass_inv_replace [OF inv, of s i ?t]) (simp_all add: d' save_session_def session_ok_def)
  qed
qed (use inv in simp)

lemma claim_close_inv:
  assumes "claim_close lo i w reason d = (r, d')" and inv: "pass_inv d"
  shows "pass_inv d'"
  using assms(1) unfolding claim_close_def
proof (cases rule: transaction_cases)
  case (committed v)
  from committed(2) obtain s where s: "getSessionOrThrow i (Some w) d = (Inr s, d)"
    by (auto simp: claim_close_body_def chain_eq_Inr dest: getSessionOrThrow_Inr(1))
  note mem = getSessionOrThrow_Inr(3) [OF s refl]
  have c: "charge_inv d" and ok: "pass_ok (allocations d) s" using inv mem by (auto simp: pass_inv_def)
  show ?thesis
  proof (cases v)
    case None
    with committed(2) s have "d' = d"
      by (auto simp: claim_close_body_def chain_def Let_def split: sum.splits if_splits prod.splits)
    with inv show ?thesis by simp
  next
    case (Some t)
    with committed(2) s obtain refund where idle: "lifecycle_idle s" and none: "\<not> ses_reservedOf s > 0"
        and ref: "refund_of s = Inr refund" and d': "d' = save_session (begin_lifecycle (close_state reason) lo refund s) d"
      by (auto simp: claim_close_body_def chain_def Let_def require_idle_def require_def
          split: sum.splits if_splits prod.splits)
    have m: "money_fields s" using ok by (simp add: pass_ok_def)
    have refund: "refund = ses_limitOf s - ses_spentOf s" using limit_read(3) [OF m c] ref mem by simp
    have zero: "ses_reservedOf s = 0" using none charge_inv_session [OF c] mem by fastforce
    let ?t = "begin_lifecycle (close_state reason) lo refund s"
    have "topping_up ?t = 0" by (cases reason) (simp_all add: topping_up_def close_state_def)
    then have "pass_ok (allocations d) ?t"
      using ok idle_views [OF idle] refund zero by (auto simp: pass_ok_def money_fields_def close_ready_def funded_by_def)
    moreover have "session_ok (attempts d) s" using inv charge_inv_session mem by (auto simp: pass_inv_def)
    ultimately show ?thesis
      using mem by (intro pass_inv_replace [OF inv, of s i ?t]) (simp_all add: d' save_session_def session_ok_def allocation_replaced_def)
  qed
qed (use inv in simp)

lemma ready_found:
  assumes "List.find (ready_to_complete i w k st) (sessions d) = Some s"
  shows "s \<in> set (sessions d)" "ses_publicId s = i" "ses_lifecycleState s = Some st" "ses_ownerWalletId s = w"
  using find_SomeD [OF assms] by (auto simp: ready_to_complete_def of_operation_def)

lemma fromMinor_safe: "fromMinorUnits (Some m) c = Inr v \<Longrightarrow> 0 \<le> m \<and> isSafeInteger m"
  by (auto simp: fromMinorUnits_def legacy_Inr isSafeInteger_def split: sum.splits)

lemma complete_top_up_inv:
  assumes "completeTopUpLifecycle now i w k d = (r, d')" and inv: "pass_inv d"
  shows "pass_inv d'"
  using assms(1) unfolding completeTopUpLifecycle_def
proof (cases rule: transaction_cases)
  case (committed v)
  show ?thesis
  proof (cases "List.find (ready_to_complete i w k L_top_up_pending) (sessions d)")
    case None
    with committed(2) inv show ?thesis by (simp add: complete_top_up_body_def)
  next
    case (Some s)
    note s = ready_found [OF Some]
    have c: "charge_inv d" and ok: "pass_ok (allocations d) s" using inv s(1) by (auto simp: pass_inv_def)
    then have m: "money_fields s" by (simp add: pass_ok_def)
    from committed(2) Some limit_read(1) [OF m c s(1)] obtain limit where
        lim: "fromMinorUnits (Some (ses_limitOf s + lifecycle_amount s)) (ses_currency s) = Inr limit"
        and d': "d' = save_session (topped_up now (ses_limitOf s + lifecycle_amount s) limit s) d"
      by (auto simp: complete_top_up_body_def Let_def lifecycle_amount_def split: sum.splits)
    let ?t = "topped_up now (ses_limitOf s + lifecycle_amount s) limit s"
    have top: "topping_up s = lifecycle_amount s" "0 \<le> lifecycle_amount s"
      using m s(3) by (auto simp: topping_up_def money_fields_def)
    have v: "ses_publicId ?t = i" "ses_reservedOf ?t = ses_reservedOf s" "ses_spentOf ?t = ses_spentOf s"
      "ses_limitOf ?t = ses_limitOf s + lifecycle_amount s" "topping_up ?t = 0" "\<not> closing ?t"
      "ses_limitMinor ?t \<noteq> None" "ses_spentMinor ?t = ses_spentMinor s"
      using s(2) by (simp_all add: topped_up_def topping_up_def closing_def ses_limitOf_def ses_spentOf_def ses_reservedOf_def
          end_lifecycle_def edit_detail_def)
    have "pass_ok (allocations d) ?t"
      using ok v top fromMinor_safe [OF lim] s(2)
      by (auto simp: pass_ok_def money_fields_def close_ready_def funded_by_def)
    moreover have "session_ok (attempts d) s" using c s(1) charge_inv_session by blast
    ultimately show ?thesis
      using s(1,2) v top by (intro pass_inv_replace [OF inv s(1,2), of ?t]) (simp_all add: d' save_session_def session_ok_def allocation_replaced_def)
  qed
qed (use inv in simp)

lemma closed_session_views [simp]:
  "ses_publicId (closed_session now reason s) = ses_publicId s" "ses_limitOf (closed_session now reason s) = ses_limitOf s"
  "ses_spentOf (closed_session now reason s) = ses_spentOf s" "ses_reservedOf (closed_session now reason s) = ses_reservedOf s"
  "ses_limitMinor (closed_session now reason s) = ses_limitMinor s" "ses_spentMinor (closed_session now reason s) = ses_spentMinor s"
  "ses_lifecycleState (closed_session now reason s) = Some L_idle" "ses_status (closed_session now reason s) = close_status reason"
  by (simp_all add: closed_session_def end_lifecycle_def edit_detail_def ses_limitOf_def ses_spentOf_def ses_reservedOf_def)

lemma release_replaces:
  assumes "releaseFundingAllocation now j d = (Inr w, d')"
  shows "allocation_replaced j (allocations d) (allocations d')"
    and "distinct (map alc_sessionId (allocations d)) \<Longrightarrow> a \<in> set (allocations d') \<Longrightarrow> alc_sessionId a = j \<Longrightarrow>
      alc_state a = AL_active \<Longrightarrow> a \<in> set (allocations d)"
proof -
  show "allocation_replaced j (allocations d) (allocations d')"
    using release_moves_allocation [OF assms] unfolding allocation_replaced_def find_allocation_def by blast
next
  assume dis: "distinct (map alc_sessionId (allocations d))" and a: "a \<in> set (allocations d')" "alc_sessionId a = j" "alc_state a = AL_active"
  from release_moves_allocation [OF assms] show "a \<in> set (allocations d)"
  proof (elim disjE exE conjE)
    fix al al' assume al: "find_allocation j d = Some al" and up: "allocations d' = update_first (\<lambda>a. alc_sessionId a = j) (\<lambda>_. al') (allocations d)"
      and al': "alc_sessionId al' = j" "alc_state al' = AL_released"
    from replaced_allocation [OF dis al [unfolded find_allocation_def] al'(1) a(1) [unfolded up]] a al' show ?thesis by auto
  qed (use a in simp)
qed

lemma complete_close_inv:
  assumes "completeCloseLifecycle now i w k reason d = (r, d')" and inv: "pass_inv d"
  shows "pass_inv d'"
  using assms(1) unfolding completeCloseLifecycle_def
proof (cases rule: transaction_cases)
  case (committed v)
  show ?thesis
  proof (cases "List.find (ready_to_complete i w k (close_state reason)) (sessions d)")
    case None
    with committed(2) inv show ?thesis by (simp add: complete_close_body_def)
  next
    case (Some s)
    note s = ready_found [OF Some]
    let ?t = "closed_session now reason s"
    from committed(2) Some obtain released d1 where
        rel: "releaseFundingAllocation now i (save_session ?t d) = (Inr released, d1)" and d': "d' = d1"
      by (auto simp: complete_close_body_def Let_def chain_eq_Inr split: sum.splits if_splits)
    have c: "charge_inv d" and ok: "pass_ok (allocations d) s" and dis: "distinct (map alc_sessionId (allocations d))"
      using inv s(1) by (auto simp: pass_inv_def)
    have "closing s" using s(3) by (cases reason) (auto simp: closing_def close_state_def)
    then have "topping_up s = 0" by (auto simp: closing_def topping_up_def)
    moreover have "topping_up ?t = 0" "\<not> closing ?t" by (simp_all add: topping_up_def closing_def)
    ultimately have "pass_ok (allocations d') ?t"
      using ok release_replaces(2) [OF rel] dis s(2)
      by (auto simp: pass_ok_def money_fields_def close_ready_def funded_by_def d')
    moreover have "session_ok (attempts d) s" using c s(1) charge_inv_session by blast
    moreover have "sessions d' = sessions (save_session ?t d)" "attempts d' = attempts d" "day_counters d' = day_counters d"
      using release_frame [OF rel] by (auto simp: same_ledger_def d')
    ultimately show ?thesis
      using s(1,2) release_replaces(1) [OF rel]
      by (intro pass_inv_replace [OF inv s(1,2), of ?t]) (simp_all add: d' save_session_def session_ok_def)
  qed
qed (use inv in simp)

lemma plan_pass_limit: "plan_pass w ce i n = Inr p \<Longrightarrow> pp_limitMinor p = n \<and> isSafeInteger n"
  by (auto simp: plan_pass_def Let_def dest!: fromMinor_safe)

lemma persist_frame:
  "persistSessionRecipientIdentities w supply owner i ws d = (Inr u, d') \<Longrightarrow>
    sessions d' = sessions d \<and> attempts d' = attempts d \<and> day_counters d' = day_counters d \<and> allocations d' = allocations d"
  by (auto simp: persistSessionRecipientIdentities_def split: option.splits)

lemma create_pass_body_Inr:
  assumes "create_pass_body w ce i walletId app sel p d = (Inr t, d')"
  obtains a where "sessions d' = sessions d @ [t]" and "attempts d' = attempts d" and "day_counters d' = day_counters d"
    and "allocations d' = allocations d @ [a]" and "alc_sessionId a = ses_publicId t" and "alc_left a = pp_limitMinor p"
    and "\<forall>x \<in> set (allocations d). alc_sessionId x \<noteq> ses_publicId t"
    and "\<forall>x \<in> set (sessions d). ses_publicId x \<noteq> ses_publicId t"
    and "t = (new_session ce i walletId app sel p)\<lparr>ses_fiberNetwork := Some (sw_network w)\<rparr>"
proof -
  let ?t = "(new_session ce i walletId app sel p)\<lparr>ses_fiberNetwork := Some (sw_network w)\<rparr>"
  have id: "ses_publicId ?t = ce_supply ce ''fp_pass'' 0" by (simp add: new_session_def Let_def)
  from assms obtain d1 ss where al: "allocateFundingForSession (ce_supply ce ''falloc'' 0) (ce_now ce) sel walletId
        (ce_supply ce ''fp_pass'' 0) (pp_limitMinor p) d = (Inr (), d1)"
      and ins: "insert_row (\<lambda>x. ses_publicId x = ses_publicId ?t) ?t (sessions d1) = Some ss"
      and per: "persistSessionRecipientIdentities w (ce_supply ce) walletId (ses_publicId ?t) (pp_recipients p) (d1\<lparr>sessions := ss\<rparr>) = (Inr (), d')"
      and t: "t = ?t"
    by (auto simp: create_pass_body_def chain_eq_Inr Let_def split: option.splits)
  note f = persist_frame [OF per]
  from al show thesis
  proof (cases rule: allocate_Inr)
    case (1 s s1 s2)
    show thesis
      by (rule that [of "new_allocation (ce_supply ce ''falloc'' 0) (ce_now ce) walletId (ce_supply ce ''fp_pass'' 0) (pp_limitMinor p) s2"])
        (use f 1 ins t id in \<open>auto simp: insert_row_Some new_allocation_def alc_left_def\<close>)
  qed
qed

lemma create_pass_inv:
  assumes "plan_pass w ce i n = Inr p" and "0 < n" and "create_pass w ce i walletId app sel p d = (r, d')" and inv: "pass_inv d"
  shows "pass_inv d'"
  using assms(3) unfolding create_pass_def
proof (cases rule: transaction_cases)
  case (committed t)
  from committed(2) show ?thesis
  proof (cases rule: create_pass_body_Inr)
    case (1 a)
    have t: "ses_limitOf t = n" "ses_spentOf t = 0" "ses_reservedOf t = 0" "ses_lifecycleState t = Some L_idle"
      "ses_limitMinor t \<noteq> None" "ses_spentMinor t \<noteq> None"
      using plan_pass_limit [OF assms(1)]
      by (simp_all add: 1(9) new_session_def Let_def ses_limitOf_def ses_spentOf_def ses_reservedOf_def)
    have c: "charge_inv d" using inv by (simp add: pass_inv_def)
    have held: "held_for (ses_publicId t) (attempts d) = 0"
    proof -
      have "att_sessionId x \<noteq> ses_publicId t" if "x \<in> set (attempts d)" "is_held x" for x
        using that c 1(8) by (auto simp: charge_inv_def ledger_inv_def held_attempt_ok_def)
      then have "held_for (ses_publicId t) (attempts d) = total (\<lambda>_. False) att_minor (attempts d)"
        unfolding held_for_def by (intro total_cong) auto
      then show ?thesis by (simp add: total_def)
    qed
    have "charge_inv d'"
      using c 1(1-3,8) t held assms(2) by (auto simp: charge_inv_def ledger_inv_def session_ok_def held_attempt_ok_def)
    moreover have "pass_ok (allocations d') t"
      using t assms(2) plan_pass_limit [OF assms(1)] 1(4-7)
      by (auto simp: pass_ok_def money_fields_def close_ready_def funded_by_def closing_def topping_up_def)
    moreover have "pass_ok (allocations d') x" if "x \<in> set (sessions d)" for x
      using that inv 1(4,5,8) by (auto simp: pass_inv_def pass_ok_def funded_by_def)
    moreover have "distinct (map alc_sessionId (allocations d'))" using inv 1(4,5,7) by (auto simp: pass_inv_def)
    ultimately show ?thesis using 1(1) by (auto simp: pass_inv_def)
  qed
qed (use inv in simp)

lemma pass_step_inv: "pass_step late sha d d' \<Longrightarrow> pass_inv d \<Longrightarrow> pass_inv d'"
  by (induction rule: pass_step.induct)
    (simp_all add: charge_pass_inv create_pass_inv claim_top_up_inv complete_top_up_inv claim_close_inv complete_close_inv
      plain_writes_inv only_wallets_inv)

lemma pass_history_inv: "pass_history late sha d0 d \<Longrightarrow> pass_inv d0 \<Longrightarrow> pass_inv d"
proof (induction rule: pass_history.induct)
  case (next_pass d d')
  from pass_step_inv [OF next_pass.hyps(2) next_pass.IH [OF next_pass.prems]] show ?case .
qed simp

subsection \<open>The errors of a close\<close>

lemma legacy_error: "legacyMinorToAtomicAmount v = Inl e \<Longrightarrow> e \<noteq> REFUND_MISMATCH"
  by (auto simp: legacyMinorToAtomicAmount_def atomicAmountFromBigInt_def checkedAtomicValue_def REFUND_MISMATCH_def split: if_splits sum.splits)

lemma legacyAll_error: "legacyAll vs = Inl e \<Longrightarrow> e \<noteq> REFUND_MISMATCH"
  by (induction vs arbitrary: e) (auto dest: legacy_error split: sum.splits)

lemma bindE_error: "bindE m k = Inl e \<longleftrightarrow> m = Inl e \<or> (\<exists>v. m = Inr v \<and> k v = Inl e)"
  by (cases m) simp_all

lemma release_errors:
  "allocationRemainingMinor a = Inl e \<Longrightarrow> e \<noteq> REFUND_MISMATCH"
  "legacyAtomicMirror vs = Inl e \<Longrightarrow> e \<noteq> REFUND_MISMATCH"
  "release_source s n = Inl e \<Longrightarrow> e \<noteq> REFUND_MISMATCH"
  "securedReclaimableMinor x y = Inl e \<Longrightarrow> e \<noteq> REFUND_MISMATCH"
  "fundingSourceState s now = Inl e \<Longrightarrow> e \<noteq> REFUND_MISMATCH"
  "validateSecuredProof s = Inl e \<Longrightarrow> e \<noteq> REFUND_MISMATCH"
  "validateAllocation a = Inl e \<Longrightarrow> e \<noteq> REFUND_MISMATCH"
  by (auto simp: allocationRemainingMinor_def checkedMinor_def bindE_error legacyAtomicMirror_def release_source_def
      securedReclaimableMinor_def fundingSourceState_def validateSecuredProof_def validateAllocation_def require_def
      REFUND_MISMATCH_def split: if_splits dest: legacyAll_error [unfolded REFUND_MISMATCH_def])

lemma refresh_errors:
  "refreshAllocationAmounts a = Inl e \<Longrightarrow> e \<noteq> REFUND_MISMATCH"
  "refreshSourceAmounts now s = Inl e \<Longrightarrow> e \<noteq> REFUND_MISMATCH"
  by (auto simp: refreshAllocationAmounts_def refreshSourceAmounts_def bindE_error Let_def dest: release_errors split: if_splits)

lemma release_error: "releaseFundingAllocation now i d = (Inl e, d') \<Longrightarrow> e \<noteq> REFUND_MISMATCH"
  by (auto simp: releaseFundingAllocation_def save_source_and_allocation_def bindE_error REFUND_MISMATCH_def
      split: if_splits option.splits sum.splits
      dest: release_errors [unfolded REFUND_MISMATCH_def] refresh_errors [unfolded REFUND_MISMATCH_def])

lemma fromMinor_error: "fromMinorUnits m c = Inl e \<Longrightarrow> e \<noteq> REFUND_MISMATCH"
  by (auto simp: fromMinorUnits_def getCurrencyMetadata_def REFUND_MISMATCH_def
      dest: legacy_error [unfolded REFUND_MISMATCH_def] split: option.splits sum.splits)

lemma complete_close_body_cases:
  assumes "complete_close_body now i owner op reason d = (r, d')"
    and "List.find (ready_to_complete i owner op (close_state reason)) (sessions d) = Some s"
    and "\<And>n d1. releaseFundingAllocation now i (save_session (closed_session now reason s) d) = (Inr n, d1) \<Longrightarrow> n = 0 \<or> n = lifecycle_amount s"
  shows "r \<noteq> Inl REFUND_MISMATCH"
    and "r = Inr True \<Longrightarrow> \<exists>n. releaseFundingAllocation now i (save_session (closed_session now reason s) d) = (Inr n, d')"
proof -
  let ?e = "save_session (closed_session now reason s) d"
  obtain x d1 where x: "releaseFundingAllocation now i ?e = (x, d1)" by fastforce
  show "r \<noteq> Inl REFUND_MISMATCH"
  proof (cases "fromMinorUnits (Some (lifecycle_amount s)) (ses_currency s)")
    case (Inl e)
    with assms(1,2) fromMinor_error [OF Inl] show ?thesis by (auto simp: complete_close_body_def Let_def lifecycle_amount_def)
  next
    case (Inr v)
    have "x \<noteq> Inl REFUND_MISMATCH" using x release_error by blast
    with Inr assms(1,2) x assms(3) show ?thesis
      by (cases x) (auto simp: complete_close_body_def Let_def lifecycle_amount_def chain_def split: if_splits)
  qed
  show "\<exists>n. releaseFundingAllocation now i ?e = (Inr n, d')" if "r = Inr True"
    using assms(1,2) that by (auto simp: complete_close_body_def Let_def chain_eq_Inr split: sum.splits if_splits)
qed

lemma active_is_released:
  assumes "releaseFundingAllocation now j d = (Inr n, d')" and "find_allocation j d = Some a" and "alc_state a = AL_active"
  shows "\<exists>b. find_allocation j d' = Some b \<and> alc_state b = AL_released \<and> alc_remainingMinor b = 0
    \<and> alc_releasedMinor b = alc_releasedMinor a + alc_left a"
  using assms(1)
proof (cases rule: release_Inr)
  case no_change
  with assms(2,3) show ?thesis by blast
next
  case (released x s s1 a1 s2)
  with assms(2) have x: "x = a" "alc_sessionId a = j" by (auto simp: find_allocation_def dest: find_SomeD)
  note fields = refreshAllocation_fields [OF released(7)]
  have "allocations d' = update_first (\<lambda>y. alc_sessionId y = j) (\<lambda>_. a1) (allocations d)"
    using fields(1) x by (simp add: released(8) save_allocation_def)
  then have "find_allocation j d' = Some a1"
    using find_replace [OF assms(2) [unfolded find_allocation_def]] fields(1) x by (simp add: find_allocation_def)
  with fields released(4) x show ?thesis by (simp add: alc_left_def)
qed

end
