(* ===== verification/Session_Proofs.thy ===== *)
theory Session_Proofs
  imports Session_Safety
begin

section \<open>What holds of a pass and of its funding\<close>

text \<open>The properties of creating, topping up, pausing, closing and expiring a pass, with a concrete pass.\<close>

subsection \<open>A concrete pass\<close>

definition sample_pass :: session where
  "sample_pass = sample_session\<lparr>ses_lifecycleState := Some L_idle, ses_limitMinor := Some 60, ses_reservedMinor := Some 0\<rparr>"

definition sample_core :: core_db where
  "sample_core = empty_db\<lparr>sessions := [sample_pass], sources := [sample_source 100 60 0 0], allocations := [sample_allocation 0 0]\<rparr>"

definition sample_pass_db :: session_db where
  "sample_pass_db = nwc_db.extend (schedule_db.extend (metered_db.extend (core_db.extend sample_core
       \<lparr>apps = [], destinations = [], nwc_connections = [], btcpay_connections = [], grants = [],
        events = [], batches = [], rate_counters = []\<rparr>) \<lparr>schedules = [], occurrences = [], recipients = []\<rparr>)
     \<lparr>nwc_payments = [], wire = []\<rparr>) \<lparr>wallets = [], wallet_fundings = [], claims = [], channels = []\<rparr>"

lemma sample_pass_db_fields [simp]:
  "sessions sample_pass_db = [sample_pass]" "attempts sample_pass_db = []" "day_counters sample_pass_db = []"
  "sources sample_pass_db = [sample_source 100 60 0 0]" "allocations sample_pass_db = [sample_allocation 0 0]"
  by (simp_all add: sample_pass_db_def sample_core_def empty_db_def core_db.defs metered_db.defs schedule_db.defs nwc_db.defs)

lemma sample_pass_fields [simp]:
  "ses_publicId sample_pass = ''pass''" "ses_ownerWalletId sample_pass = ''w''" "ses_status sample_pass = S_active"
  "ses_lifecycleState sample_pass = Some L_idle" "ses_limitMinor sample_pass = Some 60" "ses_spentMinor sample_pass = Some 0"
  "ses_reservedMinor sample_pass = Some 0" "ses_currency sample_pass = ''CKB''" "ses_detail sample_pass = blank_detail"
  by (simp_all add: sample_pass_def sample_session_def)

lemma sample_allocation_fields [simp]:
  "alc_sessionId (sample_allocation a b) = ''pass''" "alc_state (sample_allocation a b) = AL_active"
  "alc_left (sample_allocation a b) = 60 - a - b"
  by (simp_all add: sample_allocation_def new_allocation_def alc_left_def)

lemma sample_pass_inv: "pass_inv sample_pass_db"
  by (simp add: pass_inv_def charge_inv_def ledger_inv_def session_ok_def held_for_def pass_ok_def money_fields_def
      close_ready_def funded_by_def closing_def topping_up_def ses_limitOf_def ses_spentOf_def ses_reservedOf_def
      isSafeInteger_def MAX_SAFE_INTEGER_def)

definition sample_operation :: operation where
  "sample_operation = \<lparr>lo_id = ''op'', lo_key = ''key'', lo_at = 5\<rparr>"

definition sample_revoking :: session where
  "sample_revoking = begin_lifecycle L_revoke_pending sample_operation 60 sample_pass"

definition sample_answer :: fiber_result where
  "sample_answer = \<lparr>fr_provider = ''rpc'', fr_network = ''net'', fr_proofId = []\<rparr>"

definition sample_revoked_by_node :: session where
  "sample_revoked_by_node = edit_detail (\<lambda>x. x\<lparr>det_lifecycleProviderStatus := Some LP_succeeded, det_lifecycleProvider := Some ''rpc'',
     det_lifecycleNetwork := Some ''net'', det_lifecycleProofId := Some []\<rparr>) sample_revoking"

lemma sample_claim_close:
  "claim_close sample_operation ''pass'' ''w'' CR_revoked sample_pass_db
    = (Inr (Some sample_revoking), sample_pass_db\<lparr>sessions := [sample_revoking]\<rparr>)"
proof -
  have "refund_of sample_pass = Inr 60"
    by (simp add: refund_of_def sessionLimitMinor_def sessionSpentMinor_def fallbackMinorUnits_def clampMinorUnits_def
        isSafeInteger_def MAX_SAFE_INTEGER_def)
  moreover have "getSessionOrThrow ''pass'' (Some ''w'') sample_pass_db = (Inr sample_pass, sample_pass_db)"
    by (simp add: getSessionOrThrow_def nonempty_def)
  ultimately show ?thesis
    by (simp add: claim_close_def claim_close_body_def transaction_def chain_def require_open_def require_idle_def
        require_def open_status_def lifecycle_idle_def close_status_def close_state_def ses_reservedOf_def
        save_session_def sample_revoking_def Let_def)
qed

lemma sample_node_answer:
  "snd (mark_lifecycle_succeeded ''pass'' ''w'' ''op'' L_revoke_pending sample_answer (sample_pass_db\<lparr>sessions := [sample_revoking]\<rparr>))
    = sample_pass_db\<lparr>sessions := [sample_revoked_by_node]\<rparr>"
  by (simp add: mark_lifecycle_succeeded_def update_session_def of_operation_def sample_revoking_def sample_answer_def
      begin_lifecycle_def edit_detail_def sample_operation_def sample_revoked_by_node_def)

lemma sample_close_history:
  "pass_history True sha sample_pass_db (sample_pass_db\<lparr>sessions := [sample_revoked_by_node]\<rparr>)"
proof -
  have "pass_step True sha sample_pass_db (sample_pass_db\<lparr>sessions := [sample_revoking]\<rparr>)"
    by (rule pass_step.claim_close [OF sample_claim_close])
  moreover have "pass_step True sha (sample_pass_db\<lparr>sessions := [sample_revoking]\<rparr>) (sample_pass_db\<lparr>sessions := [sample_revoked_by_node]\<rparr>)"
    using pass_step.succeeded [where d = "sample_pass_db\<lparr>sessions := [sample_revoking]\<rparr>" and late = True and publicId = "''pass''"
        and walletId = "''w''" and i = "''op''" and st = L_revoke_pending and answer = sample_answer]
    unfolding sample_node_answer .
  ultimately show ?thesis by (meson pass_history.intros)
qed

definition sample_closed_allocation :: funding_allocation where
  "sample_closed_allocation = (sample_allocation 0 60)\<lparr>alc_state := AL_released, alc_releasedAt := Some 9\<rparr>"

definition sample_closed_db :: session_db where
  "sample_closed_db = sample_pass_db\<lparr>sessions := [closed_session 9 CR_revoked sample_revoked_by_node],
     sources := [sample_source 100 0 0 60], allocations := [sample_closed_allocation]\<rparr>"

lemma sample_complete_close:
  "completeCloseLifecycle 9 ''pass'' ''w'' ''op'' CR_revoked (sample_pass_db\<lparr>sessions := [sample_revoked_by_node]\<rparr>)
    = (Inr True, sample_closed_db)"
proof -
  let ?d = "sample_pass_db\<lparr>sessions := [sample_revoked_by_node]\<rparr>"
  let ?t = "closed_session 9 CR_revoked sample_revoked_by_node"
  have id: "ses_publicId sample_revoked_by_node = ''pass''"
    by (simp add: sample_revoked_by_node_def sample_revoking_def edit_detail_def)
  have find: "List.find (ready_to_complete ''pass'' ''w'' ''op'' (close_state CR_revoked)) (sessions ?d) = Some sample_revoked_by_node"
    by (simp add: ready_to_complete_def of_operation_def close_state_def sample_revoked_by_node_def sample_revoking_def
        edit_detail_def begin_lifecycle_def sample_operation_def)
  have amount: "det_lifecycleAmountMinor (ses_detail sample_revoked_by_node) = Some 60" "ses_currency sample_revoked_by_node = ''CKB''"
    by (simp_all add: sample_revoked_by_node_def sample_revoking_def edit_detail_def begin_lifecycle_def)
  have "fromMinorUnits (Some 60) ''CKB'' \<noteq> Inl e" for e
    by (simp add: fromMinorUnits_def legacy_value MAX_SAFE_INTEGER_def getCurrencyMetadata_def CURRENCY_METADATA_def
        toUpperCase_def upper_char_def)
  then obtain v where v: "fromMinorUnits (Some 60) ''CKB'' = Inr v" by (cases "fromMinorUnits (Some 60) ''CKB''") auto
  have saved: "save_session ?t ?d = sample_pass_db\<lparr>sessions := [?t]\<rparr>" by (simp add: save_session_def id)
  have "releaseFundingAllocation 9 ''pass'' (sample_pass_db\<lparr>sessions := [?t]\<rparr>) = (Inr 60, sample_closed_db)"
    by (simp add: releaseFundingAllocation_def release_source_def legacyAtomicMirror_ok sample_funding_simps
        sample_closed_db_def sample_closed_allocation_def)
  then show ?thesis
    using find amount v saved
    by (simp add: completeCloseLifecycle_def complete_close_body_def transaction_def chain_def Let_def)
qed

subsection \<open>The allocation covers the pass\<close>

lemma pass_funded:
  assumes "pass_inv d0" and "pass_history True sha d0 d" and "find_session i d = Some s"
    and "find_allocation i d = Some a" and "alc_state a = AL_active"
  shows "alc_left a = ses_limitOf s - ses_spentOf s + topping_up s" and "held_for i (attempts d) \<le> alc_left a"
    and "0 \<le> topping_up s"
proof -
  have inv: "pass_inv d" using pass_history_inv assms(1,2) by blast
  have s: "s \<in> set (sessions d)" "ses_publicId s = i" using assms(3) by (auto simp: find_session_def dest: find_SomeD)
  have a: "a \<in> set (allocations d)" "alc_sessionId a = i" using assms(4) by (auto simp: find_allocation_def dest: find_SomeD)
  from inv s a assms(5) show left: "alc_left a = ses_limitOf s - ses_spentOf s + topping_up s" and top: "0 \<le> topping_up s"
    by (auto simp: pass_inv_def pass_ok_def funded_by_def money_fields_def)
  have "session_ok (attempts d) s" using inv s(1) charge_inv_session by (auto simp: pass_inv_def)
  with left top s(2) show "held_for i (attempts d) \<le> alc_left a" by (simp add: session_ok_def)
qed

text \<open>
  Property C32: along any interleaving of creations, charges, top-ups, closes, pauses, grants and
  expiries, with all their failures and late writes, the active allocation of a pass holds exactly what the
  pass may still spend (plus a top-up that is not completed yet), and so covers every reserved charge.
\<close>

theorem pass_stays_funded:
  assumes "pass_inv d0" and "pass_history True sha d0 d" and "find_session i d = Some s"
    and "find_allocation i d = Some a" and "alc_state a = AL_active"
  shows "alc_left a = ses_limitOf s - ses_spentOf s + topping_up s \<and> held_for i (attempts d) \<le> alc_left a \<and> 0 \<le> topping_up s"
  using pass_funded [OF assms] by blast


theorem pass_stays_funded_witness:
  "alc_left (sample_allocation 0 0) = ses_limitOf sample_revoked_by_node - ses_spentOf sample_revoked_by_node
     + topping_up sample_revoked_by_node"
  by (rule conjunct1 [OF pass_stays_funded [OF sample_pass_inv sample_close_history [of id], of "''pass''"]])
    (simp_all add: find_session_def find_allocation_def sample_revoked_by_node_def sample_revoking_def edit_detail_def)

text \<open>
  Property C33: closing returns exactly the remainder. Whatever ran before, completing a close never fails
  with a mismatch of refund and released funding; when it completes, the pass has the closing status, no charge
  is reserved on it, and an active allocation of the pass is released by what the pass had not spent.
\<close>

theorem close_returns_remainder:
  assumes "pass_inv d0" and "pass_history True sha d0 d"
    and "completeCloseLifecycle now i owner op reason d = (r, d')"
  shows "r \<noteq> Inl REFUND_MISMATCH \<and> (r = Inr True \<longrightarrow> (\<exists>s t. find_session i d = Some s \<and> find_session i d' = Some t
        \<and> ses_status t = close_status reason \<and> held_for i (attempts d') = 0
        \<and> (\<forall>a. find_allocation i d = Some a \<and> alc_state a = AL_active \<longrightarrow>
              (\<exists>b. find_allocation i d' = Some b \<and> alc_state b = AL_released \<and> alc_remainingMinor b = 0
                \<and> alc_releasedMinor b = alc_releasedMinor a + (ses_limitOf s - ses_spentOf s)))))"
proof -
  have inv: "pass_inv d" using pass_history_inv assms(1,2) by blast
  then have c: "charge_inv d" by (simp add: pass_inv_def)
  show ?thesis
  proof (cases "List.find (ready_to_complete i owner op (close_state reason)) (sessions d)")
    case None
    with assms(3) show ?thesis
      by (auto simp: completeCloseLifecycle_def complete_close_body_def transaction_def)
  next
    case (Some s)
    note s = ready_found [OF Some]
    have fs: "find_session i d = Some s" using session_found [OF c s(1)] s(2) by simp
    let ?t = "closed_session now reason s"
    let ?e = "save_session ?t d"
    have ok: "pass_ok (allocations d) s" using inv s(1) by (simp add: pass_inv_def)
    have "closing s" using s(3) by (cases reason) (auto simp: closing_def close_state_def)
    then have refund: "lifecycle_amount s = ses_limitOf s - ses_spentOf s" "ses_reservedOf s = 0" "topping_up s = 0"
      using ok by (auto simp: pass_ok_def close_ready_def closing_def topping_up_def)
    have release: "released = 0 \<or> released = lifecycle_amount s"
      if "releaseFundingAllocation now i ?e = (Inr released, d1)" for released d1
    proof -
      from release_moves_allocation [OF that] show ?thesis
      proof (elim disjE exE conjE)
        fix al al' assume al: "find_allocation i ?e = Some al" "alc_state al = AL_active" "released = alc_left al"
        from al(1) have "al \<in> set (allocations d)" "alc_sessionId al = i" by (auto simp: find_allocation_def dest: find_SomeD)
        with ok s(2) al(2,3) refund show ?thesis by (auto simp: pass_ok_def funded_by_def)
      qed simp
    qed
    show ?thesis
      using assms(3) unfolding completeCloseLifecycle_def
    proof (cases rule: transaction_cases)
      case (aborted e)
      then obtain d1 where "complete_close_body now i owner op reason d = (Inl e, d1)" by (metis prod.collapse)
      with complete_close_body_cases(1) [OF this Some] release aborted show ?thesis by auto
    next
      case (committed v)
      have False if "Inr v = (Inl REFUND_MISMATCH :: error + bool)" using that by simp
      moreover have "\<exists>t. find_session i d' = Some t \<and> ses_status t = close_status reason \<and> held_for i (attempts d') = 0
        \<and> (\<forall>a. find_allocation i d = Some a \<and> alc_state a = AL_active \<longrightarrow>
              (\<exists>b. find_allocation i d' = Some b \<and> alc_state b = AL_released \<and> alc_remainingMinor b = 0
                \<and> alc_releasedMinor b = alc_releasedMinor a + (ses_limitOf s - ses_spentOf s)))" if "v"
      proof -
        have "Inr v = (Inr True :: error + bool)" using that by simp
        with complete_close_body_cases(2) [OF committed(2) Some] release obtain n where
            rel: "releaseFundingAllocation now i ?e = (Inr n, d')" by blast
        have fr: "sessions d' = sessions ?e" "attempts d' = attempts d"
          using release_frame [OF rel] by (auto simp: same_ledger_def)
        have "find_session i d' = Some ?t"
          using find_replace [OF fs [unfolded find_session_def], of ?t] s(2)
          by (simp add: find_session_def fr(1) save_session_def)
        moreover have "held_for i (attempts d') = 0"
          using charge_inv_session [OF c s(1)] refund(2) s(2) by (simp add: session_ok_def fr(2))
        moreover have "\<exists>b. find_allocation i d' = Some b \<and> alc_state b = AL_released \<and> alc_remainingMinor b = 0
                \<and> alc_releasedMinor b = alc_releasedMinor a + (ses_limitOf s - ses_spentOf s)"
          if a: "find_allocation i d = Some a" "alc_state a = AL_active" for a
        proof -
          have "find_allocation i ?e = Some a" using a(1) by (simp add: find_allocation_def)
          from active_is_released [OF rel this a(2)] show ?thesis
            using ok a s(2) refund(3) by (auto simp: pass_ok_def funded_by_def find_allocation_def dest: find_SomeD)
        qed
        ultimately show ?thesis by auto
      qed
      ultimately show ?thesis using committed(1) fs by blast
    qed
  qed
qed

theorem close_returns_remainder_witness:
  "\<exists>b. find_allocation ''pass'' sample_closed_db = Some b \<and> alc_state b = AL_released \<and> alc_releasedMinor b = 60"
proof -
  have s: "ses_limitOf sample_revoked_by_node = 60" "ses_spentOf sample_revoked_by_node = 0" "ses_publicId sample_revoked_by_node = ''pass''"
    by (simp_all add: sample_revoked_by_node_def sample_revoking_def edit_detail_def begin_lifecycle_def ses_limitOf_def ses_spentOf_def)
  have a: "find_allocation ''pass'' (sample_pass_db\<lparr>sessions := [sample_revoked_by_node]\<rparr>) = Some (sample_allocation 0 0)"
    by (simp add: find_allocation_def)
  have "alc_releasedMinor (sample_allocation 0 0) = 0" by (simp add: sample_allocation_def)
  with close_returns_remainder [OF sample_pass_inv sample_close_history [of id] sample_complete_close] a s show ?thesis
    by (auto simp: find_session_def)
qed

end
