(* ===== verification/Session_Expiry.thy ===== *)
theory Session_Expiry
  imports Session_Proofs
begin

section \<open>Passes that keep or lose their funding\<close>

text \<open>
  Two failures of the life of a pass: the allocation of an expired pass is never released, and a pause that
  is decided before a close and written after it reopens the closed pass.
\<close>

subsection \<open>Expired passes\<close>



lemma find_the_one:
  assumes "distinct (map key xs)" and "x \<in> set xs" and "p x" and "\<And>y. p y \<Longrightarrow> key y = key x"
  shows "List.find p xs = Some x"
  using assms
proof (induction xs)
  case (Cons y ys)
  show ?case
  proof (cases "y = x")
    case True
    with Cons.prems(3) show ?thesis by simp
  next
    case False
    with Cons.prems(1,2) have y: "x \<in> set ys" "key y \<noteq> key x" by auto
    then have "\<not> p y" using Cons.prems(4) by blast
    with Cons.IH [OF _ y(1) Cons.prems(3,4)] Cons.prems(1) show ?thesis by simp
  qed
qed simp





























subsection \<open>A late pause\<close>

lemma close_completed:
  assumes "completeCloseLifecycle now i owner op reason d = (Inr True, d')"
  obtains s where "s \<in> set (sessions d)" and "ses_publicId s = i" and "attempts d' = attempts d"
    and "sessions d' = update_first (\<lambda>x. ses_publicId x = i) (\<lambda>_. closed_session now reason s) (sessions d)"
proof -
  from assms have body: "complete_close_body now i owner op reason d = (Inr True, d')"
    by (simp add: completeCloseLifecycle_def transaction_eq_Inr)
  then obtain s where s: "List.find (ready_to_complete i owner op (close_state reason)) (sessions d) = Some s"
    by (auto simp: complete_close_body_def split: option.splits)
  with body obtain n where rel: "releaseFundingAllocation now i (save_session (closed_session now reason s) d) = (Inr n, d')"
    by (auto simp: complete_close_body_def Let_def chain_eq_Inr split: sum.splits if_splits)
  show thesis
    by (rule that [of s]) (use ready_found [OF s] release_frame [OF rel] in \<open>auto simp: same_ledger_def save_session_def\<close>)
qed

lemma paused_after_close:
  assumes "find_session i d0 = Some s0" and "plan_toggle s0 = Inr st"
    and "completeCloseLifecycle now i owner op reason d = (Inr True, d')"
  shows "\<exists>t. find_session i (write_toggle i st d') = Some t \<and> ses_status t = st \<and> open_status st \<and> lifecycle_idle t"
    and "find_allocation i d' = Some a \<Longrightarrow> alc_state a \<noteq> AL_active \<Longrightarrow>
      fst (spendFundingAllocation later i n (write_toggle i st d')) = Inl (PlainError ''Funding allocation is not active.'')"
proof -
  have st: "open_status st"
    using assms(2) by (auto simp: plan_toggle_def require_open_def require_idle_def require_def open_status_def split: if_splits)
  from assms(3) obtain s where s: "s \<in> set (sessions d)" "ses_publicId s = i"
      "sessions d' = update_first (\<lambda>x. ses_publicId x = i) (\<lambda>_. closed_session now reason s) (sessions d)"
    by (rule close_completed)
  then obtain y where "List.find (\<lambda>x. ses_publicId x = i) (sessions d) = Some y"
    by (cases "List.find (\<lambda>x. ses_publicId x = i) (sessions d)") (auto simp: find_None_iff)
  from find_replace [OF this, of "closed_session now reason s"] s(2,3) have closed: "find_session i d' = Some (closed_session now reason s)"
    by (simp add: find_session_def)
  have "find_session i (write_toggle i st d') = map_option (toggled_session st) (find_session i d')"
    unfolding write_toggle_def update_session_def find_session_def
    by simp (rule find_update_first_key, simp add: toggled_session_def edit_detail_def)
  with st closed show "\<exists>t. find_session i (write_toggle i st d') = Some t \<and> ses_status t = st \<and> open_status st \<and> lifecycle_idle t"
    by (simp add: toggled_session_def edit_detail_def lifecycle_idle_def closed_session_def end_lifecycle_def)
  show "fst (spendFundingAllocation later i n (write_toggle i st d')) = Inl (PlainError ''Funding allocation is not active.'')"
    if "find_allocation i d' = Some a" "alc_state a \<noteq> AL_active"
    using that by (simp add: spendFundingAllocation_def write_toggle_def update_session_def find_allocation_def)
qed

text \<open>
  Property C35: a pause written after a close reopens the pass. When the owner pauses or resumes an
  open pass and a close completes between the read and the write of that request, the closed pass is open again
  with nothing in progress and its funding stays released: a charge finalized on it from then on fails, after its
  payment has been made.
\<close>

theorem late_pause_reopens_closed_pass:
  assumes "find_session i d0 = Some s0" and "plan_toggle s0 = Inr st"
    and "completeCloseLifecycle now i owner op reason d = (Inr True, d')"
  shows "(\<exists>t. find_session i (write_toggle i st d') = Some t \<and> ses_status t = st \<and> open_status st \<and> lifecycle_idle t)
    \<and> (\<forall>a later n. find_allocation i d' = Some a \<and> alc_state a \<noteq> AL_active \<longrightarrow>
      fst (spendFundingAllocation later i n (write_toggle i st d')) = Inl (PlainError ''Funding allocation is not active.''))"
  using paused_after_close [OF assms] by blast


theorem late_pause_reopens_closed_pass_witness:
  "(\<exists>t. find_session ''pass'' (write_toggle ''pass'' S_paused sample_closed_db) = Some t \<and> ses_status t = S_paused)
   \<and> fst (spendFundingAllocation 10 ''pass'' 5 (write_toggle ''pass'' S_paused sample_closed_db))
      = Inl (PlainError ''Funding allocation is not active.'')"
proof -
  have f: "find_session ''pass'' sample_pass_db = Some sample_pass" by (simp add: find_session_def)
  have p: "plan_toggle sample_pass = Inr S_paused"
    by (simp add: plan_toggle_def require_open_def require_idle_def require_def open_status_def lifecycle_idle_def)
  have a: "find_allocation ''pass'' sample_closed_db = Some sample_closed_allocation"
      "alc_state sample_closed_allocation \<noteq> AL_active"
    by (simp_all add: find_allocation_def sample_closed_db_def sample_closed_allocation_def sample_allocation_def new_allocation_def)
  show ?thesis
    using late_pause_reopens_closed_pass [OF f p sample_complete_close] a by auto
qed

subsection \<open>A top-up of a pass that has expired\<close>

text \<open>
  Property C36: a top-up completes on a pass that expired while it was under way. The limit grows, the
  status stays expired, so neither the new funds nor the old ones can be spent or refunded.
\<close>

theorem top_up_lands_on_expired_pass:
  assumes "pass_inv d" and "find_session i d = Some s" and "ses_status s = S_expired"
    and "ready_to_complete i owner op L_top_up_pending s"
    and "completeTopUpLifecycle now i owner op d = (Inr b, d')"
  shows "\<exists>t. find_session i d' = Some t \<and> ses_status t = S_expired \<and> lifecycle_idle t
    \<and> ses_limitOf t = ses_limitOf s + lifecycle_amount s \<and> find_allocation i d' = find_allocation i d"
proof -
  have mem: "s \<in> set (sessions d)" "ses_publicId s = i" using assms(2) by (auto simp: find_session_def dest: find_SomeD)
  have c: "charge_inv d" and ok: "pass_ok (allocations d) s" using assms(1) mem(1) by (auto simp: pass_inv_def)
  have f: "List.find (ready_to_complete i owner op L_top_up_pending) (sessions d) = Some s"
    by (rule find_the_one [where key = ses_publicId])
      (use charge_inv_distinct [OF c] mem assms(4) in \<open>auto simp: ready_to_complete_def of_operation_def\<close>)
  have "sessionLimitMinor s = Inr (ses_limitOf s)" using limit_read(1) [OF _ c mem(1)] ok by (simp add: pass_ok_def)
  with assms(5) f obtain limit where d': "d' = save_session (topped_up now (ses_limitOf s + lifecycle_amount s) limit s) d"
    by (auto simp: completeTopUpLifecycle_def transaction_eq_Inr complete_top_up_body_def Let_def lifecycle_amount_def split: sum.splits)
  let ?t = "topped_up now (ses_limitOf s + lifecycle_amount s) limit s"
  have t: "ses_publicId ?t = i" "ses_status ?t = S_expired" "lifecycle_idle ?t" "ses_limitOf ?t = ses_limitOf s + lifecycle_amount s"
    using mem(2) assms(3)
    by (simp_all add: topped_up_def end_lifecycle_def edit_detail_def lifecycle_idle_def ses_limitOf_def)
  have "find_session i d' = Some ?t"
    using find_replace [OF assms(2) [unfolded find_session_def], of ?t] t(1) by (simp add: d' save_session_def find_session_def)
  with t show ?thesis by (simp add: d' find_allocation_def)
qed

definition sample_topping :: session where
  "sample_topping = edit_detail (\<lambda>x. x\<lparr>det_lifecycleProviderStatus := Some LP_succeeded\<rparr>)
     (begin_lifecycle L_top_up_pending sample_operation 40 (sample_pass\<lparr>ses_limitMinor := Some 20, ses_status := S_expired\<rparr>))"

lemma sample_topping_fields:
  "ses_publicId sample_topping = ''pass''" "ses_status sample_topping = S_expired" "ses_limitMinor sample_topping = Some 20"
  "ses_spentMinor sample_topping = Some 0" "ses_reservedMinor sample_topping = Some 0"
  "lifecycle_amount sample_topping = 40" "ses_lifecycleState sample_topping = Some L_top_up_pending"
  "ses_currency sample_topping = ''CKB''" "det_lifecycleAmountMinor (ses_detail sample_topping) = Some 40"
  "ready_to_complete ''pass'' ''w'' ''op'' L_top_up_pending sample_topping"
  by (simp_all add: sample_topping_def edit_detail_def begin_lifecycle_def lifecycle_amount_def ready_to_complete_def
      of_operation_def sample_operation_def)

lemma sample_topping_inv: "pass_inv (sample_pass_db\<lparr>sessions := [sample_topping]\<rparr>)"
  by (simp add: pass_inv_def charge_inv_def ledger_inv_def session_ok_def held_for_def pass_ok_def money_fields_def
      close_ready_def funded_by_def closing_def topping_up_def ses_limitOf_def ses_spentOf_def ses_reservedOf_def
      isSafeInteger_def MAX_SAFE_INTEGER_def sample_topping_fields)

lemma sample_topping_call:
  "\<exists>b d'. completeTopUpLifecycle 9 ''pass'' ''w'' ''op'' (sample_pass_db\<lparr>sessions := [sample_topping]\<rparr>) = (Inr b, d')"
proof -
  have ckb: "\<exists>v. fromMinorUnits (Some m) ''CKB'' = Inr v" if "0 \<le> m" "m \<le> MAX_SAFE_INTEGER" for m
    using that by (simp add: fromMinorUnits_def legacy_value getCurrencyMetadata_def CURRENCY_METADATA_def
        toUpperCase_def upper_char_def)
  obtain v where v: "fromMinorUnits (Some 60) ''CKB'' = Inr v" using ckb [of 60] by (auto simp: MAX_SAFE_INTEGER_def)
  obtain u where u: "fromMinorUnits (Some 40) ''CKB'' = Inr u" using ckb [of 40] by (auto simp: MAX_SAFE_INTEGER_def)
  have "sessionLimitMinor sample_topping = Inr 20"
    by (simp add: sessionLimitMinor_def fallbackMinorUnits_def sample_topping_fields isSafeInteger_def MAX_SAFE_INTEGER_def)
  with u v show ?thesis
    by (intro exI [of _ True]) (simp add: completeTopUpLifecycle_def transaction_def complete_top_up_body_def Let_def sample_topping_fields)
qed

theorem top_up_lands_on_expired_pass_witness:
  "\<exists>b d' t. completeTopUpLifecycle 9 ''pass'' ''w'' ''op'' (sample_pass_db\<lparr>sessions := [sample_topping]\<rparr>) = (Inr b, d')
     \<and> find_session ''pass'' d' = Some t \<and> ses_status t = S_expired \<and> ses_limitOf t = 60"
proof -
  obtain b d' where call: "completeTopUpLifecycle 9 ''pass'' ''w'' ''op'' (sample_pass_db\<lparr>sessions := [sample_topping]\<rparr>) = (Inr b, d')"
    using sample_topping_call by blast
  have f: "find_session ''pass'' (sample_pass_db\<lparr>sessions := [sample_topping]\<rparr>) = Some sample_topping"
    by (simp add: find_session_def sample_topping_fields)
  from top_up_lands_on_expired_pass [OF sample_topping_inv f sample_topping_fields(2,10) call] call show ?thesis
    by (auto simp: sample_topping_fields ses_limitOf_def)
qed

end
