(* ===== verification/Session_Charging.thy ===== *)
theory Session_Charging
  imports Session_Lifecycle
begin

section \<open>Charging a pass (chargeSession of services/session.service.ts)\<close>

text \<open>
  One charge request: the checks, the reservation, the payment through a connector and the settlement of the
  pass, composed of the operations of \<open>Charges\<close>. The connector is not under this model: its answers to the
  quote, the execution and the lookup of one request, and that of the Fiber node when a pass ends, are the
  fields of \<open>charge_answers\<close>. A request reads the clock once.
\<close>

datatype connector_status = KS_succeeded | KS_failed | KS_pending

record connector_proof =
  kp_reference :: string
  kp_network :: "string option"
  kp_transaction :: bool

record connector_result =
  kr_status :: connector_status
  kr_connectorId :: string
  kr_proof :: "connector_proof option"

record charge_quote =
  cq_quoteId :: string
  cq_expiresAt :: int
  cq_paymentRequestHash :: "string option"
  cq_providerCorrelationId :: "string option"

record charge_answers =
  an_registered :: "error + unit"
  an_executes :: bool
  an_connectorId :: string
  an_quote :: "error + charge_quote"
  an_execute :: "error + connector_result"
  an_lookup :: "error + connector_result"
  an_settle :: "error + fiber_result"
  an_dailyLimitMinor :: int
  an_attemptId :: string
  an_leaseId :: string
  an_now :: int

definition providerChargeFromConnectorResult ::
  "session_world \<Rightarrow> connector_result \<Rightarrow> execution_layer \<Rightarrow> string option \<Rightarrow> error + provider_result" where
  "providerChargeFromConnectorResult w r layer requestHash =
     (case (kr_status r, kr_proof r) of
        (KS_succeeded, Some p) \<Rightarrow>
          if kp_reference p = [] then Inl (ApiError 502 ''PAYMENT_CONNECTOR_PROOF_MISSING'')
          else Inr \<lparr>pr_provider = kr_connectorId r, pr_network = opt_or (kp_network p) (sw_network w),
                    pr_proofId = kp_reference p,
                    pr_proofType = (if kp_transaction p then ''ckb_transaction'' else ''fiber_payment''),
                    pr_executionLayer = layer, pr_paymentRequestHash = requestHash\<rparr>
      | _ \<Rightarrow> Inl (ApiError 502 ''PAYMENT_CONNECTOR_PROOF_MISSING''))"

subsection \<open>The request\<close>

definition set_member :: "string \<Rightarrow> json \<Rightarrow> members \<Rightarrow> members" where
  "set_member k v m = (if k \<in> set (map fst m) then map (\<lambda>(x, y). if x = k then (x, v) else (x, y)) m else m @ [(k, v)])"

definition set_text :: "string \<Rightarrow> string option \<Rightarrow> members \<Rightarrow> members" where
  "set_text k v m = (case v of None \<Rightarrow> m | Some t \<Rightarrow> set_member k (JStr t) m)"

record charge_context =
  cx_input :: charge_input
  cx_amountMinor :: int
  cx_key :: string
  cx_reference :: "string option"
  cx_recipient :: "string option"
  cx_scheduled :: bool
  cx_direct :: bool
  cx_localHash :: "string option"
  cx_metadata :: members
  cx_fingerprint :: string

definition flag_set :: "string \<Rightarrow> members \<Rightarrow> bool" where
  "flag_set k m \<longleftrightarrow> map_of m k = Some (JBool True)"

definition cx_layer :: "charge_context \<Rightarrow> execution_layer" where
  "cx_layer x = (if cx_direct x then X_ckb_vault else X_fiber)"

definition charge_context_of :: "(string \<Rightarrow> string) \<Rightarrow> charge_input \<Rightarrow> string \<Rightarrow> int \<Rightarrow> charge_context" where
  "charge_context_of sha i0 currency amountMinor =
     (let i = i0\<lparr>ci_metadata := sanitizeChargeMetadata i0\<rparr>; m = ci_metadata i; key = chargeIdempotencyKey i;
          reference = chargeServiceReference i; request = chargePaymentRequest i;
          recipient = metadataString m recipient_keys; target = metadataString m [''fiberKeysendTargetPubkey''];
          direct = flag_set ''directVaultPayout'' m;
          localHash = (if direct then None else safeFiberPaymentRequestHash sha request);
          base = set_text ''fiberInvoice'' request (set_text ''serviceReference'' reference (set_text ''idempotencyKey'' key m))
      in \<lparr>cx_input = i\<lparr>ci_metadata := base\<rparr>, cx_amountMinor = amountMinor, cx_key = opt_or key [],
          cx_reference = reference, cx_recipient = recipient, cx_scheduled = flag_set ''scheduledPayout'' m,
          cx_direct = direct, cx_localHash = localHash, cx_metadata = base,
          cx_fingerprint = chargeRequestFingerprint sha (ci_sessionId i) amountMinor currency (ci_appId i) reference localHash
             (if direct then X_ckb_vault else X_fiber) recipient target\<rparr>)"

definition api_error :: "int \<Rightarrow> string \<Rightarrow> error \<Rightarrow> error" where
  "api_error status failure e = (case e of ApiError s c \<Rightarrow> ApiError s c | _ \<Rightarrow> ApiError status failure)"

definition charge_preflight :: "charge_context \<Rightarrow> session \<Rightarrow> int \<Rightarrow> error + unit" where
  "charge_preflight x s now =
     (case bindE (require (cx_key x \<noteq> []) (ApiError 400 ''IDEMPOTENCY_KEY_REQUIRED'')) (\<lambda>_.
           bindE (assertChargePreflight s (cx_input x) (cx_amountMinor x) now) (\<lambda>_.
             require (\<not> (cx_direct x \<and> cx_recipient x = None)) (ApiError 400 ''RECIPIENT_ADDRESS_REQUIRED''))) of
        Inl e \<Rightarrow> Inl (api_error 500 ''CHARGE_PREFLIGHT_FAILED'' e)
      | Inr _ \<Rightarrow> Inr ())"

text \<open>A refused charge is audited.\<close>

definition deny :: "charge_context \<Rightarrow> string \<Rightarrow> error \<Rightarrow> ('a core_db_scheme, 'b) op" where
  "deny x owner e d =
     (Inl e, writeAuditLog (opt_or (ci_appOwnerWalletId (cx_input x)) owner)
        (case e of ApiError s _ \<Rightarrow> (if s < 500 then ''charge.denied'' else ''charge.failed'') | _ \<Rightarrow> ''charge.failed'')
        ''session'' (ci_sessionId (cx_input x)) d)"

definition replay_check :: "charge_context \<Rightarrow> session \<Rightarrow> charge_attempt \<Rightarrow> error + unit" where
  "replay_check x s a =
     assertIdempotentChargeReplay a (ci_sessionId (cx_input x)) (cx_amountMinor x) (ses_currency s) (cx_fingerprint x)"

subsection \<open>Settling the pass after a payment\<close>

datatype charge_ending = CE_exhausted | CE_single_use | CE_goes_on

definition charge_end :: "charge_context \<Rightarrow> session \<Rightarrow> int \<Rightarrow> int \<Rightarrow> charge_ending" where
  "charge_end x s nextSpentMinor limitMinor =
     (if nextSpentMinor \<ge> limitMinor then CE_exhausted
      else if ses_singleUse s \<and> \<not> ci_deferSingleUseSettlement (cx_input x) then CE_single_use else CE_goes_on)"

definition advances :: "charge_context \<Rightarrow> session \<Rightarrow> bool" where
  "advances x s \<longleftrightarrow> \<not> cx_scheduled x \<and> (det_paymentPurpose (ses_detail s) \<noteq> PP_recurring_release
      \<or> length (det_recipientWallets (ses_detail s)) \<le> 1)"

text \<open>The fields the request saves; the pass is found again by its identifier.\<close>

definition charged_session :: "charge_context \<Rightarrow> charge_ending \<Rightarrow> session \<Rightarrow> fiber_result \<Rightarrow> int \<Rightarrow> session \<Rightarrow> session" where
  "charged_session x ending seen r now s =
     (case ending of
        CE_exhausted \<Rightarrow> edit_detail (\<lambda>y. y\<lparr>det_fiberStatus := Some ''expired'', det_fiberProofId := Some (fr_proofId r)\<rparr>)
          (s\<lparr>ses_status := S_expired\<rparr>)
      | CE_single_use \<Rightarrow> edit_detail (\<lambda>y. y\<lparr>det_fiberStatus := Some ''settled'', det_fiberProofId := Some (fr_proofId r)\<rparr>)
          (s\<lparr>ses_status := S_settled\<rparr>)
      | CE_goes_on \<Rightarrow> edit_detail (\<lambda>y. y\<lparr>det_fiberStatus := Some ''active'',
            det_nextReleaseAt :=
              (if advances x seen
               then opt_else (advanceReleaseDate (det_nextReleaseAt (ses_detail seen)) (det_releaseCadence (ses_detail seen)) now)
                      (det_nextReleaseAt y)
               else det_nextReleaseAt y)\<rparr>) s)"

definition write_charged ::
  "string \<Rightarrow> charge_context \<Rightarrow> charge_ending \<Rightarrow> session \<Rightarrow> fiber_result \<Rightarrow> int \<Rightarrow> 'a core_db_scheme \<Rightarrow> 'a core_db_scheme" where
  "write_charged publicId x ending seen r now d =
     snd (update_session (\<lambda>s. ses_publicId s = publicId) (charged_session x ending seen r now) d)"

definition settle_after_charge ::
  "session_world \<Rightarrow> charge_answers \<Rightarrow> charge_context \<Rightarrow> string \<Rightarrow> ('a session_db_scheme, unit) op" where
  "settle_after_charge w an x attemptId d =
     chain (getSessionOrThrow (ci_sessionId (cx_input x)) None) (\<lambda>s d.
       case bindE (sessionSpentMinor s) (\<lambda>spent. bindE (sessionLimitMinor s) (\<lambda>limit. Inr (spent, limit))) of
         Inl e \<Rightarrow> (Inl e, d)
       | Inr (spent, limit) \<Rightarrow>
          let ending = charge_end x s spent limit in
          (case (if ending = CE_goes_on then Inr \<lparr>fr_provider = ''rpc'', fr_network = sw_network w, fr_proofId = []\<rparr>
                 else settleFiberSessionIfOpen w s (an_settle an)) of
             Inl e \<Rightarrow> (Inl e, d)
           | Inr r \<Rightarrow>
              chain (if ending = CE_single_use then releaseFundingAllocationTransaction (an_now an) (ses_publicId s)
                     else (\<lambda>d. (Inr 0, d))) (\<lambda>_.
              chain (reconcileWalletBalanceWithCurrentVault w (an_now an) (ses_ownerWalletId s)) (\<lambda>_ d'.
                (Inr (), writeAuditLog (ses_ownerWalletId s) ''charge.succeeded'' ''session'' (ses_publicId s) d')))
                (write_charged (ses_publicId s) x ending s r (an_now an) d))) d"

definition completeCharge ::
  "session_world \<Rightarrow> charge_answers \<Rightarrow> charge_context \<Rightarrow> string \<Rightarrow> ('a session_db_scheme, unit) op" where
  "completeCharge w an x attemptId d =
     (case finalizeChargeReservation (sw_sha w) (an_now an) attemptId d of
        (Inl e, d') \<Rightarrow> (Inl (ApiError 503 ''CHARGE_FINALIZATION_PENDING''), d')
      | (Inr _, d') \<Rightarrow> settle_after_charge w an x attemptId d')"

subsection \<open>An attempt whose outcome is not known\<close>

definition apply_lookup_result ::
  "session_world \<Rightarrow> charge_answers \<Rightarrow> charge_context \<Rightarrow> string \<Rightarrow> string option \<Rightarrow> connector_result \<Rightarrow> ('a session_db_scheme, unit) op" where
  "apply_lookup_result w an x attemptId requestHash r d =
     (case kr_status r of
        KS_succeeded \<Rightarrow>
          (case providerChargeFromConnectorResult w r X_fiber requestHash of
             Inl e \<Rightarrow> (Inl e, d)
           | Inr charge \<Rightarrow> completeCharge w an x attemptId (snd (markChargeProviderSucceeded attemptId charge (an_now an) d)))
      | KS_failed \<Rightarrow>
          chain (releaseChargeReservation (an_now an) attemptId ''FIBER_PAYMENT_FAILED'') (\<lambda>_ d'.
            (Inl (ApiError 502 ''FIBER_PAYMENT_FAILED''), d')) d
      | KS_pending \<Rightarrow> (Inl (ApiError 409 ''CHARGE_ATTEMPT_PENDING''), d))"

definition recoverProviderOutcome ::
  "session_world \<Rightarrow> charge_answers \<Rightarrow> charge_context \<Rightarrow> charge_attempt \<Rightarrow> ('a session_db_scheme, unit) op" where
  "recoverProviderOutcome w an x a d =
     (if att_providerStatus a = P_succeeded then completeCharge w an x (att_attemptId a) d
      else if att_providerStatus a \<in> {P_submitted, P_uncertain} \<and> att_executionLayer a = X_fiber then
        (case an_lookup an of
           Inl e \<Rightarrow> (Inl (ApiError 503 ''CHARGE_OUTCOME_UNCERTAIN''), d)
         | Inr r \<Rightarrow> apply_lookup_result w an x (att_attemptId a) (att_paymentRequestHash a) r d)
      else (Inl (ApiError 503 ''CHARGE_OUTCOME_UNCERTAIN''), d))"

subsection \<open>Reserving and paying\<close>

text \<open>
  The filter of the reservation: for an application its grant must still stand. The test of the expiry is
  a \<open>$and\<close>, which the reservation replaces by its own.
\<close>

definition charge_session_match :: "charge_context \<Rightarrow> session \<Rightarrow> int \<Rightarrow> session_filter" where
  "charge_session_match x seen now = any_session
     \<lparr>flt_fields := (\<lambda>s. ci_chargeOrigin (cx_input x) = Some CO_app_api_key \<longrightarrow>
        ses_appId s = ci_appId (cx_input x) \<and> ses_appGrantOwnerWalletId s = ci_appOwnerWalletId (cx_input x)
        \<and> det_appGrantCreatedAt (ses_detail s) \<noteq> None \<and> ''charges:create'' \<in> set (ses_appPermissions s)
        \<and> ses_autoMicroCharges s \<and> det_serviceAddress (ses_detail s) = det_serviceAddress (ses_detail seen)),
      flt_and := (\<lambda>s. \<not> cx_scheduled x \<longrightarrow> (case ses_expiryAt s of None \<Rightarrow> True | Some t \<Rightarrow> now < t))\<rparr>"

definition charge_reserve_input ::
  "charge_answers \<Rightarrow> charge_context \<Rightarrow> session \<Rightarrow> major \<Rightarrow> string \<Rightarrow> string option \<Rightarrow> members \<Rightarrow> reserve_input" where
  "charge_reserve_input an x s amount correlation requestHash metadata =
     (let i = cx_input x in
      \<lparr>ri_attemptId = an_attemptId an, ri_sessionId = ci_sessionId i, ri_ownerWalletId = ses_ownerWalletId s,
       ri_appId = ci_appId i, ri_apiKeyId = ci_apiKeyId i, ri_idempotencyKey = cx_key x,
       ri_requestFingerprint = cx_fingerprint x, ri_serviceReference = cx_reference x, ri_amount = amount,
       ri_amountMinor = cx_amountMinor x, ri_currency = ses_currency s, ri_type = ci_type i,
       ri_executionLayer = cx_layer x, ri_paymentRequestHash = requestHash, ri_providerCorrelationId = Some correlation,
       ri_metadata = metadata, ri_dailyLimitMinor = an_dailyLimitMinor an, ri_executionLeaseId = an_leaseId an,
       ri_sessionMatch = charge_session_match x s (an_now an)\<rparr>)"

text \<open>The error a rejected reservation becomes.\<close>

definition session_rejected :: "charge_context \<Rightarrow> int \<Rightarrow> session \<Rightarrow> error" where
  "session_rejected x now latest =
     (if (case ses_expiryAt latest of None \<Rightarrow> False | Some t \<Rightarrow> t \<le> now) \<and> \<not> cx_scheduled x
      then ApiError 410 ''SESSION_EXPIRED''
      else (case assertChargePreflight latest (cx_input x) (cx_amountMinor x) now of
         Inl e \<Rightarrow> api_error 409 ''CHARGE_RESERVATION_REJECTED'' e
       | Inr _ \<Rightarrow> ApiError 402 ''SESSION_LIMIT_EXCEEDED''))"

definition refuse_reservation :: "charge_context \<Rightarrow> string \<Rightarrow> int \<Rightarrow> error \<Rightarrow> ('a core_db_scheme, 'b) op" where
  "refuse_reservation x owner now e d =
     (case e of
        ReservationError c \<Rightarrow>
          if c = ''DAILY_RESERVATION_REJECTED'' then deny x owner (ApiError 429 ''DAILY_SESSION_LIMIT_EXCEEDED'') d
          else (case getSessionOrThrow (ci_sessionId (cx_input x)) None d of
            (Inl e', d') \<Rightarrow> (Inl e', d')
          | (Inr latest, d') \<Rightarrow> deny x owner (session_rejected x now latest) d')
      | _ \<Rightarrow> deny x owner (ApiError 503 ''CHARGE_RESERVATION_FAILED'') d)"

definition correlation_of :: "charge_answers \<Rightarrow> charge_context \<Rightarrow> charge_quote \<Rightarrow> string \<Rightarrow> string" where
  "correlation_of an x q attemptId = opt_or (cq_providerCorrelationId q) (layer_text (cx_layer x) @ '':'' @ attemptId)"

definition attempt_metadata :: "charge_answers \<Rightarrow> charge_context \<Rightarrow> charge_quote \<Rightarrow> string \<Rightarrow> members" where
  "attempt_metadata an x q attemptId =
     set_member ''paymentRail'' (JStr (if cx_direct x then ''ckb_onchain'' else ''fiber''))
       (set_member ''connectorQuoteId'' (JStr (cq_quoteId q))
       (set_member ''connectorId'' (JStr (an_connectorId an))
       (set_member ''providerCorrelationId'' (JStr (correlation_of an x q attemptId))
       (set_member ''chargeAttemptId'' (JStr attemptId) (cx_metadata x)))))"

definition is_payment_hash :: "string \<Rightarrow> bool" where
  "is_payment_hash s \<longleftrightarrow> take 2 s = ''0x'' \<and> is_hex64 (toLowerCase (drop 2 s))"

text \<open>The payment itself, with the lookup that follows a failed call.\<close>

definition execute_charge ::
  "session_world \<Rightarrow> charge_answers \<Rightarrow> charge_context \<Rightarrow> session \<Rightarrow> string \<Rightarrow> string \<Rightarrow> string option \<Rightarrow> ('a session_db_scheme, unit) op" where
  "execute_charge w an x s attemptId correlation requestHash d =
     (case bindE (an_execute an) (\<lambda>r. providerChargeFromConnectorResult w r (cx_layer x) requestHash) of
        Inr charge \<Rightarrow>
          (case markChargeProviderSucceeded attemptId charge (an_now an) d of
             (None, d') \<Rightarrow> deny x (ses_ownerWalletId s) (ApiError 503 ''CHARGE_OUTCOME_UNCERTAIN'') d'
           | (Some _, d') \<Rightarrow> completeCharge w an x attemptId d')
      | Inl _ \<Rightarrow>
          (case (if \<not> cx_direct x \<and> is_payment_hash correlation then (case an_lookup an of Inl _ \<Rightarrow> None | Inr r \<Rightarrow> Some r) else None) of
             Some r \<Rightarrow>
               if kr_status r = KS_pending
               then deny x (ses_ownerWalletId s) (ApiError 503 ''CHARGE_OUTCOME_UNCERTAIN'')
                      (markChargeOutcomeUncertain attemptId ''CHARGE_OUTCOME_UNCERTAIN'' d)
               else apply_lookup_result w an x attemptId requestHash r d
           | None \<Rightarrow> deny x (ses_ownerWalletId s) (ApiError 503 ''CHARGE_OUTCOME_UNCERTAIN'')
                 (markChargeOutcomeUncertain attemptId ''CHARGE_OUTCOME_UNCERTAIN'' d)))"

definition submit_charge ::
  "session_world \<Rightarrow> charge_answers \<Rightarrow> charge_context \<Rightarrow> session \<Rightarrow> charge_quote \<Rightarrow> string \<Rightarrow> ('a session_db_scheme, unit) op" where
  "submit_charge w an x s q attemptId d =
     (let correlation = correlation_of an x q attemptId; requestHash = opt_else (cq_paymentRequestHash q) (cx_localHash x);
          lease = an_leaseId an in
      if cq_expiresAt q \<le> an_now an then
        chain (releaseChargeReservation (an_now an) attemptId ''PAYMENT_QUOTE_EXPIRED'') (\<lambda>_ d'.
          (Inl (ApiError 410 ''PAYMENT_QUOTE_EXPIRED''), d')) d
      else (case setChargeProviderCorrelation attemptId lease correlation requestHash d of
         (None, d1) \<Rightarrow> (Inl (ApiError 409 ''CHARGE_ATTEMPT_PENDING''), d1)
       | (Some _, d1) \<Rightarrow>
          (case markChargeProviderSubmitted attemptId lease (an_now an) d1 of
             (None, d2) \<Rightarrow> (Inl (ApiError 409 ''CHARGE_ATTEMPT_PENDING''), d2)
           | (Some _, d2) \<Rightarrow> execute_charge w an x s attemptId correlation requestHash d2)))"

definition run_attempt ::
  "session_world \<Rightarrow> charge_answers \<Rightarrow> charge_context \<Rightarrow> session \<Rightarrow> charge_quote \<Rightarrow> bool \<Rightarrow> bool \<Rightarrow> charge_attempt
    \<Rightarrow> ('a session_db_scheme, unit) op" where
  "run_attempt w an x s q existed owns a d =
     (if att_status a = A_succeeded then (Inr (), d)
      else if att_status a = A_failed then (Inl (ApiError 409 ''CHARGE_ATTEMPT_FAILED''), d)
      else if att_providerStatus a \<noteq> P_not_started then recoverProviderOutcome w an x a d
      else if existed then
        (case claimChargeExecution (att_attemptId a) (an_leaseId an) (an_now an) d of
           (None, d1) \<Rightarrow> (Inl (ApiError 409 ''CHARGE_ATTEMPT_PENDING''), d1)
         | (Some _, d1) \<Rightarrow> submit_charge w an x s q (att_attemptId a) d1)
      else if \<not> owns then (Inl (ApiError 409 ''CHARGE_ATTEMPT_PENDING''), d)
      else submit_charge w an x s q (att_attemptId a) d)"

definition reserve_charge ::
  "session_world \<Rightarrow> charge_answers \<Rightarrow> charge_context \<Rightarrow> session \<Rightarrow> charge_quote \<Rightarrow> ('a session_db_scheme, unit) op" where
  "reserve_charge w an x s q d =
     (let owner = ses_ownerWalletId s; correlation = correlation_of an x q (an_attemptId an);
          requestHash = opt_else (cq_paymentRequestHash q) (cx_localHash x) in
      case fromMinorUnits (Some (cx_amountMinor x)) (ses_currency s) of
        Inl e \<Rightarrow> refuse_reservation x owner (an_now an) e d
      | Inr amount \<Rightarrow>
         (case reserveChargeAttempt (an_now an)
                 (charge_reserve_input an x s amount correlation requestHash (attempt_metadata an x q (an_attemptId an))) d of
            (Inl e, d1) \<Rightarrow> refuse_reservation x owner (an_now an) e d1
          | (Inr (a, created), d1) \<Rightarrow>
             (case (if created then Inr () else replay_check x s a) of
                Inl e \<Rightarrow> deny x owner (ApiError 503 ''CHARGE_RESERVATION_FAILED'') d1
              | Inr _ \<Rightarrow> run_attempt w an x s q False created a d1)))"

definition quote_charge ::
  "session_world \<Rightarrow> charge_answers \<Rightarrow> charge_context \<Rightarrow> session \<Rightarrow> charge_attempt option \<Rightarrow> ('a session_db_scheme, unit) op" where
  "quote_charge w an x s existing d =
     (case existing of
        Some a \<Rightarrow>
          if att_providerStatus a \<noteq> P_not_started then recoverProviderOutcome w an x a d
          else (case an_quote an of
             Inl e \<Rightarrow>
               let e' = api_error 502 ''PAYMENT_CONNECTOR_QUOTE_FAILED'' e in
               chain (releaseChargeReservation (an_now an) (att_attemptId a) (failureFromError e'))
                 (\<lambda>_. deny x (ses_ownerWalletId s) e') d
           | Inr q \<Rightarrow> run_attempt w an x s q True False a d)
      | None \<Rightarrow>
          (case an_quote an of
             Inl e \<Rightarrow> deny x (ses_ownerWalletId s) (api_error 502 ''PAYMENT_CONNECTOR_QUOTE_FAILED'' e) d
           | Inr q \<Rightarrow> reserve_charge w an x s q d))"

text \<open>The connector and the funding source have to be able to pay.\<close>

definition check_funding ::
  "session_world \<Rightarrow> charge_answers \<Rightarrow> charge_context \<Rightarrow> session \<Rightarrow> charge_attempt option \<Rightarrow> ('a session_db_scheme, unit) op" where
  "check_funding w an x s existing d =
     (case bindE (assetIdForLegacyCurrency (ses_currency s)) (\<lambda>_. an_registered an) of
        Inl e \<Rightarrow> (Inl e, d)
      | Inr _ \<Rightarrow>
         (case fundingExecutionStatus (an_now an) (ci_sessionId (cx_input x)) (cx_amountMinor x) d of
            Some failure \<Rightarrow> deny x (ses_ownerWalletId s) (ApiError 402 failure) d
          | None \<Rightarrow>
             if ses_fundingMode s \<noteq> None \<and> \<not> an_executes an
             then deny x (ses_ownerWalletId s)
               (ApiError 409 (if ses_fundingMode s = Some M_connected_wallet then ''CONNECTED_WALLET_EXECUTION_UNAVAILABLE''
                  else ''FUNDING_MODE_EXECUTION_UNAVAILABLE'')) d
             else quote_charge w an x s existing d))"

definition replay_charge ::
  "session_world \<Rightarrow> charge_answers \<Rightarrow> charge_context \<Rightarrow> session \<Rightarrow> ('a session_db_scheme, unit) op" where
  "replay_charge w an x s d =
     (case existingAttempt (ci_sessionId (cx_input x)) (cx_key x) d of
        None \<Rightarrow> check_funding w an x s None d
      | Some a \<Rightarrow>
         (case replay_check x s a of
            Inl e \<Rightarrow> (Inl e, d)
          | Inr _ \<Rightarrow>
             if att_status a = A_succeeded then (Inr (), d)
             else if att_status a = A_failed then (Inl (ApiError 409 ''CHARGE_ATTEMPT_FAILED''), d)
             else check_funding w an x s (Some a) d))"

definition run_charge ::
  "session_world \<Rightarrow> charge_answers \<Rightarrow> charge_input \<Rightarrow> ('a session_db_scheme, unit) op" where
  "run_charge w an i =
     chain (getSessionOrThrow (ci_sessionId i) None) (\<lambda>s d.
       case bindE (toMinorUnits (number_text (ci_amount i)) (ses_currency s)) (\<lambda>n.
            bindE (require (\<not> n \<le> 0) (ApiError 400 ''INVALID_CHARGE_AMOUNT'')) (\<lambda>_. Inr n)) of
         Inl e \<Rightarrow> (Inl e, d)
       | Inr amountMinor \<Rightarrow>
          let x = charge_context_of (sw_sha w) i (ses_currency s) amountMinor; owner = ses_ownerWalletId s in
          (case charge_preflight x s (an_now an) of
             Inl e \<Rightarrow> deny x owner e d
           | Inr _ \<Rightarrow>
              (case expire_at_charge (an_now an) (cx_scheduled x) s d of
                 (Inl e, d') \<Rightarrow> deny x owner e d'
               | (Inr _, d') \<Rightarrow> replay_charge w an x s d')))"

definition chargeSession ::
  "session_world \<Rightarrow> charge_answers \<Rightarrow> charge_input \<Rightarrow> ('a session_db_scheme, wallet_doc) op" where
  "chargeSession w an i d =
     chain (run_charge w an i) (\<lambda>_ d'.
       case find_session (ci_sessionId i) d' of
         None \<Rightarrow> (Inl (ApiError 404 ''SESSION_NOT_FOUND''), d')
       | Some s \<Rightarrow> getWalletDocument w (an_now an) (ses_ownerWalletId s) d') d"

end
