(* ===== verification/Session_Requests.thy ===== *)
theory Session_Requests
  imports Session_Expiry Session_Charging
begin

section \<open>Whole requests keep every pass funded\<close>

text \<open>
  The invariant of \<open>Session_Safety\<close> for the functions the routes call, through a small calculus: \<open>keeps I op\<close>
  says that an operation leads from states with \<open>I\<close> to states with \<open>I\<close>, whether it returns or throws.
\<close>

definition keeps :: "('s \<Rightarrow> bool) \<Rightarrow> ('s, 'a) op \<Rightarrow> bool" where
  "keeps I m \<longleftrightarrow> (\<forall>s. I s \<longrightarrow> I (snd (m s)))"

lemma keeps_chain: "keeps I m \<Longrightarrow> (\<And>v. keeps I (k v)) \<Longrightarrow> keeps I (chain m k)"
proof -
  assume m: "keeps I m" and k: "\<And>v. keeps I (k v)"
  have "I (snd (chain m k s))" if "I s" for s
  proof (cases "m s")
    case (Pair r s')
    then have "I s'" using m that by (metis keeps_def snd_conv)
    with k Pair show ?thesis by (cases r) (simp_all add: chain_def keeps_def)
  qed
  then show "keeps I (chain m k)" by (simp add: keeps_def)
qed

lemma keeps_stop: "keeps I (\<lambda>s. (r, s))"
  by (simp add: keeps_def)

lemma keepsD: "keeps I m \<Longrightarrow> I s \<Longrightarrow> m s = (r, s') \<Longrightarrow> I s'"
  by (metis keeps_def snd_conv)

lemma keepsI:
  assumes "\<And>s r s'. I s \<Longrightarrow> m s = (r, s') \<Longrightarrow> I s'"
  shows "keeps I m"
  unfolding keeps_def using assms surjective_pairing by blast

lemma keeps_snd: "keeps I m \<Longrightarrow> I s \<Longrightarrow> I (snd (m s))"
  by (simp add: keeps_def)

subsection \<open>The operations on passes\<close>

abbreviation kept :: "('a session_db_scheme, 'b) op \<Rightarrow> bool" where
  "kept m \<equiv> keeps pass_inv m"

lemma pass_audit_inv [simp]: "pass_inv d \<Longrightarrow> pass_inv (writeAuditLog a b c e d)"
  by (simp add: pass_inv_def charge_inv_def)

lemma keeps_reconcile: "kept (reconcileWalletBalanceWithCurrentVault w now walletId)"
  by (rule keepsI) (rule only_wallets_inv, erule reconcile_only)

lemma keeps_wallet: "kept (getWalletDocument w now walletId)"
  by (rule keepsI) (rule only_wallets_inv, erule getWalletDocument_only)

lemma keeps_session: "kept (getSessionOrThrow i walletId)"
  by (rule keepsI) (auto simp: getSessionOrThrow_def split: option.splits)

lemma keeps_step:
  assumes "\<And>d r d'. m d = (r, d') \<Longrightarrow> pass_step True sha d d'"
  shows "kept m"
  by (rule keepsI) (rule pass_step_inv, erule assms)

lemma keeps_charge:
  assumes "\<And>d r d'. m d = (r, d') \<Longrightarrow> charge_step sha d d'"
  shows "kept m"
  by (rule keepsI) (rule charge_pass_inv, erule assms)

lemma keeps_release_charge: "kept (releaseChargeReservation now i failure)"
  by (rule keeps_charge) (rule charge_step.release)

lemma keeps_finalize: "kept (finalizeChargeReservation sha now i)"
  by (rule keeps_charge) (rule charge_step.finalize)

lemma keeps_reserve: "kept (reserveChargeAttempt now i)"
  by (rule keeps_charge) (rule charge_step.reserve)

lemma charge_updates_inv:
  assumes "pass_inv d"
  shows "pass_inv (snd (claimChargeExecution i l now d))" "pass_inv (snd (markChargeProviderSubmitted i l now d))"
    "pass_inv (snd (setChargeProviderCorrelation i l e h d))" "pass_inv (snd (markChargeProviderSucceeded i answer now d))"
    "pass_inv (markChargeOutcomeUncertain i failure d)"
  using charge_pass_inv [OF charge_step.claim [OF surjective_pairing] assms]
    charge_pass_inv [OF charge_step.submit [OF surjective_pairing] assms]
    charge_pass_inv [OF charge_step.correlate [OF surjective_pairing] assms]
    charge_pass_inv [OF charge_step.succeed [OF surjective_pairing] assms]
    charge_pass_inv [OF charge_step.uncertain [OF refl] assms]
  by blast+

lemma keeps_release_funding: "kept (releaseFundingAllocationTransaction now j)"
proof (rule keepsI)
  fix d :: "'a session_db_scheme" and r d' assume inv: "pass_inv d" and r: "releaseFundingAllocationTransaction now j d = (r, d')"
  from r [unfolded releaseFundingAllocationTransaction_def] show "pass_inv d'"
  proof (cases rule: transaction_cases)
    case (committed n)
    have dis: "distinct (map alc_sessionId (allocations d))" using inv by (simp add: pass_inv_def)
    have same: "sessions d' = sessions d" "charge_inv d'"
      using release_frame [OF committed(2)] inv by (auto simp: same_ledger_def pass_inv_def charge_inv_def)
    have "pass_ok (allocations d') s" if "s \<in> set (sessions d)" for s
    proof -
      have "funded_by s a" if a: "a \<in> set (allocations d')" for a
      proof (cases "alc_sessionId a = j")
        case True
        with release_replaces(2) [OF committed(2) dis a] inv \<open>s \<in> set (sessions d)\<close> show ?thesis
          by (auto simp: pass_inv_def pass_ok_def funded_by_def)
      next
        case False
        from release_replaces(1) [OF committed(2)] have "a \<in> set (allocations d)"
          using False a replaced_allocation [OF dis] by (fastforce simp: allocation_replaced_def)
        with inv \<open>s \<in> set (sessions d)\<close> show ?thesis by (auto simp: pass_inv_def pass_ok_def)
      qed
      with inv that show ?thesis by (auto simp: pass_inv_def pass_ok_def)
    qed
    moreover have "distinct (map alc_sessionId (allocations d'))"
      using release_replaces(1) [OF committed(2)] dis by (auto simp: allocation_replaced_def) (subst map_update_first, auto)
    ultimately show ?thesis using same by (simp add: pass_inv_def)
  qed (use inv in simp)
qed

lemma write_charged_inv: "pass_inv d \<Longrightarrow> pass_inv (write_charged i x ending seen r now d)"
  unfolding write_charged_def
  by (rule pass_inv_same_money) (simp_all add: charged_session_def same_money_def edit_detail_def split: charge_ending.splits)

subsection \<open>Top-ups, closes, pauses and grants\<close>

text \<open>The shapes of the code: a branch, a result, a statement that returns what it matched.\<close>

lemma keeps_if: "(b \<Longrightarrow> keeps I f) \<Longrightarrow> (\<not> b \<Longrightarrow> keeps I g) \<Longrightarrow> keeps I (\<lambda>s. if b then f s else g s)"
  by (cases b) simp_all

lemma keeps_sum: "(\<And>e. x = Inl e \<Longrightarrow> keeps I (f e)) \<Longrightarrow> (\<And>v. x = Inr v \<Longrightarrow> keeps I (g v)) \<Longrightarrow>
    keeps I (\<lambda>s. case x of Inl e \<Rightarrow> f e s | Inr v \<Rightarrow> g v s)"
  by (cases x) simp_all

lemma keeps_option: "keeps I f \<Longrightarrow> (\<And>v. x = Some v \<Longrightarrow> keeps I (g v)) \<Longrightarrow>
    keeps I (\<lambda>s. case x of None \<Rightarrow> f s | Some v \<Rightarrow> g v s)"
  by (cases x) simp_all

lemma keeps_pair: "(\<And>a b. x = (a, b) \<Longrightarrow> keeps I (f a b)) \<Longrightarrow> keeps I (\<lambda>s. case x of (a, b) \<Rightarrow> f a b s)"
  by (cases x) simp

lemma keeps_result: "(\<And>s. I s \<Longrightarrow> I (h s)) \<Longrightarrow> keeps I (\<lambda>s. (r, h s))"
  by (simp add: keeps_def)

lemma keeps_after: "(\<And>s. I s \<Longrightarrow> I (h s)) \<Longrightarrow> keeps I m \<Longrightarrow> keeps I (\<lambda>s. m (h s))"
  by (simp add: keeps_def)

lemma keeps_let: "(\<And>s. I s \<Longrightarrow> I (h s)) \<Longrightarrow> keeps I m \<Longrightarrow> keeps I (\<lambda>s. Let (h s) m)"
  by (simp add: keeps_def)

lemma keeps_matched: "(\<And>s. I s \<Longrightarrow> I (snd (h s))) \<Longrightarrow> (\<And>x. keeps I (k x)) \<Longrightarrow> keeps I (\<lambda>s. case h s of (x, s') \<Rightarrow> k x s')"
  by (simp add: keeps_def split_def)

lemma keeps_read: "(\<And>x. keeps I (k x)) \<Longrightarrow> keeps I (\<lambda>s. k (f s) s)"
  by (simp add: keeps_def)

lemmas keeps_shapes = keeps_stop keeps_if keeps_sum keeps_option keeps_pair keeps_let keeps_matched keeps_chain

lemma keeps_audited [intro]: "kept (\<lambda>d. (r, writeAuditLog a b c e d))"
  by (simp add: keeps_result)

lemma keeps_complete_top_up: "kept (completeTopUpLifecycle now i walletId k)"
  by (rule keeps_step) (rule pass_step.complete_top_up)

lemma keeps_complete_close: "kept (completeCloseLifecycle now i walletId k reason)"
  by (rule keeps_step) (rule pass_step.complete_close)

lemma keeps_claim_top_up: "0 < n \<Longrightarrow> kept (claim_top_up lo i walletId n)"
  by (rule keeps_step) (rule pass_step.claim_top_up)

lemma keeps_claim_close: "kept (claim_close lo i walletId reason)"
  by (rule keeps_step) (rule pass_step.claim_close)

lemma keeps_run_top_up: "0 < n \<Longrightarrow> kept (run_top_up w lo i walletId n answer)"
  unfolding run_top_up_def
  by (intro keeps_shapes keeps_claim_top_up keeps_complete_top_up keeps_audited keeps_result plain_writes_inv)

lemma keeps_run_close: "kept (run_close w lo i walletId reason answer)"
  unfolding run_close_def
  by (intro keeps_shapes keeps_claim_close keeps_complete_close keeps_audited keeps_result plain_writes_inv)

lemma keeps_topUpSession: "kept (topUpSession w lo i walletId amount answer)"
proof -
  have retry: "kept (chain (case q of
                   Replayed \<Rightarrow> (\<lambda>d. (Inr (), d))
                 | Resume i' \<Rightarrow> chain (completeTopUpLifecycle (lo_at lo) i walletId i') (\<lambda>_ d. (Inr (), d))
                 | Proceed \<Rightarrow> chain (reconcileWalletBalanceWithCurrentVault w (lo_at lo) walletId) (\<lambda>_.
                     run_top_up w lo i walletId n answer))
            (\<lambda>_. getWalletDocument w (lo_at lo) walletId))" if "0 < n" for q n
    by (rule keeps_chain [OF _ keeps_wallet], cases q)
      (simp_all add: keeps_stop keeps_chain [OF keeps_complete_top_up] keeps_chain [OF keeps_reconcile] keeps_run_top_up [OF that])
  show ?thesis
    unfolding topUpSession_def
    by (intro keeps_shapes keeps_session retry) (auto simp: require_def split: if_splits)
qed

lemma keeps_closeSession: "kept (closeSession w lo i walletId reason answer)"
proof -
  have retry: "kept (chain (case q of
                   Replayed \<Rightarrow> (\<lambda>d. (Inr (), d))
                 | Resume i' \<Rightarrow> chain (completeCloseLifecycle (lo_at lo) i walletId i' reason) (\<lambda>_ d. (Inr (), d))
                 | Proceed \<Rightarrow> run_close w lo i walletId reason answer)
            (\<lambda>_. getWalletDocument w (lo_at lo) walletId))" for q
    by (rule keeps_chain [OF _ keeps_wallet], cases q)
      (simp_all add: keeps_stop keeps_chain [OF keeps_complete_close] keeps_run_close)
  show ?thesis
    unfolding closeSession_def by (intro keeps_shapes keeps_session retry)
qed

lemma keeps_togglePauseSession: "kept (togglePauseSession w now i walletId)"
  unfolding togglePauseSession_def
  by (intro keeps_shapes keeps_session keeps_after [OF _ keeps_wallet]) (simp_all add: plain_writes_inv)

lemma keeps_grant: "kept (grantAppAccessToSession w now i walletId appId permissions)"
proof -
  have "kept (\<lambda>d. case own_active_app appId walletId d of
         None \<Rightarrow> (Inl (ApiError 403 ''APP_GRANT_NOT_ALLOWED''), d)
       | Some a \<Rightarrow>
          (case require_open s of
             Inl e \<Rightarrow> (Inl e, d)
           | Inr _ \<Rightarrow>
              getWalletDocument w now walletId
                (writeAuditLog walletId ''session.app_grant.created'' ''session'' i
                  (write_grant i a walletId now (normalizeSessionAppPermissions permissions True) d))))" for s
    by (rule keeps_read [where f = "own_active_app appId walletId"], intro keeps_shapes keeps_after [OF _ keeps_wallet])
      (simp add: plain_writes_inv)
  then show ?thesis unfolding grantAppAccessToSession_def by (rule keeps_chain [OF keeps_session])
qed

lemma keeps_expire_all: "kept (expire_all w now ss)"
proof (induction ss)
  case Nil
  have "expire_all w now [] = (\<lambda>d. (Inr 0, d))" by (rule ext) simp
  then show ?case by (simp add: keeps_stop)
next
  case (Cons s ss)
  have one: "kept (expire_one w now s)"
    unfolding expire_one_def
    by (intro keeps_shapes keeps_after [where h = "write_expired (ses_publicId s)"] keeps_reconcile keeps_audited plain_writes_inv)
  have "expire_all w now (s # ss) = chain (expire_one w now s) (\<lambda>_. chain (expire_all w now ss) (\<lambda>n d'. (Inr (n + 1), d')))"
    by (rule ext) simp
  then show ?case by (simp add: keeps_chain [OF one] keeps_chain [OF Cons.IH] keeps_stop)
qed

lemma keeps_expireDueSessions: "kept (expireDueSessions w now limit)"
  unfolding expireDueSessions_def by (rule keeps_read) (rule keeps_expire_all)

end
