(* ===== verification/Session_Runs.thy ===== *)
theory Session_Runs
  imports Session_Requests
begin

section \<open>Every request of the session service keeps passes funded\<close>

text \<open>
  Charging and creating a pass in the calculus of \<open>Session_Requests\<close>, and sequences of whole requests, each
  of which may fail at any of its points.
\<close>

subsection \<open>Charges\<close>

lemma keeps_match: "keeps I m \<Longrightarrow> (\<And>x. keeps I (k x)) \<Longrightarrow> keeps I (\<lambda>s. case m s of (x, s') \<Rightarrow> k x s')"
  by (simp add: keeps_def split_def)

lemma keeps_deny: "kept (deny x owner e)"
  unfolding deny_def by (rule keeps_audited)

lemma keeps_denied_after: "(\<And>d. pass_inv d \<Longrightarrow> pass_inv (h d)) \<Longrightarrow> kept (\<lambda>d. deny x owner e (h d))"
  by (rule keeps_after [OF _ keeps_deny])

lemma keeps_settle_after_charge: "kept (settle_after_charge w an x k)"
proof -
  have "kept (\<lambda>d. chain (if ending = CE_single_use then releaseFundingAllocationTransaction (an_now an) (ses_publicId s) else (\<lambda>d. (Inr 0, d))) (\<lambda>_.
              chain (reconcileWalletBalanceWithCurrentVault w (an_now an) (ses_ownerWalletId s)) (\<lambda>_ d'.
                (Inr (), writeAuditLog (ses_ownerWalletId s) ''charge.succeeded'' ''session'' (ses_publicId s) d')))
                (write_charged (ses_publicId s) x ending s r (an_now an) d))" for ending s r
    by (rule keeps_after [where h = "write_charged (ses_publicId s) x ending s r (an_now an)"], erule write_charged_inv)
      (intro keeps_chain keeps_reconcile keeps_audited, simp add: keeps_release_funding keeps_stop)
  then show ?thesis
    unfolding settle_after_charge_def Let_def by (intro keeps_chain keeps_session keeps_sum keeps_stop keeps_pair)
qed

lemma keeps_completeCharge: "kept (completeCharge w an x k)"
  unfolding completeCharge_def
  by (intro keeps_match keeps_finalize keeps_sum keeps_stop keeps_settle_after_charge)

lemma keeps_apply_lookup_result: "kept (apply_lookup_result w an x k h r)"
  unfolding apply_lookup_result_def
  apply (cases "kr_status r")
  subgoal
    by simp (intro keeps_sum keeps_stop charge_updates_inv
      keeps_after [where h = "\<lambda>d. snd (markChargeProviderSucceeded k _ _ d)", OF _ keeps_completeCharge])
  by (simp_all add: keeps_chain keeps_release_charge keeps_stop)

lemma keeps_recoverProviderOutcome: "kept (recoverProviderOutcome w an x a)"
  unfolding recoverProviderOutcome_def
  by (intro keeps_if keeps_sum keeps_stop keeps_completeCharge keeps_apply_lookup_result)

lemma keeps_execute_charge: "kept (execute_charge w an x s k c h)"
  unfolding execute_charge_def
  by (intro keeps_sum keeps_option keeps_if keeps_denied_after charge_updates_inv keeps_apply_lookup_result
      keeps_matched keeps_completeCharge keeps_deny)

lemma keeps_submit_charge: "kept (submit_charge w an x s q k)"
  unfolding submit_charge_def Let_def
  by (intro keeps_if keeps_chain keeps_release_charge keeps_stop keeps_matched charge_updates_inv keeps_option keeps_execute_charge)

lemma keeps_run_attempt: "kept (run_attempt w an x s q existed owns a)"
  unfolding run_attempt_def
  by (intro keeps_if keeps_stop keeps_recoverProviderOutcome keeps_matched charge_updates_inv keeps_option keeps_submit_charge)

lemma keeps_refuse_reservation: "kept (refuse_reservation x owner now e)"
  unfolding refuse_reservation_def
  by (cases e; simp) (intro keeps_deny keeps_if keeps_match keeps_session keeps_sum keeps_stop)+

lemma keeps_reserve_charge: "kept (reserve_charge w an x s q)"
  unfolding reserve_charge_def Let_def
  by (intro keeps_sum keeps_refuse_reservation keeps_match keeps_reserve keeps_pair keeps_deny keeps_run_attempt)

lemma keeps_quote_charge: "kept (quote_charge w an x s existing)"
  unfolding quote_charge_def Let_def
  by (cases existing; simp)
    (intro keeps_if keeps_sum keeps_recoverProviderOutcome keeps_chain keeps_release_charge keeps_deny keeps_run_attempt keeps_reserve_charge)+

lemma keeps_check_funding: "kept (check_funding w an x s existing)"
proof -
  have "kept (\<lambda>d. case fundingExecutionStatus (an_now an) (ci_sessionId (cx_input x)) (cx_amountMinor x) d of
            Some failure \<Rightarrow> deny x (ses_ownerWalletId s) (ApiError 402 failure) d
          | None \<Rightarrow>
             if ses_fundingMode s \<noteq> None \<and> \<not> an_executes an
             then deny x (ses_ownerWalletId s)
               (ApiError 409 (if ses_fundingMode s = Some M_connected_wallet then ''CONNECTED_WALLET_EXECUTION_UNAVAILABLE''
                  else ''FUNDING_MODE_EXECUTION_UNAVAILABLE'')) d
             else quote_charge w an x s existing d)"
    by (rule keeps_read [where f = "fundingExecutionStatus _ _ _"], intro keeps_option keeps_if keeps_deny keeps_quote_charge)
  then show ?thesis unfolding check_funding_def by (intro keeps_sum keeps_stop)
qed

lemma keeps_replay_charge: "kept (replay_charge w an x s)"
  unfolding replay_charge_def
  by (rule keeps_read [where f = "existingAttempt _ _"], intro keeps_option keeps_sum keeps_if keeps_stop keeps_check_funding)

lemma keeps_expire_at_charge: "kept (expire_at_charge now scheduled s)"
  unfolding expire_at_charge_def
  by (intro keeps_if keeps_stop keeps_result plain_writes_inv)

lemma keeps_chargeSession: "kept (chargeSession w an i)"
proof -
  have run: "kept (run_charge w an i)"
    unfolding run_charge_def Let_def
    by (intro keeps_chain keeps_session keeps_sum keeps_stop keeps_deny keeps_replay_charge
        keeps_match keeps_expire_at_charge)
  have "kept (\<lambda>d'. case find_session (ci_sessionId i) d' of
         None \<Rightarrow> (Inl (ApiError 404 ''SESSION_NOT_FOUND''), d')
       | Some s \<Rightarrow> getWalletDocument w (an_now an) (ses_ownerWalletId s) d')"
    by (rule keeps_read [where f = "find_session _"], intro keeps_option keeps_stop keeps_wallet)
  then show ?thesis unfolding chargeSession_def by (rule keeps_chain [OF run])
qed

subsection \<open>Creation\<close>

text \<open>The least limit of a pass is positive.\<close>

lemma least_limit: "policy_minor POLICY_MIN_LIMIT = Inr 1000000"
proof -
  have digits: "digit_char 0 = CHR ''0''" "digit_char (Suc 0) = CHR ''1''" by code_simp+
  have "dec_of_nat 1000000000 = ''1000000000''"
    unfolding dec_of_nat_code by (simp add: int_digits.simps digits)
  then have label: "number_text POLICY_MIN_LIMIT = ''0.01''"
    by (simp add: number_text_def POLICY_MIN_LIMIT_def Let_def padStart_def MAJOR_DECIMALS_def dropTrailingZeros_def)
  have groups: "decimal_groups (trim ''0.01'') = Some (''0'', ''01'')" by code_simp
  have pieces: "nat_of_dec ''0'' = 0" "nat_of_dec ''01'' = 1" by code_simp+
  have zeros: "nat_of_dec (CHR ''0'' # CHR ''1'' # replicate 6 (CHR ''0'')) = 1000000"
    using nat_of_dec_zeros [of 6 "[]"] nat_of_dec_append [of "''01''" "replicate 6 (CHR ''0'')"] pieces by simp
  have atomic: "majorToAtomicAmount ''0.01'' ''CKB'' = atomicAmountFromBigInt 1000000"
    by (simp add: majorToAtomicAmount_def getCurrencyMetadata_def CURRENCY_METADATA_def toUpperCase_def upper_char_def
        groups pieces zeros)
  have "atomicAmountFromBigInt 1000000 = Inr (dec_of_nat 1000000)"
    by (simp add: fromBigInt_Inr atomic_range_def MAX_ATOMIC_VALUE_def)
  with this [unfolded atomic_amount_parse] show ?thesis
    by (simp add: policy_minor_def POLICY_CURRENCY_def label toMinorUnits_def atomic atomicAmountToLegacySafeNumber_def
        MAX_SAFE_INTEGER_def)
qed

lemma keeps_selection: "kept (resolveFundingSelection sha network now owner address n mode source)"
proof (rule keepsI)
  fix d :: "'a session_db_scheme" and r d'
  assume inv: "pass_inv d" and r: "resolveFundingSelection sha network now owner address n mode source d = (r, d')"
  from r have "only_wallets d d'"
    by (auto simp: resolveFundingSelection_def ensureConnectedWalletSource_def only_wallets_def save_source_def Let_def
      split: sum.splits option.splits prod.splits if_splits)
  with inv show "pass_inv d'" by (rule only_wallets_inv [rotated])
qed

lemma keeps_wallet_read: "kept (wallet_or_404 walletId)"
  by (rule keepsI) (drule wallet_or_404_only, simp)

lemma keeps_createSession: "kept (createSession w ce i walletId)"
proof -
  have new: "kept (\<lambda>d1. case plan_pass w ce i n of
             Inl e \<Rightarrow> (Inl e, d1)
           | Inr p \<Rightarrow>
              chain (create_pass w ce i walletId app sel p) (\<lambda>s d2.
                getWalletDocument w (ce_now ce) walletId
                  (writeAuditLog walletId ''session.created'' ''session'' (ses_publicId s) d2)) d1)" if "0 < n" for n app sel
    by (intro keeps_sum keeps_stop keeps_chain keeps_after [OF _ keeps_wallet] pass_audit_inv)
      (use that create_pass_inv in \<open>blast intro: keepsI\<close>)+
  have positive: "0 < n" if "validateCreateLimit n = Inr u" for n u
    using that by (auto simp: validateCreateLimit_def least_limit require_def bindE_def split: sum.splits if_splits)
  show ?thesis
    unfolding createSession_def
    by (rule keeps_read [where f = "requested_app i walletId"])
      (intro keeps_sum keeps_stop keeps_pair keeps_chain keeps_reconcile keeps_wallet_read keeps_selection new,
       auto simp: bindE_eq_Inr dest: positive)
qed


subsection \<open>Sequences of requests\<close>

text \<open>A request of a route or of the reconciliation worker, with what it reads from outside.\<close>

datatype session_request =
  Create create_env create_input string
| Charge charge_answers charge_input
| Top_up operation string string major "error + fiber_result"
| Toggle int string string
| Close operation string string close_reason "error + fiber_result"
| Grant int string string string "string list"
| Expire int nat

fun serve :: "session_world \<Rightarrow> session_request \<Rightarrow> session_db \<Rightarrow> session_db" where
  "serve w (Create ce i walletId) d = snd (createSession w ce i walletId d)"
| "serve w (Charge an i) d = snd (chargeSession w an i d)"
| "serve w (Top_up lo i walletId amount answer) d = snd (topUpSession w lo i walletId amount answer d)"
| "serve w (Toggle now i walletId) d = snd (togglePauseSession w now i walletId d)"
| "serve w (Close lo i walletId reason answer) d = snd (closeSession w lo i walletId reason answer d)"
| "serve w (Grant now i walletId appId permissions) d = snd (grantAppAccessToSession w now i walletId appId permissions d)"
| "serve w (Expire now limit) d = snd (expireDueSessions w now limit d)"

lemma serve_inv: "pass_inv d \<Longrightarrow> pass_inv (serve w q d)"
  by (cases q) (simp_all add: keeps_snd keeps_createSession keeps_chargeSession keeps_topUpSession keeps_togglePauseSession
      keeps_closeSession keeps_grant keeps_expireDueSessions)

lemma serve_all_inv: "pass_inv d \<Longrightarrow> pass_inv (fold (serve w) qs d)"
  by (induction qs arbitrary: d) (simp_all add: serve_inv)

text \<open>
  Property C37: any sequence of whole requests, each succeeding or failing at any of its points, keeps every
  pass funded: its active allocation holds exactly what the pass may still spend and a pending top-up, the charges
  reserved on it are covered, and what it spent and has reserved stays within its limit.
\<close>

theorem requests_keep_passes_funded:
  assumes "pass_inv d0" and "find_session i (fold (serve w) qs d0) = Some s"
  shows "held_for i (attempts (fold (serve w) qs d0)) + ses_spentOf s \<le> ses_limitOf s
    \<and> (\<forall>a. find_allocation i (fold (serve w) qs d0) = Some a \<and> alc_state a = AL_active \<longrightarrow>
          alc_left a = ses_limitOf s - ses_spentOf s + topping_up s \<and> held_for i (attempts (fold (serve w) qs d0)) \<le> alc_left a)"
proof -
  let ?d = "fold (serve w) qs d0"
  have inv: "pass_inv ?d" by (rule serve_all_inv [OF assms(1)])
  from assms(2) have s: "s \<in> set (sessions ?d)" "ses_publicId s = i" by (auto simp: find_session_def dest: find_SomeD)
  with inv have "held_for i (attempts ?d) + ses_spentOf s \<le> ses_limitOf s"
    using charge_inv_session by (fastforce simp: pass_inv_def session_ok_def)
  with pass_funded [OF inv pass_history.begin_pass assms(2)] show ?thesis by blast
qed

theorem requests_keep_passes_funded_witness:
  "\<exists>s. find_session ''pass'' (serve \<lparr>sw_vault = \<lambda>_ _. None, sw_cells = \<lambda>_. None, sw_network = ''net'', sw_sha = id\<rparr>
         (Toggle 5 ''pass'' ''w'') sample_pass_db) = Some s
     \<and> ses_status s = S_paused \<and> alc_left (sample_allocation 0 0) = ses_limitOf s - ses_spentOf s + topping_up s"
proof -
  let ?w = "\<lparr>sw_vault = \<lambda>_ _. None, sw_cells = \<lambda>_. None, sw_network = ''net'', sw_sha = id\<rparr>"
  let ?d = "serve ?w (Toggle 5 ''pass'' ''w'') sample_pass_db"
  have "getSessionOrThrow ''pass'' (Some ''w'') sample_pass_db = (Inr sample_pass, sample_pass_db)"
    by (simp add: getSessionOrThrow_def nonempty_def)
  moreover have "plan_toggle sample_pass = Inr S_paused"
    by (simp add: plan_toggle_def require_open_def require_idle_def require_def open_status_def lifecycle_idle_def)
  moreover obtain r e where doc: "getWalletDocument ?w 5 ''w''
      (writeAuditLog ''w'' ''session.paused'' ''session'' ''pass'' (write_toggle ''pass'' S_paused sample_pass_db)) = (r, e)"
    by fastforce
  ultimately have "?d = e" by (simp add: togglePauseSession_def chain_def)
  with getWalletDocument_only [OF doc] have d: "sessions ?d = [toggled_session S_paused sample_pass]"
      "allocations ?d = [sample_allocation 0 0]"
    by (auto simp: only_wallets_def write_toggle_def update_session_def)
  have "find_session ''pass'' (fold (serve ?w) [Toggle 5 ''pass'' ''w''] sample_pass_db) = Some (toggled_session S_paused sample_pass)"
    using d by (simp add: find_session_def toggled_session_def edit_detail_def)
  from requests_keep_passes_funded [OF sample_pass_inv this] d show ?thesis
    by (simp add: find_session_def find_allocation_def toggled_session_def edit_detail_def)
qed

end
