(* ===== verification/Session_Checks.thy ===== *)
theory Session_Checks
  imports Session_Proofs Session_Charging
begin

section \<open>What the checks of a pass guarantee\<close>

text \<open>
  The recipients a pass is created with, the grant a reservation is made under, and the release date that
  a charge computes.
\<close>

subsection \<open>Recipients\<close>

definition has_destination :: "recipient_wallet \<Rightarrow> bool" where
  "has_destination w \<longleftrightarrow> nonempty (rw_address w) \<noteq> None \<or> rw_fiberInvoice w \<noteq> None"

text \<open>A recipient the rest of the service can rely on; \<open>scheduled\<close> says that the purpose of the pass pays out.\<close>

definition recipient_ok :: "bool \<Rightarrow> recipient_wallet \<Rightarrow> bool" where
  "recipient_ok scheduled w \<longleftrightarrow>
     rw_name w \<noteq> [] \<and> (has_destination w \<or> rw_email w \<noteq> None)
     \<and> (case nonempty (rw_address w) of None \<Rightarrow> True | Some a \<Rightarrow> isFiberCkbAddress a)
     \<and> (case rw_amountMinor w of None \<Rightarrow> \<not> scheduled
        | Some m \<Rightarrow> 0 \<le> m \<and> isSafeInteger m \<and> (scheduled \<longrightarrow> 0 < m) \<and> rw_amount w \<noteq> None)
     \<and> rw_status w = Some (if has_destination w then RW_pending else RW_awaiting_details)
     \<and> rw_inviteStatus w = Some (if has_destination w then IV_not_required else IV_pending)"

definition address_keys :: "recipient_wallet list \<Rightarrow> string list" where
  "address_keys ws = List.map_filter (\<lambda>w. map_option toLowerCase (nonempty (rw_address w))) ws"

definition email_keys :: "recipient_wallet list \<Rightarrow> string list" where
  "email_keys ws = List.map_filter rw_email ws"

definition invoice_keys :: "recipient_wallet list \<Rightarrow> string list" where
  "invoice_keys ws = List.map_filter rw_fiberInvoice ws"

lemma keys_Cons:
  "address_keys (w # ws) = (case nonempty (rw_address w) of None \<Rightarrow> address_keys ws | Some a \<Rightarrow> toLowerCase a # address_keys ws)"
  "email_keys (w # ws) = (case rw_email w of None \<Rightarrow> email_keys ws | Some e \<Rightarrow> e # email_keys ws)"
  "invoice_keys (w # ws) = (case rw_fiberInvoice w of None \<Rightarrow> invoice_keys ws | Some e \<Rightarrow> e # invoice_keys ws)"
  by (simp_all add: address_keys_def email_keys_def invoice_keys_def map_filter_simps split: option.splits)

lemma keys_Nil [simp]: "address_keys [] = []" "email_keys [] = []" "invoice_keys [] = []"
  by (simp_all add: address_keys_def email_keys_def invoice_keys_def map_filter_simps)

lemma checked_recipient_Inr:
  assumes "checked_recipient c m = Inr w"
  shows "rw_name w = rc_name c" "rw_address w = Some (rc_address c)" "rw_email w = rc_email c"
    "rw_fiberInvoice w = rc_fiberInvoice c" "rw_amountMinor w = m"
    "\<And>v. m = Some v \<Longrightarrow> 0 \<le> v \<and> isSafeInteger v \<and> rw_amount w \<noteq> None"
    "rw_status w = Some (if has_destination w then RW_pending else RW_awaiting_details)"
    "rw_inviteStatus w = Some (if rc_email c \<noteq> None \<and> \<not> has_destination w then IV_pending else IV_not_required)"
  using assms
  by (auto simp: checked_recipient_def Let_def has_destination_def nonempty_def dest: fromMinor_safe split: option.splits)

lemma check_recipients_Inr:
  assumes "check_recipients scheduled as es is cs = Inr ws"
  shows "length ws = length cs \<and> (\<forall>w \<in> set ws. recipient_ok scheduled w)
    \<and> distinct (address_keys ws) \<and> set (address_keys ws) \<inter> set as = {}
    \<and> distinct (email_keys ws) \<and> set (email_keys ws) \<inter> set es = {}
    \<and> distinct (invoice_keys ws) \<and> set (invoice_keys ws) \<inter> set is = {}"
  using assms
proof (induction cs arbitrary: as es "is" ws)
  case (Cons c cs)
  let ?as = "if rc_address c \<noteq> [] then toLowerCase (rc_address c) # as else as"
  let ?es = "if rc_email c \<noteq> None then opt_or (rc_email c) [] # es else es"
  let ?is = "if rc_fiberInvoice c \<noteq> None then opt_or (rc_fiberInvoice c) [] # is else is"
  from Cons.prems obtain m w rest where ok: "rc_name c \<noteq> []"
      "rc_address c \<noteq> [] \<or> rc_email c \<noteq> None \<or> rc_fiberInvoice c \<noteq> None"
      "rc_address c \<noteq> [] \<Longrightarrow> isFiberCkbAddress (rc_address c)"
      "scheduled \<Longrightarrow> \<exists>v. m = Some v \<and> 0 < v"
      "rc_address c \<noteq> [] \<Longrightarrow> toLowerCase (rc_address c) \<notin> set as"
      "rc_email c \<noteq> None \<Longrightarrow> opt_or (rc_email c) [] \<notin> set es"
      "rc_fiberInvoice c \<noteq> None \<Longrightarrow> opt_or (rc_fiberInvoice c) [] \<notin> set is"
    and w: "checked_recipient c m = Inr w" and rest: "check_recipients scheduled ?as ?es ?is cs = Inr rest" and ws: "ws = w # rest"
    by (auto simp: Let_def not_le split: if_splits option.splits)
  note field = checked_recipient_Inr [OF w]
  have "recipient_ok scheduled w"
    using ok(1-4) field by (auto simp: recipient_ok_def has_destination_def nonempty_def split: option.splits)
  with Cons.IH [OF rest] ok(5-7) field(2-4) show ?case
    by (auto simp: ws keys_Cons nonempty_def split: option.splits if_splits)
qed simp

text \<open>
  Property C38: the recipients of a pass are well formed. Whatever a request contains, the list that comes
  out of the normalization has at most 25 recipients, at least one when the purpose pays out, each with a name, a
  valid address, invoice or e-mail, an exact amount (positive when the purpose pays out) and the status that
  matches its destination, and no address, e-mail or invoice occurs twice.
\<close>

theorem recipients_well_formed:
  assumes "normalizeRecipientWallets purpose recipientName recipientAddress inputs = Inr ws"
  shows "length ws \<le> 25 \<and> (scheduled_purpose purpose \<longrightarrow> ws \<noteq> []) \<and> (\<forall>w \<in> set ws. recipient_ok (scheduled_purpose purpose) w)
    \<and> distinct (address_keys ws) \<and> distinct (email_keys ws) \<and> distinct (invoice_keys ws)"
proof -
  from assms obtain cs where "(if scheduled_purpose purpose \<and> cs = [] then Inl (ApiError 400 ''RECIPIENT_WALLETS_REQUIRED'')
      else if length cs > 25 then Inl (ApiError 400 ''TOO_MANY_RECIPIENT_WALLETS'')
      else check_recipients (scheduled_purpose purpose) [] [] [] cs) = Inr ws"
    unfolding normalizeRecipientWallets_def Let_def bindE_eq_Inr by blast
  then have cs: "length cs \<le> 25" "scheduled_purpose purpose \<Longrightarrow> cs \<noteq> []"
      "check_recipients (scheduled_purpose purpose) [] [] [] cs = Inr ws"
    by (auto split: if_splits)
  from check_recipients_Inr [OF cs(3)] cs(1,2) show ?thesis by auto
qed

theorem recipients_well_formed_witness:
  "\<exists>ws. normalizeRecipientWallets PP_app_session None None
      [\<lparr>rn_name = Some ''Ann'', rn_address = None, rn_email = Some '' A@b.c '', rn_amount = None, rn_amountMinor = None,
        rn_fiberInvoice = None\<rparr>] = Inr ws
     \<and> distinct (email_keys ws) \<and> email_keys ws = [''a@b.c'']"
proof -
  let ?i = "\<lparr>rn_name = Some ''Ann'', rn_address = None, rn_email = Some '' A@b.c '', rn_amount = None, rn_amountMinor = None,
        rn_fiberInvoice = None\<rparr>"
  have "case normalizeRecipientWallets PP_app_session None None [?i] of Inr [w] \<Rightarrow> rw_email w = Some ''a@b.c'' | _ \<Rightarrow> False"
    by code_simp
  then obtain w where w: "normalizeRecipientWallets PP_app_session None None [?i] = Inr [w]" "rw_email w = Some ''a@b.c''"
    by (auto split: sum.splits list.splits)
  from recipients_well_formed [OF w(1)] w show ?thesis by (auto simp: keys_Cons)
qed

subsection \<open>The grant a reservation is made under\<close>

lemma reserve_created:
  assumes "reserveChargeAttempt now i d = (Inr (a, True), d')"
  shows "reserve_body now i d = (Inr (a, True), d')"
  using assms
  by (cases "reserve_body now i d") (auto simp: reserveChargeAttempt_def transaction_def split: sum.splits error.splits option.splits)

text \<open>A reservation does not read the expiry of the pass.\<close>

definition with_expiry :: "int option \<Rightarrow> 'a core_db_scheme \<Rightarrow> 'a core_db_scheme" where
  "with_expiry e d = d\<lparr>sessions := map (\<lambda>s. s\<lparr>ses_expiryAt := e\<rparr>) (sessions d)\<rparr>"

lemma with_expiry_frame [simp]:
  "sessions (with_expiry e d) = map (\<lambda>s. s\<lparr>ses_expiryAt := e\<rparr>) (sessions d)"
  "attempts (with_expiry e d) = attempts d" "day_counters (with_expiry e d) = day_counters d"
  "existingAttempt k i (with_expiry e d) = existingAttempt k i d"
  "upsert_counter k now (with_expiry e d) = with_expiry e (upsert_counter k now d)"
  by (simp_all add: with_expiry_def existingAttempt_def upsert_counter_def historicalSpend_def Let_def)

lemma update_first_map:
  "(\<And>x. p (g x) = p x) \<Longrightarrow> (\<And>x. f (g x) = g (f x)) \<Longrightarrow> update_first p f (map g xs) = map g (update_first p f xs)"
  by (induction xs) simp_all

lemma find_map_same: "(\<And>x. p (g x) = p x) \<Longrightarrow> List.find p (map g xs) = map_option g (List.find p xs)"
  by (induction xs) simp_all

lemma find_and_update_map:
  "(\<And>x. p (g x) = p x) \<Longrightarrow> (\<And>x. f (g x) = g (f x)) \<Longrightarrow>
    find_and_update p f (map g xs) = map_option (map_prod g (map g)) (find_and_update p f xs)"
  by (simp add: find_and_update_def find_map_same update_first_map split: option.split)

lemma reserve_body_expiry:
  assumes "\<And>s. flt_fields (ri_sessionMatch i) (s\<lparr>ses_expiryAt := e\<rparr>) = flt_fields (ri_sessionMatch i) s"
    and "reserve_body now i d = (Inr (a, True), d')"
  shows "reserve_body now i (with_expiry e d) = (Inr (a, True), with_expiry e d')"
proof -
  have money: "ses_spentOf (s\<lparr>ses_expiryAt := e\<rparr>) = ses_spentOf s" "ses_reservedOf (s\<lparr>ses_expiryAt := e\<rparr>) = ses_reservedOf s"
    "ses_limitOf (s\<lparr>ses_expiryAt := e\<rparr>) = ses_limitOf s" for s
    by (simp_all add: ses_spentOf_def ses_reservedOf_def ses_limitOf_def)
  have p: "reservable_session i (s\<lparr>ses_expiryAt := e\<rparr>) = reservable_session i s" for s
    by (simp add: reservable_session_iff assms(1) sessionReservationExpression_def money)
  have f: "inc_session_reserved n (s\<lparr>ses_expiryAt := e\<rparr>) = (inc_session_reserved n s)\<lparr>ses_expiryAt := e\<rparr>" for n s
    by (simp add: inc_session_reserved_def money)
  note map = find_and_update_map [where p = "reservable_session i" and f = "inc_session_reserved (ri_amountMinor i)"
      and g = "\<lambda>s. s\<lparr>ses_expiryAt := e\<rparr>", OF p f]
  have with_rows: "(with_expiry e x)\<lparr>sessions := map (\<lambda>s. s\<lparr>ses_expiryAt := e\<rparr>) ss, day_counters := cs, attempts := xs\<rparr>
      = with_expiry e (x\<lparr>sessions := ss, day_counters := cs, attempts := xs\<rparr>)" for x ss cs xs
    by (simp add: with_expiry_def)
  from assms(2) show ?thesis
    by (auto simp: reserve_body_def Let_def map with_rows split: option.splits sum.splits)
qed

text \<open>
  Property C39: a charge of an application is reserved under the grant that stands when it is reserved, but
  whatever the expiry date is by then. When a request passed the checks on the pass as it read it and creates
  a reservation on the pass as it is then, the pass still satisfies every check of the grant, is active and
  idle, and has the money: revoking the grant, pausing or closing the pass or renewing it for another service
  address in between makes the reservation fail. Its expiry is not checked again: with any other expiry date,
  a past one included, on the pass at that moment the same call makes the same reservation.
\<close>

theorem reservation_rechecks_grant:
  assumes "charge_preflight x s (an_now an) = Inr ()" and "ci_chargeOrigin (cx_input x) = Some CO_app_api_key"
    and "reserveChargeAttempt (an_now an) (charge_reserve_input an x s amount correlation hash metadata) d = (Inr (a, True), d')"
  shows "(\<exists>t \<in> set (sessions d). ses_publicId t = ci_sessionId (cx_input x)
      \<and> assertDirectAppChargeAuthorized t (cx_input x) = Inr () \<and> ses_status t = S_active \<and> lifecycle_idle t
      \<and> ses_spentOf t + ses_reservedOf t + cx_amountMinor x \<le> ses_limitOf t)
    \<and> (\<forall>e. reserveChargeAttempt (an_now an) (charge_reserve_input an x s amount correlation hash metadata) (with_expiry e d)
        = (Inr (a, True), with_expiry e d'))"
proof -
  let ?i = "charge_reserve_input an x s amount correlation hash metadata"
  note filter = charge_reserve_input_def Let_def charge_session_match_def any_session_def
  from assms(3) have body: "reserve_body (an_now an) ?i d = (Inr (a, True), d')" by (rule reserve_created)
  then obtain t where t: "t \<in> set (sessions d)" "reservable_session ?i t"
    by (cases rule: reserve_body_Inr) (auto simp: find_and_update_Some dest: find_SomeD)
  have snapshot: "assertDirectAppChargeAuthorized s (cx_input x) = Inr ()"
    using assms(1) by (auto simp: charge_preflight_def assertChargePreflight_def split: sum.splits)
  have "trim ''charges:create'' = ''charges:create''" by code_simp
  then have granted: "''charges:create'' \<in> set ps \<Longrightarrow> ''charges:create'' \<in> set (normalizeSessionAppPermissions ps False)" for ps
    using image_eqI [of "''charges:create''" trim "''charges:create''" "set ps"]
    by (simp add: normalizeSessionAppPermissions_def Let_def dedupe_def)
  from t(2) snapshot assms(2) granted have auth: "assertDirectAppChargeAuthorized t (cx_input x) = Inr ()"
    by (auto simp: reservable_session_iff filter assertDirectAppChargeAuthorized_def require_def split: if_splits)
  have "reserve_body (an_now an) ?i (with_expiry e d) = (Inr (a, True), with_expiry e d')" for e
    by (rule reserve_body_expiry [OF _ body]) (simp add: filter)
  then have "reserveChargeAttempt (an_now an) ?i (with_expiry e d) = (Inr (a, True), with_expiry e d')" for e
    by (simp add: reserveChargeAttempt_def transaction_def)
  moreover have "ses_publicId t = ci_sessionId (cx_input x) \<and> ses_status t = S_active \<and> lifecycle_idle t
      \<and> ses_spentOf t + ses_reservedOf t + cx_amountMinor x \<le> ses_limitOf t"
    using t(2) by (auto simp: reservable_session_iff filter lifecycle_idle_def sessionReservationExpression_def)
  ultimately show ?thesis using t(1) auth by blast
qed

definition sample_granted :: session where
  "sample_granted = sample_session\<lparr>ses_appId := Some ''app'', ses_appGrantOwnerWalletId := Some ''w'',
     ses_appPermissions := [''charges:create''], ses_autoMicroCharges := True,
     ses_detail := blank_detail\<lparr>det_serviceAddress := ''svc'', det_appGrantCreatedAt := Some 1\<rparr>\<rparr>"

definition sample_app_charge :: charge_context where
  "sample_app_charge =
     \<lparr>cx_input = \<lparr>ci_sessionId = ''pass'', ci_amount = 0, ci_type = ''debit'', ci_appId = Some ''app'', ci_apiKeyId = None,
        ci_appOwnerWalletId = Some ''w'', ci_appServiceAddress = Some ''svc'', ci_chargeOrigin = Some CO_app_api_key,
        ci_idempotencyKey = Some ''k'', ci_serviceReference = None, ci_paymentRequest = None,
        ci_deferSingleUseSettlement = False, ci_metadata = []\<rparr>,
      cx_amountMinor = 30, cx_key = ''k'', cx_reference = None, cx_recipient = None, cx_scheduled = False, cx_direct = False,
      cx_localHash = None, cx_metadata = [], cx_fingerprint = ''f''\<rparr>"

definition sample_answers :: charge_answers where
  "sample_answers = \<lparr>an_registered = Inr (), an_executes = True, an_connectorId = ''c'', an_quote = Inl DuplicateKey,
     an_execute = Inl DuplicateKey, an_lookup = Inl DuplicateKey, an_settle = Inl DuplicateKey, an_dailyLimitMinor = 50,
     an_attemptId = ''a1'', an_leaseId = ''lease'', an_now = 0\<rparr>"

lemma sample_app_preflight: "charge_preflight sample_app_charge sample_granted 0 = Inr ()"
  by code_simp

lemma sample_app_reserve:
  "\<exists>a d'. reserveChargeAttempt 0 (charge_reserve_input sample_answers sample_app_charge sample_granted 0 ''c'' None [])
     (empty_db\<lparr>sessions := [sample_granted]\<rparr>) = (Inr (a, True), d')"
proof -
  let ?i = "charge_reserve_input sample_answers sample_app_charge sample_granted 0 ''c'' None []"
  let ?d = "empty_db\<lparr>sessions := [sample_granted]\<rparr>"
  have i: "ri_sessionId ?i = ''pass''" "ri_idempotencyKey ?i = ''k''" "ri_amountMinor ?i = 30" "ri_dailyLimitMinor ?i = 50"
      "ri_currency ?i = ''CKB''"
    by (simp_all add: charge_reserve_input_def Let_def sample_app_charge_def sample_answers_def sample_granted_def sample_session_def)
  have "legacyMinorToAtomicAmount 30 = Inr (dec_of_nat 30)" by (simp add: legacy_value MAX_SAFE_INTEGER_def)
  moreover have "reservable_session ?i sample_granted"
    by (simp add: reservable_session_iff charge_reserve_input_def Let_def charge_session_match_def any_session_def sample_app_charge_def
        sample_granted_def sample_session_def sample_answers_def sessionReservationExpression_def ses_spentOf_def
        ses_reservedOf_def ses_limitOf_def)
  moreover define c where "c = \<lparr>day_sessionId = ''pass'', day_day = chargeReservationDay 0, day_spentMinor = 0, day_reservedMinor = 0\<rparr>"
  moreover have "upsert_counter ''pass'' 0 ?d = ?d\<lparr>day_counters := [c]\<rparr>"
    by (simp add: upsert_counter_def c_def historicalSpend_def empty_db_def Let_def)
  moreover have "existingAttempt ''pass'' ''k'' ?d = None" by (simp add: existingAttempt_def empty_db_def)
  moreover have "sessions ?d = [sample_granted]" "attempts ?d = []" by (simp_all add: empty_db_def)
  ultimately have "\<exists>a d'. reserve_body 0 ?i ?d = (Inr (a, True), d')"
    by (simp add: reserve_body_def find_and_update_def asset_ckb insert_row_def Let_def is_counter_def
        dailyReservationExpression_def inc_day_reserved_def i)
  then show ?thesis by (auto simp: reserveChargeAttempt_def transaction_def)
qed

theorem reservation_rechecks_grant_witness:
  "assertDirectAppChargeAuthorized sample_granted (cx_input sample_app_charge) = Inr ()
    \<and> (\<exists>a d'. reserveChargeAttempt 0 (charge_reserve_input sample_answers sample_app_charge sample_granted 0 ''c'' None [])
         (with_expiry (Some (- 1)) (empty_db\<lparr>sessions := [sample_granted]\<rparr>)) = (Inr (a, True), d'))"
proof -
  obtain a d' where r: "reserveChargeAttempt 0 (charge_reserve_input sample_answers sample_app_charge sample_granted 0 ''c'' None [])
     (empty_db\<lparr>sessions := [sample_granted]\<rparr>) = (Inr (a, True), d')"
    using sample_app_reserve by blast
  have "an_now sample_answers = 0" "ci_chargeOrigin (cx_input sample_app_charge) = Some CO_app_api_key"
    by (simp_all add: sample_answers_def sample_app_charge_def)
  with reservation_rechecks_grant [where x = sample_app_charge and s = sample_granted and an = sample_answers] r sample_app_preflight
  show ?thesis by fastforce
qed

end
