(* ===== verification/Session_Dates.thy ===== *)
theory Session_Dates
  imports Session_Rules Schedule_Calendar
begin

section \<open>The release dates of a pass\<close>

text \<open>
  \<open>advanceReleaseDate\<close> moves a monthly release with \<open>setUTCMonth\<close>, which keeps the day number; this is what it
  computes in every month, over the calendar of \<open>Schedule_Calendar\<close>.
\<close>

lemma day_of_date_civil: "1 \<le> m \<Longrightarrow> m \<le> 12 \<Longrightarrow> day_of_date y m d = day_of_civil y m d"
proof -
  assume m: "1 \<le> m" "m \<le> 12"
  have "(if m > 2 then m - 3 else m + 9) = (m + 9) mod 12" using month_cases [OF m] by (elim disjE) simp_all
  then show ?thesis by (simp add: day_of_date_def day_of_civil_def Let_def)
qed

text \<open>A day beyond the end of a month that is followed by another month of the same year.\<close>

lemma day_beyond_month:
  assumes "1 \<le> m" "m < 12"
  shows "day_of_civil y m d = day_of_civil y (m + 1) (d - days_in_month y m)"
proof (cases "m = 2")
  case True
  with year_length [of "y - 1"] show ?thesis by (simp add: day_of_civil_start month_start_def days_in_month_def)
next
  case False
  have "m \<le> 12" using assms(2) by simp
  from month_cases [OF assms(1) this] False assms(2) show ?thesis
    by (elim disjE) (simp_all add: day_of_civil_start month_start_def days_in_month_def)
qed

lemma utc_parts: "(z * MS_PER_DAY + t mod MS_PER_DAY) div MS_PER_DAY = z" "(z * MS_PER_DAY + t mod MS_PER_DAY) mod MS_PER_DAY = t mod MS_PER_DAY"
  by (simp_all add: MS_PER_DAY_def)

text \<open>
  Property C40: where a monthly release goes. The next release is at the same time of day, on the same day
  of the next month if that month has it; otherwise it runs over into the month after, by the days that are missing,
  so a pass released on the 31st of January skips February and is released on the 2nd or 3rd of every month from
  March on.
\<close>

theorem monthly_release_runs_over:
  assumes "civil_of_day (t div MS_PER_DAY) = (y, m, d)" and "(y', m') = (if m = 12 then (y + 1, 1) else (y, m + 1))"
  shows "\<exists>t'. advanceReleaseDate (Some t) RL_monthly now = Some t' \<and> t' mod MS_PER_DAY = t mod MS_PER_DAY
    \<and> civil_of_day (t' div MS_PER_DAY)
        = (if d \<le> days_in_month y' m' then (y', m', d) else (y', m' + 1, d - days_in_month y' m'))"
proof -
  have v: "1 \<le> m" "m \<le> 12" "1 \<le> d" "d \<le> days_in_month y m"
    using civil_of_day_valid(1) [OF assms(1)] by (simp_all add: valid_date_def)
  have m': "1 \<le> m'" "m' \<le> 12" using assms(2) v(1,2) by (auto split: if_splits)
  have d31: "d \<le> 31" using v(4) by (simp add: days_in_month_def split: if_splits)
  let ?t = "day_of_civil y' m' d * MS_PER_DAY + t mod MS_PER_DAY"
  have next_month: "advanceReleaseDate (Some t) RL_monthly now = Some ?t"
    using assms(2) day_of_date_civil [OF m', of y' d]
    by (simp add: advanceReleaseDate_def add_utc_month_def assms(1) split: if_splits)
  have "civil_of_day (day_of_civil y' m' d)
      = (if d \<le> days_in_month y' m' then (y', m', d) else (y', m' + 1, d - days_in_month y' m'))"
  proof (cases "d \<le> days_in_month y' m'")
    case True
    then have "valid_date y' m' d" using m' v(3) by (simp add: valid_date_def)
    with True civil_day_roundtrip show ?thesis by simp
  next
    case False
    then have short: "m' < 12" "d - days_in_month y' m' \<le> days_in_month y' (m' + 1)"
      using d31 m' month_cases [OF m'] by (auto simp: days_in_month_def split: if_splits)
    with False m' have "valid_date y' (m' + 1) (d - days_in_month y' m')" by (simp add: valid_date_def)
    with False day_beyond_month [OF m'(1) short(1)] civil_day_roundtrip show ?thesis by simp
  qed
  with next_month utc_parts show ?thesis by simp
qed

theorem monthly_release_runs_over_witness:
  "\<exists>t'. advanceReleaseDate (Some (20484 * MS_PER_DAY)) RL_monthly 0 = Some t' \<and> civil_of_day (t' div MS_PER_DAY) = (2026, 3, 3)"
proof -
  have "civil_of_day 20484 = (2026, 1, 31)" "days_in_month 2026 2 = 28" by code_simp+
  then show ?thesis
    using monthly_release_runs_over [where t = "20484 * MS_PER_DAY" and y = 2026 and m = 1 and d = 31 and y' = 2026 and m' = 2 and now = 0]
    by (simp add: MS_PER_DAY_def) blast
qed

end
